(* ===== verification/Prelude.thy ===== *)
theory Prelude
  imports Main "HOL-Library.Char_ord" "HOL-Library.List_Lexorder" "HOL-Library.Word"
begin

text \<open>
  Shared vocabulary of the development.

  A Rust \<open>String\<close>/\<open>\&str\<close> and a byte vector are both a \<open>string\<close> here, i.e. a list of
  \<open>char\<close>, and a \<open>char\<close> is one byte. Slicing a \<open>\&str\<close> off a character boundary panics in
  Rust, so slices are partial; \<open>utf8_ok\<close> is the validity check that \<open>read_line\<close> applies.
  The theory holds: panics as values, byte classes, UTF-8, the standard library's string
  functions the relay calls, decimal printing and parsing, and result types.
\<close>

text \<open>
  \<open>eval\<close> collects the definitions that \<open>simp\<close> needs to run the model on a concrete input; each
  theory adds its own.
\<close>

named_theorems eval

section \<open>Results\<close>

text \<open>A computation that may panic (unwind the task) instead of returning.\<close>

datatype 'a outcome = Ret 'a | Panic

fun bind_out :: "'a outcome \<Rightarrow> ('a \<Rightarrow> 'b outcome) \<Rightarrow> 'b outcome" where
  "bind_out (Ret x) f = f x"
| "bind_out Panic f = Panic"

lemma bind_out_Ret_iff: "bind_out m f = Ret y \<longleftrightarrow> (\<exists>x. m = Ret x \<and> f x = Ret y)"
  by (cases m) auto

definition is_ok :: "'e + 'a \<Rightarrow> bool" where
  "is_ok r = (case r of Inl _ \<Rightarrow> False | Inr _ \<Rightarrow> True)"

lemma is_ok_simps [simp]: "is_ok (Inl e) = False" "is_ok (Inr x) = True"
  by (simp_all add: is_ok_def)

fun sequence_opt :: "'a option list \<Rightarrow> 'a list option" where
  "sequence_opt [] = Some []"
| "sequence_opt (None # xs) = None"
| "sequence_opt (Some x # xs) = map_option (Cons x) (sequence_opt xs)"

lemma sequence_opt_map_Some [simp]: "sequence_opt (map (\<lambda>x. Some (f x)) xs) = Some (map f xs)"
  by (induction xs) auto

lemma sequence_opt_map_enc:
  assumes "\<And>x. x \<in> set xs \<Longrightarrow> d (e x) = Some x"
  shows "sequence_opt (map (\<lambda>x. d (e x)) xs) = Some xs"
  using assms by (induction xs) auto

section \<open>Bytes\<close>

definition byte :: "char \<Rightarrow> nat" where
  "byte c = of_char c"

definition chr :: "nat \<Rightarrow> char" where
  "chr n = char_of n"

lemma byte_chr [simp]: "n < 256 \<Longrightarrow> byte (chr n) = n"
  by (simp add: byte_def chr_def)

lemma chr_byte [simp]: "chr (byte c) = c"
  by (simp add: byte_def chr_def)

lemma byte_less [simp]: "byte c < 256"
  using nat_of_char_less_256 by (simp add: byte_def)

lemma byte_inj: "byte a = byte b \<Longrightarrow> a = b"
  by (simp add: byte_def)

definition CR :: char where "CR = CHR 0x0D"
definition LF :: char where "LF = CHR 0x0A"
definition SP :: char where "SP = CHR 0x20"
definition CRLF :: string where "CRLF = [CHR 0x0D, CHR 0x0A]"

lemma CR_neq_LF [simp]: "CR \<noteq> LF" "LF \<noteq> CR"
  by (simp_all add: CR_def LF_def)

lemma byte_CR_LF [simp]: "byte CR = 13" "byte LF = 10" "byte SP = 32"
  by (simp_all add: byte_def CR_def LF_def SP_def)

lemma CRLF_eq: "CRLF = [CR, LF]"
  by (simp add: CRLF_def CR_def LF_def)

definition is_digit :: "char \<Rightarrow> bool" where
  "is_digit c \<longleftrightarrow> 48 \<le> byte c \<and> byte c \<le> 57"

definition is_upper :: "char \<Rightarrow> bool" where
  "is_upper c \<longleftrightarrow> 65 \<le> byte c \<and> byte c \<le> 90"

definition is_lower :: "char \<Rightarrow> bool" where
  "is_lower c \<longleftrightarrow> 97 \<le> byte c \<and> byte c \<le> 122"

text \<open>Bit 5 (value 32) is the case bit of an ASCII letter.\<close>

fun set_case_bit :: "bool \<Rightarrow> char \<Rightarrow> char" where
  "set_case_bit b (Char b0 b1 b2 b3 b4 b5 b6 b7) = Char b0 b1 b2 b3 b4 b b6 b7"

definition ascii_lower_char :: "char \<Rightarrow> char" where
  "ascii_lower_char c = (if is_upper c then set_case_bit True c else c)"

definition ascii_upper_char :: "char \<Rightarrow> char" where
  "ascii_upper_char c = (if is_lower c then set_case_bit False c else c)"

definition ascii_lower :: "string \<Rightarrow> string" where
  "ascii_lower s = map ascii_lower_char s"

definition ascii_upper :: "string \<Rightarrow> string" where
  "ascii_upper s = map ascii_upper_char s"

definition eq_ignore_ascii_case :: "string \<Rightarrow> string \<Rightarrow> bool" where
  "eq_ignore_ascii_case s t \<longleftrightarrow> ascii_lower s = ascii_lower t"

definition is_ascii :: "string \<Rightarrow> bool" where
  "is_ascii s \<longleftrightarrow> list_all (\<lambda>c. byte c < 128) s"

lemma byte_Char: "byte (Char b0 b1 b2 b3 b4 b5 b6 b7) =
    of_bool b0 + 2 * of_bool b1 + 4 * of_bool b2 + 8 * of_bool b3 + 16 * of_bool b4
    + 32 * of_bool b5 + 64 * of_bool b6 + 128 * of_bool b7"
  by (simp add: byte_def of_char_def horner_sum_simps)

lemma is_upper_set_case_bit [simp]: "is_upper c \<Longrightarrow> \<not> is_upper (set_case_bit True c)"
  by (cases c) (auto simp: is_upper_def byte_Char split: if_splits)

lemma ascii_lower_char_idem [simp]: "ascii_lower_char (ascii_lower_char c) = ascii_lower_char c"
  by (auto simp: ascii_lower_char_def)

lemma ascii_lower_idem [simp]: "ascii_lower (ascii_lower s) = ascii_lower s"
  by (simp add: ascii_lower_def)

text \<open>The visible ASCII characters, none of which is whitespace.\<close>

definition graphic :: "char \<Rightarrow> bool" where
  "graphic c \<longleftrightarrow> 33 \<le> byte c \<and> byte c \<le> 126"

section \<open>UTF-8\<close>

text \<open>A continuation byte: the only bytes that are not the start of a character.\<close>

definition is_cont :: "char \<Rightarrow> bool" where
  "is_cont c \<longleftrightarrow> 128 \<le> byte c \<and> byte c < 192"

text \<open>Rust's \<open>str::from_utf8\<close>: the well-formed byte sequences of the Unicode standard.\<close>

fun utf8_ok :: "string \<Rightarrow> bool" where
  "utf8_ok [] = True"
| "utf8_ok (a # r) =
    (let n = byte a in
     if n < 128 then utf8_ok r
     else if 194 \<le> n \<and> n \<le> 223 then
       (case r of b # r' \<Rightarrow> is_cont b \<and> utf8_ok r' | _ \<Rightarrow> False)
     else if 224 \<le> n \<and> n \<le> 239 then
       (case r of b # c # r' \<Rightarrow>
           is_cont b \<and> is_cont c \<and> (n = 224 \<longrightarrow> 160 \<le> byte b) \<and> (n = 237 \<longrightarrow> byte b < 160)
           \<and> utf8_ok r'
        | _ \<Rightarrow> False)
     else if 240 \<le> n \<and> n \<le> 244 then
       (case r of b # c # d # r' \<Rightarrow>
           is_cont b \<and> is_cont c \<and> is_cont d
           \<and> (n = 240 \<longrightarrow> 144 \<le> byte b) \<and> (n = 244 \<longrightarrow> byte b < 144) \<and> utf8_ok r'
        | _ \<Rightarrow> False)
     else False)"

definition char_boundary :: "string \<Rightarrow> nat \<Rightarrow> bool" where
  "char_boundary s i \<longleftrightarrow> i = 0 \<or> i = length s \<or> (i < length s \<and> \<not> is_cont (s ! i))"

text \<open>\<open>\&s[..n]\<close> and \<open>\&s[n..]\<close>: \<open>Panic\<close> off a boundary or past the end.\<close>

definition slice_to :: "string \<Rightarrow> nat \<Rightarrow> string outcome" where
  "slice_to s n = (if char_boundary s n then Ret (take n s) else Panic)"

definition slice_from :: "string \<Rightarrow> nat \<Rightarrow> string outcome" where
  "slice_from s n = (if char_boundary s n then Ret (drop n s) else Panic)"

lemma is_ascii_boundary: "is_ascii s \<Longrightarrow> n \<le> length s \<Longrightarrow> char_boundary s n"
  by (cases "n = length s") (auto simp: char_boundary_def is_ascii_def is_cont_def list_all_length dest!: spec [of _ n])

lemma slice_to_ascii: "is_ascii s \<Longrightarrow> n \<le> length s \<Longrightarrow> slice_to s n = Ret (take n s)"
  by (simp add: slice_to_def is_ascii_boundary)

lemma slice_from_ascii: "is_ascii s \<Longrightarrow> n \<le> length s \<Longrightarrow> slice_from s n = Ret (drop n s)"
  by (simp add: slice_from_def is_ascii_boundary)

lemma is_ascii_Cons [simp]: "is_ascii (c # s) \<longleftrightarrow> byte c < 128 \<and> is_ascii s"
  by (simp add: is_ascii_def)

lemma is_ascii_Nil [simp]: "is_ascii []"
  by (simp add: is_ascii_def)

lemma is_ascii_append [simp]: "is_ascii (s @ t) \<longleftrightarrow> is_ascii s \<and> is_ascii t"
  by (simp add: is_ascii_def)

lemma utf8_ok_ascii: "is_ascii s \<Longrightarrow> utf8_ok s"
  by (induction s) (simp_all add: Let_def)

section \<open>The string functions of the standard library\<close>

definition is_prefix :: "string \<Rightarrow> string \<Rightarrow> bool" where
  "is_prefix p s \<longleftrightarrow> take (length p) s = p"

definition is_suffix :: "string \<Rightarrow> string \<Rightarrow> bool" where
  "is_suffix p s \<longleftrightarrow> is_prefix (rev p) (rev s)"

definition strip_prefix :: "string \<Rightarrow> string \<Rightarrow> string option" where
  "strip_prefix p s = (if is_prefix p s then Some (drop (length p) s) else None)"

definition strip_suffix :: "string \<Rightarrow> string \<Rightarrow> string option" where
  "strip_suffix p s = (if is_suffix p s then Some (take (length s - length p) s) else None)"

fun contains :: "string \<Rightarrow> string \<Rightarrow> bool" where
  "contains [] p = (p = [])"
| "contains (c # s) p = (is_prefix p (c # s) \<or> contains s p)"

text \<open>\<open>str::find\<close>: the byte index of the first occurrence.\<close>

fun find_sub :: "string \<Rightarrow> string \<Rightarrow> nat option" where
  "find_sub [] p = (if p = [] then Some 0 else None)"
| "find_sub (c # s) p =
    (if is_prefix p (c # s) then Some 0 else map_option Suc (find_sub s p))"

text \<open>\<open>split_once\<close> and \<open>rsplit_once\<close> on a one-byte separator.\<close>

fun split_once :: "char \<Rightarrow> string \<Rightarrow> (string \<times> string) option" where
  "split_once x [] = None"
| "split_once x (c # s) =
    (if c = x then Some ([], s) else map_option (\<lambda>(a, b). (c # a, b)) (split_once x s))"

definition rsplit_once :: "char \<Rightarrow> string \<Rightarrow> (string \<times> string) option" where
  "rsplit_once x s = map_option (\<lambda>(a, b). (rev b, rev a)) (split_once x (rev s))"

fun split_on :: "char \<Rightarrow> string \<Rightarrow> string list" where
  "split_on x [] = [[]]"
| "split_on x (c # s) =
    (if c = x then [] # split_on x s
     else (case split_on x s of [] \<Rightarrow> [[c]] | t # ts \<Rightarrow> (c # t) # ts))"

fun join :: "string \<Rightarrow> string list \<Rightarrow> string" where
  "join sep [] = []"
| "join sep [x] = x"
| "join sep (x # y # zs) = x @ sep @ join sep (y # zs)"

definition trim_end_chars :: "char list \<Rightarrow> string \<Rightarrow> string" where
  "trim_end_chars cs s = rev (dropWhile (\<lambda>c. c \<in> set cs) (rev s))"

definition trim_start_chars :: "char list \<Rightarrow> string \<Rightarrow> string" where
  "trim_start_chars cs s = dropWhile (\<lambda>c. c \<in> set cs) s"

definition trim_matches :: "char list \<Rightarrow> string \<Rightarrow> string" where
  "trim_matches cs s = trim_end_chars cs (trim_start_chars cs s)"

text \<open>
  \<open>char::is_whitespace\<close>: the 25 characters of Unicode's \<open>White_Space\<close>, as their UTF-8 bytes.
  UTF-8 is self-synchronising, so matching these byte sequences at either end of a valid
  string is matching whole characters.
\<close>

definition ws_chars :: "string list" where
  "ws_chars = map (map chr)
    ([[9], [10], [11], [12], [13], [32], [194, 133], [194, 160], [225, 154, 128],
      [226, 128, 128], [226, 128, 129], [226, 128, 130], [226, 128, 131], [226, 128, 132],
      [226, 128, 133], [226, 128, 134], [226, 128, 135], [226, 128, 136], [226, 128, 137],
      [226, 128, 138], [226, 128, 168], [226, 128, 169], [226, 128, 175], [226, 129, 159],
      [227, 128, 128]])"

definition front_token :: "string list \<Rightarrow> string \<Rightarrow> string option" where
  "front_token ws s = find (\<lambda>w. w \<noteq> [] \<and> is_prefix w s) ws"

lemma front_token_Some: "front_token ws s = Some w \<Longrightarrow> w \<noteq> [] \<and> is_prefix w s \<and> w \<in> set ws"
  by (auto simp: front_token_def find_Some_iff)

lemma front_token_Nil [simp]: "front_token ws [] = None"
  by (auto simp: front_token_def find_None_iff is_prefix_def)

function strip_front :: "string list \<Rightarrow> string \<Rightarrow> string" where
  "strip_front ws s =
    (case front_token ws s of None \<Rightarrow> s | Some w \<Rightarrow> strip_front ws (drop (length w) s))"
  by pat_completeness auto
termination
proof (relation "measure (\<lambda>(ws, s). length s)", goal_cases)
  case 1
  then show ?case by simp
next
  case (2 ws s w)
  then have "w \<noteq> []" and "s \<noteq> []"
    by (auto dest: front_token_Some) 
  then show ?case by simp
qed

declare strip_front.simps [simp del]

definition trim_start :: "string \<Rightarrow> string" where
  "trim_start s = strip_front ws_chars s"

definition trim_end :: "string \<Rightarrow> string" where
  "trim_end s = rev (strip_front (map rev ws_chars) (rev s))"

definition trim :: "string \<Rightarrow> string" where
  "trim s = trim_end (trim_start s)"

lemma split_once_first: "x \<notin> set a \<Longrightarrow> split_once x (a @ x # b) = Some (a, b)"
  by (induction a) auto

lemma split_on_none: "x \<notin> set s \<Longrightarrow> split_on x s = [s]"
  by (induction s) auto

text \<open>The bytes up to the first whitespace character, and \<open>split_whitespace().next()\<close>.\<close>

fun until_ws :: "string \<Rightarrow> string" where
  "until_ws [] = []"
| "until_ws (c # s) = (if front_token ws_chars (c # s) = None then c # until_ws s else [])"

definition first_word :: "string \<Rightarrow> string option" where
  "first_word s = (let t = until_ws (trim_start s) in if t = [] then None else Some t)"

lemma strip_front_no_token: "front_token ws s = None \<Longrightarrow> strip_front ws s = s"
  by (simp add: strip_front.simps)

lemma length_strip_front: "length (strip_front ws s) \<le> length s"
proof (induction ws s rule: strip_front.induct)
  case (1 ws s)
  then show ?case
    by (subst strip_front.simps) (fastforce split: option.splits)
qed

lemma strip_front_idem: "strip_front ws (strip_front ws s) = strip_front ws s"
proof (induction ws s rule: strip_front.induct)
  case (1 ws s)
  show ?case
  proof (cases "front_token ws s")
    case None
    then show ?thesis by (simp add: strip_front_no_token)
  next
    case (Some w)
    then show ?thesis using 1 by (simp add: strip_front.simps [of ws s])
  qed
qed

text \<open>Evaluation of the whitespace functions on ASCII text.\<close>

lemma ws_ends: "w \<in> set ws_chars \<Longrightarrow> \<not> graphic (hd w) \<and> \<not> graphic (last w)"
  by (auto simp: ws_chars_def graphic_def)

lemma is_prefix_hd: "is_prefix w (c # s) \<Longrightarrow> w \<noteq> [] \<Longrightarrow> hd w = c"
  by (cases w) (auto simp: is_prefix_def)

lemma front_token_graphic [simp]: "graphic c \<Longrightarrow> front_token ws_chars (c # s) = None"
  by (auto simp: front_token_def find_None_iff dest: ws_ends is_prefix_hd)

lemma front_token_rev_graphic [simp]: "graphic c \<Longrightarrow> front_token (map rev ws_chars) (c # s) = None"
  by (auto simp: front_token_def find_None_iff hd_rev dest!: ws_ends is_prefix_hd)

lemma byte_eqD: "byte c = n \<Longrightarrow> c = chr n"
  by auto

lemma chr_eq_iff: "m < 256 \<Longrightarrow> n < 256 \<Longrightarrow> chr m = chr n \<longleftrightarrow> m = n"
  by (metis byte_chr)

lemma front_token_SP [simp]: "front_token ws_chars (CHR '' '' # s) = Some '' ''"
proof -
  have c: "CHR '' '' = chr 32" by (rule byte_eqD) (simp add: byte_def)
  show ?thesis
    unfolding c by (simp add: front_token_def ws_chars_def is_prefix_def chr_eq_iff)
qed

lemma strip_front_graphic [simp]:
  "graphic c \<Longrightarrow> strip_front ws_chars (c # s) = c # s"
  "graphic c \<Longrightarrow> strip_front (map rev ws_chars) (c # s) = c # s"
  by (simp_all add: strip_front_no_token)

lemma trim_start_graphic [simp]: "graphic c \<Longrightarrow> trim_start (c # s) = c # s"
  by (simp add: trim_start_def)

lemma trim_start_SP [simp]: "trim_start (CHR '' '' # s) = trim_start s"
  by (subst trim_start_def, subst strip_front.simps) (simp add: trim_start_def)

lemma trim_end_graphic: "s \<noteq> [] \<Longrightarrow> graphic (last s) \<Longrightarrow> trim_end s = s"
  by (cases s rule: rev_cases) (simp_all add: trim_end_def)

lemma until_ws_graphic: "list_all graphic s \<Longrightarrow> until_ws s = s"
  by (induction s) auto

lemma until_ws_graphic_SP: "list_all graphic s \<Longrightarrow> until_ws (s @ CHR '' '' # t) = s"
  by (induction s) auto

lemma trim_start_Nil [simp]: "trim_start [] = []"
  by (simp add: trim_start_def strip_front_no_token)

lemma trim_end_Nil [simp]: "trim_end [] = []"
  by (simp add: trim_end_def strip_front_no_token)

text \<open>
  Unicode case mapping is a table of the standard library. Definitions that call
  \<open>to_lowercase\<close> or \<open>to_uppercase\<close> take the mapping as an argument; these are the two
  properties of it that some properties rely on.
\<close>

definition lower_ok :: "(string \<Rightarrow> string) \<Rightarrow> bool" where
  "lower_ok lc \<longleftrightarrow> (\<forall>s. lc (lc s) = lc s) \<and> (\<forall>s. is_ascii s \<longrightarrow> lc s = ascii_lower s)"

definition upper_ok :: "(string \<Rightarrow> string) \<Rightarrow> bool" where
  "upper_ok uc \<longleftrightarrow> (\<forall>s. is_ascii s \<longrightarrow> uc s = ascii_upper s)"

lemma ascii_upper_ok: "upper_ok ascii_upper"
  by (simp add: upper_ok_def)

lemma ascii_lower_ok: "lower_ok ascii_lower"
  by (simp add: lower_ok_def)

declare byte_def [eval] ascii_upper_def [eval] ascii_lower_def [eval] ascii_lower_char_def [eval]
  ascii_upper_char_def [eval] is_lower_def [eval] is_upper_def [eval] is_digit_def [eval]
  eq_ignore_ascii_case_def [eval] slice_to_def [eval] slice_from_def [eval]
  char_boundary_def [eval] is_cont_def [eval] SP_def [eval] CR_def [eval] LF_def [eval]
  CRLF_def [eval] graphic_def [eval] trim_def [eval] trim_end_graphic [eval]
  is_prefix_def [eval] strip_prefix_def [eval] trim_end_chars_def [eval]
  trim_start_chars_def [eval] trim_matches_def [eval] first_word_def [eval]
  rsplit_once_def [eval] Let_def [eval]

section \<open>Decimal numbers\<close>

fun show_nat :: "nat \<Rightarrow> string" where
  "show_nat n = (if n < 10 then [chr (48 + n)] else show_nat (n div 10) @ [chr (48 + n mod 10)])"

declare show_nat.simps [simp del]

definition show_int :: "int \<Rightarrow> string" where
  "show_int i = (if i < 0 then CHR ''-'' # show_nat (nat (- i)) else show_nat (nat i))"

fun digits_val :: "nat \<Rightarrow> string \<Rightarrow> nat option" where
  "digits_val acc [] = Some acc"
| "digits_val acc (c # cs) =
    (if is_digit c then digits_val (acc * 10 + (byte c - 48)) cs else None)"

definition parse_digits :: "string \<Rightarrow> nat option" where
  "parse_digits s = (if s = [] then None else digits_val 0 s)"

text \<open>\<open>str::parse\<close> at an unsigned type: an optional \<open>+\<close>, digits, and the range check.\<close>

definition parse_unsigned :: "nat \<Rightarrow> string \<Rightarrow> nat option" where
  "parse_unsigned bound s =
    (let body = (case s of c # cs \<Rightarrow> if c = CHR ''+'' then cs else s | [] \<Rightarrow> s) in
     case parse_digits body of
       None \<Rightarrow> None
     | Some n \<Rightarrow> if n < bound then Some n else None)"

text \<open>\<open>str::parse::<i64>\<close>: an optional sign, digits, and the range check.\<close>

definition parse_i64 :: "string \<Rightarrow> int option" where
  "parse_i64 s =
    (let neg = (case s of c # _ \<Rightarrow> c = CHR ''-'' | [] \<Rightarrow> False);
         body = (case s of c # cs \<Rightarrow> if c = CHR ''+'' \<or> c = CHR ''-'' then cs else s | [] \<Rightarrow> s) in
     case parse_digits body of
       None \<Rightarrow> None
     | Some n \<Rightarrow>
         if neg then (if n \<le> 2 ^ 63 then Some (- int n) else None)
         else if n < 2 ^ 63 then Some (int n) else None)"

lemma is_digit_chr: "n < 10 \<Longrightarrow> is_digit (chr (48 + n)) \<and> byte (chr (48 + n)) = 48 + n"
  by (simp add: is_digit_def)

lemma digits_val_append:
  "digits_val acc (s @ t) = (case digits_val acc s of None \<Rightarrow> None | Some v \<Rightarrow> digits_val v t)"
  by (induction s arbitrary: acc) auto

lemma show_nat_nonempty [simp]: "show_nat n \<noteq> []"
  by (subst show_nat.simps) simp

lemma digits_val_show_nat: "digits_val 0 (show_nat n) = Some n"
proof (induction n rule: show_nat.induct)
  case (1 n)
  then show ?case
    by (subst show_nat.simps) (auto simp: digits_val_append is_digit_chr)
qed

lemma show_nat_digits: "c \<in> set (show_nat n) \<Longrightarrow> is_digit c"
proof (induction n rule: show_nat.induct)
  case (1 n)
  then show ?case
    by (subst (asm) show_nat.simps) (auto simp: is_digit_chr split: if_splits)
qed

lemma show_nat_head: "\<exists>c cs. show_nat n = c # cs \<and> is_digit c"
  using show_nat_nonempty [of n] show_nat_digits [of _ n]
  by (cases "show_nat n") auto

lemma not_digit_sign [simp]: "\<not> is_digit (CHR ''+'')" "\<not> is_digit (CHR ''-'')"
  by (simp_all add: is_digit_def byte_def)

lemma parse_digits_show_nat [simp]: "parse_digits (show_nat n) = Some n"
  by (simp add: parse_digits_def digits_val_show_nat)

lemma parse_unsigned_show_nat: "n < bound \<Longrightarrow> parse_unsigned bound (show_nat n) = Some n"
proof -
  assume "n < bound"
  obtain c cs where c: "show_nat n = c # cs" "is_digit c"
    using show_nat_head by blast
  then have "c \<noteq> CHR ''+''" by auto
  with c \<open>n < bound\<close> parse_digits_show_nat [of n] show ?thesis
    by (simp add: parse_unsigned_def Let_def)
qed

lemma parse_i64_show_int:
  assumes "- (2 ^ 63) \<le> i" and "i < 2 ^ 63"
  shows "parse_i64 (show_int i) = Some i"
proof (cases "i < 0")
  case True
  then show ?thesis
    using assms parse_digits_show_nat [of "nat (- i)"]
    by (simp add: parse_i64_def show_int_def Let_def)
next
  case False
  obtain c cs where c: "show_nat (nat i) = c # cs" "is_digit c"
    using show_nat_head by blast
  then have "c \<noteq> CHR ''+''" "c \<noteq> CHR ''-''"
    by auto
  with c False assms parse_digits_show_nat [of "nat i"] show ?thesis
    by (simp add: parse_i64_def show_int_def Let_def)
qed

lemma show_int_inj: "show_int i = show_int j \<Longrightarrow> i = j"
proof -
  have pd: "parse_digits (CHR ''-'' # s) = None" for s
    by (simp add: parse_digits_def)
  assume a: "show_int i = show_int j"
  have neq: "show_nat n \<noteq> CHR ''-'' # s" for n s
    using show_nat_head [of n] by auto
  show "i = j"
  proof (cases "i < 0"; cases "j < 0")
    assume "i < 0" "j < 0"
    then have "show_nat (nat (- i)) = show_nat (nat (- j))" using a by (simp add: show_int_def)
    then have "nat (- i) = nat (- j)" by (metis parse_digits_show_nat option.inject)
    then show ?thesis using \<open>i < 0\<close> \<open>j < 0\<close> by simp
  next
    assume "\<not> i < 0" "\<not> j < 0"
    then have "show_nat (nat i) = show_nat (nat j)" using a by (simp add: show_int_def)
    then have "nat i = nat j" by (metis parse_digits_show_nat option.inject)
    then show ?thesis using \<open>\<not> i < 0\<close> \<open>\<not> j < 0\<close> by simp
  next
    assume "i < 0" "\<not> j < 0"
    then show ?thesis using a neq by (simp add: show_int_def) metis
  next
    assume "\<not> i < 0" "j < 0"
    then show ?thesis using a neq by (simp add: show_int_def)
  qed
qed

section \<open>Bytes kept by trimming\<close>

lemma set_strip_front: "set (strip_front ws s) \<subseteq> set s"
proof (induction ws s rule: strip_front.induct)
  case (1 ws s)
  then show ?case
    by (subst strip_front.simps) (auto split: option.splits dest: in_set_dropD)
qed

lemma set_trim: "set (trim_start s) \<subseteq> set s" "set (trim_end s) \<subseteq> set s" "set (trim s) \<subseteq> set s"
proof -
  show a: "set (trim_start s) \<subseteq> set s" for s
    by (simp add: trim_start_def set_strip_front)
  show b: "set (trim_end s) \<subseteq> set s" for s
    using set_strip_front [of "map rev ws_chars" "rev s"] by (simp add: trim_end_def)
  show "set (trim s) \<subseteq> set s"
    using a [of s] b [of "trim_start s"] by (auto simp: trim_def)
qed

lemma is_ascii_subset: "is_ascii s \<Longrightarrow> set t \<subseteq> set s \<Longrightarrow> is_ascii t"
  by (auto simp: is_ascii_def list_all_iff)

lemma is_ascii_trim [simp]:
  "is_ascii s \<Longrightarrow> is_ascii (trim_start s)" "is_ascii s \<Longrightarrow> is_ascii (trim_end s)"
  "is_ascii s \<Longrightarrow> is_ascii (trim s)"
  using set_trim [of s] by (auto intro: is_ascii_subset)

lemma set_trim_chars: "set (trim_end_chars cs s) \<subseteq> set s" "set (trim_start_chars cs s) \<subseteq> set s"
  using set_dropWhileD by (fastforce simp: trim_end_chars_def trim_start_chars_def)+

lemma is_ascii_trim_chars [simp]: "is_ascii s \<Longrightarrow> is_ascii (trim_end_chars cs s)"
  "is_ascii s \<Longrightarrow> is_ascii (trim_start_chars cs s)"
  using set_trim_chars(1) [of cs s] set_trim_chars(2) [of cs s] by (blast intro: is_ascii_subset)+

lemma is_ascii_take_drop [simp]: "is_ascii s \<Longrightarrow> is_ascii (take n s)" "is_ascii s \<Longrightarrow> is_ascii (drop n s)"
  by (auto intro: is_ascii_subset dest: in_set_takeD in_set_dropD)

text \<open>In valid UTF-8 a continuation byte never follows an ASCII byte.\<close>

lemma utf8_ok_Cons:
  assumes "utf8_ok (a # r)"
  shows "\<exists>k. k \<le> length r \<and> list_all is_cont (take k r) \<and> (byte a < 128 \<longrightarrow> k = 0)
           \<and> utf8_ok (drop k r)"
proof -
  consider "byte a < 128" | "194 \<le> byte a" "byte a \<le> 223" | "224 \<le> byte a" "byte a \<le> 239"
    | "240 \<le> byte a" "byte a \<le> 244"
    using assms by (simp add: Let_def split: if_splits)
  then show ?thesis
  proof cases
    case 1
    then show ?thesis using assms by (intro exI [of _ 0]) simp
  next
    case 2
    then obtain b r' where "r = b # r'" using assms by (cases r) (auto simp: Let_def)
    then show ?thesis using assms 2 by (intro exI [of _ 1]) (simp add: Let_def)
  next
    case 3
    then obtain b c r' where "r = b # c # r'"
      using assms by (cases r; cases "tl r") (auto simp: Let_def)
    then show ?thesis using assms 3 by (intro exI [of _ 2]) (simp add: Let_def)
  next
    case 4
    then obtain b c d r' where "r = b # c # d # r'"
      using assms by (cases r; cases "tl r"; cases "tl (tl r)") (auto simp: Let_def)
    then show ?thesis using assms 4 by (intro exI [of _ 3]) (simp add: Let_def eval_nat_numeral)
  qed
qed

lemma utf8_ok_hd: "utf8_ok (a # r) \<Longrightarrow> \<not> is_cont a"
  by (auto simp: is_cont_def Let_def split: if_splits)

lemma utf8_ok_after_ascii:
  "utf8_ok s \<Longrightarrow> Suc i < length s \<Longrightarrow> byte (s ! i) < 128 \<Longrightarrow> \<not> is_cont (s ! Suc i)"
proof (induction "length s" arbitrary: s i rule: less_induct)
  case less
  then obtain a r where s: "s = a # r" by (cases s) auto
  obtain k where k: "k \<le> length r" "list_all is_cont (take k r)" "byte a < 128 \<longrightarrow> k = 0"
      "utf8_ok (drop k r)"
    using utf8_ok_Cons less.prems(1) s by blast
  show ?case
  proof (cases i)
    case 0
    then show ?thesis
      using k less.prems s utf8_ok_hd [of "hd r" "tl r"] by (cases r) auto
  next
    case (Suc j)
    show ?thesis
    proof (cases "j < k")
      case True
      then have "is_cont (r ! j)" using k by (simp add: list_all_length)
      then show ?thesis using less.prems(3) s Suc by (simp add: is_cont_def)
    next
      case False
      then show ?thesis
        using less.hyps [of "drop k r" "j - k"] less.prems s Suc k by (simp add: Suc_diff_le)
    qed
  qed
qed

end
