(* ===== verification/Wire.thy ===== *)
theory Wire
  imports Prelude
begin

text \<open>
  Line-oriented byte streams, shared by the SMTP server and the SMTP client. A stream is the
  bytes the peer sends before it closes; reading from it returns the bytes and the rest.
\<close>

section \<open>Lines\<close>

text \<open>\<open>read_until(LF)\<close>: the bytes up to and including the first line feed, or all of them.\<close>

fun take_line :: "string \<Rightarrow> string \<times> string" where
  "take_line [] = ([], [])"
| "take_line (c # s) =
    (if c = LF then ([c], s) else (let (l, r) = take_line s in (c # l, r)))"

lemma take_line_append [simp]: "fst (take_line s) @ snd (take_line s) = s"
  by (induction s rule: take_line.induct) (auto simp: Let_def split: prod.splits)

lemma take_line_nonempty: "s \<noteq> [] \<Longrightarrow> fst (take_line s) \<noteq> []"
  by (cases s) (auto simp: Let_def split: prod.splits)

lemma take_line_shorter: "s \<noteq> [] \<Longrightarrow> length (snd (take_line s)) < length s"
  using take_line_append [of s] take_line_nonempty [of s]
  by (metis append_Nil length_append less_add_same_cancel2 length_greater_0_conv)

lemma take_line_LF: "LF \<notin> set l \<Longrightarrow> take_line (l @ LF # r) = (l @ [LF], r)"
  by (induction l) (auto simp: Let_def)

lemma take_line_no_LF: "LF \<notin> set l \<Longrightarrow> take_line l = (l, [])"
  by (induction l) (auto simp: Let_def)

text \<open>
  \<open>read_line\<close> on a \<open>BufReader\<close>: nothing at end of stream, an I/O error when the line is
  not UTF-8, else the line.
\<close>

datatype read = Eof | BadUtf8 | Line string

definition read_line :: "string \<Rightarrow> read \<times> string" where
  "read_line inp =
    (let (l, r) = take_line inp in
     if l = [] then (Eof, r) else if utf8_ok l then (Line l, r) else (BadUtf8, r))"

lemma read_line_shorter: "read_line inp = (Line l, r) \<Longrightarrow> length r < length inp"
  using take_line_shorter [of inp]
  by (cases "inp = []") (auto simp: read_line_def Let_def split: prod.splits if_splits)

lemma read_line_ascii:
  "is_ascii l \<Longrightarrow> LF \<notin> set l \<Longrightarrow> read_line (l @ LF # r) = (Line (l @ [LF]), r)"
  by (simp add: read_line_def take_line_LF utf8_ok_ascii)

text \<open>\<open>strip_suffix\<close> of one byte, left alone when absent.\<close>

definition chop_last :: "char \<Rightarrow> string \<Rightarrow> string" where
  "chop_last c s = (if s \<noteq> [] \<and> last s = c then butlast s else s)"

definition chop_first :: "char \<Rightarrow> string \<Rightarrow> string" where
  "chop_first c s = (case s of d # r \<Rightarrow> if d = c then r else s | [] \<Rightarrow> s)"

lemma chop_last_snoc [simp]: "chop_last c (s @ [d]) = (if d = c then s else s @ [d])"
  by (simp add: chop_last_def)

lemma chop_last_Nil [simp]: "chop_last c [] = []"
  by (simp add: chop_last_def)

lemma length_chop_last: "length (chop_last c s) \<le> length s"
  by (simp add: chop_last_def)

section \<open>A transparent channel\<close>

text \<open>
  What a receiver and a sender of message data owe each other: reading what the sender put on
  the wire gives the message in its normal form and leaves every later byte unread. The
  lemmas are what a session built on such a pair may rely on.
\<close>

locale data_channel =
  fixes send :: "string \<Rightarrow> string"
    and receive :: "string \<Rightarrow> string \<times> string"
    and norm :: "string \<Rightarrow> string"
  assumes receive_send: "receive (send m @ rest) = (norm m, rest)"
begin

lemma receive_next: "snd (receive (send m @ send n @ rest)) = send n @ rest"
  by (simp add: receive_send)

lemma no_smuggling:
  "receive (send m @ rest) = (a, r) \<Longrightarrow> r = rest \<and> a = norm m"
  by (simp add: receive_send)

lemma receive_two:
  "(case receive (send m @ send n @ rest) of (a, r) \<Rightarrow> (a, receive r)) = (norm m, norm n, rest)"
  by (simp add: receive_send)

lemma send_distinguishes: "norm m \<noteq> norm n \<Longrightarrow> send m @ rest \<noteq> send n @ rest'"
  using receive_send by (metis fst_conv)

end

end
