(* ===== verification/SmtpIn.thy ===== *)
theory SmtpIn
  imports Wire
begin

text \<open>
  The inbound ESMTP server, \<open>crates/jmapsmtp/src/smtp_in.rs\<close>.

  A session is a function of the bytes the client sends: each step reads one line (and, for
  \<open>DATA\<close>, the payload), appends the replies to \<open>out\<close> and the calls of \<open>Backend::deliver\<close> to
  \<open>delivered\<close>. \<open>accepts\<close> is \<open>Backend::accepts\<close>; \<open>lc\<close> and \<open>uc\<close> are the standard library's
  Unicode case mappings. A panic of a string slice is the outcome \<open>Panicked\<close>. Failures of
  the socket on writing, which end the session at once, are not modelled.
\<close>

section \<open>Configuration and state\<close>

record smtp_config =
  hostname :: string
  starttls :: bool
  tls_available :: bool
  enable_smtputf8 :: bool

definition default_config :: smtp_config where
  "default_config =
    \<lparr>hostname = ''localhost'', starttls = True, tls_available = False, enable_smtputf8 = True\<rparr>"

record session =
  greeted :: bool
  mail_from :: "string option"
  rcpts :: "string list"

definition session_new :: session where
  "session_new = \<lparr>greeted = False, mail_from = None, rcpts = []\<rparr>"

definition session_reset :: "session \<Rightarrow> session" where
  "session_reset s = s\<lparr>mail_from := None, rcpts := []\<rparr>"

datatype smtp_outcome = Done | StartTls

text \<open>How \<open>handle\<close> leaves: a value, an I/O error (a line that is not UTF-8), or a panic.\<close>

datatype ending = Ended smtp_outcome | IoFailed | Panicked

record delivery =
  d_from :: string
  d_rcpts :: "string list"
  d_raw :: string

record conn =
  sess :: session
  errors :: nat
  inp :: string
  out :: string
  delivered :: "delivery list"

datatype progress = Continue conn | Stop ending conn

definition say :: "string \<Rightarrow> conn \<Rightarrow> conn" where
  "say s c = c\<lparr>out := out c @ s @ CRLF\<rparr>"

section \<open>Parsing a command\<close>

text \<open>\<open>split_command\<close>: \<open>Ret None\<close> is \<open>Err(BadCommand)\<close>.\<close>

definition split_command :: "(string \<Rightarrow> string) \<Rightarrow> string \<Rightarrow> (string \<times> string) option outcome" where
  "split_command uc line0 =
    (let line = trim_end_chars [CR, LF] line0;
         by_length =
           (if length line = 0 then Ret (Some ([], []))
            else if length line < 4 then Ret None
            else if length line = 4 then Ret (Some (uc line, []))
            else if length line = 5 then Ret None
            else if \<not> char_boundary line 4 \<or> line ! 4 \<noteq> SP then Ret None
            else bind_out (slice_to line 4) (\<lambda>v.
                 bind_out (slice_from line 5) (\<lambda>rest.
                 Ret (Some (uc v, trim rest))))) in
     if 8 \<le> length line then
       bind_out (slice_to line 8) (\<lambda>p.
         if eq_ignore_ascii_case p ''STARTTLS'' then Ret (Some (''STARTTLS'', [])) else by_length)
     else by_length)"

text \<open>\<open>parse_path\<close>: the address in \<open>FROM:<a@b>\<close> or \<open>TO:<a@b>\<close>, brackets optional.\<close>

definition parse_path :: "string \<Rightarrow> string \<Rightarrow> string option outcome" where
  "parse_path rest0 prefix =
    (let rest = trim_start rest0 in
     if length rest < length prefix then Ret None
     else bind_out (slice_to rest (length prefix)) (\<lambda>p.
       if \<not> eq_ignore_ascii_case p prefix then Ret None
       else bind_out (slice_from rest (length prefix)) (\<lambda>arg0.
         let arg = trim_start arg0 in
         case strip_prefix ''<'' arg of
           Some stripped \<Rightarrow> Ret (map_option fst (split_once (CHR ''>'') stripped))
         | None \<Rightarrow> (let addr = until_ws arg in Ret (if addr = [] then None else Some addr)))))"

definition ehlo_caps :: "smtp_config \<Rightarrow> string list" where
  "ehlo_caps cfg =
    [''PIPELINING'', ''8BITMIME'', ''ENHANCEDSTATUSCODES'', ''CHUNKING'']
    @ (if starttls cfg then [''STARTTLS''] else [])
    @ (if enable_smtputf8 cfg then [''SMTPUTF8''] else [])
    @ [''SIZE'']"

fun cap_lines :: "string list \<Rightarrow> string" where
  "cap_lines [] = []"
| "cap_lines [c] = ''250 '' @ c @ CRLF"
| "cap_lines (c # d # cs) = ''250-'' @ c @ CRLF @ cap_lines (d # cs)"

definition ehlo_response :: "smtp_config \<Rightarrow> string \<Rightarrow> string" where
  "ehlo_response cfg domain = ''250-Hello '' @ domain @ CRLF @ cap_lines (ehlo_caps cfg)"

section \<open>Reading a message\<close>

function read_data :: "string \<Rightarrow> string \<times> string" where
  "read_data i =
    (if i = [] then ([], [])
     else (let (line, rest) = take_line i;
               body = chop_last CR (chop_last LF line) in
           if body = ''.'' then ([], rest)
           else (let (o', rest') = read_data rest in
                 (chop_first (CHR ''.'') body @ CRLF @ o', rest'))))"
  by pat_completeness auto
termination
  by (relation "measure length") (auto dest: take_line_shorter simp: prod_eq_iff)

declare read_data.simps [simp del]

section \<open>One command\<close>

definition error_threshold :: nat where
  "error_threshold = 3"

text \<open>\<open>protocol_error\<close>: count it, and hang up past the threshold.\<close>

definition protocol_error :: "conn \<Rightarrow> progress" where
  "protocol_error c =
    (let c' = c\<lparr>errors := Suc (errors c)\<rparr> in
     if error_threshold < errors c' then
       Stop (Ended Done) (say ''500 5.5.1 Too many errors. Quiting now'' c')
     else Continue c')"

definition cmd_mail :: "string \<Rightarrow> conn \<Rightarrow> progress" where
  "cmd_mail rest c =
    (if \<not> greeted (sess c) then Continue (say ''502 5.5.1 Please introduce yourself first.'' c)
     else case parse_path rest ''FROM:'' of
       Panic \<Rightarrow> Stop Panicked c
     | Ret (Some addr) \<Rightarrow>
         Continue ((say (''250 2.0.0 Roger, accepting mail from <'' @ addr @ ''>'') c)
           \<lparr>sess := (sess c)\<lparr>mail_from := Some addr, rcpts := []\<rparr>\<rparr>)
     | Ret None \<Rightarrow>
         Continue (say ''501 5.5.2 Was expecting MAIL arg syntax of FROM:<address>'' c))"

definition cmd_rcpt ::
  "(string \<Rightarrow> string) \<Rightarrow> (string \<Rightarrow> bool) \<Rightarrow> string \<Rightarrow> conn \<Rightarrow> progress" where
  "cmd_rcpt lc accepts rest c =
    (if mail_from (sess c) = None then Continue (say ''502 5.5.1 Missing MAIL FROM command.'' c)
     else case parse_path rest ''TO:'' of
       Panic \<Rightarrow> Stop Panicked c
     | Ret (Some addr) \<Rightarrow>
         (let s' = (if accepts (lc addr)
                    then (sess c)\<lparr>rcpts := rcpts (sess c) @ [lc addr]\<rparr> else sess c) in
          Continue (say (''250 2.0.0 I'' @ [CHR 0x27] @ ''ll make sure <'' @ addr @ ''> gets this'')
                        (c\<lparr>sess := s'\<rparr>)))
     | Ret None \<Rightarrow>
         Continue (say ''501 5.5.2 Was expecting RCPT arg syntax of TO:<address>'' c))"

definition cmd_data :: "conn \<Rightarrow> progress" where
  "cmd_data c =
    (case mail_from (sess c) of
       None \<Rightarrow> Continue (say ''502 5.5.1 Missing RCPT TO command.'' c)
     | Some from \<Rightarrow>
         (let c1 = say ''354 Go ahead. End your data with <CR><LF>.<CR><LF>'' c;
              (raw, rest) = read_data (inp c1);
              ds = (if rcpts (sess c) \<noteq> []
                    then [\<lparr>d_from = from, d_rcpts = rcpts (sess c), d_raw = raw\<rparr>] else []);
              c2 = c1\<lparr>inp := rest, delivered := delivered c1 @ ds, sess := session_reset (sess c)\<rparr> in
          Continue (say ''250 2.0.0 OK: queued'' c2)))"

text \<open>The verb table of \<open>handle_inner\<close>, in its order.\<close>

definition command ::
  "smtp_config \<Rightarrow> (string \<Rightarrow> string) \<Rightarrow> (string \<Rightarrow> bool) \<Rightarrow> string \<Rightarrow> string \<Rightarrow> conn \<Rightarrow> progress" where
  "command cfg lc accepts verb rest c =
    (if verb = ''EHLO'' then
       Continue (c\<lparr>sess := session_reset ((sess c)\<lparr>greeted := True\<rparr>),
                   out := out c @ ehlo_response cfg rest\<rparr>)
     else if verb = ''HELO'' then
       Continue (say (''250 2.0.0 Hello '' @ rest)
                     (c\<lparr>sess := session_reset ((sess c)\<lparr>greeted := True\<rparr>)\<rparr>))
     else if verb = ''MAIL'' then cmd_mail rest c
     else if verb = ''RCPT'' then cmd_rcpt lc accepts rest c
     else if verb = ''DATA'' then cmd_data c
     else if verb = ''RSET'' then
       Continue (say ''250 2.0.0 Session reset'' (c\<lparr>sess := session_reset (sess c)\<rparr>))
     else if verb = ''NOOP'' then
       Continue (say ''250 2.0.0 I have successfully done nothing'' c)
     else if verb = ''QUIT'' then Stop (Ended Done) (say ''221 2.0.0 Bye'' c)
     else if verb = ''AUTH'' then
       Continue (say ''502 5.5.1 This is a public MX; no authentication is offered.'' c)
     else if verb = ''STARTTLS'' \<and> starttls cfg \<and> tls_available cfg then
       Stop (Ended StartTls) (say ''220 2.0.0 Ready to start TLS'' c)
     else if verb = ''STARTTLS'' \<and> starttls cfg then
       Continue (say ''454 4.7.0 TLS not available on this connection'' c)
     else if verb = ''VRFY'' then
       Continue (say ''252 2.5.0 Cannot VRFY user, but will accept message'' c)
     else if verb = [] then protocol_error (say ''500 5.5.2 Error: bad syntax'' c)
     else protocol_error
       (say (''500 5.5.2 Syntax errors, '' @ verb @ '' command unrecognized'') c))"

text \<open>One turn of the loop of \<open>handle_inner\<close>.\<close>

definition smtp_step ::
  "smtp_config \<Rightarrow> (string \<Rightarrow> string) \<Rightarrow> (string \<Rightarrow> string) \<Rightarrow> (string \<Rightarrow> bool) \<Rightarrow> conn \<Rightarrow> progress" where
  "smtp_step cfg lc uc accepts c =
    (case read_line (inp c) of
       (Eof, r) \<Rightarrow> Stop (Ended Done) (c\<lparr>inp := r\<rparr>)
     | (BadUtf8, r) \<Rightarrow> Stop IoFailed (c\<lparr>inp := r\<rparr>)
     | (Line line, r) \<Rightarrow>
         (let c = c\<lparr>inp := r\<rparr> in
          case split_command uc (trim_end_chars [CR, LF] line) of
            Panic \<Rightarrow> Stop Panicked c
          | Ret None \<Rightarrow> protocol_error (say ''501 5.5.2 Bad command'' c)
          | Ret (Some (verb, rest)) \<Rightarrow> command cfg lc accepts verb rest c))"

section \<open>The session\<close>

lemma read_data_le: "length (snd (read_data i)) \<le> length i"
proof (induction i rule: read_data.induct)
  case (1 i)
  show ?case
  proof (cases "i = []")
    case True
    then show ?thesis by (simp add: read_data.simps)
  next
    case False
    obtain line rest where l: "take_line i = (line, rest)" by fastforce
    then have "length rest < length i"
      using take_line_shorter [OF False] by simp
    with 1 [OF False l [symmetric] refl] False l show ?thesis
      by (subst read_data.simps) (auto simp: Let_def split: prod.splits)
  qed
qed

lemma say_sel [simp]:
  "sess (say s c) = sess c" "errors (say s c) = errors c" "inp (say s c) = inp c"
  "out (say s c) = out c @ s @ CRLF" "delivered (say s c) = delivered c"
  by (simp_all add: say_def)

lemma session_reset_sel [simp]:
  "greeted (session_reset s) = greeted s" "mail_from (session_reset s) = None"
  "rcpts (session_reset s) = []"
  by (simp_all add: session_reset_def)

text \<open>What a handler may do to the connection, by outcome: the case split of every invariant.\<close>

lemma protocol_error_cases:
  obtains (go) "protocol_error c = Continue (c\<lparr>errors := Suc (errors c)\<rparr>)" "errors c < error_threshold"
  | (hangup) "protocol_error c = Stop (Ended Done)
        (say ''500 5.5.1 Too many errors. Quiting now'' (c\<lparr>errors := Suc (errors c)\<rparr>))"
      "error_threshold \<le> errors c"
  by (cases "error_threshold < Suc (errors c)") (auto simp: protocol_error_def Let_def)

lemma command_inp:
  assumes "command cfg lc acc verb rest c = Continue c'"
  shows "length (inp c') \<le> length (inp c)"
proof -
  have pe: "protocol_error d = Continue d' \<Longrightarrow> inp d' = inp d" for d d'
    by (cases rule: protocol_error_cases [of d]) auto
  show ?thesis
    using assms read_data_le [of "inp c"]
    by (auto simp: command_def cmd_mail_def cmd_rcpt_def cmd_data_def Let_def dest!: pe
             split: if_splits outcome.splits option.splits prod.splits)
qed

lemma smtp_step_shorter:
  assumes "smtp_step cfg lc uc acc c = Continue c'"
  shows "length (inp c') < length (inp c)"
proof -
  obtain l r where l: "read_line (inp c) = (Line l, r)"
    using assms by (auto simp: smtp_step_def split: prod.splits read.splits)
  then have lt: "length r < length (inp c)" by (rule read_line_shorter)
  have pe: "protocol_error d = Continue d' \<Longrightarrow> inp d' = inp d" for d d'
    by (cases rule: protocol_error_cases [of d]) auto
  have "length (inp c') \<le> length r"
    using assms l
    by (auto simp: smtp_step_def Let_def dest!: pe command_inp
             split: outcome.splits option.splits prod.splits)
  with lt show ?thesis by simp
qed

function smtp_loop ::
  "smtp_config \<Rightarrow> (string \<Rightarrow> string) \<Rightarrow> (string \<Rightarrow> string) \<Rightarrow> (string \<Rightarrow> bool) \<Rightarrow> conn
   \<Rightarrow> ending \<times> conn" where
  "smtp_loop cfg lc uc accepts c =
    (case smtp_step cfg lc uc accepts c of
       Continue c' \<Rightarrow> smtp_loop cfg lc uc accepts c'
     | Stop e c' \<Rightarrow> (e, c'))"
  by pat_completeness auto
termination
  by (relation "measure (\<lambda>(cfg, lc, uc, acc, c). length (inp c))") (auto intro: smtp_step_shorter)

declare smtp_loop.simps [simp del]

datatype greeting = Send | AlreadySent

definition conn_new :: "string \<Rightarrow> conn" where
  "conn_new i = \<lparr>sess = session_new, errors = 0, inp = i, out = [], delivered = []\<rparr>"

definition handle_inner ::
  "smtp_config \<Rightarrow> (string \<Rightarrow> string) \<Rightarrow> (string \<Rightarrow> string) \<Rightarrow> (string \<Rightarrow> bool) \<Rightarrow> greeting \<Rightarrow> string
   \<Rightarrow> ending \<times> conn" where
  "handle_inner cfg lc uc accepts g i =
    smtp_loop cfg lc uc accepts
      (if g = Send then say (''220 '' @ hostname cfg @ '' ESMTP Service Ready'') (conn_new i)
       else conn_new i)"

definition handle ::
  "smtp_config \<Rightarrow> (string \<Rightarrow> string) \<Rightarrow> (string \<Rightarrow> string) \<Rightarrow> (string \<Rightarrow> bool) \<Rightarrow> string
   \<Rightarrow> ending \<times> conn" where
  "handle cfg lc uc accepts i = handle_inner cfg lc uc accepts Send i"

definition handle_upgraded ::
  "smtp_config \<Rightarrow> (string \<Rightarrow> string) \<Rightarrow> (string \<Rightarrow> string) \<Rightarrow> (string \<Rightarrow> bool) \<Rightarrow> string
   \<Rightarrow> ending \<times> conn" where
  "handle_upgraded cfg lc uc accepts i = handle_inner cfg lc uc accepts AlreadySent i"

text \<open>
  Every property of whole sessions is an invariant of one step carried through the loop, or a
  relation between two runs kept by every step.
\<close>

lemma smtp_loop_invariant:
  assumes step: "\<And>c c'. smtp_step cfg lc uc acc c = Continue c' \<Longrightarrow> I c \<Longrightarrow> I c'"
    and stop: "\<And>c e c'. smtp_step cfg lc uc acc c = Stop e c' \<Longrightarrow> I c \<Longrightarrow> Q e c'"
    and init: "I c"
  shows "case smtp_loop cfg lc uc acc c of (e, c') \<Rightarrow> Q e c'"
  using init
proof (induction "length (inp c)" arbitrary: c rule: less_induct)
  case less
  show ?case
  proof (cases "smtp_step cfg lc uc acc c")
    case (Continue c')
    then show ?thesis
      using less smtp_step_shorter [OF Continue] step [OF Continue]
      by (subst smtp_loop.simps) auto
  next
    case (Stop e c')
    then show ?thesis using stop [OF Stop] less by (subst smtp_loop.simps) auto
  qed
qed

section \<open>What is delivered\<close>

text \<open>
  The recipients of the envelope and of every delivery were accepted by the backend, in the
  lower-cased form it was asked about, and no delivery has an empty envelope.
\<close>

definition served :: "(string \<Rightarrow> string) \<Rightarrow> (string \<Rightarrow> bool) \<Rightarrow> string \<Rightarrow> bool" where
  "served lc accepts r \<longleftrightarrow> accepts r \<and> (\<exists>a. r = lc a)"

definition delivery_inv :: "(string \<Rightarrow> string) \<Rightarrow> (string \<Rightarrow> bool) \<Rightarrow> conn \<Rightarrow> bool" where
  "delivery_inv lc accepts c \<longleftrightarrow>
    (\<forall>r \<in> set (rcpts (sess c)). served lc accepts r) \<and>
    (\<forall>d \<in> set (delivered c). d_rcpts d \<noteq> [] \<and> (\<forall>r \<in> set (d_rcpts d). served lc accepts r))"

lemma delivery_inv_frame:
  "delivery_inv lc acc (say s c) = delivery_inv lc acc c"
  "delivery_inv lc acc (c\<lparr>inp := i\<rparr>) = delivery_inv lc acc c"
  "delivery_inv lc acc (c\<lparr>errors := n\<rparr>) = delivery_inv lc acc c"
  "delivery_inv lc acc (c\<lparr>out := b\<rparr>) = delivery_inv lc acc c"
  by (simp_all add: delivery_inv_def)

text \<open>The state a step leaves, whether it goes on or stops.\<close>

fun after :: "progress \<Rightarrow> conn" where
  "after (Continue c) = c"
| "after (Stop e c) = c"

lemma after_protocol_error [simp]:
  "sess (after (protocol_error c)) = sess c"
  "delivered (after (protocol_error c)) = delivered c"
  "errors (after (protocol_error c)) = Suc (errors c)"
  by (simp_all add: protocol_error_def Let_def)

lemma delivery_inv_command:
  assumes "delivery_inv lc acc c"
  shows "delivery_inv lc acc (after (command cfg lc acc verb rest c))"
proof -
  have "delivery_inv lc acc (after (cmd_mail rest c))"
    using assms by (auto simp: cmd_mail_def delivery_inv_def split: outcome.splits option.splits)
  moreover have "delivery_inv lc acc (after (cmd_rcpt lc acc rest c))"
    using assms
    by (auto simp: cmd_rcpt_def delivery_inv_def served_def Let_def split: outcome.splits option.splits)
  moreover have "delivery_inv lc acc (after (cmd_data c))"
    using assms by (auto simp: cmd_data_def delivery_inv_def Let_def split: option.splits prod.splits)
  ultimately show ?thesis
    using assms by (simp add: command_def delivery_inv_frame) (simp add: delivery_inv_def)
qed

lemma delivery_inv_step:
  assumes "delivery_inv lc acc c"
  shows "delivery_inv lc acc (after (smtp_step cfg lc uc acc c))"
  using assms delivery_inv_command [of lc acc "c\<lparr>inp := _\<rparr>"]
  by (auto simp: smtp_step_def Let_def delivery_inv_frame split: read.splits outcome.splits option.splits prod.splits)
     (simp add: delivery_inv_def)

lemma handle_inner_invariant:
  assumes step: "\<And>c. I c \<Longrightarrow> I (after (smtp_step cfg lc uc acc c))"
    and init: "\<And>b. I ((conn_new i)\<lparr>out := b\<rparr>)"
  shows "I (snd (handle_inner cfg lc uc acc g i))"
proof -
  have "case handle_inner cfg lc uc acc g i of (e, c) \<Rightarrow> I c"
    unfolding handle_inner_def
  proof (rule smtp_loop_invariant [where I = I])
    show "I c'" if "smtp_step cfg lc uc acc c = Continue c'" "I c" for c c'
      using step [OF that(2)] that(1) by simp
    show "I c'" if "smtp_step cfg lc uc acc c = Stop e c'" "I c" for c e c'
      using step [OF that(2)] that(1) by simp
    show "I (if g = Send then say (''220 '' @ hostname cfg @ '' ESMTP Service Ready'') (conn_new i)
             else conn_new i)"
      using init [of "[]"] init [of "out (say (''220 '' @ hostname cfg @ '' ESMTP Service Ready'') (conn_new i))"]
      by (simp add: say_def conn_new_def)
  qed
  then show ?thesis by (simp add: case_prod_beta)
qed

text \<open>
  C1. Nothing is delivered for an address the backend does not serve, whatever the client
  sends: each delivery has at least one recipient, and each recipient is the lower-cased form
  of some address and was accepted by \<open>Backend::accepts\<close>.
\<close>

theorem delivers_only_served:
  "d \<in> set (delivered (snd (handle cfg lc uc accepts i)))
   \<Longrightarrow> d_rcpts d \<noteq> [] \<and> (\<forall>r \<in> set (d_rcpts d). accepts r \<and> (\<exists>a. r = lc a))"
proof -
  assume "d \<in> set (delivered (snd (handle cfg lc uc accepts i)))"
  moreover have "delivery_inv lc accepts (snd (handle_inner cfg lc uc accepts Send i))"
    by (rule handle_inner_invariant)
       (simp_all add: delivery_inv_step, simp add: delivery_inv_def conn_new_def session_new_def)
  ultimately show ?thesis
    by (auto simp: delivery_inv_def served_def handle_def)
qed

section \<open>No address oracle\<close>

text \<open>
  Two connections that a client cannot tell apart: they differ at most in the recipients kept
  and the deliveries made.
\<close>

definition same_wire :: "conn \<Rightarrow> conn \<Rightarrow> bool" where
  "same_wire c d \<longleftrightarrow>
    greeted (sess c) = greeted (sess d) \<and> mail_from (sess c) = mail_from (sess d) \<and>
    errors c = errors d \<and> inp c = inp d \<and> out c = out d"

fun same_progress :: "progress \<Rightarrow> progress \<Rightarrow> bool" where
  "same_progress (Continue c) (Continue d) = same_wire c d"
| "same_progress (Stop e c) (Stop f d) = (e = f \<and> same_wire c d)"
| "same_progress _ _ = False"

lemma same_wire_frame:
  "same_wire c d \<Longrightarrow> same_wire (say s c) (say s d)"
  "same_wire c d \<Longrightarrow> same_wire (c\<lparr>inp := i\<rparr>) (d\<lparr>inp := i\<rparr>)"
  "same_wire c d \<Longrightarrow> same_progress (protocol_error c) (protocol_error d)"
  by (simp_all add: same_wire_def protocol_error_def Let_def)

lemma same_wire_command:
  assumes s: "same_wire c d"
  shows "same_progress (command cfg lc acc verb rest c) (command cfg lc acc' verb rest d)"
proof -
  have "same_progress (cmd_mail rest c) (cmd_mail rest d)"
    using s by (auto simp: cmd_mail_def same_wire_def split: outcome.split option.split)
  moreover have "same_progress (cmd_rcpt lc acc rest c) (cmd_rcpt lc acc' rest d)"
    using s by (auto simp: cmd_rcpt_def same_wire_def Let_def split: outcome.split option.split)
  moreover have "same_progress (cmd_data c) (cmd_data d)"
    using s by (auto simp: cmd_data_def same_wire_def Let_def split: prod.split option.split)
  ultimately show ?thesis
    using s by (simp add: command_def same_wire_frame) (simp add: same_wire_def)
qed

lemma same_wire_step:
  assumes "same_wire c d"
  shows "same_progress (smtp_step cfg lc uc acc c) (smtp_step cfg lc uc acc' d)"
proof -
  have "inp c = inp d" using assms by (simp add: same_wire_def)
  then show ?thesis
    using assms
    by (auto simp: smtp_step_def Let_def intro!: same_wire_command same_wire_frame
             split: prod.split read.split outcome.split option.split)
qed

lemma same_wire_loop:
  "same_wire c d \<Longrightarrow>
   fst (smtp_loop cfg lc uc acc c) = fst (smtp_loop cfg lc uc acc' d) \<and>
   same_wire (snd (smtp_loop cfg lc uc acc c)) (snd (smtp_loop cfg lc uc acc' d))"
proof (induction "length (inp c)" arbitrary: c d rule: less_induct)
  case less
  note rel = same_wire_step [OF less.prems, of cfg lc uc acc acc']
  show ?case
  proof (cases "smtp_step cfg lc uc acc c")
    case (Continue c')
    with rel obtain d' where "smtp_step cfg lc uc acc' d = Continue d'" "same_wire c' d'"
      by (cases "smtp_step cfg lc uc acc' d") auto
    then show ?thesis
      using less.hyps [OF smtp_step_shorter [OF Continue]] Continue
      by (simp add: smtp_loop.simps [of _ _ _ _ c] smtp_loop.simps [of _ _ _ _ d])
  next
    case (Stop e c')
    with rel obtain d' where "smtp_step cfg lc uc acc' d = Stop e d'" "same_wire c' d'"
      by (cases "smtp_step cfg lc uc acc' d") auto
    then show ?thesis
      using Stop by (simp add: smtp_loop.simps [of _ _ _ _ c] smtp_loop.simps [of _ _ _ _ d])
  qed
qed

text \<open>
  Port 25 is no oracle for the existence of addresses: the bytes the relay answers, and
  how the session ends, do not depend on which addresses the backend serves.
\<close>

theorem replies_reveal_no_address:
  "out (snd (handle cfg lc uc accepts i)) = out (snd (handle cfg lc uc accepts' i)) \<and>
   fst (handle cfg lc uc accepts i) = fst (handle cfg lc uc accepts' i)"
proof -
  let ?c = "say (''220 '' @ hostname cfg @ '' ESMTP Service Ready'') (conn_new i)"
  have "same_wire ?c ?c" by (simp add: same_wire_def)
  from same_wire_loop [OF this, of cfg lc uc accepts accepts'] show ?thesis
    by (simp add: handle_def handle_inner_def same_wire_def)
qed

section \<open>Bounded protocol errors\<close>

lemma errors_command:
  "errors (after (command cfg lc acc verb rest c)) \<le> Suc (errors c)"
  by (auto simp: command_def cmd_mail_def cmd_rcpt_def cmd_data_def Let_def
           split: outcome.split option.split prod.split)

lemma continue_errors:
  assumes "smtp_step cfg lc uc acc c = Continue c'" and "errors c \<le> error_threshold"
  shows "errors c' \<le> error_threshold"
proof -
  have pe: "protocol_error d = Continue d' \<Longrightarrow> errors d' \<le> error_threshold" for d d'
    by (cases rule: protocol_error_cases [of d]) (auto simp: error_threshold_def)
  have cmd: "command cfg lc acc verb rest d = Continue d' \<Longrightarrow> errors d \<le> error_threshold
      \<Longrightarrow> errors d' \<le> error_threshold" for verb rest d d'
    by (auto simp: command_def cmd_mail_def cmd_rcpt_def cmd_data_def Let_def dest!: pe
             split: if_splits outcome.splits option.splits prod.splits)
  show ?thesis
    using assms
    by (auto simp: smtp_step_def Let_def dest!: pe cmd
             split: prod.splits read.splits outcome.splits option.splits)
qed

lemma stop_errors:
  assumes "smtp_step cfg lc uc acc c = Stop e c'" and "errors c \<le> error_threshold"
  shows "errors c' \<le> Suc error_threshold \<and> (errors c' = Suc error_threshold \<longrightarrow>
    e = Ended Done \<and> (\<exists>b. out c' = b @ ''500 5.5.1 Too many errors. Quiting now'' @ CRLF))"
proof -
  have pe: "protocol_error d = Stop e d' \<Longrightarrow> errors d \<le> error_threshold \<Longrightarrow> ?thesis" if "d' = c'" for d d'
    using that by (cases rule: protocol_error_cases [of d]) (auto simp: error_threshold_def)
  have cmd: "command cfg lc acc verb rest d = Stop e c' \<Longrightarrow> errors d \<le> error_threshold
      \<Longrightarrow> ?thesis" for verb rest d
    by (auto simp: command_def cmd_mail_def cmd_rcpt_def cmd_data_def Let_def dest!: pe [OF refl]
             split: if_splits outcome.splits option.splits prod.splits)
  show ?thesis
    using assms
    by (auto simp: smtp_step_def Let_def dest!: pe [OF refl] cmd
             split: prod.splits read.splits outcome.splits option.splits)
qed

text \<open>
  A session counts at most four protocol errors, and one that reaches the fourth is over:
  it ended normally and its last reply is the farewell for too many errors.
\<close>

theorem fourth_error_hangs_up:
  "case handle cfg lc uc accepts i of (e, c) \<Rightarrow>
     errors c \<le> 4 \<and> (errors c = 4 \<longrightarrow>
       e = Ended Done \<and> (\<exists>b. out c = b @ ''500 5.5.1 Too many errors. Quiting now'' @ CRLF))"
proof -
  let ?Q = "\<lambda>e c. errors c \<le> Suc error_threshold \<and> (errors c = Suc error_threshold \<longrightarrow>
    e = Ended Done \<and> (\<exists>b. out c = b @ ''500 5.5.1 Too many errors. Quiting now'' @ CRLF))"
  have "case handle cfg lc uc accepts i of (e, c) \<Rightarrow> ?Q e c"
    unfolding handle_def handle_inner_def
    by (rule smtp_loop_invariant [where I = "\<lambda>c. errors c \<le> error_threshold"])
       (use continue_errors stop_errors in \<open>auto simp: conn_new_def\<close>)
  then show ?thesis
    by (simp add: error_threshold_def case_prod_beta)
qed

section \<open>Panics\<close>

lemma split_command_ascii: "is_ascii line \<Longrightarrow> split_command uc line \<noteq> Panic"
  by (auto simp: split_command_def Let_def slice_to_ascii slice_from_ascii)

lemma parse_path_ascii: "is_ascii rest \<Longrightarrow> parse_path rest prefix \<noteq> Panic"
  by (auto simp: parse_path_def Let_def slice_to_ascii slice_from_ascii split: option.splits)

lemma split_command_rest:
  "is_ascii line \<Longrightarrow> split_command uc line = Ret (Some (verb, rest)) \<Longrightarrow> is_ascii rest"
  by (auto simp: split_command_def Let_def slice_to_ascii slice_from_ascii split: if_splits)

lemma command_ascii:
  "is_ascii rest \<Longrightarrow> command cfg lc acc verb rest c \<noteq> Stop Panicked d"
  using parse_path_ascii [of rest]
  by (auto simp: command_def cmd_mail_def cmd_rcpt_def cmd_data_def protocol_error_def Let_def
           split: if_splits outcome.splits option.splits prod.splits)

lemma set_take_line: "set (fst (take_line i)) \<subseteq> set i" "set (snd (take_line i)) \<subseteq> set i"
  using take_line_append [of i] by (metis set_append sup_ge1, metis set_append sup_ge2)

lemma set_read_line: "read_line i = (Line l, r) \<Longrightarrow> set l \<subseteq> set i \<and> set r \<subseteq> set i"
  using set_take_line [of i] by (auto simp: read_line_def Let_def split: prod.splits if_splits)

lemma set_read_data: "set (snd (read_data i)) \<subseteq> set i"
proof (induction i rule: read_data.induct)
  case (1 i)
  show ?case
  proof (cases "i = []")
    case True
    then show ?thesis by (simp add: read_data.simps)
  next
    case False
    obtain line rest where l: "take_line i = (line, rest)" by fastforce
    have "set rest \<subseteq> set i" using set_take_line(2) [of i] l by simp
    moreover have "chop_last CR (chop_last LF line) \<noteq> ''.'' \<Longrightarrow> set (snd (read_data rest)) \<subseteq> set rest"
      using 1 [OF False l [symmetric] refl refl] by simp
    ultimately have sub: "chop_last CR (chop_last LF line) \<noteq> ''.'' \<Longrightarrow> set (snd (read_data rest)) \<subseteq> set i"
      "set rest \<subseteq> set i" by blast+
    have "snd (read_data i) = (if chop_last CR (chop_last LF line) = ''.'' then rest else snd (read_data rest))"
      using False l by (simp add: read_data.simps [of i] Let_def split: prod.split)
    with sub show ?thesis by simp
  qed
qed

lemma after_protocol_error_inp [simp]: "inp (after (protocol_error d)) = inp d"
  by (simp add: protocol_error_def Let_def)

lemma command_set_inp: "set (inp (after (command cfg lc acc verb rest c))) \<subseteq> set (inp c)"
proof -
  have "inp (after (cmd_mail rest c)) = inp c"
    by (simp add: cmd_mail_def split: outcome.split option.split)
  moreover have "inp (after (cmd_rcpt lc acc rest c)) = inp c"
    by (simp add: cmd_rcpt_def Let_def split: outcome.split option.split)
  moreover have "set (inp (after (cmd_data c))) \<subseteq> set (inp c)"
    using set_read_data [of "inp c"]
    by (cases "read_data (inp c)") (simp add: cmd_data_def Let_def split: option.split)
  ultimately show ?thesis
    by (simp add: command_def)
qed

lemma smtp_step_set_inp: "set (inp (after (smtp_step cfg lc uc acc c))) \<subseteq> set (inp c)"
proof -
  obtain x r where x: "read_line (inp c) = (x, r)" by fastforce
  then have r: "set r \<subseteq> set (inp c)"
    using set_take_line(2) [of "inp c"] by (auto simp: read_line_def Let_def split: prod.splits if_splits)
  have "set (inp (after (command cfg lc acc verb rest (c\<lparr>inp := r\<rparr>)))) \<subseteq> set r" for verb rest
    using command_set_inp [of cfg lc acc verb rest "c\<lparr>inp := r\<rparr>"] by simp
  with r x show ?thesis
    by (simp add: smtp_step_def Let_def split: read.split outcome.split option.split prod.split) blast
qed

lemma smtp_step_ascii:
  assumes "is_ascii (inp c)"
  shows "smtp_step cfg lc uc acc c \<noteq> Stop Panicked d"
proof
  assume stop: "smtp_step cfg lc uc acc c = Stop Panicked d"
  have pe: "protocol_error x \<noteq> Stop Panicked d" for x
    by (simp add: protocol_error_def Let_def)
  obtain l r where l: "read_line (inp c) = (Line l, r)"
    using stop by (auto simp: smtp_step_def split: prod.splits read.splits)
  then have "is_ascii l" using set_read_line assms is_ascii_subset by blast
  then have asc: "is_ascii (trim_end_chars [CR, LF] l)" by simp
  show False
    using stop l pe split_command_ascii [OF asc, of uc] split_command_rest [OF asc]
    by (auto simp: smtp_step_def Let_def command_ascii split: outcome.splits option.splits prod.splits)
qed

text \<open>
  A client that sends ASCII only never makes the session task panic.
\<close>

theorem ascii_session_never_panics:
  "is_ascii i \<Longrightarrow> fst (handle cfg lc uc accepts i) \<noteq> Panicked"
proof -
  assume asc: "is_ascii i"
  have "case handle cfg lc uc accepts i of (e, c) \<Rightarrow> e \<noteq> Panicked"
    unfolding handle_def handle_inner_def
  proof (rule smtp_loop_invariant [where I = "\<lambda>c. is_ascii (inp c)"])
    show "is_ascii (inp c')" if "smtp_step cfg lc uc accepts c = Continue c'" "is_ascii (inp c)" for c c'
      using smtp_step_set_inp [of cfg lc uc accepts c] that is_ascii_subset by auto
    show "e \<noteq> Panicked" if "smtp_step cfg lc uc accepts c = Stop e c'" "is_ascii (inp c)" for c e c'
      using smtp_step_ascii [of c cfg lc uc accepts c'] that by auto
    show "is_ascii (inp (if Send = Send then say (''220 '' @ hostname cfg @ '' ESMTP Service Ready'') (conn_new i)
              else conn_new i))"
      using asc by (simp add: conn_new_def)
  qed
  then show ?thesis by (simp add: case_prod_beta)
qed

text \<open>
  Exactly which command lines panic: on valid UTF-8, the lines of more than eight bytes
  whose ninth byte is inside a character. The slice that looks for \<open>STARTTLS\<close> is taken before
  any boundary check.
\<close>

theorem split_command_panics_iff:
  "utf8_ok (trim_end_chars [CR, LF] line) \<Longrightarrow>
   split_command uc line = Panic \<longleftrightarrow>
     8 < length (trim_end_chars [CR, LF] line) \<and> is_cont (trim_end_chars [CR, LF] line ! 8)"
proof -
  assume u: "utf8_ok (trim_end_chars [CR, LF] line)"
  define l where "l = trim_end_chars [CR, LF] line"
  have five: "char_boundary l 5" if "5 < length l" "l ! 4 = SP"
    using utf8_ok_after_ascii [of l 4] u that by (auto simp: char_boundary_def l_def eval_nat_numeral)
  have short: "length l < 8 \<Longrightarrow> split_command uc line \<noteq> Panic"
    using five by (auto simp: split_command_def Let_def slice_to_def slice_from_def simp flip: l_def)
  have long: "8 \<le> length l \<Longrightarrow> char_boundary l 8 \<Longrightarrow> split_command uc line \<noteq> Panic"
    using five by (auto simp: split_command_def Let_def slice_to_def slice_from_def simp flip: l_def)
  have bad: "8 \<le> length l \<Longrightarrow> \<not> char_boundary l 8 \<Longrightarrow> split_command uc line = Panic"
    by (auto simp: split_command_def Let_def slice_to_def simp flip: l_def)
  show ?thesis
  proof (cases "8 < length l \<and> is_cont (l ! 8)")
    case True
    then show ?thesis using bad by (simp add: char_boundary_def flip: l_def)
  next
    case False
    then have "length l < 8 \<or> (8 \<le> length l \<and> char_boundary l 8)"
      by (auto simp: char_boundary_def)
    then show ?thesis using False short long by (auto simp flip: l_def)
  qed
qed

section \<open>A message cut off\<close>

text \<open>
  A connection that closes in the middle of \<open>DATA\<close>, before the terminating dot, still has
  its message delivered: the bytes that arrived are handed to \<open>Backend::deliver\<close>. (The
  comment on \<open>read_data\<close> says the caller discards them.)
\<close>

theorem cut_off_message_is_delivered:
  "mail_from (sess c) = Some f \<Longrightarrow> rcpts (sess c) \<noteq> [] \<Longrightarrow>
   inp c = m \<Longrightarrow> m \<noteq> [] \<Longrightarrow> LF \<notin> set m \<Longrightarrow> chop_last CR m \<noteq> ''.'' \<Longrightarrow>
   delivered (after (cmd_data c)) = delivered c @
     [\<lparr>d_from = f, d_rcpts = rcpts (sess c),
       d_raw = chop_first (CHR ''.'') (chop_last CR m) @ CRLF\<rparr>]"
proof -
  assume a: "mail_from (sess c) = Some f" "rcpts (sess c) \<noteq> []" "inp c = m" "m \<noteq> []"
    "LF \<notin> set m" "chop_last CR m \<noteq> ''.''"
  then have "last m \<noteq> LF" by (metis last_in_set)
  then have "chop_last LF m = m" by (simp add: chop_last_def)
  then have "read_data m = (chop_first (CHR ''.'') (chop_last CR m) @ CRLF, [])"
    using a by (simp add: read_data.simps [of m] take_line_no_LF Let_def read_data.simps [of "[]"])
  with a show ?thesis by (simp add: cmd_data_def Let_def)
qed

section \<open>Witnesses\<close>

declare handle_def [eval] handle_inner_def [eval] conn_new_def [eval] session_new_def [eval]
  smtp_loop.simps [eval] smtp_step_def [eval] read_line_def [eval] split_command_def [eval]
  command_def [eval] cmd_mail_def [eval] cmd_rcpt_def [eval] cmd_data_def [eval]
  parse_path_def [eval] say_def [eval] session_reset_def [eval] default_config_def [eval]
  read_data.simps [eval] chop_last_def [eval] chop_first_def [eval] protocol_error_def [eval]
  error_threshold_def [eval] ehlo_response_def [eval] ehlo_caps_def [eval]

definition demo_session :: string where
  "demo_session = ''EHLO a'' @ CRLF @ ''MAIL FROM:<a@b>'' @ CRLF @ ''RCPT TO:<X@y>'' @ CRLF
    @ ''RCPT TO:<no@y>'' @ CRLF @ ''DATA'' @ CRLF @ ''hi'' @ CRLF @ ''.'' @ CRLF @ ''QUIT'' @ CRLF"

definition demo_delivery :: delivery where
  "demo_delivery = \<lparr>d_from = ''a@b'', d_rcpts = [''x@y''], d_raw = ''hi'' @ CRLF\<rparr>"

lemma demo_delivers:
  "delivered (snd (handle default_config ascii_lower ascii_upper (\<lambda>a. a = ''x@y'') demo_session))
   = [demo_delivery]"
  by (simp add: eval demo_session_def demo_delivery_def)

theorem delivers_only_served_witness:
  "d_rcpts demo_delivery = [''x@y''] \<and> d_rcpts demo_delivery \<noteq> [] \<and>
   set (d_rcpts demo_delivery) = {''x@y''} \<and> (\<exists>a. ''x@y'' = ascii_lower a)"
proof -
  have "demo_delivery \<in> set (delivered (snd (handle default_config ascii_lower ascii_upper
      (\<lambda>a. a = ''x@y'') demo_session)))"
    by (simp add: demo_delivers)
  from delivers_only_served [OF this] show ?thesis
    by (simp add: demo_delivery_def)
qed

definition demo_noise :: string where
  "demo_noise = CRLF @ CRLF @ CRLF @ CRLF @ ''QUIT'' @ CRLF"

theorem fourth_error_hangs_up_witness:
  "errors (snd (handle default_config ascii_lower ascii_upper (\<lambda>_. True) demo_noise)) = 4 \<and>
   fst (handle default_config ascii_lower ascii_upper (\<lambda>_. True) demo_noise) = Ended Done"
proof -
  have e: "errors (snd (handle default_config ascii_lower ascii_upper (\<lambda>_. True) demo_noise)) = 4"
    by (simp add: eval demo_noise_def)
  with fourth_error_hangs_up [of default_config ascii_lower ascii_upper "\<lambda>_. True" demo_noise]
  show ?thesis by (simp add: case_prod_beta)
qed

theorem ascii_session_never_panics_witness:
  "fst (handle default_config ascii_lower ascii_upper (\<lambda>_. True) demo_noise) \<noteq> Panicked"
  by (rule ascii_session_never_panics) (simp add: demo_noise_def eval)

text \<open>Seven ASCII letters and a two-byte letter: the ninth byte is inside the letter.\<close>

definition demo_probe :: string where
  "demo_probe = ''aaaaaaa'' @ [CHR 0xC3, CHR 0xA9]"

theorem split_command_panics_iff_witness:
  "utf8_ok demo_probe \<and> split_command ascii_upper demo_probe = Panic \<and>
   fst (handle default_config ascii_lower ascii_upper (\<lambda>_. True) (demo_probe @ CRLF)) = Panicked"
proof -
  have u: "utf8_ok (trim_end_chars [CR, LF] demo_probe)" "utf8_ok demo_probe"
    by (simp_all add: demo_probe_def eval)
  moreover have "split_command ascii_upper demo_probe = Panic"
    using split_command_panics_iff [OF u(1), of ascii_upper] by (simp add: demo_probe_def eval)
  moreover have "fst (handle default_config ascii_lower ascii_upper (\<lambda>_. True) (demo_probe @ CRLF)) = Panicked"
    by (simp add: demo_probe_def eval)
  ultimately show ?thesis by simp
qed

definition demo_cut :: conn where
  "demo_cut = (conn_new ''half'')\<lparr>sess := \<lparr>greeted = True, mail_from = Some ''a@b'', rcpts = [''x@y'']\<rparr>\<rparr>"

theorem cut_off_message_is_delivered_witness:
  "delivered (after (cmd_data demo_cut)) =
     [\<lparr>d_from = ''a@b'', d_rcpts = [''x@y''], d_raw = ''half'' @ CRLF\<rparr>]"
  using cut_off_message_is_delivered [of demo_cut "''a@b''" "''half''"]
  by (simp add: demo_cut_def eval)

end
