(* ===== verification/BTree.thy ===== *)
theory BTree
  imports Prelude
begin

text \<open>
  Rust's \<open>BTreeMap\<close> as a list of pairs in strictly increasing key order, with the interface
  its clients use stated as the locale \<open>key_map\<close>. Iteration order is the list's order, which
  is what the relay's output depends on. \<open>HashMap\<close>, whose order the code never observes, is
  a HOL map and a second interpretation of the same interface.
\<close>

section \<open>The interface\<close>

locale key_map =
  fixes emp :: "'m"
    and get :: "'m \<Rightarrow> 'k \<Rightarrow> 'v option"
    and ins :: "'k \<Rightarrow> 'v \<Rightarrow> 'm \<Rightarrow> 'm"
    and del :: "'k \<Rightarrow> 'm \<Rightarrow> 'm"
    and ok :: "'m \<Rightarrow> bool"
  assumes ok_emp: "ok emp"
    and ok_ins: "ok m \<Longrightarrow> ok (ins k v m)"
    and ok_del: "ok m \<Longrightarrow> ok (del k m)"
    and get_emp: "get emp j = None"
    and get_ins: "ok m \<Longrightarrow> get (ins k v m) j = (if j = k then Some v else get m j)"
    and get_del: "ok m \<Longrightarrow> get (del k m) j = (if j = k then None else get m j)"
begin

lemma get_after_ins: "ok m \<Longrightarrow> get (ins k v m) k = Some v"
  by (simp add: get_ins)

lemma get_after_del: "ok m \<Longrightarrow> get (del k m) k = None"
  by (simp add: get_del)

lemma get_other: "ok m \<Longrightarrow> j \<noteq> k \<Longrightarrow> get (ins k v m) j = get m j \<and> get (del k m) j = get m j"
  by (simp add: get_ins get_del)

lemma ok_foldl_ins: "ok m \<Longrightarrow> ok (foldl (\<lambda>m (k, v). ins k v m) m kvs)"
  by (induction kvs arbitrary: m) (auto simp: ok_ins)

lemma get_foldl_ins:
  "ok m \<Longrightarrow> get (foldl (\<lambda>m (k, v). ins k v m) m kvs) j =
     (case map_of (rev kvs) j of None \<Rightarrow> get m j | Some v \<Rightarrow> Some v)"
proof (induction kvs arbitrary: m)
  case Nil
  then show ?case by simp
next
  case (Cons p kvs)
  then show ?case
    by (cases p) (auto simp: ok_ins get_ins map_add_def split: option.splits)
qed

end

section \<open>The sorted list\<close>

type_synonym ('k, 'v) btree = "('k \<times> 'v) list"

definition bt_ok :: "('k::linorder, 'v) btree \<Rightarrow> bool" where
  "bt_ok m \<longleftrightarrow> sorted_wrt (<) (map fst m)"

definition bt_get :: "('k, 'v) btree \<Rightarrow> 'k \<Rightarrow> 'v option" where
  "bt_get m k = map_of m k"

fun bt_ins :: "'k::linorder \<Rightarrow> 'v \<Rightarrow> ('k, 'v) btree \<Rightarrow> ('k, 'v) btree" where
  "bt_ins k v [] = [(k, v)]"
| "bt_ins k v (p # m) =
    (if fst p < k then p # bt_ins k v m
     else if fst p = k then (k, v) # m
     else (k, v) # p # m)"

definition bt_del :: "'k \<Rightarrow> ('k, 'v) btree \<Rightarrow> ('k, 'v) btree" where
  "bt_del k m = filter (\<lambda>p. fst p \<noteq> k) m"

definition bt_keys :: "('k, 'v) btree \<Rightarrow> 'k list" where
  "bt_keys m = map fst m"

definition bt_vals :: "('k, 'v) btree \<Rightarrow> 'v list" where
  "bt_vals m = map snd m"

text \<open>\<open>collect()\<close> into a \<open>BTreeMap\<close>: later entries replace earlier ones.\<close>

definition bt_of :: "('k::linorder \<times> 'v) list \<Rightarrow> ('k, 'v) btree" where
  "bt_of kvs = foldl (\<lambda>m (k, v). bt_ins k v m) [] kvs"

lemma bt_get_Nil [simp]: "bt_get [] k = None"
  by (simp add: bt_get_def)

lemma fst_set_bt_ins: "fst ` set (bt_ins k v m) = insert k (fst ` set m)"
  by (induction m) auto

lemma bt_ok_Nil [simp]: "bt_ok []"
  by (simp add: bt_ok_def)

lemma bt_ok_ins [simp]: "bt_ok m \<Longrightarrow> bt_ok (bt_ins k v m)"
proof (induction m)
  case Nil
  then show ?case by (simp add: bt_ok_def)
next
  case (Cons p m)
  then show ?case using fst_set_bt_ins [of k v m]
    by (auto simp: bt_ok_def)
qed

lemma bt_ok_del [simp]: "bt_ok m \<Longrightarrow> bt_ok (bt_del k m)"
  by (induction m) (auto simp: bt_ok_def bt_del_def)

lemma bt_get_ins [simp]: "bt_get (bt_ins k v m) j = (if j = k then Some v else bt_get m j)"
  by (induction m) (auto simp: bt_get_def)

lemma bt_get_del [simp]: "bt_get (bt_del k m) j = (if j = k then None else bt_get m j)"
  by (induction m) (auto simp: bt_get_def bt_del_def)

declare bt_get_def [eval] bt_del_def [eval] bt_keys_def [eval] bt_vals_def [eval] bt_of_def [eval]
  less_char_def [eval]

interpretation bt: key_map "[]" bt_get bt_ins bt_del bt_ok
  by unfold_locales simp_all

interpretation hm: key_map "Map.empty" "\<lambda>m k. m k" "\<lambda>k v m. m(k \<mapsto> v)" "\<lambda>k m. m(k := None)" "\<lambda>_. True"
  by unfold_locales simp_all

lemma bt_ok_of [simp]: "bt_ok (bt_of kvs)"
  unfolding bt_of_def by (rule bt.ok_foldl_ins) simp

lemma bt_get_of: "bt_get (bt_of kvs) j = map_of (rev kvs) j"
  unfolding bt_of_def by (subst bt.get_foldl_ins) (auto split: option.splits)

text \<open>A map is determined by its lookups: two sorted lists with the same lookups are equal.\<close>

lemma bt_get_None: "bt_get m k = None \<longleftrightarrow> k \<notin> fst ` set m"
  by (induction m) (auto simp: bt_get_def)

lemma bt_ok_Cons: "bt_ok (p # m) \<longleftrightarrow> (\<forall>q \<in> set m. fst p < fst q) \<and> bt_ok m"
  by (auto simp: bt_ok_def)

lemma bt_ins_last: "(\<And>q. q \<in> set m \<Longrightarrow> fst q < k) \<Longrightarrow> bt_ins k v m = m @ [(k, v)]"
  by (induction m) auto

lemma bt_of_sorted: "bt_ok kvs \<Longrightarrow> bt_of kvs = kvs"
proof (induction kvs rule: rev_induct)
  case Nil
  then show ?case by (simp add: bt_of_def)
next
  case (snoc p kvs)
  then have "bt_ok kvs" and "\<And>q. q \<in> set kvs \<Longrightarrow> fst q < fst p"
    by (auto simp: bt_ok_def sorted_wrt_append)
  with snoc.IH show ?case
    by (cases p) (simp add: bt_of_def bt_ins_last)
qed

lemma in_set_bt_get: "bt_ok m \<Longrightarrow> (k, v) \<in> set m \<Longrightarrow> bt_get m k = Some v"
  by (induction m) (auto simp: bt_get_def bt_ok_Cons)

lemma bt_recover: "bt_ok m \<Longrightarrow> map (\<lambda>k. (k, the (bt_get m k))) (bt_keys m) = m"
  by (auto simp: bt_keys_def comp_def intro!: map_idI dest: in_set_bt_get)

lemma bt_eqI:
  assumes "bt_ok m" and "bt_ok n" and "\<And>k. bt_get m k = bt_get n k"
  shows "m = n"
proof -
  have "set (bt_keys m) = set (bt_keys n)"
    using assms(3) bt_get_None [of m] bt_get_None [of n] by (simp add: bt_keys_def set_eq_iff)
  then have "bt_keys m = bt_keys n"
    using assms(1,2) by (auto simp: bt_ok_def bt_keys_def intro: strict_sorted_equal)
  then have "map (\<lambda>k. (k, the (bt_get m k))) (bt_keys m) = map (\<lambda>k. (k, the (bt_get n k))) (bt_keys n)"
    by (simp add: assms(3))
  then show ?thesis
    by (simp add: bt_recover assms(1,2))
qed

lemma bt_ins_same: "bt_ok m \<Longrightarrow> bt_get m k = Some v \<Longrightarrow> bt_ins k v m = m"
  by (rule bt_eqI) auto

lemma bt_keys_set: "k \<in> set (bt_keys m) \<longleftrightarrow> bt_get m k \<noteq> None"
  by (simp add: bt_get_None bt_keys_def)

lemma bt_get_in_set: "bt_get m k = Some v \<Longrightarrow> (k, v) \<in> set m"
  by (simp add: bt_get_def map_of_SomeD)

section \<open>Sets\<close>

text \<open>\<open>BTreeSet\<close>: the keys of a map to the unit value, listed in order.\<close>

type_synonym 'k bset = "('k, unit) btree"

definition bs_add :: "'k::linorder \<Rightarrow> 'k bset \<Rightarrow> 'k bset" where
  "bs_add k s = bt_ins k () s"

definition bs_del :: "'k \<Rightarrow> 'k bset \<Rightarrow> 'k bset" where
  "bs_del k s = bt_del k s"

definition bs_mem :: "'k \<Rightarrow> 'k bset \<Rightarrow> bool" where
  "bs_mem k s \<longleftrightarrow> bt_get s k \<noteq> None"

definition bs_of :: "'k::linorder list \<Rightarrow> 'k bset" where
  "bs_of ks = foldl (\<lambda>s k. bs_add k s) [] ks"

definition bs_set :: "'k bset \<Rightarrow> 'k set" where
  "bs_set s = set (bt_keys s)"

lemma bs_mem_set: "bs_mem k s \<longleftrightarrow> k \<in> bs_set s"
  by (simp add: bs_mem_def bs_set_def bt_keys_set)

lemma bs_set_Nil [simp]: "bs_set [] = {}"
  by (simp add: bs_set_def bt_keys_def)

lemma bs_set_add [simp]: "bs_set (bs_add k s) = insert k (bs_set s)"
  by (simp add: bs_set_def bs_add_def bt_keys_def fst_set_bt_ins)

lemma bs_set_del [simp]: "bs_set (bs_del k s) = bs_set s - {k}"
  by (auto simp: bs_set_def bs_del_def bt_del_def bt_keys_def)

lemma bs_ok [simp]: "bt_ok s \<Longrightarrow> bt_ok (bs_add k s)" "bt_ok s \<Longrightarrow> bt_ok (bs_del k s)"
  by (simp_all add: bs_add_def bs_del_def)

lemma bs_set_foldl_add: "bs_set (foldl (\<lambda>s k. bs_add k s) s ks) = bs_set s \<union> set ks"
  by (induction ks arbitrary: s) auto

lemma bs_set_of [simp]: "bs_set (bs_of ks) = set ks"
  by (simp add: bs_of_def bs_set_foldl_add)

end
