(* ===== verification/SmtpOut.thy ===== *)
theory SmtpOut
  imports Wire BTree "HOL-Library.Multiset"
begin

text \<open>
  The outbound SMTP client, \<open>crates/jmapsmtp/src/smtp_out.rs\<close>.

  A connection is a \<open>wire\<close>: the bytes the server will still send, the bytes the client has
  written, and the point after which writing fails. A conversation is a function from the wire
  to a result and the wire; it can fail with a \<open>send_error\<close> or panic. Dialling, the TLS
  handshake (\<open>Sender::upgrade\<close>: the root store and rustls) and MX lookup are parameters.
\<close>

section \<open>Errors and conversations\<close>

datatype send_error =
    Dial string string
  | Io string
  | Rejected string string
  | NoRecipients
  | NoMx string
  | InvalidRecipient string

record wire =
  rx :: string
  tx :: string
  tx_limit :: "nat option"

definition wire_of :: "string \<Rightarrow> wire" where
  "wire_of s = \<lparr>rx = s, tx = [], tx_limit = None\<rparr>"

type_synonym 'a talk = "wire \<Rightarrow> (send_error + 'a) outcome \<times> wire"

definition give :: "'a \<Rightarrow> 'a talk" where
  "give x w = (Ret (Inr x), w)"

definition fail :: "send_error \<Rightarrow> 'a talk" where
  "fail e w = (Ret (Inl e), w)"

definition of_outcome :: "'a outcome \<Rightarrow> 'a talk" where
  "of_outcome r w = (bind_out r (\<lambda>x. Ret (Inr x)), w)"

definition andthen :: "'a talk \<Rightarrow> ('a \<Rightarrow> 'b talk) \<Rightarrow> 'b talk" where
  "andthen m f w =
    (case m w of
       (Ret (Inr x), w') \<Rightarrow> f x w'
     | (Ret (Inl e), w') \<Rightarrow> (Ret (Inl e), w')
     | (Panic, w') \<Rightarrow> (Panic, w'))"

text \<open>\<open>write_all\<close>.\<close>

definition put :: "string \<Rightarrow> unit talk" where
  "put s w =
    (let t = tx w @ s in
     case tx_limit w of
       None \<Rightarrow> (Ret (Inr ()), w\<lparr>tx := t\<rparr>)
     | Some n \<Rightarrow>
         if length t \<le> n then (Ret (Inr ()), w\<lparr>tx := t\<rparr>)
         else (Ret (Inl (Io ''broken pipe'')), w\<lparr>tx := take n t\<rparr>))"

text \<open>\<open>read_reply\<close>, following continuation lines.\<close>

function reply_go :: "string \<Rightarrow> string \<Rightarrow> (string + string) \<times> string" where
  "reply_go acc i =
    (case read_line i of
       (Eof, r) \<Rightarrow> (Inl ''connection closed mid-reply'', r)
     | (BadUtf8, r) \<Rightarrow> (Inl ''stream did not contain valid UTF-8'', r)
     | (Line l, r) \<Rightarrow>
         if 3 < length l \<and> l ! 3 = CHR ''-'' then reply_go (acc @ l) r else (Inr (acc @ l), r))"
  by pat_completeness auto
termination
  by (relation "measure (\<lambda>(acc, i). length i)") (auto dest: read_line_shorter [OF sym])

declare reply_go.simps [simp del]

definition read_reply :: "string talk" where
  "read_reply w =
    (case reply_go [] (rx w) of
       (Inl e, r) \<Rightarrow> (Ret (Inl (Io e)), w\<lparr>rx := r\<rparr>)
     | (Inr s, r) \<Rightarrow> (Ret (Inr s), w\<lparr>rx := r\<rparr>))"

definition starts_with_2 :: "string \<Rightarrow> bool" where
  "starts_with_2 s \<longleftrightarrow> is_prefix ''2'' s"

text \<open>\<open>check\<close>: any reply of the same class as \<open>code\<close>.\<close>

definition check :: "string \<Rightarrow> nat \<Rightarrow> string \<Rightarrow> send_error + string" where
  "check reply code what =
    (let cls = (case reply of c # _ \<Rightarrow> c | [] \<Rightarrow> CHR ''5'');
         want = chr (48 + code div 100) in
     if cls = want then Inr reply else Inl (Rejected what (trim_end reply)))"

definition checked :: "send_error + 'a \<Rightarrow> 'a talk" where
  "checked r w = (Ret r, w)"

definition expect :: "nat \<Rightarrow> string \<Rightarrow> string talk" where
  "expect code what = andthen read_reply (\<lambda>r. checked (check r code what))"

section \<open>EHLO keywords and MAIL FROM\<close>

function lines :: "string \<Rightarrow> string list" where
  "lines s =
    (if s = [] then []
     else (let (l, r) = take_line s in
           (if last l = LF then chop_last CR (butlast l) else l) # lines r))"
  by pat_completeness auto
termination
  by (relation "measure length") (auto dest: take_line_shorter simp: prod_eq_iff)

declare lines.simps [simp del]

fun any_out :: "('a \<Rightarrow> bool outcome) \<Rightarrow> 'a list \<Rightarrow> bool outcome" where
  "any_out p [] = Ret False"
| "any_out p (x # xs) = bind_out (p x) (\<lambda>b. if b then Ret True else any_out p xs)"

definition line_keyword :: "string \<Rightarrow> string \<Rightarrow> bool outcome" where
  "line_keyword keyword l0 =
    (let l = trim_end_chars [CR] l0 in
     bind_out (if 4 < length l then slice_from l 4 else Ret []) (\<lambda>rest.
     Ret (case first_word rest of None \<Rightarrow> False | Some k \<Rightarrow> eq_ignore_ascii_case k keyword)))"

definition advertises :: "string \<Rightarrow> string \<Rightarrow> bool outcome" where
  "advertises ehlo keyword = any_out (line_keyword keyword) (lines ehlo)"

definition mail_from_cmd :: "string \<Rightarrow> string \<Rightarrow> string outcome" where
  "mail_from_cmd from ehlo =
    bind_out (advertises ehlo ''8BITMIME'') (\<lambda>b8.
    bind_out (advertises ehlo ''SMTPUTF8'') (\<lambda>u8.
    Ret (''MAIL FROM:<'' @ from @ ''>''
         @ (if b8 then '' BODY=8BITMIME'' else []) @ (if u8 then '' SMTPUTF8'' else []) @ CRLF)))"

section \<open>Message data\<close>

fun dot_stuff_go :: "bool \<Rightarrow> string \<Rightarrow> string" where
  "dot_stuff_go st [] = []"
| "dot_stuff_go st (b # s) =
    (if st \<and> b = CHR ''.'' then [CHR ''.'', b] else [b]) @ dot_stuff_go (b = LF) s"

definition dot_stuff :: "string \<Rightarrow> string" where
  "dot_stuff raw = dot_stuff_go True raw"

definition ends_with_LF :: "string \<Rightarrow> bool" where
  "ends_with_LF s \<longleftrightarrow> s \<noteq> [] \<and> last s = LF"

text \<open>What \<open>converse\<close> writes after the 354, in its three writes.\<close>

definition data_wire :: "string \<Rightarrow> string" where
  "data_wire raw = dot_stuff raw @ (if ends_with_LF raw then [] else CRLF) @ ''.'' @ CRLF"

section \<open>The conversation\<close>

definition greet :: "string \<Rightarrow> string talk" where
  "greet host =
    andthen (put (''EHLO '' @ host @ CRLF)) (\<lambda>_.
    andthen read_reply (\<lambda>ehlo.
    if starts_with_2 ehlo then give ehlo
    else andthen (put (''HELO '' @ host @ CRLF)) (\<lambda>_.
         andthen (expect 250 ''EHLO'') (\<lambda>_. give ehlo))))"

fun rcpt_all :: "string list \<Rightarrow> unit talk" where
  "rcpt_all [] = give ()"
| "rcpt_all (addr # to) =
    andthen (put (''RCPT TO:<'' @ addr @ ''>'' @ CRLF)) (\<lambda>_.
    andthen read_reply (\<lambda>_. rcpt_all to))"

text \<open>The farewell cannot fail: its results are dropped.\<close>

definition ignore :: "'a talk \<Rightarrow> unit talk" where
  "ignore m w = (case m w of (Ret r, w') \<Rightarrow> (Ret (Inr ()), w') | (Panic, w') \<Rightarrow> (Panic, w'))"

definition converse :: "string \<Rightarrow> string \<Rightarrow> string list \<Rightarrow> string \<Rightarrow> unit talk" where
  "converse ehlo from to raw =
    andthen (of_outcome (mail_from_cmd from ehlo)) (\<lambda>cmd.
    andthen (put cmd) (\<lambda>_.
    andthen (expect 250 ''MAIL FROM'') (\<lambda>_.
    andthen (rcpt_all to) (\<lambda>_.
    andthen (put (''DATA'' @ CRLF)) (\<lambda>_.
    andthen (expect 354 ''DATA'') (\<lambda>_.
    andthen (put (dot_stuff raw)) (\<lambda>_.
    andthen (if ends_with_LF raw then give () else put CRLF) (\<lambda>_.
    andthen (put (''.'' @ CRLF)) (\<lambda>_.
    andthen (expect 250 ''end DATA'') (\<lambda>_.
    andthen (ignore (put (''QUIT'' @ CRLF))) (\<lambda>_. ignore read_reply)))))))))))"

section \<open>One connection\<close>

text \<open>
  The network as the client meets it: what dialling a target gives, what the TLS handshake
  with a host gives (a fresh wire inside the tunnel), and how many of the server's unread
  bytes were already in the reader's buffer after its answer to \<open>STARTTLS\<close>.
\<close>

record net =
  dial :: "string \<Rightarrow> string + wire"
  upgrade :: "string \<Rightarrow> send_error + wire"
  buffered :: "string \<Rightarrow> nat"

definition host_of :: "string \<Rightarrow> string" where
  "host_of target = (case rsplit_once (CHR '':'') target of None \<Rightarrow> target | Some (h, _) \<Rightarrow> h)"

text \<open>The result of \<open>send_one\<close> with what went out in the clear and inside the tunnel.\<close>

record sent =
  result :: "(send_error + unit) outcome"
  clear :: string
  tunnel :: string

definition sent_clear :: "(send_error + unit) outcome \<times> wire \<Rightarrow> sent" where
  "sent_clear p = \<lparr>result = fst p, clear = tx (snd p), tunnel = []\<rparr>"

definition open_session :: "string \<Rightarrow> string talk" where
  "open_session host = andthen (expect 220 ''greeting'') (\<lambda>_. greet host)"

definition after_tls ::
  "net \<Rightarrow> string \<Rightarrow> string \<Rightarrow> string \<Rightarrow> string list \<Rightarrow> string \<Rightarrow> wire \<Rightarrow> sent" where
  "after_tls n host target from to raw w =
    (let k = min (buffered n (rx w)) (length (rx w)) in
     if k \<noteq> 0 then
       \<lparr>result = Ret (Inl (Rejected ''STARTTLS''
           (''server pipelined '' @ show_nat k @ '' bytes across the TLS boundary''))),
        clear = tx w, tunnel = []\<rparr>
     else case upgrade n (host_of target) of
       Inl e \<Rightarrow> \<lparr>result = Ret (Inl e), clear = tx w, tunnel = []\<rparr>
     | Inr t \<Rightarrow>
         (let r = andthen (greet host) (\<lambda>ehlo. converse ehlo from to raw) t in
          \<lparr>result = fst r, clear = tx w, tunnel = tx (snd r)\<rparr>))"

definition send_one ::
  "net \<Rightarrow> string \<Rightarrow> string \<Rightarrow> string \<Rightarrow> string list \<Rightarrow> string \<Rightarrow> sent" where
  "send_one n host target from to raw =
    (case dial n target of
       Inl e \<Rightarrow> \<lparr>result = Ret (Inl (Dial target e)), clear = [], tunnel = []\<rparr>
     | Inr w0 \<Rightarrow>
       (case open_session host w0 of
          (Panic, w) \<Rightarrow> \<lparr>result = Panic, clear = tx w, tunnel = []\<rparr>
        | (Ret (Inl e), w) \<Rightarrow> \<lparr>result = Ret (Inl e), clear = tx w, tunnel = []\<rparr>
        | (Ret (Inr ehlo), w) \<Rightarrow>
          (case advertises ehlo ''STARTTLS'' of
             Panic \<Rightarrow> \<lparr>result = Panic, clear = tx w, tunnel = []\<rparr>
           | Ret False \<Rightarrow> sent_clear (converse ehlo from to raw w)
           | Ret True \<Rightarrow>
             (case andthen (put (''STARTTLS'' @ CRLF)) (\<lambda>_. read_reply) w of
                (Panic, w') \<Rightarrow> \<lparr>result = Panic, clear = tx w', tunnel = []\<rparr>
              | (Ret (Inl e), w') \<Rightarrow> \<lparr>result = Ret (Inl e), clear = tx w', tunnel = []\<rparr>
              | (Ret (Inr reply), w') \<Rightarrow>
                if \<not> starts_with_2 reply then sent_clear (converse ehlo from to raw w')
                else after_tls n host target from to raw w'))))"

section \<open>Delivery\<close>

record sender =
  s_hostname :: string
  relay_host :: "string option"

text \<open>Recipients grouped by domain; an address with no \<open>@\<close> fails the whole send.\<close>

fun group_by_domain ::
  "(string, string list) btree \<Rightarrow> string list \<Rightarrow> send_error + (string, string list) btree" where
  "group_by_domain m [] = Inr m"
| "group_by_domain m (addr # to) =
    (case rsplit_once (CHR ''@'') addr of
       None \<Rightarrow> Inl (InvalidRecipient addr)
     | Some (_, domain) \<Rightarrow>
         group_by_domain
           (bt_ins domain ((case bt_get m domain of None \<Rightarrow> [] | Some l \<Rightarrow> l) @ [addr]) m) to)"

text \<open>
  One attempt per domain, in order; \<open>nets d\<close> is the network met by the connection for domain
  \<open>d\<close>. The first error is kept, later domains are still tried, a panic ends everything. The
  second component lists the attempts: domain, recipients and what was sent.
\<close>

definition target_of :: "string \<Rightarrow> string" where
  "target_of h = trim_end_chars [CHR ''.''] h @ '':25''"

type_synonym attempt = "string \<times> string list \<times> sent"

fun send_domains ::
  "(string \<Rightarrow> net) \<Rightarrow> (string \<Rightarrow> string list) \<Rightarrow> string \<Rightarrow> string \<Rightarrow> string \<Rightarrow> send_error option
   \<Rightarrow> (string \<times> string list) list \<Rightarrow> (send_error + unit) outcome \<times> attempt list" where
  "send_domains nets mx host from raw err [] =
    ((case err of None \<Rightarrow> Ret (Inr ()) | Some e \<Rightarrow> Ret (Inl e)), [])"
| "send_domains nets mx host from raw err ((d, addrs) # ds) =
    (case mx d of
       [] \<Rightarrow> send_domains nets mx host from raw
               (case err of None \<Rightarrow> Some (NoMx d) | Some e \<Rightarrow> Some e) ds
     | h # _ \<Rightarrow>
       (let s = send_one (nets d) host (target_of h) from addrs raw in
        case result s of
          Panic \<Rightarrow> (Panic, [(d, addrs, s)])
        | Ret (Inr _) \<Rightarrow>
            (let (r, as) = send_domains nets mx host from raw err ds in (r, (d, addrs, s) # as))
        | Ret (Inl e) \<Rightarrow>
            (let (r, as) = send_domains nets mx host from raw
                   (case err of None \<Rightarrow> Some e | Some e' \<Rightarrow> Some e') ds
             in (r, (d, addrs, s) # as))))"

definition deliver ::
  "(string \<Rightarrow> net) \<Rightarrow> (string \<Rightarrow> string list) \<Rightarrow> sender \<Rightarrow> string \<Rightarrow> string list \<Rightarrow> string
   \<Rightarrow> (send_error + unit) outcome \<times> attempt list" where
  "deliver nets mx sn from to raw =
    (if to = [] then (Ret (Inl NoRecipients), [])
     else case relay_host sn of
       Some relay \<Rightarrow>
         (let s = send_one (nets relay) (s_hostname sn) relay from to raw
          in (result s, [(relay, to, s)]))
     | None \<Rightarrow>
       (case group_by_domain [] to of
          Inl e \<Rightarrow> (Ret (Inl e), [])
        | Inr m \<Rightarrow> send_domains nets mx (s_hostname sn) from raw None m))"

section \<open>Every recipient is offered once\<close>

text \<open>The domain of an address: what follows its last \<open>@\<close>.\<close>

definition domain_of :: "string \<Rightarrow> string option" where
  "domain_of a = map_option snd (rsplit_once (CHR ''@'') a)"

lemma mset_append_group:
  "bt_ok m \<Longrightarrow>
   mset (concat (map snd (bt_ins d ((case bt_get m d of None \<Rightarrow> [] | Some l \<Rightarrow> l) @ [a]) m)))
   = add_mset a (mset (concat (map snd m)))"
proof (induction m)
  case Nil
  then show ?case by simp
next
  case (Cons p m)
  have "\<not> fst p < d \<Longrightarrow> fst p \<noteq> d \<Longrightarrow> bt_get (p # m) d = None"
    using Cons.prems by (force simp: bt_get_None bt_ok_Cons)
  then show ?case
    using Cons by (auto simp: bt_ok_Cons bt_get_def)
qed

text \<open>A group holds addresses of its own domain, at least one.\<close>

definition groups_ok :: "(string, string list) btree \<Rightarrow> bool" where
  "groups_ok m \<longleftrightarrow> bt_ok m \<and>
    (\<forall>(d, l) \<in> set m. l \<noteq> [] \<and> (\<forall>a \<in> set l. domain_of a = Some d))"

lemma set_bt_ins: "set (bt_ins k v m) \<subseteq> insert (k, v) (set m)"
  by (induction m) auto

lemma groups_ok_add:
  assumes "groups_ok m" and "domain_of a = Some d"
  shows "groups_ok (bt_ins d ((case bt_get m d of None \<Rightarrow> [] | Some l \<Rightarrow> l) @ [a]) m)"
  using assms set_bt_ins [of d _ m]
  by (fastforce simp: groups_ok_def dest: bt_get_in_set split: option.splits)

lemma group_by_domain_ok:
  "group_by_domain m to = Inr m' \<Longrightarrow> groups_ok m \<Longrightarrow>
   groups_ok m' \<and> mset (concat (map snd m')) = mset (concat (map snd m)) + mset to"
proof (induction to arbitrary: m)
  case Nil
  then show ?case by simp
next
  case (Cons a to)
  then obtain l d where d: "rsplit_once (CHR ''@'') a = Some (l, d)"
    by (auto split: option.splits)
  then have "domain_of a = Some d" by (simp add: domain_of_def)
  then have "groups_ok (bt_ins d ((case bt_get m d of None \<Rightarrow> [] | Some l \<Rightarrow> l) @ [a]) m)"
    using Cons.prems(2) groups_ok_add by blast
  with Cons d show ?case
    using mset_append_group [of m d a] by (auto simp: groups_ok_def)
qed

lemma send_domains_ok:
  "send_domains nets mx host from raw err ds = (Ret (Inr ()), as) \<Longrightarrow>
   err = None \<and> map (\<lambda>(d, l, s). (d, l)) as = ds \<and>
   (\<forall>(d, l, s) \<in> set as. result s = Ret (Inr ()) \<and>
      (\<exists>h hs. mx d = h # hs \<and> s = send_one (nets d) host (target_of h) from l raw))"
proof (induction ds arbitrary: err as)
  case Nil
  then show ?case by (auto split: option.splits)
next
  case (Cons p ds)
  obtain d l where p: "p = (d, l)" by fastforce
  show ?case
  proof (cases "mx d")
    case Nil
    then show ?thesis using Cons p by (fastforce split: option.splits)
  next
    case m: (Cons h hs)
    define s where "s = send_one (nets d) host (target_of h) from l raw"
    have "result s = Ret (Inr ())"
      using Cons p m by (fastforce simp: Let_def split: outcome.splits sum.splits prod.splits option.splits simp flip: s_def)
    then show ?thesis
      using Cons.IH Cons.prems p m
      by (fastforce simp: Let_def split: prod.splits simp flip: s_def)
  qed
qed

text \<open>
  C26. A send without a relay host that reports success has offered the message to every
  recipient exactly once, each in a successful conversation with the first mail exchanger of
  the recipient's own domain.
\<close>

theorem deliver_success_covers_all:
  "deliver nets mx sn from to raw = (Ret (Inr ()), as) \<Longrightarrow> relay_host sn = None \<Longrightarrow>
   mset (concat (map (\<lambda>(d, l, s). l) as)) = mset to \<and>
   distinct (map fst as) \<and>
   (\<forall>(d, l, s) \<in> set as.
      result s = Ret (Inr ()) \<and> (\<forall>a \<in> set l. domain_of a = Some d) \<and>
      (\<exists>h hs. mx d = h # hs \<and> s = send_one (nets d) (s_hostname sn) (target_of h) from l raw))"
proof -
  assume a: "deliver nets mx sn from to raw = (Ret (Inr ()), as)" "relay_host sn = None"
  then obtain m where m: "group_by_domain [] to = Inr m"
      "send_domains nets mx (s_hostname sn) from raw None m = (Ret (Inr ()), as)"
    by (auto simp: deliver_def split: if_splits sum.splits)
  have g: "groups_ok m" "mset (concat (map snd m)) = mset to"
    using group_by_domain_ok [OF m(1)] by (simp_all add: groups_ok_def)
  have s: "map (\<lambda>(d, l, s). (d, l)) as = m"
      "\<forall>(d, l, s) \<in> set as. result s = Ret (Inr ()) \<and>
        (\<exists>h hs. mx d = h # hs \<and> s = send_one (nets d) (s_hostname sn) (target_of h) from l raw)"
    using send_domains_ok [OF m(2)] by auto
  have "map (\<lambda>(d, l, s). l) as = map snd m" "map fst as = map fst m"
    by (auto simp flip: s(1))
  moreover have "distinct (map fst m)"
    using g(1) by (auto simp: groups_ok_def bt_ok_def dest: strict_sorted_iff [THEN iffD1])
  moreover have "\<forall>(d, l, s) \<in> set as. \<forall>a \<in> set l. domain_of a = Some d"
    using g(1) by (force simp: groups_ok_def simp flip: s(1))
  ultimately show ?thesis using g(2) s(2) by fastforce
qed

section \<open>One bad domain does not stop the others\<close>

definition domain_error ::
  "(string \<Rightarrow> net) \<Rightarrow> (string \<Rightarrow> string list) \<Rightarrow> string \<Rightarrow> string \<Rightarrow> string
   \<Rightarrow> string \<times> string list \<Rightarrow> send_error option" where
  "domain_error nets mx host from raw p =
    (case p of (d, l) \<Rightarrow>
      (case mx d of
         [] \<Rightarrow> Some (NoMx d)
       | h # _ \<Rightarrow>
         (case result (send_one (nets d) host (target_of h) from l raw) of
            Ret (Inl e) \<Rightarrow> Some e
          | _ \<Rightarrow> None)))"

fun first_some :: "'a option list \<Rightarrow> 'a option" where
  "first_some [] = None"
| "first_some (None # xs) = first_some xs"
| "first_some (Some x # xs) = Some x"

definition verdict :: "send_error option \<Rightarrow> (send_error + unit) outcome" where
  "verdict e = (case e of None \<Rightarrow> Ret (Inr ()) | Some e \<Rightarrow> Ret (Inl e))"

lemma send_domains_all:
  "send_domains nets mx host from raw err ds = (r, as) \<Longrightarrow> r \<noteq> Panic \<Longrightarrow>
   map (\<lambda>(d, l, s). (d, l)) as = filter (\<lambda>(d, l). mx d \<noteq> []) ds \<and>
   r = verdict (first_some (err # map (domain_error nets mx host from raw) ds))"
proof (induction ds arbitrary: err r as)
  case Nil
  then show ?case by (auto simp: verdict_def split: option.splits)
next
  case (Cons p ds)
  obtain d l where p: "p = (d, l)" by fastforce
  show ?case
  proof (cases "mx d")
    case Nil
    then have "send_domains nets mx host from raw (first_some [err, Some (NoMx d)]) ds = (r, as)"
      using Cons.prems p by (cases err) simp_all
    from Cons.IH [OF this Cons.prems(2)] show ?thesis
      using Nil p by (cases err) (simp_all add: domain_error_def)
  next
    case m: (Cons h hs)
    define s where "s = send_one (nets d) host (target_of h) from l raw"
    show ?thesis
    proof (cases "result s")
      case Panic
      then show ?thesis using Cons.prems p m by (simp add: Let_def flip: s_def)
    next
      case (Ret x)
      define e where "e = (case x of Inl e \<Rightarrow> Some e | Inr _ \<Rightarrow> None)"
      obtain as' where as': "as = (d, l, s) # as'"
          "send_domains nets mx host from raw (first_some [err, e]) ds = (r, as')"
        using Cons.prems p m Ret
        by (cases x; cases err) (auto simp: Let_def e_def split: prod.splits simp flip: s_def)
      from Cons.IH [OF as'(2) Cons.prems(2)] show ?thesis
        using p m Ret as'(1)
        by (cases x; cases err) (simp_all add: domain_error_def e_def flip: s_def)
    qed
  qed
qed

text \<open>
  A domain that fails does not stop the others. Unless the task panics, a send without a
  relay host makes one attempt for every domain that has a mail exchanger, in domain order,
  and what it returns is the error of the first domain that failed, or success.
\<close>

theorem deliver_tries_every_domain:
  "deliver nets mx sn from to raw = (r, as) \<Longrightarrow> r \<noteq> Panic \<Longrightarrow> relay_host sn = None \<Longrightarrow> to \<noteq> [] \<Longrightarrow>
   group_by_domain [] to = Inr m \<Longrightarrow>
   map (\<lambda>(d, l, s). (d, l)) as = filter (\<lambda>(d, l). mx d \<noteq> []) m \<and>
   r = verdict (first_some (map (domain_error nets mx (s_hostname sn) from raw) m))"
  by (simp add: deliver_def) (drule send_domains_all, simp_all)

section \<open>Nothing of the envelope in the clear once TLS is agreed\<close>

text \<open>Conversations compose: a failed or panicking part ends the whole.\<close>

lemma andthen_Ret:
  "andthen m f w = (Ret (Inr y), w') \<longleftrightarrow> (\<exists>x w1. m w = (Ret (Inr x), w1) \<and> f x w1 = (Ret (Inr y), w'))"
  by (auto simp: andthen_def split: prod.splits outcome.splits sum.splits)

lemma put_Ret: "tx_limit w = None \<Longrightarrow> put s w = (Ret (Inr ()), w\<lparr>tx := tx w @ s\<rparr>)"
  by (simp add: put_def Let_def)

lemma read_reply_frame: "read_reply w = (r, w') \<Longrightarrow> tx w' = tx w \<and> tx_limit w' = tx_limit w"
  by (auto simp: read_reply_def split: prod.splits sum.splits)

lemma expect_frame: "expect c what w = (r, w') \<Longrightarrow> tx w' = tx w \<and> tx_limit w' = tx_limit w"
  by (auto simp: expect_def andthen_def checked_def dest!: read_reply_frame
           split: prod.splits outcome.splits sum.splits)

text \<open>
  C14. Once the server has answered \<open>STARTTLS\<close> with a success, neither the sender, nor a
  recipient, nor a byte of the message is ever written in the clear on this connection: what
  went out in the clear is the greeting and the command, whatever happens afterwards.
\<close>

theorem starttls_keeps_envelope_secret:
  "dial n target = Inr w0 \<Longrightarrow> tx_limit w0 = None \<Longrightarrow> tx w0 = [] \<Longrightarrow>
   open_session host w0 = (Ret (Inr ehlo), w) \<Longrightarrow> advertises ehlo ''STARTTLS'' = Ret True \<Longrightarrow>
   andthen (put (''STARTTLS'' @ CRLF)) (\<lambda>_. read_reply) w = (Ret (Inr reply), w') \<Longrightarrow>
   starts_with_2 reply \<Longrightarrow>
   clear (send_one n host target from to raw) =
     ''EHLO '' @ host @ CRLF @ (if starts_with_2 ehlo then [] else ''HELO '' @ host @ CRLF)
     @ ''STARTTLS'' @ CRLF"
proof -
  assume d: "dial n target = Inr w0" and l: "tx_limit w0 = None" and t: "tx w0 = []"
    and o: "open_session host w0 = (Ret (Inr ehlo), w)"
    and ad: "advertises ehlo ''STARTTLS'' = Ret True"
    and st: "andthen (put (''STARTTLS'' @ CRLF)) (\<lambda>_. read_reply) w = (Ret (Inr reply), w')"
    and ok: "starts_with_2 reply"
  obtain g w1 where g: "expect 220 ''greeting'' w0 = (Ret (Inr g), w1)" "greet host w1 = (Ret (Inr ehlo), w)"
    using o by (auto simp: open_session_def andthen_Ret)
  have w1: "tx w1 = []" "tx_limit w1 = None" using expect_frame [OF g(1)] l t by simp_all
  obtain w2 where w2: "read_reply (w1\<lparr>tx := ''EHLO '' @ host @ CRLF\<rparr>) = (Ret (Inr ehlo), w2)"
      "w2 = w \<and> starts_with_2 ehlo \<or> \<not> starts_with_2 ehlo \<and>
        (\<exists>x. expect 250 ''EHLO'' (w2\<lparr>tx := tx w2 @ ''HELO '' @ host @ CRLF\<rparr>) = (Ret (Inr x), w))"
    using g(2) w1 read_reply_frame [of "w1\<lparr>tx := ''EHLO '' @ host @ CRLF\<rparr>"]
    by (auto simp: greet_def andthen_Ret put_Ret give_def split: if_splits)
  have w: "tx w = ''EHLO '' @ host @ CRLF @ (if starts_with_2 ehlo then [] else ''HELO '' @ host @ CRLF)"
      "tx_limit w = None"
    using w2 w1 by (auto dest!: read_reply_frame expect_frame)
  have "tx w' = tx w @ ''STARTTLS'' @ CRLF"
    using st w(2) by (auto simp: andthen_Ret put_Ret dest!: read_reply_frame)
  moreover have "clear (send_one n host target from to raw) = tx w'"
    using d o ad st ok by (simp add: send_one_def after_tls_def Let_def split: sum.split)
  ultimately show ?thesis using w(1) by simp
qed

section \<open>What a successful conversation wrote\<close>

definition rcpt_line :: "string \<Rightarrow> string" where
  "rcpt_line a = ''RCPT TO:<'' @ a @ ''>'' @ CRLF"

lemma rcpt_all_tx:
  "rcpt_all to w = (Ret (Inr ()), w') \<Longrightarrow> tx_limit w = None \<Longrightarrow>
   tx w' = tx w @ concat (map rcpt_line to) \<and> tx_limit w' = None"
proof (induction to arbitrary: w)
  case Nil
  then show ?case by (simp add: give_def)
next
  case (Cons a to)
  then obtain x w1 where w1: "read_reply (w\<lparr>tx := tx w @ rcpt_line a\<rparr>) = (Ret (Inr x), w1)"
      "rcpt_all to w1 = (Ret (Inr ()), w')"
    by (auto simp: andthen_Ret put_Ret rcpt_line_def)
  then show ?case
    using Cons.IH [of w1] Cons.prems(2) by (auto dest!: read_reply_frame)
qed

lemma converse_tx:
  "tx_limit w = None \<Longrightarrow> converse ehlo from to raw w = (Ret (Inr ()), w') \<Longrightarrow>
   \<exists>cmd. mail_from_cmd from ehlo = Ret cmd \<and>
     tx w' = tx w @ cmd @ concat (map rcpt_line to) @ ''DATA'' @ CRLF @ data_wire raw
             @ ''QUIT'' @ CRLF"
proof -
  assume l: "tx_limit w = None" and c: "converse ehlo from to raw w = (Ret (Inr ()), w')"
  obtain cmd r1 w1 w2 r2 w3 r3 w4 where
      cmd: "mail_from_cmd from ehlo = Ret cmd" and
      w1: "expect 250 ''MAIL FROM'' (w\<lparr>tx := tx w @ cmd\<rparr>) = (Ret (Inr r1), w1)" and
      w2: "rcpt_all to w1 = (Ret (Inr ()), w2)" and
      w3: "andthen (put (''DATA'' @ CRLF)) (\<lambda>_. expect 354 ''DATA'') w2 = (Ret (Inr r2), w3)" and
      w4: "andthen (put (dot_stuff raw)) (\<lambda>_.
             andthen (if ends_with_LF raw then give () else put CRLF) (\<lambda>_.
             andthen (put (''.'' @ CRLF)) (\<lambda>_. expect 250 ''end DATA''))) w3 = (Ret (Inr r3), w4)" and
      w5: "andthen (ignore (put (''QUIT'' @ CRLF))) (\<lambda>_. ignore read_reply) w4 = (Ret (Inr ()), w')"
    using c l
    by (auto simp: converse_def andthen_Ret of_outcome_def put_Ret bind_out_Ret_iff)
  have t1: "tx w1 = tx w @ cmd" "tx_limit w1 = None"
    using w1 l by (auto dest!: expect_frame)
  have t2: "tx w2 = tx w1 @ concat (map rcpt_line to)" "tx_limit w2 = None"
    using rcpt_all_tx [OF w2 t1(2)] by simp_all
  have t3: "tx w3 = tx w2 @ ''DATA'' @ CRLF" "tx_limit w3 = None"
    using w3 t2(2) by (auto simp: andthen_Ret put_Ret dest!: expect_frame)
  have t4: "tx w4 = tx w3 @ data_wire raw" "tx_limit w4 = None"
    using w4 t3(2)
    by (auto simp: andthen_Ret put_Ret give_def data_wire_def dest!: expect_frame split: if_splits)
  have t5: "tx w' = tx w4 @ ''QUIT'' @ CRLF"
    using w5 t4(2)
    by (auto simp: andthen_Ret put_Ret ignore_def read_reply_def split: prod.splits outcome.splits sum.splits)
  show ?thesis using cmd t1 t2 t3 t4 t5 by simp
qed

text \<open>
  A conversation that succeeds has written exactly: the \<open>MAIL FROM\<close> line with the
  parameters the server advertised, one \<open>RCPT TO\<close> line for each recipient in order, \<open>DATA\<close>, the
  dot-stuffed message with its terminator, and \<open>QUIT\<close>.
\<close>

theorem converse_transcript:
  "tx_limit w = None \<Longrightarrow> converse ehlo from to raw w = (Ret (Inr ()), w') \<Longrightarrow>
   \<exists>cmd. mail_from_cmd from ehlo = Ret cmd \<and>
     tx w' = tx w @ cmd @ concat (map rcpt_line to) @ ''DATA'' @ CRLF @ data_wire raw
             @ ''QUIT'' @ CRLF"
  by (rule converse_tx)

section \<open>A hostile reply\<close>

text \<open>
  Exactly which lines of an EHLO reply make the client panic: those of more than four
  bytes whose fifth byte is inside a character. The slice past the reply code is taken
  without a boundary check.
\<close>

theorem ehlo_line_panics_iff:
  "line_keyword keyword l = Panic \<longleftrightarrow>
   4 < length (trim_end_chars [CR] l) \<and> is_cont (trim_end_chars [CR] l ! 4)"
  by (auto simp: line_keyword_def Let_def slice_from_def char_boundary_def)

lemma line_keyword_ascii: "is_ascii l \<Longrightarrow> line_keyword k l \<noteq> Panic"
  by (auto simp: line_keyword_def Let_def slice_from_ascii)

section \<open>Witnesses\<close>

declare wire_of_def [eval] give_def [eval] fail_def [eval] of_outcome_def [eval] andthen_def [eval]
  put_def [eval] reply_go.simps [eval] read_reply_def [eval] starts_with_2_def [eval]
  check_def [eval] checked_def [eval] expect_def [eval] lines.simps [eval] line_keyword_def [eval]
  advertises_def [eval] mail_from_cmd_def [eval] dot_stuff_def [eval] ends_with_LF_def [eval]
  greet_def [eval] ignore_def [eval] converse_def [eval] open_session_def [eval]
  sent_clear_def [eval] after_tls_def [eval] send_one_def [eval] target_of_def [eval]
  deliver_def [eval] read_line_def [eval] chop_last_def [eval] host_of_def [eval] chr_def [eval]

text \<open>A server that accepts everything, and one that offers \<open>STARTTLS\<close>.\<close>

definition demo_ok :: string where
  "demo_ok = ''220 hi'' @ CRLF @ ''250 x'' @ CRLF @ ''250 a'' @ CRLF @ ''250 b'' @ CRLF
     @ ''354 c'' @ CRLF @ ''250 d'' @ CRLF @ ''221 e'' @ CRLF"

definition demo_tls :: string where
  "demo_tls = ''220 hi'' @ CRLF @ ''250-x'' @ CRLF @ ''250 STARTTLS'' @ CRLF @ ''220 go'' @ CRLF"

definition demo_net :: "string \<Rightarrow> net" where
  "demo_net s = \<lparr>dial = (\<lambda>_. Inr (wire_of s)), upgrade = (\<lambda>_. Inl (Io ''no tls'')), buffered = (\<lambda>_. 0)\<rparr>"

definition demo_mx :: "string \<Rightarrow> string list" where
  "demo_mx d = (if d = ''d'' then [] else [''mx.'' @ d @ ''.''])"

definition demo_sender :: sender where
  "demo_sender = \<lparr>s_hostname = ''h'', relay_host = None\<rparr>"

lemma demo_send:
  "result (send_one (demo_net demo_ok) ''h'' (target_of ''mx.c.'') ''f@g'' [''u@c''] ''m'') = Ret (Inr ())"
  by (simp add: eval demo_ok_def demo_net_def char_of_def bit_Suc_0_iff)

lemma demo_deliver:
  "deliver (\<lambda>_. demo_net demo_ok) demo_mx demo_sender ''f@g'' [''u@c''] ''m''
   = (Ret (Inr ()), [(''c'', [''u@c''],
        send_one (demo_net demo_ok) ''h'' (target_of ''mx.c.'') ''f@g'' [''u@c''] ''m'')])"
  using demo_send
  by (simp add: deliver_def demo_sender_def demo_mx_def rsplit_once_def Let_def)

theorem deliver_success_covers_all_witness:
  "fst (deliver (\<lambda>_. demo_net demo_ok) demo_mx demo_sender ''f@g'' [''u@c''] ''m'') = Ret (Inr ()) \<and>
   mset (concat (map (\<lambda>(d, l, s). l)
     (snd (deliver (\<lambda>_. demo_net demo_ok) demo_mx demo_sender ''f@g'' [''u@c''] ''m'')))) = mset [''u@c'']"
  using deliver_success_covers_all [OF demo_deliver] demo_deliver
  by (simp add: demo_sender_def)

lemma demo_group: "group_by_domain [] [''v@d'', ''u@c''] = Inr [(''c'', [''u@c'']), (''d'', [''v@d''])]"
  by (simp add: eval)

lemma demo_deliver_partial:
  "deliver (\<lambda>_. demo_net demo_ok) demo_mx demo_sender ''f@g'' [''v@d'', ''u@c''] ''m''
   = (Ret (Inl (NoMx ''d'')), [(''c'', [''u@c''],
        send_one (demo_net demo_ok) ''h'' (target_of ''mx.c.'') ''f@g'' [''u@c''] ''m'')])"
  using demo_send by (simp add: deliver_def demo_sender_def demo_mx_def demo_group del: group_by_domain.simps)

theorem deliver_tries_every_domain_witness:
  "fst (deliver (\<lambda>_. demo_net demo_ok) demo_mx demo_sender ''f@g'' [''v@d'', ''u@c''] ''m'')
   = verdict (Some (NoMx ''d''))"
  using deliver_tries_every_domain [OF demo_deliver_partial _ _ _ demo_group] demo_send demo_deliver_partial
  by (simp add: demo_sender_def domain_error_def demo_mx_def)

theorem starttls_keeps_envelope_secret_witness:
  "clear (send_one (demo_net demo_tls) ''h'' ''mx:25'' ''f@g'' [''u@c''] ''m'')
   = ''EHLO h'' @ CRLF @ ''STARTTLS'' @ CRLF"
proof -
  let ?w = "\<lparr>rx = ''220 go'' @ CRLF, tx = ''EHLO h'' @ CRLF, tx_limit = None\<rparr>"
  let ?e = "''250-x'' @ CRLF @ ''250 STARTTLS'' @ CRLF"
  have "open_session ''h'' (wire_of demo_tls) = (Ret (Inr ?e), ?w)"
    "advertises ?e ''STARTTLS'' = Ret True"
    "andthen (put (''STARTTLS'' @ CRLF)) (\<lambda>_. read_reply) ?w
       = (Ret (Inr (''220 go'' @ CRLF)), ?w\<lparr>rx := [], tx := ''EHLO h'' @ CRLF @ ''STARTTLS'' @ CRLF\<rparr>)"
    by (simp_all add: eval demo_tls_def char_of_def bit_Suc_0_iff)
  from starttls_keeps_envelope_secret [OF _ _ _ this, of "demo_net demo_tls" "''mx:25''"] show ?thesis
    by (simp add: demo_net_def wire_of_def eval)
qed

theorem converse_transcript_witness:
  "\<exists>cmd. mail_from_cmd ''f@g'' ''250 x'' = Ret cmd \<and>
     tx (snd (converse ''250 x'' ''f@g'' [''u@c''] ''m''
          (wire_of (''250 a'' @ CRLF @ ''250 b'' @ CRLF @ ''354 c'' @ CRLF @ ''250 d'' @ CRLF)))) =
     cmd @ concat (map rcpt_line [''u@c'']) @ ''DATA'' @ CRLF @ data_wire ''m'' @ ''QUIT'' @ CRLF"
proof -
  define w where "w = wire_of (''250 a'' @ CRLF @ ''250 b'' @ CRLF @ ''354 c'' @ CRLF @ ''250 d'' @ CRLF)"
  have "fst (converse ''250 x'' ''f@g'' [''u@c''] ''m'' w) = Ret (Inr ())"
    by (simp add: w_def eval char_of_def bit_Suc_0_iff)
  then have "converse ''250 x'' ''f@g'' [''u@c''] ''m'' w
      = (Ret (Inr ()), snd (converse ''250 x'' ''f@g'' [''u@c''] ''m'' w))"
    by (metis prod.collapse)
  from converse_transcript [OF _ this] show ?thesis
    by (simp add: w_def wire_of_def)
qed

text \<open>A reply that is valid UTF-8 and kills the sending task.\<close>

definition demo_hostile :: string where
  "demo_hostile = ''220 hi'' @ CRLF @ ''250'' @ [CHR 0xC3, CHR 0xA9] @ CRLF"

lemma hostile_reply_panics:
  "utf8_ok demo_hostile \<and>
   result (send_one (demo_net demo_hostile) ''h'' ''mx:25'' ''f@g'' [''u@c''] ''m'') = Panic"
  by (simp add: eval demo_hostile_def demo_net_def char_of_def bit_Suc_0_iff)

end
