(* ===== verification/Transport.thy ===== *)
theory Transport
  imports SmtpIn SmtpOut
begin

text \<open>
  The two halves of SMTP against each other: what \<open>smtp_out.rs\<close> writes is what \<open>smtp_in.rs\<close>
  reads. \<open>crlf_norm\<close> is the specification of the message that arrives: every line, whatever
  ended it, now ends in CR LF. The client's data encoder and the server's data reader
  instantiate the interface \<open>data_channel\<close> of theory \<open>Wire\<close>.
\<close>

section \<open>The specification of the payload\<close>

function norm_lines :: "string \<Rightarrow> string" where
  "norm_lines m =
    (if m = [] then []
     else (let (l, r) = take_line m in
           (if last l = LF then chop_last CR (butlast l) else l) @ CRLF @ norm_lines r))"
  by pat_completeness auto
termination
  by (relation "measure length") (auto dest: take_line_shorter simp: prod_eq_iff)

declare norm_lines.simps [simp del]

definition crlf_norm :: "string \<Rightarrow> string" where
  "crlf_norm m = (if m = [] then CRLF else norm_lines m)"

section \<open>Stuffing and unstuffing one line\<close>

definition stuff_line :: "string \<Rightarrow> string" where
  "stuff_line l = (case l of c # _ \<Rightarrow> if c = CHR ''.'' then CHR ''.'' # l else l | [] \<Rightarrow> [])"

lemma dot_not_LF [simp]: "CHR ''.'' \<noteq> LF" "LF \<noteq> CHR ''.''" "CHR ''.'' \<noteq> CR" "CR \<noteq> CHR ''.''"
  by (simp_all add: LF_def CR_def)

lemma dot_stuff_go_no_LF: "LF \<notin> set l \<Longrightarrow> dot_stuff_go False l = l"
  by (induction l) auto

lemma dot_stuff_go_False: "LF \<notin> set l \<Longrightarrow> dot_stuff_go False (l @ LF # r) = l @ LF # dot_stuff r"
  by (induction l) (auto simp: dot_stuff_def)

lemma dot_stuff_line: "LF \<notin> set l \<Longrightarrow> dot_stuff (l @ LF # r) = stuff_line l @ LF # dot_stuff r"
  by (cases l) (auto simp: dot_stuff_def stuff_line_def dot_stuff_go_False)

lemma dot_stuff_last: "LF \<notin> set l \<Longrightarrow> dot_stuff l = stuff_line l"
  by (cases l) (auto simp: dot_stuff_def stuff_line_def dot_stuff_go_no_LF)

lemma LF_stuff_line: "LF \<notin> set l \<Longrightarrow> LF \<notin> set (stuff_line l)"
  by (auto simp: stuff_line_def split: list.splits)

lemma chop_last_Cons: "s \<noteq> [] \<Longrightarrow> chop_last c (d # s) = d # chop_last c s"
  by (simp add: chop_last_def)

lemma hd_chop_last: "chop_last c (d # s) = e # t \<Longrightarrow> e = d"
  by (cases s) (auto simp: chop_last_def split: if_splits)

text \<open>The receiver takes the stuffed line for data, never for the terminator.\<close>

lemma unstuff_line:
  "chop_last CR (stuff_line l) \<noteq> ''.'' \<and>
   chop_first (CHR ''.'') (chop_last CR (stuff_line l)) = chop_last CR l"
proof (cases l)
  case Nil
  then show ?thesis by (simp add: stuff_line_def chop_first_def)
next
  case (Cons c s)
  show ?thesis
  proof (cases "c = CHR ''.''")
    case True
    then have "chop_last CR (stuff_line l) = CHR ''.'' # chop_last CR l"
      using Cons by (simp add: stuff_line_def chop_last_Cons)
    moreover have "chop_last CR l \<noteq> []"
      using Cons True by (cases s) (simp_all add: chop_last_def)
    ultimately show ?thesis by (simp add: chop_first_def)
  next
    case False
    then show ?thesis
      using Cons hd_chop_last [of CR c s]
      by (auto simp: stuff_line_def chop_first_def split: list.splits)
  qed
qed

lemma read_data_line:
  assumes "LF \<notin> set l"
  shows "read_data (stuff_line l @ LF # s) =
    (case read_data s of (o', r) \<Rightarrow> (chop_last CR l @ CRLF @ o', r))"
proof -
  have "take_line (stuff_line l @ LF # s) = (stuff_line l @ [LF], s)"
    using assms by (simp add: take_line_LF LF_stuff_line)
  then show ?thesis
    using unstuff_line [of l] by (simp add: read_data.simps [of "stuff_line l @ LF # s"] Let_def split: prod.split)
qed

lemma read_data_end: "read_data (''.'' @ CRLF @ rest) = ([], rest)"
proof -
  define s where "s = ''.'' @ CRLF @ rest"
  have "take_line s = (''.'' @ CRLF, rest)"
    unfolding s_def using take_line_LF [of "[CHR ''.'', CR]" rest] by (simp add: CRLF_eq)
  moreover have "chop_last CR (chop_last LF (''.'' @ CRLF)) = ''.''" "''.'' @ CRLF \<noteq> []"
    by (simp_all add: chop_last_def CRLF_eq)
  moreover have "s \<noteq> []" by (simp add: s_def)
  ultimately have "read_data s = ([], rest)" by (simp add: read_data.simps [of s] Let_def)
  then show ?thesis by (simp add: s_def)
qed

text \<open>A last line with no line feed is completed by the client's own CR LF.\<close>

lemma read_data_tail:
  "LF \<notin> set l \<Longrightarrow> read_data (stuff_line l @ CRLF @ ''.'' @ CRLF @ rest) = (l @ CRLF, rest)"
proof -
  assume l: "LF \<notin> set l"
  have s: "stuff_line l @ [CR] = stuff_line (l @ [CR])"
    by (cases l) (simp_all add: stuff_line_def)
  have "read_data (stuff_line (l @ [CR]) @ LF # ''.'' @ CRLF @ rest) = (l @ CRLF, rest)"
    using l read_data_end [of rest] by (subst read_data_line) (simp_all add: CRLF_eq)
  then show ?thesis by (simp add: CRLF_eq flip: s)
qed

lemma read_data_wire: "m \<noteq> [] \<Longrightarrow> read_data (data_wire m @ rest) = (norm_lines m, rest)"
proof (induction m rule: norm_lines.induct)
  case (1 m)
  obtain l r where lr: "take_line m = (l, r)" by fastforce
  show ?case
  proof (cases "LF \<in> set m")
    case False
    then have lm: "l = m" "r = []" using lr by (simp_all add: take_line_no_LF)
    have "last m \<noteq> LF" using last_in_set [OF 1(2)] False by metis
    then show ?thesis
      using False 1(2) lr lm read_data_tail [of m rest]
      by (simp add: data_wire_def dot_stuff_last ends_with_LF_def norm_lines.simps [of m] norm_lines.simps [of "[]"])
  next
    case True
    then obtain a b where ab: "m = a @ LF # b" "LF \<notin> set a" by (meson split_list_first)
    have l: "l = a @ [LF]" "r = b" using lr ab by (simp_all add: take_line_LF)
    have wire: "data_wire m = stuff_line a @ LF # (if b = [] then ''.'' @ CRLF else data_wire b)"
    proof -
      have "dot_stuff m = stuff_line a @ LF # (if b = [] then [] else dot_stuff b)"
        using ab dot_stuff_line [OF ab(2), of b] by (simp add: dot_stuff_def)
      then show ?thesis using ab(1) by (simp add: data_wire_def ends_with_LF_def)
    qed
    show ?thesis
    proof (cases "b = []")
      case True
      then show ?thesis
        using ab(2) l lr 1(2) read_data_end [of rest] unfolding wire
        by (simp add: read_data_line norm_lines.simps [of m] norm_lines.simps [of "[]"])
    next
      case False
      then have "read_data (data_wire b @ rest) = (norm_lines b, rest)"
        using 1(1) [OF 1(2) lr [symmetric] refl] l by simp
      then show ?thesis
        using False ab(2) l lr 1(2) unfolding wire
        by (simp add: read_data_line norm_lines.simps [of m])
    qed
  qed
qed

lemma read_data_wire_norm: "read_data (data_wire m @ rest) = (crlf_norm m, rest)"
proof (cases "m = []")
  case True
  then show ?thesis
    using read_data_tail [of "[]" rest]
    by (simp add: data_wire_def crlf_norm_def dot_stuff_def ends_with_LF_def stuff_line_def)
next
  case False
  then show ?thesis by (simp add: read_data_wire crlf_norm_def)
qed

interpretation dc: data_channel data_wire read_data crlf_norm
  by unfold_locales (rule read_data_wire_norm)

text \<open>
  C21. Transparency of \<open>DATA\<close>: for every message, whatever dots and bare line feeds it holds,
  the receiver reads exactly its CR LF form and leaves every byte after the terminator
  unread. No message can end \<open>DATA\<close> early and smuggle commands to the server.
\<close>

theorem data_roundtrip: "read_data (data_wire m @ rest) = (crlf_norm m, rest)"
  by (rule dc.receive_send)

lemma norm_lines_crlf:
  "LF \<notin> set l \<Longrightarrow> CR \<notin> set l \<Longrightarrow> norm_lines (l @ CRLF @ r) = l @ CRLF @ norm_lines r"
  using take_line_LF [of "l @ [CR]" r]
  by (simp add: norm_lines.simps [of "l @ CR # LF # r"] CRLF_eq butlast_append)

text \<open>
  A message whose lines already end in CR LF arrives byte for byte.
\<close>

theorem crlf_message_unchanged:
  "\<forall>l \<in> set ls. CR \<notin> set l \<and> LF \<notin> set l \<Longrightarrow> ls \<noteq> [] \<Longrightarrow>
   read_data (data_wire (concat (map (\<lambda>l. l @ CRLF) ls)) @ rest)
   = (concat (map (\<lambda>l. l @ CRLF) ls), rest)"
proof -
  have n: "\<forall>l \<in> set ls. CR \<notin> set l \<and> LF \<notin> set l \<Longrightarrow>
      norm_lines (concat (map (\<lambda>l. l @ CRLF) ls)) = concat (map (\<lambda>l. l @ CRLF) ls)" for ls
    by (induction ls) (simp_all add: norm_lines_crlf norm_lines.simps [of "[]"])
  assume "\<forall>l \<in> set ls. CR \<notin> set l \<and> LF \<notin> set l" "ls \<noteq> []"
  then show ?thesis
    using n [of ls] by (cases ls) (simp_all add: dc.receive_send crlf_norm_def CRLF_eq)
qed

theorem crlf_message_unchanged_witness:
  "read_data (data_wire (''.'' @ CRLF @ ''QUIT'' @ CRLF) @ ''NOOP'')
   = (''.'' @ CRLF @ ''QUIT'' @ CRLF, ''NOOP'')"
  using crlf_message_unchanged [of "[''.'', ''QUIT'']" "''NOOP''"]
  by (simp add: CR_def LF_def CRLF_def)

section \<open>A whole message across\<close>

text \<open>The addresses the envelope can carry verbatim: visible ASCII with no closing bracket.\<close>

definition plain_addr :: "string \<Rightarrow> bool" where
  "plain_addr a \<longleftrightarrow> list_all graphic a \<and> CHR ''>'' \<notin> set a"

lemma graphic_not_eol: "graphic c \<Longrightarrow> c \<noteq> CR \<and> c \<noteq> LF"
  by (auto simp: graphic_def)

lemma graphic_ascii: "list_all graphic s \<Longrightarrow> is_ascii s"
  by (auto simp: is_ascii_def graphic_def list_all_iff)

lemma trim_eol: "s \<noteq> [] \<Longrightarrow> graphic (last s) \<Longrightarrow> trim_end_chars [CR, LF] (s @ CRLF) = s"
  by (cases s rule: rev_cases) (auto simp: trim_end_chars_def CRLF_eq graphic_not_eol)

lemma trim_eol_id: "s \<noteq> [] \<Longrightarrow> graphic (last s) \<Longrightarrow> trim_end_chars [CR, LF] s = s"
  by (cases s rule: rev_cases) (auto simp: trim_end_chars_def graphic_not_eol)

text \<open>A command of four letters and an argument is split at the space.\<close>

lemma split_command_arg:
  assumes "length v = 4" "is_ascii v" "is_ascii arg" "arg \<noteq> []"
    and "graphic (hd arg)" "graphic (last arg)" "ascii_lower (take 4 v) \<noteq> ''star''"
  shows "split_command uc (v @ SP # arg) = Ret (Some (uc v, arg))"
proof -
  define l where "l = v @ SP # arg"
  note ne = assms(4)
  have t: "trim_end_chars [CR, LF] l = l"
    using ne assms(6) by (auto simp: l_def intro!: trim_eol_id)
  have a: "is_ascii l" using assms(2,3) by (simp add: l_def)
  have len: "length l = 5 + length arg" "length arg \<noteq> 0" using assms(1) ne by (simp_all add: l_def)
  have tk: "take 4 (take 8 l) = v" "take 4 l = v" "drop 5 l = arg" "l ! 4 = SP"
    using assms(1) by (simp_all add: l_def eval_nat_numeral nth_append)
  have tr: "trim arg = arg"
    using ne assms(5,6) by (cases arg) (simp_all add: trim_def trim_end_graphic)
  have st: "ascii_lower (take 8 l) \<noteq> ascii_lower ''STARTTLS''"
  proof
    assume "ascii_lower (take 8 l) = ascii_lower ''STARTTLS''"
    moreover have "ascii_lower (take 4 (take 8 l)) = take 4 (ascii_lower (take 8 l))"
      by (simp only: ascii_lower_def take_map)
    ultimately have "ascii_lower (take 4 (take 8 l)) = take 4 (ascii_lower ''STARTTLS'')"
      by (simp only:)
    then show False using assms(1,7) tk(1) by (simp add: eval)
  qed
  show ?thesis
    unfolding l_def [symmetric] split_command_def Let_def t
    using a len tk(2-) tr st
    by (simp add: slice_to_ascii slice_from_ascii is_ascii_boundary eq_ignore_ascii_case_def)
qed

lemma split_command_bare:
  "length v = 4 \<Longrightarrow> graphic (last v) \<Longrightarrow> split_command uc v = Ret (Some (uc v, []))"
  using trim_eol_id [of v] by (cases "v = []") (simp_all add: split_command_def Let_def)

lemma parse_path_bracket:
  assumes "p = ''FROM:'' \<or> p = ''TO:''" "plain_addr a" "is_ascii s"
  shows "parse_path (p @ ''<'' @ a @ ''>'' @ s) p = Ret (Some a)"
proof -
  have so: "split_once (CHR ''>'') (a @ CHR ''>'' # s) = Some (a, s)"
    using assms(2) by (induction a) (auto simp: plain_addr_def)
  have g: "graphic (CHR ''<'')" "graphic (CHR ''F'')" "graphic (CHR ''T'')"
    by (simp_all add: graphic_def byte_def)
  have "is_ascii (p @ ''<'' @ a @ ''>'' @ s)"
    using assms graphic_ascii [of a] by (auto simp: plain_addr_def byte_def)
  from slice_to_ascii [OF this, of "length p"] slice_from_ascii [OF this, of "length p"]
  have sl: "slice_to (p @ ''<'' @ a @ ''>'' @ s) (length p) = Ret p"
      "slice_from (p @ ''<'' @ a @ ''>'' @ s) (length p) = Ret (''<'' @ a @ ''>'' @ s)"
    by simp_all
  have ts: "trim_start (p @ ''<'' @ a @ ''>'' @ s) = p @ ''<'' @ a @ ''>'' @ s"
    using assms(1) g by auto
  show ?thesis
    using so g sl
    unfolding parse_path_def Let_def ts
    by (simp add: eq_ignore_ascii_case_def strip_prefix_def is_prefix_def)
qed

lemma read_line_command:
  "is_ascii l \<Longrightarrow> LF \<notin> set l \<Longrightarrow> read_line (l @ CRLF @ r) = (Line (l @ CRLF), r)"
  using read_line_ascii [of "l @ [CR]" r] by (simp add: CRLF_eq)

text \<open>The server's step on each line the client writes.\<close>

lemma step_arg:
  assumes "upper_ok uc" "inp c = v @ SP # arg @ CRLF @ r"
    and "length v = 4" "list_all graphic v" "is_ascii arg" "arg \<noteq> []" "LF \<notin> set arg"
    and "graphic (hd arg)" "graphic (last arg)" "ascii_lower v \<noteq> ''star''"
  shows "smtp_step cfg lc uc acc c = command cfg lc acc (ascii_upper v) arg (c\<lparr>inp := r\<rparr>)"
proof -
  define l where "l = v @ SP # arg"
  have v: "is_ascii v" "LF \<notin> set v"
    using assms(4) graphic_ascii [of v] graphic_not_eol by (auto simp: list_all_iff)
  have SP: "byte SP < 128" "SP \<noteq> LF" by (simp, simp add: SP_def LF_def)
  have "is_ascii l" "LF \<notin> set l" using v SP assms(5,7) by (auto simp: l_def)
  then have r: "read_line (inp c) = (Line (l @ CRLF), r)"
    using read_line_command [of l r] assms(2) by (simp add: l_def)
  have t: "trim_end_chars [CR, LF] (l @ CRLF) = l"
    using assms(6,9) by (intro trim_eol) (simp_all add: l_def)
  have "split_command uc l = Ret (Some (ascii_upper v, arg))"
    using split_command_arg [OF assms(3) v(1) assms(5,6,8,9), of uc] assms(1,3,10) v(1)
    by (simp add: l_def upper_ok_def)
  then show ?thesis by (simp add: smtp_step_def r t)
qed

lemma step_bare:
  assumes "upper_ok uc" "inp c = v @ CRLF @ r" "length v = 4" "list_all graphic v"
  shows "smtp_step cfg lc uc acc c = command cfg lc acc (ascii_upper v) [] (c\<lparr>inp := r\<rparr>)"
proof -
  have ne: "v \<noteq> []" using assms(3) by auto
  then have v: "is_ascii v" "LF \<notin> set v" "v \<noteq> []" "graphic (last v)"
    using assms(4) graphic_ascii [of v] graphic_not_eol last_in_set [OF ne]
    by (auto simp: list_all_iff)
  have r: "read_line (inp c) = (Line (v @ CRLF), r)"
    using read_line_command [of v r] v assms(2) by simp
  have t: "trim_end_chars [CR, LF] (v @ CRLF) = v" using v by (intro trim_eol) simp_all
  have "split_command uc v = Ret (Some (ascii_upper v, []))"
    using split_command_bare [OF assms(3) v(4), of uc] assms(1) v(1) by (simp add: upper_ok_def)
  then show ?thesis by (simp add: smtp_step_def r t)
qed

lemma graphic_chars [simp]:
  "graphic (CHR ''A'')" "graphic (CHR ''C'')" "graphic (CHR ''D'')" "graphic (CHR ''E'')"
  "graphic (CHR ''F'')" "graphic (CHR ''H'')" "graphic (CHR ''I'')" "graphic (CHR ''L'')"
  "graphic (CHR ''M'')" "graphic (CHR ''O'')" "graphic (CHR ''P'')" "graphic (CHR ''Q'')"
  "graphic (CHR ''R'')" "graphic (CHR ''T'')" "graphic (CHR ''U'')" "graphic (CHR ''8'')"
  "graphic (CHR ''>'')"
  by (simp_all add: graphic_def byte_def)

lemma upper_verbs [simp]:
  "ascii_upper ''EHLO'' = ''EHLO''" "ascii_upper ''MAIL'' = ''MAIL''"
  "ascii_upper ''RCPT'' = ''RCPT''" "ascii_upper ''DATA'' = ''DATA''"
  "ascii_upper ''QUIT'' = ''QUIT''"
  "ascii_lower ''EHLO'' \<noteq> ''star''" "ascii_lower ''MAIL'' \<noteq> ''star''"
  "ascii_lower ''RCPT'' \<noteq> ''star''"
  by (simp_all add: eval)

lemma step_ehlo:
  assumes "upper_ok uc" "inp c = ''EHLO '' @ host @ CRLF @ r" "host \<noteq> []" "list_all graphic host"
  shows "\<exists>c'. smtp_step cfg lc uc acc c = Continue c' \<and> inp c' = r \<and> delivered c' = delivered c
    \<and> greeted (sess c')"
proof -
  have "is_ascii host" "LF \<notin> set host" "graphic (hd host)" "graphic (last host)"
    using assms(3,4) graphic_ascii [of host] graphic_not_eol last_in_set [OF assms(3)]
      hd_in_set [OF assms(3)] by (auto simp: list_all_iff)
  then have "smtp_step cfg lc uc acc c = command cfg lc acc ''EHLO'' host (c\<lparr>inp := r\<rparr>)"
    using step_arg [OF assms(1), of c "''EHLO''" host r] assms(2,3) by (simp add: SP_def)
  then show ?thesis by (simp add: command_def)
qed

lemma step_mail:
  assumes "upper_ok uc" "mail_from_cmd from ehlo = Ret cmd" "inp c = cmd @ r"
    and "plain_addr from" "greeted (sess c)"
  shows "\<exists>c'. smtp_step cfg lc uc acc c = Continue c' \<and> inp c' = r \<and> delivered c' = delivered c
    \<and> mail_from (sess c') = Some from \<and> rcpts (sess c') = []"
proof -
  obtain b8 u8 where cmd: "cmd = ''MAIL FROM:<'' @ from @ ''>''
      @ (if b8 then '' BODY=8BITMIME'' else []) @ (if u8 then '' SMTPUTF8'' else []) @ CRLF"
    using assms(2) by (auto simp: mail_from_cmd_def bind_out_Ret_iff)
  define ps where "ps = (if b8 then '' BODY=8BITMIME'' else []) @ (if u8 then '' SMTPUTF8'' else [])"
  define arg where "arg = ''FROM:'' @ ''<'' @ from @ ''>'' @ ps"
  have ps: "is_ascii ps" "LF \<notin> set ps" by (auto simp: ps_def byte_def LF_def)
  have "graphic (last (''>'' @ ps))" by (simp add: ps_def)
  then have la: "graphic (last arg)" by (simp add: arg_def)
  have arg: "is_ascii arg" "LF \<notin> set arg" "arg \<noteq> []" "graphic (hd arg)"
    using ps assms(4) graphic_ascii [of "from"] graphic_not_eol
    by (auto simp: arg_def plain_addr_def list_all_iff byte_def LF_def)
  have "inp c = ''MAIL'' @ SP # arg @ CRLF @ r"
    using assms(3) cmd by (simp add: arg_def ps_def SP_def)
  from step_arg [OF assms(1) this _ _ arg(1,3,2,4) la]
  have "smtp_step cfg lc uc acc c = cmd_mail arg (c\<lparr>inp := r\<rparr>)"
    by (simp add: command_def)
  moreover have "parse_path arg ''FROM:'' = Ret (Some from)"
    using parse_path_bracket [of "''FROM:''" "from" ps] assms(4) ps by (simp add: arg_def)
  ultimately show ?thesis
    using assms(5) by (simp add: cmd_mail_def)
qed

lemma step_rcpt:
  assumes "upper_ok uc" "inp c = rcpt_line a @ r" "plain_addr a" "mail_from (sess c) = Some f"
  shows "\<exists>c'. smtp_step cfg lc uc acc c = Continue c' \<and> inp c' = r \<and> delivered c' = delivered c
    \<and> mail_from (sess c') = Some f
    \<and> rcpts (sess c') = rcpts (sess c) @ (if acc (lc a) then [lc a] else [])"
proof -
  define arg where "arg = ''TO:'' @ ''<'' @ a @ ''>''"
  have arg: "is_ascii arg" "LF \<notin> set arg" "arg \<noteq> []" "graphic (hd arg)" "graphic (last arg)"
    using assms(3) graphic_ascii [of a] graphic_not_eol
    by (auto simp: arg_def plain_addr_def list_all_iff byte_def LF_def)
  have "inp c = ''RCPT'' @ SP # arg @ CRLF @ r"
    using assms(2) by (simp add: rcpt_line_def arg_def SP_def)
  from step_arg [OF assms(1) this _ _ arg(1,3,2,4,5)]
  have "smtp_step cfg lc uc acc c = cmd_rcpt lc acc arg (c\<lparr>inp := r\<rparr>)"
    by (simp add: command_def)
  moreover have "parse_path arg ''TO:'' = Ret (Some a)"
    using parse_path_bracket [of "''TO:''" a "[]"] assms(3) by (simp add: arg_def)
  ultimately show ?thesis
    using assms(4) by (simp add: cmd_rcpt_def)
qed

lemma loop_step: "smtp_step cfg lc uc acc c = Continue c' \<Longrightarrow>
    smtp_loop cfg lc uc acc c = smtp_loop cfg lc uc acc c'"
  by (subst smtp_loop.simps) simp

lemma loop_rcpts:
  assumes "upper_ok uc"
  shows "inp c = concat (map rcpt_line to) @ r \<Longrightarrow> \<forall>a \<in> set to. plain_addr a \<Longrightarrow>
    mail_from (sess c) = Some f \<Longrightarrow>
    \<exists>c'. smtp_loop cfg lc uc acc c = smtp_loop cfg lc uc acc c' \<and> inp c' = r
      \<and> delivered c' = delivered c \<and> mail_from (sess c') = Some f
      \<and> rcpts (sess c') = rcpts (sess c) @ filter acc (map lc to)"
proof (induction to arbitrary: c)
  case Nil
  then show ?case by (intro exI [of _ c]) simp
next
  case (Cons a to)
  then have i: "inp c = rcpt_line a @ concat (map rcpt_line to) @ r" "plain_addr a" by simp_all
  from step_rcpt [OF assms i Cons.prems(3), of cfg lc acc]
  obtain c1 where c1: "smtp_step cfg lc uc acc c = Continue c1" "inp c1 = concat (map rcpt_line to) @ r"
      "delivered c1 = delivered c" "mail_from (sess c1) = Some f"
      "rcpts (sess c1) = rcpts (sess c) @ (if acc (lc a) then [lc a] else [])"
    by blast
  from Cons.IH [OF c1(2) _ c1(4)] Cons.prems(2) obtain c' where
      "smtp_loop cfg lc uc acc c1 = smtp_loop cfg lc uc acc c'" "inp c' = r" "delivered c' = delivered c1"
      "mail_from (sess c') = Some f" "rcpts (sess c') = rcpts (sess c1) @ filter acc (map lc to)"
    by auto
  then show ?case
    using c1 loop_step [OF c1(1)] by (intro exI [of _ c']) simp
qed

lemma step_data:
  assumes "upper_ok uc" "inp c = ''DATA'' @ CRLF @ data_wire raw @ r" "mail_from (sess c) = Some f"
  shows "\<exists>c'. smtp_step cfg lc uc acc c = Continue c' \<and> inp c' = r
    \<and> delivered c' = delivered c @ (if rcpts (sess c) = [] then []
        else [\<lparr>d_from = f, d_rcpts = rcpts (sess c), d_raw = crlf_norm raw\<rparr>])"
proof -
  have "smtp_step cfg lc uc acc c = cmd_data (c\<lparr>inp := data_wire raw @ r\<rparr>)"
    using step_bare [OF assms(1,2)] by (simp add: command_def)
  then show ?thesis using assms(3) by (simp add: cmd_data_def dc.receive_send)
qed

lemma step_quit:
  assumes "upper_ok uc" "inp c = ''QUIT'' @ CRLF @ r"
  shows "\<exists>c'. smtp_step cfg lc uc acc c = Stop (Ended Done) c' \<and> delivered c' = delivered c"
  using step_bare [OF assms, of cfg lc acc] by (simp add: command_def)

text \<open>
  C6. Client and server together: if this client's conversation succeeded after its
  \<open>EHLO\<close>, then this server, fed what the client wrote, ends the session normally and delivers
  exactly one message: the sender, the served recipients in lower case and in order, and the
  message with its lines in CR LF form. With no served recipient it delivers nothing.
\<close>

theorem message_crosses:
  assumes "upper_ok uc" "host \<noteq> []" "list_all graphic host" "plain_addr from"
    and "\<forall>a \<in> set to. plain_addr a"
    and "tx w = ''EHLO '' @ host @ CRLF" "tx_limit w = None"
    and "converse ehlo from to raw w = (Ret (Inr ()), w')"
  shows "\<exists>c. handle cfg lc uc accepts (tx w') = (Ended Done, c) \<and>
    delivered c = (if filter accepts (map lc to) = [] then []
      else [\<lparr>d_from = from, d_rcpts = filter accepts (map lc to), d_raw = crlf_norm raw\<rparr>])"
proof -
  obtain cmd where cmd: "mail_from_cmd from ehlo = Ret cmd"
    and tx: "tx w' = ''EHLO '' @ host @ CRLF @ cmd @ concat (map rcpt_line to)
               @ ''DATA'' @ CRLF @ data_wire raw @ ''QUIT'' @ CRLF @ []"
    using converse_tx [OF assms(7,8)] assms(6) by auto
  define c0 where "c0 = say (''220 '' @ hostname cfg @ '' ESMTP Service Ready'') (conn_new (tx w'))"
  have c0: "inp c0 = tx w'" "delivered c0 = []" by (simp_all add: c0_def conn_new_def)
  obtain c1 where c1: "smtp_step cfg lc uc accepts c0 = Continue c1" "inp c1 = cmd @ concat (map rcpt_line to)
        @ ''DATA'' @ CRLF @ data_wire raw @ ''QUIT'' @ CRLF @ []" "delivered c1 = []" "greeted (sess c1)"
    using step_ehlo [OF assms(1) _ assms(2,3), of c0] c0 tx by (metis (no_types))
  obtain c2 where c2: "smtp_step cfg lc uc accepts c1 = Continue c2" "inp c2 = concat (map rcpt_line to)
        @ ''DATA'' @ CRLF @ data_wire raw @ ''QUIT'' @ CRLF @ []" "delivered c2 = []"
      "mail_from (sess c2) = Some from" "rcpts (sess c2) = []"
    using step_mail [OF assms(1) cmd c1(2) assms(4) c1(4), of cfg lc accepts] c1(3) by auto
  obtain c3 where c3: "smtp_loop cfg lc uc accepts c2 = smtp_loop cfg lc uc accepts c3"
      "inp c3 = ''DATA'' @ CRLF @ data_wire raw @ ''QUIT'' @ CRLF @ []" "delivered c3 = []"
      "mail_from (sess c3) = Some from" "rcpts (sess c3) = filter accepts (map lc to)"
    using loop_rcpts [OF assms(1) c2(2) assms(5) c2(4), of cfg lc accepts] c2(3,5) by auto
  obtain c4 where c4: "smtp_step cfg lc uc accepts c3 = Continue c4" "inp c4 = ''QUIT'' @ CRLF @ []"
      "delivered c4 = (if rcpts (sess c3) = [] then []
        else [\<lparr>d_from = from, d_rcpts = rcpts (sess c3), d_raw = crlf_norm raw\<rparr>])"
    using step_data [OF assms(1) c3(2,4), of cfg lc accepts] c3(3) by auto
  obtain c5 where c5: "smtp_step cfg lc uc accepts c4 = Stop (Ended Done) c5" "delivered c5 = delivered c4"
    using step_quit [OF assms(1) c4(2), of cfg lc accepts] by auto
  have "smtp_loop cfg lc uc accepts c0 = (Ended Done, c5)"
    using loop_step [OF c1(1)] loop_step [OF c2(1)] c3(1) loop_step [OF c4(1)] c5(1)
      smtp_loop.simps [of cfg lc uc accepts c4] by simp
  then show ?thesis
    using c5(2) c4(3) c3(5) by (simp add: handle_def handle_inner_def c0_def)
qed

declare converse_def [eval]

theorem message_crosses_witness:
  "\<exists>c. handle default_config ascii_lower ascii_upper (\<lambda>a. a = ''u@c'')
      (tx (snd (converse ''250 x'' ''f@g'' [''U@c'', ''v@c''] ''m''
        ((wire_of (''250 a'' @ CRLF @ ''250 b'' @ CRLF @ ''250 b'' @ CRLF @ ''354 c'' @ CRLF
            @ ''250 d'' @ CRLF))\<lparr>tx := ''EHLO h'' @ CRLF\<rparr>)))) = (Ended Done, c) \<and>
    delivered c = [\<lparr>d_from = ''f@g'', d_rcpts = [''u@c''], d_raw = ''m'' @ CRLF\<rparr>]"
proof -
  define w where "w = (wire_of (''250 a'' @ CRLF @ ''250 b'' @ CRLF @ ''250 b'' @ CRLF
      @ ''354 c'' @ CRLF @ ''250 d'' @ CRLF))\<lparr>tx := ''EHLO h'' @ CRLF\<rparr>"
  define p where "p = converse ''250 x'' ''f@g'' [''U@c'', ''v@c''] ''m'' w"
  have "fst p = Ret (Inr ())"
    unfolding p_def w_def by (simp add: eval char_of_def bit_Suc_0_iff)
  then have c: "converse ''250 x'' ''f@g'' [''U@c'', ''v@c''] ''m'' w = (Ret (Inr ()), snd p)"
    by (metis p_def prod.collapse)
  have w: "tx w = ''EHLO '' @ ''h'' @ CRLF" "tx_limit w = None" by (simp_all add: w_def wire_of_def)
  have a: "filter (\<lambda>a. a = ''u@c'') (map ascii_lower [''U@c'', ''v@c'']) = [''u@c'']"
    by (simp add: eval)
  have m: "crlf_norm ''m'' = ''m'' @ CRLF"
    by (simp add: crlf_norm_def norm_lines.simps eval)
  have "\<exists>c. handle default_config ascii_lower ascii_upper (\<lambda>a. a = ''u@c'') (tx (snd p)) = (Ended Done, c) \<and>
    delivered c = (if filter (\<lambda>a. a = ''u@c'') (map ascii_lower [''U@c'', ''v@c'']) = [] then []
      else [\<lparr>d_from = ''f@g'', d_rcpts = filter (\<lambda>a. a = ''u@c'') (map ascii_lower [''U@c'', ''v@c'']),
             d_raw = crlf_norm ''m''\<rparr>])"
    by (rule message_crosses [OF ascii_upper_ok _ _ _ _ w c])
       (simp_all add: plain_addr_def graphic_def byte_def)
  then show ?thesis by (simp only: a m p_def w_def) simp
qed

end
