(* ===== verification/Serve.thy ===== *)
theory Serve
  imports SmtpIn
begin

text \<open>
  One inbound connection with its TLS upgrade, \<open>serve_session\<close> of
  \<open>crates/jmapsmtp/src/delivery.rs\<close>: the clear session, and after \<open>STARTTLS\<close> a second one
  inside the tunnel. \<open>tls\<close> is whether a certificate is configured, \<open>tunnel\<close> what the
  handshake gives (\<open>None\<close> when it fails) as the bytes the client sends inside it.
\<close>

section \<open>The session and its upgrade\<close>

definition clear_config :: "string \<Rightarrow> bool \<Rightarrow> smtp_config" where
  "clear_config host tls =
    \<lparr>hostname = host, starttls = True, tls_available = tls, enable_smtputf8 = True\<rparr>"

definition tunnel_config :: "smtp_config \<Rightarrow> smtp_config" where
  "tunnel_config cfg = cfg\<lparr>starttls := False, tls_available := False\<rparr>"

record served_session =
  finish :: "ending"
  clear_part :: conn
  tunnel_part :: "conn option"

definition serve_session ::
  "string \<Rightarrow> bool \<Rightarrow> (string \<Rightarrow> string) \<Rightarrow> (string \<Rightarrow> string) \<Rightarrow> (string \<Rightarrow> bool)
   \<Rightarrow> string \<Rightarrow> string option \<Rightarrow> served_session" where
  "serve_session host tls lc uc accepts i tunnel =
    (let cfg = clear_config host tls;
         (e, c) = handle cfg lc uc accepts i in
     if e \<noteq> Ended StartTls then \<lparr>finish = e, clear_part = c, tunnel_part = None\<rparr>
     else if \<not> tls then \<lparr>finish = Ended Done, clear_part = c, tunnel_part = None\<rparr>
     else (case tunnel of
         None \<Rightarrow> \<lparr>finish = IoFailed, clear_part = c, tunnel_part = None\<rparr>
       | Some j \<Rightarrow>
           (let (e', c') = handle_upgraded (tunnel_config cfg) lc uc accepts j in
            \<lparr>finish = (case e' of Ended _ \<Rightarrow> Ended Done | _ \<Rightarrow> e'), clear_part = c,
             tunnel_part = Some c'\<rparr>)))"

definition all_delivered :: "served_session \<Rightarrow> delivery list" where
  "all_delivered s = delivered (clear_part s)
     @ (case tunnel_part s of None \<Rightarrow> [] | Some c \<Rightarrow> delivered c)"

section \<open>The upgrade is offered once\<close>

lemma command_starttls:
  "command cfg lc acc verb rest c = Stop (Ended StartTls) d \<Longrightarrow>
   starttls cfg \<and> tls_available cfg \<and> verb = ''STARTTLS''
   \<and> d = say ''220 2.0.0 Ready to start TLS'' c"
  by (auto simp: command_def cmd_mail_def cmd_rcpt_def cmd_data_def protocol_error_def Let_def
           split: if_splits outcome.splits option.splits prod.splits)

lemma smtp_step_starttls:
  "smtp_step cfg lc uc acc c = Stop (Ended StartTls) d \<Longrightarrow> starttls cfg \<and> tls_available cfg"
  by (auto simp: smtp_step_def protocol_error_def Let_def dest!: command_starttls
           split: read.splits outcome.splits option.splits prod.splits if_splits)

text \<open>
  \<open>STARTTLS\<close> is honoured only with a certificate, and never inside the tunnel: the
  upgraded session cannot ask for a second upgrade.
\<close>

theorem starttls_only_when_offered:
  "fst (handle_inner cfg lc uc accepts g i) = Ended StartTls \<Longrightarrow> starttls cfg \<and> tls_available cfg"
proof -
  assume st: "fst (handle_inner cfg lc uc accepts g i) = Ended StartTls"
  have "case handle_inner cfg lc uc accepts g i of (e, c) \<Rightarrow>
      e = Ended StartTls \<longrightarrow> starttls cfg \<and> tls_available cfg"
    unfolding handle_inner_def
    by (rule smtp_loop_invariant [where I = "\<lambda>_. True"]) (auto dest: smtp_step_starttls)
  then show ?thesis using st by (simp add: case_prod_beta)
qed

section \<open>Nothing typed before the handshake counts after it\<close>

text \<open>More bytes from the client, behind those already there.\<close>

definition behind :: "string \<Rightarrow> conn \<Rightarrow> conn" where
  "behind x c = c\<lparr>inp := inp c @ x\<rparr>"

definition whole :: "string \<Rightarrow> bool" where
  "whole i \<longleftrightarrow> i = [] \<or> last i = LF"

lemma behind_sel [simp]:
  "sess (behind x c) = sess c" "errors (behind x c) = errors c" "inp (behind x c) = inp c @ x"
  "out (behind x c) = out c" "delivered (behind x c) = delivered c" "say s (behind x c) = behind x (say s c)"
  by (simp_all add: behind_def say_def)

lemma take_line_more:
  "whole i \<Longrightarrow> i \<noteq> [] \<Longrightarrow> take_line i = (l, r) \<Longrightarrow> take_line (i @ x) = (l, r @ x) \<and> whole r"
proof -
  assume i: "whole i" "i \<noteq> []" "take_line i = (l, r)"
  then have "LF \<in> set i" using last_in_set [of i] by (auto simp: whole_def)
  then obtain a b where ab: "i = a @ LF # b" "LF \<notin> set a" by (meson split_list_first)
  then have "l = a @ [LF]" "r = b" using i(3) take_line_LF [of a b] by simp_all
  then show ?thesis
    using ab i(1) take_line_LF [of a "b @ x"] by (auto simp: whole_def split: if_splits)
qed

lemma read_data_more:
  "whole i \<Longrightarrow> read_data i = (d, r) \<Longrightarrow> r \<noteq> [] \<Longrightarrow> read_data (i @ x) = (d, r @ x) \<and> whole r"
proof (induction i arbitrary: d rule: read_data.induct)
  case (1 i)
  then have ne: "i \<noteq> []" by (auto simp: read_data.simps [of "[]"])
  obtain l s where l: "take_line i = (l, s)" by fastforce
  note m = take_line_more [OF 1(2) ne l]
  show ?case
  proof (cases "chop_last CR (chop_last LF l) = ''.''")
    case True
    then show ?thesis
      using 1(3) ne l m by (simp add: read_data.simps [of i] read_data.simps [of "i @ x"])
  next
    case False
    obtain d' r' where d': "read_data s = (d', r')" by fastforce
    have "r' = r" using 1(3) ne l False d' by (simp add: read_data.simps [of i])
    with d' have d': "read_data s = (d', r)" by simp
    then show ?thesis
      using 1(1) [OF ne refl l [symmetric] refl False _ d'] 1(3,4) ne l m False d'
      by (simp add: read_data.simps [of i] read_data.simps [of "i @ x"])
  qed
qed

fun more_progress :: "string \<Rightarrow> progress \<Rightarrow> progress" where
  "more_progress x (Continue c) = Continue (behind x c)"
| "more_progress x (Stop e c) = Stop e (behind x c)"

text \<open>
  A step that leaves input behind, or starts the upgrade, does the same with more input behind
  it.
\<close>

lemma command_more:
  assumes w: "whole (inp c)" and cm: "command cfg lc acc verb rest c = p"
    and live: "inp (after p) \<noteq> [] \<or> p = Stop (Ended StartTls) d"
  shows "command cfg lc acc verb rest (behind x c) = more_progress x p \<and> whole (inp (after p))"
proof (cases "verb = ''DATA''")
  case True
  then have p: "p = cmd_data c" using cm by (simp add: command_def)
  show ?thesis
  proof (cases "mail_from (sess c)")
    case None
    then show ?thesis using p True w by (simp add: command_def cmd_data_def)
  next
    case (Some f)
    obtain o' r where r: "read_data (inp c) = (o', r)" by fastforce
    then have "r \<noteq> []" using p live Some by (auto simp: cmd_data_def)
    then show ?thesis
      using p True Some r read_data_more [OF w r, of x]
      by (simp add: command_def cmd_data_def behind_def say_def)
  qed
next
  case False
  have mail: "cmd_mail rest (behind x c) = more_progress x (cmd_mail rest c) \<and> inp (after (cmd_mail rest c)) = inp c"
    by (simp add: cmd_mail_def behind_def say_def split: outcome.split option.split)
  have rcpt: "cmd_rcpt lc acc rest (behind x c) = more_progress x (cmd_rcpt lc acc rest c)
      \<and> inp (after (cmd_rcpt lc acc rest c)) = inp c"
    by (simp add: cmd_rcpt_def Let_def behind_def say_def split: outcome.split option.split)
  have err: "protocol_error (behind x d) = more_progress x (protocol_error d)
      \<and> inp (after (protocol_error d)) = inp d" for d
    by (simp add: protocol_error_def Let_def behind_def say_def)
  show ?thesis
    unfolding cm [symmetric]
    using False w mail rcpt err
    by (simp add: command_def)
qed

lemma smtp_step_more:
  assumes w: "whole (inp c)" and st: "smtp_step cfg lc uc acc c = p"
    and live: "inp (after p) \<noteq> [] \<or> p = Stop (Ended StartTls) d"
  shows "smtp_step cfg lc uc acc (behind x c) = more_progress x p \<and> whole (inp (after p))"
proof -
  obtain l r where l: "take_line (inp c) = (l, r)" by fastforce
  have ne: "inp c \<noteq> []"
    using st live by (auto simp: smtp_step_def read_line_def)
  note m = take_line_more [OF w ne l, of x]
  have "l \<noteq> []" using take_line_nonempty [OF ne] l by simp
  show ?thesis
  proof (cases "utf8_ok l")
    case False
    then show ?thesis
      using st l m \<open>l \<noteq> []\<close> by (auto simp: smtp_step_def read_line_def behind_def)
  next
    case True
    have rl: "read_line (inp c) = (Line l, r)" "read_line (inp c @ x) = (Line l, r @ x)"
      using l m \<open>l \<noteq> []\<close> True by (simp_all add: read_line_def)
    define c' where "c' = c\<lparr>inp := r\<rparr>"
    have c': "(behind x c)\<lparr>inp := r @ x\<rparr> = behind x c'" "whole (inp c')"
      using m by (simp_all add: c'_def behind_def)
    have err: "protocol_error (behind x d) = more_progress x (protocol_error d)
      \<and> inp (after (protocol_error d)) = inp d" for d
      by (simp add: protocol_error_def Let_def behind_def say_def)
    show ?thesis
    proof (cases "split_command uc (trim_end_chars [CR, LF] l)")
      case Panic
      then show ?thesis using st rl c' by (auto simp: smtp_step_def simp flip: c'_def)
    next
      case (Ret o')
      show ?thesis
      proof (cases o')
        case None
        then show ?thesis using Ret st rl c' err by (auto simp: smtp_step_def simp flip: c'_def)
      next
        case (Some vr)
        then show ?thesis
          using Ret st rl c' command_more [OF c'(2) _ live, of cfg lc acc "fst vr" "snd vr"]
          by (auto simp: smtp_step_def simp flip: c'_def split: prod.splits)
      qed
    qed
  qed
qed

lemma smtp_loop_more:
  "whole (inp c) \<Longrightarrow> smtp_loop cfg lc uc acc c = (Ended StartTls, d) \<Longrightarrow>
   smtp_loop cfg lc uc acc (behind x c) = (Ended StartTls, behind x d)"
proof (induction "length (inp c)" arbitrary: c rule: less_induct)
  case less
  show ?case
  proof (cases "smtp_step cfg lc uc acc c")
    case (Stop e c')
    then have "e = Ended StartTls" "c' = d" using less.prems(2) by (simp_all add: smtp_loop.simps [of cfg lc uc acc c])
    then show ?thesis
      using smtp_step_more [OF less.prems(1) Stop, of d x] by (simp add: Stop smtp_loop.simps [of cfg lc uc acc "behind x c"])
  next
    case (Continue c')
    then have l: "smtp_loop cfg lc uc acc c' = (Ended StartTls, d)"
      using less.prems(2) by (simp add: smtp_loop.simps [of cfg lc uc acc c])
    have "inp c' \<noteq> []"
    proof
      assume "inp c' = []"
      then show False
        using l by (simp add: smtp_loop.simps [of cfg lc uc acc c'] smtp_step_def read_line_def)
    qed
    then show ?thesis
      using smtp_step_more [OF less.prems(1) Continue, of d x] less.hyps [OF smtp_step_shorter [OF Continue] _ l]
      by (simp add: smtp_loop.simps [of cfg lc uc acc "behind x c"])
  qed
qed

text \<open>
  C33. No plaintext injection: bytes sent in the clear behind the \<open>STARTTLS\<close> line change
  neither the answers nor the deliveries, in the clear or inside the tunnel.
\<close>

theorem no_plaintext_injection:
  assumes "i \<noteq> []" "last i = LF" "fst (handle (clear_config host tls) lc uc accepts i) = Ended StartTls"
  shows "all_delivered (serve_session host tls lc uc accepts (i @ x) tunnel)
         = all_delivered (serve_session host tls lc uc accepts i tunnel) \<and>
       out (clear_part (serve_session host tls lc uc accepts (i @ x) tunnel))
         = out (clear_part (serve_session host tls lc uc accepts i tunnel)) \<and>
       tunnel_part (serve_session host tls lc uc accepts (i @ x) tunnel)
         = tunnel_part (serve_session host tls lc uc accepts i tunnel)"
proof -
  let ?cfg = "clear_config host tls"
  obtain d where d: "handle ?cfg lc uc accepts i = (Ended StartTls, d)"
    using assms(3) by (metis prod.collapse)
  define c0 where "c0 = say (''220 '' @ hostname ?cfg @ '' ESMTP Service Ready'') (conn_new i)"
  have "smtp_loop ?cfg lc uc accepts c0 = (Ended StartTls, d)" "whole (inp c0)"
    using d assms(1,2) by (simp_all add: handle_def handle_inner_def c0_def whole_def conn_new_def)
  from smtp_loop_more [OF this(2,1), of x]
  have "handle ?cfg lc uc accepts (i @ x) = (Ended StartTls, behind x d)"
    by (simp add: handle_def handle_inner_def c0_def behind_def say_def conn_new_def)
  with d show ?thesis
    by (cases tls; cases tunnel)
       (simp_all add: serve_session_def all_delivered_def Let_def case_prod_beta)
qed

section \<open>Witnesses\<close>

definition demo_clear :: string where
  "demo_clear = ''EHLO a'' @ CRLF @ ''STARTTLS'' @ CRLF"

lemma demo_clear_upgrades:
  "fst (handle (clear_config ''mx'' True) ascii_lower ascii_upper (\<lambda>_. True) demo_clear) = Ended StartTls"
  by (simp add: eval clear_config_def demo_clear_def)

theorem starttls_only_when_offered_witness:
  "starttls (clear_config ''mx'' True) \<and> tls_available (clear_config ''mx'' True)"
  using starttls_only_when_offered [of "clear_config ''mx'' True" ascii_lower ascii_upper "\<lambda>_. True" Send demo_clear]
    demo_clear_upgrades by (simp add: handle_def)

theorem no_plaintext_injection_witness:
  "all_delivered (serve_session ''mx'' True ascii_lower ascii_upper (\<lambda>_. True)
      (demo_clear @ demo_session) (Some ''QUIT'')) = []"
proof -
  have l: "demo_clear \<noteq> []" "last demo_clear = LF" by (simp_all add: demo_clear_def CRLF_eq)
  have "all_delivered (serve_session ''mx'' True ascii_lower ascii_upper (\<lambda>_. True) demo_clear (Some ''QUIT'')) = []"
    by (simp add: serve_session_def all_delivered_def handle_upgraded_def tunnel_config_def
        clear_config_def demo_clear_def eval)
  with no_plaintext_injection [OF l demo_clear_upgrades, of demo_session "Some ''QUIT''"]
  show ?thesis by simp
qed

end
