(* ===== verification/Queue.thy ===== *)
theory Queue
  imports SmtpOut "HOL-Library.AList"
begin

text \<open>
  The retry queue: \<open>crates/jmapsmtp/src/queue/policy.rs\<close> (when to try again, when to stop) and
  \<open>crates/jmapsmtp/src/queue.rs\<close> (messages on disk and the retry pass).

  The disk is modelled at the level of file operations, so that an operation can fail, or the
  machine can stop, between any two of them: \<open>fault\<close> is the index of the operation that fails,
  with the bytes a torn write leaves. A file holds bytes or, as \<open>Json\<close>, the serialised form
  of an entry; bytes are not a valid entry. The order in a directory is arbitrary: the lists
  are in whatever order \<open>read_dir\<close> gives. Times are Unix milliseconds read from the clock.
\<close>

section \<open>The schedule\<close>

datatype temporality = Temporary | Permanent

text \<open>\<open>str::get(..3)\<close> is \<open>None\<close> off a boundary, where a slice would panic.\<close>

definition get_to :: "string \<Rightarrow> nat \<Rightarrow> string option" where
  "get_to s n = (if n \<le> length s \<and> char_boundary s n then Some (take n s) else None)"

definition reply_code :: "string \<Rightarrow> nat option" where
  "reply_code reply =
    (case get_to (trim_start reply) 3 of None \<Rightarrow> None | Some s \<Rightarrow> parse_unsigned (2 ^ 16) s)"

fun classify :: "send_error \<Rightarrow> temporality" where
  "classify (Dial t e) = Temporary"
| "classify (Io e) = Temporary"
| "classify (NoMx d) = Temporary"
| "classify NoRecipients = Permanent"
| "classify (InvalidRecipient a) = Permanent"
| "classify (Rejected command reply) =
    (case reply_code reply of
       Some c \<Rightarrow>
         if 400 \<le> c \<and> c < 500 then Temporary
         else if 500 \<le> c \<and> c < 600 then Permanent
         else Temporary
     | None \<Rightarrow> Temporary)"

definition schedule_secs :: "nat list" where
  "schedule_secs = [60, 300, 900, 3600, 7200, 14400, 28800]"

text \<open>\<open>backoff\<close>, in seconds; the count is a \<open>u32\<close>.\<close>

definition backoff :: "32 word \<Rightarrow> nat option" where
  "backoff attempts_so_far =
    (if attempts_so_far = 0 then None
     else (let i = unat (attempts_so_far - 1) in
           if i < length schedule_secs then Some (schedule_secs ! i) else None))"

lemma backoff_Some: "backoff n = Some w \<longleftrightarrow>
    1 \<le> unat n \<and> unat n \<le> 7 \<and> w = schedule_secs ! (unat n - 1)"
proof (cases "n = 0")
  case True
  then show ?thesis by (simp add: backoff_def)
next
  case False
  then have "unat (n - 1) = unat n - 1" and "0 < unat n"
    by (simp_all add: unat_minus_one unat_gt_0)
  then show ?thesis using False by (auto simp: backoff_def Let_def schedule_secs_def)
qed

lemma backoff_None: "backoff n = None \<longleftrightarrow> unat n = 0 \<or> 7 < unat n"
proof -
  have "backoff n \<noteq> None \<longleftrightarrow> 1 \<le> unat n \<and> unat n \<le> 7"
    by (auto simp: backoff_Some)
  then show ?thesis by linarith
qed

text \<open>The two loops of the module; they end because the schedule does.\<close>

lemma unat_suc_le7: "unat (n :: 32 word) \<le> 7 \<Longrightarrow> unat (n + 1) = Suc (unat n)"
proof -
  assume "unat n \<le> 7"
  then have "unat n + 1 < 2 ^ 32" by simp
  then show ?thesis by (simp add: unat_word_ariths)
qed

function count_from :: "32 word \<Rightarrow> 32 word \<Rightarrow> 32 word" where
  "count_from n left = (if backoff n \<noteq> None then count_from (n + 1) (left + 1) else left)"
  by pat_completeness auto
termination
  by (relation "measure (\<lambda>(n, left). 8 - unat n)") (auto simp: backoff_Some unat_suc_le7)

declare count_from.simps [simp del]

definition attempts_remaining :: "32 word \<Rightarrow> 32 word" where
  "attempts_remaining attempts_so_far = count_from (attempts_so_far + 1) 0"

function sum_from :: "32 word \<Rightarrow> nat \<Rightarrow> nat" where
  "sum_from n acc = (case backoff n of None \<Rightarrow> acc | Some d \<Rightarrow> sum_from (n + 1) (acc + d))"
  by pat_completeness auto
termination
  by (relation "measure (\<lambda>(n, acc). 8 - unat n)") (auto simp: backoff_Some unat_suc_le7)

declare sum_from.simps [simp del]

definition total_window :: nat where
  "total_window = sum_from 1 0"

section \<open>The disk\<close>

record entry =
  e_id :: string
  e_from :: string
  e_to :: "string list"
  attempts :: "32 word"
  next_attempt :: int
  first_queued :: int
  last_error :: string

datatype qfile = Eml | Meta | MetaTmp

datatype content = Raw string | Json entry

type_synonym files = "(qfile \<times> content) list"
type_synonym disk = "(string \<times> files) list"

datatype fs_op =
    MkDir string
  | Write string qfile content
  | Rename string qfile qfile
  | Unlink string qfile
  | RmDir string

fun apply_op :: "disk \<Rightarrow> fs_op \<Rightarrow> disk option" where
  "apply_op d (MkDir i) = Some (if map_of d i = None then AList.update i [] d else d)"
| "apply_op d (Write i f c) =
    (case map_of d i of None \<Rightarrow> None | Some fs \<Rightarrow> Some (AList.update i (AList.update f c fs) d))"
| "apply_op d (Rename i f g) =
    (case map_of d i of
       None \<Rightarrow> None
     | Some fs \<Rightarrow>
         (case map_of fs f of
            None \<Rightarrow> None
          | Some c \<Rightarrow> Some (AList.update i (AList.update g c (AList.delete f fs)) d)))"
| "apply_op d (Unlink i f) =
    (case map_of d i of None \<Rightarrow> None | Some fs \<Rightarrow> Some (AList.update i (AList.delete f fs) d))"
| "apply_op d (RmDir i) = (if map_of d i = None then None else Some (AList.delete i d))"

text \<open>What a failing operation leaves: a write may have written some other bytes.\<close>

fun tear :: "string \<Rightarrow> disk \<Rightarrow> fs_op \<Rightarrow> disk" where
  "tear t d (Write i f c) =
    (case apply_op d (Write i f (Raw t)) of None \<Rightarrow> d | Some d' \<Rightarrow> d')"
| "tear t d op = d"

type_synonym fault = "(nat \<times> string) option"

fun exec :: "fault \<Rightarrow> fs_op list \<Rightarrow> disk \<Rightarrow> bool \<times> disk" where
  "exec k [] d = (True, d)"
| "exec (Some (0, t)) (op # ops) d = (False, tear t d op)"
| "exec (Some (Suc k, t)) (op # ops) d =
    (case apply_op d op of None \<Rightarrow> (False, d) | Some d' \<Rightarrow> exec (Some (k, t)) ops d')"
| "exec None (op # ops) d =
    (case apply_op d op of None \<Rightarrow> (False, d) | Some d' \<Rightarrow> exec None ops d')"

section \<open>Queue operations\<close>

definition write_meta_ops :: "string \<Rightarrow> entry \<Rightarrow> fs_op list" where
  "write_meta_ops i e = [Write i MetaTmp (Json e), Rename i MetaTmp Meta]"

definition new_entry :: "string \<Rightarrow> int \<Rightarrow> string \<Rightarrow> string list \<Rightarrow> string \<Rightarrow> entry" where
  "new_entry i now from to error =
    \<lparr>e_id = i, e_from = from, e_to = to, attempts = 1,
     next_attempt = now + (case backoff 1 of Some w \<Rightarrow> int w * 1000 | None \<Rightarrow> 0),
     first_queued = now, last_error = error\<rparr>"

text \<open>
  \<open>i\<close> is the fresh id, from the clock and the random source. The code reads the clock again for each
  of the two times of the entry; \<open>now\<close> is both.
\<close>

definition enqueue ::
  "fault \<Rightarrow> string \<Rightarrow> int \<Rightarrow> string \<Rightarrow> string list \<Rightarrow> string \<Rightarrow> string \<Rightarrow> disk
   \<Rightarrow> entry option \<times> disk" where
  "enqueue k i now from to raw error d =
    (let e = new_entry i now from to error in
     case exec k ([MkDir i, Write i Eml (Raw raw)] @ write_meta_ops i e) d of
       (ok, d') \<Rightarrow> (if ok then Some e else None, d'))"

definition entry_of :: "files \<Rightarrow> entry option" where
  "entry_of fs = (case map_of fs Meta of Some (Json e) \<Rightarrow> Some e | _ \<Rightarrow> None)"

definition load_all :: "disk \<Rightarrow> entry list" where
  "load_all d = sort_key first_queued (List.map_filter (\<lambda>(i, fs). entry_of fs) d)"

definition message_bytes :: "disk \<Rightarrow> string \<Rightarrow> string option" where
  "message_bytes d i =
    (case map_of d i of
       None \<Rightarrow> None
     | Some fs \<Rightarrow> (case map_of fs Eml of Some (Raw s) \<Rightarrow> Some s | _ \<Rightarrow> None))"

definition remove_ops :: "disk \<Rightarrow> string \<Rightarrow> fs_op list" where
  "remove_ops d i =
    (case map_of d i of None \<Rightarrow> [] | Some fs \<Rightarrow> map (\<lambda>(f, _). Unlink i f) fs @ [RmDir i])"

definition remove_entry :: "fault \<Rightarrow> string \<Rightarrow> disk \<Rightarrow> bool \<times> disk" where
  "remove_entry k i d = exec k (remove_ops d i) d"

text \<open>\<open>defer\<close> in the source: the value is \<open>None\<close> on an I/O error, \<open>Some None\<close> when the schedule has run out.\<close>

definition defer_entry ::
  "fault \<Rightarrow> int \<Rightarrow> entry \<Rightarrow> string \<Rightarrow> disk \<Rightarrow> entry option option \<times> disk" where
  "defer_entry k now e error d =
    (case backoff (attempts e + 1) of
       None \<Rightarrow> (case remove_entry k (e_id e) d of (ok, d') \<Rightarrow> (if ok then Some None else None, d'))
     | Some wait \<Rightarrow>
         (let u = e\<lparr>attempts := attempts e + 1, next_attempt := now + int wait * 1000,
                    last_error := error\<rparr> in
          case exec k (write_meta_ops (e_id e) u) d of
            (ok, d') \<Rightarrow> (if ok then Some (Some u) else None, d')))"

definition due :: "disk \<Rightarrow> int \<Rightarrow> entry list" where
  "due d now = filter (\<lambda>e. next_attempt e \<le> now) (load_all d)"

section \<open>The retry pass\<close>

text \<open>\<open>Display\<close> of an error; \<open>dbg\<close> is the standard library's quoted form of a string.\<close>

fun show_error :: "(string \<Rightarrow> string) \<Rightarrow> send_error \<Rightarrow> string" where
  "show_error dbg (Dial target e) = ''dial '' @ target @ '': '' @ e"
| "show_error dbg (Io e) = e"
| "show_error dbg (Rejected command reply) = command @ '': '' @ reply"
| "show_error dbg NoRecipients = ''no recipients''"
| "show_error dbg (NoMx domain) = ''no MX for '' @ domain"
| "show_error dbg (InvalidRecipient addr) = ''invalid recipient address: '' @ dbg addr"

text \<open>\<open>human_duration\<close>, of a length in milliseconds.\<close>

definition human_duration :: "nat \<Rightarrow> string" where
  "human_duration ms =
    (let mins = ms div 1000 div 60 in
     if mins < 60 then show_nat mins @ '' min''
     else (let h = mins div 60; m = mins mod 60 in
           if m = 0 then show_nat h @ '' h''
           else show_nat h @ '' h '' @ show_nat m @ '' min''))"

text \<open>
  What one attempt meets: the configuration, the network, the clock, the accounts, and the
  formatting of the clock (\<open>format_rfc1123z\<close>) and of strings that the notice uses.
  \<open>r_filed a n\<close>: \<open>Delivery::deliver_local\<close> (\<open>Inbound.store_message\<close>) stores the notice \<open>n\<close> for the
  account \<open>a\<close>. It may not, when the account is at its limit or the disk fails; that is only logged.
\<close>

record relay =
  r_sender :: sender
  r_nets :: "string \<Rightarrow> net"
  r_mx :: "string \<Rightarrow> string list"
  r_now :: int
  r_date :: string
  r_dbg :: "string \<Rightarrow> string"
  r_resolve :: "string \<Rightarrow> string option"
  r_filed :: "string \<Rightarrow> string \<Rightarrow> bool"

text \<open>\<open>notices\<close>: the notices that were stored, each with the account it is for.\<close>

record queue_state =
  store :: disk
  smtp_sent :: nat
  smtp_failed :: nat
  notices :: "(string \<times> string) list"

definition record_smtp_outbound :: "bool \<Rightarrow> queue_state \<Rightarrow> queue_state" where
  "record_smtp_outbound ok q =
    (if ok then q\<lparr>smtp_sent := smtp_sent q + 1\<rparr> else q\<lparr>smtp_failed := smtp_failed q + 1\<rparr>)"

definition notice_body :: "relay \<Rightarrow> entry \<Rightarrow> string \<Rightarrow> string" where
  "notice_body r e error =
    ''Delivery to the following recipients failed permanently:'' @ CRLF @ CRLF
    @ [CHR 0x09] @ join (CRLF @ [CHR 0x09]) (e_to e) @ CRLF @ CRLF
    @ ''The relay held this message for '' @ human_duration (nat (r_now r - first_queued e))
    @ '' and made '' @ show_nat (unat (attempts e)) @ '' attempts.'' @ CRLF
    @ ''The last response from the receiving server was:'' @ CRLF @ CRLF
    @ [CHR 0x09] @ error @ CRLF"

definition notice :: "relay \<Rightarrow> entry \<Rightarrow> string \<Rightarrow> string" where
  "notice r e error =
    ''From: Mail Delivery System <postmaster@'' @ s_hostname (r_sender r) @ ''>'' @ CRLF
    @ ''To: '' @ e_from e @ CRLF
    @ ''Subject: Undelivered mail: '' @ join '', '' (e_to e) @ CRLF
    @ ''Date: '' @ r_date r @ CRLF
    @ ''Message-ID: <queue-'' @ e_id e @ ''@'' @ s_hostname (r_sender r) @ ''>'' @ CRLF
    @ ''Content-Type: text/plain; charset=utf-8'' @ CRLF @ CRLF
    @ notice_body r e error"

definition report_failure :: "relay \<Rightarrow> entry \<Rightarrow> string \<Rightarrow> queue_state \<Rightarrow> queue_state" where
  "report_failure r e error q =
    (case r_resolve r (e_from e) of
       None \<Rightarrow> q
     | Some account \<Rightarrow>
         if r_filed r account (notice r e error)
         then q\<lparr>notices := notices q @ [(account, notice r e error)]\<rparr> else q)"

text \<open>What \<open>report_failure\<close> adds to the stored notices.\<close>

definition new_notices :: "relay \<Rightarrow> entry \<Rightarrow> string \<Rightarrow> (string \<times> string) list" where
  "new_notices r e error =
    (case r_resolve r (e_from e) of
       None \<Rightarrow> []
     | Some a \<Rightarrow> if r_filed r a (notice r e error) then [(a, notice r e error)] else [])"

definition retry_one :: "fault \<Rightarrow> relay \<Rightarrow> entry \<Rightarrow> queue_state \<Rightarrow> queue_state outcome" where
  "retry_one k r e q =
    (case message_bytes (store q) (e_id e) of
       None \<Rightarrow> Ret (q\<lparr>store := snd (remove_entry k (e_id e) (store q))\<rparr>)
     | Some raw \<Rightarrow>
       (case fst (deliver (r_nets r) (r_mx r) (r_sender r) (e_from e) (e_to e) raw) of
          Panic \<Rightarrow> Panic
        | Ret (Inr _) \<Rightarrow>
            Ret ((record_smtp_outbound True q)
                  \<lparr>store := snd (remove_entry k (e_id e) (store q))\<rparr>)
        | Ret (Inl err) \<Rightarrow>
            if classify err = Permanent then
              Ret (report_failure r e (show_error (r_dbg r) err)
                    ((record_smtp_outbound False q)
                      \<lparr>store := snd (remove_entry k (e_id e) (store q))\<rparr>))
            else
              (case defer_entry k (r_now r) e (show_error (r_dbg r) err) (store q) of
                 (Some (Some nxt), d) \<Rightarrow> Ret (q\<lparr>store := d\<rparr>)
               | (Some None, d) \<Rightarrow>
                   Ret (report_failure r e (show_error (r_dbg r) err)
                         ((record_smtp_outbound False q)\<lparr>store := d\<rparr>))
               | (None, d) \<Rightarrow> Ret (q\<lparr>store := d\<rparr>))))"

text \<open>One pass: what is due, in order; a panic ends the task and with it the whole loop.\<close>

fun retry_all :: "fault \<Rightarrow> relay \<Rightarrow> entry list \<Rightarrow> queue_state \<Rightarrow> queue_state outcome" where
  "retry_all k r [] q = Ret q"
| "retry_all k r (e # es) q = bind_out (retry_one k r e q) (retry_all k r es)"

definition retry_pass :: "fault \<Rightarrow> relay \<Rightarrow> queue_state \<Rightarrow> queue_state outcome" where
  "retry_pass k r q = retry_all k r (due (store q) (r_now r)) q"

fun retry_passes :: "(fault \<times> relay) list \<Rightarrow> queue_state \<Rightarrow> queue_state outcome" where
  "retry_passes [] q = Ret q"
| "retry_passes ((k, r) # ps) q = bind_out (retry_pass k r q) (retry_passes ps)"

section \<open>The schedule's properties\<close>

lemma classify_permanent:
  "classify e = Permanent \<longleftrightarrow>
    e = NoRecipients \<or> (\<exists>a. e = InvalidRecipient a) \<or>
    (\<exists>cmd reply c. e = Rejected cmd reply \<and> reply_code reply = Some c \<and> 500 \<le> c \<and> c < 600)"
  by (cases e) (auto split: option.splits)

lemma schedule_values:
  "backoff 1 = Some 60" "backoff 2 = Some 300" "backoff 3 = Some 900" "backoff 4 = Some 3600"
  "backoff 5 = Some 7200" "backoff 6 = Some 14400" "backoff 7 = Some 28800" "backoff 8 = None"
  "backoff 0 = None"
  by (simp_all add: backoff_def schedule_secs_def)

lemma sum_from_step: "backoff n = Some w \<Longrightarrow> n + 1 = m \<Longrightarrow> sum_from n a = sum_from m (a + w)"
  by (auto simp: sum_from.simps [of n a])

lemma sum_from_stop: "backoff n = None \<Longrightarrow> sum_from n a = a"
  by (simp add: sum_from.simps [of n a])

lemma total_window_value: "total_window = 55260"
proof -
  have "sum_from 1 0 = sum_from 4 (1260 :: nat)"
    by (simp add: sum_from_step [OF schedule_values(1), of 2] sum_from_step [OF schedule_values(2), of 3]
        sum_from_step [OF schedule_values(3), of 4])
  also have "\<dots> = sum_from 8 55260"
    by (simp add: sum_from_step [OF schedule_values(4), of 5] sum_from_step [OF schedule_values(5), of 6]
        sum_from_step [OF schedule_values(6), of 7] sum_from_step [OF schedule_values(7), of 8])
  finally show ?thesis by (simp add: total_window_def sum_from_stop schedule_values)
qed

lemma count_from_spec:
  "1 \<le> unat n \<Longrightarrow> unat n \<le> 8 \<Longrightarrow> count_from n left = left + of_nat (8 - unat n)"
proof (induction n left rule: count_from.induct)
  case (1 n left)
  show ?case
  proof (cases "unat n = 8")
    case True
    then have "backoff n = None" by (simp add: backoff_None)
    then show ?thesis using True by (simp add: count_from.simps [of n left])
  next
    case False
    then have b: "backoff n \<noteq> None" "unat n \<le> 7" using 1(2,3) by (simp_all add: backoff_None)
    then have s: "unat (n + 1) = Suc (unat n)" by (simp add: unat_suc_le7)
    have "8 - unat n = Suc (8 - unat (n + 1))" using s b(2) by simp
    then show ?thesis
      using 1(1) [OF b(1)] b s by (simp add: count_from.simps [of n left])
  qed
qed

lemma attempts_remaining_spec:
  "1 \<le> unat n \<Longrightarrow> unat n \<le> 7 \<Longrightarrow> attempts_remaining n = of_nat (7 - unat n)"
  by (simp add: attempts_remaining_def count_from_spec unat_suc_le7)

section \<open>The disk's properties\<close>

interpretation al: key_map "[]" map_of AList.update AList.delete "\<lambda>m. distinct (map fst m)"
  by unfold_locales (simp_all add: distinct_update distinct_delete update_conv' delete_conv')

fun op_id :: "fs_op \<Rightarrow> string" where
  "op_id (MkDir i) = i"
| "op_id (Write i f c) = i"
| "op_id (Rename i f g) = i"
| "op_id (Unlink i f) = i"
| "op_id (RmDir i) = i"

text \<open>Names are unique, and an entry's id is the name of its directory.\<close>

definition dir_ok :: "string \<Rightarrow> files \<Rightarrow> bool" where
  "dir_ok i fs \<longleftrightarrow> distinct (map fst fs) \<and>
    (\<forall>f e. map_of fs f = Some (Json e) \<longrightarrow> e_id e = i)"

definition disk_ok :: "disk \<Rightarrow> bool" where
  "disk_ok d \<longleftrightarrow> distinct (map fst d) \<and> (\<forall>i fs. map_of d i = Some fs \<longrightarrow> dir_ok i fs)"

definition queued :: "disk \<Rightarrow> string \<Rightarrow> entry option" where
  "queued d i = (case map_of d i of None \<Rightarrow> None | Some fs \<Rightarrow> entry_of fs)"

fun writes_ok :: "fs_op \<Rightarrow> bool" where
  "writes_ok (Write i f (Json e)) = (e_id e = i)"
| "writes_ok op = True"

lemma apply_op_other:
  "apply_op d op = Some d' \<Longrightarrow> j \<noteq> op_id op \<Longrightarrow> map_of d' j = map_of d j"
  by (cases op) (auto simp: update_conv' delete_conv' split: if_splits option.splits)

lemma tear_other: "j \<noteq> op_id op \<Longrightarrow> map_of (tear t d op) j = map_of d j"
  by (cases op) (auto simp: update_conv' split: option.splits)

lemma exec_other:
  "exec k ops d = (ok, d') \<Longrightarrow> (\<And>op. op \<in> set ops \<Longrightarrow> op_id op = i) \<Longrightarrow> j \<noteq> i \<Longrightarrow>
   map_of d' j = map_of d j"
proof (induction k ops d rule: exec.induct)
  case (2 t op ops d)
  then show ?case using tear_other [of j op t d] by simp
qed (auto dest: apply_op_other split: option.splits)

lemma dir_ok_ops:
  "dir_ok i []" "dir_ok i fs \<Longrightarrow> dir_ok i (AList.delete f fs)"
  "dir_ok i fs \<Longrightarrow> (\<And>e. c = Json e \<Longrightarrow> e_id e = i) \<Longrightarrow> dir_ok i (AList.update f c fs)"
  by (auto simp: dir_ok_def al.ok_del al.ok_ins al.get_ins al.get_del split: if_splits)

lemma disk_ok_ops:
  "disk_ok d \<Longrightarrow> disk_ok (AList.delete i d)"
  "disk_ok d \<Longrightarrow> dir_ok i fs \<Longrightarrow> disk_ok (AList.update i fs d)"
  by (auto simp: disk_ok_def al.ok_del al.ok_ins al.get_ins al.get_del split: if_splits)

lemma disk_okD: "disk_ok d \<Longrightarrow> map_of d i = Some fs \<Longrightarrow> dir_ok i fs"
  by (simp add: disk_ok_def)

lemma apply_op_ok: "disk_ok d \<Longrightarrow> writes_ok op \<Longrightarrow> apply_op d op = Some d' \<Longrightarrow> disk_ok d'"
proof (cases op)
  case (Write i f c)
  assume "disk_ok d" "writes_ok op" "apply_op d op = Some d'"
  then show ?thesis
    using Write by (cases c) (auto intro!: disk_ok_ops dir_ok_ops dest: disk_okD split: option.splits)
next
  case (Rename i f g)
  assume a: "disk_ok d" "apply_op d op = Some d'"
  then obtain fs c where fs: "map_of d i = Some fs" "map_of fs f = Some c"
      "d' = AList.update i (AList.update g c (AList.delete f fs)) d"
    using Rename by (auto split: option.splits)
  then have "dir_ok i fs" using a by (auto dest: disk_okD)
  then have "dir_ok i (AList.update g c (AList.delete f fs))"
    using fs(2) by (intro dir_ok_ops) (auto simp: dir_ok_def)
  then show ?thesis using a fs(3) by (simp add: disk_ok_ops)
qed (auto intro!: disk_ok_ops dir_ok_ops dest: disk_okD split: option.splits if_splits)

lemma tear_ok: "disk_ok d \<Longrightarrow> disk_ok (tear t d op)"
proof (cases op)
  case (Write i f c)
  then show "disk_ok d \<Longrightarrow> ?thesis"
    using apply_op_ok [of d "Write i f (Raw t)"] by (simp split: option.split)
qed simp_all

lemma exec_ok: "exec k ops d = (ok, d') \<Longrightarrow> disk_ok d \<Longrightarrow> list_all writes_ok ops \<Longrightarrow> disk_ok d'"
proof (induction k ops d rule: exec.induct)
  case (2 t op ops d)
  then show ?case by (auto simp: tear_ok)
qed (auto dest: apply_op_ok split: option.splits)

lemma message_other: "map_of d' j = map_of d j \<Longrightarrow> message_bytes d' j = message_bytes d j \<and> queued d' j = queued d j"
  by (simp add: message_bytes_def queued_def)

lemma exec_meta:
  assumes "map_of d i = Some fs" "exec k (write_meta_ops i e) d = (ok, d')"
  shows "(ok \<and> queued d' i = Some e \<or> \<not> ok \<and> queued d' i = entry_of fs)
    \<and> message_bytes d' i = message_bytes d i"
proof -
  consider "k = None" | t where "k = Some (0, t)" | t where "k = Some (1, t)"
    | n t where "k = Some (Suc (Suc n), t)"
    by (metis One_nat_def old.nat.exhaust option.exhaust surj_pair)
  then show ?thesis
    using assms
    by cases (auto simp: write_meta_ops_def queued_def entry_of_def message_bytes_def
        update_conv' delete_conv' split: option.splits)
qed

text \<open>
  C10. Queueing is atomic under crashes and I/O errors: whatever operation fails, however the
  write is torn, every other entry and its message are as before; the new entry is visible
  only with its whole message beside it; and \<open>Ok\<close> means it is there.
\<close>

theorem enqueue_crash_safe:
  "disk_ok d \<Longrightarrow> map_of d i = None \<Longrightarrow> enqueue k i now from to raw error d = (r, d') \<Longrightarrow>
   disk_ok d' \<and>
   (\<forall>j. j \<noteq> i \<longrightarrow> queued d' j = queued d j \<and> message_bytes d' j = message_bytes d j) \<and>
   (queued d' i \<noteq> None \<longrightarrow>
      queued d' i = Some (new_entry i now from to error) \<and> message_bytes d' i = Some raw) \<and>
   (r \<noteq> None \<longrightarrow> r = queued d' i)"
proof -
  assume a: "disk_ok d" "map_of d i = None" "enqueue k i now from to raw error d = (r, d')"
  let ?e = "new_entry i now from to error"
  let ?ops = "[MkDir i, Write i Eml (Raw raw)] @ write_meta_ops i ?e"
  obtain ok where ex: "exec k ?ops d = (ok, d')" and r: "r = (if ok then Some ?e else None)"
    using a(3) by (auto simp: enqueue_def Let_def split: prod.splits)
  have w: "list_all writes_ok ?ops" "\<And>op. op \<in> set ?ops \<Longrightarrow> op_id op = i"
    by (auto simp: write_meta_ops_def new_entry_def)
  note others = exec_other [OF ex w(2)]
  have slot: "(\<not> ok \<and> queued d' i = None) \<or> (queued d' i = Some ?e \<and> message_bytes d' i = Some raw)
      \<or> (\<not> ok \<and> queued d' i = Some ?e \<and> message_bytes d' i = Some raw)"
  proof -
    define d2 where "d2 = AList.update i (AList.update Eml (Raw raw) []) (AList.update i [] d)"
    have d2: "map_of d2 i = Some [(Eml, Raw raw)]"
      by (simp add: d2_def update_conv')
    then have m: "message_bytes d2 i = Some raw" by (simp add: message_bytes_def)
    consider t where "k = Some (0, t)" | t where "k = Some (1, t)"
      | k' where "exec k ?ops d = exec k' (write_meta_ops i ?e) d2"
    proof (cases k)
      case None
      then show ?thesis using a(2) that(3) [of None] by (simp add: update_conv' d2_def)
    next
      case (Some p)
      obtain n t where p: "p = (n, t)" by fastforce
      show ?thesis
      proof (cases n)
        case 0
        then show ?thesis using Some p that(1) by simp
      next
        case (Suc m)
        then show ?thesis
          using Some p that(2) that(3) [of "Some (m - 1, t)"] a(2)
          by (cases m) (simp_all add: update_conv' d2_def)
      qed
    qed
    then show ?thesis
    proof cases
      case 1
      then show ?thesis using ex a(2) by (auto simp: queued_def)
    next
      case 2
      then show ?thesis using ex a(2) by (auto simp: queued_def update_conv' entry_of_def)
    next
      case 3
      then show ?thesis
        using exec_meta [OF d2, of k' ?e ok d'] ex m by (auto simp: entry_of_def)
    qed
  qed
  then show ?thesis
    using exec_ok [OF ex a(1) w(1)] others message_other [of d' _ d] r by auto
qed

lemma exec_None_append:
  "exec None (a @ b) d = (case exec None a d of (ok, d') \<Rightarrow> if ok then exec None b d' else (False, d'))"
  by (induction a arbitrary: d) (auto split: option.splits)

lemma exec_unlinks:
  "map_of d i \<noteq> None \<Longrightarrow> \<exists>d'. exec None (map (\<lambda>(f, _). Unlink i f) fs) d = (True, d') \<and> map_of d' i \<noteq> None"
proof (induction fs arbitrary: d)
  case (Cons p fs)
  then obtain gs where "map_of d i = Some gs" by auto
  then show ?case
    using Cons.IH [of "AList.update i (AList.delete (fst p) gs) d"]
    by (auto simp: case_prod_beta update_conv')
qed simp

lemma remove_ops_id: "op \<in> set (remove_ops d i) \<Longrightarrow> op_id op = i \<and> writes_ok op"
  by (auto simp: remove_ops_def split: option.splits)

lemma remove_entry_done: "\<exists>d'. remove_entry None i d = (True, d') \<and> map_of d' i = None"
proof (cases "map_of d i")
  case None
  then show ?thesis by (simp add: remove_entry_def remove_ops_def)
next
  case (Some fs)
  obtain d1 where "exec None (map (\<lambda>(f, _). Unlink i f) fs) d = (True, d1)" "map_of d1 i \<noteq> None"
    using exec_unlinks [of d i fs] Some by auto
  then show ?thesis
    using Some by (simp add: remove_entry_def remove_ops_def exec_None_append delete_conv')
qed

lemma remove_entry_frame:
  "remove_entry k i d = (ok, d') \<Longrightarrow> disk_ok d \<Longrightarrow>
   disk_ok d' \<and> (\<forall>j. j \<noteq> i \<longrightarrow> map_of d' j = map_of d j)"
  using exec_ok [of k "remove_ops d i" d ok d'] exec_other [of k "remove_ops d i" d ok d' i] remove_ops_id [of _ d i]
  by (auto simp: remove_entry_def list_all_iff)

lemma defer_frame:
  "defer_entry k now e error d = (r, d') \<Longrightarrow> disk_ok d \<Longrightarrow>
   disk_ok d' \<and> (\<forall>j. j \<noteq> e_id e \<longrightarrow> map_of d' j = map_of d j)"
proof -
  assume a: "defer_entry k now e error d = (r, d')" "disk_ok d"
  show ?thesis
  proof (cases "backoff (attempts e + 1)")
    case None
    then show ?thesis
      using a remove_entry_frame [of k "e_id e" d] by (auto simp: defer_entry_def split: prod.splits)
  next
    case (Some w)
    define ops where "ops = write_meta_ops (e_id e) (e\<lparr>attempts := attempts e + 1,
      next_attempt := now + int w * 1000, last_error := error\<rparr>)"
    obtain ok where ex: "exec k ops d = (ok, d')"
      using a Some by (auto simp: defer_entry_def ops_def Let_def split: prod.splits)
    have "list_all writes_ok ops" "\<And>op. op \<in> set ops \<Longrightarrow> op_id op = e_id e"
      by (auto simp: ops_def write_meta_ops_def)
    then show ?thesis using exec_ok [OF ex a(2)] exec_other [OF ex] by blast
  qed
qed

text \<open>
  A deferral cannot lose the message: while the schedule goes on, an entry with its
  message is afterwards queued again with the next attempt and the new error, or, after any
  I/O error, queued exactly as it was; the message is never touched.
\<close>

theorem defer_crash_safe:
  "queued d (e_id e) = Some e \<Longrightarrow> backoff (attempts e + 1) = Some w \<Longrightarrow>
   defer_entry k now e error d = (r, d') \<Longrightarrow>
   message_bytes d' (e_id e) = message_bytes d (e_id e) \<and>
   (case r of
      Some (Some u) \<Rightarrow> queued d' (e_id e) = Some u \<and>
        u = e\<lparr>attempts := attempts e + 1, next_attempt := now + int w * 1000, last_error := error\<rparr>
    | _ \<Rightarrow> r = None \<and> queued d' (e_id e) = Some e)"
proof -
  assume a: "queued d (e_id e) = Some e" "backoff (attempts e + 1) = Some w"
    "defer_entry k now e error d = (r, d')"
  let ?u = "e\<lparr>attempts := attempts e + 1, next_attempt := now + int w * 1000, last_error := error\<rparr>"
  obtain fs where fs: "map_of d (e_id e) = Some fs" "entry_of fs = Some e"
    using a(1) by (auto simp: queued_def split: option.splits)
  obtain ok where ex: "exec k (write_meta_ops (e_id e) ?u) d = (ok, d')"
    and r: "r = (if ok then Some (Some ?u) else None)"
    using a(2,3) by (auto simp: defer_entry_def Let_def split: prod.splits)
  show ?thesis using exec_meta [OF fs(1) ex] fs(2) r by auto
qed

section \<open>One retry\<close>

definition attempt_result :: "relay \<Rightarrow> entry \<Rightarrow> string \<Rightarrow> (send_error + unit) outcome" where
  "attempt_result r e raw = fst (deliver (r_nets r) (r_mx r) (r_sender r) (e_from e) (e_to e) raw)"

lemma record_sel [simp]:
  "store (record_smtp_outbound ok q) = store q" "notices (record_smtp_outbound ok q) = notices q"
  "smtp_sent (record_smtp_outbound ok q) = smtp_sent q + (if ok then 1 else 0)"
  "smtp_failed (record_smtp_outbound ok q) = smtp_failed q + (if ok then 0 else 1)"
  by (simp_all add: record_smtp_outbound_def)

lemma report_sel [simp]:
  "store (report_failure r e s q) = store q" "smtp_sent (report_failure r e s q) = smtp_sent q"
  "smtp_failed (report_failure r e s q) = smtp_failed q"
  "notices (report_failure r e s q) = notices q @ new_notices r e s"
  by (simp_all add: report_failure_def new_notices_def split: option.split)

lemma retry_one_frame:
  assumes "retry_one k r e q = Ret q'" "disk_ok (store q)"
  shows "disk_ok (store q') \<and> (\<forall>j. j \<noteq> e_id e \<longrightarrow> map_of (store q') j = map_of (store q) j)"
proof -
  have rm: "disk_ok (snd (remove_entry k (e_id e) (store q))) \<and>
      (\<forall>j. j \<noteq> e_id e \<longrightarrow> map_of (snd (remove_entry k (e_id e) (store q))) j = map_of (store q) j)"
    using remove_entry_frame [of k "e_id e" "store q"] assms(2) by (metis prod.collapse)
  show ?thesis
    using assms rm defer_frame [of k "r_now r" e _ "store q"]
    by (auto simp: retry_one_def split: option.splits outcome.splits sum.splits if_splits prod.splits)
qed

definition accounted :: "relay \<Rightarrow> entry \<Rightarrow> string \<Rightarrow> queue_state \<Rightarrow> queue_state \<Rightarrow> bool" where
  "accounted r e raw q q' \<longleftrightarrow>
   (case attempt_result r e raw of
      Panic \<Rightarrow> False
    | Ret (Inr _) \<Rightarrow>
        map_of (store q') (e_id e) = None \<and> smtp_sent q' = smtp_sent q + 1 \<and>
        smtp_failed q' = smtp_failed q \<and> notices q' = notices q
    | Ret (Inl err) \<Rightarrow>
        smtp_sent q' = smtp_sent q \<and>
        (if classify err = Permanent \<or> backoff (attempts e + 1) = None then
           map_of (store q') (e_id e) = None \<and> smtp_failed q' = smtp_failed q + 1 \<and>
           notices q' = notices q @ new_notices r e (show_error (r_dbg r) err)
         else
           smtp_failed q' = smtp_failed q \<and> notices q' = notices q \<and>
           message_bytes (store q') (e_id e) = Some raw \<and>
           queued (store q') (e_id e) = Some (e\<lparr>attempts := attempts e + 1,
             next_attempt := r_now r + int (the (backoff (attempts e + 1))) * 1000,
             last_error := show_error (r_dbg r) err\<rparr>)))"

lemma retry_one_spec:
  "queued (store q) (e_id e) = Some e \<Longrightarrow> message_bytes (store q) (e_id e) = Some raw \<Longrightarrow>
   retry_one None r e q = Ret q' \<Longrightarrow> accounted r e raw q q'"
proof -
  assume a: "queued (store q) (e_id e) = Some e" "message_bytes (store q) (e_id e) = Some raw"
    "retry_one None r e q = Ret q'"
  obtain d1 where rm: "remove_entry None (e_id e) (store q) = (True, d1)" "map_of d1 (e_id e) = None"
    using remove_entry_done by blast
  obtain fs where fs: "map_of (store q) (e_id e) = Some fs"
    using a(1) by (auto simp: queued_def split: option.splits)
  show ?thesis
  proof (cases "attempt_result r e raw")
    case Panic
    then show ?thesis using a by (simp add: retry_one_def attempt_result_def accounted_def)
  next
    case (Ret x)
    show ?thesis
    proof (cases x)
      case (Inr u)
      then show ?thesis using Ret a rm by (auto simp: retry_one_def attempt_result_def accounted_def)
    next
      case (Inl err)
      show ?thesis
      proof (cases "classify err = Permanent")
        case True
        then show ?thesis using Inl Ret a rm by (auto simp: retry_one_def attempt_result_def accounted_def)
      next
        case notperm: False
        show ?thesis
        proof (cases "backoff (attempts e + 1)")
          case None
          then have "defer_entry None (r_now r) e (show_error (r_dbg r) err) (store q) = (Some None, d1)"
            using rm by (simp add: defer_entry_def)
          then show ?thesis
            using None notperm Inl Ret a rm by (auto simp: retry_one_def attempt_result_def accounted_def)
        next
          case (Some w)
          define u where "u = e\<lparr>attempts := attempts e + 1,
             next_attempt := r_now r + int w * 1000, last_error := show_error (r_dbg r) err\<rparr>"
          obtain d2 where d2: "exec None (write_meta_ops (e_id e) u) (store q) = (True, d2)"
            using fs by (simp add: write_meta_ops_def update_conv')
          then have "defer_entry None (r_now r) e (show_error (r_dbg r) err) (store q) = (Some (Some u), d2)"
            using Some by (simp add: defer_entry_def u_def Let_def)
          then have "q' = q\<lparr>store := d2\<rparr>"
            using a notperm Inl Ret by (simp add: retry_one_def attempt_result_def accounted_def)
          then show ?thesis
            using exec_meta [OF fs d2] a notperm Some Inl Ret by (simp add: u_def accounted_def)
        qed
      qed
    qed
  qed
qed

text \<open>
  Nothing queued is lost in silence. On a working disk, one retry of a queued message
  ends in one of three ways: the message was accepted, is counted as sent and leaves the
  queue; it was refused for good or the schedule is over, it is counted as failed, leaves the
  queue, and the sender's account, if it still exists and takes it, gets a notice that names the error; or
  it stays in the queue with the same bytes and envelope, one attempt more and a later time.
\<close>

theorem retry_accounts_for_message:
  "queued (store q) (e_id e) = Some e \<Longrightarrow> message_bytes (store q) (e_id e) = Some raw \<Longrightarrow>
   retry_one None r e q = Ret q' \<Longrightarrow>
   (case attempt_result r e raw of
      Panic \<Rightarrow> False
    | Ret (Inr _) \<Rightarrow>
        map_of (store q') (e_id e) = None \<and> smtp_sent q' = smtp_sent q + 1 \<and>
        smtp_failed q' = smtp_failed q \<and> notices q' = notices q
    | Ret (Inl err) \<Rightarrow>
        smtp_sent q' = smtp_sent q \<and>
        (if classify err = Permanent \<or> backoff (attempts e + 1) = None then
           map_of (store q') (e_id e) = None \<and> smtp_failed q' = smtp_failed q + 1 \<and>
           notices q' = notices q @ new_notices r e (show_error (r_dbg r) err)
         else
           smtp_failed q' = smtp_failed q \<and> notices q' = notices q \<and>
           message_bytes (store q') (e_id e) = Some raw \<and>
           queued (store q') (e_id e) = Some (e\<lparr>attempts := attempts e + 1,
             next_attempt := r_now r + int (the (backoff (attempts e + 1))) * 1000,
             last_error := show_error (r_dbg r) err\<rparr>)))"
  by (rule retry_one_spec [unfolded accounted_def])

section \<open>A pass over the queue\<close>

lemma in_map_filter: "y \<in> set (List.map_filter f xs) \<longleftrightarrow> (\<exists>x \<in> set xs. f x = Some y)"
  by (induction xs) (auto simp: map_filter_simps split: option.splits)

lemma set_load_all: "disk_ok d \<Longrightarrow> e \<in> set (load_all d) \<longleftrightarrow> queued d (e_id e) = Some e"
proof -
  assume ok: "disk_ok d"
  have "e \<in> set (load_all d) \<longleftrightarrow> (\<exists>i fs. (i, fs) \<in> set d \<and> entry_of fs = Some e)"
    by (auto simp: load_all_def in_map_filter intro!: bexI)
  also have "\<dots> \<longleftrightarrow> (\<exists>i fs. map_of d i = Some fs \<and> entry_of fs = Some e)"
    using ok by (auto simp: disk_ok_def)
  also have "\<dots> \<longleftrightarrow> (\<exists>fs. map_of d (e_id e) = Some fs \<and> entry_of fs = Some e)"
  proof -
    have "e_id e = i" if "map_of d i = Some fs" "entry_of fs = Some e" for i fs
      using disk_okD [OF ok that(1)] that(2)
      by (auto simp: dir_ok_def entry_of_def split: option.splits content.splits)
    then show ?thesis by auto
  qed
  finally show ?thesis by (auto simp: queued_def split: option.split)
qed

lemma distinct_load_all: "disk_ok d \<Longrightarrow> distinct (map e_id (load_all d))"
proof -
  assume ok: "disk_ok d"
  have "distinct (map fst d) \<Longrightarrow> (\<And>i fs. (i, fs) \<in> set d \<Longrightarrow> dir_ok i fs) \<Longrightarrow>
      distinct (map e_id (List.map_filter (\<lambda>(i, fs). entry_of fs) d)) \<and>
      set (map e_id (List.map_filter (\<lambda>(i, fs). entry_of fs) d)) \<subseteq> fst ` set d" for d
  proof (induction d)
    case (Cons p d)
    let ?es = "map e_id (List.map_filter (\<lambda>(i, fs). entry_of fs) d)"
    have id: "e_id e = fst p" if "entry_of (snd p) = Some e" for e
      using Cons.prems(2) [of "fst p" "snd p"] that
      by (auto simp: dir_ok_def entry_of_def split: option.splits content.splits)
    have "distinct (map fst d)" "fst p \<notin> fst ` set d" using Cons.prems(1) by auto
    moreover have "\<And>i fs. (i, fs) \<in> set d \<Longrightarrow> dir_ok i fs" using Cons.prems(2) by simp
    ultimately have IH: "distinct ?es" "set ?es \<subseteq> fst ` set d" "fst p \<notin> fst ` set d"
      using Cons.IH by auto
    show ?case
    proof (cases "entry_of (snd p)")
      case None
      then show ?thesis using IH by (cases p) (auto simp: map_filter_simps)
    next
      case (Some e)
      then have "map e_id (List.map_filter (\<lambda>(i, fs). entry_of fs) (p # d)) = fst p # ?es"
        using id by (cases p) (simp add: map_filter_simps)
      then show ?thesis using IH by (simp only:) auto
    qed
  qed (simp add: map_filter_simps)
  then have "distinct (map e_id (List.map_filter (\<lambda>(i, fs). entry_of fs) d))"
    using ok by (auto simp: disk_ok_def)
  moreover have "mset (map e_id (load_all d)) = mset (map e_id (List.map_filter (\<lambda>(i, fs). entry_of fs) d))"
    by (simp add: load_all_def)
  ultimately show ?thesis by (metis mset_eq_imp_distinct_iff)
qed

text \<open>What one pass may do to an entry, from the version \<open>e\<close> to what is queued after it.\<close>

definition advanced :: "relay \<Rightarrow> entry \<Rightarrow> entry option \<Rightarrow> bool" where
  "advanced r e after \<longleftrightarrow>
    (case after of
       None \<Rightarrow> True
     | Some e' \<Rightarrow>
         (\<exists>w s. backoff (attempts e + 1) = Some w \<and>
            e' = e\<lparr>attempts := attempts e + 1, next_attempt := r_now r + int w * 1000,
                   last_error := s\<rparr>))"

lemma retry_one_advances:
  assumes "queued (store q) (e_id e) = Some e" "retry_one None r e q = Ret q'"
  shows "advanced r e (queued (store q') (e_id e))"
proof (cases "message_bytes (store q) (e_id e)")
  case None
  obtain d1 where "remove_entry None (e_id e) (store q) = (True, d1)" "map_of d1 (e_id e) = None"
    using remove_entry_done by blast
  then show ?thesis
    using None assms by (auto simp: retry_one_def queued_def advanced_def)
next
  case (Some raw)
  have "accounted r e raw q q'" using retry_one_spec assms Some by blast
  then show ?thesis
    by (auto simp: accounted_def advanced_def queued_def
        split: outcome.splits sum.splits if_splits option.splits)
qed

lemma retry_all_advances:
  "retry_all None r es q = Ret q' \<Longrightarrow> disk_ok (store q) \<Longrightarrow> distinct (map e_id es) \<Longrightarrow>
   (\<And>e. e \<in> set es \<Longrightarrow> queued (store q) (e_id e) = Some e) \<Longrightarrow>
   disk_ok (store q') \<and>
   (\<forall>e \<in> set es. advanced r e (queued (store q') (e_id e))) \<and>
   (\<forall>j. j \<notin> e_id ` set es \<longrightarrow> map_of (store q') j = map_of (store q) j)"
proof (induction es arbitrary: q)
  case Nil
  then show ?case by simp
next
  case (Cons e es)
  obtain q1 where q1: "retry_one None r e q = Ret q1" "retry_all None r es q1 = Ret q'"
    using Cons.prems(1) by (auto simp: bind_out_Ret_iff)
  note f = retry_one_frame [OF q1(1) Cons.prems(2)]
  have "queued (store q1) (e_id x) = Some x" if "x \<in> set es" for x
  proof -
    have "e_id x \<noteq> e_id e" using Cons.prems(3) that by (metis distinct.simps(2) image_eqI list.set_map list.simps(9))
    then show ?thesis using f Cons.prems(4) [of x] that by (simp add: queued_def)
  qed
  then have IH: "disk_ok (store q')" "\<forall>x \<in> set es. advanced r x (queued (store q') (e_id x))"
      "\<forall>j. j \<notin> e_id ` set es \<longrightarrow> map_of (store q') j = map_of (store q1) j"
    using Cons.IH [OF q1(2)] f Cons.prems(3) by auto
  have "map_of (store q') (e_id e) = map_of (store q1) (e_id e)"
    using IH(3) Cons.prems(3) by auto
  moreover have "advanced r e (queued (store q1) (e_id e))"
    using retry_one_advances [OF _ q1(1)] Cons.prems(4) by simp
  ultimately show ?case
    using IH f by (auto simp: queued_def)
qed

lemma retry_pass_advances:
  assumes "retry_pass None r q = Ret q'" "disk_ok (store q)"
  shows "disk_ok (store q') \<and>
    (\<forall>i e. queued (store q) i = Some e \<longrightarrow>
       (if next_attempt e \<le> r_now r then advanced r e (queued (store q') i)
        else queued (store q') i = Some e \<and> message_bytes (store q') i = message_bytes (store q) i)) \<and>
    (\<forall>i. queued (store q) i = None \<longrightarrow> queued (store q') i = None)"
proof -
  let ?es = "due (store q) (r_now r)"
  have es: "e \<in> set ?es \<longleftrightarrow> queued (store q) (e_id e) = Some e \<and> next_attempt e \<le> r_now r" for e
    using set_load_all [OF assms(2), of e] by (auto simp: due_def)
  have id: "e_id e = i" if "queued (store q) i = Some e" for i e
    using that disk_okD [OF assms(2), of i]
    by (auto simp: queued_def dir_ok_def entry_of_def split: option.splits content.splits)
  have "distinct (map e_id ?es)"
    using distinct_load_all [OF assms(2)] by (simp add: due_def distinct_map_filter)
  from retry_all_advances [OF _ assms(2) this, of r q'] assms(1) es
  have r: "disk_ok (store q')" "\<forall>e \<in> set ?es. advanced r e (queued (store q') (e_id e))"
      "\<forall>j. j \<notin> e_id ` set ?es \<longrightarrow> map_of (store q') j = map_of (store q) j"
    by (auto simp: retry_pass_def)
  have notdue: "i \<notin> e_id ` set ?es" if "\<And>e. queued (store q) i = Some e \<Longrightarrow> r_now r < next_attempt e" for i
    using that es id by fastforce
  show ?thesis
  proof (intro conjI allI impI)
    show "disk_ok (store q')" by (rule r(1))
  next
    fix i e assume q: "queued (store q) i = Some e"
    show "if next_attempt e \<le> r_now r then advanced r e (queued (store q') i)
        else queued (store q') i = Some e \<and> message_bytes (store q') i = message_bytes (store q) i"
      using r(2) es id [OF q] q notdue [of i] r(3) message_other [of "store q'" i "store q"]
      by auto
  next
    fix i assume q: "queued (store q) i = None"
    then show "queued (store q') i = None"
      using notdue [of i] r(3) by (auto simp: queued_def)
  qed
qed

section \<open>The queue empties\<close>

definition longest_wait :: int where
  "longest_wait = 28800 * 1000"

lemma backoff_bound: "backoff n = Some w \<Longrightarrow> int w * 1000 \<le> longest_wait"
proof -
  assume "backoff n = Some w"
  then have "unat n - 1 < length schedule_secs" and "w = schedule_secs ! (unat n - 1)"
    by (auto simp: backoff_Some schedule_secs_def)
  then have "w \<in> set schedule_secs" by (simp add: nth_mem)
  then show ?thesis by (auto simp: schedule_secs_def longest_wait_def)
qed

text \<open>Passes at these times: the first after \<open>t\<close>, each long enough after the one before.\<close>

fun spaced :: "int \<Rightarrow> relay list \<Rightarrow> bool" where
  "spaced t [] = True"
| "spaced t (r # rs) = (t \<le> r_now r \<and> spaced (r_now r + longest_wait) rs)"

definition tried :: "nat \<Rightarrow> int \<Rightarrow> queue_state \<Rightarrow> bool" where
  "tried k t q \<longleftrightarrow> disk_ok (store q) \<and>
    (\<forall>i e. queued (store q) i = Some e \<longrightarrow>
       k \<le> unat (attempts e) \<and> unat (attempts e) \<le> 7 \<and> next_attempt e \<le> t)"

lemma tried_pass:
  assumes "tried k t q" "t \<le> r_now r" "retry_pass None r q = Ret q'"
  shows "tried (Suc k) (r_now r + longest_wait) q'"
proof -
  have ok: "disk_ok (store q)" using assms(1) by (simp add: tried_def)
  note a = retry_pass_advances [OF assms(3) ok]
  show ?thesis
    unfolding tried_def
  proof (intro conjI allI impI)
    show "disk_ok (store q')" using a by simp
    fix i e' assume e': "queued (store q') i = Some e'"
    then obtain e where e: "queued (store q) i = Some e"
      using a by (cases "queued (store q) i") auto
    then have t: "k \<le> unat (attempts e)" "unat (attempts e) \<le> 7" "next_attempt e \<le> t"
      using assms(1) by (auto simp: tried_def)
    then have "next_attempt e \<le> r_now r" using assms(2) by linarith
    then have "advanced r e (Some e')" using a e e' by fastforce
    then obtain w where w: "backoff (attempts e + 1) = Some w" "attempts e' = attempts e + 1"
        "next_attempt e' = r_now r + int w * 1000"
      by (auto simp: advanced_def)
    then show "Suc k \<le> unat (attempts e')" "unat (attempts e') \<le> 7"
        "next_attempt e' \<le> r_now r + longest_wait"
      using t unat_suc_le7 [OF t(2)] backoff_bound [OF w(1)] by (auto simp: backoff_Some)
  qed
qed

lemma tried_passes:
  "tried k t q \<Longrightarrow> spaced t rs \<Longrightarrow> retry_passes (map (\<lambda>r. (None, r)) rs) q = Ret q' \<Longrightarrow>
   \<exists>t'. tried (k + length rs) t' q'"
proof (induction rs arbitrary: k t q)
  case Nil
  then show ?case by auto
next
  case (Cons r rs)
  then obtain q1 where q1: "retry_pass None r q = Ret q1" "retry_passes (map (\<lambda>r. (None, r)) rs) q1 = Ret q'"
    by (auto simp: bind_out_Ret_iff)
  from Cons.IH [OF tried_pass [OF Cons.prems(1) _ q1(1)] _ q1(2)] Cons.prems(2)
  show ?case by simp
qed

text \<open>
  The queue empties. Take any queue whose entries have between one and seven attempts
  behind them, and seven passes, the first when everything is due and each at least the longest
  wait after the one before: whatever the receiving servers answer, afterwards nothing is
  queued any more, provided the disk works and no reply kills the task.
\<close>

theorem queue_empties:
  "tried 1 t q \<Longrightarrow> spaced t rs \<Longrightarrow> length rs = 7 \<Longrightarrow>
   retry_passes (map (\<lambda>r. (None, r)) rs) q = Ret q' \<Longrightarrow> queued (store q') i = None"
proof -
  assume "tried 1 t q" "spaced t rs" "length rs = 7" "retry_passes (map (\<lambda>r. (None, r)) rs) q = Ret q'"
  from tried_passes [OF this(1,2,4)] this(3) obtain t' where "tried 8 t' q'" by auto
  then show ?thesis
    by (cases "queued (store q') i") (auto simp: tried_def dest!: spec [of _ i])
qed

section \<open>Submission\<close>

text \<open>
  The end of \<open>outbound.rs\<close>'s \<open>send\<close>: try now, and on a temporary failure take responsibility.
  \<open>raw\<close> is the built and signed message, \<open>mid\<close> its Message-ID.
\<close>

datatype send_outcome = Sent "string option" | Queued

fun activity_result :: "send_outcome \<Rightarrow> string" where
  "activity_result (Sent m) = ''ok''"
| "activity_result Queued = ''queued''"

definition outbound_send ::
  "fault \<Rightarrow> relay \<Rightarrow> string \<Rightarrow> string \<Rightarrow> string \<Rightarrow> string list \<Rightarrow> string \<Rightarrow> disk
   \<Rightarrow> (string + send_outcome) outcome \<times> disk" where
  "outbound_send k r i mid from to raw d =
    (if to = [] then (Ret (Inl ''no recipients''), d)
     else
       (case fst (deliver (r_nets r) (r_mx r) (r_sender r) from to raw) of
          Panic \<Rightarrow> (Panic, d)
        | Ret (Inr _) \<Rightarrow> (Ret (Inr (Sent (Some mid))), d)
        | Ret (Inl e) \<Rightarrow>
            (case classify e of
               Permanent \<Rightarrow> (Ret (Inl (show_error (r_dbg r) e)), d)
             | Temporary \<Rightarrow>
                 (case enqueue k i (r_now r) from to raw (show_error (r_dbg r) e) d of
                    (Some entry, d') \<Rightarrow> (Ret (Inr Queued), d')
                  | (None, d') \<Rightarrow> (Ret (Inl (show_error (r_dbg r) e)), d')))))"

lemma enqueue_works:
  "map_of d i = None \<Longrightarrow> \<exists>d'. enqueue None i now from to raw error d = (Some (new_entry i now from to error), d')"
  by (simp add: enqueue_def write_meta_ops_def Let_def update_conv')

text \<open>
  C25. A temporary failure makes the submission succeed and leaves the message in the queue,
  whole and due after the first wait. The queued envelope names every recipient, also those
  of the domains that have already accepted the message in this attempt: they are sent it
  again on every retry.
\<close>

theorem temporary_failure_requeues_everyone:
  "deliver (r_nets r) (r_mx r) (r_sender r) from to raw = (Ret (Inl e), as) \<Longrightarrow>
   classify e = Temporary \<Longrightarrow> relay_host (r_sender r) = None \<Longrightarrow> map_of d i = None \<Longrightarrow>
   \<exists>d' entry. outbound_send None r i mid from to raw d = (Ret (Inr Queued), d') \<and>
     queued d' i = Some entry \<and> message_bytes d' i = Some raw \<and> e_from entry = from \<and>
     next_attempt entry = r_now r + 60000 \<and> e_to entry = to \<and>
     (\<forall>(domain, l, s) \<in> set as. set l \<subseteq> set (e_to entry))"
proof -
  assume a: "deliver (r_nets r) (r_mx r) (r_sender r) from to raw = (Ret (Inl e), as)"
    "classify e = Temporary" "relay_host (r_sender r) = None" "map_of d i = None"
  have to: "to \<noteq> []" using a(1,2) by (auto simp: deliver_def)
  let ?en = "new_entry i (r_now r) from to (show_error (r_dbg r) e)"
  obtain d' where d': "enqueue None i (r_now r) from to raw (show_error (r_dbg r) e) d = (Some ?en, d')"
    using enqueue_works [of d i, OF a(4)] by blast
  have q: "queued d' i = Some ?en \<and> message_bytes d' i = Some raw"
  proof -
    have "exec None (write_meta_ops i ?en) (AList.update i (AList.update Eml (Raw raw) []) (AList.update i [] d))
        = (True, d')"
      using d' a(4) by (auto simp: enqueue_def Let_def update_conv' write_meta_ops_def split: if_splits option.splits)
    from exec_meta [OF _ this, of "[(Eml, Raw raw)]"] show ?thesis
      by (simp add: message_bytes_def update_conv')
  qed
  obtain m where m: "group_by_domain [] to = Inr m \<or> as = []"
      "as \<noteq> [] \<longrightarrow> send_domains (r_nets r) (r_mx r) (s_hostname (r_sender r)) from raw None m = (Ret (Inl e), as)"
    using a(1,3) to by (auto simp: deliver_def split: sum.splits)
  have "set l \<subseteq> set to" if "(domain, l, s) \<in> set as" for domain l s
  proof -
    have ne: "as \<noteq> []" using that by auto
    then have "map (\<lambda>(d, l, s). (d, l)) as = filter (\<lambda>(d, l). r_mx r d \<noteq> []) m"
      using m(2) send_domains_all [of _ _ _ _ _ None m "Ret (Inl e)" as] by simp
    moreover have "(domain, l) \<in> set (map (\<lambda>(d, l, s). (d, l)) as)" using that by force
    ultimately have "(domain, l) \<in> set m" by simp
    moreover have "mset (concat (map snd m)) = mset to"
      using m(1) ne group_by_domain_ok [of "[]" to m] by (auto simp: groups_ok_def)
    ultimately show ?thesis
      by (metis UN_upper image_eqI mset_eq_setD prod.sel(2) set_concat set_map)
  qed
  then show ?thesis
    using a to d' q by (auto simp: outbound_send_def new_entry_def schedule_values)
qed

section \<open>Witnesses\<close>

definition demo_relay :: "int \<Rightarrow> relay" where
  "demo_relay now = \<lparr>r_sender = demo_sender, r_nets = (\<lambda>_. demo_net demo_ok), r_mx = demo_mx,
     r_now = now, r_date = [], r_dbg = (\<lambda>s. s), r_resolve = Some, r_filed = (\<lambda>_ _. True)\<rparr>"

theorem enqueue_crash_safe_witness:
  "\<exists>r d'. enqueue (Some (2, ''torn'')) ''i'' 0 ''f@g'' [''u@c''] ''m'' ''e'' [] = (r, d') \<and>
     disk_ok d' \<and> r = None \<and> queued d' ''i'' = None"
proof -
  obtain r d' where e: "enqueue (Some (2, ''torn'')) ''i'' 0 ''f@g'' [''u@c''] ''m'' ''e'' [] = (r, d')"
    by fastforce
  then have "r = None" "queued d' ''i'' = None"
    by (auto simp: enqueue_def write_meta_ops_def queued_def entry_of_def Let_def numeral_2_eq_2)
  moreover have "disk_ok d'"
    using enqueue_crash_safe [OF _ _ e] by (simp add: disk_ok_def)
  ultimately show ?thesis using e by blast
qed

definition demo_entry :: entry where
  "demo_entry = \<lparr>e_id = ''i'', e_from = ''f@g'', e_to = [''v@d''], attempts = 1, next_attempt = 5,
     first_queued = 0, last_error = []\<rparr>"

definition demo_disk :: disk where
  "demo_disk = [(''i'', [(Eml, Raw ''m''), (Meta, Json demo_entry)])]"

lemma demo_disk_facts:
  "queued demo_disk ''i'' = Some demo_entry" "message_bytes demo_disk ''i'' = Some ''m''"
  "e_id demo_entry = ''i''" "attempts demo_entry = 1" "disk_ok demo_disk"
  by (auto simp: demo_disk_def queued_def entry_of_def message_bytes_def demo_entry_def disk_ok_def
      dir_ok_def split: if_splits)

theorem defer_crash_safe_witness:
  "\<exists>d'. defer_entry (Some (1, ''torn'')) 9 demo_entry ''e'' demo_disk = (None, d') \<and>
     message_bytes d' ''i'' = Some ''m'' \<and> queued d' ''i'' = Some demo_entry"
proof -
  have b: "backoff (attempts demo_entry + 1) = Some 300"
    by (simp add: demo_disk_facts schedule_values)
  obtain d' where d: "defer_entry (Some (1, ''torn'')) 9 demo_entry ''e'' demo_disk = (None, d')"
    using b by (auto simp: defer_entry_def write_meta_ops_def Let_def demo_disk_def demo_entry_def update_conv')
  from defer_crash_safe [OF _ b d] demo_disk_facts show ?thesis using d by simp
qed

lemma no_mx_fails: "relay_host sn = None \<Longrightarrow> deliver nets (\<lambda>_. []) sn from to raw \<noteq> (Panic, as)"
proof -
  have "fst (send_domains nets (\<lambda>_. []) host from raw err ds) \<noteq> Panic" for host err ds
    by (induction ds arbitrary: err) (auto split: option.splits)
  then show "relay_host sn = None \<Longrightarrow> ?thesis"
    by (auto simp: deliver_def split: sum.splits) (metis fst_conv)
qed

lemma demo_attempt: "attempt_result (demo_relay 7) demo_entry raw = Ret (Inl (NoMx ''d''))"
  by (simp add: attempt_result_def demo_relay_def demo_entry_def deliver_def demo_sender_def demo_mx_def eval)

definition demo_queue :: queue_state where
  "demo_queue = \<lparr>store = demo_disk, smtp_sent = 0, smtp_failed = 0, notices = []\<rparr>"

theorem retry_accounts_for_message_witness:
  "\<exists>q'. retry_one None (demo_relay 7) demo_entry demo_queue = Ret q' \<and>
     message_bytes (store q') ''i'' = Some ''m'' \<and>
     queued (store q') ''i'' = Some (demo_entry\<lparr>attempts := 2, next_attempt := 7 + 300 * 1000,
        last_error := ''no MX for d''\<rparr>)"
proof -
  have "retry_one None (demo_relay 7) demo_entry demo_queue \<noteq> Panic"
    using demo_attempt [of "''m''"] demo_disk_facts
    by (auto simp: retry_one_def attempt_result_def demo_queue_def split: option.splits prod.splits)
  then obtain q' where q: "retry_one None (demo_relay 7) demo_entry demo_queue = Ret q'"
    by (cases "retry_one None (demo_relay 7) demo_entry demo_queue") auto
  have s: "store demo_queue = demo_disk" "r_now (demo_relay 7) = 7" by (simp_all add: demo_queue_def demo_relay_def)
  from retry_accounts_for_message [OF _ _ q, of "''m''"] demo_attempt [of "''m''"] demo_disk_facts s q
  show ?thesis by (simp add: schedule_values)
qed

lemma passes_without_mx:
  "\<forall>r \<in> set rs. r_mx r = (\<lambda>_. []) \<and> relay_host (r_sender r) = None \<Longrightarrow>
   \<exists>q'. retry_passes (map (\<lambda>r. (None, r)) rs) q = Ret q'"
proof (induction rs arbitrary: q)
  case (Cons r rs)
  have one: "retry_one None r e q \<noteq> Panic" for e q
  proof -
    have "fst (deliver (r_nets r) (\<lambda>_. []) (r_sender r) (e_from e) (e_to e) raw) \<noteq> Panic" for raw
      using no_mx_fails [of "r_sender r"] Cons.prems by (metis list.set_intros(1) prod.collapse)
    then show ?thesis
      using Cons.prems
      by (auto simp: retry_one_def split: option.splits outcome.splits sum.splits prod.splits)
  qed
  have "\<exists>q'. retry_all None r es q = Ret q'" for es q
  proof (induction es arbitrary: q)
    case (Cons e es)
    then show ?case using one [of e q] by (cases "retry_one None r e q") auto
  qed simp
  then obtain q1 where "retry_pass None r q = Ret q1" by (auto simp: retry_pass_def)
  then show ?case using Cons by simp
qed simp

definition demo_passes :: "relay list" where
  "demo_passes = map (\<lambda>n. (demo_relay (int n * longest_wait))\<lparr>r_mx := (\<lambda>_. [])\<rparr>) [1, 2, 3, 4, 5, 6, 7]"

theorem queue_empties_witness:
  "\<exists>q'. retry_passes (map (\<lambda>r. (None, r)) demo_passes) demo_queue = Ret q' \<and>
     queued (store demo_queue) ''i'' = Some demo_entry \<and> queued (store q') ''i'' = None"
proof -
  have "\<exists>q'. retry_passes (map (\<lambda>r. (None, r)) demo_passes) demo_queue = Ret q'"
    by (rule passes_without_mx) (simp add: demo_passes_def demo_relay_def demo_sender_def)
  then obtain q' where q: "retry_passes (map (\<lambda>r. (None, r)) demo_passes) demo_queue = Ret q'" by blast
  have "queued demo_disk j = (if j = ''i'' then Some demo_entry else None)" for j
    using demo_disk_facts(1) by (auto simp: queued_def demo_disk_def entry_of_def)
  then have t: "tried 1 5 demo_queue"
    using demo_disk_facts by (auto simp: tried_def demo_queue_def demo_entry_def)
  have "spaced 5 demo_passes" by (simp add: demo_passes_def demo_relay_def longest_wait_def)
  from queue_empties [OF t this _ q, of "''i''"] q demo_disk_facts show ?thesis
    by (simp add: demo_passes_def demo_queue_def)
qed

theorem temporary_failure_requeues_everyone_witness:
  "\<exists>d' entry. outbound_send None (demo_relay 7) ''i'' ''id'' ''f@g'' [''v@d'', ''u@c''] ''m'' [] = (Ret (Inr Queued), d') \<and>
     queued d' ''i'' = Some entry \<and> e_to entry = [''v@d'', ''u@c'']"
proof -
  have "deliver (r_nets (demo_relay 7)) (r_mx (demo_relay 7)) (r_sender (demo_relay 7)) ''f@g'' [''v@d'', ''u@c''] ''m''
    = (Ret (Inl (NoMx ''d'')), [(''c'', [''u@c''],
        send_one (demo_net demo_ok) ''h'' (target_of ''mx.c.'') ''f@g'' [''u@c''] ''m'')])"
    using demo_deliver_partial by (simp add: demo_relay_def)
  from temporary_failure_requeues_everyone [OF this, of "[]" "''i''" "''id''"] show ?thesis
    by (auto simp: demo_relay_def demo_sender_def)
qed

end
