(* ===== verification/Json.thy ===== *)
theory Json
  imports BTree "HOL-Library.Monad_Syntax"
begin

text \<open>
  JSON values and the decoding rules of serde's derived code, as the JMAP types and methods
  use them. Text is not modelled: a file or a request body is the value it parses to. An
  object is a sorted map (\<open>serde_json\<close> without \<open>preserve_order\<close>); an integer is a \<open>JNum\<close>, any
  other number a \<open>JFlt\<close> kept as its text.
\<close>

datatype json =
    JNull
  | JBool bool
  | JNum int
  | JFlt string
  | JStr string
  | JArr "json list"
  | JObj "(string \<times> json) list"

type_synonym jobj = "(string, json) btree"

text \<open>\<open>Value::as_object\<close>, \<open>as_array\<close>, \<open>as_str\<close>.\<close>

definition as_object :: "json \<Rightarrow> jobj option" where
  "as_object j = (case j of JObj o' \<Rightarrow> Some o' | _ \<Rightarrow> None)"

definition as_array :: "json \<Rightarrow> json list option" where
  "as_array j = (case j of JArr xs \<Rightarrow> Some xs | _ \<Rightarrow> None)"

definition as_str :: "json \<Rightarrow> string option" where
  "as_str j = (case j of JStr s \<Rightarrow> Some s | _ \<Rightarrow> None)"

definition get_str :: "jobj \<Rightarrow> string \<Rightarrow> string option" where
  "get_str o' k = Option.bind (bt_get o' k) as_str"

text \<open>\<open>json!({..})\<close>: an object literal.\<close>

definition obj :: "(string \<times> json) list \<Rightarrow> json" where
  "obj kvs = JObj (bt_of kvs)"

section \<open>Scalars and containers\<close>

definition dec_str :: "json \<Rightarrow> string option" where
  "dec_str j = as_str j"

definition dec_bool :: "json \<Rightarrow> bool option" where
  "dec_bool j = (case j of JBool b \<Rightarrow> Some b | _ \<Rightarrow> None)"

definition dec_i64 :: "json \<Rightarrow> int option" where
  "dec_i64 j = (case j of JNum i \<Rightarrow> if - (2 ^ 63) \<le> i \<and> i < 2 ^ 63 then Some i else None | _ \<Rightarrow> None)"

definition dec_u64 :: "json \<Rightarrow> nat option" where
  "dec_u64 j = (case j of JNum i \<Rightarrow> if 0 \<le> i \<and> i < 2 ^ 64 then Some (nat i) else None | _ \<Rightarrow> None)"

definition dec_opt :: "(json \<Rightarrow> 'a option) \<Rightarrow> json \<Rightarrow> 'a option option" where
  "dec_opt d j = (if j = JNull then Some None else map_option Some (d j))"

definition dec_vec :: "(json \<Rightarrow> 'a option) \<Rightarrow> json \<Rightarrow> 'a list option" where
  "dec_vec d j = (case j of JArr xs \<Rightarrow> sequence_opt (map d xs) | _ \<Rightarrow> None)"

definition dec_map :: "(json \<Rightarrow> 'a option) \<Rightarrow> json \<Rightarrow> (string, 'a) btree option" where
  "dec_map d j =
    (case j of JObj o' \<Rightarrow> sequence_opt (map (\<lambda>(k, v). map_option (Pair k) (d v)) o') | _ \<Rightarrow> None)"

definition enc_vec :: "('a \<Rightarrow> json) \<Rightarrow> 'a list \<Rightarrow> json" where
  "enc_vec e xs = JArr (map e xs)"

definition enc_map :: "('a \<Rightarrow> json) \<Rightarrow> (string, 'a) btree \<Rightarrow> json" where
  "enc_map e m = JObj (map (\<lambda>(k, v). (k, e v)) m)"

definition enc_u64 :: "nat \<Rightarrow> json" where
  "enc_u64 n = JNum (int n)"

lemma dec_scalar [simp]:
  "dec_str (JStr s) = Some s" "dec_bool (JBool b) = Some b" "dec_str JNull = None"
  "dec_bool JNull = None" "dec_i64 JNull = None" "dec_u64 JNull = None"
  "n < 2 ^ 64 \<Longrightarrow> dec_u64 (enc_u64 n) = Some n"
  "- (2 ^ 63) \<le> i \<Longrightarrow> i < 2 ^ 63 \<Longrightarrow> dec_i64 (JNum i) = Some i"
  "dec_vec d JNull = None" "dec_map d' JNull = None"
  by (simp_all add: dec_str_def as_str_def dec_bool_def dec_i64_def dec_u64_def enc_u64_def
      dec_vec_def dec_map_def)

lemma dec_opt_Some: "e x \<noteq> JNull \<Longrightarrow> d (e x) = Some x \<Longrightarrow> dec_opt d (e x) = Some (Some x)"
  by (simp add: dec_opt_def)

lemma dec_enc_vec: "(\<And>x. x \<in> set xs \<Longrightarrow> d (e x) = Some x) \<Longrightarrow> dec_vec d (enc_vec e xs) = Some xs"
  by (simp add: dec_vec_def enc_vec_def comp_def sequence_opt_map_enc)

lemma dec_enc_map:
  "(\<And>k v. (k, v) \<in> set m \<Longrightarrow> d (e v) = Some v) \<Longrightarrow> dec_map d (enc_map e m) = Some m"
proof -
  assume h: "\<And>k v. (k, v) \<in> set m \<Longrightarrow> d (e v) = Some v"
  have "sequence_opt (map (\<lambda>p. map_option (Pair (fst p)) (d (e (snd p)))) m) = Some m"
    by (rule sequence_opt_map_enc [of _ "\<lambda>p. map_option (Pair (fst p)) (d (snd p))"
          "\<lambda>p. (fst p, e (snd p))", simplified]) (auto simp: h)
  then show ?thesis by (simp add: dec_map_def enc_map_def comp_def case_prod_beta)
qed

section \<open>Structs\<close>

text \<open>
  A derived struct of \<open>n\<close> fields decodes from an object by name, or from an array of at most
  \<open>n\<close> elements by position; unknown names are ignored. \<open>fld\<close> is a field marked
  \<open>#[serde(default)]\<close>: absent gives the default, present must decode.
\<close>

definition struct_ok :: "nat \<Rightarrow> json \<Rightarrow> bool" where
  "struct_ok n j = (case j of JObj _ \<Rightarrow> True | JArr xs \<Rightarrow> length xs \<le> n | _ \<Rightarrow> False)"

definition field :: "json \<Rightarrow> nat \<Rightarrow> string \<Rightarrow> json option" where
  "field j i n =
    (case j of
       JObj o' \<Rightarrow> bt_get o' n
     | JArr xs \<Rightarrow> if i < length xs then Some (xs ! i) else None
     | _ \<Rightarrow> None)"

definition fld :: "json \<Rightarrow> nat \<Rightarrow> string \<Rightarrow> (json \<Rightarrow> 'a option) \<Rightarrow> 'a \<Rightarrow> 'a option" where
  "fld j i n d def = (case field j i n of None \<Rightarrow> Some def | Some v \<Rightarrow> d v)"

lemma fld_cong [fundef_cong]:
  "j = j' \<Longrightarrow> i = i' \<Longrightarrow> n = n' \<Longrightarrow> def = def' \<Longrightarrow>
   (\<And>v. field j' i' n' = Some v \<Longrightarrow> d v = d' v) \<Longrightarrow> fld j i n d def = fld j' i' n' d' def'"
  by (simp add: fld_def split: option.split)

lemma dec_vec_cong [fundef_cong]:
  "j = j' \<Longrightarrow> (\<And>xs x. j' = JArr xs \<Longrightarrow> x \<in> set xs \<Longrightarrow> d x = d' x) \<Longrightarrow> dec_vec d j = dec_vec d' j'"
  by (auto simp: dec_vec_def split: json.split intro: arg_cong [where f = sequence_opt])

lemma size_field: "field j i n = Some v \<Longrightarrow> size v < size j"
proof (cases j)
  case (JArr xs)
  assume "field j i n = Some v"
  then have "v \<in> set xs" using JArr by (auto simp: field_def split: if_splits)
  then show ?thesis using JArr size_list_estimation' [of v xs "size v" size] by (simp add: less_Suc_eq_le)
next
  case (JObj o')
  assume "field j i n = Some v"
  then have "(n, v) \<in> set o'" using JObj by (auto simp: field_def intro: bt_get_in_set)
  then have "size v \<le> size_list (size_prod (\<lambda>_. 0) size) o'"
    by (intro size_list_estimation' [of "(n, v)"]) simp_all
  then show ?thesis using JObj by (simp add: less_Suc_eq_le)
qed (simp_all add: field_def)

lemma size_elem: "x \<in> set xs \<Longrightarrow> size x < size (JArr xs)"
  using size_list_estimation' [of x xs "size x" size] by (simp add: less_Suc_eq_le)

text \<open>Serialising with \<open>skip_serializing_if\<close>: \<open>None\<close> marks a skipped field.\<close>

definition struct :: "(string \<times> json option) list \<Rightarrow> json" where
  "struct fs = JObj (bt_of (List.map_filter (\<lambda>(n, v). map_option (Pair n) v) fs))"

definition unless :: "bool \<Rightarrow> json \<Rightarrow> json option" where
  "unless skip j = (if skip then None else Some j)"

lemma map_of_map_filter:
  "distinct (map fst fs) \<Longrightarrow>
   map_of (rev (List.map_filter (\<lambda>(n, v). map_option (Pair n) v) fs)) n
   = Option.bind (map_of fs n) (\<lambda>v. v)"
proof (induction fs)
  case Nil
  then show ?case by (simp add: map_filter_simps)
next
  case (Cons p fs)
  obtain m v where p: "p = (m, v)" by fastforce
  have "m = n \<Longrightarrow> map_of fs n = None"
    using Cons.prems p by (simp add: map_of_eq_None_iff)
  then show ?case
    using Cons p by (auto simp: map_filter_simps map_add_def split: option.splits)
qed

lemma field_struct:
  "distinct (map fst fs) \<Longrightarrow> field (struct fs) i n = Option.bind (map_of fs n) (\<lambda>v. v)"
  by (simp add: field_def struct_def bt_get_of map_of_map_filter)

lemma struct_ok_struct [simp]: "struct_ok k (struct fs)"
  by (simp add: struct_ok_def struct_def)

lemma struct_neq_null [simp]: "struct fs \<noteq> JNull"
  by (simp add: struct_def)

text \<open>Reading back a field of a struct, by its entry in the list.\<close>

lemma fld_struct:
  "distinct (map fst fs) \<Longrightarrow>
   fld (struct fs) i n d def = (case Option.bind (map_of fs n) (\<lambda>v. v) of None \<Rightarrow> Some def | Some v \<Rightarrow> d v)"
  by (simp add: fld_def field_struct)

lemma case_unless:
  "(case unless s j of None \<Rightarrow> a | Some v \<Rightarrow> f v) = (if s then a else f j)"
  by (simp add: unless_def)

lemma skip_default:
  "(x \<noteq> c \<Longrightarrow> g = Some x) \<Longrightarrow> (if x = c then Some c else g) = Some x"
  "(b \<Longrightarrow> h = Some b) \<Longrightarrow> (if \<not> b then Some False else h) = Some b"
  by auto

lemma skip_none:
  "e (the t) \<noteq> JNull \<Longrightarrow> (t \<noteq> None \<Longrightarrow> d (e (the t)) = Some (the t)) \<Longrightarrow>
   (if t = None then Some None else dec_opt d (e (the t))) = Some t"
  by (cases t) (simp_all add: dec_opt_def)

text \<open>The simplification set of the round trips.\<close>

lemmas roundtrip = case_unless skip_default skip_none dec_enc_vec dec_enc_map

declare as_object_def [eval] as_array_def [eval] as_str_def [eval] get_str_def [eval] obj_def [eval]
  dec_str_def [eval] dec_bool_def [eval] dec_i64_def [eval] dec_u64_def [eval] dec_opt_def [eval]
  dec_vec_def [eval] dec_map_def [eval] struct_ok_def [eval] field_def [eval] fld_def [eval]
  enc_vec_def [eval] enc_map_def [eval] enc_u64_def [eval] struct_def [eval] unless_def [eval]
  map_filter_simps [eval]

end
