(* ===== verification/JmapTypes.thy ===== *)
theory JmapTypes
  imports Json
begin

text \<open>
  The JMAP objects of \<open>crates/jmap-types/src\<close> with their derived serialisation: every field
  has a default, and every field but \<open>BodyValue::is_truncated\<close> is omitted when it holds it.
  The names on the left of each encoder are the JSON names. A timestamp is kept as the string
  it arrived as. The round trips state that what is written is read back unchanged.
\<close>

section \<open>Addresses, headers and bodies\<close>

record header =
  h_name :: string
  h_value :: string

definition header_fields :: "header \<Rightarrow> (string \<times> json option) list" where
  "header_fields h =
    [(''name'', unless (h_name h = []) (JStr (h_name h))),
     (''value'', unless (h_value h = []) (JStr (h_value h)))]"

definition enc_header :: "header \<Rightarrow> json" where
  "enc_header h = struct (header_fields h)"

definition dec_header :: "json \<Rightarrow> header option" where
  "dec_header j =
    (if \<not> struct_ok 2 j then None
     else do {
       x0 \<leftarrow> fld j 0 ''name'' dec_str [];
       x1 \<leftarrow> fld j 1 ''value'' dec_str [];
       Some \<lparr>h_name = x0, h_value = x1\<rparr>
     })"

record address =
  a_name :: string
  a_email :: string

definition address_fields :: "address \<Rightarrow> (string \<times> json option) list" where
  "address_fields a =
    [(''name'', unless (a_name a = []) (JStr (a_name a))),
     (''email'', unless (a_email a = []) (JStr (a_email a)))]"

definition enc_address :: "address \<Rightarrow> json" where
  "enc_address a = struct (address_fields a)"

definition dec_address :: "json \<Rightarrow> address option" where
  "dec_address j =
    (if \<not> struct_ok 2 j then None
     else do {
       x0 \<leftarrow> fld j 0 ''name'' dec_str [];
       x1 \<leftarrow> fld j 1 ''email'' dec_str [];
       Some \<lparr>a_name = x0, a_email = x1\<rparr>
     })"

record body_value =
  bv_value :: string
  bv_encoding_problem :: bool
  bv_truncated :: bool

definition body_value_fields :: "body_value \<Rightarrow> (string \<times> json option) list" where
  "body_value_fields b =
    [(''value'', unless (bv_value b = []) (JStr (bv_value b))),
     (''isEncodingProblem'', unless (\<not> bv_encoding_problem b) (JBool (bv_encoding_problem b))),
     (''isTruncated'', Some (JBool (bv_truncated b)))]"

definition enc_body_value :: "body_value \<Rightarrow> json" where
  "enc_body_value b = struct (body_value_fields b)"

definition dec_body_value :: "json \<Rightarrow> body_value option" where
  "dec_body_value j =
    (if \<not> struct_ok 3 j then None
     else do {
       x0 \<leftarrow> fld j 0 ''value'' dec_str [];
       x1 \<leftarrow> fld j 1 ''isEncodingProblem'' dec_bool False;
       x2 \<leftarrow> fld j 2 ''isTruncated'' dec_bool False;
       Some \<lparr>bv_value = x0, bv_encoding_problem = x1, bv_truncated = x2\<rparr>
     })"

definition body_value_default :: body_value where
  "body_value_default = \<lparr>bv_value = [], bv_encoding_problem = False, bv_truncated = False\<rparr>"

text \<open>A body part holds body parts, so it is a datatype with the struct's fields as selectors.\<close>

datatype body_part = BodyPart
  (part_id: string)
  (p_blob_id: string)
  (p_size: nat)
  (p_headers: "header list")
  (p_name: string)
  (p_type: string)
  (charset: string)
  (disposition: string)
  (cid: string)
  (language: "string list")
  (location: string)
  (sub_parts: "body_part list")

fun enc_part :: "body_part \<Rightarrow> json" where
  "enc_part (BodyPart i bl sz hs nm ty ch di ci la lo ps) =
    struct
     [(''partId'', unless (i = []) (JStr i)), (''blobId'', unless (bl = []) (JStr bl)),
      (''size'', unless (sz = 0) (enc_u64 sz)),
      (''headers'', unless (hs = []) (enc_vec enc_header hs)),
      (''name'', unless (nm = []) (JStr nm)), (''type'', unless (ty = []) (JStr ty)),
      (''charset'', unless (ch = []) (JStr ch)), (''disposition'', unless (di = []) (JStr di)),
      (''cid'', unless (ci = []) (JStr ci)),
      (''language'', unless (la = []) (enc_vec JStr la)),
      (''location'', unless (lo = []) (JStr lo)),
      (''subParts'', unless (ps = []) (JArr (map enc_part ps)))]"

function dec_part :: "json \<Rightarrow> body_part option" where
  "dec_part j =
    (if \<not> struct_ok 12 j then None
     else do {
       x0 \<leftarrow> fld j 0 ''partId'' dec_str [];
       x1 \<leftarrow> fld j 1 ''blobId'' dec_str [];
       x2 \<leftarrow> fld j 2 ''size'' dec_u64 0;
       x3 \<leftarrow> fld j 3 ''headers'' (dec_vec dec_header) [];
       x4 \<leftarrow> fld j 4 ''name'' dec_str [];
       x5 \<leftarrow> fld j 5 ''type'' dec_str [];
       x6 \<leftarrow> fld j 6 ''charset'' dec_str [];
       x7 \<leftarrow> fld j 7 ''disposition'' dec_str [];
       x8 \<leftarrow> fld j 8 ''cid'' dec_str [];
       x9 \<leftarrow> fld j 9 ''language'' (dec_vec dec_str) [];
       x10 \<leftarrow> fld j 10 ''location'' dec_str [];
       x11 \<leftarrow> fld j 11 ''subParts'' (dec_vec dec_part) [];
       Some (BodyPart x0 x1 x2 x3 x4 x5 x6 x7 x8 x9 x10 x11)
     })"
  by pat_completeness auto
termination
  by (relation "measure size") (auto dest!: size_field size_elem)

declare dec_part.simps [simp del]

section \<open>Email\<close>

record email =
  m_id :: string
  blob_id :: string
  thread_id :: string
  mailbox_ids :: "(string, bool) btree"
  m_keywords :: "(string, bool) btree"
  m_size :: nat
  received_at :: "string option"
  headers :: "header list"
  message_id :: "string list"
  in_reply_to :: "string list"
  references :: "string list"
  m_sender :: "address list"
  m_from :: "address list"
  m_to :: "address list"
  cc :: "address list"
  bcc :: "address list"
  reply_to :: "address list"
  subject :: string
  sent_at :: "string option"
  body_structure :: "body_part option"
  body_values :: "(string, body_value) btree"
  text_body :: "body_part list"
  html_body :: "body_part list"
  attachments :: "body_part list"
  has_attachment :: bool
  preview :: string
  smime_status :: string
  smime_status_at_delivery :: string
  smime_errors :: "string list"
  smime_verified_at :: "string option"

definition email_fields :: "email \<Rightarrow> (string \<times> json option) list" where
  "email_fields m =
    [(''id'', unless (m_id m = []) (JStr (m_id m))),
     (''blobId'', unless (blob_id m = []) (JStr (blob_id m))),
     (''threadId'', unless (thread_id m = []) (JStr (thread_id m))),
     (''mailboxIds'', unless (mailbox_ids m = []) (enc_map JBool (mailbox_ids m))),
     (''keywords'', unless (m_keywords m = []) (enc_map JBool (m_keywords m))),
     (''size'', unless (m_size m = 0) (enc_u64 (m_size m))),
     (''receivedAt'', unless (received_at m = None) (JStr (the (received_at m)))),
     (''headers'', unless (headers m = []) (enc_vec enc_header (headers m))),
     (''messageId'', unless (message_id m = []) (enc_vec JStr (message_id m))),
     (''inReplyTo'', unless (in_reply_to m = []) (enc_vec JStr (in_reply_to m))),
     (''references'', unless (references m = []) (enc_vec JStr (references m))),
     (''sender'', unless (m_sender m = []) (enc_vec enc_address (m_sender m))),
     (''from'', unless (m_from m = []) (enc_vec enc_address (m_from m))),
     (''to'', unless (m_to m = []) (enc_vec enc_address (m_to m))),
     (''cc'', unless (cc m = []) (enc_vec enc_address (cc m))),
     (''bcc'', unless (bcc m = []) (enc_vec enc_address (bcc m))),
     (''replyTo'', unless (reply_to m = []) (enc_vec enc_address (reply_to m))),
     (''subject'', unless (subject m = []) (JStr (subject m))),
     (''sentAt'', unless (sent_at m = None) (JStr (the (sent_at m)))),
     (''bodyStructure'', unless (body_structure m = None) (enc_part (the (body_structure m)))),
     (''bodyValues'', unless (body_values m = []) (enc_map enc_body_value (body_values m))),
     (''textBody'', unless (text_body m = []) (enc_vec enc_part (text_body m))),
     (''htmlBody'', unless (html_body m = []) (enc_vec enc_part (html_body m))),
     (''attachments'', unless (attachments m = []) (enc_vec enc_part (attachments m))),
     (''hasAttachment'', unless (\<not> has_attachment m) (JBool (has_attachment m))),
     (''preview'', unless (preview m = []) (JStr (preview m))),
     (''smimeStatus'', unless (smime_status m = []) (JStr (smime_status m))),
     (''smimeStatusAtDelivery'', unless (smime_status_at_delivery m = []) (JStr (smime_status_at_delivery m))),
     (''smimeErrors'', unless (smime_errors m = []) (enc_vec JStr (smime_errors m))),
     (''smimeVerifiedAt'', unless (smime_verified_at m = None) (JStr (the (smime_verified_at m))))]"

definition enc_email :: "email \<Rightarrow> json" where
  "enc_email m = struct (email_fields m)"

definition dec_email :: "json \<Rightarrow> email option" where
  "dec_email j =
    (if \<not> struct_ok 30 j then None
     else do {
       x0 \<leftarrow> fld j 0 ''id'' dec_str [];
       x1 \<leftarrow> fld j 1 ''blobId'' dec_str [];
       x2 \<leftarrow> fld j 2 ''threadId'' dec_str [];
       x3 \<leftarrow> fld j 3 ''mailboxIds'' (dec_map dec_bool) [];
       x4 \<leftarrow> fld j 4 ''keywords'' (dec_map dec_bool) [];
       x5 \<leftarrow> fld j 5 ''size'' dec_u64 0;
       x6 \<leftarrow> fld j 6 ''receivedAt'' (dec_opt dec_str) None;
       x7 \<leftarrow> fld j 7 ''headers'' (dec_vec dec_header) [];
       x8 \<leftarrow> fld j 8 ''messageId'' (dec_vec dec_str) [];
       x9 \<leftarrow> fld j 9 ''inReplyTo'' (dec_vec dec_str) [];
       x10 \<leftarrow> fld j 10 ''references'' (dec_vec dec_str) [];
       x11 \<leftarrow> fld j 11 ''sender'' (dec_vec dec_address) [];
       x12 \<leftarrow> fld j 12 ''from'' (dec_vec dec_address) [];
       x13 \<leftarrow> fld j 13 ''to'' (dec_vec dec_address) [];
       x14 \<leftarrow> fld j 14 ''cc'' (dec_vec dec_address) [];
       x15 \<leftarrow> fld j 15 ''bcc'' (dec_vec dec_address) [];
       x16 \<leftarrow> fld j 16 ''replyTo'' (dec_vec dec_address) [];
       x17 \<leftarrow> fld j 17 ''subject'' dec_str [];
       x18 \<leftarrow> fld j 18 ''sentAt'' (dec_opt dec_str) None;
       x19 \<leftarrow> fld j 19 ''bodyStructure'' (dec_opt dec_part) None;
       x20 \<leftarrow> fld j 20 ''bodyValues'' (dec_map dec_body_value) [];
       x21 \<leftarrow> fld j 21 ''textBody'' (dec_vec dec_part) [];
       x22 \<leftarrow> fld j 22 ''htmlBody'' (dec_vec dec_part) [];
       x23 \<leftarrow> fld j 23 ''attachments'' (dec_vec dec_part) [];
       x24 \<leftarrow> fld j 24 ''hasAttachment'' dec_bool False;
       x25 \<leftarrow> fld j 25 ''preview'' dec_str [];
       x26 \<leftarrow> fld j 26 ''smimeStatus'' dec_str [];
       x27 \<leftarrow> fld j 27 ''smimeStatusAtDelivery'' dec_str [];
       x28 \<leftarrow> fld j 28 ''smimeErrors'' (dec_vec dec_str) [];
       x29 \<leftarrow> fld j 29 ''smimeVerifiedAt'' (dec_opt dec_str) None;
       Some \<lparr>m_id = x0, blob_id = x1, thread_id = x2, mailbox_ids = x3, m_keywords = x4,
         m_size = x5, received_at = x6, headers = x7, message_id = x8, in_reply_to = x9,
         references = x10, m_sender = x11, m_from = x12, m_to = x13, cc = x14, bcc = x15,
         reply_to = x16, subject = x17, sent_at = x18, body_structure = x19, body_values = x20,
         text_body = x21, html_body = x22, attachments = x23, has_attachment = x24,
         preview = x25, smime_status = x26, smime_status_at_delivery = x27, smime_errors = x28,
         smime_verified_at = x29\<rparr>
     })"

definition email_default :: email where
  "email_default = \<lparr>m_id = [], blob_id = [], thread_id = [], mailbox_ids = [], m_keywords = [], m_size = 0,
     received_at = None, headers = [], message_id = [], in_reply_to = [], references = [],
     m_sender = [], m_from = [], m_to = [], cc = [], bcc = [], reply_to = [], subject = [],
     sent_at = None, body_structure = None, body_values = [], text_body = [], html_body = [],
     attachments = [], has_attachment = False, preview = [], smime_status = [],
     smime_status_at_delivery = [], smime_errors = [], smime_verified_at = None\<rparr>"

section \<open>Mailboxes and envelopes\<close>

record rights =
  may_read_items :: bool
  may_add_items :: bool
  may_remove_items :: bool
  may_set_seen :: bool
  may_set_keywords :: bool
  may_create_child :: bool
  may_rename :: bool
  may_delete :: bool
  may_submit :: bool

definition rights_fields :: "rights \<Rightarrow> (string \<times> json option) list" where
  "rights_fields r =
    [(''mayReadItems'', unless (\<not> may_read_items r) (JBool (may_read_items r))),
     (''mayAddItems'', unless (\<not> may_add_items r) (JBool (may_add_items r))),
     (''mayRemoveItems'', unless (\<not> may_remove_items r) (JBool (may_remove_items r))),
     (''maySetSeen'', unless (\<not> may_set_seen r) (JBool (may_set_seen r))),
     (''maySetKeywords'', unless (\<not> may_set_keywords r) (JBool (may_set_keywords r))),
     (''mayCreateChild'', unless (\<not> may_create_child r) (JBool (may_create_child r))),
     (''mayRename'', unless (\<not> may_rename r) (JBool (may_rename r))),
     (''mayDelete'', unless (\<not> may_delete r) (JBool (may_delete r))),
     (''maySubmit'', unless (\<not> may_submit r) (JBool (may_submit r)))]"

definition enc_rights :: "rights \<Rightarrow> json" where
  "enc_rights r = struct (rights_fields r)"

definition dec_rights :: "json \<Rightarrow> rights option" where
  "dec_rights j =
    (if \<not> struct_ok 9 j then None
     else do {
       x0 \<leftarrow> fld j 0 ''mayReadItems'' dec_bool False;
       x1 \<leftarrow> fld j 1 ''mayAddItems'' dec_bool False;
       x2 \<leftarrow> fld j 2 ''mayRemoveItems'' dec_bool False;
       x3 \<leftarrow> fld j 3 ''maySetSeen'' dec_bool False;
       x4 \<leftarrow> fld j 4 ''maySetKeywords'' dec_bool False;
       x5 \<leftarrow> fld j 5 ''mayCreateChild'' dec_bool False;
       x6 \<leftarrow> fld j 6 ''mayRename'' dec_bool False;
       x7 \<leftarrow> fld j 7 ''mayDelete'' dec_bool False;
       x8 \<leftarrow> fld j 8 ''maySubmit'' dec_bool False;
       Some \<lparr>may_read_items = x0, may_add_items = x1, may_remove_items = x2, may_set_seen = x3,
         may_set_keywords = x4, may_create_child = x5, may_rename = x6, may_delete = x7,
         may_submit = x8\<rparr>
     })"

record mailbox =
  b_id :: string
  b_name :: string
  parent_id :: string
  role :: string
  sort_order :: nat
  total_emails :: nat
  unread_emails :: nat
  total_threads :: nat
  unread_threads :: nat
  rights :: "rights option"
  is_subscribed :: bool

definition mailbox_fields :: "mailbox \<Rightarrow> (string \<times> json option) list" where
  "mailbox_fields b =
    [(''id'', unless (b_id b = []) (JStr (b_id b))),
     (''name'', unless (b_name b = []) (JStr (b_name b))),
     (''parentId'', unless (parent_id b = []) (JStr (parent_id b))),
     (''role'', unless (role b = []) (JStr (role b))),
     (''sortOrder'', unless (sort_order b = 0) (enc_u64 (sort_order b))),
     (''totalEmails'', unless (total_emails b = 0) (enc_u64 (total_emails b))),
     (''unreadEmails'', unless (unread_emails b = 0) (enc_u64 (unread_emails b))),
     (''totalThreads'', unless (total_threads b = 0) (enc_u64 (total_threads b))),
     (''unreadThreads'', unless (unread_threads b = 0) (enc_u64 (unread_threads b))),
     (''myRights'', unless (rights b = None) (enc_rights (the (rights b)))),
     (''isSubscribed'', unless (\<not> is_subscribed b) (JBool (is_subscribed b)))]"

definition enc_mailbox :: "mailbox \<Rightarrow> json" where
  "enc_mailbox b = struct (mailbox_fields b)"

definition dec_mailbox :: "json \<Rightarrow> mailbox option" where
  "dec_mailbox j =
    (if \<not> struct_ok 11 j then None
     else do {
       x0 \<leftarrow> fld j 0 ''id'' dec_str [];
       x1 \<leftarrow> fld j 1 ''name'' dec_str [];
       x2 \<leftarrow> fld j 2 ''parentId'' dec_str [];
       x3 \<leftarrow> fld j 3 ''role'' dec_str [];
       x4 \<leftarrow> fld j 4 ''sortOrder'' dec_u64 0;
       x5 \<leftarrow> fld j 5 ''totalEmails'' dec_u64 0;
       x6 \<leftarrow> fld j 6 ''unreadEmails'' dec_u64 0;
       x7 \<leftarrow> fld j 7 ''totalThreads'' dec_u64 0;
       x8 \<leftarrow> fld j 8 ''unreadThreads'' dec_u64 0;
       x9 \<leftarrow> fld j 9 ''myRights'' (dec_opt dec_rights) None;
       x10 \<leftarrow> fld j 10 ''isSubscribed'' dec_bool False;
       Some \<lparr>b_id = x0, b_name = x1, parent_id = x2, role = x3, sort_order = x4, total_emails = x5,
         unread_emails = x6, total_threads = x7, unread_threads = x8, rights = x9,
         is_subscribed = x10\<rparr>
     })"

record env_address =
  ea_email :: string
  ea_parameters :: "json option"

definition env_address_fields :: "env_address \<Rightarrow> (string \<times> json option) list" where
  "env_address_fields a =
    [(''email'', unless (ea_email a = []) (JStr (ea_email a))),
     (''parameters'', unless (ea_parameters a = None) (the (ea_parameters a)))]"

definition enc_env_address :: "env_address \<Rightarrow> json" where
  "enc_env_address a = struct (env_address_fields a)"

definition dec_env_address :: "json \<Rightarrow> env_address option" where
  "dec_env_address j =
    (if \<not> struct_ok 2 j then None
     else do {
       x0 \<leftarrow> fld j 0 ''email'' dec_str [];
       x1 \<leftarrow> fld j 1 ''parameters'' (dec_opt Some) None;
       Some \<lparr>ea_email = x0, ea_parameters = x1\<rparr>
     })"

record envelope =
  env_mail_from :: "env_address option"
  env_rcpt_to :: "env_address list"

definition envelope_fields :: "envelope \<Rightarrow> (string \<times> json option) list" where
  "envelope_fields v =
    [(''mailFrom'', unless (env_mail_from v = None) (enc_env_address (the (env_mail_from v)))),
     (''rcptTo'', unless (env_rcpt_to v = []) (enc_vec enc_env_address (env_rcpt_to v)))]"

definition enc_envelope :: "envelope \<Rightarrow> json" where
  "enc_envelope v = struct (envelope_fields v)"

definition dec_envelope :: "json \<Rightarrow> envelope option" where
  "dec_envelope j =
    (if \<not> struct_ok 2 j then None
     else do {
       x0 \<leftarrow> fld j 0 ''mailFrom'' (dec_opt dec_env_address) None;
       x1 \<leftarrow> fld j 1 ''rcptTo'' (dec_vec dec_env_address) [];
       Some \<lparr>env_mail_from = x0, env_rcpt_to = x1\<rparr>
     })"

definition envelope_default :: envelope where
  "envelope_default = \<lparr>env_mail_from = None, env_rcpt_to = []\<rparr>"

section \<open>Round trips\<close>

text \<open>Sizes and counts are \<open>u64\<close>.\<close>

primrec part_ok :: "body_part \<Rightarrow> bool" where
  "part_ok (BodyPart i bl sz hs nm ty ch di ci la lo ps) \<longleftrightarrow>
    sz < 2 ^ 64 \<and> list_all (\<lambda>b. b) (map part_ok ps)"

definition email_ok :: "email \<Rightarrow> bool" where
  "email_ok m \<longleftrightarrow> m_size m < 2 ^ 64 \<and> (\<forall>p. body_structure m = Some p \<longrightarrow> part_ok p) \<and>
    list_all part_ok (text_body m @ html_body m @ attachments m)"

definition mailbox_ok :: "mailbox \<Rightarrow> bool" where
  "mailbox_ok b \<longleftrightarrow> list_all (\<lambda>n. n < 2 ^ 64)
    [sort_order b, total_emails b, unread_emails b, total_threads b, unread_threads b]"

lemma distinct_fields:
  "distinct (map fst (header_fields h))" "distinct (map fst (address_fields a))"
  "distinct (map fst (body_value_fields bv))" "distinct (map fst (email_fields m))"
  "distinct (map fst (rights_fields r))" "distinct (map fst (mailbox_fields b))"
  "distinct (map fst (env_address_fields ea))" "distinct (map fst (envelope_fields v))"
  by (simp_all add: header_fields_def address_fields_def body_value_fields_def email_fields_def
      rights_fields_def mailbox_fields_def env_address_fields_def envelope_fields_def)

lemmas fld_fields = distinct_fields [THEN fld_struct]

lemma enc_not_null [simp]:
  "enc_header h \<noteq> JNull" "enc_address a \<noteq> JNull" "enc_body_value bv \<noteq> JNull" "enc_part p \<noteq> JNull"
  "enc_rights r \<noteq> JNull" "enc_env_address ea \<noteq> JNull"
  by (simp_all add: enc_header_def enc_address_def enc_body_value_def enc_rights_def enc_env_address_def)
     (cases p, simp)

lemma header_roundtrip [simp]: "dec_header (enc_header h) = Some h"
  by (simp only: dec_header_def enc_header_def fld_fields struct_ok_struct simp_thms if_True if_False)
     (simp add: header_fields_def roundtrip)

lemma address_roundtrip [simp]: "dec_address (enc_address a) = Some a"
  by (simp only: dec_address_def enc_address_def fld_fields struct_ok_struct simp_thms if_True if_False)
     (simp add: address_fields_def roundtrip)

lemma body_value_roundtrip [simp]: "dec_body_value (enc_body_value b) = Some b"
  by (simp only: dec_body_value_def enc_body_value_def fld_fields struct_ok_struct simp_thms if_True if_False)
     (simp add: body_value_fields_def roundtrip)

lemma rights_roundtrip [simp]: "dec_rights (enc_rights r) = Some r"
  by (simp only: dec_rights_def enc_rights_def fld_fields struct_ok_struct simp_thms if_True if_False)
     (simp add: rights_fields_def roundtrip)

lemma mailbox_roundtrip: "mailbox_ok b \<Longrightarrow> dec_mailbox (enc_mailbox b) = Some b"
  by (simp only: dec_mailbox_def enc_mailbox_def fld_fields struct_ok_struct simp_thms if_True if_False)
     (simp add: mailbox_fields_def roundtrip mailbox_ok_def)

text \<open>\<open>part_ok\<close> by its list of parts, and the round trip by induction on the part.\<close>

lemma part_ok_iff: "part_ok p \<longleftrightarrow> p_size p < 2 ^ 64 \<and> (\<forall>q \<in> set (sub_parts p). part_ok q)"
  by (cases p) (simp add: list_all_iff)

definition part_fields :: "body_part \<Rightarrow> (string \<times> json option) list" where
  "part_fields p =
    [(''partId'', unless (part_id p = []) (JStr (part_id p))),
     (''blobId'', unless (p_blob_id p = []) (JStr (p_blob_id p))),
     (''size'', unless (p_size p = 0) (enc_u64 (p_size p))),
     (''headers'', unless (p_headers p = []) (enc_vec enc_header (p_headers p))),
     (''name'', unless (p_name p = []) (JStr (p_name p))),
     (''type'', unless (p_type p = []) (JStr (p_type p))),
     (''charset'', unless (charset p = []) (JStr (charset p))),
     (''disposition'', unless (disposition p = []) (JStr (disposition p))),
     (''cid'', unless (cid p = []) (JStr (cid p))),
     (''language'', unless (language p = []) (enc_vec JStr (language p))),
     (''location'', unless (location p = []) (JStr (location p))),
     (''subParts'', unless (sub_parts p = []) (enc_vec enc_part (sub_parts p)))]"

lemma enc_part_struct: "enc_part p = struct (part_fields p)"
  by (cases p) (simp add: part_fields_def enc_vec_def)

lemma part_roundtrip [simp]: "part_ok p \<Longrightarrow> dec_part (enc_part p) = Some p"
proof (induction p)
  case (BodyPart i bl sz hs nm ty ch di ci la lo ps)
  define p where "p = BodyPart i bl sz hs nm ty ch di ci la lo ps"
  have ps: "dec_vec dec_part (enc_vec enc_part (sub_parts p)) = Some (sub_parts p)"
  proof (rule dec_enc_vec)
    fix q assume q: "q \<in> set (sub_parts p)"
    then have "part_ok q" using BodyPart.prems part_ok_iff [of p] by (simp add: p_def)
    then show "dec_part (enc_part q) = Some q" using BodyPart.IH q by (simp add: p_def)
  qed
  have d: "distinct (map fst (part_fields p))" by (simp add: part_fields_def)
  have "p_size p < 2 ^ 64" using BodyPart.prems by (simp add: p_def)
  then have "dec_part (struct (part_fields p)) = Some p"
    using ps
    by (simp only: dec_part.simps [of "struct (part_fields p)"] d [THEN fld_struct] struct_ok_struct
          simp_thms if_True if_False)
       (simp add: part_fields_def roundtrip)
  then show ?case by (simp only: enc_part_struct flip: p_def)
qed

lemma email_rt: "email_ok m \<Longrightarrow> dec_email (enc_email m) = Some m"
proof -
  assume ok: "email_ok m"
  have bs: "(if body_structure m = None then Some None
      else dec_opt dec_part (enc_part (the (body_structure m)))) = Some (body_structure m)"
    using ok by (auto simp: email_ok_def dec_opt_def)
  have "dec_vec dec_part (enc_vec enc_part ps) = Some ps" if "list_all part_ok ps" for ps
    using that by (intro dec_enc_vec) (simp add: list_all_iff)
  then have ps: "dec_vec dec_part (enc_vec enc_part (text_body m)) = Some (text_body m)"
      "dec_vec dec_part (enc_vec enc_part (html_body m)) = Some (html_body m)"
      "dec_vec dec_part (enc_vec enc_part (attachments m)) = Some (attachments m)"
    using ok by (simp_all add: email_ok_def)
  have sz: "m_size m < 2 ^ 64" using ok by (simp add: email_ok_def)
  show ?thesis
    using bs ps sz
    by (simp only: dec_email_def enc_email_def fld_fields struct_ok_struct simp_thms if_True if_False)
       (simp add: email_fields_def roundtrip)
qed

text \<open>
  A stored message survives its file: for every message with 64-bit sizes, reading back
  what \<open>put\<close> wrote gives the same message, all thirty fields, with nested body parts.
\<close>

theorem email_roundtrip: "email_ok m \<Longrightarrow> dec_email (enc_email m) = Some m"
  by (rule email_rt)

lemma env_address_roundtrip:
  "ea_parameters a \<noteq> Some JNull \<Longrightarrow> dec_env_address (enc_env_address a) = Some a"
  by (simp only: dec_env_address_def enc_env_address_def fld_fields struct_ok_struct simp_thms if_True if_False)
     (cases "ea_parameters a", simp_all add: env_address_fields_def roundtrip dec_opt_def)

end
