(* ===== verification/ChangeLog.thy ===== *)
theory ChangeLog
  imports BTree
begin

text \<open>
  Versioned change logs. The message store and the mailbox list both keep a counter and, for
  each value of it, what that change added, updated and removed; \<open>Email/changes\<close> and
  \<open>Mailbox/changes\<close> fold the log from the client's version to now with the same loop, and
  the two \<open>queryChanges\<close> with a shorter one. The loops are here once, over the three lists of
  a record. The locale \<open>versioned\<close> is the contract of a store that keeps such a log; its
  lemmas say that the folds then report the difference.
\<close>

section \<open>The loops\<close>

type_synonym change_sets = "string bset \<times> string bset \<times> string bset"

definition add_all :: "string list \<Rightarrow> string bset \<Rightarrow> string bset" where
  "add_all is s = foldl (\<lambda>s i. bs_add i s) s is"

definition del_all :: "string list \<Rightarrow> string bset \<Rightarrow> string bset" where
  "del_all is s = foldl (\<lambda>s i. bs_del i s) s is"

definition note_updates :: "string bset \<Rightarrow> string list \<Rightarrow> string bset \<Rightarrow> string bset" where
  "note_updates created is s = foldl (\<lambda>s i. if bs_mem i created then s else bs_add i s) s is"

text \<open>One record of \<open>fold_changes\<close>: created, updated, destroyed.\<close>

definition fold_record ::
  "string list \<Rightarrow> string list \<Rightarrow> string list \<Rightarrow> change_sets \<Rightarrow> change_sets" where
  "fold_record added updated removed acc =
    (case acc of (c, u, d) \<Rightarrow>
      (let c1 = add_all added c; d1 = del_all added d;
           u1 = note_updates c1 updated u in
       (del_all removed c1, del_all removed u1, add_all removed d1)))"

text \<open>The loop over the versions; a missing one means the client cannot be brought up to date.\<close>

fun fold_versions ::
  "('r \<Rightarrow> 'a \<Rightarrow> 'a) \<Rightarrow> (int, 'r) btree \<Rightarrow> int list \<Rightarrow> 'a \<Rightarrow> 'a option" where
  "fold_versions f log [] acc = Some acc"
| "fold_versions f log (v # vs) acc =
    (case bt_get log v of None \<Rightarrow> None | Some r \<Rightarrow> fold_versions f log vs (f r acc))"

definition fold_log ::
  "('r \<Rightarrow> string list) \<Rightarrow> ('r \<Rightarrow> string list) \<Rightarrow> ('r \<Rightarrow> string list) \<Rightarrow> (int, 'r) btree
   \<Rightarrow> int \<Rightarrow> int \<Rightarrow> change_sets option" where
  "fold_log add upd rem log since cur =
    fold_versions (\<lambda>r. fold_record (add r) (upd r) (rem r)) log [since + 1..cur] ([], [], [])"

text \<open>The loop of \<open>queryChanges\<close>: added and removed only.\<close>

definition fold_query_record ::
  "string list \<Rightarrow> string list \<Rightarrow> string bset \<times> string bset \<Rightarrow> string bset \<times> string bset" where
  "fold_query_record added removed acc =
    (case acc of (a, r) \<Rightarrow>
      (let a1 = add_all added a; r1 = del_all added r in
       (del_all removed a1, add_all removed r1)))"

definition fold_query_log ::
  "('r \<Rightarrow> string list) \<Rightarrow> ('r \<Rightarrow> string list) \<Rightarrow> (int, 'r) btree \<Rightarrow> int \<Rightarrow> int
   \<Rightarrow> (string bset \<times> string bset) option" where
  "fold_query_log add rem log since cur =
    fold_versions (\<lambda>r. fold_query_record (add r) (rem r)) log [since + 1..cur] ([], [])"

section \<open>The loops as sets\<close>

lemma add_all_set [simp]: "bs_set (add_all is s) = bs_set s \<union> set is"
  by (simp add: add_all_def bs_set_foldl_add)

lemma del_all_set [simp]: "bs_set (del_all is s) = bs_set s - set is"
  unfolding del_all_def by (induction "is" arbitrary: s) auto

lemma note_updates_set [simp]: "bs_set (note_updates c is s) = bs_set s \<union> (set is - bs_set c)"
  unfolding note_updates_def by (induction "is" arbitrary: s) (auto simp: bs_mem_set)

lemma fold_record_sets:
  assumes "fold_record add upd rem (c, u, d) = (c', u', d')"
  shows "bs_set c' = (bs_set c \<union> set add) - set rem"
    and "bs_set u' = (bs_set u \<union> (set upd - (bs_set c \<union> set add))) - set rem"
    and "bs_set d' = (bs_set d - set add) \<union> set rem"
  using assms by (auto simp: fold_record_def Let_def)

lemma fold_query_record_sets:
  assumes "fold_query_record add rem (a, r) = (a', r')"
  shows "bs_set a' = (bs_set a \<union> set add) - set rem" and "bs_set r' = (bs_set r - set add) \<union> set rem"
  using assms by (auto simp: fold_query_record_def Let_def)

lemma fold_versions_append:
  "fold_versions f log (vs @ ws) acc = Option.bind (fold_versions f log vs acc) (fold_versions f log ws)"
  by (induction vs arbitrary: acc) (auto split: option.split)

lemma fold_versions_cong:
  "(\<And>v. v \<in> set vs \<Longrightarrow> bt_get log v = bt_get log' v) \<Longrightarrow>
   fold_versions f log vs acc = fold_versions f log' vs acc"
  by (induction vs arbitrary: acc) (auto split: option.split)

section \<open>The contract\<close>

locale versioned =
  fixes step :: "'s \<Rightarrow> 's \<Rightarrow> bool"
    and state :: "'s \<Rightarrow> int"
    and log :: "'s \<Rightarrow> (int, 'r) btree"
    and ids :: "'s \<Rightarrow> string set"
    and add :: "'r \<Rightarrow> string list"
    and upd :: "'r \<Rightarrow> string list"
    and rem :: "'r \<Rightarrow> string list"
  assumes step_cases: "step s t \<Longrightarrow>
      (state t = state s \<and> log t = log s \<and> ids t = ids s) \<or>
      (\<exists>r. state t = state s + 1 \<and> log t = bt_ins (state t) r (log s) \<and>
           ids t = (ids s \<union> set (add r)) - set (rem r))"
begin

lemma state_mono: "step\<^sup>*\<^sup>* s t \<Longrightarrow> state s \<le> state t"
  by (induction rule: rtranclp_induct) (auto dest: step_cases)

lemma log_kept: "step\<^sup>*\<^sup>* s t \<Longrightarrow> v \<le> state s \<Longrightarrow> bt_get (log t) v = bt_get (log s) v"
proof (induction rule: rtranclp_induct)
  case (step t u)
  then have "v \<noteq> state t + 1" using state_mono [OF step.hyps(1)] by simp
  then show ?case using step step_cases [OF step.hyps(2)] by auto
qed simp

text \<open>Folding from a version to a later one: one more step of the log folds one more record.\<close>

lemma fold_snoc:
  assumes "step\<^sup>*\<^sup>* s t" "state u = state t + 1" "log u = bt_ins (state u) r (log t)"
  shows "fold_versions f (log u) [state s + 1..state u] acc
    = Option.bind (fold_versions f (log t) [state s + 1..state t] acc) (\<lambda>a. Some (f r a))"
proof -
  have "[state s + 1..state u] = [state s + 1..state t] @ [state u]"
    using state_mono [OF assms(1)] assms(2) by (simp add: upto_rec2)
  moreover have "fold_versions f (log u) [state s + 1..state t] acc
      = fold_versions f (log t) [state s + 1..state t] acc"
    using assms(2,3) by (intro fold_versions_cong) auto
  ultimately show ?thesis
    using assms(3)
    by (cases "fold_versions f (log t) [state s + 1..state t] acc") (simp_all add: fold_versions_append)
qed

lemma changes_exact:
  assumes "step\<^sup>*\<^sup>* s t"
  shows "\<exists>c u d. fold_log add upd rem (log t) (state s) (state t) = Some (c, u, d) \<and>
    ids t = (ids s - bs_set d) \<union> bs_set c \<and> bs_set c \<inter> bs_set d = {}"
  using assms
proof (induction rule: rtranclp_induct)
  case base
  then show ?case by (simp add: fold_log_def)
next
  case (step t v)
  then obtain c u d where f: "fold_log add upd rem (log t) (state s) (state t) = Some (c, u, d)"
      "ids t = (ids s - bs_set d) \<union> bs_set c" "bs_set c \<inter> bs_set d = {}" by blast
  consider "state v = state t" "log v = log t" "ids v = ids t"
    | r where "state v = state t + 1" "log v = bt_ins (state v) r (log t)"
        "ids v = (ids t \<union> set (add r)) - set (rem r)"
    using step_cases [OF step.hyps(2)] by blast
  then show ?case
  proof cases
    case 1
    then show ?thesis using f by auto
  next
    case 2
    obtain c' u' d' where r: "fold_record (add r) (upd r) (rem r) (c, u, d) = (c', u', d')"
      using prod_cases3 by blast
    have "fold_log add upd rem (log v) (state s) (state v) = Some (c', u', d')"
      using f(1) r by (simp add: fold_log_def fold_snoc [OF step.hyps(1) 2(1,2)])
    moreover have "ids v = (ids s - bs_set d') \<union> bs_set c'" "bs_set c' \<inter> bs_set d' = {}"
      using f(2,3) 2(3) fold_record_sets [OF r] by auto
    ultimately show ?thesis by blast
  qed
qed

lemma query_changes_exact:
  assumes "step\<^sup>*\<^sup>* s t"
  shows "\<exists>a d. fold_query_log add rem (log t) (state s) (state t) = Some (a, d) \<and>
    ids t = (ids s - bs_set d) \<union> bs_set a \<and> bs_set a \<inter> bs_set d = {}"
  using assms
proof (induction rule: rtranclp_induct)
  case base
  then show ?case by (simp add: fold_query_log_def)
next
  case (step t v)
  then obtain a d where f: "fold_query_log add rem (log t) (state s) (state t) = Some (a, d)"
      "ids t = (ids s - bs_set d) \<union> bs_set a" "bs_set a \<inter> bs_set d = {}" by blast
  consider "state v = state t" "log v = log t" "ids v = ids t"
    | r where "state v = state t + 1" "log v = bt_ins (state v) r (log t)"
        "ids v = (ids t \<union> set (add r)) - set (rem r)"
    using step_cases [OF step.hyps(2)] by blast
  then show ?case
  proof cases
    case 1
    then show ?thesis using f by auto
  next
    case 2
    obtain a' d' where r: "fold_query_record (add r) (rem r) (a, d) = (a', d')"
      using prod.exhaust by blast
    have "fold_query_log add rem (log v) (state s) (state v) = Some (a', d')"
      using f(1) r by (simp add: fold_query_log_def fold_snoc [OF step.hyps(1) 2(1,2)])
    moreover have "ids v = (ids s - bs_set d') \<union> bs_set a'" "bs_set a' \<inter> bs_set d' = {}"
      using f(2,3) 2(3) fold_query_record_sets [OF r] by auto
    ultimately show ?thesis by blast
  qed
qed

end

text \<open>A store whose records also name every item that changed in place.\<close>

locale versioned_items = versioned step state log "\<lambda>s. dom (item s)" add upd rem
  for step :: "'s \<Rightarrow> 's \<Rightarrow> bool" and state :: "'s \<Rightarrow> int" and log :: "'s \<Rightarrow> (int, 'r) btree"
    and item :: "'s \<Rightarrow> string \<Rightarrow> 'c option"
    and add :: "'r \<Rightarrow> string list" and upd :: "'r \<Rightarrow> string list" and rem :: "'r \<Rightarrow> string list" +
  assumes step_items: "step s t \<Longrightarrow> item t i \<noteq> item s i \<Longrightarrow>
      \<exists>r. state t = state s + 1 \<and> bt_get (log t) (state t) = Some r \<and>
          i \<in> set (add r) \<union> set (upd r) \<union> set (rem r)"
begin

lemma items_exact:
  assumes "step\<^sup>*\<^sup>* s t"
  shows "\<exists>c u d. fold_log add upd rem (log t) (state s) (state t) = Some (c, u, d) \<and>
    (\<forall>i. item t i \<noteq> item s i \<longrightarrow> i \<in> bs_set c \<union> bs_set u \<union> bs_set d)"
  using assms
proof (induction rule: rtranclp_induct)
  case base
  then show ?case by (simp add: fold_log_def)
next
  case (step t v)
  then obtain c u d where f: "fold_log add upd rem (log t) (state s) (state t) = Some (c, u, d)"
      "\<forall>i. item t i \<noteq> item s i \<longrightarrow> i \<in> bs_set c \<union> bs_set u \<union> bs_set d" by blast
  consider "state v = state t" "log v = log t" "dom (item v) = dom (item t)"
    | r where "state v = state t + 1" "log v = bt_ins (state v) r (log t)"
        "dom (item v) = (dom (item t) \<union> set (add r)) - set (rem r)"
    using step_cases [OF step.hyps(2)] by blast
  then show ?case
  proof cases
    case 1
    then have "item v i = item t i" for i using step_items [OF step.hyps(2), of i] by auto
    then show ?thesis using f 1 by auto
  next
    case 2
    obtain c' u' d' where r: "fold_record (add r) (upd r) (rem r) (c, u, d) = (c', u', d')"
      using prod_cases3 by blast
    have "fold_log add upd rem (log v) (state s) (state v) = Some (c', u', d')"
      using f(1) r by (simp add: fold_log_def fold_snoc [OF step.hyps(1) 2(1,2)])
    moreover have "i \<in> bs_set c' \<union> bs_set u' \<union> bs_set d'" if "item v i \<noteq> item s i" for i
    proof (cases "item v i = item t i")
      case True
      then show ?thesis using that f(2) fold_record_sets [OF r] by auto
    next
      case False
      then have "i \<in> set (add r) \<union> set (upd r) \<union> set (rem r)"
        using step_items [OF step.hyps(2), of i] 2(1,2) by auto
      then show ?thesis using fold_record_sets [OF r] by auto
    qed
    ultimately show ?thesis by blast
  qed
qed

end

declare add_all_def [eval] del_all_def [eval] note_updates_def [eval] fold_record_def [eval]
  fold_log_def [eval] fold_query_record_def [eval] fold_query_log_def [eval] bs_add_def [eval]
  bs_del_def [eval] bs_mem_def [eval] bs_of_def [eval]

end
