(* ===== verification/Store.thy ===== *)
theory Store
  imports JmapTypes ChangeLog
begin

text \<open>
  The per-account mail store, \<open>crates/jmapserver/src/store.rs\<close>: messages, drafts, mailboxes,
  identities, blobs, submissions and vacation response in memory, with the files behind them.

  Each method is a function of the whole state, as if it held the lock throughout. The disk is
  a map from path (relative to the store's directory) to the JSON value in the file, and
  \<open>io p\<close> says what writing the file \<open>p\<close> does: \<open>None\<close> when it works, else the error text and
  what the file then holds (\<open>None\<close> when it does not parse). SHA-256 (\<open>sha\<close>) and the RFC 3339
  parser (\<open>ts\<close>, to nanoseconds) are arguments.
\<close>

section \<open>State\<close>

record change_record =
  added :: "string list"
  updated :: "string list"
  removed :: "string list"

record mailbox_change_record =
  mb_created :: "string list"
  mb_updated :: "string list"
  mb_destroyed :: "string list"

record mail_store =
  msgs :: "(string, email) btree"
  pending :: "(string, email) btree"
  st :: int
  changes :: "(int, change_record) btree"
  identities :: "jobj list"
  identity_st :: int
  mailbox_st :: int
  mailbox_changes :: "(int, mailbox_change_record) btree"
  blobs :: "(string, string) btree"
  submissions :: "jobj list"
  submission_st :: int
  vacation :: "jobj option"
  disk :: "(string, json) btree"

definition store_new :: "(string, json) btree \<Rightarrow> mail_store" where
  "store_new d = \<lparr>msgs = [], pending = [], st = 0, changes = [], identities = [], identity_st = 0,
     mailbox_st = 0, mailbox_changes = [], blobs = [], submissions = [], submission_st = 0,
     vacation = None, disk = d\<rparr>"

type_synonym io = "string \<Rightarrow> (string \<times> json option) option"

definition write_file :: "io \<Rightarrow> string \<Rightarrow> json \<Rightarrow> mail_store \<Rightarrow> (string + unit) \<times> mail_store" where
  "write_file io p c s =
    (case io p of
       None \<Rightarrow> (Inr (), s\<lparr>disk := bt_ins p c (disk s)\<rparr>)
     | Some (e, None) \<Rightarrow> (Inl e, s\<lparr>disk := bt_del p (disk s)\<rparr>)
     | Some (e, Some c') \<Rightarrow> (Inl e, s\<lparr>disk := bt_ins p c' (disk s)\<rparr>))"

section \<open>File names\<close>

definition unsafe_chars :: "char list" where
  "unsafe_chars = [CHR ''/'', CHR 0x5C, CHR '':'', CHR ''*'', CHR ''?'', CHR 0x22, CHR ''<'', CHR ''>'', CHR 0x7C]"

fun floor_boundary :: "string \<Rightarrow> nat \<Rightarrow> nat" where
  "floor_boundary s 0 = 0"
| "floor_boundary s (Suc i) = (if char_boundary s (Suc i) then Suc i else floor_boundary s i)"

definition safe_filename :: "string \<Rightarrow> string" where
  "safe_filename s =
    (let out = map (\<lambda>c. if c \<in> set unsafe_chars then CHR ''-'' else c) s in
     if 200 < length out then take (floor_boundary out 200) out else out)"

definition msg_path :: "string \<Rightarrow> string" where
  "msg_path i = ''messages/'' @ safe_filename i @ ''.json''"

text \<open>\<open>Path::extension\<close> of a file in \<open>messages/\<close>.\<close>

definition in_messages :: "string \<Rightarrow> string option" where
  "in_messages p = strip_prefix ''messages/'' p"

definition json_file :: "string \<Rightarrow> bool" where
  "json_file p =
    (case in_messages p of
       None \<Rightarrow> False
     | Some name \<Rightarrow>
         (case rsplit_once (CHR ''.'') name of
            None \<Rightarrow> False
          | Some (stem, ext) \<Rightarrow> stem \<noteq> [] \<and> ext = ''json''))"

section \<open>The state file\<close>

definition null_if_empty :: "json list \<Rightarrow> json" where
  "null_if_empty xs = (if xs = [] then JNull else JArr xs)"

definition dec_null_vec :: "(json \<Rightarrow> 'a option) \<Rightarrow> json \<Rightarrow> 'a list option" where
  "dec_null_vec d j = (if j = JNull then Some [] else dec_vec d j)"

definition enc_change :: "change_record \<Rightarrow> json" where
  "enc_change r = obj [(''Added'', null_if_empty (map JStr (added r))),
     (''Updated'', null_if_empty (map JStr (updated r))),
     (''Removed'', null_if_empty (map JStr (removed r)))]"

definition enc_mailbox_change :: "mailbox_change_record \<Rightarrow> json" where
  "enc_mailbox_change r = obj [(''Created'', null_if_empty (map JStr (mb_created r))),
     (''Updated'', null_if_empty (map JStr (mb_updated r))),
     (''Destroyed'', null_if_empty (map JStr (mb_destroyed r)))]"

text \<open>A field without \<open>#[serde(default)]\<close>.\<close>

definition req :: "json \<Rightarrow> nat \<Rightarrow> string \<Rightarrow> (json \<Rightarrow> 'a option) \<Rightarrow> 'a option" where
  "req j i n d = Option.bind (field j i n) d"

definition dec_change :: "json \<Rightarrow> change_record option" where
  "dec_change j =
    (if \<not> struct_ok 3 j then None
     else do {
       a \<leftarrow> req j 0 ''Added'' (dec_null_vec dec_str);
       u \<leftarrow> req j 1 ''Updated'' (dec_null_vec dec_str);
       r \<leftarrow> req j 2 ''Removed'' (dec_null_vec dec_str);
       Some \<lparr>added = a, updated = u, removed = r\<rparr>
     })"

definition dec_mailbox_change :: "json \<Rightarrow> mailbox_change_record option" where
  "dec_mailbox_change j =
    (if \<not> struct_ok 3 j then None
     else do {
       c \<leftarrow> req j 0 ''Created'' (dec_null_vec dec_str);
       u \<leftarrow> req j 1 ''Updated'' (dec_null_vec dec_str);
       d \<leftarrow> req j 2 ''Destroyed'' (dec_null_vec dec_str);
       Some \<lparr>mb_created = c, mb_updated = u, mb_destroyed = d\<rparr>
     })"

record persisted_state =
  p_state :: int
  p_changes :: "(string, change_record) btree"
  p_mailbox_state :: int
  p_mailbox_changes :: "(string, mailbox_change_record) btree"
  p_submissions :: "jobj list"
  p_submission_state :: int

definition enc_persisted :: "persisted_state \<Rightarrow> json" where
  "enc_persisted p = obj
    [(''state'', JNum (p_state p)),
     (''changes'', enc_map enc_change (p_changes p)),
     (''mailboxState'', JNum (p_mailbox_state p)),
     (''mailboxChanges'', enc_map enc_mailbox_change (p_mailbox_changes p)),
     (''submissions'', null_if_empty (map JObj (p_submissions p))),
     (''submissionState'', JNum (p_submission_state p))]"

definition dec_persisted :: "json \<Rightarrow> persisted_state option" where
  "dec_persisted j =
    (if \<not> struct_ok 6 j then None
     else do {
       a \<leftarrow> req j 0 ''state'' dec_i64;
       b \<leftarrow> req j 1 ''changes'' (dec_map dec_change);
       c \<leftarrow> req j 2 ''mailboxState'' dec_i64;
       d \<leftarrow> req j 3 ''mailboxChanges'' (dec_map dec_mailbox_change);
       e \<leftarrow> req j 4 ''submissions'' (dec_null_vec as_object);
       f \<leftarrow> req j 5 ''submissionState'' dec_i64;
       Some \<lparr>p_state = a, p_changes = b, p_mailbox_state = c, p_mailbox_changes = d,
         p_submissions = e, p_submission_state = f\<rparr>
     })"

definition keyed :: "(int, 'r) btree \<Rightarrow> (string, 'r) btree" where
  "keyed m = bt_of (map (\<lambda>(k, v). (show_int k, v)) m)"

definition unkeyed :: "(string, 'r) btree \<Rightarrow> (int, 'r) btree" where
  "unkeyed m = foldl (\<lambda>acc (k, v). case parse_i64 k of None \<Rightarrow> acc | Some n \<Rightarrow> bt_ins n v acc) [] m"

definition persisted :: "mail_store \<Rightarrow> persisted_state" where
  "persisted s =
    \<lparr>p_state = st s, p_changes = keyed (changes s), p_mailbox_state = mailbox_st s,
     p_mailbox_changes = keyed (mailbox_changes s), p_submissions = submissions s,
     p_submission_state = submission_st s\<rparr>"

definition save_state :: "io \<Rightarrow> mail_store \<Rightarrow> mail_store" where
  "save_state io s = snd (write_file io ''delta.json'' (enc_persisted (persisted s)) s)"

definition load_state :: "mail_store \<Rightarrow> mail_store" where
  "load_state s =
    (case Option.bind (bt_get (disk s) ''delta.json'') dec_persisted of
       None \<Rightarrow> s
     | Some p \<Rightarrow> s\<lparr>st := p_state p, changes := unkeyed (p_changes p),
         mailbox_st := p_mailbox_state p, submission_st := p_submission_state p,
         submissions := (if p_submissions p = [] then submissions s else p_submissions p),
         mailbox_changes := unkeyed (p_mailbox_changes p)\<rparr>)"

definition load_identities :: "mail_store \<Rightarrow> mail_store" where
  "load_identities s =
    (case Option.bind (bt_get (disk s) ''identities.json'') (dec_vec as_object) of
       None \<Rightarrow> s | Some ids \<Rightarrow> s\<lparr>identities := ids\<rparr>)"

text \<open>\<open>open\<close>: files are read in the map's order, a later one replacing an earlier of the same id.\<close>

definition load_messages :: "(string, json) btree \<Rightarrow> (string, email) btree" where
  "load_messages d =
    foldl (\<lambda>acc (p, j).
        if json_file p then
          (case dec_email j of
             Some m \<Rightarrow> if m_id m \<noteq> [] then bt_ins (m_id m) m acc else acc
           | None \<Rightarrow> acc)
        else acc) [] d"

definition open_store :: "(string, json) btree \<Rightarrow> mail_store" where
  "open_store d = load_identities (load_state ((store_new d)\<lparr>msgs := load_messages d\<rparr>))"

section \<open>Messages\<close>

definition store_state :: "mail_store \<Rightarrow> string" where
  "store_state s = show_int (st s)"

definition angle :: "char list" where
  "angle = [CHR ''<'', CHR ''>'']"

definition by_message_id :: "(string, email) btree \<Rightarrow> (string, string) btree" where
  "by_message_id ms = bt_of (concat (map (\<lambda>m.
     map (\<lambda>mid. (trim_matches angle mid, thread_id m))
       (filter (\<lambda>mid. trim_matches angle mid \<noteq> []) (message_id m))) (bt_vals ms)))"

definition group_of :: "email \<Rightarrow> string option" where
  "group_of m = map_option h_value
    (find (\<lambda>h. eq_ignore_ascii_case (h_name h) ''Chat-Group-Id'' \<and> h_value h \<noteq> []) (headers m))"

definition resolve_thread_id :: "email \<Rightarrow> mail_store \<Rightarrow> string" where
  "resolve_thread_id m s =
    (case group_of m of
       Some g \<Rightarrow> ''thr-group-'' @ g
     | None \<Rightarrow>
         (let known = by_message_id (msgs s);
              hits = List.map_filter (\<lambda>r. case bt_get known (trim_matches angle r) of
                         Some t \<Rightarrow> if t \<noteq> [] then Some t else None | None \<Rightarrow> None)
                       (in_reply_to m @ references m) in
          case hits of
            t # _ \<Rightarrow> t
          | [] \<Rightarrow>
              (case message_id m of
                 mid # _ \<Rightarrow> if mid \<noteq> [] then ''thr-'' @ mid else ''thr-'' @ m_id m
               | [] \<Rightarrow> ''thr-'' @ m_id m)))"

definition bump :: "io \<Rightarrow> change_record \<Rightarrow> mail_store \<Rightarrow> mail_store" where
  "bump io r s =
    save_state io (s\<lparr>st := st s + 1, changes := bt_ins (st s + 1) r (changes s)\<rparr>)"

definition put :: "io \<Rightarrow> email \<Rightarrow> mail_store \<Rightarrow> (string + unit) \<times> mail_store" where
  "put io msg s =
    (let msg = (if thread_id msg = [] then msg\<lparr>thread_id := resolve_thread_id msg s\<rparr> else msg) in
     case write_file io (msg_path (m_id msg)) (enc_email msg) s of
       (Inl e, s1) \<Rightarrow> (Inl e, s1)
     | (Inr _, s1) \<Rightarrow>
         (let existed = bt_get (msgs s1) (m_id msg) \<noteq> None;
              s2 = s1\<lparr>msgs := bt_ins (m_id msg) msg (msgs s1)\<rparr> in
          (Inr (), if existed then s2
                   else bump io \<lparr>added = [m_id msg], updated = [], removed = []\<rparr> s2)))"

definition get_email :: "string \<Rightarrow> mail_store \<Rightarrow> email option" where
  "get_email i s = (case bt_get (msgs s) i of Some m \<Rightarrow> Some m | None \<Rightarrow> bt_get (pending s) i)"

definition delete :: "io \<Rightarrow> string \<Rightarrow> mail_store \<Rightarrow> mail_store" where
  "delete io i s =
    (let s1 = (if bt_get (msgs s) i \<noteq> None
               then bump io \<lparr>added = [], updated = [], removed = [i]\<rparr>
                      (s\<lparr>msgs := bt_del i (msgs s)\<rparr>)
               else s) in
     s1\<lparr>disk := bt_del (msg_path i) (disk s1)\<rparr>)"

definition purge :: "io \<Rightarrow> mail_store \<Rightarrow> nat \<times> mail_store" where
  "purge io s =
    (let ids = bt_keys (msgs s);
         s1 = (if ids \<noteq> []
               then bump io \<lparr>added = [], updated = [], removed = ids\<rparr> (s\<lparr>msgs := []\<rparr>)
               else s\<lparr>msgs := []\<rparr>) in
     (length ids, s1\<lparr>disk := filter (\<lambda>(p, _). \<not> json_file p) (disk s1)\<rparr>))"

text \<open>The receive time, or the epoch.\<close>

definition email_time :: "(string \<Rightarrow> int option) \<Rightarrow> email \<Rightarrow> int" where
  "email_time ts m =
    (case received_at m of None \<Rightarrow> 0 | Some t \<Rightarrow> (case ts t of None \<Rightarrow> 0 | Some n \<Rightarrow> n))"

definition all_emails :: "(string \<Rightarrow> int option) \<Rightarrow> mail_store \<Rightarrow> email list" where
  "all_emails ts s = sort_key (\<lambda>m. - email_time ts m) (bt_vals (msgs s))"

definition matching_ids ::
  "(string \<Rightarrow> int option) \<Rightarrow> (email \<Rightarrow> bool) \<Rightarrow> mail_store \<Rightarrow> string list" where
  "matching_ids ts keep s =
    map snd (sort_key (\<lambda>p. - fst p)
      (map (\<lambda>m. (email_time ts m, m_id m)) (filter keep (bt_vals (msgs s)))))"

definition patch_entry :: "bool \<Rightarrow> email \<Rightarrow> string \<times> json \<Rightarrow> email" where
  "patch_entry mailboxes_too cp kv =
    (case kv of (k, v) \<Rightarrow>
      (case strip_prefix ''keywords/'' k of
         Some kw \<Rightarrow>
           (case v of
              JBool b \<Rightarrow> cp\<lparr>m_keywords := bt_ins kw b (m_keywords cp)\<rparr>
            | JNull \<Rightarrow> (if mailboxes_too then cp\<lparr>m_keywords := bt_del kw (m_keywords cp)\<rparr> else cp)
            | _ \<Rightarrow> cp)
       | None \<Rightarrow>
           (case (if mailboxes_too then strip_prefix ''mailboxIds/'' k else None) of
              Some mb \<Rightarrow>
                (case v of
                   JBool b \<Rightarrow> cp\<lparr>mailbox_ids := bt_ins mb b (mailbox_ids cp)\<rparr>
                 | JNull \<Rightarrow> cp\<lparr>mailbox_ids := bt_del mb (mailbox_ids cp)\<rparr>
                 | _ \<Rightarrow> cp)
            | None \<Rightarrow> cp)))"

definition patch_store ::
  "io \<Rightarrow> string \<Rightarrow> jobj \<Rightarrow> bool \<Rightarrow> mail_store \<Rightarrow> (string + unit) \<times> mail_store" where
  "patch_store io i p mailboxes_too s =
    (case bt_get (msgs s) i of
       None \<Rightarrow> (Inr (), s)
     | Some m \<Rightarrow>
         (let cp = foldl (patch_entry mailboxes_too) m p;
              s1 = bump io \<lparr>added = [], updated = [i], removed = []\<rparr>
                     (s\<lparr>msgs := bt_ins i cp (msgs s)\<rparr>) in
          write_file io (msg_path i) (enc_email cp) s1))"

definition patch_keywords :: "io \<Rightarrow> string \<Rightarrow> jobj \<Rightarrow> mail_store \<Rightarrow> (string + unit) \<times> mail_store" where
  "patch_keywords io i p s = patch_store io i p False s"

definition patch_email :: "io \<Rightarrow> string \<Rightarrow> jobj \<Rightarrow> mail_store \<Rightarrow> (string + unit) \<times> mail_store" where
  "patch_email io i p s = patch_store io i p True s"

definition put_pending :: "email \<Rightarrow> mail_store \<Rightarrow> mail_store" where
  "put_pending m s = s\<lparr>pending := bt_ins (m_id m) m (pending s)\<rparr>"

definition take_pending :: "string \<Rightarrow> mail_store \<Rightarrow> email option \<times> mail_store" where
  "take_pending i s = (bt_get (pending s) i, s\<lparr>pending := bt_del i (pending s)\<rparr>)"

section \<open>Mailboxes\<close>

definition put_mailboxes :: "io \<Rightarrow> mailbox list \<Rightarrow> mail_store \<Rightarrow> (string + unit) \<times> mail_store" where
  "put_mailboxes io mbs s = write_file io ''mailboxes.json'' (enc_vec enc_mailbox mbs) s"

definition mailboxes :: "mail_store \<Rightarrow> mailbox list" where
  "mailboxes s =
    (case Option.bind (bt_get (disk s) ''mailboxes.json'') (dec_vec dec_mailbox) of
       None \<Rightarrow> [] | Some mbs \<Rightarrow> mbs)"

definition mailbox_state :: "mail_store \<Rightarrow> string" where
  "mailbox_state s = show_int (mailbox_st s)"

definition bump_mailbox_state :: "io \<Rightarrow> mailbox_change_record \<Rightarrow> mail_store \<Rightarrow> mail_store" where
  "bump_mailbox_state io r s =
    save_state io (s\<lparr>mailbox_st := mailbox_st s + 1,
      mailbox_changes := bt_ins (mailbox_st s + 1) r (mailbox_changes s)\<rparr>)"

definition sync_mailboxes :: "io \<Rightarrow> mailbox list \<Rightarrow> mail_store \<Rightarrow> (string + unit) \<times> mail_store" where
  "sync_mailboxes io mbs s =
    (let existing = bs_of (map b_id (mailboxes s));
         incoming = bs_of (map b_id mbs);
         created = filter (\<lambda>i. \<not> bs_mem i existing) (bt_keys incoming);
         destroyed = filter (\<lambda>i. \<not> bs_mem i incoming) (bt_keys existing) in
     if created = [] \<and> destroyed = [] then (Inr (), s)
     else
       (case put_mailboxes io mbs s of
          (Inl e, s1) \<Rightarrow> (Inl e, s1)
        | (Inr _, s1) \<Rightarrow>
            (Inr (), bump_mailbox_state io
               \<lparr>mb_created = created, mb_updated = [], mb_destroyed = destroyed\<rparr> s1)))"

section \<open>Identities, vacation, blobs, submissions\<close>

definition identity_state :: "mail_store \<Rightarrow> string" where
  "identity_state s = show_int (identity_st s)"

definition set_identities :: "io \<Rightarrow> jobj list \<Rightarrow> mail_store \<Rightarrow> mail_store" where
  "set_identities io ids s =
    snd (write_file io ''identities.json'' (JArr (map JObj ids)) (s\<lparr>identities := ids\<rparr>))"

definition replace_identities :: "io \<Rightarrow> jobj list \<Rightarrow> int \<Rightarrow> mail_store \<Rightarrow> mail_store" where
  "replace_identities io ids bumps s =
    snd (write_file io ''identities.json'' (JArr (map JObj ids))
      (s\<lparr>identities := ids, identity_st := identity_st s + bumps\<rparr>))"

definition default_identity :: "string \<Rightarrow> jobj" where
  "default_identity account =
    (let name = (case split_once (CHR ''@'') account of Some (l, _) \<Rightarrow> l | None \<Rightarrow> account) in
     bt_of [(''id'', JStr (''identity-'' @ account)), (''name'', JStr name), (''email'', JStr account),
       (''replyTo'', JNull), (''bcc'', JNull), (''textSignature'', JStr []),
       (''htmlSignature'', JStr []), (''mayDelete'', JBool False)])"

definition set_vacation :: "jobj option \<Rightarrow> mail_store \<Rightarrow> mail_store" where
  "set_vacation v s = s\<lparr>vacation := v\<rparr>"

definition put_blob :: "(string \<Rightarrow> string) \<Rightarrow> string \<Rightarrow> mail_store \<Rightarrow> string \<times> mail_store" where
  "put_blob sha data s =
    (let i = ''blob-'' @ sha data in (i, s\<lparr>blobs := bt_ins i data (blobs s)\<rparr>))"

definition get_blob :: "string \<Rightarrow> mail_store \<Rightarrow> string option" where
  "get_blob i s = bt_get (blobs s) i"

definition add_submission :: "io \<Rightarrow> jobj \<Rightarrow> mail_store \<Rightarrow> mail_store" where
  "add_submission io sub s =
    save_state io (s\<lparr>submissions := submissions s @ [sub], submission_st := submission_st s + 1\<rparr>)"

definition submission_state :: "mail_store \<Rightarrow> string" where
  "submission_state s = show_int (submission_st s)"

end
