(* ===== verification/StoreLog.thy ===== *)
theory StoreLog
  imports Store
begin

text \<open>
  The store's operations as one type, and the change log as an instance of the contract of
  theory \<open>ChangeLog\<close>: whatever runs between two points in time, and whatever the disk does,
  the log between the two versions tells exactly which messages came and went.
\<close>

section \<open>Operations\<close>

datatype store_op =
    Put email
  | Delete string
  | Purge
  | Patch string jobj bool
  | PutPending email
  | TakePending string
  | SyncMailboxes "mailbox list"
  | SetMailboxes "mailbox list" mailbox_change_record
  | SetIdentities "jobj list"
  | ReplaceIdentities "jobj list" int
  | SetVacation "jobj option"
  | PutBlob string
  | AddSubmission jobj

text \<open>\<open>SetMailboxes\<close> is what \<open>Mailbox/set\<close> does at its end: write the list, then bump.\<close>

fun run_op :: "io \<Rightarrow> (string \<Rightarrow> string) \<Rightarrow> store_op \<Rightarrow> mail_store \<Rightarrow> mail_store" where
  "run_op io sha (Put m) s = snd (put io m s)"
| "run_op io sha (Delete i) s = delete io i s"
| "run_op io sha Purge s = snd (purge io s)"
| "run_op io sha (Patch i p b) s = snd (patch_store io i p b s)"
| "run_op io sha (PutPending m) s = put_pending m s"
| "run_op io sha (TakePending i) s = snd (take_pending i s)"
| "run_op io sha (SyncMailboxes mbs) s = snd (sync_mailboxes io mbs s)"
| "run_op io sha (SetMailboxes mbs r) s = bump_mailbox_state io r (snd (put_mailboxes io mbs s))"
| "run_op io sha (SetIdentities ids) s = set_identities io ids s"
| "run_op io sha (ReplaceIdentities ids n) s = replace_identities io ids n s"
| "run_op io sha (SetVacation v) s = set_vacation v s"
| "run_op io sha (PutBlob d) s = snd (put_blob sha d s)"
| "run_op io sha (AddSubmission sub) s = add_submission io sub s"

text \<open>One operation, with whatever the disk does that time.\<close>

definition store_step :: "(string \<Rightarrow> string) \<Rightarrow> mail_store \<Rightarrow> mail_store \<Rightarrow> bool" where
  "store_step sha s t \<longleftrightarrow> (\<exists>io op. t = run_op io sha op s)"

text \<open>The steps that overwrite no message: \<open>put\<close> of a known id records nothing.\<close>

definition tracked_step :: "(string \<Rightarrow> string) \<Rightarrow> mail_store \<Rightarrow> mail_store \<Rightarrow> bool" where
  "tracked_step sha s t \<longleftrightarrow> (\<exists>io op. t = run_op io sha op s \<and>
     (\<forall>m. op = Put m \<longrightarrow> bt_get (msgs s) (m_id m) = None))"

section \<open>What each helper leaves alone\<close>

lemma write_file_sel [simp]:
  "msgs (snd (write_file io p c s)) = msgs s" "pending (snd (write_file io p c s)) = pending s"
  "st (snd (write_file io p c s)) = st s" "changes (snd (write_file io p c s)) = changes s"
  "mailbox_st (snd (write_file io p c s)) = mailbox_st s"
  "mailbox_changes (snd (write_file io p c s)) = mailbox_changes s"
  "identities (snd (write_file io p c s)) = identities s"
  "submissions (snd (write_file io p c s)) = submissions s"
  "submission_st (snd (write_file io p c s)) = submission_st s"
  "identity_st (snd (write_file io p c s)) = identity_st s"
  by (simp_all add: write_file_def split: option.split)

lemma write_file_selE:
  "write_file io p c s = (r, t) \<Longrightarrow> msgs t = msgs s \<and> st t = st s \<and> changes t = changes s
     \<and> mailbox_st t = mailbox_st s \<and> mailbox_changes t = mailbox_changes s"
  using write_file_sel [of io p c s] by (metis snd_conv)

lemma save_state_sel [simp]:
  "msgs (save_state io s) = msgs s" "st (save_state io s) = st s" "changes (save_state io s) = changes s"
  "mailbox_st (save_state io s) = mailbox_st s" "mailbox_changes (save_state io s) = mailbox_changes s"
  "identities (save_state io s) = identities s" "submissions (save_state io s) = submissions s"
  "submission_st (save_state io s) = submission_st s" "pending (save_state io s) = pending s"
  by (simp_all add: save_state_def)

lemma bump_sel [simp]:
  "msgs (bump io r s) = msgs s" "st (bump io r s) = st s + 1"
  "changes (bump io r s) = bt_ins (st s + 1) r (changes s)"
  "mailbox_st (bump io r s) = mailbox_st s" "mailbox_changes (bump io r s) = mailbox_changes s"
  by (simp_all add: bump_def)

lemma bump_mailbox_sel [simp]:
  "msgs (bump_mailbox_state io r s) = msgs s" "st (bump_mailbox_state io r s) = st s"
  "changes (bump_mailbox_state io r s) = changes s"
  "mailbox_st (bump_mailbox_state io r s) = mailbox_st s + 1"
  "mailbox_changes (bump_mailbox_state io r s) = bt_ins (mailbox_st s + 1) r (mailbox_changes s)"
  by (simp_all add: bump_mailbox_state_def)

lemma put_cases:
  obtains (failed) t where "snd (put io m s) = t" "msgs t = msgs s" "st t = st s" "changes t = changes s"
  | (over) t m' where "snd (put io m s) = t" "msgs t = bt_ins (m_id m) m' (msgs s)"
      "bt_get (msgs s) (m_id m) \<noteq> None" "st t = st s" "changes t = changes s"
  | (new) t m' where "snd (put io m s) = t" "msgs t = bt_ins (m_id m) m' (msgs s)"
      "bt_get (msgs s) (m_id m) = None" "st t = st s + 1"
      "changes t = bt_ins (st s + 1) \<lparr>added = [m_id m], updated = [], removed = []\<rparr> (changes s)"
proof -
  define m' where "m' = (if thread_id m = [] then m\<lparr>thread_id := resolve_thread_id m s\<rparr> else m)"
  have id: "m_id m' = m_id m" by (simp add: m'_def)
  obtain r s1 where w: "write_file io (msg_path (m_id m')) (enc_email m') s = (r, s1)" by fastforce
  note sel = write_file_selE [OF w]
  have p: "put io m s = (case (r, s1) of (Inl e, s1) \<Rightarrow> (Inl e, s1)
     | (Inr _, s1) \<Rightarrow>
         (let existed = bt_get (msgs s1) (m_id m') \<noteq> None;
              s2 = s1\<lparr>msgs := bt_ins (m_id m') m' (msgs s1)\<rparr> in
          (Inr (), if existed then s2
                   else bump io \<lparr>added = [m_id m'], updated = [], removed = []\<rparr> s2)))"
    unfolding put_def Let_def m'_def [symmetric] w by simp
  show ?thesis
  proof (cases r)
    case (Inl e)
    then show ?thesis using p sel failed by simp
  next
    case (Inr u)
    then show ?thesis
      using p sel id over new by (cases "bt_get (msgs s) (m_id m) = None") (simp_all add: Let_def)
  qed
qed

lemma patch_cases:
  "snd (patch_store io i p b s) = s \<or>
   (\<exists>m cp. bt_get (msgs s) i = Some m \<and> msgs (snd (patch_store io i p b s)) = bt_ins i cp (msgs s) \<and>
      st (snd (patch_store io i p b s)) = st s + 1 \<and>
      changes (snd (patch_store io i p b s))
        = bt_ins (st s + 1) \<lparr>added = [], updated = [i], removed = []\<rparr> (changes s))"
  by (auto simp: patch_store_def Let_def split: option.splits)

lemma other_ops:
  assumes "\<nexists>m. op = Put m" "\<nexists>i. op = Delete i" "op \<noteq> Purge" "\<nexists>i p b. op = Patch i p b"
  shows "msgs (run_op io sha op s) = msgs s" "st (run_op io sha op s) = st s"
    "changes (run_op io sha op s) = changes s"
proof -
  have "msgs (snd (sync_mailboxes io mbs s)) = msgs s \<and> st (snd (sync_mailboxes io mbs s)) = st s
      \<and> changes (snd (sync_mailboxes io mbs s)) = changes s" for mbs
    by (auto simp: sync_mailboxes_def Let_def put_mailboxes_def dest!: write_file_selE split: sum.split prod.split)
  then show "msgs (run_op io sha op s) = msgs s" "st (run_op io sha op s) = st s"
    "changes (run_op io sha op s) = changes s"
    using assms
    by (cases op; simp add: put_pending_def take_pending_def put_mailboxes_def set_identities_def
        replace_identities_def set_vacation_def put_blob_def Let_def add_submission_def)+
qed

lemma purge_cleared: "msgs (snd (purge io s)) = []"
  by (simp add: purge_def Let_def)

section \<open>The change log's contract\<close>

lemma run_op_versioned:
  "(st (run_op io sha op s) = st s \<and> changes (run_op io sha op s) = changes s \<and>
    dom (bt_get (msgs (run_op io sha op s))) = dom (bt_get (msgs s))) \<or>
   (\<exists>r. st (run_op io sha op s) = st s + 1 \<and>
     changes (run_op io sha op s) = bt_ins (st (run_op io sha op s)) r (changes s) \<and>
     dom (bt_get (msgs (run_op io sha op s))) = (dom (bt_get (msgs s)) \<union> set (added r)) - set (removed r))"
proof (cases op)
  case (Put m)
  then show ?thesis
    by (cases rule: put_cases [of io m s]) (auto simp: dom_def)
next
  case (Delete i)
  then show ?thesis by (auto simp: delete_def Let_def dom_def)
next
  case Purge
  have k: "set (bt_keys (msgs s)) = dom (bt_get (msgs s))"
    by (auto simp: bt_keys_set)
  show ?thesis
  proof (cases "bt_keys (msgs s) = []")
    case True
    then show ?thesis using Purge k by (simp add: purge_def Let_def dom_def)
  next
    case False
    then show ?thesis
      using Purge k
      by (intro disjI2 exI [of _ "\<lparr>added = [], updated = [], removed = bt_keys (msgs s)\<rparr>"])
         (simp add: purge_def Let_def dom_def)
  qed
next
  case (Patch i p b)
  then show ?thesis
    using patch_cases [of io i p b s]
  proof (elim disjE exE conjE)
    fix m cp
    assume "bt_get (msgs s) i = Some m" "msgs (snd (patch_store io i p b s)) = bt_ins i cp (msgs s)"
      "st (snd (patch_store io i p b s)) = st s + 1"
      "changes (snd (patch_store io i p b s))
        = bt_ins (st s + 1) \<lparr>added = [], updated = [i], removed = []\<rparr> (changes s)"
    then show ?thesis
      using Patch
      by (intro disjI2 exI [of _ "\<lparr>added = [], updated = [i], removed = []\<rparr>"]) (auto simp: dom_def)
  qed simp
qed (use other_ops [of op io sha s] in simp_all)

interpretation mail: versioned "store_step sha" st changes "\<lambda>s. dom (bt_get (msgs s))"
    added updated removed for sha
proof unfold_locales
  fix s t
  assume "store_step sha s t"
  then obtain io op where t: "t = run_op io sha op s" by (auto simp: store_step_def)
  show "(st t = st s \<and> changes t = changes s \<and> dom (bt_get (msgs t)) = dom (bt_get (msgs s))) \<or>
      (\<exists>r. st t = st s + 1 \<and> changes t = bt_ins (st t) r (changes s) \<and>
        dom (bt_get (msgs t)) = (dom (bt_get (msgs s)) \<union> set (added r)) - set (removed r))"
    unfolding t by (rule run_op_versioned)
qed

lemma run_op_items:
  assumes "\<forall>m. op = Put m \<longrightarrow> bt_get (msgs s) (m_id m) = None"
    and "bt_get (msgs (run_op io sha op s)) i \<noteq> bt_get (msgs s) i"
  shows "\<exists>r. st (run_op io sha op s) = st s + 1 \<and>
    bt_get (changes (run_op io sha op s)) (st (run_op io sha op s)) = Some r \<and>
    i \<in> set (added r) \<union> set (updated r) \<union> set (removed r)"
proof (cases op)
  case (Put m)
  then show ?thesis
    using assms by (cases rule: put_cases [of io m s]) (auto split: if_splits)
next
  case (Delete j)
  then show ?thesis using assms by (auto simp: delete_def Let_def split: if_splits)
next
  case Purge
  then have "bt_get (msgs s) i \<noteq> None" using assms by (metis bt_get_Nil bump_sel(1) purge_cleared run_op.simps(3))
  then have "i \<in> set (bt_keys (msgs s))" by (simp add: bt_keys_set)
  then show ?thesis using Purge by (auto simp: purge_def Let_def)
next
  case (Patch j p b)
  then show ?thesis
    using assms patch_cases [of io j p b s] by (auto split: if_splits)
qed (use assms other_ops [of op io sha s] in simp_all)

interpretation mail_items: versioned_items "tracked_step sha" st changes "\<lambda>s. bt_get (msgs s)"
    added updated removed for sha
proof unfold_locales
  fix s t
  assume "tracked_step sha s t"
  then obtain io op where t: "t = run_op io sha op s" by (auto simp: tracked_step_def)
  show "(st t = st s \<and> changes t = changes s \<and> dom (bt_get (msgs t)) = dom (bt_get (msgs s))) \<or>
      (\<exists>r. st t = st s + 1 \<and> changes t = bt_ins (st t) r (changes s) \<and>
        dom (bt_get (msgs t)) = (dom (bt_get (msgs s)) \<union> set (added r)) - set (removed r))"
    unfolding t by (rule run_op_versioned)
next
  fix s t i
  assume "tracked_step sha s t" "bt_get (msgs t) i \<noteq> bt_get (msgs s) i"
  then obtain io op where t: "t = run_op io sha op s" "\<forall>m. op = Put m \<longrightarrow> bt_get (msgs s) (m_id m) = None"
      "bt_get (msgs (run_op io sha op s)) i \<noteq> bt_get (msgs s) i"
    by (auto simp: tracked_step_def)
  show "\<exists>r. st t = st s + 1 \<and> bt_get (changes t) (st t) = Some r \<and>
      i \<in> set (added r) \<union> set (updated r) \<union> set (removed r)"
    unfolding t(1) by (rule run_op_items [OF t(2,3)])
qed

end
