(* ===== verification/Methods.thy ===== *)
theory Methods
  imports StoreLog
begin

text \<open>
  What the JMAP method handlers share (\<open>crates/jmapserver/src/methods/mod.rs\<close>): errors, hooks,
  argument decoding, and the collected result of a \<open>*/set\<close>; and \<open>Thread/*\<close>, \<open>Identity/*\<close>,
  \<open>EmailSubmission/*\<close>, \<open>VacationResponse/*\<close> and \<open>SearchSnippet/get\<close>. A handler is a function
  of the account id, the arguments and the store; those that write also return the store.
  A request whose decoding fails anywhere is the default request: \<open>unwrap_or_default\<close>.
\<close>

section \<open>Shared\<close>

datatype method_error = CannotCalculateChanges | UnknownMethod string | ServerFail string

fun error_type :: "method_error \<Rightarrow> string" where
  "error_type CannotCalculateChanges = ''cannotCalculateChanges''"
| "error_type _ = ''serverFail''"

fun show_method_error :: "method_error \<Rightarrow> string" where
  "show_method_error CannotCalculateChanges = ''cannotCalculateChanges''"
| "show_method_error (UnknownMethod m) = ''unknown method: '' @ m"
| "show_method_error (ServerFail m) = m"

definition err_obj :: "string \<Rightarrow> string \<Rightarrow> json" where
  "err_obj typ desc = obj [(''type'', JStr typ), (''description'', JStr desc)]"

definition parse_since :: "string \<Rightarrow> method_error + int" where
  "parse_since s =
    (case parse_i64 s of
       Some n \<Rightarrow> if 0 \<le> n then Inr n else Inl CannotCalculateChanges
     | None \<Rightarrow> Inl CannotCalculateChanges)"

text \<open>
  The hooks the application installs (\<open>store.rs\<close>); each may call back into the store. The
  environment holds what lies outside the handlers: the disk, the time parser, SHA-256, Unicode
  lower-casing, the quoted form of a string, and the MIME parser.
\<close>

record hooks =
  create_email :: "(json \<Rightarrow> mail_store \<Rightarrow> (string + email) \<times> mail_store) option"
  submit_email :: "(email \<Rightarrow> envelope \<Rightarrow> mail_store \<Rightarrow> (string + unit) \<times> mail_store) option"
  set_identity :: "(string \<Rightarrow> string \<Rightarrow> jobj option \<Rightarrow> mail_store \<Rightarrow> (string + unit) \<times> mail_store) option"
  set_mailbox :: "(string \<Rightarrow> string \<Rightarrow> mailbox option \<Rightarrow> mail_store \<Rightarrow> (string + unit) \<times> mail_store) option"
  destroy_email :: "(string \<Rightarrow> mail_store \<Rightarrow> (string + unit) \<times> mail_store) option"
  update_email :: "(string \<Rightarrow> jobj \<Rightarrow> mail_store \<Rightarrow> (string + unit) \<times> mail_store) option"

definition no_hooks :: hooks where
  "no_hooks = \<lparr>create_email = None, submit_email = None, set_identity = None, set_mailbox = None,
     destroy_email = None, update_email = None\<rparr>"

record jenv =
  j_io :: io
  j_ts :: "string \<Rightarrow> int option"
  j_sha :: "string \<Rightarrow> string"
  j_lc :: "string \<Rightarrow> string"
  j_dbg :: "string \<Rightarrow> string"
  j_mime :: "string \<Rightarrow> string \<Rightarrow> email option"

text \<open>An optional hook that may refuse: \<open>Inr ()\<close> when there is none.\<close>

definition ask :: "(mail_store \<Rightarrow> (string + unit) \<times> mail_store) option \<Rightarrow> mail_store
    \<Rightarrow> (string + unit) \<times> mail_store" where
  "ask h s = (case h of None \<Rightarrow> (Inr (), s) | Some f \<Rightarrow> f s)"

definition or_default :: "'a \<Rightarrow> 'a option \<Rightarrow> 'a" where
  "or_default def x = (case x of None \<Rightarrow> def | Some v \<Rightarrow> v)"

text \<open>A request struct with one field.\<close>

definition one_field :: "string \<Rightarrow> (json \<Rightarrow> 'a option) \<Rightarrow> 'a \<Rightarrow> json \<Rightarrow> 'a" where
  "one_field n d def j = or_default def (if struct_ok 1 j then fld j 0 n d def else None)"

definition str_arr :: "string list \<Rightarrow> json" where
  "str_arr xs = JArr (map JStr xs)"

definition set_arr :: "string bset \<Rightarrow> json" where
  "set_arr s = str_arr (bt_keys s)"

definition changes_response ::
  "string \<Rightarrow> string \<Rightarrow> string \<Rightarrow> string bset \<Rightarrow> string bset \<Rightarrow> string bset \<Rightarrow> json" where
  "changes_response acct old new c u d =
    obj [(''accountId'', JStr acct), (''oldState'', JStr old), (''newState'', JStr new),
      (''hasMoreChanges'', JBool False), (''created'', set_arr c), (''updated'', set_arr u),
      (''destroyed'', set_arr d)]"

definition query_changes_response ::
  "string \<Rightarrow> string \<Rightarrow> string \<Rightarrow> string bset \<Rightarrow> string bset \<Rightarrow> json" where
  "query_changes_response acct old new add rem =
    obj [(''accountId'', JStr acct), (''oldQueryState'', JStr old), (''newQueryState'', JStr new),
      (''removed'', set_arr rem),
      (''added'', JArr (map (\<lambda>(i, x). obj [(''id'', JStr x), (''index'', JNum (int i))])
                         (enumerate 0 (bt_keys add))))]"

text \<open>What a \<open>*/set\<close> collects.\<close>

record set_acc =
  created :: jobj
  not_created :: jobj
  upd_ok :: jobj
  not_updated :: jobj
  destroyed :: "string list"
  not_destroyed :: jobj

definition set_acc_new :: set_acc where
  "set_acc_new = \<lparr>created = [], not_created = [], upd_ok = [], not_updated = [], destroyed = [],
     not_destroyed = []\<rparr>"

definition set_response :: "string \<Rightarrow> string \<Rightarrow> string \<Rightarrow> set_acc \<Rightarrow> json" where
  "set_response acct old new a =
    obj [(''accountId'', JStr acct), (''oldState'', JStr old), (''newState'', JStr new),
      (''created'', JObj (created a)), (''updated'', JObj (upd_ok a)),
      (''destroyed'', str_arr (destroyed a)), (''notCreated'', JObj (not_created a)),
      (''notUpdated'', JObj (not_updated a)), (''notDestroyed'', JObj (not_destroyed a))]"

section \<open>Thread\<close>

definition thread_entry :: "(string \<Rightarrow> int option) \<Rightarrow> (string, (int \<times> string) list) btree \<Rightarrow> email
    \<Rightarrow> (string, (int \<times> string) list) btree" where
  "thread_entry ts by m =
    (if thread_id m = [] then by
     else bt_ins (thread_id m)
       ((case bt_get by (thread_id m) of None \<Rightarrow> [] | Some l \<Rightarrow> l) @ [(email_time ts m, m_id m)]) by)"

text \<open>\<open>entries.sort()\<close> on pairs: by time, then by id.\<close>

definition sort_entries :: "(int \<times> string) list \<Rightarrow> (int \<times> string) list" where
  "sort_entries l = sort_key fst (sort_key snd l)"

definition thread_get :: "(string \<Rightarrow> int option) \<Rightarrow> string \<Rightarrow> json \<Rightarrow> mail_store \<Rightarrow> json" where
  "thread_get ts acct args s =
    (let by = map (\<lambda>(t, l). (t, sort_entries l)) (foldl (thread_entry ts) [] (all_emails ts s));
         ids = one_field ''ids'' (dec_vec dec_str) [] args in
     obj [(''accountId'', JStr acct), (''state'', JStr (store_state s)),
       (''list'', JArr (List.map_filter (\<lambda>t. map_option (\<lambda>l.
           obj [(''id'', JStr t), (''emailIds'', str_arr (map snd l))]) (bt_get by t)) ids)),
       (''notFound'', str_arr (filter (\<lambda>t. bt_get by t = None) ids))])"

definition thread_changes :: "string \<Rightarrow> json \<Rightarrow> mail_store \<Rightarrow> method_error + json" where
  "thread_changes acct args s =
    (let old = one_field ''sinceState'' dec_str [] args; cur = st s in
     case parse_since old of
       Inl e \<Rightarrow> Inl e
     | Inr since \<Rightarrow>
         if cur < since then Inl CannotCalculateChanges
         else
           (case fold_versions (\<lambda>r acc. add_all (added r @ updated r @ removed r) acc)
                   (changes s) [since + 1..cur] [] of
              None \<Rightarrow> Inl CannotCalculateChanges
            | Some emails \<Rightarrow>
                (let threads = List.map_filter (\<lambda>i. case get_email i s of
                       Some m \<Rightarrow> if thread_id m \<noteq> [] then Some (thread_id m) else None
                     | None \<Rightarrow> None) (bt_keys emails) in
                 Inr (changes_response acct old (show_int cur) [] (bs_of threads) []))))"

section \<open>Identity\<close>

definition identity_get :: "string \<Rightarrow> mail_store \<Rightarrow> json" where
  "identity_get acct s =
    (let ids = (if identities s = [] then [default_identity acct] else identities s) in
     obj [(''accountId'', JStr acct), (''state'', JStr (identity_state s)),
       (''list'', JArr (map JObj ids)), (''notFound'', JArr [])])"

definition identity_changes :: "string \<Rightarrow> json \<Rightarrow> mail_store \<Rightarrow> json" where
  "identity_changes acct args s =
    changes_response acct (one_field ''sinceState'' dec_str [] args) (identity_state s) [] [] []"

definition has_id :: "string \<Rightarrow> jobj \<Rightarrow> bool" where
  "has_id i o' \<longleftrightarrow> get_str o' ''id'' = Some i"

fun position :: "('a \<Rightarrow> bool) \<Rightarrow> 'a list \<Rightarrow> nat option" where
  "position p [] = None"
| "position p (x # xs) = (if p x then Some 0 else map_option Suc (position p xs))"

text \<open>\<open>merged.extend(patch)\<close>.\<close>

definition extend_obj :: "jobj \<Rightarrow> jobj \<Rightarrow> jobj" where
  "extend_obj base patch = foldl (\<lambda>m (k, v). bt_ins k v m) base patch"

record id_loop =
  il_ids :: "jobj list"
  il_bumps :: int
  il_acc :: set_acc
  il_store :: mail_store

definition identity_create :: "hooks \<Rightarrow> id_loop \<Rightarrow> string \<times> json \<Rightarrow> id_loop" where
  "identity_create h l kv =
    (case kv of (key, raw) \<Rightarrow>
      (case as_object raw of
         None \<Rightarrow> l\<lparr>il_acc := (il_acc l)\<lparr>not_created := bt_ins key
             (err_obj ''invalidProperties'' ''identity must be an object'') (not_created (il_acc l))\<rparr>\<rparr>
       | Some data0 \<Rightarrow>
           (let new_id = (case get_str data0 ''id'' of
                            Some v \<Rightarrow> if v \<noteq> [] then v else ''identity-'' @ key
                          | None \<Rightarrow> ''identity-'' @ key);
                data = bt_ins ''id'' (JStr new_id) data0 in
            case ask (map_option (\<lambda>f. f ''create'' new_id (Some data)) (set_identity h)) (il_store l) of
              (Inl e, s) \<Rightarrow> l\<lparr>il_store := s, il_acc := (il_acc l)\<lparr>not_created :=
                  bt_ins key (err_obj ''serverFail'' e) (not_created (il_acc l))\<rparr>\<rparr>
            | (Inr _, s) \<Rightarrow> l\<lparr>il_store := s, il_ids := il_ids l @ [data], il_bumps := il_bumps l + 1,
                il_acc := (il_acc l)\<lparr>created :=
                  bt_ins key (obj [(''id'', JStr new_id)]) (created (il_acc l))\<rparr>\<rparr>)))"

definition identity_update :: "hooks \<Rightarrow> string \<Rightarrow> id_loop \<Rightarrow> string \<times> json \<Rightarrow> id_loop" where
  "identity_update h acct l kv =
    (case kv of (i, raw) \<Rightarrow>
      (let existing = position (has_id i) (il_ids l);
           refuse = (\<lambda>e s. l\<lparr>il_store := s, il_acc := (il_acc l)\<lparr>not_updated :=
             bt_ins i e (not_updated (il_acc l))\<rparr>\<rparr>);
           base = (case existing of
                     Some n \<Rightarrow> Some (il_ids l ! n)
                   | None \<Rightarrow> if i = ''identity-'' @ acct then Some (default_identity acct) else None) in
       case base of
         None \<Rightarrow> refuse (err_obj ''notFound'' ''identity not found'') (il_store l)
       | Some b \<Rightarrow>
           (case as_object raw of
              None \<Rightarrow> refuse (err_obj ''invalidProperties'' ''patch must be an object'') (il_store l)
            | Some patch \<Rightarrow>
                (let merged = extend_obj b patch;
                     opn = (if existing \<noteq> None then ''update'' else ''create'') in
                 case ask (map_option (\<lambda>f. f opn i (Some merged)) (set_identity h)) (il_store l) of
                   (Inl e, s) \<Rightarrow> refuse (err_obj ''serverFail'' e) s
                 | (Inr _, s) \<Rightarrow> l\<lparr>il_store := s,
                     il_ids := (case existing of Some n \<Rightarrow> (il_ids l)[n := merged]
                                | None \<Rightarrow> il_ids l @ [merged]),
                     il_bumps := il_bumps l + 1,
                     il_acc := (il_acc l)\<lparr>upd_ok := bt_ins i (JObj []) (upd_ok (il_acc l))\<rparr>\<rparr>))))"

definition identity_destroy :: "hooks \<Rightarrow> id_loop \<Rightarrow> string \<Rightarrow> id_loop" where
  "identity_destroy h l i =
    (if position (has_id i) (il_ids l) = None then
       l\<lparr>il_acc := (il_acc l)\<lparr>not_destroyed :=
          bt_ins i (err_obj ''notFound'' ''identity not found'') (not_destroyed (il_acc l))\<rparr>\<rparr>
     else
       (case ask (map_option (\<lambda>f. f ''destroy'' i None) (set_identity h)) (il_store l) of
          (Inl e, s) \<Rightarrow> l\<lparr>il_store := s, il_acc := (il_acc l)\<lparr>not_destroyed :=
              bt_ins i (err_obj ''serverFail'' e) (not_destroyed (il_acc l))\<rparr>\<rparr>
        | (Inr _, s) \<Rightarrow> l\<lparr>il_store := s, il_bumps := il_bumps l + 1,
            il_acc := (il_acc l)\<lparr>destroyed := destroyed (il_acc l) @ [i]\<rparr>\<rparr>))"

type_synonym 'a set_args = "(string, 'a) btree \<times> (string, json) btree \<times> string list"

text \<open>\<open>SetArgs\<close>: create, update, destroy; the type of a created object varies.\<close>

definition dec_set_args :: "(json \<Rightarrow> 'a option) \<Rightarrow> json \<Rightarrow> 'a set_args" where
  "dec_set_args d j = or_default ([], [], [])
    (if \<not> struct_ok 3 j then None
     else do {
       c \<leftarrow> fld j 0 ''create'' (dec_map d) [];
       u \<leftarrow> fld j 1 ''update'' (dec_map Some) [];
       x \<leftarrow> fld j 2 ''destroy'' (dec_vec dec_str) [];
       Some (c, u, x)
     })"

definition identity_set :: "jenv \<Rightarrow> hooks \<Rightarrow> string \<Rightarrow> json \<Rightarrow> mail_store \<Rightarrow> json \<times> mail_store" where
  "identity_set v h acct args s =
    (case dec_set_args Some args of (cr, up, ds) \<Rightarrow>
      (let l0 = \<lparr>il_ids = identities s, il_bumps = 0, il_acc = set_acc_new, il_store = s\<rparr>;
           l1 = foldl (identity_create h) l0 cr;
           l2 = foldl (identity_update h acct) l1 up;
           l3 = foldl (identity_destroy h) l2 ds;
           gone = destroyed (il_acc l3);
           ids = filter (\<lambda>o'. case get_str o' ''id'' of None \<Rightarrow> True | Some i \<Rightarrow> i \<notin> set gone) (il_ids l3);
           s' = (if 0 < il_bumps l3 then replace_identities (j_io v) ids (il_bumps l3) (il_store l3)
                 else il_store l3) in
       (set_response acct (identity_state s) (identity_state s') (il_acc l3), s')))"

section \<open>EmailSubmission\<close>

definition submission_get :: "string \<Rightarrow> mail_store \<Rightarrow> json" where
  "submission_get acct s =
    obj [(''accountId'', JStr acct), (''state'', JStr (submission_state s)),
      (''list'', JArr (map JObj (submissions s))), (''notFound'', JArr [])]"

definition submission_changes :: "string \<Rightarrow> json \<Rightarrow> mail_store \<Rightarrow> method_error + json" where
  "submission_changes acct args s =
    (let old = one_field ''sinceState'' dec_str [] args in
     case parse_since old of
       Inl e \<Rightarrow> Inl e
     | Inr since \<Rightarrow>
         if submission_st s < since then Inl CannotCalculateChanges
         else Inr (changes_response acct old (show_int (submission_st s)) [] [] []))"

definition submission_query :: "string \<Rightarrow> mail_store \<Rightarrow> json" where
  "submission_query acct s =
    (let ids = List.map_filter (\<lambda>o'. get_str o' ''id'') (submissions s) in
     obj [(''accountId'', JStr acct), (''queryState'', JStr (submission_state s)),
       (''canCalculateChanges'', JBool False), (''position'', JNum 0),
       (''total'', JNum (int (length ids))), (''ids'', str_arr ids)])"

definition submission_query_changes :: "string \<Rightarrow> json \<Rightarrow> mail_store \<Rightarrow> method_error + json" where
  "submission_query_changes acct args s =
    (let old = one_field ''sinceQueryState'' dec_str [] args in
     case parse_since old of
       Inl e \<Rightarrow> Inl e
     | Inr since \<Rightarrow>
         if submission_st s < since then Inl CannotCalculateChanges
         else Inr (query_changes_response acct old (show_int (submission_st s)) [] []))"

record create_spec =
  cs_email_id :: string
  cs_envelope :: "envelope option"

definition dec_create_spec :: "json \<Rightarrow> create_spec option" where
  "dec_create_spec j =
    (if \<not> struct_ok 2 j then None
     else do {
       e \<leftarrow> fld j 0 ''emailId'' dec_str [];
       v \<leftarrow> fld j 1 ''envelope'' (dec_opt dec_envelope) None;
       Some \<lparr>cs_email_id = e, cs_envelope = v\<rparr>
     })"

definition submission_create ::
  "jenv \<Rightarrow> hooks \<Rightarrow> string \<Rightarrow> set_acc \<times> mail_store \<Rightarrow> string \<times> create_spec \<Rightarrow> set_acc \<times> mail_store" where
  "submission_create v h now as kv =
    (case as of (a, s) \<Rightarrow> case kv of (key, spec) \<Rightarrow>
      (let refuse = (\<lambda>e. a\<lparr>not_created := bt_ins key e (not_created a)\<rparr>) in
       case submit_email h of
         None \<Rightarrow> (refuse (err_obj ''serverFail'' ''EmailSubmission/set not configured''), s)
       | Some f \<Rightarrow>
           (case take_pending (cs_email_id spec) s of (p, s1) \<Rightarrow>
             (case (case p of Some m \<Rightarrow> Some m | None \<Rightarrow> get_email (cs_email_id spec) s1) of
                None \<Rightarrow> (refuse (err_obj ''notFound''
                    (''email '' @ j_dbg v (cs_email_id spec) @ '' not found'')), s1)
              | Some m \<Rightarrow>
                  (case f m (or_default envelope_default (cs_envelope spec)) s1 of
                     (Inl e, s2) \<Rightarrow> (refuse (err_obj ''serverFail'' e), s2)
                   | (Inr _, s2) \<Rightarrow>
                       (let sub = ''sub-'' @ key @ ''-'' @ now;
                            r = bt_of [(''id'', JStr sub), (''identityId'', JStr []),
                              (''emailId'', JStr (m_id m)), (''threadId'', JStr (thread_id m)),
                              (''sendAt'', JStr now), (''undoStatus'', JStr ''final'')] in
                        (a\<lparr>created := bt_ins key (obj [(''id'', JStr sub), (''sendAt'', JStr now),
                             (''undoStatus'', JStr ''final'')]) (created a)\<rparr>,
                         add_submission (j_io v) r s2)))))))"

definition submission_set ::
  "jenv \<Rightarrow> hooks \<Rightarrow> string \<Rightarrow> string \<Rightarrow> json \<Rightarrow> mail_store \<Rightarrow> json \<times> mail_store" where
  "submission_set v h now acct args s =
    (case foldl (submission_create v h now) (set_acc_new, s)
        (one_field ''create'' (dec_map dec_create_spec) [] args) of (a, s') \<Rightarrow>
      (set_response acct (submission_state s') (submission_state s') a, s'))"

section \<open>VacationResponse\<close>

definition vacation_get :: "string \<Rightarrow> mail_store \<Rightarrow> json" where
  "vacation_get acct s =
    (let vr = or_default (bt_of [(''id'', JStr ''singleton''), (''isEnabled'', JBool False),
                (''subject'', JNull), (''textBody'', JNull), (''htmlBody'', JNull)]) (vacation s) in
     obj [(''accountId'', JStr acct), (''state'', JStr ''0''), (''list'', JArr [JObj vr]),
       (''notFound'', JArr [])])"

definition vacation_update :: "set_acc \<times> mail_store \<Rightarrow> string \<times> json \<Rightarrow> set_acc \<times> mail_store" where
  "vacation_update as kv =
    (case as of (a, s) \<Rightarrow> case kv of (i, raw) \<Rightarrow>
      (case as_object raw of
         None \<Rightarrow> (a\<lparr>not_updated := bt_ins i
             (err_obj ''invalidProperties'' ''patch must be an object'') (not_updated a)\<rparr>, s)
       | Some patch \<Rightarrow>
           (let vr = or_default (bt_of [(''id'', JStr ''singleton''), (''isEnabled'', JBool False)]) (vacation s) in
            (a\<lparr>upd_ok := bt_ins i (JObj []) (upd_ok a)\<rparr>, set_vacation (Some (extend_obj vr patch)) s))))"

definition vacation_set :: "string \<Rightarrow> json \<Rightarrow> mail_store \<Rightarrow> json \<times> mail_store" where
  "vacation_set acct args s =
    (case foldl vacation_update (set_acc_new, s) (one_field ''update'' (dec_map Some) [] args) of (a, s') \<Rightarrow>
      (set_response acct ''0'' ''0'' a, s'))"

section \<open>SearchSnippet\<close>

function ceil_boundary :: "string \<Rightarrow> nat \<Rightarrow> nat" where
  "ceil_boundary s i =
    (if i < length s \<and> \<not> char_boundary s i then ceil_boundary s (Suc i) else min i (length s))"
  by pat_completeness auto
termination
  by (relation "measure (\<lambda>(s, i). length s - i)") auto

declare ceil_boundary.simps [simp del]

definition ellipsis :: string where
  "ellipsis = [CHR 0xE2, CHR 0x80, CHR 0xA6]"

definition first_match :: "(string \<Rightarrow> string) \<Rightarrow> string \<Rightarrow> string \<Rightarrow> string option" where
  "first_match lc text q =
    (case find_sub (lc text) q of
       None \<Rightarrow> None
     | Some i0 \<Rightarrow>
         (let i = min i0 (length text);
              start = floor_boundary text (i - 20);
              stop = ceil_boundary text (min (i + length q + 80) (length text)) in
          Some (ellipsis @ take (stop - start) (drop start text) @ ellipsis)))"

definition dec_snippet_args :: "json \<Rightarrow> string option \<times> string list" where
  "dec_snippet_args j = or_default (None, [])
    (if \<not> struct_ok 2 j then None
     else do {
       f \<leftarrow> fld j 0 ''filter''
             (dec_opt (\<lambda>k. if struct_ok 1 k then fld k 0 ''text'' dec_str [] else None)) None;
       e \<leftarrow> fld j 1 ''emailIds'' (dec_vec dec_str) [];
       Some (f, e)
     })"

definition snippet :: "(string \<Rightarrow> string) \<Rightarrow> string \<Rightarrow> string \<Rightarrow> email \<Rightarrow> json" where
  "snippet lc query i m =
    (let hit = (\<lambda>t. if query = [] then JNull
                    else (case first_match lc t (lc query) of None \<Rightarrow> JNull | Some x \<Rightarrow> JStr x));
         body = (case body_values m of (_, bv) # _ \<Rightarrow> bv_value bv | [] \<Rightarrow> []) in
     obj [(''emailId'', JStr i), (''subject'', hit (subject m)), (''preview'', hit body)])"

definition searchsnippet_get :: "(string \<Rightarrow> string) \<Rightarrow> string \<Rightarrow> json \<Rightarrow> mail_store \<Rightarrow> json" where
  "searchsnippet_get lc acct args s =
    (case dec_snippet_args args of (f, ids) \<Rightarrow>
      (let query = or_default [] f in
       obj [(''accountId'', JStr acct),
         (''list'', JArr (List.map_filter (\<lambda>i. map_option (snippet lc query i) (get_email i s)) ids)),
         (''notFound'', str_arr (filter (\<lambda>i. get_email i s = None) ids))]))"

end
