(* ===== verification/EmailMethods.thy ===== *)
theory EmailMethods
  imports Methods
begin

text \<open>
  \<open>Email/*\<close>: \<open>crates/jmapserver/src/methods/email.rs\<close>. \<open>usize\<close> arithmetic is that of a 64-bit
  release build: it wraps, and a slice out of range panics. The MIME parser that \<open>import\<close> and
  \<open>parse\<close> call is an argument (\<open>j_mime\<close>).
\<close>

section \<open>Reading\<close>

definition matches_text :: "(string \<Rightarrow> string) \<Rightarrow> email \<Rightarrow> string \<Rightarrow> bool" where
  "matches_text lc m q0 =
    (let q = lc q0 in
     contains (lc (subject m)) q
     \<or> list_ex (\<lambda>a. contains (lc (a_name a)) q \<or> contains (lc (a_email a)) q) (m_from m @ m_to m @ cc m)
     \<or> list_ex (\<lambda>bv. contains (lc (bv_value bv)) q) (bt_vals (body_values m)))"

definition email_get :: "string \<Rightarrow> json \<Rightarrow> mail_store \<Rightarrow> json" where
  "email_get acct args s =
    (let ids = one_field ''ids'' (dec_vec dec_str) [] args in
     obj [(''accountId'', JStr acct), (''state'', JStr (store_state s)),
       (''list'', JArr (List.map_filter (\<lambda>i. map_option enc_email (get_email i s)) ids)),
       (''notFound'', str_arr (filter (\<lambda>i. get_email i s = None) ids))])"

record query_filter =
  qf_mailbox :: string
  qf_text :: string

record query_args =
  q_filter :: "query_filter option"
  q_position :: int
  q_limit :: nat

definition query_default :: query_args where
  "query_default = \<lparr>q_filter = None, q_position = 0, q_limit = 0\<rparr>"

definition dec_query_filter :: "json \<Rightarrow> query_filter option" where
  "dec_query_filter j =
    (if \<not> struct_ok 2 j then None
     else do {
       b \<leftarrow> fld j 0 ''inMailbox'' dec_str [];
       t \<leftarrow> fld j 1 ''text'' dec_str [];
       Some \<lparr>qf_mailbox = b, qf_text = t\<rparr>
     })"

definition dec_query_args :: "json \<Rightarrow> query_args option" where
  "dec_query_args j =
    (if \<not> struct_ok 3 j then None
     else do {
       f \<leftarrow> fld j 0 ''filter'' (dec_opt dec_query_filter) None;
       p \<leftarrow> fld j 1 ''position'' dec_i64 0;
       l \<leftarrow> fld j 2 ''limit'' dec_u64 0;
       Some \<lparr>q_filter = f, q_position = p, q_limit = l\<rparr>
     })"

definition keeps :: "(string \<Rightarrow> string) \<Rightarrow> query_filter option \<Rightarrow> email \<Rightarrow> bool" where
  "keeps lc f m =
    (case f of
       None \<Rightarrow> True
     | Some f \<Rightarrow>
         (qf_mailbox f = [] \<or> bt_get (mailbox_ids m) (qf_mailbox f) = Some True)
         \<and> (qf_text f = [] \<or> matches_text lc m (qf_text f)))"

text \<open>\<open>start + limit\<close> wraps at 64 bits; \<open>\&filtered[start..end]\<close> panics when the end is before the start.\<close>

definition page :: "'a list \<Rightarrow> nat \<Rightarrow> nat \<Rightarrow> 'a list outcome" where
  "page xs start limit =
    (if length xs \<le> start then Ret []
     else
       (let stop = (if 0 < limit then min ((start + limit) mod 2 ^ 64) (length xs) else length xs) in
        if stop < start then Panic else Ret (take (stop - start) (drop start xs))))"

definition email_query :: "jenv \<Rightarrow> string \<Rightarrow> json \<Rightarrow> mail_store \<Rightarrow> json outcome" where
  "email_query v acct args s =
    (let q = or_default query_default (dec_query_args args);
         filtered = matching_ids (j_ts v) (keeps (j_lc v) (q_filter q)) s;
         start = nat (max (q_position q) 0) in
     bind_out (page filtered start (q_limit q)) (\<lambda>ids.
       Ret (obj [(''accountId'', JStr acct), (''queryState'', JStr (store_state s)),
         (''canCalculateChanges'', JBool True), (''position'', JNum (int start)),
         (''total'', JNum (int (length filtered))), (''ids'', str_arr ids)])))"

section \<open>Changes\<close>

definition fold_changes :: "(int, change_record) btree \<Rightarrow> int \<Rightarrow> int \<Rightarrow> change_sets option" where
  "fold_changes log since cur = fold_log added updated removed log since cur"

definition email_changes :: "string \<Rightarrow> json \<Rightarrow> mail_store \<Rightarrow> method_error + json" where
  "email_changes acct args s =
    (let old = one_field ''sinceState'' dec_str [] args; cur = st s in
     case parse_since old of
       Inl e \<Rightarrow> Inl e
     | Inr since \<Rightarrow>
         if cur < since then Inl CannotCalculateChanges
         else
           (case fold_changes (changes s) since cur of
              None \<Rightarrow> Inl CannotCalculateChanges
            | Some (c, u, d) \<Rightarrow> Inr (changes_response acct old (show_int cur) c u d)))"

definition email_query_changes :: "string \<Rightarrow> json \<Rightarrow> mail_store \<Rightarrow> method_error + json" where
  "email_query_changes acct args s =
    (let old = one_field ''sinceQueryState'' dec_str [] args; cur = st s in
     case parse_since old of
       Inl e \<Rightarrow> Inl e
     | Inr since \<Rightarrow>
         if cur < since then Inl CannotCalculateChanges
         else
           (case fold_query_log added removed (changes s) since cur of
              None \<Rightarrow> Inl CannotCalculateChanges
            | Some (a, r) \<Rightarrow> Inr (query_changes_response acct old (show_int cur) a r)))"

section \<open>Writing\<close>

definition email_create :: "hooks \<Rightarrow> set_acc \<times> mail_store \<Rightarrow> string \<times> json \<Rightarrow> set_acc \<times> mail_store" where
  "email_create h as kv =
    (case as of (a, s) \<Rightarrow> case kv of (key, raw) \<Rightarrow>
      (case create_email h of
         None \<Rightarrow> (a\<lparr>not_created := bt_ins key
             (err_obj ''serverFail'' ''Email/set create not configured'') (not_created a)\<rparr>, s)
       | Some f \<Rightarrow>
           (case f raw s of
              (Inr m, s') \<Rightarrow> (a\<lparr>created := bt_ins key (obj [(''id'', JStr (m_id m))]) (created a)\<rparr>, s')
            | (Inl e, s') \<Rightarrow> (a\<lparr>not_created := bt_ins key (err_obj ''serverFail'' e) (not_created a)\<rparr>, s'))))"

definition email_update ::
  "jenv \<Rightarrow> hooks \<Rightarrow> set_acc \<times> mail_store \<Rightarrow> string \<times> json \<Rightarrow> set_acc \<times> mail_store" where
  "email_update v h as kv =
    (case as of (a, s) \<Rightarrow> case kv of (i, j) \<Rightarrow>
      (let refuse = (\<lambda>e. a\<lparr>not_updated := bt_ins i e (not_updated a)\<rparr>) in
       case as_object j of
         None \<Rightarrow> (refuse (err_obj ''invalidProperties'' ''patch must be an object''), s)
       | Some patch \<Rightarrow>
           (case ask (map_option (\<lambda>f. f i patch) (update_email h)) s of
              (Inl e, s1) \<Rightarrow> (refuse (err_obj ''serverFail'' e), s1)
            | (Inr _, s1) \<Rightarrow>
                (case patch_email (j_io v) i patch s1 of
                   (Inr _, s2) \<Rightarrow> (a\<lparr>upd_ok := bt_ins i (JObj []) (upd_ok a)\<rparr>, s2)
                 | (Inl e, s2) \<Rightarrow> (refuse (err_obj ''serverFail'' e), s2)))))"

definition email_destroy ::
  "jenv \<Rightarrow> hooks \<Rightarrow> set_acc \<times> mail_store \<Rightarrow> string \<Rightarrow> set_acc \<times> mail_store" where
  "email_destroy v h as i =
    (case as of (a, s) \<Rightarrow>
      (case ask (map_option (\<lambda>f. f i) (destroy_email h)) s of
         (Inl e, s1) \<Rightarrow> (a\<lparr>not_destroyed := bt_ins i (err_obj ''serverFail'' e) (not_destroyed a)\<rparr>, s1)
       | (Inr _, s1) \<Rightarrow> (a\<lparr>destroyed := destroyed a @ [i]\<rparr>, delete (j_io v) i s1)))"

text \<open>A created email is kept as raw JSON; any value will do.\<close>

definition email_set :: "jenv \<Rightarrow> hooks \<Rightarrow> string \<Rightarrow> json \<Rightarrow> mail_store \<Rightarrow> json \<times> mail_store" where
  "email_set v h acct args s =
    (case dec_set_args Some args of (cr, up, ds) \<Rightarrow>
      (case foldl (email_destroy v h)
              (foldl (email_update v h) (foldl (email_create h) (set_acc_new, s) cr) up) ds of
         (a, s') \<Rightarrow> (set_response acct (store_state s) (store_state s') a, s')))"

record copy_spec =
  cp_id :: string
  cp_mailbox_ids :: "(string, bool) btree"

definition dec_copy_spec :: "json \<Rightarrow> copy_spec option" where
  "dec_copy_spec j =
    (if \<not> struct_ok 2 j then None
     else do {
       i \<leftarrow> fld j 0 ''id'' dec_str [];
       b \<leftarrow> fld j 1 ''mailboxIds'' (dec_map dec_bool) [];
       Some \<lparr>cp_id = i, cp_mailbox_ids = b\<rparr>
     })"

definition put_created ::
  "jenv \<Rightarrow> string \<Rightarrow> email \<Rightarrow> set_acc \<times> mail_store \<Rightarrow> set_acc \<times> mail_store" where
  "put_created v key m as =
    (case as of (a, s) \<Rightarrow>
      (case put (j_io v) m s of
         (Inr _, s') \<Rightarrow> (a\<lparr>created := bt_ins key (obj [(''id'', JStr (m_id m))]) (created a)\<rparr>, s')
       | (Inl e, s') \<Rightarrow> (a\<lparr>not_created := bt_ins key (err_obj ''serverFail'' e) (not_created a)\<rparr>, s')))"

definition email_copy_one ::
  "jenv \<Rightarrow> set_acc \<times> mail_store \<Rightarrow> string \<times> copy_spec \<Rightarrow> set_acc \<times> mail_store" where
  "email_copy_one v as kv =
    (case as of (a, s) \<Rightarrow> case kv of (key, spec) \<Rightarrow>
      (case get_email (cp_id spec) s of
         None \<Rightarrow> (a\<lparr>not_created := bt_ins key (err_obj ''notFound''
             (''email '' @ j_dbg v (cp_id spec) @ '' not found'')) (not_created a)\<rparr>, s)
       | Some m \<Rightarrow>
           put_created v key
             (m\<lparr>m_id := cp_id spec @ ''-cp-'' @ key,
                mailbox_ids := (if cp_mailbox_ids spec \<noteq> [] then cp_mailbox_ids spec else mailbox_ids m)\<rparr>)
             (a, s)))"

definition created_response :: "(string \<times> json) list \<Rightarrow> string \<Rightarrow> set_acc \<times> mail_store \<Rightarrow> json \<times> mail_store" where
  "created_response pre acct as =
    (case as of (a, s) \<Rightarrow>
      (obj (pre @ [(''accountId'', JStr acct), (''oldState'', JStr (store_state s)),
         (''newState'', JStr (store_state s)), (''created'', JObj (created a)),
         (''notCreated'', JObj (not_created a))]), s))"

definition email_copy :: "jenv \<Rightarrow> string \<Rightarrow> json \<Rightarrow> mail_store \<Rightarrow> json \<times> mail_store" where
  "email_copy v acct args s =
    (let (from, specs) = or_default ([], [])
           (if \<not> struct_ok 2 args then None
            else do {
              f \<leftarrow> fld args 0 ''fromAccountId'' dec_str [];
              c \<leftarrow> fld args 1 ''create'' (dec_map dec_copy_spec) [];
              Some (f, c)
            }) in
     created_response [(''fromAccountId'', JStr (if from = [] then acct else from))] acct
       (foldl (email_copy_one v) (set_acc_new, s) specs))"

record import_spec =
  im_blob_id :: string
  im_mailbox_ids :: "(string, bool) btree"
  im_keywords :: "(string, bool) btree"
  im_received_at :: string

definition dec_import_spec :: "json \<Rightarrow> import_spec option" where
  "dec_import_spec j =
    (if \<not> struct_ok 4 j then None
     else do {
       b \<leftarrow> fld j 0 ''blobId'' dec_str [];
       x \<leftarrow> fld j 1 ''mailboxIds'' (dec_map dec_bool) [];
       k \<leftarrow> fld j 2 ''keywords'' (dec_map dec_bool) [];
       r \<leftarrow> fld j 3 ''receivedAt'' dec_str [];
       Some \<lparr>im_blob_id = b, im_mailbox_ids = x, im_keywords = k, im_received_at = r\<rparr>
     })"

definition email_import_one ::
  "jenv \<Rightarrow> string \<Rightarrow> set_acc \<times> mail_store \<Rightarrow> string \<times> import_spec \<Rightarrow> set_acc \<times> mail_store" where
  "email_import_one v now as kv =
    (case as of (a, s) \<Rightarrow> case kv of (key, spec) \<Rightarrow>
      (let refuse = (\<lambda>e. (a\<lparr>not_created := bt_ins key e (not_created a)\<rparr>, s)) in
       case get_blob (im_blob_id spec) s of
         None \<Rightarrow> refuse (err_obj ''notFound'' (''blob '' @ j_dbg v (im_blob_id spec) @ '' not found''))
       | Some data \<Rightarrow>
           (case j_mime v data now of
              None \<Rightarrow> refuse (err_obj ''invalidEmail'' ''could not parse message'')
            | Some m \<Rightarrow>
                put_created v key
                  (m\<lparr>m_id := ''import-'' @ key @ ''-'' @ now,
                     mailbox_ids := (if im_mailbox_ids spec \<noteq> [] then im_mailbox_ids spec else mailbox_ids m),
                     m_keywords := (if im_keywords spec \<noteq> [] then im_keywords spec else m_keywords m),
                     received_at := (if im_received_at spec \<noteq> [] \<and> j_ts v (im_received_at spec) \<noteq> None
                                     then Some (im_received_at spec) else received_at m)\<rparr>)
                  (a, s))))"

definition email_import :: "jenv \<Rightarrow> string \<Rightarrow> string \<Rightarrow> json \<Rightarrow> mail_store \<Rightarrow> json \<times> mail_store" where
  "email_import v now acct args s =
    created_response [] acct
      (foldl (email_import_one v now) (set_acc_new, s) (one_field ''emails'' (dec_map dec_import_spec) [] args))"

definition email_parse :: "jenv \<Rightarrow> string \<Rightarrow> string \<Rightarrow> json \<Rightarrow> mail_store \<Rightarrow> json" where
  "email_parse v now acct args s =
    (let ids = one_field ''blobIds'' (dec_vec dec_str) [] args;
         step = (\<lambda>(ok, bad) i.
           (case get_blob i s of
              None \<Rightarrow> (ok, bt_ins i (err_obj ''notFound'' (''blob '' @ j_dbg v i @ '' not found'')) bad)
            | Some data \<Rightarrow>
                (case j_mime v data now of
                   Some m \<Rightarrow> (bt_ins i (enc_email m) ok, bad)
                 | None \<Rightarrow> (ok, bt_ins i (err_obj ''notParsable'' ''could not parse message'') bad))));
         (parsed, not_parsable) = foldl step ([], []) ids in
     obj [(''accountId'', JStr acct), (''parsed'', JObj parsed), (''notParsable'', JObj not_parsable)])"

end
