(* ===== verification/StoreDisk.thy ===== *)
theory StoreDisk
  imports StoreLog
begin

text \<open>
  Restarts. \<open>synced\<close> says that the files hold what memory holds; on a disk that works it is
  an invariant of the store's operations, as long as no two ids share a file name, and opening
  the files again gives the same messages, change logs and counters.
\<close>

section \<open>Reading back the state file\<close>

lemma distinct_map_of_rev: "distinct (map fst kvs) \<Longrightarrow> map_of (rev kvs) n = map_of kvs n"
proof (cases "map_of kvs n")
  case None
  then have "n \<notin> fst ` set (rev kvs)" by (simp add: map_of_eq_None_iff)
  then have "map_of (rev kvs) n = None" by (simp only: map_of_eq_None_iff not_False_eq_True)
  then show ?thesis using None by simp
next
  case (Some v)
  assume "distinct (map fst kvs)"
  moreover have "(n, v) \<in> set (rev kvs)" using Some by (simp add: map_of_SomeD)
  ultimately show ?thesis using Some by (simp add: map_of_is_SomeI rev_map [symmetric])
qed

lemma obj_field: "distinct (map fst kvs) \<Longrightarrow> field (obj kvs) i n = map_of kvs n"
  by (simp add: field_def obj_def bt_get_of distinct_map_of_rev)

lemma struct_ok_obj [simp]: "struct_ok n (obj kvs)"
  by (simp add: struct_ok_def obj_def)

lemma dec_null_strings [simp]: "dec_null_vec dec_str (null_if_empty (map JStr xs)) = Some xs"
  using dec_enc_vec [of xs dec_str JStr] by (auto simp: dec_null_vec_def null_if_empty_def enc_vec_def)

lemma dec_null_objects [simp]: "dec_null_vec as_object (null_if_empty (map JObj xs)) = Some xs"
  using dec_enc_vec [of xs as_object JObj] by (auto simp: dec_null_vec_def null_if_empty_def enc_vec_def as_object_def)

lemma change_roundtrip [simp]: "dec_change (enc_change r) = Some r"
  by (simp add: dec_change_def enc_change_def req_def obj_field)

lemma mailbox_change_roundtrip [simp]: "dec_mailbox_change (enc_mailbox_change r) = Some r"
  by (simp add: dec_mailbox_change_def enc_mailbox_change_def req_def obj_field)

definition i64 :: "int \<Rightarrow> bool" where
  "i64 n \<longleftrightarrow> - (2 ^ 63) \<le> n \<and> n < 2 ^ 63"

lemma persisted_roundtrip:
  assumes "i64 (p_state p)" "i64 (p_mailbox_state p)" "i64 (p_submission_state p)"
  shows "dec_persisted (enc_persisted p) = Some p"
proof -
  have "dec_map dec_change (enc_map enc_change m) = Some m"
    "dec_map dec_mailbox_change (enc_map enc_mailbox_change m') = Some m'" for m m'
    by (simp_all add: dec_enc_map)
  then show ?thesis
    using assms unfolding dec_persisted_def enc_persisted_def
    by (simp add: req_def obj_field i64_def)
qed

definition log_ok :: "(int, 'r) btree \<Rightarrow> bool" where
  "log_ok m \<longleftrightarrow> bt_ok m \<and> (\<forall>k \<in> set (bt_keys m). i64 k)"

lemma bt_of_eqI: "bt_ok m \<Longrightarrow> set kvs = set m \<Longrightarrow> bt_of kvs = m"
proof (rule bt_eqI)
  fix k
  assume a: "bt_ok m" "set kvs = set m"
  have u: "v = w" if "(k, v) \<in> set kvs" "(k, w) \<in> set kvs" for v w
    using that a in_set_bt_get [of m k v] in_set_bt_get [of m k w] by simp
  show "bt_get (bt_of kvs) k = bt_get m k"
  proof (cases "bt_get m k")
    case None
    then have "k \<notin> fst ` set kvs" using a bt_get_None by force
    then show ?thesis using None by (simp add: bt_get_of map_of_eq_None_iff)
  next
    case (Some v)
    then have "(k, v) \<in> set kvs" using a bt_get_in_set by force
    then obtain w where w: "map_of (rev kvs) k = Some w"
      by (metis eq_fst_iff map_of_eq_None_iff not_None_eq set_rev image_eqI)
    then have "(k, w) \<in> set kvs" using map_of_SomeD by fastforce
    then show ?thesis using w u \<open>(k, v) \<in> set kvs\<close> Some by (simp add: bt_get_of)
  qed
qed simp_all

lemma set_keyed: "log_ok m \<Longrightarrow> set (keyed m) = (\<lambda>(k, v). (show_int k, v)) ` set m"
proof -
  assume ok: "log_ok m"
  let ?l = "map (\<lambda>(k, v). (show_int k, v)) m"
  have "distinct (map fst m)" using ok by (auto simp: log_ok_def bt_ok_def strict_sorted_iff)
  then have d: "distinct (map fst ?l)"
    by (auto simp: comp_def case_prod_beta distinct_map inj_on_def dest: show_int_inj)
  have "(k, v) \<in> set (keyed m) \<longleftrightarrow> (k, v) \<in> set ?l" for k v
  proof -
    have "bt_get (keyed m) k = map_of ?l k" using d by (simp add: keyed_def bt_get_of distinct_map_of_rev)
    moreover have "(k, v) \<in> set (keyed m) \<longleftrightarrow> bt_get (keyed m) k = Some v"
      using in_set_bt_get [of "keyed m" k v] bt_get_in_set by (auto simp: keyed_def)
    ultimately show ?thesis using d by simp
  qed
  then show ?thesis by auto
qed

lemma unkeyed_of: "unkeyed m = bt_of (List.map_filter (\<lambda>(k, v). map_option (\<lambda>n. (n, v)) (parse_i64 k)) m)"
proof -
  have "foldl (\<lambda>acc (k, v). case parse_i64 k of None \<Rightarrow> acc | Some n \<Rightarrow> bt_ins n v acc) a m
    = foldl (\<lambda>m (k, v). bt_ins k v m) a (List.map_filter (\<lambda>(k, v). map_option (\<lambda>n. (n, v)) (parse_i64 k)) m)" for a
    by (induction m arbitrary: a) (auto simp: map_filter_simps split: option.split)
  then show ?thesis by (simp add: unkeyed_def bt_of_def)
qed

lemma set_map_filter': "set (List.map_filter f xs) = {y. \<exists>x \<in> set xs. f x = Some y}"
  by (induction xs) (auto simp: map_filter_simps split: option.splits)

lemma unkeyed_keyed: "log_ok m \<Longrightarrow> unkeyed (keyed m) = m"
  unfolding unkeyed_of
proof (rule bt_of_eqI)
  assume ok: "log_ok m"
  then show "bt_ok m" by (simp add: log_ok_def)
  have p: "parse_i64 (show_int k) = Some k" if "(k, v) \<in> set m" for k v
    using ok that by (force simp: log_ok_def bt_keys_def i64_def intro!: parse_i64_show_int)
  show "set (List.map_filter (\<lambda>(k, v). map_option (\<lambda>n. (n, v)) (parse_i64 k)) (keyed m)) = set m"
    using p by (force simp: set_map_filter' set_keyed [OF ok])
qed

section \<open>Files and messages\<close>

text \<open>Ids whose file \<open>open\<close> recognises.\<close>

definition named :: "string \<Rightarrow> bool" where
  "named i \<longleftrightarrow> i \<noteq> [] \<and> safe_filename i \<noteq> []"

lemma json_file_msg_path: "named i \<Longrightarrow> json_file (msg_path i)"
proof -
  assume "named i"
  have "split_once (CHR ''.'') (rev (safe_filename i @ ''.json'')) = Some (rev ''json'', rev (safe_filename i))"
    using split_once_first [of "CHR ''.''" "rev ''json''" "rev (safe_filename i)"] by simp
  then have "rsplit_once (CHR ''.'') (safe_filename i @ ''.json'') = Some (safe_filename i, ''json'')"
    by (simp add: rsplit_once_def)
  then show ?thesis
    using \<open>named i\<close>
    by (simp add: json_file_def in_messages_def msg_path_def strip_prefix_def is_prefix_def named_def)
qed

lemma other_files [simp]:
  "\<not> json_file ''delta.json''" "\<not> json_file ''mailboxes.json''" "\<not> json_file ''identities.json''"
  "msg_path i \<noteq> ''delta.json''" "msg_path i \<noteq> ''mailboxes.json''" "msg_path i \<noteq> ''identities.json''"
  "''delta.json'' \<noteq> msg_path i" "''mailboxes.json'' \<noteq> msg_path i" "''identities.json'' \<noteq> msg_path i"
  by (simp_all add: json_file_def in_messages_def strip_prefix_def is_prefix_def msg_path_def)

lemma load_messages_of:
  "load_messages d = bt_of (List.map_filter (\<lambda>(p, j).
     if json_file p then (case dec_email j of
        Some m \<Rightarrow> if m_id m \<noteq> [] then Some (m_id m, m) else None | None \<Rightarrow> None) else None) d)"
proof -
  have "foldl (\<lambda>acc (p, j).
        if json_file p then (case dec_email j of
             Some m \<Rightarrow> if m_id m \<noteq> [] then bt_ins (m_id m) m acc else acc | None \<Rightarrow> acc) else acc) a d
    = foldl (\<lambda>m (k, v). bt_ins k v m) a (List.map_filter (\<lambda>(p, j).
     if json_file p then (case dec_email j of
        Some m \<Rightarrow> if m_id m \<noteq> [] then Some (m_id m, m) else None | None \<Rightarrow> None) else None) d)" for a
    by (induction d arbitrary: a) (auto simp: map_filter_simps split: option.split if_splits)
  then show ?thesis by (simp add: load_messages_def bt_of_def)
qed

text \<open>The messages in memory are those in the files, one file each.\<close>

definition msgs_synced :: "(string, email) btree \<Rightarrow> (string, json) btree \<Rightarrow> bool" where
  "msgs_synced ms d \<longleftrightarrow> bt_ok ms \<and> bt_ok d \<and>
    (\<forall>i m. bt_get ms i = Some m \<longrightarrow>
       named i \<and> m_id m = i \<and> email_ok m \<and> bt_get d (msg_path i) = Some (enc_email m)) \<and>
    (\<forall>p. json_file p \<longrightarrow> bt_get d p \<noteq> None \<longrightarrow> (\<exists>i. bt_get ms i \<noteq> None \<and> p = msg_path i))"

lemma msgs_syncedI:
  assumes "bt_ok ms" "bt_ok d"
    "\<And>i m. bt_get ms i = Some m \<Longrightarrow>
       named i \<and> m_id m = i \<and> email_ok m \<and> bt_get d (msg_path i) = Some (enc_email m)"
    "\<And>p j. json_file p \<Longrightarrow> bt_get d p = Some j \<Longrightarrow> \<exists>i m. bt_get ms i = Some m \<and> p = msg_path i"
  shows "msgs_synced ms d"
  using assms unfolding msgs_synced_def by fast

lemma msgs_syncedD:
  assumes "msgs_synced ms d"
  shows "bt_ok ms" "bt_ok d"
    "bt_get ms i = Some m \<Longrightarrow>
       named i \<and> m_id m = i \<and> email_ok m \<and> bt_get d (msg_path i) = Some (enc_email m)"
    "json_file p \<Longrightarrow> bt_get d p = Some j \<Longrightarrow> \<exists>i m. bt_get ms i = Some m \<and> p = msg_path i"
  using assms unfolding msgs_synced_def by simp_all

lemma load_messages_synced: "msgs_synced ms d \<Longrightarrow> load_messages d = ms"
  unfolding load_messages_of
proof (rule bt_of_eqI)
  assume s: "msgs_synced ms d"
  then show "bt_ok ms" by (simp add: msgs_synced_def)
  let ?f = "\<lambda>(p, j). if json_file p then (case dec_email j of
        Some m \<Rightarrow> if m_id m \<noteq> [] then Some (m_id m, m) else None | None \<Rightarrow> None) else None"
  have "(i, m) \<in> set (List.map_filter ?f d) \<longleftrightarrow> bt_get ms i = Some m" for i m
  proof
    assume "(i, m) \<in> set (List.map_filter ?f d)"
    then obtain p j where pj: "(p, j) \<in> set d" "json_file p" "dec_email j = Some m" "m_id m = i"
      by (auto simp: set_map_filter' split: if_splits option.splits)
    have "bt_get d p = Some j" using s pj(1) in_set_bt_get by (auto simp: msgs_synced_def)
    then have "\<exists>k. bt_get ms k \<noteq> None \<and> p = msg_path k"
      using s pj(2) unfolding msgs_synced_def by (metis option.distinct(1))
    then obtain k where "bt_get ms k \<noteq> None" "p = msg_path k" by blast
    then obtain n where n: "bt_get ms k = Some n" by auto
    then have "j = enc_email n" "email_ok n" "m_id n = k"
      using s \<open>p = msg_path k\<close> \<open>bt_get d p = Some j\<close> by (auto simp: msgs_synced_def)
    then have "n = m" using pj(3) email_rt by simp
    then show "bt_get ms i = Some m" using n pj(4) \<open>m_id n = k\<close> by simp
  next
    assume "bt_get ms i = Some m"
    then have "named i" "m_id m = i" "email_ok m" "bt_get d (msg_path i) = Some (enc_email m)"
      using s by (auto simp: msgs_synced_def)
    then show "(i, m) \<in> set (List.map_filter ?f d)"
      by (auto simp: set_map_filter' email_rt json_file_msg_path named_def dest!: bt_get_in_set
          intro!: bexI [of _ "(msg_path i, enc_email m)"])
  qed
  moreover have "(i, m) \<in> set ms \<longleftrightarrow> bt_get ms i = Some m" for i m
    using s in_set_bt_get [of ms i m] bt_get_in_set by (auto simp: msgs_synced_def)
  ultimately show "set (List.map_filter ?f d) = set ms" by auto
qed

section \<open>Memory and disk\<close>

definition state_synced :: "mail_store \<Rightarrow> bool" where
  "state_synced s \<longleftrightarrow> log_ok (changes s) \<and> log_ok (mailbox_changes s) \<and>
    i64 (st s) \<and> i64 (mailbox_st s) \<and> i64 (submission_st s) \<and>
    (bt_get (disk s) ''delta.json'' = Some (enc_persisted (persisted s)) \<or>
     bt_get (disk s) ''delta.json'' = None \<and> st s = 0 \<and> changes s = [] \<and> mailbox_st s = 0 \<and>
       mailbox_changes s = [] \<and> submissions s = [] \<and> submission_st s = 0)"

definition identities_synced :: "mail_store \<Rightarrow> bool" where
  "identities_synced s \<longleftrightarrow>
    bt_get (disk s) ''identities.json'' = Some (JArr (map JObj (identities s))) \<or>
    bt_get (disk s) ''identities.json'' = None \<and> identities s = []"

definition synced :: "mail_store \<Rightarrow> bool" where
  "synced s \<longleftrightarrow> msgs_synced (msgs s) (disk s) \<and> state_synced s \<and> identities_synced s"

text \<open>What a restart forgets: drafts, blobs, the vacation response and the identity counter.\<close>

definition forget :: "mail_store \<Rightarrow> mail_store" where
  "forget s = s\<lparr>pending := [], blobs := [], vacation := None, identity_st := 0\<rparr>"

lemma dec_objects: "dec_vec as_object (JArr (map JObj xs)) = Some xs"
  using dec_enc_vec [of xs as_object JObj] by (simp add: enc_vec_def as_object_def)

lemma load_state_synced:
  "state_synced s \<Longrightarrow> load_state ((store_new (disk s))\<lparr>msgs := ms\<rparr>) =
    (store_new (disk s))\<lparr>msgs := ms, st := st s, changes := changes s, mailbox_st := mailbox_st s,
      submission_st := submission_st s, submissions := submissions s,
      mailbox_changes := mailbox_changes s\<rparr>"
proof -
  assume s: "state_synced s"
  then have "dec_persisted (enc_persisted (persisted s)) = Some (persisted s)"
    by (intro persisted_roundtrip) (simp_all add: state_synced_def persisted_def)
  moreover have "unkeyed (keyed (changes s)) = changes s"
      "unkeyed (keyed (mailbox_changes s)) = mailbox_changes s"
    using s by (simp_all add: state_synced_def unkeyed_keyed)
  ultimately show ?thesis
    using s by (auto simp: state_synced_def load_state_def store_new_def persisted_def)
qed

lemma reopen_synced: "synced s \<Longrightarrow> open_store (disk s) = forget s"
proof -
  assume s: "synced s"
  then have "open_store (disk s) = load_identities ((store_new (disk s))\<lparr>msgs := msgs s,
      st := st s, changes := changes s, mailbox_st := mailbox_st s,
      submission_st := submission_st s, submissions := submissions s,
      mailbox_changes := mailbox_changes s\<rparr>)"
    using load_messages_synced [of "msgs s" "disk s"]
    by (simp add: synced_def open_store_def load_state_synced)
  then show ?thesis
    using s by (auto simp: synced_def forget_def load_identities_def identities_synced_def
        dec_objects store_new_def)
qed

section \<open>Every operation keeps memory and disk together\<close>

text \<open>
  The conditions on an operation: a stored message has an id that names a file and 64-bit
  sizes, no other stored id has the same file, and no counter is at the end of its range.
\<close>

definition own_file :: "string \<Rightarrow> mail_store \<Rightarrow> bool" where
  "own_file i s \<longleftrightarrow> list_all (\<lambda>j. msg_path j = msg_path i \<longrightarrow> j = i) (bt_keys (msgs s))"

definition room :: "mail_store \<Rightarrow> bool" where
  "room s \<longleftrightarrow> st s + 1 < 2 ^ 63 \<and> mailbox_st s + 1 < 2 ^ 63 \<and> submission_st s + 1 < 2 ^ 63"

fun op_ok :: "store_op \<Rightarrow> mail_store \<Rightarrow> bool" where
  "op_ok (Put m) s \<longleftrightarrow> room s \<and> named (m_id m) \<and> email_ok m \<and> own_file (m_id m) s"
| "op_ok (Delete i) s \<longleftrightarrow> room s \<and> own_file i s"
| "op_ok op s \<longleftrightarrow> room s"

definition works :: io where
  "works p = None"

lemma write_works [simp]: "write_file works p c s = (Inr (), s\<lparr>disk := bt_ins p c (disk s)\<rparr>)"
  by (simp add: write_file_def works_def)

lemma synced_cong:
  "st t = st s \<Longrightarrow> changes t = changes s \<Longrightarrow> mailbox_st t = mailbox_st s \<Longrightarrow>
   mailbox_changes t = mailbox_changes s \<Longrightarrow> submissions t = submissions s \<Longrightarrow>
   submission_st t = submission_st s \<Longrightarrow>
   bt_get (disk t) ''delta.json'' = bt_get (disk s) ''delta.json'' \<Longrightarrow> state_synced t = state_synced s"
  "identities t = identities s \<Longrightarrow>
   bt_get (disk t) ''identities.json'' = bt_get (disk s) ''identities.json'' \<Longrightarrow>
   identities_synced t = identities_synced s"
  by (simp_all add: state_synced_def identities_synced_def persisted_def)

lemma msgs_synced_other:
  assumes s: "msgs_synced ms d" and "\<not> json_file p"
  shows "msgs_synced ms (bt_ins p c d)"
proof (rule msgs_syncedI)
  fix i m
  assume i: "bt_get ms i = Some m"
  then have "msg_path i \<noteq> p" using assms(2) json_file_msg_path msgs_syncedD(3) [OF s] by auto
  then show "named i \<and> m_id m = i \<and> email_ok m \<and> bt_get (bt_ins p c d) (msg_path i) = Some (enc_email m)"
    using msgs_syncedD(3) [OF s i] by simp
next
  fix q j
  assume "json_file q" "bt_get (bt_ins p c d) q = Some j"
  then show "\<exists>i m. bt_get ms i = Some m \<and> q = msg_path i"
    using assms(2) msgs_syncedD(4) [OF s, of q] by (auto split: if_splits)
qed (use msgs_syncedD(1,2) [OF s] in simp_all)

lemma own_fileD: "own_file i s \<Longrightarrow> bt_get (msgs s) j = Some m \<Longrightarrow> msg_path j = msg_path i \<Longrightarrow> j = i"
  by (auto simp: own_file_def list_all_iff bt_keys_set)

lemma msgs_synced_put:
  assumes s: "msgs_synced (msgs s) d" and m: "named (m_id m)" "email_ok m" and own: "own_file (m_id m) s"
  shows "msgs_synced (bt_ins (m_id m) m (msgs s)) (bt_ins (msg_path (m_id m)) (enc_email m) d)"
proof (rule msgs_syncedI)
  fix i n
  assume i: "bt_get (bt_ins (m_id m) m (msgs s)) i = Some n"
  show "named i \<and> m_id n = i \<and> email_ok n \<and>
      bt_get (bt_ins (msg_path (m_id m)) (enc_email m) d) (msg_path i) = Some (enc_email n)"
  proof (cases "i = m_id m")
    case True
    then show ?thesis using i m by simp
  next
    case False
    then have n: "bt_get (msgs s) i = Some n" using i by simp
    then have "msg_path i \<noteq> msg_path (m_id m)" using own_fileD [OF own n] False by blast
    then show ?thesis using msgs_syncedD(3) [OF s n] by simp
  qed
next
  fix p j
  assume "json_file p" "bt_get (bt_ins (msg_path (m_id m)) (enc_email m) d) p = Some j"
  then have "p = msg_path (m_id m) \<or> (\<exists>i n. bt_get (msgs s) i = Some n \<and> p = msg_path i)"
    using msgs_syncedD(4) [OF s, of p] by (auto split: if_splits)
  then show "\<exists>i n. bt_get (bt_ins (m_id m) m (msgs s)) i = Some n \<and> p = msg_path i"
    by (metis bt_get_ins)
qed (use msgs_syncedD(1,2) [OF s] in simp_all)

lemma msgs_synced_del:
  assumes s: "msgs_synced (msgs s) d" and own: "own_file i s"
  shows "msgs_synced (bt_del i (msgs s)) (bt_del (msg_path i) d)"
proof (rule msgs_syncedI)
  fix k n
  assume "bt_get (bt_del i (msgs s)) k = Some n"
  then have n: "bt_get (msgs s) k = Some n" "k \<noteq> i" by (simp_all split: if_splits)
  then have "msg_path k \<noteq> msg_path i" using own_fileD [OF own n(1)] by blast
  then show "named k \<and> m_id n = k \<and> email_ok n \<and> bt_get (bt_del (msg_path i) d) (msg_path k) = Some (enc_email n)"
    using msgs_syncedD(3) [OF s n(1)] by simp
next
  fix p j
  assume "json_file p" "bt_get (bt_del (msg_path i) d) p = Some j"
  then have "p \<noteq> msg_path i" "\<exists>k n. bt_get (msgs s) k = Some n \<and> p = msg_path k"
    using msgs_syncedD(4) [OF s, of p] by (auto split: if_splits)
  then show "\<exists>k n. bt_get (bt_del i (msgs s)) k = Some n \<and> p = msg_path k" by fastforce
qed (use msgs_syncedD(1,2) [OF s] in simp_all)

lemma bt_get_filter_keys: "bt_get (filter (\<lambda>(p, _). f p) d) k = (if f k then bt_get d k else None)"
  by (induction d) (auto simp: bt_get_def)

lemma bt_ok_filter: "bt_ok d \<Longrightarrow> bt_ok (filter f d)"
  by (induction d) (auto simp: bt_ok_def)

lemma msgs_synced_purge: "bt_ok d \<Longrightarrow> msgs_synced [] (filter (\<lambda>(p, _). \<not> json_file p) d)"
  by (auto simp: msgs_synced_def bt_ok_filter bt_get_filter_keys)

lemma log_ok_ins: "log_ok m \<Longrightarrow> i64 k \<Longrightarrow> log_ok (bt_ins k r m)"
  by (auto simp: log_ok_def bt_keys_def fst_set_bt_ins)

lemma save_synced:
  assumes "log_ok (changes s)" "log_ok (mailbox_changes s)" "i64 (st s)" "i64 (mailbox_st s)" "i64 (submission_st s)"
  shows "state_synced (save_state works s)"
  using assms by (simp add: state_synced_def save_state_def persisted_def)

lemma disk_save:
  "disk (save_state works s) = bt_ins ''delta.json'' (enc_persisted (persisted s)) (disk s)"
  by (simp add: save_state_def)

lemma bump_synced:
  assumes "state_synced s" "st s + 1 < 2 ^ 63" "st t = st s" "changes t = changes s"
    "mailbox_st t = mailbox_st s" "mailbox_changes t = mailbox_changes s" "submission_st t = submission_st s"
  shows "state_synced (bump works r t)"
  unfolding bump_def using assms
  by (intro save_synced) (simp_all add: state_synced_def log_ok_ins i64_def)

lemma put_synced:
  assumes s: "synced s" and ok: "op_ok (Put m) s"
  shows "synced (snd (put works m s))"
proof -
  define n where "n = (if thread_id m = [] then m\<lparr>thread_id := resolve_thread_id m s\<rparr> else m)"
  define t where "t = s\<lparr>disk := bt_ins (msg_path (m_id n)) (enc_email n) (disk s), msgs := bt_ins (m_id n) n (msgs s)\<rparr>"
  have id: "m_id n = m_id m" and nok: "email_ok n" using ok by (simp_all add: n_def email_ok_def)
  have mt: "msgs_synced (msgs t) (disk t)"
    using s ok id nok msgs_synced_put [of s "disk s" n] by (simp add: synced_def t_def)
  have p: "snd (put works m s) = (if bt_get (msgs s) (m_id n) \<noteq> None then t
      else bump works \<lparr>added = [m_id n], updated = [], removed = []\<rparr> t)"
    unfolding put_def Let_def n_def [symmetric] by (simp add: t_def)
  have d: "bt_get (disk t) ''delta.json'' = bt_get (disk s) ''delta.json''"
      "bt_get (disk t) ''identities.json'' = bt_get (disk s) ''identities.json''"
    by (simp_all add: t_def)
  have "state_synced t" "identities_synced t"
    using s d synced_cong [of t s] by (simp_all add: synced_def t_def)
  moreover have "state_synced (bump works r t)" for r
    using s ok by (intro bump_synced [of s]) (simp_all add: synced_def room_def t_def)
  moreover have "identities_synced (bump works r t)" for r
    using \<open>identities_synced t\<close> by (simp add: identities_synced_def bump_def save_state_def)
  moreover have "msgs_synced (msgs (bump works r t)) (disk (bump works r t))" for r
    using mt by (simp add: bump_def disk_save msgs_synced_other)
  ultimately show ?thesis using mt by (simp add: p synced_def)
qed

lemma delete_synced:
  assumes s: "synced s" and ok: "op_ok (Delete i) s"
  shows "synced (delete works i s)"
proof -
  define t where "t = s\<lparr>msgs := bt_del i (msgs s)\<rparr>"
  define u where "u = (if bt_get (msgs s) i \<noteq> None
    then bump works \<lparr>added = [], updated = [], removed = [i]\<rparr> t else s)"
  have m: "msgs u = bt_del i (msgs s)"
    using bt_eqI [of "msgs s" "bt_del i (msgs s)"] s by (auto simp: u_def t_def synced_def msgs_synced_def)
  have st: "state_synced u" "identities_synced u"
    using s ok bump_synced [of s t] by (auto simp: u_def t_def synced_def room_def identities_synced_def bump_def disk_save)
  have "msgs_synced (msgs s) (disk u)"
    using s by (simp add: u_def t_def synced_def bump_def disk_save msgs_synced_other)
  then have "msgs_synced (msgs u) (bt_del (msg_path i) (disk u))"
    using ok by (simp add: m msgs_synced_del)
  moreover have "delete works i s = u\<lparr>disk := bt_del (msg_path i) (disk u)\<rparr>"
    by (simp add: delete_def Let_def u_def t_def)
  moreover have "state_synced (u\<lparr>disk := bt_del (msg_path i) (disk u)\<rparr>)"
      "identities_synced (u\<lparr>disk := bt_del (msg_path i) (disk u)\<rparr>)"
    using st by (subst synced_cong [of _ u]; simp)+
  ultimately show ?thesis by (simp add: synced_def)
qed

lemma purge_synced: "synced s \<Longrightarrow> room s \<Longrightarrow> synced (snd (purge works s))"
proof -
  assume s: "synced s" and r: "room s"
  define u where "u = (if bt_keys (msgs s) \<noteq> []
      then bump works \<lparr>added = [], updated = [], removed = bt_keys (msgs s)\<rparr> (s\<lparr>msgs := []\<rparr>)
      else s\<lparr>msgs := []\<rparr>)"
  have ok: "bt_ok (disk u)" using s by (simp add: u_def synced_def msgs_synced_def bump_def disk_save)
  have "state_synced (s\<lparr>msgs := []\<rparr>)" using s synced_cong(1) [of "s\<lparr>msgs := []\<rparr>" s] by (simp add: synced_def)
  then have st: "state_synced u" "identities_synced u"
    using s r bump_synced [of s "s\<lparr>msgs := []\<rparr>"]
    by (auto simp: u_def synced_def room_def identities_synced_def bump_def disk_save)
  have "snd (purge works s) = u\<lparr>disk := filter (\<lambda>(p, _). \<not> json_file p) (disk u)\<rparr>"
    by (simp add: purge_def Let_def u_def)
  moreover have "state_synced (u\<lparr>disk := filter (\<lambda>(p, _). \<not> json_file p) (disk u)\<rparr>)"
      "identities_synced (u\<lparr>disk := filter (\<lambda>(p, _). \<not> json_file p) (disk u)\<rparr>)"
    using st by (subst synced_cong [of _ u]; simp add: bt_get_filter_keys)+
  moreover have "msgs u = []" by (simp add: u_def)
  ultimately show ?thesis using ok by (simp add: synced_def msgs_synced_purge)
qed

text \<open>Two stored ids cannot share a file: its content has one id.\<close>

lemma own_file_stored:
  assumes s: "msgs_synced (msgs s) (disk s)" and i: "bt_get (msgs s) i = Some m"
  shows "own_file i s"
  unfolding own_file_def list_all_iff
proof (intro ballI impI)
  fix j
  assume "j \<in> set (bt_keys (msgs s))" and p: "msg_path j = msg_path i"
  then obtain n where j: "bt_get (msgs s) j = Some n" by (auto simp: bt_keys_set)
  note n = msgs_syncedD(3) [OF s j] and m = msgs_syncedD(3) [OF s i]
  have "Some (enc_email n) = Some (enc_email m)" using n m p by (metis)
  then have "dec_email (enc_email n) = dec_email (enc_email m)" by simp
  then have "n = m" using n m by (simp add: email_rt)
  then show "j = i" using n m by metis
qed

lemma patch_entry_keeps: "m_id (patch_entry b m kv) = m_id m" "email_ok (patch_entry b m kv) = email_ok m"
  by (auto simp: patch_entry_def email_ok_def split: prod.split option.split json.split)

lemma patch_entries_keep:
  "m_id (foldl (patch_entry b) m p) = m_id m" "email_ok (foldl (patch_entry b) m p) = email_ok m"
  by (induction p arbitrary: m) (simp_all add: patch_entry_keeps)

lemma patch_synced: "synced s \<Longrightarrow> room s \<Longrightarrow> synced (snd (patch_store works i p b s))"
proof (cases "bt_get (msgs s) i")
  case None
  then show "synced s \<Longrightarrow> ?thesis" by (simp add: patch_store_def)
next
  case (Some m)
  assume s: "synced s" and r: "room s"
  define cp where "cp = foldl (patch_entry b) m p"
  define t where "t = bump works \<lparr>added = [], updated = [i], removed = []\<rparr> (s\<lparr>msgs := bt_ins i cp (msgs s)\<rparr>)"
  have ms: "msgs_synced (msgs s) (disk s)" using s by (simp add: synced_def)
  have old: "named i \<and> m_id m = i \<and> email_ok m" using msgs_syncedD(3) [OF ms Some] by simp
  then have cp: "m_id cp = i" "email_ok cp" by (simp_all add: cp_def patch_entries_keep)
  have own: "own_file i s"
    using own_file_stored [OF ms Some] .
  have eq: "snd (patch_store works i p b s) = t\<lparr>disk := bt_ins (msg_path i) (enc_email cp) (disk t)\<rparr>"
    by (simp add: patch_store_def Some Let_def cp_def [symmetric] t_def)
  have "msgs_synced (msgs s) (disk t)" using ms by (simp add: t_def bump_def disk_save msgs_synced_other)
  then have "msgs_synced (msgs t) (bt_ins (msg_path i) (enc_email cp) (disk t))"
    using msgs_synced_put [of s "disk t" cp] old cp own by (simp add: t_def)
  moreover have "state_synced t" "identities_synced t"
    using s r bump_synced [of s "s\<lparr>msgs := bt_ins i cp (msgs s)\<rparr>"]
    by (auto simp: t_def synced_def room_def identities_synced_def bump_def disk_save)
  ultimately show ?thesis
    unfolding eq synced_def
    by (subst synced_cong(1) [of _ t], simp_all, subst synced_cong(2) [of _ t], simp_all)
qed

lemma save_only_synced:
  assumes "synced s" "msgs t = msgs s" "identities t = identities s"
    "disk t = disk s \<or> (\<exists>c. disk t = bt_ins ''mailboxes.json'' c (disk s))"
    "log_ok (changes t)" "log_ok (mailbox_changes t)" "i64 (st t)" "i64 (mailbox_st t)" "i64 (submission_st t)"
  shows "synced (save_state works t)"
  using assms
  by (auto simp: synced_def save_synced identities_synced_def disk_save msgs_synced_other)

lemma mailbox_bump_synced:
  assumes "synced s" "room s"
  shows "synced (bump_mailbox_state works r (snd (put_mailboxes works mbs s)))"
  unfolding bump_mailbox_state_def put_mailboxes_def write_works snd_conv
  by (rule save_only_synced [OF assms(1)])
     (use assms in \<open>auto simp: synced_def state_synced_def room_def log_ok_ins i64_def\<close>)

lemma run_op_synced: "synced s \<Longrightarrow> op_ok op s \<Longrightarrow> synced (run_op works sha op s)"
proof (cases op)
  case (SyncMailboxes mbs)
  assume "synced s" "op_ok op s"
  then show ?thesis
    using SyncMailboxes mailbox_bump_synced [of s]
    by (simp add: sync_mailboxes_def Let_def put_mailboxes_def)
next
  case (SetIdentities ids)
  assume "synced s" "op_ok op s"
  then show ?thesis
    using SetIdentities synced_cong(1) [of "set_identities works ids s" s]
    by (auto simp: synced_def set_identities_def msgs_synced_other identities_synced_def)
next
  case (ReplaceIdentities ids n)
  assume "synced s" "op_ok op s"
  then show ?thesis
    using ReplaceIdentities synced_cong(1) [of "replace_identities works ids n s" s]
    by (auto simp: synced_def replace_identities_def msgs_synced_other identities_synced_def)
next
  case (AddSubmission sub)
  assume s: "synced s" "op_ok op s"
  show ?thesis
    unfolding AddSubmission run_op.simps add_submission_def
    by (rule save_only_synced [OF s(1)])
       (use s AddSubmission in \<open>simp_all add: synced_def state_synced_def room_def i64_def\<close>)
qed (simp_all add: put_synced delete_synced purge_synced patch_synced mailbox_bump_synced,
    auto simp: synced_def put_pending_def take_pending_def set_vacation_def put_blob_def Let_def
      intro: synced_cong [THEN iffD2])

section \<open>Restart\<close>

fun run_ops :: "io \<Rightarrow> (string \<Rightarrow> string) \<Rightarrow> store_op list \<Rightarrow> mail_store \<Rightarrow> mail_store" where
  "run_ops io sha [] s = s"
| "run_ops io sha (op # ops) s = run_ops io sha ops (run_op io sha op s)"

fun ops_ok :: "(string \<Rightarrow> string) \<Rightarrow> store_op list \<Rightarrow> mail_store \<Rightarrow> bool" where
  "ops_ok sha [] s \<longleftrightarrow> True"
| "ops_ok sha (op # ops) s \<longleftrightarrow> op_ok op s \<and> ops_ok sha ops (run_op works sha op s)"

lemma run_ops_synced: "synced s \<Longrightarrow> ops_ok sha ops s \<Longrightarrow> synced (run_ops works sha ops s)"
  by (induction ops arbitrary: s) (simp_all add: run_op_synced)

lemma new_synced: "synced (store_new [])"
  by (simp add: synced_def store_new_def msgs_synced_def state_synced_def identities_synced_def
      log_ok_def bt_keys_def i64_def)

text \<open>
  C4. A restart loses nothing but what is only in memory, as long as ids do not share files. From a
  new account, on a disk that works, take any sequence of store operations in which every message
  that is stored has an id and sizes of at most 64 bits, no id that is stored or deleted has the
  file name of another stored message's id, and no counter is at the end of its range (\<open>ops_ok\<close>).
  Reading the files again then gives every message, the change logs, the state counters of
  messages, mailboxes and submissions, the submissions and the list of identities as they were;
  drafts, blobs and the vacation response are forgotten, and the counter of the identities is back
  at zero.
\<close>

theorem restart_is_lossless:
  assumes "ops_ok sha ops (store_new [])"
  shows "open_store (disk (run_ops works sha ops (store_new []))) = forget (run_ops works sha ops (store_new []))"
  by (rule reopen_synced [OF run_ops_synced [OF new_synced assms]])

text \<open>Why ids must not share files: deleting one of them, stored or not, takes the file of the other,
  which stays in memory and is gone after a restart.\<close>

lemma delete_takes_other_file:
  assumes "bt_get (msgs s) i = Some m" "j \<noteq> i" "msg_path j = msg_path i"
  shows "bt_get (msgs (Store.delete works j s)) i = Some m \<and> bt_get (disk (Store.delete works j s)) (msg_path i) = None"
  using assms by (simp add: Store.delete_def Let_def bump_def save_state_def)

lemma ids_share_files: "msg_path ''a/b'' = msg_path ''a:b''"
  by (simp add: msg_path_def safe_filename_def unsafe_chars_def)

declare write_works [eval] unsafe_chars_def [eval] safe_filename_def [eval] msg_path_def [eval]
  save_state_def [eval] bump_def [eval] put_def [eval] delete_def [eval] patch_store_def [eval]
  patch_entry_def [eval] take_pending_def [eval] put_pending_def [eval] in_messages_def [eval]
  own_file_def [eval] room_def [eval] named_def [eval] email_ok_def [eval]

end
