(* ===== verification/EmailProps.thy ===== *)
theory EmailProps
  imports EmailMethods StoreDisk "HOL-Library.Multiset"
begin

text \<open>
  Properties of \<open>Email/*\<close> and of the store under it: synchronisation through \<open>Email/changes\<close>,
  paging, the query order, patches, and threading.
\<close>

section \<open>Synchronising\<close>

definition since_args :: "string \<Rightarrow> json" where
  "since_args state = obj [(''sinceState'', JStr state)]"

lemma since_args_field [simp]: "one_field ''sinceState'' dec_str [] (since_args x) = x"
  by (simp add: since_args_def one_field_def obj_def struct_ok_def fld_def field_def bt_of_def
      bt_get_def or_default_def)

lemma parse_since_show: "0 \<le> n \<Longrightarrow> n < 2 ^ 63 \<Longrightarrow> parse_since (show_int n) = Inr n"
  by (simp add: parse_since_def parse_i64_show_int)

text \<open>
  C11. \<open>Email/changes\<close> is exact. Let a client hold the ids of the store in state \<open>s\<close>; run any
  operations of the store, on any disk, to a later \<open>t\<close>. Then the answer to the client's state
  string lists some \<open>created\<close> and \<open>destroyed\<close>, disjoint, such that dropping the destroyed ids
  and adding the created ones gives exactly the ids in \<open>t\<close>, and the new state string is \<open>t\<close>'s.
\<close>

theorem email_changes_exact:
  "(store_step sha)\<^sup>*\<^sup>* s t \<Longrightarrow> 0 \<le> st s \<Longrightarrow> st t < 2 ^ 63 \<Longrightarrow>
   \<exists>c u d. email_changes acct (since_args (store_state s)) t
        = Inr (changes_response acct (store_state s) (store_state t) c u d) \<and>
     dom (bt_get (msgs t)) = (dom (bt_get (msgs s)) - bs_set d) \<union> bs_set c \<and>
     bs_set c \<inter> bs_set d = {}"
proof -
  assume r: "(store_step sha)\<^sup>*\<^sup>* s t" and n: "0 \<le> st s" "st t < 2 ^ 63"
  have le: "st s \<le> st t" by (rule mail.state_mono [OF r])
  obtain c u d where f: "fold_log added updated removed (changes t) (st s) (st t) = Some (c, u, d)"
      "dom (bt_get (msgs t)) = (dom (bt_get (msgs s)) - bs_set d) \<union> bs_set c" "bs_set c \<inter> bs_set d = {}"
    using mail.changes_exact [OF r] by blast
  then have "email_changes acct (since_args (store_state s)) t
      = Inr (changes_response acct (store_state s) (store_state t) c u d)"
    using n le by (simp add: email_changes_def store_state_def parse_since_show fold_changes_def)
  then show ?thesis using f by blast
qed

text \<open>
  Nothing changes behind the client's back, \<open>put\<close> of a known id apart: when no operation
  overwrites a stored message, every message that is not the same in \<open>s\<close> and \<open>t\<close> is named by
  the answer, as created, updated or destroyed.
\<close>

theorem email_changes_complete:
  "(tracked_step sha)\<^sup>*\<^sup>* s t \<Longrightarrow> 0 \<le> st s \<Longrightarrow> st t < 2 ^ 63 \<Longrightarrow>
   \<exists>c u d. email_changes acct (since_args (store_state s)) t
        = Inr (changes_response acct (store_state s) (store_state t) c u d) \<and>
     (\<forall>i. bt_get (msgs t) i \<noteq> bt_get (msgs s) i \<longrightarrow> i \<in> bs_set c \<union> bs_set u \<union> bs_set d)"
proof -
  assume r: "(tracked_step sha)\<^sup>*\<^sup>* s t" and n: "0 \<le> st s" "st t < 2 ^ 63"
  have le: "st s \<le> st t" by (rule mail_items.state_mono [OF r])
  obtain c u d where f: "fold_log added updated removed (changes t) (st s) (st t) = Some (c, u, d)"
      "\<forall>i. bt_get (msgs t) i \<noteq> bt_get (msgs s) i \<longrightarrow> i \<in> bs_set c \<union> bs_set u \<union> bs_set d"
    using mail_items.items_exact [OF r] by blast
  then have "email_changes acct (since_args (store_state s)) t
      = Inr (changes_response acct (store_state s) (store_state t) c u d)"
    using n le by (simp add: email_changes_def store_state_def parse_since_show fold_changes_def)
  then show ?thesis using f by blast
qed

section \<open>Query\<close>

lemma page_ok: "start + limit < 2 ^ 64 \<Longrightarrow> page xs start limit =
    Ret (if limit = 0 then drop start xs else take limit (drop start xs))"
  by (auto simp: page_def Let_def min_def not_le)

lemma wrapped: "n \<le> a \<Longrightarrow> a < 2 * n \<Longrightarrow> a mod n = a - (n :: nat)"
  by (simp add: le_mod_geq)

lemma page_panics:
  assumes "length xs < 2 ^ 64" "limit < 2 ^ 64"
  shows "page xs start limit = Panic \<longleftrightarrow> start < length xs \<and> 2 ^ 64 \<le> start + limit"
proof (cases "start < length xs \<and> 2 ^ 64 \<le> start + limit")
  case True
  then have m: "(start + limit) mod 2 ^ 64 = start + limit - 2 ^ 64"
    using assms by (intro wrapped) linarith+
  have "0 < limit" "start + limit - 2 ^ 64 < start" using True assms by linarith+
  then show ?thesis
    using True unfolding page_def Let_def m by (simp add: min_def)
next
  case False
  then show ?thesis by (cases "start < length xs") (auto simp: page_def Let_def min_def split: if_splits)
qed

text \<open>
  When a page of \<open>Email/query\<close> makes the request task panic: exactly when its start is
  inside the results and the start plus the client's limit passes 64 bits.
\<close>

theorem email_query_panics_iff:
  "length (msgs s) < 2 ^ 64 \<Longrightarrow> dec_query_args args = Some q \<Longrightarrow>
   email_query v acct args s = Panic \<longleftrightarrow>
     nat (max (q_position q) 0) < length (matching_ids (j_ts v) (keeps (j_lc v) (q_filter q)) s) \<and>
     2 ^ 64 \<le> nat (max (q_position q) 0) + q_limit q"
proof -
  assume len: "length (msgs s) < 2 ^ 64" and q: "dec_query_args args = Some q"
  let ?xs = "matching_ids (j_ts v) (keeps (j_lc v) (q_filter q)) s"
  let ?start = "nat (max (q_position q) 0)"
  have "length ?xs \<le> length (msgs s)"
    using length_filter_le [of _ "bt_vals (msgs s)"] by (simp add: matching_ids_def bt_vals_def)
  then have xs: "length ?xs < 2 ^ 64" using len by simp
  have lim: "q_limit q < 2 ^ 64"
    using q by (auto simp: dec_query_args_def dec_u64_def fld_def Option.bind_eq_Some_conv
        split: if_splits option.splits json.splits)
  note page_panics [OF xs lim, of ?start]
  then show ?thesis
    using q by (cases "page ?xs ?start (q_limit q)") (simp_all add: email_query_def or_default_def Let_def)
qed

definition page_args :: "int \<Rightarrow> nat \<Rightarrow> json" where
  "page_args pos limit = obj [(''limit'', enc_u64 limit), (''position'', JNum pos)]"

lemma dec_page_args:
  "0 \<le> pos \<Longrightarrow> pos < 2 ^ 63 \<Longrightarrow> limit < 2 ^ 64 \<Longrightarrow>
   dec_query_args (page_args pos limit) = Some \<lparr>q_filter = None, q_position = pos, q_limit = limit\<rparr>"
  by (simp add: page_args_def dec_query_args_def obj_def struct_ok_def fld_def field_def bt_of_def bt_get_def)

lemma sort_key_map:
  "sort_key f (map g xs) = map g (sort_key (f \<circ> g) xs)"
proof -
  have "insort_key f (g x) (map g ys) = map g (insort_key (f \<circ> g) x ys)" for x ys
    by (induction ys) auto
  then show ?thesis by (induction xs) (simp_all add: sort_key_def)
qed

lemma matching_all: "matching_ids ts (\<lambda>_. True) s = map m_id (all_emails ts s)"
  by (simp add: matching_ids_def all_emails_def sort_key_map comp_def)

text \<open>Sorting by one key keeps the order of another that the list already had.\<close>

lemma sort_key_lex:
  "sorted_wrt (\<lambda>x y. g x < g y) xs \<Longrightarrow>
   sorted_wrt (\<lambda>x y. f x < f y \<or> f x = f y \<and> g x < g y) (sort_key f xs)"
proof (induction xs)
  case (Cons x xs)
  let ?R = "\<lambda>x y. f x < f y \<or> f x = f y \<and> g x < g y"
  have ins: "sorted_wrt ?R ys \<Longrightarrow> (\<forall>y \<in> set ys. g x < g y) \<Longrightarrow> sorted_wrt ?R (insort_key f x ys)" for ys
  proof (induction ys)
    case (Cons y ys)
    then have IH: "sorted_wrt ?R (insort_key f x ys)" by simp
    show ?case
    proof (cases "f x \<le> f y")
      case True
      then show ?thesis using Cons.prems by (fastforce dest: order_le_imp_less_or_eq)
    next
      case False
      then show ?thesis using Cons.prems IH by (auto simp: set_insort_key)
    qed
  qed simp
  have "sorted_wrt ?R (sort_key f xs)" "\<forall>y \<in> set (sort_key f xs). g x < g y"
    using Cons by auto
  then show ?case using ins by (simp add: sort_key_def)
qed (simp add: sort_key_def)

text \<open>The order of a query: newest first, then by id.\<close>

definition before :: "(string \<Rightarrow> int option) \<Rightarrow> mail_store \<Rightarrow> string \<Rightarrow> string \<Rightarrow> bool" where
  "before ts s i j \<longleftrightarrow>
    (let t = (\<lambda>i. case bt_get (msgs s) i of None \<Rightarrow> 0 | Some m \<Rightarrow> email_time ts m) in
     t j < t i \<or> t i = t j \<and> i < j)"

text \<open>The index of a store: sorted, each message under its own id.\<close>

definition msgs_ok :: "mail_store \<Rightarrow> bool" where
  "msgs_ok s \<longleftrightarrow> bt_ok (msgs s) \<and> (\<forall>(i, m) \<in> set (msgs s). m_id m = i)"

lemma all_emails_get:
  assumes "msgs_ok s" "m \<in> set (all_emails ts s)"
  shows "bt_get (msgs s) (m_id m) = Some m"
proof -
  have "m \<in> snd ` set (msgs s)" using assms(2) by (simp add: all_emails_def bt_vals_def)
  then obtain i where "(i, m) \<in> set (msgs s)" by force
  then show ?thesis using assms(1) in_set_bt_get by (fastforce simp: msgs_ok_def)
qed

lemma all_ids:
  assumes "msgs_ok s"
  shows "mset (map m_id (all_emails ts s)) = mset (bt_keys (msgs s))"
    and "sorted_wrt (before ts s) (map m_id (all_emails ts s))"
proof -
  have ids: "map m_id (bt_vals (msgs s)) = bt_keys (msgs s)"
    using assms by (auto simp: msgs_ok_def bt_vals_def bt_keys_def)
  then show "mset (map m_id (all_emails ts s)) = mset (bt_keys (msgs s))"
    unfolding all_emails_def by (metis mset_map mset_sort)
  have "sorted_wrt (<) (map m_id (bt_vals (msgs s)))"
    unfolding ids using assms by (simp add: msgs_ok_def bt_ok_def bt_keys_def)
  then have "sorted_wrt (\<lambda>x y. - email_time ts x < - email_time ts y
      \<or> - email_time ts x = - email_time ts y \<and> m_id x < m_id y) (all_emails ts s)"
    unfolding all_emails_def by (intro sort_key_lex) (simp add: sorted_wrt_map)
  moreover have "bt_get (msgs s) (m_id m) = Some m" if "m \<in> set (all_emails ts s)" for m
    using all_emails_get [OF assms that] .
  ultimately show "sorted_wrt (before ts s) (map m_id (all_emails ts s))"
    unfolding sorted_wrt_map
    by (elim sorted_wrt_mono_rel [rotated]) (auto simp: before_def Let_def)
qed

lemma query_window:
  assumes "p < 2 ^ 63" "0 < k" "k < 2 ^ 63"
  shows "email_query v acct (page_args (int p) k) s =
       Ret (obj [(''accountId'', JStr acct), (''queryState'', JStr (store_state s)),
         (''canCalculateChanges'', JBool True), (''position'', JNum (int p)),
         (''total'', JNum (int (length (msgs s)))),
         (''ids'', str_arr (take k (drop p (map m_id (all_emails (j_ts v) s)))))])"
proof -
  have f: "keeps (j_lc v) None = (\<lambda>_. True)" by (auto simp: keeps_def)
  have d: "dec_query_args (page_args (int p) k) = Some \<lparr>q_filter = None, q_position = int p, q_limit = k\<rparr>"
    using assms by (intro dec_page_args) simp_all
  have "length (map m_id (all_emails (j_ts v) s)) = length (msgs s)"
    by (simp add: all_emails_def bt_vals_def)
  then show ?thesis
    using assms by (simp add: email_query_def d or_default_def f matching_all page_ok Let_def)
qed

text \<open>
  C23. \<open>Email/query\<close> pages through the mailbox: with no filter, the answer at position \<open>p\<close> with
  limit \<open>k\<close> is the window of \<open>k\<close> ids from \<open>p\<close> of a list that has every stored id once,
  newest first and in the order of the ids where the times agree.
\<close>

theorem email_query_pages:
  "msgs_ok s \<Longrightarrow> p < 2 ^ 63 \<Longrightarrow> 0 < k \<Longrightarrow> k < 2 ^ 63 \<Longrightarrow>
   \<exists>ids. email_query v acct (page_args (int p) k) s =
       Ret (obj [(''accountId'', JStr acct), (''queryState'', JStr (store_state s)),
         (''canCalculateChanges'', JBool True), (''position'', JNum (int p)),
         (''total'', JNum (int (length (msgs s)))), (''ids'', str_arr (take k (drop p ids)))]) \<and>
     mset ids = mset (bt_keys (msgs s)) \<and> sorted_wrt (before (j_ts v) s) ids"
  using query_window all_ids by blast

section \<open>Null in a request\<close>

lemma null_field:
  "dec_set_args d (obj [(''create'', c), (''update'', JNull)]) = ([], [], [])"
  by (simp add: dec_set_args_def obj_def struct_ok_def fld_def field_def bt_of_def bt_get_def
      or_default_def Option.bind_eq_None_conv split: option.split)

text \<open>
  A request that spells an unused argument as \<open>null\<close>, as RFC 8620 allows, loses all the
  others: \<open>Email/set\<close> with \<open>"update": null\<close> ignores its \<open>create\<close>, changes nothing, and
  answers success with every list empty.
\<close>

theorem null_update_drops_create:
  "email_set v h acct (obj [(''create'', c), (''update'', JNull)]) s
   = (set_response acct (store_state s) (store_state s) set_acc_new, s)"
  by (simp add: email_set_def null_field)

section \<open>Patches\<close>

text \<open>What a patch says of the path \<open>k\<close>: set to a boolean, removed by null, else untouched.\<close>

definition patched :: "jobj \<Rightarrow> string \<Rightarrow> bool option \<Rightarrow> bool option" where
  "patched p k old =
    (case map_of p k of Some (JBool b) \<Rightarrow> Some b | Some JNull \<Rightarrow> None | _ \<Rightarrow> old)"

lemma strip_prefix_append [simp]: "strip_prefix w (w @ x) = Some x"
  by (simp add: strip_prefix_def is_prefix_def)

lemma strip_prefix_Some: "strip_prefix w k = Some x \<Longrightarrow> k = w @ x"
  by (auto simp: strip_prefix_def is_prefix_def split: if_splits) (metis append_take_drop_id)

lemma strip_prefix_None: "strip_prefix w k = None \<Longrightarrow> k \<noteq> w @ x"
  by auto

lemma prefixes_differ: "strip_prefix ''keywords/'' (''mailboxIds/'' @ x) = None"
  by (simp add: strip_prefix_def is_prefix_def)

definition patch_value :: "json \<Rightarrow> bool option \<Rightarrow> bool option" where
  "patch_value v old = (case v of JBool b \<Rightarrow> Some b | JNull \<Rightarrow> None | _ \<Rightarrow> old)"

lemma patch_entry_keyword:
  "bt_get (m_keywords (patch_entry True m (k, v))) kw
    = (if k = ''keywords/'' @ kw then patch_value v (bt_get (m_keywords m) kw) else bt_get (m_keywords m) kw)"
proof (cases "strip_prefix ''keywords/'' k")
  case None
  then have "k \<noteq> ''keywords/'' @ kw" by (rule strip_prefix_None)
  moreover have "m_keywords (patch_entry True m (k, v)) = m_keywords m"
    using None by (auto simp: patch_entry_def split: option.split json.split)
  ultimately show ?thesis by (simp only: if_False)
next
  case (Some x)
  then have "k = ''keywords/'' @ kw \<longleftrightarrow> x = kw" using strip_prefix_Some [OF Some] by (simp only: same_append_eq)
  moreover have "bt_get (m_keywords (patch_entry True m (k, v))) kw
      = (if x = kw then patch_value v (bt_get (m_keywords m) kw) else bt_get (m_keywords m) kw)"
    using Some by (cases v) (simp_all add: patch_entry_def patch_value_def)
  ultimately show ?thesis by (simp only:)
qed

lemma patch_entry_mailbox:
  "bt_get (mailbox_ids (patch_entry True m (k, v))) mb
    = (if k = ''mailboxIds/'' @ mb then patch_value v (bt_get (mailbox_ids m) mb) else bt_get (mailbox_ids m) mb)"
proof (cases "strip_prefix ''keywords/'' k = None \<and> strip_prefix ''mailboxIds/'' k \<noteq> None")
  case False
  then have "k \<noteq> ''mailboxIds/'' @ mb" using prefixes_differ by (metis option.distinct(1) strip_prefix_append)
  moreover have "mailbox_ids (patch_entry True m (k, v)) = mailbox_ids m"
    using False by (auto simp: patch_entry_def split: option.split json.split)
  ultimately show ?thesis by (simp only: if_False)
next
  case True
  then obtain x where x: "strip_prefix ''mailboxIds/'' k = Some x" by blast
  then have "k = ''mailboxIds/'' @ mb \<longleftrightarrow> x = mb" using strip_prefix_Some [OF x] by (simp only: same_append_eq)
  moreover have "bt_get (mailbox_ids (patch_entry True m (k, v))) mb
      = (if x = mb then patch_value v (bt_get (mailbox_ids m) mb) else bt_get (mailbox_ids m) mb)"
    using True x by (cases v) (simp_all add: patch_entry_def patch_value_def)
  ultimately show ?thesis by (simp only:)
qed

text \<open>A fold that handles one path reads off that path's entry.\<close>

lemma foldl_patched:
  assumes "distinct (map fst p)"
    and "\<And>m k v. get (step m (k, v)) = (if k = path then patch_value v (get m) else get m)"
  shows "get (foldl step m p) = patched p path (get m)"
  using assms(1)
proof (induction p arbitrary: m)
  case (Cons kv p)
  obtain k v where kv: "kv = (k, v)" by fastforce
  have "k = path \<Longrightarrow> map_of p path = None" using Cons.prems kv by (auto simp: map_of_eq_None_iff)
  moreover have "get (foldl step m (kv # p)) = patched p path (if k = path then patch_value v (get m) else get m)"
    using Cons by (simp add: kv assms(2))
  ultimately show ?case by (simp add: kv patched_def patch_value_def)
qed (simp add: patched_def)

lemma patch_entries:
  assumes "distinct (map fst p)"
  shows "bt_get (m_keywords (foldl (patch_entry True) m p)) kw
      = patched p (''keywords/'' @ kw) (bt_get (m_keywords m) kw)"
    and "bt_get (mailbox_ids (foldl (patch_entry True) m p)) mb
      = patched p (''mailboxIds/'' @ mb) (bt_get (mailbox_ids m) mb)"
  by (rule foldl_patched [OF assms patch_entry_keyword])
     (rule foldl_patched [OF assms patch_entry_mailbox])

lemma patch_entries_rest:
  "(foldl (patch_entry b) m p)\<lparr>m_keywords := ks, mailbox_ids := ms\<rparr> = m\<lparr>m_keywords := ks, mailbox_ids := ms\<rparr>"
proof (induction p arbitrary: m)
  case (Cons kv p)
  have "(patch_entry b m kv)\<lparr>m_keywords := ks, mailbox_ids := ms\<rparr> = m\<lparr>m_keywords := ks, mailbox_ids := ms\<rparr>"
    by (auto simp: patch_entry_def split: prod.split option.split json.split)
  then show ?case using Cons by simp
qed simp

definition update_args :: "string \<Rightarrow> jobj \<Rightarrow> json" where
  "update_args i p = obj [(''update'', JObj [(i, JObj p)])]"

lemma dec_update_args: "dec_set_args Some (update_args i p) = ([], [(i, JObj p)], [])"
  by (simp add: update_args_def dec_set_args_def obj_def struct_ok_def fld_def field_def bt_of_def
      bt_get_def or_default_def dec_map_def)

lemma email_set_update:
  assumes "update_email h = None"
  shows "snd (email_set v h acct (update_args i p) s) = snd (patch_email (j_io v) i p s)"
  by (simp add: email_set_def dec_update_args email_update_def as_object_def ask_def assms Let_def
      split: prod.split sum.split)

text \<open>
  C12. \<open>Email/set\<close> applies a patch exactly: after an update of a stored message, each keyword
  and each mailbox membership is what the patch says of its path, and as it was where the patch
  does not name it; no other field of the message, and no other message, changes.
\<close>

theorem email_patch_exact:
  assumes "bt_ok p" and "bt_get (msgs s) i = Some m" and "update_email h = None"
  shows "\<exists>m'. msgs (snd (email_set v h acct (update_args i p) s)) = bt_ins i m' (msgs s) \<and>
    (\<forall>kw. bt_get (m_keywords m') kw = patched p (''keywords/'' @ kw) (bt_get (m_keywords m) kw)) \<and>
    (\<forall>mb. bt_get (mailbox_ids m') mb = patched p (''mailboxIds/'' @ mb) (bt_get (mailbox_ids m) mb)) \<and>
    m'\<lparr>m_keywords := m_keywords m, mailbox_ids := mailbox_ids m\<rparr> = m"
proof -
  have d: "distinct (map fst p)" using assms(1) by (simp add: bt_ok_def strict_sorted_iff)
  have "msgs (snd (email_set v h acct (update_args i p) s)) = bt_ins i (foldl (patch_entry True) m p) (msgs s)"
    by (simp add: email_set_update assms patch_email_def patch_store_def Let_def)
  moreover have "(foldl (patch_entry True) m p)\<lparr>m_keywords := m_keywords m, mailbox_ids := mailbox_ids m\<rparr> = m"
    by (simp add: patch_entries_rest)
  ultimately show ?thesis using patch_entries [OF d] by blast
qed

section \<open>Threads\<close>

lemma known_thread:
  assumes "m \<in> set (bt_vals ms)" "mid \<in> set (message_id m)" "trim_matches angle mid = r" "r \<noteq> []"
    and u: "\<And>n mid. n \<in> set (bt_vals ms) \<Longrightarrow> mid \<in> set (message_id n) \<Longrightarrow>
      trim_matches angle mid = r \<Longrightarrow> thread_id n = t"
  shows "bt_get (by_message_id ms) r = Some t"
proof -
  let ?l = "concat (map (\<lambda>m. map (\<lambda>mid. (trim_matches angle mid, thread_id m))
       (filter (\<lambda>mid. trim_matches angle mid \<noteq> []) (message_id m))) (bt_vals ms))"
  have "(r, thread_id m) \<in> set ?l" using assms by force
  then obtain x where x: "map_of (rev ?l) r = Some x"
    using weak_map_of_SomeI [of r "thread_id m" "rev ?l"] by auto
  then have "(r, x) \<in> set ?l" using map_of_SomeD by fastforce
  then have "x = t" using u by auto
  then show ?thesis using x by (simp only: by_message_id_def bt_get_of)
qed

text \<open>
  A reply joins the conversation: a message with no thread of its own and no chat group,
  whose first reference is the id of stored messages all in one thread, is stored in that
  thread, whether or not it is already known, when its file can be written.
\<close>

theorem reply_joins_thread:
  assumes "thread_id m = []" "group_of m = None" "in_reply_to m @ references m = r # rs"
    and "x \<in> set (bt_vals (msgs s))" "mid \<in> set (message_id x)"
    and "trim_matches angle mid = trim_matches angle r" "trim_matches angle r \<noteq> []" "thread_id x \<noteq> []"
    and "\<And>n mid. n \<in> set (bt_vals (msgs s)) \<Longrightarrow> mid \<in> set (message_id n) \<Longrightarrow>
      trim_matches angle mid = trim_matches angle r \<Longrightarrow> thread_id n = thread_id x"
    and "io (msg_path (m_id m)) = None"
  shows "bt_get (msgs (snd (put io m s))) (m_id m) = Some (m\<lparr>thread_id := thread_id x\<rparr>)"
proof -
  have "bt_get (by_message_id (msgs s)) (trim_matches angle r) = Some (thread_id x)"
    by (rule known_thread [OF assms(4,5,6,7) assms(9)])
  then have "resolve_thread_id m s = thread_id x"
    unfolding resolve_thread_id_def Let_def assms(2,3) option.case map_filter_simps
    by (simp add: assms(8))
  then show ?thesis
    using assms(1,10) by (simp add: put_def write_file_def Let_def)
qed

section \<open>The hypotheses hold\<close>

definition demo_msg :: "string \<Rightarrow> email" where
  "demo_msg i = email_default\<lparr>m_id := i, mailbox_ids := [(''inbox'', True)], thread_id := ''t''\<rparr>"

definition demo_mail :: mail_store where
  "demo_mail = run_ops works (\<lambda>d. d)
     [Put (demo_msg ''a''), Put (demo_msg ''b''), Patch ''a'' [(''keywords/$seen'', JBool True)] True, Delete ''b'']
     (store_new [])"

lemma demo_mail_eval:
  "st demo_mail = 4" "bt_keys (msgs demo_mail) = [''a'']"
  "m_keywords (the (bt_get (msgs demo_mail) ''a'')) = [(''$seen'', True)]"
  by (simp_all add: demo_mail_def demo_msg_def email_default_def store_new_def eval)

theorem restart_is_lossless_witness:
  "open_store (disk demo_mail) = forget demo_mail"
  unfolding demo_mail_def
  by (rule restart_is_lossless) (simp add: demo_msg_def email_default_def store_new_def eval)

lemma run_op_step: "store_step sha s (run_op io sha op s)"
  by (auto simp: store_step_def)

lemma run_ops_steps: "(store_step sha)\<^sup>*\<^sup>* s (run_ops io sha ops s)"
  by (induction ops arbitrary: s) (auto intro: converse_rtranclp_into_rtranclp run_op_step)

theorem email_changes_exact_witness:
  "\<exists>c u d. email_changes ''alice'' (since_args (store_state (store_new []))) demo_mail
        = Inr (changes_response ''alice'' (store_state (store_new [])) (store_state demo_mail) c u d) \<and>
     dom (bt_get (msgs demo_mail)) = (dom (bt_get (msgs (store_new []))) - bs_set d) \<union> bs_set c \<and>
     bs_set c \<inter> bs_set d = {}"
proof (rule email_changes_exact)
  show "(store_step (\<lambda>d. d))\<^sup>*\<^sup>* (store_new []) demo_mail" unfolding demo_mail_def by (rule run_ops_steps)
qed (simp_all add: demo_mail_eval, simp add: store_new_def)

definition demo_one :: mail_store where
  "demo_one = run_op works (\<lambda>d. d) (Put (demo_msg ''a'')) (store_new [])"

theorem email_changes_complete_witness:
  "\<exists>c u d. email_changes ''alice'' (since_args (store_state (store_new []))) demo_one
        = Inr (changes_response ''alice'' (store_state (store_new [])) (store_state demo_one) c u d) \<and>
     (\<forall>i. bt_get (msgs demo_one) i \<noteq> bt_get (msgs (store_new [])) i \<longrightarrow> i \<in> bs_set c \<union> bs_set u \<union> bs_set d)"
proof (rule email_changes_complete)
  have "tracked_step (\<lambda>d. d) (store_new []) demo_one"
    unfolding tracked_step_def demo_one_def
    by (intro exI [of _ works] exI [of _ "Put (demo_msg ''a'')"]) (simp add: store_new_def)
  then show "(tracked_step (\<lambda>d. d))\<^sup>*\<^sup>* (store_new []) demo_one" by (rule r_into_rtranclp)
qed (simp_all add: demo_one_def store_new_def demo_msg_def email_default_def eval)

definition demo_env :: jenv where
  "demo_env = \<lparr>j_io = works, j_ts = (\<lambda>_. None), j_sha = (\<lambda>d. d), j_lc = ascii_lower,
     j_dbg = (\<lambda>d. d), j_mime = (\<lambda>_ _. None)\<rparr>"

definition demo_two :: mail_store where
  "demo_two = (store_new [])\<lparr>msgs := [(''a'', demo_msg ''a''), (''b'', demo_msg ''b'')]\<rparr>"

theorem email_query_panics_iff_witness:
  "email_query demo_env ''alice'' (page_args 1 (2 ^ 64 - 1)) demo_two = Panic"
proof -
  have "keeps lc None = (\<lambda>_. True)" for lc by (auto simp: keeps_def)
  then have "length (matching_ids (j_ts demo_env) (keeps (j_lc demo_env) None) demo_two) = 2"
    by (simp add: matching_ids_def demo_two_def bt_vals_def)
  moreover have "length (msgs demo_two) < 2 ^ 64" by (simp add: demo_two_def)
  ultimately show ?thesis
    using email_query_panics_iff [of demo_two "page_args 1 (2 ^ 64 - 1)" _ demo_env "''alice''"]
      dec_page_args [of 1 "2 ^ 64 - 1"] by simp
qed

theorem email_query_pages_witness:
  "\<exists>ids. email_query demo_env ''alice'' (page_args (int 1) 1) demo_two =
       Ret (obj [(''accountId'', JStr ''alice''), (''queryState'', JStr (store_state demo_two)),
         (''canCalculateChanges'', JBool True), (''position'', JNum (int 1)),
         (''total'', JNum (int (length (msgs demo_two)))), (''ids'', str_arr (take 1 (drop 1 ids)))]) \<and>
     mset ids = mset (bt_keys (msgs demo_two)) \<and> sorted_wrt (before (j_ts demo_env) demo_two) ids"
  by (rule email_query_pages)
     (simp_all add: msgs_ok_def demo_two_def bt_ok_def demo_msg_def email_default_def eval)

definition demo_patch :: jobj where
  "demo_patch = [(''keywords/$seen'', JBool True), (''mailboxIds/inbox'', JNull)]"

theorem email_patch_exact_witness:
  "\<exists>m'. msgs (snd (email_set demo_env no_hooks ''alice'' (update_args ''a'' demo_patch) demo_two))
        = bt_ins ''a'' m' (msgs demo_two) \<and>
    (\<forall>kw. bt_get (m_keywords m') kw = patched demo_patch (''keywords/'' @ kw) (bt_get (m_keywords (demo_msg ''a'')) kw)) \<and>
    (\<forall>mb. bt_get (mailbox_ids m') mb = patched demo_patch (''mailboxIds/'' @ mb) (bt_get (mailbox_ids (demo_msg ''a'')) mb)) \<and>
    m'\<lparr>m_keywords := m_keywords (demo_msg ''a''), mailbox_ids := mailbox_ids (demo_msg ''a'')\<rparr> = demo_msg ''a''"
  by (rule email_patch_exact)
     (simp_all add: demo_patch_def demo_two_def bt_ok_def bt_get_def no_hooks_def less_char_def byte_def)

definition demo_parent :: email where
  "demo_parent = (demo_msg ''p'')\<lparr>message_id := [''<x@y>''], thread_id := ''thr-x''\<rparr>"

definition demo_reply :: email where
  "demo_reply = (demo_msg ''r'')\<lparr>thread_id := [], in_reply_to := [''x@y'']\<rparr>"

definition demo_chat :: mail_store where
  "demo_chat = (store_new [])\<lparr>msgs := [(''p'', demo_parent)]\<rparr>"

theorem reply_joins_thread_witness:
  "bt_get (msgs (snd (put works demo_reply demo_chat))) (m_id demo_reply)
    = Some (demo_reply\<lparr>thread_id := thread_id demo_parent\<rparr>)"
  by (rule reply_joins_thread [of _ "''x@y''" "[]" _ _ "''<x@y>''"])
     (simp_all add: demo_reply_def demo_chat_def demo_parent_def demo_msg_def email_default_def
       store_new_def group_of_def bt_vals_def works_def angle_def eval)

theorem email_roundtrip_witness: "dec_email (enc_email demo_parent) = Some demo_parent"
  by (rule email_roundtrip) (simp add: demo_parent_def demo_msg_def email_default_def email_ok_def)

end
