(* ===== verification/MailboxMethods.thy ===== *)
theory MailboxMethods
  imports Methods
begin

text \<open>\<open>Mailbox/*\<close>: \<open>crates/jmapserver/src/methods/mailbox.rs\<close>.\<close>

section \<open>Reading\<close>

definition mailbox_get :: "string \<Rightarrow> mail_store \<Rightarrow> json" where
  "mailbox_get acct s =
    obj [(''accountId'', JStr acct), (''state'', JStr (mailbox_state s)),
      (''list'', enc_vec enc_mailbox (mailboxes s)), (''notFound'', JArr [])]"

definition mailbox_method_changes :: "string \<Rightarrow> json \<Rightarrow> mail_store \<Rightarrow> method_error + json" where
  "mailbox_method_changes acct args s =
    (let old = one_field ''sinceState'' dec_str [] args; cur = mailbox_st s in
     case parse_since old of
       Inl e \<Rightarrow> Inl e
     | Inr since \<Rightarrow>
         if cur < since then Inl CannotCalculateChanges
         else
           (case fold_log mb_created mb_updated mb_destroyed (mailbox_changes s) since cur of
              None \<Rightarrow> Inl CannotCalculateChanges
            | Some (c, u, d) \<Rightarrow> Inr (changes_response acct old (show_int cur) c u d)))"

definition dec_mailbox_filter :: "json \<Rightarrow> (string \<times> string) option" where
  "dec_mailbox_filter j =
    (if \<not> struct_ok 2 j then None
     else do {
       n \<leftarrow> fld j 0 ''name'' dec_str [];
       r \<leftarrow> fld j 1 ''role'' dec_str [];
       Some (n, r)
     })"

definition mailbox_query :: "(string \<Rightarrow> string) \<Rightarrow> string \<Rightarrow> json \<Rightarrow> mail_store \<Rightarrow> json" where
  "mailbox_query lc acct args s =
    (let f = one_field ''filter'' (dec_opt dec_mailbox_filter) None args;
         ids = map b_id (filter (\<lambda>b.
           (case f of
              None \<Rightarrow> True
            | Some (n, r) \<Rightarrow> (n = [] \<or> contains (lc (b_name b)) (lc n)) \<and> (r = [] \<or> role b = r)))
           (mailboxes s)) in
     obj [(''accountId'', JStr acct), (''queryState'', JStr (mailbox_state s)),
       (''canCalculateChanges'', JBool True), (''position'', JNum 0),
       (''total'', JNum (int (length ids))), (''ids'', str_arr ids)])"

definition mailbox_query_changes :: "string \<Rightarrow> json \<Rightarrow> mail_store \<Rightarrow> method_error + json" where
  "mailbox_query_changes acct args s =
    (let old = one_field ''sinceQueryState'' dec_str [] args; cur = mailbox_st s in
     case parse_since old of
       Inl e \<Rightarrow> Inl e
     | Inr since \<Rightarrow>
         if cur < since then Inl CannotCalculateChanges
         else
           (case fold_query_log mb_created mb_destroyed (mailbox_changes s) since cur of
              None \<Rightarrow> Inl CannotCalculateChanges
            | Some (a, r) \<Rightarrow> Inr (query_changes_response acct old (show_int cur) a r)))"

section \<open>Writing\<close>

record mb_loop =
  ml_mbs :: "mailbox list"
  ml_rec :: mailbox_change_record
  ml_changed :: bool
  ml_acc :: set_acc
  ml_store :: mail_store

definition mailbox_create :: "hooks \<Rightarrow> mb_loop \<Rightarrow> string \<times> mailbox \<Rightarrow> mb_loop" where
  "mailbox_create h l kv =
    (case kv of (key, mb0) \<Rightarrow>
      (let mb = (if b_id mb0 = [] then mb0\<lparr>b_id := ''mbx-'' @ key\<rparr> else mb0) in
       case ask (map_option (\<lambda>f. f ''create'' (b_id mb) (Some mb)) (set_mailbox h)) (ml_store l) of
         (Inl e, s) \<Rightarrow> l\<lparr>ml_store := s, ml_acc := (ml_acc l)\<lparr>not_created :=
             bt_ins key (err_obj ''serverFail'' e) (not_created (ml_acc l))\<rparr>\<rparr>
       | (Inr _, s) \<Rightarrow> l\<lparr>ml_store := s,
           ml_acc := (ml_acc l)\<lparr>created := bt_ins key (obj [(''id'', JStr (b_id mb))]) (created (ml_acc l))\<rparr>,
           ml_rec := (ml_rec l)\<lparr>mb_created := mb_created (ml_rec l) @ [b_id mb]\<rparr>,
           ml_mbs := ml_mbs l @ [mb], ml_changed := True\<rparr>))"

definition mailbox_update :: "mb_loop \<Rightarrow> string \<times> json \<Rightarrow> mb_loop" where
  "mailbox_update l kv =
    (case kv of (i, patch) \<Rightarrow>
      (case position (\<lambda>mb. b_id mb = i) (ml_mbs l) of
         None \<Rightarrow> l\<lparr>ml_acc := (ml_acc l)\<lparr>not_updated :=
             bt_ins i (err_obj ''notFound'' ''mailbox not found'') (not_updated (ml_acc l))\<rparr>\<rparr>
       | Some n \<Rightarrow>
           (let mbs = (case Option.bind (as_object patch) (\<lambda>o'. get_str o' ''name'') of
                         Some name \<Rightarrow> (ml_mbs l)[n := (ml_mbs l ! n)\<lparr>b_name := name\<rparr>]
                       | None \<Rightarrow> ml_mbs l) in
            l\<lparr>ml_mbs := mbs, ml_changed := True,
              ml_acc := (ml_acc l)\<lparr>upd_ok := bt_ins i (JObj []) (upd_ok (ml_acc l))\<rparr>,
              ml_rec := (ml_rec l)\<lparr>mb_updated := mb_updated (ml_rec l) @ [i]\<rparr>\<rparr>)))"

definition mailbox_destroy :: "hooks \<Rightarrow> mb_loop \<Rightarrow> string \<Rightarrow> mb_loop" where
  "mailbox_destroy h l i =
    (if \<not> list_ex (\<lambda>mb. b_id mb = i) (ml_mbs l) then
       l\<lparr>ml_acc := (ml_acc l)\<lparr>not_destroyed :=
          bt_ins i (err_obj ''notFound'' ''mailbox not found'') (not_destroyed (ml_acc l))\<rparr>\<rparr>
     else
       (case ask (map_option (\<lambda>f. f ''destroy'' i None) (set_mailbox h)) (ml_store l) of
          (Inl e, s) \<Rightarrow> l\<lparr>ml_store := s, ml_acc := (ml_acc l)\<lparr>not_destroyed :=
              bt_ins i (err_obj ''serverFail'' e) (not_destroyed (ml_acc l))\<rparr>\<rparr>
        | (Inr _, s) \<Rightarrow> l\<lparr>ml_store := s, ml_changed := True,
            ml_acc := (ml_acc l)\<lparr>destroyed := destroyed (ml_acc l) @ [i]\<rparr>,
            ml_rec := (ml_rec l)\<lparr>mb_destroyed := mb_destroyed (ml_rec l) @ [i]\<rparr>\<rparr>))"

definition mb_loop_new :: "mail_store \<Rightarrow> mb_loop" where
  "mb_loop_new s = \<lparr>ml_mbs = mailboxes s,
     ml_rec = \<lparr>mb_created = [], mb_updated = [], mb_destroyed = []\<rparr>, ml_changed = False,
     ml_acc = set_acc_new, ml_store = s\<rparr>"

definition mailbox_loop :: "hooks \<Rightarrow> json \<Rightarrow> mail_store \<Rightarrow> mb_loop" where
  "mailbox_loop h args s =
    (case dec_set_args dec_mailbox args of (cr, up, ds) \<Rightarrow>
      foldl (mailbox_destroy h) (foldl mailbox_update (foldl (mailbox_create h) (mb_loop_new s) cr) up) ds)"

definition mailbox_set :: "jenv \<Rightarrow> hooks \<Rightarrow> string \<Rightarrow> json \<Rightarrow> mail_store \<Rightarrow> json \<times> mail_store" where
  "mailbox_set v h acct args s =
    (let l = mailbox_loop h args s;
         kept = filter (\<lambda>mb. b_id mb \<notin> set (destroyed (ml_acc l))) (ml_mbs l);
         s' = (if ml_changed l
               then bump_mailbox_state (j_io v) (ml_rec l) (snd (put_mailboxes (j_io v) kept (ml_store l)))
               else ml_store l) in
     (set_response acct (mailbox_state s) (mailbox_state s') (ml_acc l), s'))"

end
