(* ===== verification/Batch.thy ===== *)
theory Batch
  imports EmailMethods MailboxMethods
begin

text \<open>
  One JMAP request (\<open>crates/jmapserver/src\<close>): result references (\<open>refs.rs\<close>), routing a call to
  its method (\<open>dispatch.rs\<close>), and the batch, the session object and the event hub (\<open>server.rs\<close>).
  The text of serde's errors (\<open>re_err\<close>) and the quoted form of a string (\<open>re_dbg\<close>) are
  arguments.
\<close>

section \<open>Result references\<close>

record ref_text =
  re_dbg :: "string \<Rightarrow> string"
  re_err :: "json \<Rightarrow> string"

definition hash :: char where
  "hash = CHR 0x23"

definition dec_reference :: "json \<Rightarrow> (string \<times> string) option" where
  "dec_reference j =
    (if \<not> struct_ok 2 j then None
     else do {
       r \<leftarrow> req j 0 ''resultOf'' dec_str;
       p \<leftarrow> req j 1 ''path'' dec_str;
       Some (r, p)
     })"

text \<open>One step of \<open>json_path\<close>; an empty segment stays where it is.\<close>

definition path_step :: "ref_text \<Rightarrow> json \<Rightarrow> string \<Rightarrow> string + json" where
  "path_step e cur seg =
    (if seg = [] then Inr cur
     else case cur of
       JObj m \<Rightarrow>
         (case bt_get m seg of
            None \<Rightarrow> Inl (''key '' @ re_dbg e seg @ '' not found'')
          | Some v \<Rightarrow> Inr v)
     | JArr a \<Rightarrow>
         (case parse_unsigned (2 ^ 64) seg of
            None \<Rightarrow> Inl (''expected array index at '' @ re_dbg e seg)
          | Some i \<Rightarrow>
              if i < length a then Inr (a ! i)
              else Inl (''index '' @ show_nat i @ '' out of range (len '' @ show_nat (length a) @ '')''))
     | _ \<Rightarrow> Inl (''expected object or array at '' @ re_dbg e seg))"

fun path_walk :: "ref_text \<Rightarrow> json \<Rightarrow> string list \<Rightarrow> string + json" where
  "path_walk e cur [] = Inr cur"
| "path_walk e cur (seg # segs) =
    (case path_step e cur seg of Inl m \<Rightarrow> Inl m | Inr v \<Rightarrow> path_walk e v segs)"

definition json_path :: "ref_text \<Rightarrow> json \<Rightarrow> string \<Rightarrow> string + json" where
  "json_path e data path =
    path_walk e data (split_on (CHR ''/'') (trim_start_chars [CHR ''/''] path))"

definition resolve_ref :: "ref_text \<Rightarrow> (string, json) btree \<Rightarrow> string \<Rightarrow> json \<Rightarrow> string + json" where
  "resolve_ref e results k v =
    (case dec_reference v of
       None \<Rightarrow> Inl (''bad result reference '' @ k @ '': '' @ re_err e v)
     | Some (call, path) \<Rightarrow>
         (case bt_get results call of
            None \<Rightarrow> Inl (''no result for callId '' @ re_dbg e call)
          | Some prev \<Rightarrow>
              (case json_path e prev path of
                 Inl m \<Rightarrow> Inl (''path '' @ re_dbg e path @ '' in '' @ re_dbg e call @ '': '' @ m)
               | Inr r \<Rightarrow> Inr r)))"

fun resolve_fields ::
  "ref_text \<Rightarrow> (string, json) btree \<Rightarrow> jobj \<Rightarrow> jobj \<Rightarrow> string + jobj" where
  "resolve_fields e results out [] = Inr out"
| "resolve_fields e results out ((k, v) # kvs) =
    (case strip_prefix [hash] k of
       None \<Rightarrow> resolve_fields e results (bt_ins k v out) kvs
     | Some name \<Rightarrow>
         (case resolve_ref e results k v of
            Inl m \<Rightarrow> Inl m
          | Inr r \<Rightarrow> resolve_fields e results (bt_ins name r out) kvs))"

definition resolve :: "ref_text \<Rightarrow> json \<Rightarrow> (string, json) btree \<Rightarrow> string + json" where
  "resolve e args results =
    (case as_object args of
       None \<Rightarrow> Inr args
     | Some o' \<Rightarrow>
         if \<not> list_ex (is_prefix [hash]) (bt_keys o') then Inr args
         else (case resolve_fields e results [] o' of Inl m \<Rightarrow> Inl m | Inr out \<Rightarrow> Inr (JObj out)))"

section \<open>Routing\<close>

text \<open>
  A method call: the value or error, or a panic, and the store afterwards. A handler that only
  reads leaves the store as it is.
\<close>

type_synonym method_result = "(method_error + json) outcome \<times> mail_store"

definition reads :: "json \<Rightarrow> mail_store \<Rightarrow> method_result" where
  "reads j s = (Ret (Inr j), s)"

definition tries :: "method_error + json \<Rightarrow> mail_store \<Rightarrow> method_result" where
  "tries r s = (Ret r, s)"

definition writes :: "json \<times> mail_store \<Rightarrow> method_result" where
  "writes p = (Ret (Inr (fst p)), snd p)"

definition dispatch ::
  "jenv \<Rightarrow> hooks \<Rightarrow> string \<Rightarrow> string \<Rightarrow> string \<Rightarrow> json \<Rightarrow> mail_store \<Rightarrow> method_result" where
  "dispatch v h now acct method args s =
    (if method = ''Mailbox/get'' then reads (mailbox_get acct s) s
     else if method = ''Mailbox/changes'' then tries (mailbox_method_changes acct args s) s
     else if method = ''Mailbox/query'' then reads (mailbox_query (j_lc v) acct args s) s
     else if method = ''Mailbox/queryChanges'' then tries (mailbox_query_changes acct args s) s
     else if method = ''Mailbox/set'' then writes (mailbox_set v h acct args s)
     else if method = ''Thread/get'' then reads (thread_get (j_ts v) acct args s) s
     else if method = ''Thread/changes'' then tries (thread_changes acct args s) s
     else if method = ''Email/get'' then reads (email_get acct args s) s
     else if method = ''Email/changes'' then tries (email_changes acct args s) s
     else if method = ''Email/query'' then
       (bind_out (email_query v acct args s) (\<lambda>j. Ret (Inr j)), s)
     else if method = ''Email/queryChanges'' then tries (email_query_changes acct args s) s
     else if method = ''Email/set'' then writes (email_set v h acct args s)
     else if method = ''Email/copy'' then writes (email_copy v acct args s)
     else if method = ''Email/import'' then writes (email_import v now acct args s)
     else if method = ''Email/parse'' then reads (email_parse v now acct args s) s
     else if method = ''SearchSnippet/get'' then reads (searchsnippet_get (j_lc v) acct args s) s
     else if method = ''Identity/get'' then reads (identity_get acct s) s
     else if method = ''Identity/changes'' then reads (identity_changes acct args s) s
     else if method = ''Identity/set'' then writes (identity_set v h acct args s)
     else if method = ''EmailSubmission/get'' then reads (submission_get acct s) s
     else if method = ''EmailSubmission/changes'' then tries (submission_changes acct args s) s
     else if method = ''EmailSubmission/query'' then reads (submission_query acct s) s
     else if method = ''EmailSubmission/queryChanges'' then tries (submission_query_changes acct args s) s
     else if method = ''EmailSubmission/set'' then writes (submission_set v h now acct args s)
     else if method = ''VacationResponse/get'' then reads (vacation_get acct s) s
     else if method = ''VacationResponse/set'' then writes (vacation_set acct args s)
     else tries (Inl (UnknownMethod method)) s)"

section \<open>The batch\<close>

text \<open>\<open>handle\<close> is the application's \<open>Handler::handle\<close>, over a state of its own.\<close>

type_synonym 's handler = "string \<Rightarrow> json \<Rightarrow> 's \<Rightarrow> (method_error + json) outcome \<times> 's"

definition error_response :: "string \<Rightarrow> string \<Rightarrow> string \<Rightarrow> string \<Rightarrow> json" where
  "error_response name call_id typ desc = JArr [JStr name, err_obj typ desc, JStr call_id]"

definition str_or_empty :: "json \<Rightarrow> string" where
  "str_or_empty j = or_default [] (as_str j)"

fun batch_loop ::
  "ref_text \<Rightarrow> 's handler \<Rightarrow> (string, json) btree \<Rightarrow> json list \<Rightarrow> 's \<Rightarrow> json list outcome \<times> 's" where
  "batch_loop e handle results [] s = (Ret [], s)"
| "batch_loop e handle results (raw # calls) s =
    (case as_array raw of
       Some (c0 # c1 # c2 # _) \<Rightarrow>
         (let name = str_or_empty c0; call_id = str_or_empty c2;
              answer = (\<lambda>resp results s.
                case batch_loop e handle results calls s of
                  (r, s') \<Rightarrow> (bind_out r (\<lambda>rs. Ret (resp # rs)), s')) in
          case resolve e c1 results of
            Inl m \<Rightarrow> answer (error_response name call_id ''serverFail'' m) results s
          | Inr args \<Rightarrow>
              (case handle name args s of
                 (Panic, s') \<Rightarrow> (Panic, s')
               | (Ret (Inr result), s') \<Rightarrow>
                   answer (JArr [JStr name, result, JStr call_id]) (bt_ins call_id result results) s'
               | (Ret (Inl err), s') \<Rightarrow>
                   answer (error_response name call_id (error_type err) (show_method_error err)) results s'))
     | _ \<Rightarrow> batch_loop e handle results calls s)"

definition run_batch :: "ref_text \<Rightarrow> 's handler \<Rightarrow> json list \<Rightarrow> 's \<Rightarrow> json outcome \<times> 's" where
  "run_batch e handle calls s =
    (case batch_loop e handle [] calls s of
       (r, s') \<Rightarrow>
         (bind_out r (\<lambda>rs. Ret (obj [(''sessionState'', JStr ''0''), (''methodResponses'', JArr rs)])), s'))"

section \<open>Session\<close>

record server_config =
  listen_addr :: string
  base_url_setting :: string
  global_password :: string

record jmap_account =
  ac_id :: string
  ac_name :: string

definition base_url :: "server_config \<Rightarrow> string" where
  "base_url cfg =
    (let base = trim_end_chars [CHR ''/''] (base_url_setting cfg) in
     if base \<noteq> [] then base
     else ''http://'' @ (if listen_addr cfg = [] then ''0.0.0.0:8765'' else listen_addr cfg))"

definition core_capability :: json where
  "core_capability = obj
    [(''maxSizeUpload'', JNum 50000000), (''maxConcurrentUpload'', JNum 4),
     (''maxSizeRequest'', JNum 10000000), (''maxConcurrentRequests'', JNum 4),
     (''maxCallsInRequest'', JNum 32), (''maxObjectsInGet'', JNum 500),
     (''maxObjectsInSet'', JNum 500), (''collationAlgorithms'', JArr [])]"

text \<open>An authenticated session shows only its own account.\<close>

definition shown :: "string option \<Rightarrow> jmap_account \<Rightarrow> bool" where
  "shown authed a = (case authed of None \<Rightarrow> True | Some i \<Rightarrow> i = [] \<or> ac_id a = i)"

definition session_account ::
  "string list \<Rightarrow> jobj \<Rightarrow> jobj \<times> jobj \<times> string \<Rightarrow> jmap_account \<Rightarrow> jobj \<times> jobj \<times> string" where
  "session_account caps acct_caps acc a =
    (case acc of (accounts, primary, username) \<Rightarrow>
      (let accounts' = bt_ins (ac_id a) (obj [(''name'', JStr (ac_name a)), (''isPersonal'', JBool True),
                 (''isReadOnly'', JBool False), (''accountCapabilities'', JObj acct_caps)]) accounts in
       if username = [] then
         (accounts', foldl (\<lambda>p u. bt_ins u (JStr (ac_id a)) p) primary caps, ac_name a)
       else (accounts', primary, username)))"

definition jmap_session ::
  "server_config \<Rightarrow> string list \<Rightarrow> jmap_account list \<Rightarrow> string option \<Rightarrow> json" where
  "jmap_session cfg caps accts authed =
    (let raw_caps = foldl (\<lambda>m u. bt_ins u (JObj []) m) (bt_ins ''urn:ietf:params:jmap:core'' core_capability []) caps;
         acct_caps = foldl (\<lambda>m u. bt_ins u (JObj []) m) [] caps;
         (accounts, primary, username) =
           foldl (session_account caps acct_caps) ([], [], []) (filter (shown authed) accts);
         base = base_url cfg in
     obj [(''capabilities'', JObj raw_caps), (''accounts'', JObj accounts),
       (''primaryAccounts'', JObj primary), (''username'', JStr username),
       (''apiUrl'', JStr (base @ ''/jmap/api/'')),
       (''downloadUrl'', JStr (base @ ''/jmap/download/{accountId}/{blobId}/{name}?accept={type}'')),
       (''uploadUrl'', JStr (base @ ''/jmap/upload/{accountId}/'')),
       (''eventSourceUrl'', JStr (base @ ''/jmap/eventsource/'')),
       (''state'', JStr ''0'')])"

text \<open>Credentials: an installed function decides; else the global password; else everyone is let in.\<close>

definition server_authenticate ::
  "server_config \<Rightarrow> (string \<Rightarrow> string \<Rightarrow> string option) option \<Rightarrow> string \<Rightarrow> string \<Rightarrow> string option" where
  "server_authenticate cfg auth username password =
    (case auth of
       Some f \<Rightarrow> f username password
     | None \<Rightarrow>
         if global_password cfg \<noteq> [] then
           (if password = global_password cfg then Some username else None)
         else Some username)"

section \<open>The hub\<close>

text \<open>A subscriber: whether its receiver is gone, and whether a wake-up is waiting (a channel of one).\<close>

record subscriber =
  sub_closed :: bool
  sub_pending :: bool

definition hub_notify :: "subscriber list \<Rightarrow> subscriber list" where
  "hub_notify subs = map (\<lambda>b. b\<lparr>sub_pending := True\<rparr>) (filter (\<lambda>b. \<not> sub_closed b) subs)"

definition hub_subscribe :: "subscriber list \<Rightarrow> subscriber list" where
  "hub_subscribe subs = subs @ [\<lparr>sub_closed = False, sub_pending = False\<rparr>]"

end
