(* ===== verification/BatchProps.thy ===== *)
theory BatchProps
  imports Batch EmailProps
begin

text \<open>
  Properties of one JMAP request: what a result reference is replaced by, that every call is
  answered in its place, a query and a fetch in one request, and whose account a session shows.
\<close>

section \<open>References\<close>

text \<open>No name is given both plainly and by reference.\<close>

definition unambiguous :: "jobj \<Rightarrow> bool" where
  "unambiguous o' \<longleftrightarrow> list_all (\<lambda>k. bt_get o' (hash # k) = None) (bt_keys o')"

text \<open>What becomes of the name \<open>k\<close>.\<close>

definition substituted ::
  "ref_text \<Rightarrow> (string, json) btree \<Rightarrow> jobj \<Rightarrow> string \<Rightarrow> json option" where
  "substituted e results o' k =
    (case bt_get o' (hash # k) of
       Some v \<Rightarrow> (case resolve_ref e results (hash # k) v of Inl _ \<Rightarrow> None | Inr r \<Rightarrow> Some r)
     | None \<Rightarrow> if is_prefix [hash] k then None else bt_get o' k)"

lemma strip_hash: "strip_prefix [hash] k = (case k of c # r \<Rightarrow> if c = hash then Some r else None | [] \<Rightarrow> None)"
  by (auto simp: strip_prefix_def is_prefix_def split: list.split)

lemma resolve_fields_error:
  "resolve_fields e results out o' = Inl m \<Longrightarrow>
   \<exists>k v. (hash # k, v) \<in> set o' \<and> resolve_ref e results (hash # k) v = Inl m"
proof (induction e results out o' rule: resolve_fields.induct)
  case (2 e results out k v kvs)
  then show ?case
    by (cases k) (auto simp: strip_hash split: sum.splits if_splits, blast+)
qed simp

text \<open>Each entry writes one name; the names of different entries differ.\<close>

definition target :: "string \<Rightarrow> string" where
  "target k = (case strip_prefix [hash] k of None \<Rightarrow> k | Some n \<Rightarrow> n)"

lemma resolve_fields_get:
  "resolve_fields e results out o' = Inr out' \<Longrightarrow> distinct (map (target \<circ> fst) o') \<Longrightarrow>
   bt_get out' n =
     (case find (\<lambda>p. target (fst p) = n) o' of
        None \<Rightarrow> bt_get out n
      | Some (k, v) \<Rightarrow>
          (case strip_prefix [hash] k of
             None \<Rightarrow> Some v
           | Some _ \<Rightarrow> (case resolve_ref e results k v of Inl _ \<Rightarrow> None | Inr r \<Rightarrow> Some r)))"
proof (induction e results out o' rule: resolve_fields.induct)
  case (2 e results out k v kvs)
  have none: "target k = n \<Longrightarrow> find (\<lambda>p. target (fst p) = n) kvs = None"
    using 2(4) by (force simp: find_None_iff)
  show ?case
  proof (cases "strip_prefix [hash] k")
    case None
    then have "target k = k" by (simp add: target_def)
    then show ?thesis using 2 none None by (auto split: option.split)
  next
    case (Some name)
    then obtain r where "resolve_ref e results k v = Inr r" using 2(3) by (auto split: sum.splits)
    moreover have "target k = name" using Some by (simp add: target_def)
    ultimately show ?thesis using 2 none Some by (auto split: option.split)
  qed
qed simp

lemma find_unique:
  "distinct (map f xs) \<Longrightarrow> x \<in> set xs \<Longrightarrow> find (\<lambda>y. f y = f x) xs = Some x"
  by (induction xs) (auto simp: image_iff)

lemma target_cases: "target k = n \<longleftrightarrow> k = hash # n \<or> k = n \<and> strip_prefix [hash] k = None"
  by (auto simp: target_def strip_hash split: list.splits if_splits)

lemma distinct_targets:
  assumes "bt_ok o'" "unambiguous o'"
  shows "distinct (map (target \<circ> fst) o')"
proof -
  have no: "k \<in> fst ` set o' \<Longrightarrow> hash # k \<notin> fst ` set o'" for k
    using assms(2) bt_get_None [of o' "hash # k"] by (auto simp: unambiguous_def list_all_iff bt_keys_def)
  have "distinct (map fst o')" using assms(1) by (simp add: bt_ok_def strict_sorted_iff)
  moreover have "inj_on target (fst ` set o')"
  proof (rule inj_onI)
    fix x y
    assume x: "x \<in> fst ` set o'" and y: "y \<in> fst ` set o'" and eq: "target x = target y"
    have "x = hash # target y \<or> x = target y" using target_cases [of x "target y"] eq by blast
    moreover have "y = hash # target y \<or> y = target y" using target_cases [of y "target y"] by blast
    ultimately show "x = y" using no [OF x] no [OF y] x y by metis
  qed
  ultimately show ?thesis by (simp add: distinct_map comp_inj_on_iff flip: map_map)
qed

lemma found_is_substituted:
  assumes ok: "bt_ok o'" and un: "unambiguous o'"
  shows "(case find (\<lambda>p. target (fst p) = n) o' of
        None \<Rightarrow> None
      | Some (k, v) \<Rightarrow>
          (case strip_prefix [hash] k of
             None \<Rightarrow> Some v
           | Some _ \<Rightarrow> (case resolve_ref e results k v of Inl _ \<Rightarrow> None | Inr r \<Rightarrow> Some r)))
    = substituted e results o' n"
proof -
  note found = find_unique [OF distinct_targets [OF ok un]]
  consider (ref) v where "bt_get o' (hash # n) = Some v"
    | (plain) v where "bt_get o' (hash # n) = None" "bt_get o' n = Some v" "strip_prefix [hash] n = None"
    | (none) "bt_get o' (hash # n) = None" "bt_get o' n = None \<or> strip_prefix [hash] n \<noteq> None"
    by (cases "bt_get o' (hash # n)"; cases "bt_get o' n") auto
  then show ?thesis
  proof cases
    case ref
    then have "(hash # n, v) \<in> set o'" by (rule bt_get_in_set)
    moreover have "target (hash # n) = n" by (simp add: target_cases)
    ultimately have "find (\<lambda>p. target (fst p) = n) o' = Some (hash # n, v)"
      using found by fastforce
    then show ?thesis using ref by (simp add: substituted_def strip_hash)
  next
    case plain
    then have "(n, v) \<in> set o'" by (simp add: bt_get_in_set)
    moreover have "target n = n" using plain by (simp add: target_def)
    ultimately have "find (\<lambda>p. target (fst p) = n) o' = Some (n, v)"
      using found by fastforce
    then show ?thesis
      using plain by (auto simp: substituted_def strip_prefix_def split: if_splits)
  next
    case none
    have "target k \<noteq> n" if "(k, v) \<in> set o'" for k v
      using none in_set_bt_get [OF ok that] by (auto simp: target_cases)
    then have "find (\<lambda>p. target (fst p) = n) o' = None" by (auto simp: find_None_iff)
    then show ?thesis
      using none by (auto simp: substituted_def strip_prefix_def split: if_splits)
  qed
qed

text \<open>
  References are resolved exactly. When no name is given both ways, either some reference
  of the arguments fails, and the answer is its error, or the result has, for each name, the
  value that its reference leads to, or the plain argument, and nothing else.
\<close>

theorem resolve_exact:
  "bt_ok o' \<Longrightarrow> unambiguous o' \<Longrightarrow>
   (case resolve e (JObj o') results of
      Inl m \<Rightarrow> \<exists>k v. bt_get o' (hash # k) = Some v \<and> resolve_ref e results (hash # k) v = Inl m
    | Inr j \<Rightarrow> \<exists>out. j = JObj out \<and> (\<forall>n. bt_get out n = substituted e results o' n))"
proof (cases "list_ex (is_prefix [hash]) (bt_keys o')")
  case False
  have "substituted e results o' n = bt_get o' n" for n
  proof -
    have "is_prefix [hash] k \<Longrightarrow> bt_get o' k = None" for k
      using False bt_keys_set [of k o'] by (auto simp: list_ex_iff)
    then show ?thesis by (simp add: substituted_def is_prefix_def)
  qed
  then show ?thesis using False by (simp add: resolve_def as_object_def)
next
  case True
  assume ok: "bt_ok o'" and un: "unambiguous o'"
  show ?thesis
  proof (cases "resolve_fields e results [] o'")
    case (Inl m)
    then obtain k v where "(hash # k, v) \<in> set o'" "resolve_ref e results (hash # k) v = Inl m"
      using resolve_fields_error by blast
    then show ?thesis using True Inl in_set_bt_get [OF ok] by (auto simp: resolve_def as_object_def)
  next
    case (Inr out)
    have "bt_get out n = substituted e results o' n" for n
      using resolve_fields_get [OF Inr distinct_targets [OF ok un], of n]
      unfolding bt_get_Nil found_is_substituted [OF ok un] .
    then show ?thesis using True Inr by (simp add: resolve_def as_object_def)
  qed
qed

section \<open>The batch\<close>

definition call_ok :: "json \<Rightarrow> bool" where
  "call_ok c \<longleftrightarrow> (case as_array c of Some (_ # _ # _ # _) \<Rightarrow> True | _ \<Rightarrow> False)"

text \<open>The response \<open>r\<close> bears the name and the id of the call \<open>c\<close>.\<close>

definition answers :: "json \<Rightarrow> json \<Rightarrow> bool" where
  "answers c r \<longleftrightarrow>
    (case (as_array c, r) of
       (Some (c0 # c1 # c2 # _), JArr [JStr n, _, JStr i]) \<Rightarrow> n = str_or_empty c0 \<and> i = str_or_empty c2
     | _ \<Rightarrow> False)"

lemma batch_loop_answers:
  "batch_loop e handle results calls s = (Ret rs, s') \<Longrightarrow> list_all2 answers (filter call_ok calls) rs"
proof (induction calls arbitrary: results s rs)
  case (Cons c calls)
  show ?case
  proof (cases "call_ok c")
    case False
    then have "batch_loop e handle results (c # calls) s = batch_loop e handle results calls s"
      by (auto simp: call_ok_def split: option.splits list.splits)
    then show ?thesis using Cons False by simp
  next
    case True
    then obtain c0 c1 c2 cs where c: "as_array c = Some (c0 # c1 # c2 # cs)"
      by (auto simp: call_ok_def split: option.splits list.splits)
    then show ?thesis
      using Cons.prems True
      by (auto simp: Let_def answers_def error_response_def bind_out_Ret_iff dest!: Cons.IH
          split: sum.splits prod.splits outcome.splits)
  qed
qed simp

text \<open>
  C37. Every call of a request is answered once, in order: unless a handler panics, the
  responses are one for each call that is an array of at least three elements, each with that
  call's method name and call id, whatever failed in between.
\<close>

theorem run_batch_answers:
  "run_batch e handle calls s = (Ret j, s') \<Longrightarrow>
   \<exists>rs. j = obj [(''sessionState'', JStr ''0''), (''methodResponses'', JArr rs)] \<and>
     list_all2 answers (filter call_ok calls) rs"
  by (auto simp: run_batch_def bind_out_Ret_iff split: prod.splits dest: batch_loop_answers)

section \<open>A query and a fetch in one request\<close>

definition query_call :: "int \<Rightarrow> nat \<Rightarrow> json" where
  "query_call p k = JArr [JStr ''Email/query'', page_args p k, JStr ''0'']"

text \<open>\<open>"#ids": {"resultOf": "0", "name": "Email/query", "path": "/ids"}\<close>\<close>

definition fetch_call :: json where
  "fetch_call = JArr [JStr ''Email/get'', obj [(''#ids'', obj [(''resultOf'', JStr ''0''),
     (''name'', JStr ''Email/query''), (''path'', JStr ''/ids'')])], JStr ''1'']"

definition fetched :: "string \<Rightarrow> email list \<Rightarrow> mail_store \<Rightarrow> json" where
  "fetched acct ms s = obj [(''accountId'', JStr acct), (''state'', JStr (store_state s)),
     (''list'', JArr (map enc_email ms)), (''notFound'', JArr [])]"

lemma resolve_page_args: "resolve e (page_args p k) results = Inr (page_args p k)"
  by (simp add: resolve_def page_args_def hash_def eval)

lemma resolve_fetch:
  assumes "bt_get results ''0'' = Some (obj [(''accountId'', a), (''queryState'', b),
    (''canCalculateChanges'', c), (''position'', d), (''total'', t), (''ids'', ids)])"
  shows "resolve e (obj [(''#ids'', obj [(''resultOf'', JStr ''0''), (''name'', JStr ''Email/query''),
      (''path'', JStr ''/ids'')])]) results = Inr (obj [(''ids'', ids)])"
  using assms
  by (simp add: resolve_def hash_def resolve_ref_def dec_reference_def req_def json_path_def
      path_step_def eval)

lemma email_get_found:
  assumes "msgs_ok s" "set ms \<subseteq> set (all_emails ts s)"
  shows "email_get acct (obj [(''ids'', str_arr (map m_id ms))]) s = fetched acct ms s"
proof -
  have ids: "one_field ''ids'' (dec_vec dec_str) [] (obj [(''ids'', str_arr (map m_id ms))]) = map m_id ms"
    using dec_enc_vec [of "map m_id ms" dec_str JStr]
    by (simp add: one_field_def obj_def struct_ok_def fld_def field_def bt_of_def bt_get_def
        or_default_def str_arr_def enc_vec_def)
  have get: "get_email (m_id m) s = Some m" if "m \<in> set ms" for m
    using all_emails_get [OF assms(1)] assms(2) that by (auto simp: get_email_def)
  have "List.map_filter (\<lambda>i. map_option enc_email (get_email i s)) (map m_id ms) = map enc_email ms"
    using get by (induction ms) (simp_all add: map_filter_simps)
  moreover have "filter (\<lambda>i. get_email i s = None) (map m_id ms) = []"
    using get by (auto simp: filter_empty_conv)
  ultimately show ?thesis
    unfolding email_get_def Let_def ids fetched_def by (simp only: str_arr_def list.map)
qed

text \<open>
  C13. One request reads a page of mail: \<open>Email/query\<close> and an \<open>Email/get\<close> whose ids are a
  reference to its result answer with the messages of the page, whole, in the order of the query,
  none missing; the store is unchanged.
\<close>

theorem query_then_get:
  assumes "msgs_ok s" "p < 2 ^ 63" "0 < k" "k < 2 ^ 63"
  shows "\<exists>q ms. run_batch e (dispatch v h now acct) [query_call (int p) k, fetch_call] s =
      (Ret (obj [(''sessionState'', JStr ''0''), (''methodResponses'', JArr
         [JArr [JStr ''Email/query'', q, JStr ''0''],
          JArr [JStr ''Email/get'', fetched acct (take k (drop p ms)) s, JStr ''1'']])]), s) \<and>
    mset ms = mset (bt_vals (msgs s)) \<and> sorted_wrt (before (j_ts v) s) (map m_id ms)"
proof -
  let ?ms = "all_emails (j_ts v) s"
  define ids where "ids = str_arr (take k (drop p (map m_id ?ms)))"
  define q where "q = obj [(''accountId'', JStr acct), (''queryState'', JStr (store_state s)),
         (''canCalculateChanges'', JBool True), (''position'', JNum (int p)),
         (''total'', JNum (int (length (msgs s)))), (''ids'', ids)]"
  have one: "dispatch v h now acct ''Email/query'' (page_args (int p) k) s = (Ret (Inr q), s)"
    using query_window [OF assms(2,3,4), of v acct s] by (simp add: dispatch_def q_def ids_def)
  have "set (take k (drop p ?ms)) \<subseteq> set ?ms" by (meson order_trans set_drop_subset set_take_subset)
  then have "email_get acct (obj [(''ids'', ids)]) s = fetched acct (take k (drop p ?ms)) s"
    using email_get_found [OF assms(1)] by (simp add: ids_def take_map drop_map)
  then have two: "dispatch v h now acct ''Email/get'' (obj [(''ids'', ids)]) s
      = (Ret (Inr (fetched acct (take k (drop p ?ms)) s)), s)"
    by (simp add: dispatch_def reads_def)
  have ref: "resolve e (obj [(''#ids'', obj [(''resultOf'', JStr ''0''), (''name'', JStr ''Email/query''),
      (''path'', JStr ''/ids'')])]) [(''0'', q)] = Inr (obj [(''ids'', ids)])"
    by (rule resolve_fetch) (simp add: q_def bt_get_def)
  have "run_batch e (dispatch v h now acct) [query_call (int p) k, fetch_call] s =
      (Ret (obj [(''sessionState'', JStr ''0''), (''methodResponses'', JArr
         [JArr [JStr ''Email/query'', q, JStr ''0''],
          JArr [JStr ''Email/get'', fetched acct (take k (drop p ?ms)) s, JStr ''1'']])]), s)"
    by (simp add: run_batch_def query_call_def fetch_call_def as_array_def str_or_empty_def
        or_default_def as_str_def resolve_page_args one two ref)
  moreover have "mset ?ms = mset (bt_vals (msgs s))" by (simp add: all_emails_def)
  ultimately show ?thesis using all_ids(2) [OF assms(1)] by blast
qed

section \<open>Sessions\<close>

lemma session_accounts_keys:
  "fst ` set (fst (foldl (session_account caps ac) (a, p, u) l)) = fst ` set a \<union> ac_id ` set l"
proof (induction l arbitrary: a p u)
  case (Cons x l)
  obtain a' p' u' where x: "session_account caps ac (a, p, u) x = (a', p', u')" by (metis prod_cases3)
  then have "\<exists>c. a' = bt_ins (ac_id x) c a"
    by (auto simp: session_account_def Let_def split: if_splits)
  then have "fst ` set a' = insert (ac_id x) (fst ` set a)" using fst_set_bt_ins by metis
  then show ?case using Cons [of a' p' u'] by (simp add: x)
qed simp

text \<open>
  An authenticated session shows its own account and no other: the accounts of the
  session object are the authenticated id alone, if the server has that account, else none.
\<close>

theorem session_is_private:
  "authed \<noteq> [] \<Longrightarrow>
   \<exists>accounts. field (jmap_session cfg caps accts (Some authed)) 0 ''accounts'' = Some (JObj accounts) \<and>
     set (bt_keys accounts) = {authed} \<inter> ac_id ` set accts"
proof -
  assume a: "authed \<noteq> []"
  obtain m p u where f: "foldl (session_account caps (foldl (\<lambda>m u. bt_ins u (JObj []) m) [] caps)) ([], [], [])
      (filter (shown (Some authed)) accts) = (m, p, u)" by (metis prod_cases3)
  have "field (jmap_session cfg caps accts (Some authed)) 0 ''accounts'' = Some (JObj m)"
    by (simp add: jmap_session_def Let_def f field_def obj_def bt_get_of)
  moreover have "fst ` set m = ac_id ` set (filter (shown (Some authed)) accts)"
    using arg_cong [OF f, of "\<lambda>t. fst ` set (fst t)"]
    by (simp only: session_accounts_keys fst_conv list.set image_empty sup_bot_left)
  then have "set (bt_keys m) = {authed} \<inter> ac_id ` set accts"
    using a by (auto simp: bt_keys_def shown_def)
  ultimately show ?thesis by blast
qed

section \<open>The hypotheses hold\<close>

definition demo_text :: ref_text where
  "demo_text = \<lparr>re_dbg = (\<lambda>x. x), re_err = (\<lambda>_. ''bad'')\<rparr>"

definition demo_args :: jobj where
  "demo_args = [(''#ids'', obj [(''resultOf'', JStr ''0''), (''path'', JStr ''/ids'')]), (''limit'', JNum 3)]"

theorem resolve_exact_witness:
  "\<exists>out. resolve demo_text (JObj demo_args) [(''0'', obj [(''ids'', JArr [])])] = Inr (JObj out) \<and>
     (\<forall>n. bt_get out n = substituted demo_text [(''0'', obj [(''ids'', JArr [])])] demo_args n)"
proof -
  have "bt_ok demo_args" "unambiguous demo_args"
    by (simp_all add: demo_args_def bt_ok_def unambiguous_def hash_def eval)
  note r = resolve_exact [OF this, of demo_text "[(''0'', obj [(''ids'', JArr [])])]"]
  have "resolve demo_text (JObj demo_args) [(''0'', obj [(''ids'', JArr [])])]
      = Inr (JObj [(''ids'', JArr []), (''limit'', JNum 3)])"
    by (simp add: demo_args_def resolve_def hash_def resolve_ref_def dec_reference_def req_def
        json_path_def path_step_def eval)
  with r show ?thesis by simp
qed

theorem run_batch_answers_witness:
  "\<exists>rs. fst (run_batch demo_text (dispatch demo_env no_hooks ''now'' ''alice'')
       [JNull, JArr [JStr ''Nope/get'', JObj [], JStr ''a'']] demo_two)
     = Ret (obj [(''sessionState'', JStr ''0''), (''methodResponses'', JArr rs)]) \<and> length rs = 1"
proof -
  obtain j t where j: "run_batch demo_text (dispatch demo_env no_hooks ''now'' ''alice'')
       [JNull, JArr [JStr ''Nope/get'', JObj [], JStr ''a'']] demo_two = (Ret j, t)"
    by (simp add: run_batch_def resolve_def dispatch_def tries_def eval str_or_empty_def or_default_def)
  from run_batch_answers [OF this] obtain rs where
    "j = obj [(''sessionState'', JStr ''0''), (''methodResponses'', JArr rs)]"
    "list_all2 answers (filter call_ok [JNull, JArr [JStr ''Nope/get'', JObj [], JStr ''a'']]) rs"
    by blast
  then show ?thesis
    using j list_all2_lengthD by (intro exI [of _ rs]) (fastforce simp: call_ok_def as_array_def)
qed

theorem query_then_get_witness:
  "\<exists>q ms. run_batch demo_text (dispatch demo_env no_hooks ''now'' ''alice'') [query_call (int 0) 1, fetch_call] demo_two =
      (Ret (obj [(''sessionState'', JStr ''0''), (''methodResponses'', JArr
         [JArr [JStr ''Email/query'', q, JStr ''0''],
          JArr [JStr ''Email/get'', fetched ''alice'' (take 1 (drop 0 ms)) demo_two, JStr ''1'']])]), demo_two) \<and>
    mset ms = mset (bt_vals (msgs demo_two)) \<and> sorted_wrt (before (j_ts demo_env) demo_two) (map m_id ms)"
  by (rule query_then_get)
     (simp_all add: msgs_ok_def demo_two_def bt_ok_def demo_msg_def email_default_def eval)

theorem session_is_private_witness:
  "\<exists>accounts. field (jmap_session \<lparr>listen_addr = [], base_url_setting = [], global_password = []\<rparr>
       [''urn:ietf:params:jmap:mail''] [\<lparr>ac_id = ''a@x'', ac_name = ''a@x''\<rparr>, \<lparr>ac_id = ''b@x'', ac_name = ''b@x''\<rparr>]
       (Some ''a@x'')) 0 ''accounts'' = Some (JObj accounts) \<and> set (bt_keys accounts) = {''a@x''}"
  using session_is_private [of "''a@x''" "\<lparr>listen_addr = [], base_url_setting = [], global_password = []\<rparr>"
      "[''urn:ietf:params:jmap:mail'']"
      "[\<lparr>ac_id = ''a@x'', ac_name = ''a@x''\<rparr>, \<lparr>ac_id = ''b@x'', ac_name = ''b@x''\<rparr>]"] by simp

end
