(* ===== verification/Accounts.thy ===== *)
theory Accounts
  imports Batch
begin

text \<open>
  The accounts the relay serves, \<open>crates/jmapsmtp/src/handler.rs\<close>: the table of primaries and
  aliases, ids, the inbox, custom headers, the reply-only set, and the JMAP handler over the
  table. An account's store is part of its entry: the code shares it by reference, and the table
  is the only place it is reached from. Unicode lower-casing \<open>lc\<close>, the clock, and the random
  source are arguments.
\<close>

section \<open>Ids and the inbox\<close>

definition replace_char :: "char \<Rightarrow> char \<Rightarrow> string \<Rightarrow> string" where
  "replace_char a b s = map (\<lambda>c. if c = a then b else c) s"

definition make_mailbox_id :: "string \<Rightarrow> string" where
  "make_mailbox_id addr = ''mbx-'' @ replace_char (CHR ''/'') (CHR ''~'') addr"

definition make_message_id :: "string \<Rightarrow> string \<Rightarrow> int \<Rightarrow> string" where
  "make_message_id mid addr ts_millis =
    (if mid \<noteq> [] then ''msg-'' @ replace_char (CHR ''/'') (CHR ''_'') mid
     else ''msg-'' @ replace_char (CHR ''/'') (CHR ''-'') addr @ ''-'' @ show_int ts_millis)"

definition default_inbox :: "string \<Rightarrow> mailbox" where
  "default_inbox addr =
    \<lparr>b_id = make_mailbox_id addr, b_name = addr, parent_id = [], role = ''inbox'', sort_order = 0,
     total_emails = 0, unread_emails = 0, total_threads = 0, unread_threads = 0,
     rights = Some \<lparr>may_read_items = True, may_add_items = True, may_remove_items = True,
       may_set_seen = True, may_set_keywords = True, may_create_child = False, may_rename = False,
       may_delete = False, may_submit = True\<rparr>,
     is_subscribed = True\<rparr>"

text \<open>
  A directory as \<open>dir_size_mb\<close> walks it: files whose size may be unreadable, directories that
  may be unreadable, and the rest.
\<close>

datatype dir_entry = DFile "nat option" | DDir "dir_entry list option" | DOther

fun tree_size :: "dir_entry \<Rightarrow> nat" where
  "tree_size (DFile n) = or_default 0 n"
| "tree_size (DDir None) = 0"
| "tree_size (DDir (Some es)) = sum_list (map tree_size es)"
| "tree_size DOther = 0"

definition dir_size_mb :: "dir_entry list option \<Rightarrow> nat" where
  "dir_size_mb d = tree_size (DDir d) div (1024 * 1024)"

definition new_rfc_message_id :: "int \<Rightarrow> string \<Rightarrow> string \<Rightarrow> string" where
  "new_rfc_message_id nanos hex6 domain = show_int nanos @ ''.'' @ hex6 @ ''@'' @ domain"

definition new_id :: "int \<Rightarrow> string \<Rightarrow> string" where
  "new_id millis hex8 = ''srv-'' @ show_int millis @ ''-'' @ hex8"

section \<open>Custom headers and correspondents\<close>

definition text_header :: "string \<times> json \<Rightarrow> (string \<times> string) option" where
  "text_header kv =
    (case kv of (key, val) \<Rightarrow> do {
       k \<leftarrow> strip_prefix ''header:'' key;
       name \<leftarrow> strip_suffix '':asText'' k;
       v \<leftarrow> map_option trim (as_str val);
       if v = [] \<or> name = [] then None else Some (name, v)
     })"

text \<open>\<open>out.sort()\<close>: by name, then by value.\<close>

definition extract_text_headers :: "json \<Rightarrow> (string \<times> string) list" where
  "extract_text_headers j =
    (case as_object j of
       None \<Rightarrow> []
     | Some o' \<Rightarrow> sort_key fst (sort_key snd (List.map_filter text_header o')))"

definition activity_word :: "bool \<Rightarrow> string" where
  "activity_word ok = (if ok then ''ok'' else ''failed'')"

definition known_correspondents :: "(string \<Rightarrow> string) \<Rightarrow> email list \<Rightarrow> string bset" where
  "known_correspondents lc ms =
    bs_of (map (\<lambda>a. lc (a_email a)) (filter (\<lambda>a. a_email a \<noteq> []) (concat (map m_from ms))))"

section \<open>The table\<close>

record account =
  acc_email :: string
  acc_domain :: string
  acc_localpart :: string
  acc_dir :: string
  acc_store :: mail_store

record accounts =
  a_stores :: "(string, account) btree"
  a_aliases :: "(string, string) btree"

definition accounts_new :: accounts where
  "accounts_new = \<lparr>a_stores = [], a_aliases = []\<rparr>"

definition acc_insert :: "(string \<Rightarrow> string) \<Rightarrow> account \<Rightarrow> string list \<Rightarrow> accounts \<Rightarrow> accounts" where
  "acc_insert lc ac als a =
    a\<lparr>a_aliases := foldl (\<lambda>m al. bt_ins (lc al) (acc_email ac) m)
                     (bt_ins (acc_email ac) (acc_email ac) (a_aliases a)) als,
      a_stores := bt_ins (acc_email ac) ac (a_stores a)\<rparr>"

definition acc_resolve :: "(string \<Rightarrow> string) \<Rightarrow> accounts \<Rightarrow> string \<Rightarrow> account option" where
  "acc_resolve lc a addr =
    (case bt_get (a_aliases a) (lc addr) of None \<Rightarrow> None | Some p \<Rightarrow> bt_get (a_stores a) p)"

definition add_alias ::
  "(string \<Rightarrow> string) \<Rightarrow> string \<Rightarrow> string \<Rightarrow> accounts \<Rightarrow> bool \<times> accounts" where
  "add_alias lc al primary a =
    (if bt_get (a_stores a) primary = None then (False, a)
     else (True, a\<lparr>a_aliases := bt_ins (lc al) primary (a_aliases a)\<rparr>))"

definition remove_alias :: "string \<Rightarrow> string \<Rightarrow> accounts \<Rightarrow> bool \<times> accounts" where
  "remove_alias al primary a =
    (if eq_ignore_ascii_case al primary then (False, a)
     else if bt_get (a_aliases a) al = Some primary then
       (True, a\<lparr>a_aliases := bt_del al (a_aliases a)\<rparr>)
     else (False, a))"

definition aliases_for :: "string \<Rightarrow> accounts \<Rightarrow> string list" where
  "aliases_for primary a = map fst (filter (\<lambda>(al, p). p = primary \<and> al \<noteq> primary) (a_aliases a))"

definition migrate_primary :: "string \<Rightarrow> account \<Rightarrow> accounts \<Rightarrow> bool \<times> accounts" where
  "migrate_primary old ac a =
    (if bt_get (a_stores a) old = None then (False, a)
     else if bt_get (a_stores a) (acc_email ac) \<noteq> None then (False, a)
     else
       (let new = acc_email ac;
            repointed = map (\<lambda>(al, p). (al, if p = old then new else p)) (a_aliases a) in
        (True, a\<lparr>a_stores := bt_ins new ac (bt_del old (a_stores a)),
                 a_aliases := bt_ins new new (bt_ins old new repointed)\<rparr>)))"

definition acc_get :: "(string \<Rightarrow> string) \<Rightarrow> accounts \<Rightarrow> string \<Rightarrow> account option" where
  "acc_get lc a primary = bt_get (a_stores a) (lc primary)"

definition acc_remove :: "string \<Rightarrow> accounts \<Rightarrow> account option \<times> accounts" where
  "acc_remove primary a =
    (bt_get (a_stores a) primary,
     a\<lparr>a_stores := bt_del primary (a_stores a),
       a_aliases := filter (\<lambda>(al, p). p \<noteq> primary) (a_aliases a)\<rparr>)"

definition primaries :: "accounts \<Rightarrow> string list" where
  "primaries a = bt_keys (a_stores a)"

section \<open>The handler\<close>

definition relay_capabilities :: "string list" where
  "relay_capabilities = [''urn:ietf:params:jmap:mail'', ''urn:ietf:params:jmap:submission'']"

definition relay_accounts :: "accounts \<Rightarrow> jmap_account list" where
  "relay_accounts a = map (\<lambda>p. \<lparr>ac_id = p, ac_name = p\<rparr>) (primaries a)"

definition set_store :: "string \<Rightarrow> mail_store \<Rightarrow> accounts \<Rightarrow> accounts" where
  "set_store primary s a =
    (case bt_get (a_stores a) primary of
       None \<Rightarrow> a
     | Some ac \<Rightarrow> a\<lparr>a_stores := bt_ins primary (ac\<lparr>acc_store := s\<rparr>) (a_stores a)\<rparr>)"

text \<open>\<open>args.get("accountId")\<close>: of an object; anything else has no such member.\<close>

definition account_id_of :: "json \<Rightarrow> string" where
  "account_id_of args =
    or_default [] (Option.bind (Option.bind (as_object args) (\<lambda>o'. bt_get o' ''accountId'')) as_str)"

definition relay_handle ::
  "jenv \<Rightarrow> (account \<Rightarrow> hooks) \<Rightarrow> string \<Rightarrow> accounts handler" where
  "relay_handle v hk now method args a =
    (let i = account_id_of args in
     case acc_get (j_lc v) a i of
       None \<Rightarrow> (Ret (Inl (ServerFail (''accountNotFound: '' @ i))), a)
     | Some ac \<Rightarrow>
         (case dispatch v (hk ac) now i method args (acc_store ac) of
            (r, s') \<Rightarrow> (r, set_store (j_lc v i) s' a)))"

section \<open>No dangling alias\<close>

text \<open>The table's invariant: every alias leads to an account, kept under its own address.\<close>

definition accounts_ok :: "accounts \<Rightarrow> bool" where
  "accounts_ok a \<longleftrightarrow> bt_ok (a_stores a) \<and> bt_ok (a_aliases a) \<and>
    (\<forall>p ac. bt_get (a_stores a) p = Some ac \<longrightarrow> acc_email ac = p) \<and>
    (\<forall>al p. bt_get (a_aliases a) al = Some p \<longrightarrow> bt_get (a_stores a) p \<noteq> None)"

datatype accounts_op =
    Insert account "string list"
  | AddAlias string string
  | RemoveAlias string string
  | Migrate string account
  | Remove string
  | Handle string json

fun run_accounts ::
  "jenv \<Rightarrow> (account \<Rightarrow> hooks) \<Rightarrow> string \<Rightarrow> accounts_op \<Rightarrow> accounts \<Rightarrow> accounts" where
  "run_accounts v hk now (Insert ac als) a = acc_insert (j_lc v) ac als a"
| "run_accounts v hk now (AddAlias al p) a = snd (add_alias (j_lc v) al p a)"
| "run_accounts v hk now (RemoveAlias al p) a = snd (remove_alias al p a)"
| "run_accounts v hk now (Migrate old ac) a = snd (migrate_primary old ac a)"
| "run_accounts v hk now (Remove p) a = snd (acc_remove p a)"
| "run_accounts v hk now (Handle m args) a = snd (relay_handle v hk now m args a)"

text \<open>The tables a running relay can reach.\<close>

inductive reachable :: "jenv \<Rightarrow> (account \<Rightarrow> hooks) \<Rightarrow> accounts \<Rightarrow> bool" for v hk where
  start: "reachable v hk accounts_new"
| step: "reachable v hk a \<Longrightarrow> reachable v hk (run_accounts v hk now op a)"

inductive_cases reachable_cases: "reachable v hk a"

end
