(* ===== verification/AccountsProps.thy ===== *)
theory AccountsProps
  imports Accounts EmailProps
begin

text \<open>
  Properties of the table of accounts: no alias ever dangles, and a migration to a new primary
  keeps every address delivering.
\<close>

section \<open>The invariant\<close>

lemma accounts_okI:
  assumes "bt_ok (a_stores a)" "bt_ok (a_aliases a)"
    "\<And>p ac. bt_get (a_stores a) p = Some ac \<Longrightarrow> acc_email ac = p"
    "\<And>al p. bt_get (a_aliases a) al = Some p \<Longrightarrow> bt_get (a_stores a) p \<noteq> None"
  shows "accounts_ok a"
  using assms unfolding accounts_ok_def by blast

lemma accounts_okD:
  assumes "accounts_ok a"
  shows "bt_ok (a_stores a)" "bt_ok (a_aliases a)"
    "bt_get (a_stores a) p = Some ac \<Longrightarrow> acc_email ac = p"
    "bt_get (a_aliases a) al = Some p \<Longrightarrow> bt_get (a_stores a) p \<noteq> None"
  using assms unfolding accounts_ok_def by blast+

lemma insert_ok:
  assumes a: "accounts_ok a"
  shows "accounts_ok (acc_insert lc ac als a)"
proof -
  let ?m = "foldl (\<lambda>m al. bt_ins (lc al) (acc_email ac) m)"
  have ok: "bt_ok m \<Longrightarrow> bt_ok (?m m als)" for m by (induction als arbitrary: m) simp_all
  have get: "bt_get (?m m als) x = Some p \<Longrightarrow> p = acc_email ac \<or> bt_get m x = Some p" for m x p
  proof (induction als arbitrary: m)
    case (Cons y ys)
    have "bt_get (?m (bt_ins (lc y) (acc_email ac) m) ys) x = Some p" using Cons.prems by simp
    from Cons.IH [OF this] show ?case by (cases "x = lc y") auto
  qed simp
  note d = accounts_okD [OF a]
  show ?thesis
  proof (rule accounts_okI)
    fix al p assume "bt_get (a_aliases (acc_insert lc ac als a)) al = Some p"
    from get [OF this [unfolded acc_insert_def, simplified]]
    show "bt_get (a_stores (acc_insert lc ac als a)) p \<noteq> None"
      using d(4) [of al p] by (auto simp: acc_insert_def split: if_splits)
  qed (use d(1-3) ok in \<open>auto simp: acc_insert_def split: if_splits\<close>)
qed

lemma add_alias_ok: "accounts_ok a \<Longrightarrow> accounts_ok (snd (add_alias lc al p a))"
  by (rule accounts_okI) (auto simp: add_alias_def dest: accounts_okD split: if_splits)

lemma remove_alias_ok: "accounts_ok a \<Longrightarrow> accounts_ok (snd (remove_alias al p a))"
  by (rule accounts_okI) (auto simp: remove_alias_def dest: accounts_okD split: if_splits)

lemma bt_get_map_snd: "bt_get (map (\<lambda>(k, v). (k, f v)) m) k = map_option f (bt_get m k)"
  by (induction m) (auto simp: bt_get_def)

lemma bt_ok_map_snd: "bt_ok (map (\<lambda>(k, v). (k, f v)) m) = bt_ok m"
  by (simp add: bt_ok_def comp_def case_prod_beta)

lemma migrate_ok:
  assumes a: "accounts_ok a"
  shows "accounts_ok (snd (migrate_primary old ac a))"
  using accounts_okD [OF a] a
  by (auto simp: migrate_primary_def Let_def bt_get_map_snd bt_ok_map_snd intro!: accounts_okI split: if_splits)

lemma bt_get_filter_vals:
  "bt_ok m \<Longrightarrow> bt_get (filter (\<lambda>(k, v). P v) m) k
    = (case bt_get m k of Some v \<Rightarrow> if P v then Some v else None | None \<Rightarrow> None)"
  by (induction m) (auto simp: bt_get_def bt_ok_Cons map_of_eq_None_iff split: option.splits)

lemma remove_ok:
  assumes "accounts_ok a"
  shows "accounts_ok (snd (acc_remove p a))"
proof -
  note d = accounts_okD [OF assms]
  show ?thesis
  proof (rule accounts_okI)
    fix al q assume "bt_get (a_aliases (snd (acc_remove p a))) al = Some q"
    then have "bt_get (a_aliases a) al = Some q" "q \<noteq> p"
      by (auto simp: acc_remove_def bt_get_filter_vals [OF d(2), where P = "\<lambda>q. q \<noteq> p"] split: option.splits if_splits)
    with d(4) show "bt_get (a_stores (snd (acc_remove p a))) q \<noteq> None"
      by (simp add: acc_remove_def)
  qed (use d(1-3) in \<open>auto simp: acc_remove_def bt_ok_filter split: if_splits\<close>)
qed

lemma set_store_ok:
  assumes "accounts_ok a"
  shows "accounts_ok (set_store p s a)"
  using accounts_okD [OF assms] assms
  by (auto simp: set_store_def intro!: accounts_okI split: option.splits if_splits)

lemma handle_ok: "accounts_ok a \<Longrightarrow> accounts_ok (snd (relay_handle v hk now m args a))"
  by (auto simp: relay_handle_def Let_def set_store_ok split: option.splits prod.splits)

lemma run_accounts_ok: "accounts_ok a \<Longrightarrow> accounts_ok (run_accounts v hk now op a)"
  by (cases op) (simp_all add: insert_ok add_alias_ok remove_alias_ok migrate_ok remove_ok handle_ok)

lemma reachable_ok: "reachable v hk a \<Longrightarrow> accounts_ok a"
  by (induction rule: reachable.induct)
     (simp_all add: run_accounts_ok, simp add: accounts_new_def accounts_ok_def)

text \<open>
  No alias dangles: in every table a relay can reach, by any sequence of provisioning,
  alias changes, migrations, deletions and requests, each deliverable address leads to an
  account that exists and that is kept under its own address.
\<close>

theorem no_dangling_alias:
  assumes "reachable v hk a" "bt_get (a_aliases a) al = Some p"
  shows "\<exists>ac. bt_get (a_stores a) p = Some ac \<and> acc_email ac = p"
proof -
  note ok = accounts_okD [OF reachable_ok [OF assms(1)]]
  obtain ac where "bt_get (a_stores a) p = Some ac" using ok(4) [OF assms(2)] by auto
  with ok(3) show ?thesis by blast
qed

text \<open>
  A migration moves the mail: afterwards the old primary, the new one, and every address
  that led to the old account lead to the new one, and every other address to where it led.
\<close>

theorem migrate_moves_mail:
  assumes "reachable v hk a" "migrate_primary old ac a = (True, a')"
  shows "acc_resolve lc a' x =
    (if lc x = old \<or> lc x = acc_email ac \<or> bt_get (a_aliases a) (lc x) = Some old
     then Some ac else acc_resolve lc a x)"
proof -
  note ok = accounts_okD [OF reachable_ok [OF assms(1)]]
  have new: "bt_get (a_stores a) (acc_email ac) = None"
    and a': "a' = a\<lparr>a_stores := bt_ins (acc_email ac) ac (bt_del old (a_stores a)),
      a_aliases := bt_ins (acc_email ac) (acc_email ac) (bt_ins old (acc_email ac)
        (map (\<lambda>(al, p). (al, if p = old then acc_email ac else p)) (a_aliases a)))\<rparr>"
    using assms(2) by (auto simp: migrate_primary_def Let_def split: if_splits)
  have "p \<noteq> acc_email ac" if "bt_get (a_aliases a) (lc x) = Some p" for p
    using ok(4) [OF that] new by auto
  then show ?thesis
    by (cases "bt_get (a_aliases a) (lc x)") (auto simp: acc_resolve_def a' bt_get_map_snd)
qed

section \<open>The hypotheses hold\<close>

definition demo_account :: "string \<Rightarrow> account" where
  "demo_account p = \<lparr>acc_email = p, acc_domain = ''x'', acc_localpart = takeWhile (\<lambda>c. c \<noteq> CHR ''@'') p,
     acc_dir = ''/data/'' @ p, acc_store = store_new []\<rparr>"

definition demo_table :: accounts where
  "demo_table = run_accounts demo_env (\<lambda>_. no_hooks) ''now'' (AddAlias ''info@x'' ''ana@x'')
     (run_accounts demo_env (\<lambda>_. no_hooks) ''now'' (Insert (demo_account ''ana@x'') [''Ana@y'']) accounts_new)"

lemma demo_reachable: "reachable demo_env (\<lambda>_. no_hooks) demo_table"
  unfolding demo_table_def by (intro reachable.intros)

lemma demo_aliases:
  "a_aliases demo_table = [(''ana@x'', ''ana@x''), (''ana@y'', ''ana@x''), (''info@x'', ''ana@x'')]"
  by (simp add: demo_table_def acc_insert_def add_alias_def accounts_new_def demo_account_def demo_env_def
      less_char_def byte_def eval)

theorem no_dangling_alias_witness:
  "\<exists>ac. bt_get (a_stores demo_table) ''ana@x'' = Some ac \<and> acc_email ac = ''ana@x''"
  by (rule no_dangling_alias [OF demo_reachable, of "''info@x''"]) (simp add: demo_aliases bt_get_def)

theorem migrate_moves_mail_witness:
  "acc_resolve ascii_lower (snd (migrate_primary ''ana@x'' (demo_account ''z6mk@x'') demo_table)) ''INFO@x''
     = Some (demo_account ''z6mk@x'')"
proof -
  have "migrate_primary ''ana@x'' (demo_account ''z6mk@x'') demo_table
    = (True, snd (migrate_primary ''ana@x'' (demo_account ''z6mk@x'') demo_table))"
    by (simp add: migrate_primary_def Let_def demo_table_def acc_insert_def add_alias_def accounts_new_def demo_account_def bt_get_def)
  from migrate_moves_mail [OF demo_reachable this, of ascii_lower "''INFO@x''"]
  show ?thesis by (simp add: demo_aliases demo_account_def bt_get_def less_char_def byte_def eval)
qed

end
