(* ===== verification/Files.thy ===== *)
theory Files
  imports Json
begin

text \<open>
  The file system calls the relay makes on its data directory (\<open>std::fs\<close>, \<open>std::path\<close>):
  a tree of directories and files, paths that the operating system resolves component by
  component, and writes that may fail. There are no symbolic links. A file is the JSON value it
  was written from, or plain text; \<open>f_parse\<close> and \<open>f_print\<close> say how the one reads as the other.
\<close>

section \<open>State\<close>

datatype content = Json json | Text string

type_synonym node_path = "string list"

record fs =
  fs_files :: "(node_path, content) btree"
  fs_dirs :: "node_path bset"

text \<open>
  \<open>f_io k\<close>: a write to the file \<open>k\<close> works (\<open>None\<close>), or fails and leaves the given file there, if
  any. \<open>f_kept k\<close>: the system refuses to remove the file \<open>k\<close>.
\<close>

record fenv =
  f_parse :: "string \<Rightarrow> json option"
  f_print :: "json \<Rightarrow> string"
  f_io :: "node_path \<Rightarrow> content option option"
  f_kept :: "node_path \<Rightarrow> bool"

definition is_dir :: "fs \<Rightarrow> node_path \<Rightarrow> bool" where
  "is_dir f k \<longleftrightarrow> k = [] \<or> bs_mem k (fs_dirs f)"

section \<open>Paths\<close>

text \<open>\<open>Path::join\<close>: an absolute second path replaces the first.\<close>

definition pjoin :: "string \<Rightarrow> string \<Rightarrow> string" where
  "pjoin p q =
    (if is_prefix ''/'' q then q
     else if p = [] \<or> is_suffix ''/'' p then p @ q
     else p @ ''/'' @ q)"

text \<open>Resolving a path: every component but the last has to be a directory.\<close>

fun walk :: "(node_path \<Rightarrow> bool) \<Rightarrow> node_path \<Rightarrow> string list \<Rightarrow> node_path option" where
  "walk d cur [] = Some cur"
| "walk d cur (c # cs) =
    (if c = [] \<or> c = ''.'' then walk d cur cs
     else if c = ''..'' then walk d (butlast cur) cs
     else if cs = [] \<or> d (cur @ [c]) then walk d (cur @ [c]) cs
     else None)"

definition locate :: "fs \<Rightarrow> string \<Rightarrow> node_path option" where
  "locate f p = walk (is_dir f) [] (split_on (CHR ''/'') p)"

text \<open>A name that stands for itself: not empty, not a dot entry, without a slash.\<close>

definition plain :: "string \<Rightarrow> bool" where
  "plain c \<longleftrightarrow> c \<noteq> [] \<and> c \<noteq> ''.'' \<and> c \<noteq> ''..'' \<and> CHR ''/'' \<notin> set c"

section \<open>Calls\<close>

definition fs_read :: "fs \<Rightarrow> string \<Rightarrow> content option" where
  "fs_read f p = Option.bind (locate f p) (bt_get (fs_files f))"

definition read_text :: "fenv \<Rightarrow> fs \<Rightarrow> string \<Rightarrow> string option" where
  "read_text v f p = map_option (case_content (f_print v) (\<lambda>s. s)) (fs_read f p)"

definition as_json :: "fenv \<Rightarrow> content \<Rightarrow> json option" where
  "as_json v c = (case c of Json j \<Rightarrow> Some j | Text s \<Rightarrow> f_parse v s)"

definition read_json :: "fenv \<Rightarrow> fs \<Rightarrow> string \<Rightarrow> json option" where
  "read_json v f p = Option.bind (fs_read f p) (as_json v)"

definition path_exists :: "fs \<Rightarrow> string \<Rightarrow> bool" where
  "path_exists f p =
    (case locate f p of None \<Rightarrow> False | Some k \<Rightarrow> is_dir f k \<or> bt_get (fs_files f) k \<noteq> None)"

definition put_file :: "node_path \<Rightarrow> content option \<Rightarrow> fs \<Rightarrow> fs" where
  "put_file k c f =
    f\<lparr>fs_files := (case c of None \<Rightarrow> bt_del k (fs_files f) | Some c' \<Rightarrow> bt_ins k c' (fs_files f))\<rparr>"

text \<open>\<open>fs::write\<close>: the directory must exist, and the path must not be one.\<close>

definition fs_write :: "fenv \<Rightarrow> string \<Rightarrow> content \<Rightarrow> fs \<Rightarrow> bool \<times> fs" where
  "fs_write v p c f =
    (case locate f p of
       None \<Rightarrow> (False, f)
     | Some k \<Rightarrow>
         if is_dir f k \<or> \<not> is_dir f (butlast k) then (False, f)
         else (case f_io v k of
                 None \<Rightarrow> (True, put_file k (Some c) f)
               | Some left \<Rightarrow> (False, put_file k left f)))"

text \<open>\<open>fs::remove_file\<close>. \<open>blocked\<close>: the path runs through a file, which is not \<open>NotFound\<close>.\<close>

fun blocked :: "fs \<Rightarrow> node_path \<Rightarrow> string list \<Rightarrow> bool" where
  "blocked f cur [] = False"
| "blocked f cur (c # cs) =
    (if c = [] \<or> c = ''.'' then blocked f cur cs
     else if c = ''..'' then blocked f (butlast cur) cs
     else if cs = [] \<or> is_dir f (cur @ [c]) then blocked f (cur @ [c]) cs
     else bt_get (fs_files f) (cur @ [c]) \<noteq> None)"

datatype removal = Removed fs | Not_found | Not_removed

definition fs_remove :: "fenv \<Rightarrow> string \<Rightarrow> fs \<Rightarrow> removal" where
  "fs_remove v p f =
    (case locate f p of
       None \<Rightarrow> if blocked f [] (split_on (CHR ''/'') p) then Not_removed else Not_found
     | Some k \<Rightarrow>
         if is_dir f k then Not_removed
         else if bt_get (fs_files f) k = None then Not_found
         else if f_kept v k then Not_removed
         else Removed (put_file k None f))"

definition try_remove :: "fenv \<Rightarrow> string \<Rightarrow> fs \<Rightarrow> fs" where
  "try_remove v p f = (case fs_remove v p f of Removed f' \<Rightarrow> f' | _ \<Rightarrow> f)"

text \<open>\<open>fs::create_dir_all\<close>: fails where a file is in the way.\<close>

fun make_dirs :: "node_path \<Rightarrow> string list \<Rightarrow> fs \<Rightarrow> bool \<times> fs" where
  "make_dirs cur [] f = (True, f)"
| "make_dirs cur (c # cs) f =
    (if c = [] \<or> c = ''.'' then make_dirs cur cs f
     else if c = ''..'' then make_dirs (butlast cur) cs f
     else if bt_get (fs_files f) (cur @ [c]) \<noteq> None then (False, f)
     else make_dirs (cur @ [c]) cs (f\<lparr>fs_dirs := bs_add (cur @ [c]) (fs_dirs f)\<rparr>))"

definition create_dir_all :: "string \<Rightarrow> fs \<Rightarrow> bool \<times> fs" where
  "create_dir_all p f = make_dirs [] (split_on (CHR ''/'') p) f"

text \<open>\<open>fs::read_dir\<close>: the entries of a directory, by name; \<open>Some c\<close> with a file's content.\<close>

definition children :: "node_path \<Rightarrow> ('a \<Rightarrow> 'b) \<Rightarrow> (node_path, 'a) btree \<Rightarrow> (string \<times> 'b) list" where
  "children k g m = map (\<lambda>(p, x). (last p, g x)) (filter (\<lambda>(p, _). p \<noteq> [] \<and> butlast p = k) m)"

definition read_dir :: "fs \<Rightarrow> string \<Rightarrow> (node_path \<times> (string \<times> content option) list) option" where
  "read_dir f p =
    (case locate f p of
       None \<Rightarrow> None
     | Some k \<Rightarrow>
         if is_dir f k then
           Some (k, children k Some (fs_files f) @ children k (\<lambda>_. None) (fs_dirs f))
         else None)"

text \<open>\<open>fs::remove_dir_all\<close>: everything at or below a directory.\<close>

definition below :: "node_path \<Rightarrow> node_path \<Rightarrow> bool" where
  "below k p \<longleftrightarrow> take (length k) p = k"

definition remove_tree :: "node_path \<Rightarrow> fs \<Rightarrow> fs" where
  "remove_tree k f =
    f\<lparr>fs_files := filter (\<lambda>(p, _). \<not> below k p) (fs_files f),
      fs_dirs := filter (\<lambda>(p, _). \<not> below k p) (fs_dirs f)\<rparr>"

section \<open>Lemmas\<close>

lemma put_file_simps [simp]:
  "fs_dirs (put_file k c f) = fs_dirs f" "is_dir (put_file k c f) = is_dir f"
  by (simp_all add: put_file_def is_dir_def fun_eq_iff)

lemma locate_put_file [simp]: "locate (put_file k c f) = locate f"
  by (simp add: locate_def fun_eq_iff)

lemma get_put_file [simp]:
  "bt_get (fs_files (put_file k c f)) j = (if j = k then c else bt_get (fs_files f) j)"
  by (simp add: put_file_def split: option.split)

lemma bt_ok_put_file [simp]: "bt_ok (fs_files f) \<Longrightarrow> bt_ok (fs_files (put_file k c f))"
  by (simp add: put_file_def split: option.split)

lemma split_on_nonempty [simp]: "split_on x s \<noteq> []"
  by (induction s) (auto split: list.split)

lemma split_on_plain: "CHR ''/'' \<notin> set c \<Longrightarrow> split_on (CHR ''/'') c = [c]"
  by (induction c) auto

lemma split_on_append: "split_on x (p @ x # q) = split_on x p @ split_on x q"
  by (induction p) (auto split: list.split)

lemma walk_append:
  "walk d cur as = Some k \<Longrightarrow> d k \<or> as = [] \<or> bs = [] \<Longrightarrow> walk d cur (as @ bs) = walk d k bs"
  by (induction as arbitrary: cur) (auto split: if_splits)

lemma walk_appendD:
  "walk d cur (as @ bs) = Some k' \<Longrightarrow> \<exists>k. walk d cur as = Some k \<and> walk d k bs = Some k'"
  by (induction as arbitrary: cur) (auto split: if_splits)

lemma walk_skip: "bs \<noteq> [] \<Longrightarrow> walk d cur (as @ [] # bs) = walk d cur (as @ bs)"
  by (induction as arbitrary: cur) auto

lemma split_pjoin:
  assumes "q \<noteq> []" "hd q \<noteq> CHR ''/''"
  obtains as where "split_on (CHR ''/'') (pjoin p q) = as @ split_on (CHR ''/'') q"
    "split_on (CHR ''/'') p = as \<or> split_on (CHR ''/'') p = as @ [[]]"
proof -
  have rel: "\<not> is_prefix ''/'' q" using assms by (cases q) (auto simp: is_prefix_def)
  consider (nil) "p = []" | (slash) p' where "p = p' @ ''/''" | (other) "p \<noteq> []" "\<not> is_suffix ''/'' p"
  proof (cases p rule: rev_cases)
    case (snoc p' c)
    then show thesis using that by (cases "c = CHR ''/''") (auto simp: is_suffix_def is_prefix_def)
  qed (rule that)
  then show thesis
  proof cases
    case nil
    then show thesis by (intro that [of "[]"]) (simp_all add: pjoin_def rel)
  next
    case slash
    have "pjoin p q = p' @ CHR ''/'' # q" using slash rel by (simp add: pjoin_def is_suffix_def is_prefix_def)
    moreover have "split_on (CHR ''/'') p = split_on (CHR ''/'') p' @ [[]]"
      using slash split_on_append [of "CHR ''/''" p' "[]"] by simp
    ultimately show thesis by (intro that [of "split_on (CHR ''/'') p'"]) (simp_all add: split_on_append)
  next
    case other
    then have "pjoin p q = p @ CHR ''/'' # q" using rel by (simp add: pjoin_def)
    then show thesis by (intro that [of "split_on (CHR ''/'') p"]) (simp_all add: split_on_append)
  qed
qed

lemma locate_join:
  assumes "q \<noteq> []" "hd q \<noteq> CHR ''/''"
  shows "locate f (pjoin p q) = walk (is_dir f) [] (split_on (CHR ''/'') p @ split_on (CHR ''/'') q)"
  by (rule split_pjoin [OF assms, of p]) (auto simp: locate_def walk_skip)

lemma plainD: "plain c \<Longrightarrow> c \<noteq> [] \<and> hd c \<noteq> CHR ''/'' \<and> split_on (CHR ''/'') c = [c]"
  by (cases c) (auto simp: plain_def split_on_plain)

lemma locate_child:
  "plain c \<Longrightarrow> locate f p = Some k \<Longrightarrow> is_dir f k \<Longrightarrow> locate f (pjoin p c) = Some (k @ [c])"
  using plainD [of c] locate_join [of c f p] walk_append [of "is_dir f" "[]" "split_on (CHR ''/'') p" k "[c]"]
  by (simp add: plain_def locate_def)

lemma locate_childD:
  assumes "plain c" "locate f (pjoin p c) = Some k'"
  shows "\<exists>k. locate f p = Some k \<and> k' = k @ [c]"
proof -
  have "walk (is_dir f) [] (split_on (CHR ''/'') p @ [c]) = Some k'"
    using assms plainD [OF assms(1)] by (simp add: locate_join)
  from walk_appendD [OF this] show ?thesis
    using assms(1) by (auto simp: locate_def plain_def)
qed

lemma fs_write_cases:
  assumes "fs_write v p c f = (b, f')"
  shows "f' = f \<and> \<not> b \<or>
    (\<exists>k c'. locate f p = Some k \<and> \<not> is_dir f k \<and> is_dir f (butlast k) \<and> f' = put_file k c' f \<and>
      (c' = Some c \<or> \<not> b \<and> f_io v k = Some c'))"
  using assms by (auto simp: fs_write_def split: option.splits if_splits)

lemma make_dirs_files [simp]: "fs_files (snd (make_dirs cur cs f)) = fs_files f"
  by (induction cur cs f rule: make_dirs.induct) auto

lemma create_dir_all_files [simp]: "fs_files (snd (create_dir_all p f)) = fs_files f"
  by (simp add: create_dir_all_def)

lemma make_dirs_mono: "is_dir f k \<Longrightarrow> is_dir (snd (make_dirs cur cs f)) k"
  by (induction cur cs f rule: make_dirs.induct) (auto simp: is_dir_def bs_mem_set)

lemma create_dir_all_mono: "is_dir f k \<Longrightarrow> is_dir (snd (create_dir_all p f)) k"
  by (simp add: create_dir_all_def make_dirs_mono)

lemma walk_mono:
  "walk d cur cs = Some k \<Longrightarrow> (\<And>x. d x \<Longrightarrow> e x) \<Longrightarrow> walk e cur cs = Some k"
  by (induction cs arbitrary: cur) (auto split: if_splits)

lemma locate_create_dir: "locate f p = Some k \<Longrightarrow> locate (snd (create_dir_all q f)) p = Some k"
  unfolding locate_def by (erule walk_mono) (rule create_dir_all_mono)

declare is_dir_def [eval] pjoin_def [eval] locate_def [eval] fs_read_def [eval] as_json_def [eval]
  read_text_def [eval] read_json_def [eval] put_file_def [eval] fs_write_def [eval] fs_remove_def [eval]
  create_dir_all_def [eval] children_def [eval] read_dir_def [eval] path_exists_def [eval] bs_mem_def [eval]
  bs_add_def [eval] is_suffix_def [eval] is_prefix_def [eval]

end
