(* ===== verification/Config.thy ===== *)
theory Config
  imports Files Batch
begin

text \<open>
  \<open>crates/jmapsmtp/src/config.rs\<close>: the settings of the relay, the domains it serves, those in
  \<open>config.json\<close> and those registered while it runs, and how both are read. Lower-casing is the
  argument \<open>lc\<close>.
\<close>

section \<open>Domains\<close>

record account_config =
  ca_alias :: "string list"

record domain_config =
  dkim_selector :: string
  d_accounts :: "(string, account_config) btree"
  allow_provision :: bool
  provision_secret :: string
  authorized_did_domain :: bool

text \<open>\<open>null_as_default\<close>: \<open>null\<close> reads as the empty collection.\<close>

definition null_as_default :: "(json \<Rightarrow> 'a option) \<Rightarrow> 'a \<Rightarrow> json \<Rightarrow> 'a option" where
  "null_as_default d def j = map_option (or_default def) (dec_opt d j)"

definition dec_account_config :: "json \<Rightarrow> account_config option" where
  "dec_account_config j =
    (if \<not> struct_ok 1 j then None
     else map_option (\<lambda>a. \<lparr>ca_alias = a\<rparr>) (fld j 0 ''alias'' (null_as_default (dec_vec dec_str) []) []))"

definition dec_domain_config :: "json \<Rightarrow> domain_config option" where
  "dec_domain_config j =
    (if \<not> struct_ok 5 j then None
     else do {
       sel \<leftarrow> fld j 0 ''dkim_selector'' dec_str [];
       acc \<leftarrow> fld j 1 ''account'' (null_as_default (dec_map dec_account_config) []) [];
       op \<leftarrow> fld j 2 ''allow_provision'' dec_bool False;
       sec \<leftarrow> fld j 3 ''provision_secret'' dec_str [];
       did \<leftarrow> fld j 4 ''authorized_did_domain'' dec_bool False;
       Some \<lparr>dkim_selector = sel, d_accounts = acc, allow_provision = op, provision_secret = sec,
         authorized_did_domain = did\<rparr>
     })"

definition enc_account_config :: "account_config \<Rightarrow> json" where
  "enc_account_config a = struct [(''alias'', unless (ca_alias a = []) (enc_vec JStr (ca_alias a)))]"

definition enc_domain_config :: "domain_config \<Rightarrow> json" where
  "enc_domain_config d = struct
    [(''dkim_selector'', Some (JStr (dkim_selector d))),
     (''account'', Some (enc_map enc_account_config (d_accounts d))),
     (''allow_provision'', Some (JBool (allow_provision d))),
     (''provision_secret'', unless (provision_secret d = []) (JStr (provision_secret d))),
     (''authorized_did_domain'', Some (JBool (authorized_did_domain d)))]"

definition selector :: "domain_config \<Rightarrow> string" where
  "selector d = (if dkim_selector d = [] then ''default'' else dkim_selector d)"

section \<open>The configuration\<close>

record config =
  c_listen_addr :: string
  c_base_url :: string
  c_password :: string
  vapid_public_key :: string
  vapid_private_key :: string
  vapid_subscriber :: string
  hostname :: string
  c_smtp_port :: nat
  relay_host :: string
  tls_cert_file :: string
  tls_key_file :: string
  domains :: "(string, domain_config) btree"
  c_relay_label :: string
  c_relay_color :: string
  anchor_url :: string
  anchor_token :: string
  reply_only_outbound :: bool
  exempt_list :: "string list"
  max_account_storage_mb :: nat
  inactive_purge_days :: nat
  peer_data_dirs :: "string list"
  domain_verify_secret :: string
  debug_dump_eml :: bool

definition config_default :: config where
  "config_default = \<lparr>c_listen_addr = [], c_base_url = [], c_password = [], vapid_public_key = [],
     vapid_private_key = [], vapid_subscriber = [], hostname = [], c_smtp_port = 0, relay_host = [],
     tls_cert_file = [], tls_key_file = [], domains = [], c_relay_label = [], c_relay_color = [],
     anchor_url = [], anchor_token = [], reply_only_outbound = False, exempt_list = [],
     max_account_storage_mb = 0, inactive_purge_days = 0, peer_data_dirs = [],
     domain_verify_secret = [], debug_dump_eml = False\<rparr>"

definition dec_u16 :: "json \<Rightarrow> nat option" where
  "dec_u16 j = (case j of JNum i \<Rightarrow> if 0 \<le> i \<and> i < 2 ^ 16 then Some (nat i) else None | _ \<Rightarrow> None)"

definition dec_strs :: "json \<Rightarrow> string list option" where
  "dec_strs = null_as_default (dec_vec dec_str) []"

definition dec_config :: "json \<Rightarrow> config option" where
  "dec_config j =
    (if \<not> struct_ok 23 j then None
     else do {
       listen \<leftarrow> fld j 0 ''listen_addr'' dec_str [];
       base \<leftarrow> fld j 1 ''base_url'' dec_str [];
       pw \<leftarrow> fld j 2 ''password'' dec_str [];
       vpub \<leftarrow> fld j 3 ''vapid_public_key'' dec_str [];
       vpriv \<leftarrow> fld j 4 ''vapid_private_key'' dec_str [];
       vsub \<leftarrow> fld j 5 ''vapid_subscriber'' dec_str [];
       hn \<leftarrow> fld j 6 ''hostname'' dec_str [];
       port \<leftarrow> fld j 7 ''smtp_port'' dec_u16 0;
       rh \<leftarrow> fld j 8 ''relay_host'' dec_str [];
       cert \<leftarrow> fld j 9 ''smtp_tls_cert'' dec_str [];
       key \<leftarrow> fld j 10 ''smtp_tls_key'' dec_str [];
       doms \<leftarrow> fld j 11 ''domain'' (null_as_default (dec_map dec_domain_config) []) [];
       lab \<leftarrow> fld j 12 ''relay_label'' dec_str [];
       col \<leftarrow> fld j 13 ''relay_color'' dec_str [];
       aurl \<leftarrow> fld j 14 ''anchor_url'' dec_str [];
       atok \<leftarrow> fld j 15 ''anchor_token'' dec_str [];
       ro \<leftarrow> fld j 16 ''reply_only_outbound'' dec_bool False;
       ex \<leftarrow> fld j 17 ''reply_only_exempt'' dec_strs [];
       cap \<leftarrow> fld j 18 ''max_account_storage_mb'' dec_u64 0;
       days \<leftarrow> fld j 19 ''inactive_purge_days'' dec_u64 0;
       peers \<leftarrow> fld j 20 ''peer_data_dirs'' dec_strs [];
       dvs \<leftarrow> fld j 21 ''domain_verify_secret'' dec_str [];
       dump \<leftarrow> fld j 22 ''debug_dump_eml'' dec_bool False;
       Some \<lparr>c_listen_addr = listen, c_base_url = base, c_password = pw, vapid_public_key = vpub,
         vapid_private_key = vpriv, vapid_subscriber = vsub, hostname = hn, c_smtp_port = port,
         relay_host = rh, tls_cert_file = cert, tls_key_file = key, domains = doms,
         c_relay_label = lab, c_relay_color = col, anchor_url = aurl, anchor_token = atok,
         reply_only_outbound = ro, exempt_list = ex, max_account_storage_mb = cap,
         inactive_purge_days = days, peer_data_dirs = peers, domain_verify_secret = dvs,
         debug_dump_eml = dump\<rparr>
     })"

datatype config_error = ReadError | ParseError | NoDomains | AnchorTokenMissing

text \<open>\<open>anchored\<close> is the build feature \<open>anchor\<close>.\<close>

definition validate :: "bool \<Rightarrow> config \<Rightarrow> config_error + unit" where
  "validate anchored c =
    (if domains c = [] then Inl NoDomains
     else if anchored \<and> anchor_url c \<noteq> [] \<and> anchor_token c = [] then Inl AnchorTokenMissing
     else Inr ())"

definition config_load :: "bool \<Rightarrow> fenv \<Rightarrow> string \<Rightarrow> fs \<Rightarrow> config_error + config" where
  "config_load anchored v p f =
    (case fs_read f p of
       None \<Rightarrow> Inl ReadError
     | Some c \<Rightarrow>
         (case Option.bind (as_json v c) dec_config of
            None \<Rightarrow> Inl ParseError
          | Some cfg \<Rightarrow> (case validate anchored cfg of Inl e \<Rightarrow> Inl e | Inr _ \<Rightarrow> Inr cfg)))"

definition config_listen :: "config \<Rightarrow> string" where
  "config_listen c = (if c_listen_addr c = [] then ''0.0.0.0:8765'' else c_listen_addr c)"

definition smtp_port :: "config \<Rightarrow> nat" where
  "smtp_port c = (if c_smtp_port c = 0 then 25 else c_smtp_port c)"

definition relay_label :: "config \<Rightarrow> string" where
  "relay_label c = (if c_relay_label c = [] then ''Mail'' else c_relay_label c)"

definition relay_color :: "config \<Rightarrow> string" where
  "relay_color c = (if c_relay_color c = [] then [CHR 0x23] @ ''64748b'' else c_relay_color c)"

definition provision_domain :: "config \<Rightarrow> string option" where
  "provision_domain c = map_option fst (find (\<lambda>(_, d). allow_provision d) (domains c))"

definition reply_only_exempt :: "(string \<Rightarrow> string) \<Rightarrow> config \<Rightarrow> string \<Rightarrow> bool" where
  "reply_only_exempt lc c s =
    (let sender = lc s;
         domain = (case rsplit_once (CHR ''@'') sender of None \<Rightarrow> [] | Some (_, d) \<Rightarrow> d) in
     list_ex (\<lambda>e. e = sender \<or> (domain \<noteq> [] \<and> e = domain)) (map (\<lambda>e. lc (trim e)) (exempt_list c)))"

definition server_config_of :: "config \<Rightarrow> server_config" where
  "server_config_of c = \<lparr>listen_addr = c_listen_addr c, base_url_setting = c_base_url c,
     global_password = c_password c\<rparr>"

section \<open>Domains registered at run time\<close>

type_synonym dynamic_domains = "(string, domain_config) btree"

definition dyn_insert :: "string \<Rightarrow> domain_config \<Rightarrow> dynamic_domains \<Rightarrow> dynamic_domains" where
  "dyn_insert domain d m = bt_ins domain d m"

definition dyn_load_entry ::
  "fenv \<Rightarrow> fs \<Rightarrow> string \<Rightarrow> dynamic_domains \<Rightarrow> string \<times> content option \<Rightarrow> dynamic_domains" where
  "dyn_load_entry v f dir m e =
    (case e of
       (_, Some _) \<Rightarrow> m
     | (name, None) \<Rightarrow>
         (case Option.bind (read_json v f (pjoin (pjoin dir name) ''domain.json'')) dec_domain_config of
            None \<Rightarrow> m
          | Some d \<Rightarrow> dyn_insert name d m))"

definition dyn_load :: "fenv \<Rightarrow> fs \<Rightarrow> string \<Rightarrow> dynamic_domains \<Rightarrow> dynamic_domains" where
  "dyn_load v f data_dir m =
    (let dir = pjoin data_dir ''_domains'' in
     case read_dir f dir of
       None \<Rightarrow> m
     | Some (_, es) \<Rightarrow> foldl (dyn_load_entry v f dir) m es)"

definition domain_config_of :: "config \<Rightarrow> dynamic_domains \<Rightarrow> string \<Rightarrow> domain_config option" where
  "domain_config_of c dyn domain =
    (case bt_get (domains c) domain of Some d \<Rightarrow> Some d | None \<Rightarrow> bt_get dyn domain)"

declare null_as_default_def [eval] dec_account_config_def [eval] dec_domain_config_def [eval]
  enc_account_config_def [eval] enc_domain_config_def [eval]

end
