(* ===== verification/Credentials.thy ===== *)
theory Credentials
  imports Config
begin

text \<open>
  What lets a caller in: the static token (\<open>authtoken.rs\<close>), device keys and session tokens
  (\<open>did/devicekeys.rs\<close>, \<open>did/devicebind.rs\<close>, \<open>did/session_nonce.rs\<close> of \<open>jmapserver\<close>), login by a
  device (\<open>did/devices.rs\<close>), the credential files of an account and the check over them
  (\<open>auth_env.rs\<close>), and the bearer guard (\<open>bearer.rs\<close>) of \<open>jmapsmtp\<close>. Base64, SHA-256 and ed25519
  are arguments (\<open>crypto\<close>), as are the clock and the random source.
\<close>

section \<open>Cryptography\<close>

text \<open>
  The four base64 decoders by alphabet and padding, two encoders, the digest, whether 32 bytes
  are a public key, and whether a signature verifies strictly.
\<close>

record crypto =
  un_std :: "string \<Rightarrow> string option"
  un_std_raw :: "string \<Rightarrow> string option"
  un_url :: "string \<Rightarrow> string option"
  un_url_raw :: "string \<Rightarrow> string option"
  std :: "string \<Rightarrow> string"
  url_raw :: "string \<Rightarrow> string"
  sha256 :: "string \<Rightarrow> string"
  key_ok :: "string \<Rightarrow> bool"
  verifies :: "string \<Rightarrow> string \<Rightarrow> string \<Rightarrow> bool"

section \<open>The static token\<close>

definition hash_auth_token :: "crypto \<Rightarrow> string \<Rightarrow> string" where
  "hash_auth_token k token = std k (sha256 k token)"

definition verify_auth_token :: "crypto \<Rightarrow> string \<Rightarrow> string \<Rightarrow> bool" where
  "verify_auth_token k token stored =
    (case un_std k stored of None \<Rightarrow> False | Some h \<Rightarrow> sha256 k token = h)"

definition or_else :: "'a option \<Rightarrow> 'a option \<Rightarrow> 'a option" where
  "or_else x y = (case x of Some v \<Rightarrow> Some v | None \<Rightarrow> y)"

definition decode_auth_token :: "crypto \<Rightarrow> string \<Rightarrow> string option" where
  "decode_auth_token k s =
    or_else (un_std k s) (or_else (un_std_raw k s) (or_else (un_url k s) (un_url_raw k s)))"

section \<open>Signed statements\<close>

text \<open>\<open>i64\<close> subtraction and \<open>abs\<close> wrap in a release build.\<close>

definition freshness_window :: int where
  "freshness_window = 300"

definition wrapping_abs :: "64 word \<Rightarrow> 64 word" where
  "wrapping_abs d = (if sint d < 0 then - d else d)"

definition is_fresh :: "int \<Rightarrow> int \<Rightarrow> bool" where
  "is_fresh ts now =
    (let drift = (word_of_int now - word_of_int ts :: 64 word) in
     sint (wrapping_abs drift) \<le> freshness_window)"

definition session_login_statement ::
  "string \<Rightarrow> string \<Rightarrow> string \<Rightarrow> string \<Rightarrow> int \<Rightarrow> string" where
  "session_login_statement did key host nonce ts =
    ''session:'' @ did @ '':'' @ key @ '':'' @ host @ '':'' @ nonce @ '':'' @ show_int ts"

definition vouch_statement :: "string \<Rightarrow> string \<Rightarrow> string \<Rightarrow> int \<Rightarrow> string" where
  "vouch_statement did key label ts =
    ''devkey:'' @ did @ '':'' @ key @ '':'' @ label @ '':'' @ show_int ts"

definition verify_signature :: "crypto \<Rightarrow> string \<Rightarrow> string \<Rightarrow> string \<Rightarrow> bool" where
  "verify_signature k key msg sig_b64 =
    (case un_std k sig_b64 of
       None \<Rightarrow> False
     | Some sig \<Rightarrow> length sig = 64 \<and> verifies k key msg sig)"

definition decode_device_key :: "crypto \<Rightarrow> string \<Rightarrow> string option" where
  "decode_device_key k s =
    (case or_else (un_url_raw k s) (un_url k s) of
       None \<Rightarrow> None
     | Some b \<Rightarrow> if length b = 32 \<and> key_ok k b then Some b else None)"

section \<open>Device keys and session tokens\<close>

record device_key =
  dk_id :: string
  dk_label :: string
  dk_created_at :: int

record session_record =
  sr_device_id :: string
  sr_expires_at :: int

definition enc_device_key :: "device_key \<Rightarrow> json" where
  "enc_device_key d = struct [(''id'', Some (JStr (dk_id d))), (''label'', Some (JStr (dk_label d))),
     (''created_at'', Some (JNum (dk_created_at d)))]"

definition dec_device_key :: "json \<Rightarrow> device_key option" where
  "dec_device_key j =
    (if \<not> struct_ok 3 j then None
     else do {
       i \<leftarrow> req j 0 ''id'' dec_str;
       l \<leftarrow> fld j 1 ''label'' dec_str [];
       c \<leftarrow> fld j 2 ''created_at'' dec_i64 0;
       Some \<lparr>dk_id = i, dk_label = l, dk_created_at = c\<rparr>
     })"

definition enc_session :: "session_record \<Rightarrow> json" where
  "enc_session r = struct [(''device_id'', Some (JStr (sr_device_id r))),
     (''expires_at'', Some (JNum (sr_expires_at r)))]"

definition dec_session :: "json \<Rightarrow> session_record option" where
  "dec_session j =
    (if \<not> struct_ok 2 j then None
     else do {
       d \<leftarrow> req j 0 ''device_id'' dec_str;
       e \<leftarrow> req j 1 ''expires_at'' dec_i64;
       Some \<lparr>sr_device_id = d, sr_expires_at = e\<rparr>
     })"

definition devices_dir :: "string \<Rightarrow> string" where
  "devices_dir dir = pjoin dir ''devices''"

definition device_file :: "string \<Rightarrow> string \<Rightarrow> string" where
  "device_file dir i = pjoin (devices_dir dir) (i @ ''.json'')"

definition sessions_dir :: "string \<Rightarrow> string" where
  "sessions_dir dir = pjoin dir ''sessions''"

definition session_file :: "string \<Rightarrow> string \<Rightarrow> string" where
  "session_file dir h = pjoin (sessions_dir dir) (h @ ''.json'')"

definition write_device_key :: "fenv \<Rightarrow> string \<Rightarrow> device_key \<Rightarrow> fs \<Rightarrow> bool \<times> fs" where
  "write_device_key v dir key f =
    (case create_dir_all (devices_dir dir) f of
       (False, f') \<Rightarrow> (False, f')
     | (True, f') \<Rightarrow> fs_write v (device_file dir (dk_id key)) (Json (enc_device_key key)) f')"

text \<open>\<open>Path::extension\<close> is \<open>json\<close>: the part after the last dot, of a name that is more than that.\<close>

definition json_name :: "string \<Rightarrow> bool" where
  "json_name n \<longleftrightarrow> is_suffix ''.json'' n \<and> n \<noteq> ''.json''"

definition list_device_keys :: "fenv \<Rightarrow> string \<Rightarrow> fs \<Rightarrow> device_key list" where
  "list_device_keys v dir f =
    (case read_dir f (devices_dir dir) of
       None \<Rightarrow> []
     | Some (_, es) \<Rightarrow>
         sort_key dk_id
           (List.map_filter
             (\<lambda>(n, c). if json_name n then Option.bind (Option.bind c (as_json v)) dec_device_key else None) es))"

definition has_device_key :: "string \<Rightarrow> string \<Rightarrow> fs \<Rightarrow> bool" where
  "has_device_key dir i f = path_exists f (device_file dir i)"

definition session_of :: "fenv \<Rightarrow> content \<Rightarrow> session_record option" where
  "session_of v c = Option.bind (as_json v c) dec_session"

definition drop_session :: "fenv \<Rightarrow> string \<Rightarrow> node_path \<Rightarrow> fs \<Rightarrow> string \<times> content option \<Rightarrow> fs" where
  "drop_session v i k f e =
    (case e of
       (n, c) \<Rightarrow>
         (case Option.bind c (session_of v) of
            None \<Rightarrow> f
          | Some r \<Rightarrow>
              if sr_device_id r = i \<and> \<not> f_kept v (k @ [n]) then put_file (k @ [n]) None f else f))"

definition remove_device_key :: "fenv \<Rightarrow> string \<Rightarrow> string \<Rightarrow> fs \<Rightarrow> bool \<times> fs" where
  "remove_device_key v dir i f =
    (case fs_remove v (device_file dir i) f of
       Not_removed \<Rightarrow> (False, f)
     | rm \<Rightarrow>
         (let f' = (case rm of Removed g \<Rightarrow> g | _ \<Rightarrow> f) in
          case read_dir f' (sessions_dir dir) of
            None \<Rightarrow> (True, f')
          | Some (k, es) \<Rightarrow> (True, foldl (drop_session v i k) f' es)))"

definition verify_device_session ::
  "crypto \<Rightarrow> string \<Rightarrow> string \<Rightarrow> string \<Rightarrow> string \<Rightarrow> string \<Rightarrow> int \<Rightarrow> string \<Rightarrow> int \<Rightarrow> fs \<Rightarrow> bool" where
  "verify_device_session k dir did key_id host nonce ts sig now f =
    (if \<not> is_fresh ts now then False
     else if \<not> has_device_key dir key_id f then False
     else (case decode_device_key k key_id of
             None \<Rightarrow> False
           | Some key \<Rightarrow>
               verify_signature k key (session_login_statement did key_id host nonce ts) sig))"

definition session_token_hash :: "crypto \<Rightarrow> string \<Rightarrow> string" where
  "session_token_hash k raw = url_raw k (sha256 k raw)"

text \<open>\<open>raw\<close> is the 32 random bytes, \<open>None\<close> when the source fails.\<close>

definition issue_session_token ::
  "crypto \<Rightarrow> fenv \<Rightarrow> string \<Rightarrow> string \<Rightarrow> int \<Rightarrow> int \<Rightarrow> string option \<Rightarrow> fs \<Rightarrow> string option \<times> fs" where
  "issue_session_token k v dir i ttl now raw f =
    (case raw of
       None \<Rightarrow> (None, f)
     | Some r \<Rightarrow>
         (case create_dir_all (sessions_dir dir) f of
            (False, f') \<Rightarrow> (None, f')
          | (True, f') \<Rightarrow>
              (case fs_write v (session_file dir (session_token_hash k r))
                      (Json (enc_session \<lparr>sr_device_id = i, sr_expires_at = now + ttl\<rparr>)) f' of
                 (False, f'') \<Rightarrow> (None, f'')
               | (True, f'') \<Rightarrow> (Some (std k r), f''))))"

definition check_session_token ::
  "crypto \<Rightarrow> fenv \<Rightarrow> string \<Rightarrow> string \<Rightarrow> int \<Rightarrow> fs \<Rightarrow> string option" where
  "check_session_token k v dir token now f =
    do {
      raw \<leftarrow> un_std k token;
      c \<leftarrow> fs_read f (session_file dir (session_token_hash k raw));
      r \<leftarrow> session_of v c;
      if now \<le> sr_expires_at r then Some (sr_device_id r) else None
    }"

section \<open>Nonces\<close>

type_synonym nonce_store = "(string, int) btree"

definition nonce_ttl :: int where
  "nonce_ttl = 60"

definition nonce_issue ::
  "crypto \<Rightarrow> int \<Rightarrow> string option \<Rightarrow> nonce_store \<Rightarrow> (string \<times> nonce_store) outcome" where
  "nonce_issue k now raw live =
    (let live' = filter (\<lambda>(_, exp). now < exp) live in
     case raw of
       None \<Rightarrow> Panic
     | Some r \<Rightarrow> Ret (url_raw k r, bt_ins (url_raw k r) (now + nonce_ttl) live'))"

definition nonce_consume :: "string \<Rightarrow> int \<Rightarrow> nonce_store \<Rightarrow> bool \<times> nonce_store" where
  "nonce_consume n now live =
    (case bt_get live n of
       Some exp \<Rightarrow> (now < exp, bt_del n live)
     | None \<Rightarrow> (False, live))"

section \<open>The files of an account\<close>

definition account_dir :: "string \<Rightarrow> string \<Rightarrow> string \<Rightarrow> string" where
  "account_dir data domain localpart = pjoin (pjoin data domain) localpart"

definition auth_hash_file :: "string \<Rightarrow> string \<Rightarrow> string \<Rightarrow> string" where
  "auth_hash_file data domain localpart = pjoin (account_dir data domain localpart) ''auth_token_hash''"

definition read_auth_hash :: "fenv \<Rightarrow> string \<Rightarrow> string \<Rightarrow> string \<Rightarrow> fs \<Rightarrow> string" where
  "read_auth_hash v data domain localpart f =
    or_default [] (map_option trim (read_text v f (auth_hash_file data domain localpart)))"

definition write_account_file ::
  "fenv \<Rightarrow> string \<Rightarrow> string \<Rightarrow> string \<Rightarrow> string \<Rightarrow> content \<Rightarrow> fs \<Rightarrow> bool \<times> fs" where
  "write_account_file v data domain localpart name c f =
    (case create_dir_all (account_dir data domain localpart) f of
       (False, f') \<Rightarrow> (False, f')
     | (True, f') \<Rightarrow> fs_write v (pjoin (account_dir data domain localpart) name) c f')"

definition write_auth_hash ::
  "fenv \<Rightarrow> string \<Rightarrow> string \<Rightarrow> string \<Rightarrow> string \<Rightarrow> fs \<Rightarrow> bool \<times> fs" where
  "write_auth_hash v data domain localpart h f =
    write_account_file v data domain localpart ''auth_token_hash'' (Text h) f"

definition aliases_file :: "string \<Rightarrow> string \<Rightarrow> string \<Rightarrow> string" where
  "aliases_file data domain localpart = pjoin (account_dir data domain localpart) ''aliases''"

text \<open>\<open>str::lines\<close>: a final line feed ends the last line, and a CR before a line feed is not part of it.\<close>

definition text_lines :: "string \<Rightarrow> string list" where
  "text_lines s =
    (let ls = split_on LF s;
         whole = map (\<lambda>l. or_default l (strip_suffix [CR] l)) (butlast ls) in
     if last ls = [] then whole else whole @ [last ls])"

definition read_aliases :: "(string \<Rightarrow> string) \<Rightarrow> fenv \<Rightarrow> string \<Rightarrow> string \<Rightarrow> string \<Rightarrow> fs \<Rightarrow> string list" where
  "read_aliases lc v data domain localpart f =
    (case read_text v f (aliases_file data domain localpart) of
       None \<Rightarrow> []
     | Some s \<Rightarrow> filter (\<lambda>l. l \<noteq> []) (map (\<lambda>l. lc (trim l)) (text_lines s)))"

definition write_aliases ::
  "fenv \<Rightarrow> string \<Rightarrow> string \<Rightarrow> string \<Rightarrow> string list \<Rightarrow> fs \<Rightarrow> bool \<times> fs" where
  "write_aliases v data domain localpart aliases f =
    write_account_file v data domain localpart ''aliases'' (Text (join [LF] aliases)) f"

definition static_account_exists :: "fenv \<Rightarrow> string \<Rightarrow> string \<Rightarrow> string \<Rightarrow> fs \<Rightarrow> bool" where
  "static_account_exists v data domain localpart f \<longleftrightarrow> read_auth_hash v data domain localpart f \<noteq> []"

section \<open>Accounts made at run time\<close>

definition dyn_acc_insert :: "(string \<Rightarrow> string) \<Rightarrow> string \<Rightarrow> string bset \<Rightarrow> string bset" where
  "dyn_acc_insert lc e s = bs_add (lc e) s"

definition dyn_acc_contains :: "(string \<Rightarrow> string) \<Rightarrow> string \<Rightarrow> string bset \<Rightarrow> bool" where
  "dyn_acc_contains lc e s = bs_mem (lc e) s"

definition dyn_acc_remove :: "(string \<Rightarrow> string) \<Rightarrow> string \<Rightarrow> string bset \<Rightarrow> bool \<times> string bset" where
  "dyn_acc_remove lc e s = (bs_mem (lc e) s, bs_del (lc e) s)"

section \<open>The check\<close>

definition auth_check ::
  "crypto \<Rightarrow> fenv \<Rightarrow> (string \<Rightarrow> string) \<Rightarrow> config \<Rightarrow> string bset \<Rightarrow> string \<Rightarrow> int
    \<Rightarrow> string \<Rightarrow> string \<Rightarrow> fs \<Rightarrow> string option" where
  "auth_check k v lc cfg dyn data now username password f =
    (let username = lc username in
     case split_once (CHR ''@'') username of
       None \<Rightarrow> None
     | Some (localpart, domain) \<Rightarrow>
         if check_session_token k v (account_dir data domain localpart) password now f \<noteq> None then
           Some username
         else
           (let static_ok = (case bt_get (domains cfg) domain of
                               None \<Rightarrow> False | Some d \<Rightarrow> bt_get (d_accounts d) localpart \<noteq> None) in
            if \<not> static_ok \<and> \<not> dyn_acc_contains lc username dyn then None
            else
              (let h = read_auth_hash v data domain localpart f in
               if h = [] then None
               else (case decode_auth_token k password of
                       None \<Rightarrow> None
                     | Some token \<Rightarrow> if verify_auth_token k token h then Some username else None))))"

definition bearer_check :: "string \<Rightarrow> string \<Rightarrow> bool" where
  "bearer_check token header =
    (if token = [] then False
     else (case strip_prefix ''Bearer '' header of None \<Rightarrow> False | Some p \<Rightarrow> p = token))"

section \<open>Login by a device\<close>

definition session_ttl :: int where
  "session_ttl = 30 * 24 * 60 * 60"

record session_request =
  sq_username :: string
  sq_domain :: string
  sq_did :: string
  sq_key :: string
  sq_nonce :: string
  sq_ts :: int
  sq_sig :: string

definition dec_session_request :: "json \<Rightarrow> session_request option" where
  "dec_session_request j =
    (if \<not> struct_ok 7 j then None
     else do {
       u \<leftarrow> fld j 0 ''username'' dec_str [];
       d \<leftarrow> fld j 1 ''domain'' dec_str [];
       i \<leftarrow> fld j 2 ''did'' dec_str [];
       k \<leftarrow> fld j 3 ''device_pub_key'' dec_str [];
       n \<leftarrow> fld j 4 ''nonce'' dec_str [];
       t \<leftarrow> fld j 5 ''ts'' dec_i64 0;
       s \<leftarrow> fld j 6 ''sig'' dec_str [];
       Some \<lparr>sq_username = u, sq_domain = d, sq_did = i, sq_key = k, sq_nonce = n, sq_ts = t, sq_sig = s\<rparr>
     })"

record vouch_request =
  vr_username :: string
  vr_domain :: string
  vr_did :: string
  vr_key :: string
  vr_label :: string
  vr_bind_ts :: int
  vr_sig :: string

definition dec_vouch_request :: "json \<Rightarrow> vouch_request option" where
  "dec_vouch_request j =
    (if \<not> struct_ok 7 j then None
     else do {
       u \<leftarrow> fld j 0 ''username'' dec_str [];
       d \<leftarrow> fld j 1 ''domain'' dec_str [];
       i \<leftarrow> fld j 2 ''did'' dec_str [];
       k \<leftarrow> fld j 3 ''device_pub_key'' dec_str [];
       l \<leftarrow> fld j 4 ''label'' dec_str [];
       t \<leftarrow> fld j 5 ''bind_ts'' dec_i64 0;
       s \<leftarrow> fld j 6 ''sig'' dec_str [];
       Some \<lparr>vr_username = u, vr_domain = d, vr_did = i, vr_key = k, vr_label = l, vr_bind_ts = t, vr_sig = s\<rparr>
     })"

datatype device_error =
    MissingFields | NoSuchAccount | SessionRejected | VouchRejected | AnchorRequired
  | AnchorUnavailable | IdRequired | Unauthorized

fun device_status :: "device_error \<Rightarrow> nat" where
  "device_status MissingFields = 400"
| "device_status IdRequired = 400"
| "device_status Unauthorized = 401"
| "device_status SessionRejected = 401"
| "device_status VouchRejected = 401"
| "device_status NoSuchAccount = 404"
| "device_status AnchorRequired = 503"
| "device_status AnchorUnavailable = 503"

fun device_message :: "device_error \<Rightarrow> string" where
  "device_message MissingFields = ''username, domain, did, device_pub_key and sig required''"
| "device_message NoSuchAccount = ''no such account''"
| "device_message SessionRejected = ''session login rejected''"
| "device_message VouchRejected = ''device vouch rejected''"
| "device_message AnchorRequired =
    ''this relay has no identity anchor configured '' @ [CHR 0xE2, CHR 0x80, CHR 0x94]
      @ '' per-device credentials require one''"
| "device_message AnchorUnavailable = ''identity anchor unavailable''"
| "device_message IdRequired = ''id required''"
| "device_message Unauthorized = ''unauthorized''"

definition account_of ::
  "(string \<Rightarrow> string) \<Rightarrow> string \<Rightarrow> string \<Rightarrow> string \<Rightarrow> string \<Rightarrow> string \<Rightarrow> device_error + string \<times> string" where
  "account_of lc username domain did key sig =
    (let username = lc (trim username); domain = lc (trim domain) in
     if username = [] \<or> domain = [] \<or> did = [] \<or> key = [] \<or> sig = [] then Inl MissingFields
     else Inr (username, domain))"

record session_response =
  sp_email :: string
  sp_token :: string
  sp_expires_in :: int

definition login ::
  "crypto \<Rightarrow> fenv \<Rightarrow> (string \<Rightarrow> string) \<Rightarrow> string \<Rightarrow> session_request \<Rightarrow> string \<Rightarrow> int \<Rightarrow> string option
    \<Rightarrow> fs \<times> nonce_store \<Rightarrow> (device_error + session_response) \<times> fs \<times> nonce_store" where
  "login k v lc data q host now raw s =
    (case s of
       (f, live) \<Rightarrow>
         (case nonce_consume (sq_nonce q) now live of
            (False, live') \<Rightarrow> (Inl SessionRejected, f, live')
          | (True, live') \<Rightarrow>
              (case account_of lc (sq_username q) (sq_domain q) (sq_did q) (sq_key q) (sq_sig q) of
                 Inl e \<Rightarrow> (Inl e, f, live')
               | Inr (username, domain) \<Rightarrow>
                   (let dir = account_dir data domain username in
                    if \<not> verify_device_session k dir (sq_did q) (sq_key q) host (sq_nonce q)
                          (sq_ts q) (sq_sig q) now f then
                      (Inl SessionRejected, f, live')
                    else
                      (case issue_session_token k v dir (sq_key q) session_ttl now raw f of
                         (None, f') \<Rightarrow> (Inl VouchRejected, f', live')
                       | (Some token, f') \<Rightarrow>
                           (Inr \<lparr>sp_email = username @ ''@'' @ domain, sp_token = token,
                                 sp_expires_in = session_ttl\<rparr>, f', live'))))))"

definition account_exists :: "fenv \<Rightarrow> string \<Rightarrow> string \<Rightarrow> string \<Rightarrow> fs \<Rightarrow> bool" where
  "account_exists v data domain localpart f \<longleftrightarrow>
    read_auth_hash v data domain localpart f \<noteq> [] \<or>
    list_device_keys v (account_dir data domain localpart) f \<noteq> []"

definition write_device ::
  "fenv \<Rightarrow> string \<Rightarrow> string \<Rightarrow> string \<Rightarrow> vouch_request \<Rightarrow> int \<Rightarrow> fs \<Rightarrow> bool \<times> fs" where
  "write_device v data domain localpart q now f =
    write_device_key v (account_dir data domain localpart)
      \<lparr>dk_id = vr_key q, dk_label = vr_label q, dk_created_at = now\<rparr> f"

section \<open>Vouching for a device and revoking one\<close>

text \<open>
  What the anchor answers, and the requests of \<open>/account/devices\<close> (\<open>server.rs\<close>). The anchor is
  an argument; \<open>anchored\<close> is the build feature. The result is an error, or whether the files
  were changed as they should.
\<close>

datatype verdict = VOk | VConflict | VInvalid | VError

fun verdict_error :: "verdict \<Rightarrow> device_error option" where
  "verdict_error VOk = None"
| "verdict_error VInvalid = Some VouchRejected"
| "verdict_error VConflict = Some VouchRejected"
| "verdict_error VError = Some AnchorUnavailable"

definition anchor_configured :: "bool \<Rightarrow> config \<Rightarrow> bool" where
  "anchor_configured anchored cfg \<longleftrightarrow> anchored \<and> anchor_url cfg \<noteq> []"

definition check_vouch :: "bool \<Rightarrow> config \<Rightarrow> device_error + unit" where
  "check_vouch anchored cfg = (if anchor_configured anchored cfg then Inr () else Inl AnchorRequired)"

definition vouch_device ::
  "bool \<Rightarrow> fenv \<Rightarrow> (string \<Rightarrow> string) \<Rightarrow> config \<Rightarrow> string
    \<Rightarrow> (string \<Rightarrow> string \<Rightarrow> vouch_request \<Rightarrow> verdict) \<Rightarrow> vouch_request \<Rightarrow> int \<Rightarrow> fs
    \<Rightarrow> (device_error + bool) \<times> fs" where
  "vouch_device anchored v lc cfg data anchor q now f =
    (case account_of lc (vr_username q) (vr_domain q) (vr_did q) (vr_key q) (vr_sig q) of
       Inl e \<Rightarrow> (Inl e, f)
     | Inr (localpart, domain) \<Rightarrow>
         if \<not> account_exists v data domain localpart f then (Inl NoSuchAccount, f)
         else (case check_vouch anchored cfg of
                 Inl e \<Rightarrow> (Inl e, f)
               | Inr _ \<Rightarrow>
                   (case verdict_error (anchor localpart domain q) of
                      Some e \<Rightarrow> (Inl e, f)
                    | None \<Rightarrow> (case write_device v data domain localpart q now f of (b, f') \<Rightarrow> (Inr b, f')))))"

text \<open>The device requests in sequence, over the files and the nonces.\<close>

datatype device_op =
    Challenge int "string option"
  | Login session_request string int "string option"
  | Vouch vouch_request int verdict
  | Revoke string string string

record device_env =
  de_crypto :: crypto
  de_files :: fenv
  de_lc :: "string \<Rightarrow> string"
  de_anchored :: bool
  de_cfg :: config
  de_data :: string

fun device_step :: "device_env \<Rightarrow> device_op \<Rightarrow> fs \<times> nonce_store \<Rightarrow> fs \<times> nonce_store" where
  "device_step d (Challenge now raw) (f, live) =
    (case nonce_issue (de_crypto d) now raw live of Panic \<Rightarrow> (f, live) | Ret (_, live') \<Rightarrow> (f, live'))"
| "device_step d (Login q host now raw) s =
    snd (login (de_crypto d) (de_files d) (de_lc d) (de_data d) q host now raw s)"
| "device_step d (Vouch q now verdict) (f, live) =
    (snd (vouch_device (de_anchored d) (de_files d) (de_lc d) (de_cfg d) (de_data d) (\<lambda>_ _ _. verdict) q now f), live)"
| "device_step d (Revoke domain localpart i) (f, live) =
    (snd (remove_device_key (de_files d) (account_dir (de_data d) domain localpart) i f), live)"

definition device_steps :: "device_env \<Rightarrow> device_op list \<Rightarrow> fs \<times> nonce_store \<Rightarrow> fs \<times> nonce_store" where
  "device_steps d ops s = foldl (\<lambda>s op. device_step d op s) s ops"

declare hash_auth_token_def [eval] verify_auth_token_def [eval] or_else_def [eval] decode_auth_token_def [eval]
  freshness_window_def [eval] wrapping_abs_def [eval] is_fresh_def [eval] session_login_statement_def [eval]
  vouch_statement_def [eval] verify_signature_def [eval] decode_device_key_def [eval] enc_device_key_def [eval]
  dec_device_key_def [eval] enc_session_def [eval] dec_session_def [eval] devices_dir_def [eval]
  device_file_def [eval] sessions_dir_def [eval] session_file_def [eval] write_device_key_def [eval]
  json_name_def [eval] list_device_keys_def [eval] has_device_key_def [eval] session_of_def [eval]
  drop_session_def [eval] remove_device_key_def [eval] verify_device_session_def [eval] session_token_hash_def [eval]
  issue_session_token_def [eval] check_session_token_def [eval] nonce_ttl_def [eval] nonce_issue_def [eval]
  nonce_consume_def [eval] account_dir_def [eval] auth_hash_file_def [eval] read_auth_hash_def [eval]
  write_account_file_def [eval] write_auth_hash_def [eval] aliases_file_def [eval] text_lines_def [eval]
  read_aliases_def [eval] write_aliases_def [eval] static_account_exists_def [eval] dyn_acc_insert_def [eval]
  dyn_acc_contains_def [eval] dyn_acc_remove_def [eval] auth_check_def [eval] bearer_check_def [eval]
  session_ttl_def [eval] dec_session_request_def [eval] dec_vouch_request_def [eval] account_of_def [eval]
  login_def [eval] account_exists_def [eval] write_device_def [eval] anchor_configured_def [eval]
  check_vouch_def [eval] vouch_device_def [eval] device_steps_def [eval]

end
