(* ===== verification/CredentialsProps.thy ===== *)
theory CredentialsProps
  imports Credentials
begin

text \<open>
  Properties of the credentials: a nonce is spent once, a session token stems from a signed
  login, and a revoked device is out.
\<close>

section \<open>The file tree\<close>

definition fs_ok :: "fs \<Rightarrow> bool" where
  "fs_ok f \<longleftrightarrow> bt_ok (fs_files f) \<and> bt_ok (fs_dirs f) \<and> (\<forall>k. is_dir f k \<longrightarrow> is_dir f (butlast k)) \<and>
    (\<forall>k. bt_get (fs_files f) k \<noteq> None \<longrightarrow> \<not> is_dir f k \<and> is_dir f (butlast k))"

lemma fs_okD:
  assumes "fs_ok f"
  shows "bt_ok (fs_files f)" "is_dir f k \<Longrightarrow> is_dir f (butlast k)"
    "bt_get (fs_files f) k = Some c \<Longrightarrow> \<not> is_dir f k" "bt_ok (fs_dirs f)"
    "bt_get (fs_files f) k = Some c \<Longrightarrow> is_dir f (butlast k)"
  using assms unfolding fs_ok_def by auto

lemma fs_ok_put_file:
  "fs_ok f \<Longrightarrow> c = None \<or> \<not> is_dir f k \<and> is_dir f (butlast k) \<Longrightarrow> fs_ok (put_file k c f)"
  unfolding fs_ok_def by auto

lemma fs_ok_write: "fs_ok f \<Longrightarrow> fs_write v p c f = (b, f') \<Longrightarrow> fs_ok f'"
  by (drule fs_write_cases) (auto intro: fs_ok_put_file)

lemma is_dir_add: "is_dir (f\<lparr>fs_dirs := bs_add k (fs_dirs f)\<rparr>) x \<longleftrightarrow> x = k \<or> is_dir f x"
  by (auto simp: is_dir_def bs_mem_set)

lemma fs_ok_make_dirs:
  "fs_ok f \<Longrightarrow> is_dir f cur \<Longrightarrow> fs_ok (snd (make_dirs cur cs f))"
proof (induction cur cs f rule: make_dirs.induct)
  case (2 cur c cs f)
  let ?g = "f\<lparr>fs_dirs := bs_add (cur @ [c]) (fs_dirs f)\<rparr>"
  have "fs_ok ?g" if "bt_get (fs_files f) (cur @ [c]) = None"
    using 2(4,5) that unfolding fs_ok_def by (auto simp: is_dir_add)
  moreover have "is_dir ?g (cur @ [c])" by (simp add: is_dir_add)
  ultimately show ?case using 2 fs_okD(2) [OF 2(4,5)] by auto
qed simp

lemma is_dir_root [simp]: "is_dir f []"
  by (simp add: is_dir_def)

lemma fs_ok_create_dir: "fs_ok f \<Longrightarrow> fs_ok (snd (create_dir_all p f))"
  by (simp add: create_dir_all_def fs_ok_make_dirs)

text \<open>Creating a directory whose parent is there adds at most that one.\<close>

lemma make_dirs_walk:
  "fs_ok f \<Longrightarrow> is_dir f cur \<Longrightarrow> walk (is_dir f) cur cs = Some k \<Longrightarrow> is_dir f k \<Longrightarrow>
   is_dir (snd (make_dirs cur (cs @ ds) f)) = is_dir (snd (make_dirs k ds f))"
proof (induction cs arbitrary: cur f)
  case (Cons c cs)
  show ?case
  proof (cases "c = [] \<or> c = ''.'' \<or> c = ''..''")
    case True
    then show ?thesis using Cons fs_okD(2) [OF Cons.prems(1,2)] by auto
  next
    case False
    then have d: "is_dir f (cur @ [c])" and w: "walk (is_dir f) (cur @ [c]) cs = Some k"
      using Cons.prems(3,4) by (cases cs; auto split: if_splits)+
    have free: "bt_get (fs_files f) (cur @ [c]) = None"
      using fs_okD(3) [OF Cons.prems(1)] d by (cases "bt_get (fs_files f) (cur @ [c])") auto
    have same: "bs_add (cur @ [c]) (fs_dirs f) = fs_dirs f"
      using d fs_okD(4) [OF Cons.prems(1)]
      by (cases "bt_get (fs_dirs f) (cur @ [c])") (auto simp: is_dir_def bs_mem_def bs_add_def bt_ins_same)
    then show ?thesis using False free Cons.IH [OF Cons.prems(1) d w Cons.prems(4)] by simp
  qed
qed simp

lemma make_child:
  assumes "fs_ok f" "plain c" "locate f p = Some k" "is_dir f k"
  shows "is_dir (snd (create_dir_all (pjoin p c) f)) x \<Longrightarrow> is_dir f x \<or> x = k @ [c]"
proof -
  from plainD [OF assms(2)] obtain as where as: "split_on (CHR ''/'') (pjoin p c) = as @ [c]"
    "split_on (CHR ''/'') p = as \<or> split_on (CHR ''/'') p = as @ [[]]"
    by (metis split_pjoin)
  have "walk (is_dir f) [] as = Some k"
    using assms(3) as(2) walk_appendD [of "is_dir f" "[]" as "[[]]" k] by (auto simp: locate_def)
  from make_dirs_walk [OF assms(1) is_dir_root this assms(4), of "[c]"]
  show "is_dir (snd (create_dir_all (pjoin p c) f)) x \<Longrightarrow> is_dir f x \<or> x = k @ [c]"
    using assms(2) by (auto simp: create_dir_all_def as plain_def is_dir_add split: if_splits)
qed

text \<open>What writing the file \<open>name\<close> into the subdirectory \<open>sub\<close> of \<open>K\<close> may do to the tree.\<close>

definition grows :: "fenv \<Rightarrow> node_path \<Rightarrow> string \<Rightarrow> string \<Rightarrow> content \<Rightarrow> fs \<Rightarrow> fs \<Rightarrow> bool" where
  "grows v K sub name c f f' \<longleftrightarrow> fs_ok f' \<and> (\<forall>x. is_dir f x \<longrightarrow> is_dir f' x) \<and>
    (\<forall>x. is_dir f' x \<longrightarrow> is_dir f x \<or> x = K @ [sub]) \<and>
    (\<forall>x c'. bt_get (fs_files f') x = Some c' \<longrightarrow>
       bt_get (fs_files f) x = Some c' \<or> x = K @ [sub, name] \<and> (c' = c \<or> f_io v x = Some (Some c')))"

lemma make_sub:
  assumes "fs_ok f" "plain sub" "locate f dir = Some K" "is_dir f K"
    "create_dir_all (pjoin dir sub) f = (b, f1)"
  shows "grows v K sub name c f f1"
  using make_child [OF assms(1-4)] fs_ok_create_dir [OF assms(1), of "pjoin dir sub"]
    create_dir_all_mono [of f _ "pjoin dir sub"] create_dir_all_files [of "pjoin dir sub" f] assms(5)
  by (auto simp: grows_def)

lemma write_in_sub:
  assumes "fs_ok f" "plain sub" "plain name" "locate f dir = Some K" "is_dir f K"
    "create_dir_all (pjoin dir sub) f = (b, f1)"
    "fs_write v (pjoin (pjoin dir sub) name) c f1 = (b', f')"
  shows "grows v K sub name c f f'"
proof -
  have g: "grows v K sub name c f f1" by (rule make_sub [OF assms(1,2,4,5,6)])
  from fs_write_cases [OF assms(7)] show ?thesis
  proof
    assume "\<exists>k c'. locate f1 (pjoin (pjoin dir sub) name) = Some k \<and> \<not> is_dir f1 k \<and>
      is_dir f1 (butlast k) \<and> f' = put_file k c' f1 \<and> (c' = Some c \<or> \<not> b' \<and> f_io v k = Some c')"
    then obtain k c' where k: "locate f1 (pjoin (pjoin dir sub) name) = Some k" "\<not> is_dir f1 k"
      "is_dir f1 (butlast k)" "f' = put_file k c' f1" "c' = Some c \<or> f_io v k = Some c'" by blast
    have "locate f1 dir = Some K"
      using locate_create_dir [OF assms(4), of "pjoin dir sub"] assms(6) by simp
    with locate_childD [OF assms(3) k(1)] locate_childD [OF assms(2), of f1 dir]
    have "k = K @ [sub, name]" by auto
    with g k show ?thesis by (auto simp: grows_def intro: fs_ok_put_file)
  qed (use g in simp)
qed

section \<open>One device request\<close>

text \<open>The URL-safe alphabet has no slash.\<close>

definition url_safe :: "crypto \<Rightarrow> bool" where
  "url_safe k \<longleftrightarrow> (\<forall>r. CHR ''/'' \<notin> set (url_raw k r)) \<and>
    (\<forall>s. un_url_raw k s \<noteq> None \<or> un_url k s \<noteq> None \<longrightarrow> CHR ''/'' \<notin> set s)"

lemma plain_json: "CHR ''/'' \<notin> set s \<Longrightarrow> plain (s @ ''.json'')"
  by (auto simp: plain_def append_eq_Cons_conv)

lemma plain_names [simp]: "plain ''devices''" "plain ''sessions''" "plain ''auth_token_hash''"
  by (simp_all add: plain_def)

lemma hash_plain: "url_safe k \<Longrightarrow> plain (session_token_hash k r @ ''.json'')"
  by (simp add: url_safe_def session_token_hash_def plain_json)

lemma key_plain: "url_safe k \<Longrightarrow> decode_device_key k s = Some b \<Longrightarrow> plain (s @ ''.json'')"
  by (rule plain_json) (auto simp: url_safe_def decode_device_key_def or_else_def split: option.splits)

lemma file_parent:
  assumes "fs_ok f" "plain c" "fs_read f (pjoin p c) = Some x"
  shows "\<exists>k. locate f p = Some k \<and> is_dir f k"
proof -
  obtain k' where k': "locate f (pjoin p c) = Some k'" "bt_get (fs_files f) k' = Some x"
    using assms(3) by (auto simp: fs_read_def bind_eq_Some_conv)
  from locate_childD [OF assms(2) k'(1)] fs_okD(5) [OF assms(1) k'(2)] show ?thesis by auto
qed

lemma dir_parent:
  assumes "fs_ok f" "plain c" "read_dir f (pjoin p c) = Some e"
  shows "\<exists>k. locate f p = Some k \<and> is_dir f k"
proof -
  obtain k' where k': "locate f (pjoin p c) = Some k'" "is_dir f k'"
    using assms(3) by (auto simp: read_dir_def split: option.splits if_splits)
  from locate_childD [OF assms(2) k'(1)] fs_okD(2) [OF assms(1) k'(2)] show ?thesis by auto
qed

lemma account_dir_there:
  assumes "fs_ok f" "account_exists v data domain localpart f"
  shows "\<exists>K. locate f (account_dir data domain localpart) = Some K \<and> is_dir f K"
proof (cases "read_auth_hash v data domain localpart f = []")
  case False
  then obtain x where "fs_read f (auth_hash_file data domain localpart) = Some x"
    by (auto simp: read_auth_hash_def read_text_def or_default_def split: option.splits)
  then show ?thesis using file_parent [OF assms(1), of "''auth_token_hash''"] by (simp add: auth_hash_file_def)
next
  case True
  with assms(2) obtain e where "read_dir f (devices_dir (account_dir data domain localpart)) = Some e"
    by (auto simp: account_exists_def list_device_keys_def split: option.splits)
  then show ?thesis using dir_parent [OF assms(1), of "''devices''"] by (simp add: devices_dir_def)
qed

lemma device_dir_there:
  assumes "fs_ok f" "plain (i @ ''.json'')" "has_device_key dir i f"
  shows "\<exists>K. locate f dir = Some K \<and> is_dir f K \<and>
    (is_dir f (K @ [''devices'', i @ ''.json'']) \<or> bt_get (fs_files f) (K @ [''devices'', i @ ''.json'']) \<noteq> None)"
proof -
  obtain x where x: "locate f (pjoin (pjoin dir ''devices'') (i @ ''.json'')) = Some x"
    "is_dir f x \<or> bt_get (fs_files f) x \<noteq> None"
    using assms(3) by (auto simp: has_device_key_def path_exists_def device_file_def devices_dir_def split: option.splits)
  from locate_childD [OF assms(2) x(1)] obtain k2 where k2: "locate f (pjoin dir ''devices'') = Some k2"
    "x = k2 @ [i @ ''.json'']" by blast
  from locate_childD [OF _ k2(1)] obtain K where K: "locate f dir = Some K" "k2 = K @ [''devices'']" by auto
  have "is_dir f (butlast x)" using x(2) fs_okD(2,5) [OF assms(1)] by auto
  then have "is_dir f k2" using k2(2) by simp
  then have "is_dir f K" using fs_okD(2) [OF assms(1)] K(2) by force
  with x(2) K k2(2) show ?thesis by simp
qed

text \<open>What a login request leaves behind, whatever it answers.\<close>

definition signed_login :: "device_env \<Rightarrow> session_request \<Rightarrow> string \<Rightarrow> int \<Rightarrow> bool" where
  "signed_login d q host now \<longleftrightarrow> is_fresh (sq_ts q) now \<and>
    (\<exists>key. decode_device_key (de_crypto d) (sq_key q) = Some key \<and>
      verify_signature (de_crypto d) key
        (session_login_statement (sq_did q) (sq_key q) host (sq_nonce q) (sq_ts q)) (sq_sig q))"

definition session_content :: "session_request \<Rightarrow> int \<Rightarrow> content" where
  "session_content q now = Json (enc_session \<lparr>sr_device_id = sq_key q, sr_expires_at = now + session_ttl\<rparr>)"

definition login_dir :: "device_env \<Rightarrow> session_request \<Rightarrow> string" where
  "login_dir d q = account_dir (de_data d) (de_lc d (trim (sq_domain q))) (de_lc d (trim (sq_username q)))"

lemma login_grows:
  assumes "fs_ok f" "url_safe (de_crypto d)"
    "login (de_crypto d) (de_files d) (de_lc d) (de_data d) q host now raw (f, live) = (r, f', live')"
  shows "f' = f \<or> (\<exists>K tok. raw = Some tok \<and> signed_login d q host now \<and>
    fst (nonce_consume (sq_nonce q) now live) \<and> has_device_key (login_dir d q) (sq_key q) f \<and>
    locate f (login_dir d q) = Some K \<and> is_dir f K \<and>
    grows (de_files d) K ''sessions'' (session_token_hash (de_crypto d) tok @ ''.json'') (session_content q now) f f')"
proof (cases "f' = f")
  case False
  let ?k = "de_crypto d" and ?dir = "login_dir d q"
  have v: "verify_device_session ?k ?dir (sq_did q) (sq_key q) host (sq_nonce q) (sq_ts q) (sq_sig q) now f"
    and n: "fst (nonce_consume (sq_nonce q) now live)"
    and f': "f' = snd (issue_session_token ?k (de_files d) ?dir (sq_key q) session_ttl now raw f)"
    using assms(3) False
    by (auto simp: login_def login_dir_def account_of_def Let_def split: prod.splits bool.splits if_splits option.splits)
  from v obtain b where b: "decode_device_key ?k (sq_key q) = Some b" and h: "has_device_key ?dir (sq_key q) f"
    and sl: "signed_login d q host now"
    by (auto simp: verify_device_session_def signed_login_def split: if_splits option.splits)
  from device_dir_there [OF assms(1) key_plain [OF assms(2) b] h] obtain K where
    K: "locate f ?dir = Some K" "is_dir f K" by blast
  from f' False obtain tok where tok: "raw = Some tok"
    by (auto simp: issue_session_token_def split: option.splits)
  obtain b1 f1 where f1: "create_dir_all (pjoin ?dir ''sessions'') f = (b1, f1)" by (metis prod.exhaust)
  have "grows (de_files d) K ''sessions'' (session_token_hash ?k tok @ ''.json'') (session_content q now) f f'"
  proof (cases b1)
    case True
    obtain b2 f2 where f2: "fs_write (de_files d) (session_file ?dir (session_token_hash ?k tok)) (session_content q now) f1
      = (b2, f2)" by (metis prod.exhaust)
    have "f' = f2" using f' tok f1 True f2
      by (simp add: issue_session_token_def sessions_dir_def session_content_def split: bool.splits)
    with write_in_sub [OF assms(1) _ hash_plain [OF assms(2)] K f1] f2
    show ?thesis by (simp add: session_file_def sessions_dir_def)
  next
    case False
    then have "f' = f1" using f' tok f1 by (simp add: issue_session_token_def sessions_dir_def)
    with make_sub [OF assms(1) _ K f1] show ?thesis by simp
  qed
  with tok sl n h K show ?thesis by blast
qed simp

lemma vouch_grows:
  assumes "fs_ok f" "CHR ''/'' \<notin> set (vr_key q)"
    "vouch_device anchored v lc cfg data anchor q now f = (r, f')"
  shows "f' = f \<or> (\<exists>K. is_dir f K \<and>
    grows v K ''devices'' (vr_key q @ ''.json'')
      (Json (enc_device_key \<lparr>dk_id = vr_key q, dk_label = vr_label q, dk_created_at = now\<rparr>)) f f')"
proof (cases "f' = f")
  case False
  let ?c = "Json (enc_device_key \<lparr>dk_id = vr_key q, dk_label = vr_label q, dk_created_at = now\<rparr>)"
  from assms(3) False obtain domain localpart where e: "account_exists v data domain localpart f"
    and f': "f' = snd (write_device v data domain localpart q now f)"
    by (auto simp: vouch_device_def split: sum.splits prod.splits if_splits option.splits)
  let ?dir = "account_dir data domain localpart"
  from account_dir_there [OF assms(1) e] obtain K where K: "locate f ?dir = Some K" "is_dir f K" by blast
  obtain b1 f1 where f1: "create_dir_all (pjoin ?dir ''devices'') f = (b1, f1)" by (metis prod.exhaust)
  have "grows v K ''devices'' (vr_key q @ ''.json'') ?c f f'"
  proof (cases b1)
    case True
    obtain b2 f2 where f2: "fs_write v (device_file ?dir (vr_key q)) ?c f1 = (b2, f2)" by (metis prod.exhaust)
    then have "f' = f2" using f' f1 True
      by (simp add: write_device_def write_device_key_def devices_dir_def)
    with write_in_sub [OF assms(1) _ plain_json [OF assms(2)] K f1] f2
    show ?thesis by (simp add: device_file_def devices_dir_def)
  next
    case False
    then have "f' = f1" using f' f1 by (simp add: write_device_def write_device_key_def devices_dir_def)
    with make_sub [OF assms(1) _ K f1] show ?thesis by simp
  qed
  with K show ?thesis by blast
qed simp

section \<open>Revoking\<close>

lemma drop_sessions_files:
  assumes "bt_get (fs_files (foldl (drop_session v i k) f es)) x = Some c"
  shows "bt_get (fs_files f) x = Some c"
  using assms
proof (induction es arbitrary: f)
  case (Cons e es)
  then have "bt_get (fs_files (drop_session v i k f e)) x = Some c" by simp
  then show ?case by (simp add: drop_session_def split: option.splits prod.splits if_splits)
qed simp

lemma drop_sessions_gone:
  assumes "(n, Some c) \<in> set es" "session_of v c = Some r" "sr_device_id r = i" "\<not> f_kept v (k @ [n])"
  shows "bt_get (fs_files (foldl (drop_session v i k) f es)) (k @ [n]) = None"
  using assms(1)
proof (induction es arbitrary: f)
  case (Cons e es)
  show ?case
  proof (cases "e = (n, Some c)")
    case True
    then have "bt_get (fs_files (drop_session v i k f e)) (k @ [n]) = None"
      using assms by (simp add: drop_session_def)
    then show ?thesis
      using drop_sessions_files [of v i k "drop_session v i k f e" es "k @ [n]"]
      by (cases "bt_get (fs_files (foldl (drop_session v i k) (drop_session v i k f e) es)) (k @ [n])") auto
  qed (use Cons in auto)
qed simp

lemma drop_sessions_dirs [simp]: "is_dir (foldl (drop_session v i k) f es) = is_dir f"
proof (induction es arbitrary: f)
  case (Cons e es)
  have "is_dir (drop_session v i k f e) = is_dir f"
    by (auto simp: drop_session_def split: option.splits prod.splits)
  then show ?case using Cons by simp
qed simp

lemma drop_sessions_ok: "fs_ok f \<Longrightarrow> fs_ok (foldl (drop_session v i k) f es)"
  by (induction es arbitrary: f) (auto simp: drop_session_def fs_ok_put_file split: option.splits prod.splits)

lemma remove_device_shrinks:
  assumes "fs_ok f" "remove_device_key v dir i f = (b, f')"
  shows "fs_ok f' \<and> is_dir f' = is_dir f \<and>
    (\<forall>x c. bt_get (fs_files f') x = Some c \<longrightarrow> bt_get (fs_files f) x = Some c)"
proof -
  have rm: "fs_ok g \<and> is_dir g = is_dir f \<and> (\<forall>x c. bt_get (fs_files g) x = Some c \<longrightarrow> bt_get (fs_files f) x = Some c)"
    if "fs_remove v (device_file dir i) f = Removed g" for g
    using that assms(1) by (auto simp: fs_remove_def fs_ok_put_file split: option.splits if_splits)
  show ?thesis
    using assms(2) assms(1)
    by (cases "fs_remove v (device_file dir i) f")
       (auto simp: remove_device_key_def Let_def drop_sessions_ok dest!: rm dest: drop_sessions_files split: option.splits)
qed

text \<open>Nothing of the device is left in the account directory \<open>K\<close>.\<close>

definition gone :: "fenv \<Rightarrow> node_path \<Rightarrow> string \<Rightarrow> fs \<Rightarrow> bool" where
  "gone v K i f \<longleftrightarrow> fs_ok f \<and> \<not> is_dir f (K @ [''devices'', i @ ''.json'']) \<and>
    bt_get (fs_files f) (K @ [''devices'', i @ ''.json'']) = None \<and>
    (\<forall>n c r. bt_get (fs_files f) (K @ [''sessions'', n]) = Some c \<longrightarrow> session_of v c = Some r \<longrightarrow> sr_device_id r \<noteq> i)"

lemma remove_device_gone:
  assumes "fs_ok f" "plain (i @ ''.json'')" "\<And>x. \<not> f_kept v x"
    "locate f dir = Some K" "is_dir f K" "remove_device_key v dir i f = (True, f')"
  shows "gone v K i f'"
proof -
  let ?x = "K @ [''devices'', i @ ''.json'']"
  have sh: "fs_ok f'" "is_dir f' = is_dir f"
    "\<And>x c. bt_get (fs_files f') x = Some c \<Longrightarrow> bt_get (fs_files f) x = Some c"
    using remove_device_shrinks [OF assms(1,6)] by auto
  have up: "is_dir f (K @ [''devices''])" if "is_dir f ?x \<or> bt_get (fs_files f) ?x = Some c" for c
    using that fs_okD(2) [OF assms(1), of ?x] fs_okD(5) [OF assms(1), of ?x c] by (auto simp: butlast_append)
  have loc: "locate f (device_file dir i) = Some ?x" if "is_dir f (K @ [''devices''])"
    using locate_child [OF assms(2), of f "devices_dir dir" "K @ [''devices'']"]
      locate_child [of "''devices''" f dir K] assms(4,5) that
    by (simp add: device_file_def devices_dir_def)
  have nodir: "\<not> is_dir f ?x"
  proof
    assume "is_dir f ?x"
    with loc up have "fs_remove v (device_file dir i) f = Not_removed" by (simp add: fs_remove_def)
    with assms(6) show False by (simp add: remove_device_key_def)
  qed
  obtain g where g: "is_dir g = is_dir f" "locate g = locate f" "bt_get (fs_files g) ?x = None"
    "\<And>x c. bt_get (fs_files f) x = Some c \<Longrightarrow> x \<noteq> ?x \<Longrightarrow> bt_get (fs_files g) x = Some c"
    "f' = (case read_dir g (sessions_dir dir) of None \<Rightarrow> g | Some (k, es) \<Rightarrow> foldl (drop_session v i k) g es)"
  proof (cases "bt_get (fs_files f) ?x")
    case None
    have "locate f (device_file dir i) = Some y \<Longrightarrow> y = ?x" for y
      using locate_childD [OF assms(2), of f "devices_dir dir" y]
        locate_childD [of "''devices''" f dir] assms(4) by (auto simp: device_file_def devices_dir_def)
    then have "fs_remove v (device_file dir i) f \<in> {Not_found, Not_removed}"
      using None nodir by (auto simp: fs_remove_def split: option.splits)
    then show ?thesis using assms(6) None
      by (intro that [of f]) (auto simp: remove_device_key_def split: option.splits)
  next
    case (Some c)
    then have "fs_remove v (device_file dir i) f = Removed (put_file ?x None f)"
      using loc [OF up] nodir assms(3) by (simp add: fs_remove_def)
    then show ?thesis using assms(6)
      by (intro that [of "put_file ?x None f"]) (auto simp: remove_device_key_def split: option.splits)
  qed
  have "sr_device_id r \<noteq> i"
    if c: "bt_get (fs_files f') (K @ [''sessions'', n]) = Some c" "session_of v c = Some r" for n c r
  proof
    assume i: "sr_device_id r = i"
    have "is_dir f (K @ [''sessions''])"
      using fs_okD(5) [OF sh(1) c(1)] by (simp add: sh(2) butlast_append)
    then have "locate g (sessions_dir dir) = Some (K @ [''sessions''])" "is_dir g (K @ [''sessions''])"
      using locate_child [of "''sessions''" f dir K] assms(4,5) by (simp_all add: g sessions_dir_def)
    then obtain es where es: "f' = foldl (drop_session v i (K @ [''sessions''])) g es"
      "es = children (K @ [''sessions'']) Some (fs_files g) @ children (K @ [''sessions'']) (\<lambda>_. None) (fs_dirs g)"
      by (simp add: g(5) read_dir_def)
    have "bt_get (fs_files g) (K @ [''sessions'', n]) = Some c"
      using drop_sessions_files c(1) unfolding es(1) by blast
    then have "(K @ [''sessions'', n], c) \<in> set (fs_files g)" by (rule bt_get_in_set)
    then have "(n, Some c) \<in> set es"
      unfolding es(2) children_def by (force simp: butlast_append)
    from drop_sessions_gone [OF this c(2) i, of "K @ [''sessions'']" g] c(1) assms(3)
    show False by (simp add: es(1))
  qed
  moreover have "bt_get (fs_files f') ?x = None"
  proof (cases "bt_get (fs_files f') ?x")
    case (Some c)
    then have "bt_get (fs_files g) ?x = Some c"
      using g(5) by (auto split: option.splits dest: drop_sessions_files)
    with g(3) show ?thesis by simp
  qed
  ultimately show ?thesis using sh nodir by (auto simp: gone_def)
qed

section \<open>Requests in sequence\<close>

lemma locate_mono:
  "locate f p = Some k \<Longrightarrow> (\<And>x. is_dir f x \<Longrightarrow> is_dir g x) \<Longrightarrow> locate g p = Some k"
  unfolding locate_def by (erule walk_mono)

text \<open>A vouched key is the name of a file, not a path.\<close>

definition clean_vouch :: "device_op \<Rightarrow> bool" where
  "clean_vouch op = (case op of Vouch q _ _ \<Rightarrow> CHR ''/'' \<notin> set (vr_key q) | _ \<Rightarrow> True)"

text \<open>What a request does to the files and the directories.\<close>

lemma device_step_cases:
  assumes "fs_ok f" "url_safe (de_crypto d)"
    "clean_vouch op" "device_step d op (f, live) = (f', live')"
  obtains
    (login) q host now tok K where "op = Login q host now (Some tok)" "signed_login d q host now"
      "fst (nonce_consume (sq_nonce q) now live)" "has_device_key (login_dir d q) (sq_key q) f"
      "locate f (login_dir d q) = Some K" "is_dir f K"
      "grows (de_files d) K ''sessions'' (session_token_hash (de_crypto d) tok @ ''.json'') (session_content q now) f f'"
  | (vouch) q now r K where "op = Vouch q now r" "is_dir f K"
      "grows (de_files d) K ''devices'' (vr_key q @ ''.json'')
        (Json (enc_device_key \<lparr>dk_id = vr_key q, dk_label = vr_label q, dk_created_at = now\<rparr>)) f f'"
  | (shrink) "fs_ok f'" "is_dir f' = is_dir f"
      "\<And>x c. bt_get (fs_files f') x = Some c \<Longrightarrow> bt_get (fs_files f) x = Some c"
proof (cases op)
  case (Challenge now raw)
  then have "f' = f" using assms(4) by (auto split: outcome.splits prod.splits)
  then show thesis using assms(1) by (intro shrink) auto
next
  case (Login q host now raw)
  then obtain r where r: "login (de_crypto d) (de_files d) (de_lc d) (de_data d) q host now raw (f, live) = (r, f', live')"
    using assms(4) by (metis device_step.simps(2) prod.exhaust snd_conv)
  show thesis
    using login_grows [OF assms(1,2) r] assms(1) Login login shrink by blast
next
  case (Vouch q now r)
  then obtain r' where r: "vouch_device (de_anchored d) (de_files d) (de_lc d) (de_cfg d) (de_data d) (\<lambda>_ _ _. r) q now f = (r', f')"
    using assms(4) by (metis device_step.simps(3) prod.exhaust snd_conv fst_conv)
  show thesis
    using vouch_grows [OF assms(1) _ r] assms(1,3) Vouch vouch shrink by (auto simp: clean_vouch_def)
next
  case (Revoke domain localpart i)
  then obtain b where "remove_device_key (de_files d) (account_dir (de_data d) domain localpart) i f = (b, f')"
    using assms(4) by (metis device_step.simps(4) prod.exhaust snd_conv fst_conv)
  from remove_device_shrinks [OF assms(1) this] show thesis by (intro shrink) auto
qed

lemma enc_device_no_session: "dec_session (enc_device_key r) = None"
  by (simp add: dec_session_def enc_device_key_def req_def field_struct)

lemma session_of_content:
  "session_of v (session_content q now) = Some r \<Longrightarrow> sr_device_id r = sq_key q \<and> sr_expires_at r = now + session_ttl"
  by (auto simp: session_of_def session_content_def as_json_def dec_session_def enc_session_def req_def field_struct
      dec_str_def as_str_def dec_i64_def split: if_splits)

lemma json_not_sub: "i @ ''.json'' = ''devices'' \<longleftrightarrow> False" "i @ ''.json'' = ''sessions'' \<longleftrightarrow> False"
  using arg_cong [of "i @ ''.json''" "''devices''" last] arg_cong [of "i @ ''.json''" "''sessions''" last]
  by (auto simp del: append_eq_Cons_conv)

text \<open>Once a device is gone, only a new vouch brings it back.\<close>

lemma gone_grows:
  assumes g: "gone v K i f" and gr: "grows v K' sub name c f f'"
    and sub: "sub = ''devices'' \<or> sub = ''sessions''"
    and benign: "\<And>x c'. f_io v x = Some (Some c') \<Longrightarrow> session_of v c' = None"
    and dev: "sub = ''devices'' \<Longrightarrow> name \<noteq> i @ ''.json''"
    and ses: "\<And>r. sub = ''sessions'' \<Longrightarrow> K' = K \<Longrightarrow> session_of v c = Some r \<Longrightarrow> sr_device_id r \<noteq> i"
    and dev': "sub = ''devices'' \<Longrightarrow> session_of v c = None"
  shows "gone v K i f'"
proof -
  note gr' = gr [unfolded grows_def] and g' = g [unfolded gone_def]
  have "\<not> is_dir f' (K @ [''devices'', i @ ''.json''])"
    using gr' g' sub json_not_sub [of i] by (auto dest!: spec [of _ "K @ [''devices'', i @ ''.json'']"])
  moreover have "bt_get (fs_files f') (K @ [''devices'', i @ ''.json'']) = None"
  proof (cases "bt_get (fs_files f') (K @ [''devices'', i @ ''.json''])")
    case (Some c')
    with gr' g' have "K @ [''devices'', i @ ''.json''] = K' @ [sub, name]" by force
    with dev show ?thesis by simp
  qed
  moreover have "sr_device_id r \<noteq> i"
    if c': "bt_get (fs_files f') (K @ [''sessions'', n]) = Some c'" "session_of v c' = Some r" for n c' r
  proof -
    from gr' c'(1) consider "bt_get (fs_files f) (K @ [''sessions'', n]) = Some c'"
      | "K @ [''sessions'', n] = K' @ [sub, name]" "c' = c \<or> f_io v (K @ [''sessions'', n]) = Some (Some c')" by blast
    then show ?thesis
    proof cases
      case 1
      with g' c'(2) show ?thesis by blast
    next
      case 2
      with ses [of r] c'(2) benign show ?thesis by auto
    qed
  qed
  ultimately show ?thesis using gr' by (auto simp: gone_def)
qed

text \<open>A disk whose failures do not forge: removals work, and a failed write leaves no readable session.\<close>

definition benign :: "fenv \<Rightarrow> bool" where
  "benign v \<longleftrightarrow> (\<forall>x. \<not> f_kept v x) \<and> (\<forall>x c. f_io v x = Some (Some c) \<longrightarrow> session_of v c = None)"

definition vouches_other :: "string \<Rightarrow> device_op \<Rightarrow> bool" where
  "vouches_other i op = (case op of Vouch q _ _ \<Rightarrow> vr_key q \<noteq> i \<and> CHR ''/'' \<notin> set (vr_key q) | _ \<Rightarrow> True)"

lemma gone_step:
  assumes "gone (de_files d) K i f" "url_safe (de_crypto d)" "benign (de_files d)" "vouches_other i op"
    "CHR ''/'' \<notin> set i" "locate f dir = Some K" "device_step d op (f, live) = (f', live')"
  shows "gone (de_files d) K i f' \<and> locate f' dir = Some K"
proof -
  have ok: "fs_ok f" using assms(1) by (simp add: gone_def)
  have quiet: "\<And>x c'. f_io (de_files d) x = Some (Some c') \<Longrightarrow> session_of (de_files d) c' = None"
    using assms(3) by (simp add: benign_def)
  have v: "clean_vouch op"
    using assms(4) by (simp add: vouches_other_def clean_vouch_def split: device_op.splits)
  show ?thesis
  proof (rule device_step_cases [OF ok assms(2) v assms(7)])
    fix q host now tok K'
    assume l: "has_device_key (login_dir d q) (sq_key q) f" "locate f (login_dir d q) = Some K'"
      "grows (de_files d) K' ''sessions'' (session_token_hash (de_crypto d) tok @ ''.json'') (session_content q now) f f'"
    have "sr_device_id r \<noteq> i" if "K' = K" "session_of (de_files d) (session_content q now) = Some r" for r
    proof
      assume "sr_device_id r = i"
      with session_of_content [OF that(2)] have "sq_key q = i" by simp
      with device_dir_there [OF ok plain_json [OF assms(5)], of "login_dir d q"] l(1,2) that(1) assms(1)
      show False by (auto simp: gone_def)
    qed
    then have "gone (de_files d) K i f'" by (intro gone_grows [OF assms(1) l(3) _ quiet]) auto
    with l(3) assms(6) show ?thesis by (auto simp: grows_def intro: locate_mono)
  next
    fix q now r K'
    assume "op = Vouch q now r" and gr: "grows (de_files d) K' ''devices'' (vr_key q @ ''.json'')
        (Json (enc_device_key \<lparr>dk_id = vr_key q, dk_label = vr_label q, dk_created_at = now\<rparr>)) f f'"
    then have "vr_key q \<noteq> i" using assms(4) by (simp add: vouches_other_def)
    then have "gone (de_files d) K i f'"
      by (intro gone_grows [OF assms(1) gr _ quiet]) (auto simp: session_of_def as_json_def enc_device_no_session)
    with gr assms(6) show ?thesis by (auto simp: grows_def intro: locate_mono)
  next
    assume sh: "fs_ok f'" "is_dir f' = is_dir f"
      "\<And>x c. bt_get (fs_files f') x = Some c \<Longrightarrow> bt_get (fs_files f) x = Some c"
    have "bt_get (fs_files f') (K @ [''devices'', i @ ''.json'']) = None"
      using sh(3) assms(1) by (cases "bt_get (fs_files f') (K @ [''devices'', i @ ''.json''])") (auto simp: gone_def)
    with sh(1) assms(1) have "gone (de_files d) K i f'"
      unfolding gone_def sh(2) by (intro conjI allI impI) (simp_all, blast dest: sh(3))
    with sh(2) assms(6) show ?thesis by (simp add: locate_def)
  qed
qed

lemma gone_steps:
  assumes "gone (de_files d) K i f" "url_safe (de_crypto d)" "benign (de_files d)"
    "list_all (vouches_other i) ops" "CHR ''/'' \<notin> set i" "locate f dir = Some K"
    "device_steps d ops (f, live) = (f', live')"
  shows "gone (de_files d) K i f' \<and> locate f' dir = Some K"
  using assms(1,4,6,7)
proof (induction ops arbitrary: f live)
  case (Cons op ops)
  obtain f1 live1 where s: "device_step d op (f, live) = (f1, live1)" by (metis prod.exhaust)
  have "vouches_other i op" "list_all (vouches_other i) ops" using Cons.prems(2) by simp_all
  from gone_step [OF Cons.prems(1) assms(2,3) this(1) assms(5) Cons.prems(3) s] this(2)
  show ?case using Cons.prems(4) s by (intro Cons.IH [of f1 live1]) (auto simp: device_steps_def)
qed (simp add: device_steps_def)

lemma gone_no_session:
  assumes "gone v K i f" "url_safe k" "locate f dir = Some K"
  shows "check_session_token k v dir token now f \<noteq> Some i"
proof
  assume "check_session_token k v dir token now f = Some i"
  then obtain raw c r where c: "fs_read f (session_file dir (session_token_hash k raw)) = Some c"
    "session_of v c = Some r" "sr_device_id r = i"
    by (auto simp: check_session_token_def bind_eq_Some_conv split: if_splits)
  then obtain x where x: "locate f (session_file dir (session_token_hash k raw)) = Some x"
    "bt_get (fs_files f) x = Some c" by (auto simp: fs_read_def bind_eq_Some_conv)
  from locate_childD [OF hash_plain [OF assms(2)] x(1) [unfolded session_file_def]]
    locate_childD [of "''sessions''" f dir] assms(3)
  have "x = K @ [''sessions'', session_token_hash k raw @ ''.json'']" by (auto simp: sessions_dir_def)
  with x c assms(1) show False by (auto simp: gone_def)
qed

text \<open>
  C15. A revoked device is out. After a revocation that answered success, and any further
  requests among which nobody vouches for the device again, no token opens a session of that
  device in the account, however long it had still to run, and the device cannot log in.
\<close>

theorem revoked_device_is_out:
  assumes "fs_ok f" "url_safe (de_crypto d)" "benign (de_files d)" "CHR ''/'' \<notin> set i"
    "locate f (account_dir (de_data d) domain localpart) = Some K" "is_dir f K"
    "remove_device_key (de_files d) (account_dir (de_data d) domain localpart) i f = (True, f1)"
    "list_all (vouches_other i) ops" "device_steps d ops (f1, live) = (f2, live2)"
  shows "check_session_token (de_crypto d) (de_files d) (account_dir (de_data d) domain localpart) token now f2 \<noteq> Some i \<and>
    (sq_key q = i \<and> login_dir d q = account_dir (de_data d) domain localpart \<longrightarrow>
      \<not> is_ok (fst (login (de_crypto d) (de_files d) (de_lc d) (de_data d) q host now raw (f2, live2))))"
proof -
  let ?dir = "account_dir (de_data d) domain localpart"
  have "gone (de_files d) K i f1"
    using remove_device_gone [OF assms(1) plain_json [OF assms(4)] _ assms(5-7)] assms(3) by (simp add: benign_def)
  moreover have "locate f1 ?dir = Some K"
    using assms(5) remove_device_shrinks [OF assms(1,7)] by (simp add: locate_def)
  ultimately have g: "gone (de_files d) K i f2" "locate f2 ?dir = Some K"
    using gone_steps [OF _ assms(2,3,8,4) _ assms(9)] by blast+
  have "\<not> has_device_key ?dir i f2"
    using device_dir_there [OF _ plain_json [OF assms(4)]] g by (fastforce simp: gone_def)
  then have "\<not> is_ok (fst (login (de_crypto d) (de_files d) (de_lc d) (de_data d) q host now raw (f2, live2)))"
    if "sq_key q = i" "login_dir d q = ?dir"
    using that
    by (auto simp: login_def login_dir_def account_of_def Let_def verify_device_session_def is_ok_def
        split: prod.splits bool.splits if_splits)
  with gone_no_session [OF g(1) assms(2) g(2)] show ?thesis by blast
qed

section \<open>Where a session comes from\<close>

lemma device_steps_snoc: "device_steps d (ops @ [op]) s = device_step d op (device_steps d ops s)"
  by (simp add: device_steps_def)

lemma in_set_bt_ins: "x \<in> set (bt_ins k v m) \<Longrightarrow> x = (k, v) \<or> x \<in> set m"
  by (induction k v m rule: bt_ins.induct) (auto split: if_splits)

text \<open>The nonces alive after a request.\<close>

lemma device_step_nonces:
  assumes "device_step d op (f, live) = (f', live')" "(n, exp) \<in> set live'"
  shows "(n, exp) \<in> set live \<or>
    (\<exists>now r. op = Challenge now (Some r) \<and> n = url_raw (de_crypto d) r \<and> exp = now + nonce_ttl)"
proof (cases op)
  case (Challenge now raw)
  then show ?thesis
    using assms by (auto simp: nonce_issue_def Let_def split: option.splits dest: in_set_bt_ins)
next
  case (Login q host now raw)
  then have "live' = snd (nonce_consume (sq_nonce q) now live)"
    using assms(1) by (auto simp: login_def Let_def split: prod.splits bool.splits sum.splits option.splits if_splits)
  then show ?thesis using assms(2) by (auto simp: nonce_consume_def bt_del_def split: option.splits if_splits)
qed (use assms in auto)

definition issues :: "device_env \<Rightarrow> string \<Rightarrow> device_op \<Rightarrow> bool" where
  "issues d n op = (case op of Challenge _ (Some r) \<Rightarrow> url_raw (de_crypto d) r = n | _ \<Rightarrow> False)"

lemma spent_stays_spent:
  assumes "n \<notin> fst ` set live" "list_all (\<lambda>op. \<not> issues d n op) ops" "device_steps d ops (f, live) = (f', live')"
  shows "n \<notin> fst ` set live'"
  using assms
proof (induction ops arbitrary: f live)
  case (Cons op ops)
  obtain f1 live1 where s: "device_step d op (f, live) = (f1, live1)" by (metis prod.exhaust)
  have "n \<notin> fst ` set live1"
  proof
    assume "n \<in> fst ` set live1"
    then obtain exp where "(n, exp) \<in> set live1" by auto
    from device_step_nonces [OF s this] show False
      using Cons.prems(1,2) by (auto simp: issues_def image_iff)
  qed
  from Cons.IH [OF this] Cons.prems(2,3) s show ?case by (simp add: device_steps_def)
qed (simp add: device_steps_def)

text \<open>
  C16. A login cannot be replayed. Once a login has been tried with a nonce, whether it was let in
  or not, every later login with that nonce is refused, whatever is asked in between, until the
  relay hands the same nonce out again.
\<close>

theorem login_is_not_replayed:
  assumes "device_step d (Login q host now raw) (f, live) = (f1, live1)"
    "list_all (\<lambda>op. \<not> issues d (sq_nonce q) op) ops" "device_steps d ops (f1, live1) = s"
    "sq_nonce q' = sq_nonce q"
  shows "fst (login (de_crypto d) (de_files d) (de_lc d) (de_data d) q' host' now' raw' s) = Inl SessionRejected"
proof -
  have "live1 = snd (nonce_consume (sq_nonce q) now live)"
    using assms(1) by (auto simp: login_def Let_def split: prod.splits bool.splits sum.splits option.splits if_splits)
  then have "sq_nonce q \<notin> fst ` set live1"
    by (auto simp: nonce_consume_def bt_del_def bt_get_None split: option.splits)
  then have "sq_nonce q \<notin> fst ` set (snd s)"
    using spent_stays_spent [OF _ assms(2), of live1 f1 "fst s" "snd s"] assms(3) by simp
  then have "bt_get (snd s) (sq_nonce q') = None" by (simp add: bt_get_None assms(4))
  then show ?thesis by (cases s) (simp add: login_def nonce_consume_def)
qed

text \<open>
  A login of the sequence that accounts for a session in the account directory \<open>K\<close>: when it was
  made, after \<open>before\<close>, its device key was on file in that directory; it was signed by that key, on a
  nonce that the relay had issued before.
\<close>

definition login_after ::
  "device_env \<Rightarrow> fs \<Rightarrow> node_path \<Rightarrow> device_op list \<Rightarrow> session_request \<Rightarrow> string \<Rightarrow> int \<Rightarrow> bool" where
  "login_after d f K before q host t \<longleftrightarrow>
    (\<exists>f1 live1. device_steps d before (f, []) = (f1, live1) \<and>
       locate f1 (login_dir d q) = Some K \<and> has_device_key (login_dir d q) (sq_key q) f1) \<and>
    signed_login d q host t \<and>
    (\<exists>c rn. Challenge c (Some rn) \<in> set before \<and> sq_nonce q = url_raw (de_crypto d) rn \<and> t < c + nonce_ttl)"

definition accounts_for :: "device_env \<Rightarrow> fs \<Rightarrow> device_op list \<Rightarrow> node_path \<Rightarrow> string \<Rightarrow> session_record \<Rightarrow> bool" where
  "accounts_for d f ops K h r \<longleftrightarrow> (\<exists>before q host t tok later. ops = before @ Login q host t (Some tok) # later \<and>
    login_after d f K before q host t \<and> h = session_token_hash (de_crypto d) tok \<and>
    sr_device_id r = sq_key q \<and> sr_expires_at r = t + session_ttl)"

definition accounted :: "device_env \<Rightarrow> fs \<Rightarrow> device_op list \<Rightarrow> node_path \<Rightarrow> fs \<times> nonce_store \<Rightarrow> bool" where
  "accounted d f0 ops K s \<longleftrightarrow> device_steps d ops (f0, []) = s \<and> fs_ok (fst s) \<and>
    (\<forall>n c r. bt_get (fs_files (fst s)) (K @ [''sessions'', n]) = Some c \<longrightarrow> session_of (de_files d) c = Some r \<longrightarrow>
       (\<exists>h. n = h @ ''.json'' \<and> accounts_for d f0 ops K h r)) \<and>
    (\<forall>n exp. (n, exp) \<in> set (snd s) \<longrightarrow>
       (\<exists>c rn. Challenge c (Some rn) \<in> set ops \<and> n = url_raw (de_crypto d) rn \<and> exp = c + nonce_ttl))"

lemma accounts_for_mono: "accounts_for d f ops K h r \<Longrightarrow> accounts_for d f (ops @ [op]) K h r"
  unfolding accounts_for_def by (metis append_Cons append_assoc)

lemma accounted_nonces:
  assumes "accounted d f0 ops K (f, live)" "device_step d op (f, live) = (f', live')" "(n, exp) \<in> set live'"
  shows "\<exists>c rn. Challenge c (Some rn) \<in> set (ops @ [op]) \<and> n = url_raw (de_crypto d) rn \<and> exp = c + nonce_ttl"
proof -
  have "(n, exp) \<in> set live \<Longrightarrow> \<exists>c rn. Challenge c (Some rn) \<in> set ops \<and> n = url_raw (de_crypto d) rn \<and> exp = c + nonce_ttl"
    using assms(1) unfolding accounted_def snd_conv by blast
  then show ?thesis using device_step_nonces [OF assms(2,3)] by auto
qed

lemma accounted_files:
  assumes a: "accounted d f0 ops K (f, live)" and u: "url_safe (de_crypto d)" and b: "benign (de_files d)"
    and v: "clean_vouch op"
    and s: "device_step d op (f, live) = (f', live')"
  shows "fs_ok f'"
    "bt_get (fs_files f') (K @ [''sessions'', n]) = Some c \<Longrightarrow> session_of (de_files d) c = Some r \<Longrightarrow>
     \<exists>h. n = h @ ''.json'' \<and> accounts_for d f0 (ops @ [op]) K h r"
proof -
  have ok: "fs_ok f" using a by (simp add: accounted_def)
  have old: "\<exists>h. n = h @ ''.json'' \<and> accounts_for d f0 (ops @ [op]) K h r"
    if "bt_get (fs_files f) (K @ [''sessions'', n]) = Some c" "session_of (de_files d) c = Some r"
  proof -
    note c = that
    obtain h where "n = h @ ''.json''" "accounts_for d f0 ops K h r"
      using a c unfolding accounted_def fst_conv by blast
    then show ?thesis using accounts_for_mono by (intro exI [of _ h]) simp
  qed
  have quiet: "f_io (de_files d) x = Some (Some c') \<Longrightarrow> session_of (de_files d) c' = None" for x c'
    using b by (simp add: benign_def)
  show "fs_ok f'"
    by (rule device_step_cases [OF ok u v s]) (auto simp: grows_def)
  assume c: "bt_get (fs_files f') (K @ [''sessions'', n]) = Some c" "session_of (de_files d) c = Some r"
  show "\<exists>h. n = h @ ''.json'' \<and> accounts_for d f0 (ops @ [op]) K h r"
  proof (rule device_step_cases [OF ok u v s])
    fix q host now tok K'
    assume l: "op = Login q host now (Some tok)" "signed_login d q host now"
      "fst (nonce_consume (sq_nonce q) now live)" "has_device_key (login_dir d q) (sq_key q) f"
      "locate f (login_dir d q) = Some K'"
      "grows (de_files d) K' ''sessions'' (session_token_hash (de_crypto d) tok @ ''.json'') (session_content q now) f f'"
    from l(3) obtain exp where e: "bt_get live (sq_nonce q) = Some exp" "now < exp"
      by (auto simp: nonce_consume_def split: option.splits)
    then have "(sq_nonce q, exp) \<in> set live" by (intro bt_get_in_set)
    then obtain ch rn where ch: "Challenge ch (Some rn) \<in> set ops" "sq_nonce q = url_raw (de_crypto d) rn" "exp = ch + nonce_ttl"
      using a unfolding accounted_def snd_conv by blast
    show ?thesis
    proof (cases "bt_get (fs_files f) (K @ [''sessions'', n]) = Some c")
      case False
      with l(6) c(1) have "K @ [''sessions'', n] = K' @ [''sessions'', session_token_hash (de_crypto d) tok @ ''.json''] \<and>
        (c = session_content q now \<or> f_io (de_files d) (K @ [''sessions'', n]) = Some (Some c))"
        unfolding grows_def by blast
      then have k: "K' = K" "n = session_token_hash (de_crypto d) tok @ ''.json''"
        "c = session_content q now \<or> f_io (de_files d) (K @ [''sessions'', n]) = Some (Some c)" by (simp, simp, blast)
      have "device_steps d ops (f0, []) = (f, live)" using a by (simp add: accounted_def)
      then have "login_after d f0 K ops q host now"
        using l(2,4,5) k(1) ch e(2) unfolding login_after_def by auto
      then have "accounts_for d f0 (ops @ [op]) K (session_token_hash (de_crypto d) tok) r"
        if "c = session_content q now"
        unfolding accounts_for_def
        using l(1) session_of_content [OF c(2) [unfolded that]]
        by (intro exI [of _ ops] exI [of _ q] exI [of _ host] exI [of _ now] exI [of _ tok] exI [of _ "[]"]) simp
      moreover note k(2,3)
      ultimately show ?thesis using quiet c(2) by auto
    qed (use old c(2) in blast)
  next
    fix q now r' K'
    assume g: "grows (de_files d) K' ''devices'' (vr_key q @ ''.json'')
        (Json (enc_device_key \<lparr>dk_id = vr_key q, dk_label = vr_label q, dk_created_at = now\<rparr>)) f f'"
    with c(1) have "bt_get (fs_files f) (K @ [''sessions'', n]) = Some c \<or>
      K @ [''sessions'', n] = K' @ [''devices'', vr_key q @ ''.json'']" unfolding grows_def by blast
    then have "bt_get (fs_files f) (K @ [''sessions'', n]) = Some c" by simp
    with old c(2) show ?thesis by blast
  next
    assume "\<And>x c. bt_get (fs_files f') x = Some c \<Longrightarrow> bt_get (fs_files f) x = Some c"
    with old c show ?thesis by blast
  qed
qed

lemma accounted_steps:
  assumes "fs_ok f" "url_safe (de_crypto d)" "benign (de_files d)"
    "\<And>n. bt_get (fs_files f) (K @ [''sessions'', n]) = None"
    "list_all clean_vouch ops"
  shows "accounted d f ops K (device_steps d ops (f, []))"
  using assms(5)
proof (induction ops rule: rev_induct)
  case Nil
  then show ?case using assms(1,4) by (simp add: accounted_def device_steps_def)
next
  case (snoc op ops)
  obtain f1 live1 where s1: "device_steps d ops (f, []) = (f1, live1)" by (metis prod.exhaust)
  obtain f2 live2 where s2: "device_step d op (f1, live1) = (f2, live2)" by (metis prod.exhaust)
  have IH: "accounted d f ops K (f1, live1)" and v: "clean_vouch op" using snoc s1 by simp_all
  note fl = accounted_files [OF IH assms(2,3) v s2]
  show ?case
    unfolding device_steps_snoc s1 s2 accounted_def
    using fl(1) fl(2) accounted_nonces [OF IH s2] by simp
qed


lemma device_step_dirs:
  assumes "fs_ok f" "url_safe (de_crypto d)" "clean_vouch op"
    "device_step d op (f, live) = (f', live')"
  shows "fs_ok f' \<and> (\<forall>x. is_dir f x \<longrightarrow> is_dir f' x)"
  by (rule device_step_cases [OF assms]) (auto simp: grows_def)

lemma device_steps_dirs:
  assumes "fs_ok f" "url_safe (de_crypto d)" "list_all clean_vouch ops"
    "device_steps d ops (f, live) = (f', live')"
  shows "fs_ok f' \<and> (\<forall>x. is_dir f x \<longrightarrow> is_dir f' x)"
  using assms(1,3,4)
proof (induction ops arbitrary: f live)
  case (Cons op ops)
  obtain f1 live1 where s: "device_step d op (f, live) = (f1, live1)" by (metis prod.exhaust)
  have o: "fs_ok f1 \<and> (\<forall>x. is_dir f x \<longrightarrow> is_dir f1 x)"
    by (rule device_step_dirs [OF Cons.prems(1) assms(2) _ s]) (use Cons.prems(2) in simp)
  have "device_steps d ops (f1, live1) = (f', live')" using Cons.prems(3) s by (simp add: device_steps_def)
  with Cons.IH [of f1 live1] o Cons.prems(2) show ?case by simp
qed (simp add: device_steps_def)

text \<open>
  C17. A session stems from a signed login of a device on file. If an account directory starts
  without sessions, then after any requests a token opens a session of a device only if some login
  among them created it. At the moment of that login the key of the device was on file in this very
  account directory, the login was signed by it, over the name of the host and a nonce that the relay
  had handed out before and that had not expired; and it is no longer ago than the token lives.
\<close>

theorem session_stems_from_login:
  assumes "fs_ok f" "url_safe (de_crypto d)" "benign (de_files d)" "locate f dir = Some K" "is_dir f K"
    "\<And>n. bt_get (fs_files f) (K @ [''sessions'', n]) = None"
    "list_all clean_vouch ops" "device_steps d ops (f, []) = (f', live)"
    "check_session_token (de_crypto d) (de_files d) dir token now f' = Some i"
  shows "\<exists>before q host t tok later raw f1 live1 c rn.
    ops = before @ Login q host t (Some tok) # later \<and> device_steps d before (f, []) = (f1, live1) \<and>
    locate f1 (login_dir d q) = Some K \<and> has_device_key (login_dir d q) i f1 \<and>
    sq_key q = i \<and> signed_login d q host t \<and> now \<le> t + session_ttl \<and>
    un_std (de_crypto d) token = Some raw \<and>
    session_token_hash (de_crypto d) raw = session_token_hash (de_crypto d) tok \<and>
    Challenge c (Some rn) \<in> set before \<and> sq_nonce q = url_raw (de_crypto d) rn \<and> t < c + nonce_ttl"
proof -
  let ?k = "de_crypto d"
  obtain raw c r where c: "un_std ?k token = Some raw" "fs_read f' (session_file dir (session_token_hash ?k raw)) = Some c"
    "session_of (de_files d) c = Some r" "now \<le> sr_expires_at r" "i = sr_device_id r"
    using assms(9) by (auto simp: check_session_token_def bind_eq_Some_conv split: if_splits)
  have "locate f' dir = Some K"
    using device_steps_dirs [OF assms(1,2,7,8)] assms(4) by (auto intro: locate_mono)
  moreover obtain x where x: "locate f' (session_file dir (session_token_hash ?k raw)) = Some x"
    "bt_get (fs_files f') x = Some c" using c(2) by (auto simp: fs_read_def bind_eq_Some_conv)
  ultimately have "x = K @ [''sessions'', session_token_hash ?k raw @ ''.json'']"
    using locate_childD [OF hash_plain [OF assms(2)] x(1) [unfolded session_file_def]]
      locate_childD [of "''sessions''" f' dir] by (auto simp: sessions_dir_def)
  moreover have "accounted d f ops K (f', live)"
    using accounted_steps [OF assms(1-3,6,7)] assms(8) by simp
  ultimately have "accounts_for d f ops K (session_token_hash ?k raw) r"
    using x(2) c(3) by (auto simp: accounted_def)
  then obtain before q host t tok later where l: "ops = before @ Login q host t (Some tok) # later"
    "login_after d f K before q host t" "session_token_hash ?k raw = session_token_hash ?k tok"
    "sr_device_id r = sq_key q" "sr_expires_at r = t + session_ttl" unfolding accounts_for_def by blast
  then obtain f1 live1 ch rn where "device_steps d before (f, []) = (f1, live1)"
    "locate f1 (login_dir d q) = Some K" "has_device_key (login_dir d q) (sq_key q) f1" "signed_login d q host t"
    "Challenge ch (Some rn) \<in> set before" "sq_nonce q = url_raw ?k rn" "t < ch + nonce_ttl"
    unfolding login_after_def by blast
  with l c(1,4,5) show ?thesis
    by (intro exI [of _ before] exI [of _ q] exI [of _ host] exI [of _ t] exI [of _ tok] exI [of _ later] exI [of _ raw]
        exI [of _ f1] exI [of _ live1] exI [of _ ch] exI [of _ rn]) simp
qed

section \<open>A key id is used as a path\<close>

lemma plain_slash_free: "plain c \<Longrightarrow> CHR ''/'' \<notin> set c"
  by (simp add: plain_def)

text \<open>
  The id of the device to revoke is used as a path. An id of the form
  \<open>../../<other account>/<name>\<close> makes the request of one account remove a JSON file of another
  account of the same domain.
\<close>

theorem revoke_reaches_other_accounts:
  assumes "locate f dir = Some (D @ [a])" "is_dir f (D @ [a])" "is_dir f (D @ [a, ''devices''])"
    "plain other" "plain (name @ ''.json'')" "is_dir f (D @ [other])"
    "\<not> is_dir f (D @ [other, name @ ''.json''])" "\<not> f_kept v (D @ [other, name @ ''.json''])"
  shows "bt_get (fs_files (snd (remove_device_key v dir (''../../'' @ other @ ''/'' @ name) f)))
    (D @ [other, name @ ''.json'']) = None"
proof -
  let ?i = "''../../'' @ other @ ''/'' @ name" and ?x = "D @ [other, name @ ''.json'']"
  have sp: "split_on (CHR ''/'') (?i @ ''.json'') = [''..'', ''..'', other, name @ ''.json'']"
    using split_on_append [of "CHR ''/''" other "name @ ''.json''"]
      plainD [OF assms(4)] plainD [OF assms(5)] by simp
  have "locate f (devices_dir dir) = Some (D @ [a, ''devices''])"
    using locate_child [of "''devices''" f dir "D @ [a]"] assms(1,2) by (simp add: devices_dir_def)
  then have "locate f (device_file dir ?i) = walk (is_dir f) (D @ [a, ''devices'']) [''..'', ''..'', other, name @ ''.json'']"
    using locate_join [of "?i @ ''.json''" f "devices_dir dir"] sp assms(3)
      walk_append [of "is_dir f" "[]" "split_on (CHR ''/'') (devices_dir dir)" "D @ [a, ''devices'']"]
    by (simp add: device_file_def locate_def)
  then have loc: "locate f (device_file dir ?i) = Some ?x"
    using assms(4-6) by (simp add: plain_def butlast_append)
  have "bt_get (fs_files (put_file ?x None f)) ?x = None" by simp
  then have "bt_get (fs_files (foldl (drop_session v ?i k) (put_file ?x None f) es)) ?x = None" for k es
    using drop_sessions_files [of v ?i k "put_file ?x None f" es ?x]
    by (cases "bt_get (fs_files (foldl (drop_session v ?i k) (put_file ?x None f) es)) ?x") auto
  moreover have "bt_get (fs_files (foldl (drop_session v ?i k) f es)) ?x = None"
    if "bt_get (fs_files f) ?x = None" for k es
    using drop_sessions_files [of v ?i k f es ?x] that
    by (cases "bt_get (fs_files (foldl (drop_session v ?i k) f es)) ?x") auto
  ultimately show ?thesis
    using loc assms(7,8) by (auto simp: remove_device_key_def fs_remove_def Let_def split: option.splits)
qed

section \<open>The hypotheses hold\<close>

definition demo_key :: string where "demo_key = ''kkkkkkkkkkkkkkkkkkkkkkkkkkkkkkkk''"
definition demo_sig :: string where "demo_sig = demo_key @ demo_key"
definition demo_crypto :: crypto where
  "demo_crypto = \<lparr>un_std = Some, un_std_raw = Some,
     un_url = (\<lambda>s. if CHR ''/'' \<in> set s then None else Some s),
     un_url_raw = (\<lambda>s. if CHR ''/'' \<in> set s then None else Some s), std = (\<lambda>r. r),
     url_raw = filter (\<lambda>c. c \<noteq> CHR ''/''), sha256 = (\<lambda>r. r), key_ok = (\<lambda>_. True),
     verifies = (\<lambda>k m s. s = k @ k)\<rparr>"
definition demo_dev :: device_env where
  "demo_dev = \<lparr>de_crypto = demo_crypto, de_files = \<lparr>f_parse = (\<lambda>_. None), f_print = (\<lambda>_. []), f_io = (\<lambda>_. None), f_kept = (\<lambda>_. False)\<rparr>,
     de_lc = ascii_lower, de_anchored = True, de_cfg = config_default\<lparr>anchor_url := ''a''\<rparr>, de_data = ''d''\<rparr>"
definition demo_fs :: fs where
  "demo_fs = \<lparr>fs_files = [([''d'', ''x'', ''ana'', ''auth_token_hash''], Text ''h'')],
     fs_dirs = bs_of [[''d''], [''d'', ''x''], [''d'', ''x'', ''ana'']]\<rparr>"
definition demo_login :: session_request where
  "demo_login = \<lparr>sq_username = ''Ana'', sq_domain = ''x'', sq_did = ''did'', sq_key = demo_key, sq_nonce = ''n'', sq_ts = 100, sq_sig = demo_sig\<rparr>"
definition demo_vouch :: vouch_request where
  "demo_vouch = \<lparr>vr_username = ''ana'', vr_domain = ''x'', vr_did = ''did'', vr_key = demo_key, vr_label = ''pc'', vr_bind_ts = 100, vr_sig = ''s''\<rparr>"



lemmas demo_defs = demo_dev_def demo_crypto_def demo_fs_def demo_vouch_def demo_login_def demo_key_def
  demo_sig_def config_default_def or_default_def bs_of_def less_char_def byte_def req_def

definition demo_start :: "device_op list" where
  "demo_start = [Challenge 100 (Some ''n''), Vouch demo_vouch 100 VOk, Login demo_login ''h'' 110 (Some ''tok'')]"

definition demo_in :: fs where
  "demo_in = fst (device_steps demo_dev demo_start (demo_fs, []))"

lemma demo_is_dir: "is_dir demo_fs k \<longleftrightarrow> k \<in> {[], [''d''], [''d'', ''x''], [''d'', ''x'', ''ana'']}"
  by (simp add: is_dir_def bs_mem_set demo_fs_def)

lemma demo_fs_ok: "fs_ok demo_fs"
proof -
  have "bt_ok (fs_dirs demo_fs)" by (simp add: demo_fs_def bs_of_def bt_ok_def bs_add_def)
  then show ?thesis
    unfolding fs_ok_def by (auto simp: demo_is_dir) (auto simp: demo_fs_def bt_ok_def bt_get_def split: if_splits)
qed

lemma demo_env_ok: "url_safe (de_crypto demo_dev)" "benign (de_files demo_dev)"
  by (auto simp: url_safe_def benign_def demo_dev_def demo_crypto_def split: if_splits)

theorem session_stems_from_login_witness:
  "\<exists>before q host t tok later raw f1 live1 c rn.
    demo_start = before @ Login q host t (Some tok) # later \<and>
    device_steps demo_dev before (demo_fs, []) = (f1, live1) \<and>
    locate f1 (login_dir demo_dev q) = Some [''d'', ''x'', ''ana''] \<and> has_device_key (login_dir demo_dev q) demo_key f1 \<and>
    sq_key q = demo_key \<and> signed_login demo_dev q host t \<and>
    120 \<le> t + session_ttl \<and> un_std (de_crypto demo_dev) ''tok'' = Some raw \<and>
    session_token_hash (de_crypto demo_dev) raw = session_token_hash (de_crypto demo_dev) tok \<and>
    Challenge c (Some rn) \<in> set before \<and> sq_nonce q = url_raw (de_crypto demo_dev) rn \<and> t < c + nonce_ttl"
proof (rule session_stems_from_login [OF demo_fs_ok demo_env_ok])
  show "locate demo_fs ''d/x/ana'' = Some [''d'', ''x'', ''ana'']" "is_dir demo_fs [''d'', ''x'', ''ana'']"
    "\<And>n. bt_get (fs_files demo_fs) ([''d'', ''x'', ''ana''] @ [''sessions'', n]) = None"
    by (simp_all add: demo_defs eval)
  show "list_all clean_vouch demo_start" by (simp add: demo_start_def clean_vouch_def demo_defs)
  show "device_steps demo_dev demo_start (demo_fs, []) = (demo_in, [])"
    by (simp add: demo_in_def demo_start_def device_steps_def demo_defs eval)
  show "check_session_token (de_crypto demo_dev) (de_files demo_dev) ''d/x/ana'' ''tok'' 120 demo_in = Some demo_key"
    by (simp add: demo_in_def demo_start_def device_steps_def demo_defs eval)
qed

theorem login_is_not_replayed_witness:
  "fst (login (de_crypto demo_dev) (de_files demo_dev) (de_lc demo_dev) (de_data demo_dev) demo_login ''h'' 111 (Some ''t2'')
     (device_steps demo_dev [Vouch demo_vouch 111 VOk] (device_steps demo_dev demo_start (demo_fs, [])))) = Inl SessionRejected"
  by (rule login_is_not_replayed [where ops = "[Vouch demo_vouch 111 VOk]", of demo_dev demo_login "''h''" 110 "Some ''tok''"
        "fst (device_steps demo_dev (take 2 demo_start) (demo_fs, []))"
        "snd (device_steps demo_dev (take 2 demo_start) (demo_fs, []))"
        "fst (device_steps demo_dev demo_start (demo_fs, []))" "snd (device_steps demo_dev demo_start (demo_fs, []))"])
     (simp_all add: demo_start_def device_steps_def issues_def)

lemma demo_in_eval:
  "demo_in = \<lparr>fs_files =
      [([''d'', ''x'', ''ana'', ''auth_token_hash''], Text ''h''),
       ([''d'', ''x'', ''ana'', ''devices'', demo_key @ ''.json''],
          Json (JObj [(''created_at'', JNum 100), (''id'', JStr demo_key), (''label'', JStr ''pc'')])),
       ([''d'', ''x'', ''ana'', ''sessions'', ''tok.json''],
          Json (JObj [(''device_id'', JStr demo_key), (''expires_at'', JNum 2592110)]))],
     fs_dirs = bs_of [[''d''], [''d'', ''x''], [''d'', ''x'', ''ana''], [''d'', ''x'', ''ana'', ''devices''],
       [''d'', ''x'', ''ana'', ''sessions'']]\<rparr>"
  by (simp add: demo_in_def demo_start_def device_steps_def demo_defs eval)

lemma demo_in_ok: "fs_ok demo_in"
  using device_steps_dirs [OF demo_fs_ok demo_env_ok(1), of demo_start "[]" demo_in "snd (device_steps demo_dev demo_start (demo_fs, []))"]
  by (simp add: demo_in_def demo_start_def clean_vouch_def demo_defs)

definition demo_out :: fs where
  "demo_out = snd (remove_device_key (de_files demo_dev) ''d/x/ana'' demo_key demo_in)"

lemma demo_account: "account_dir (de_data demo_dev) ''x'' ''ana'' = ''d/x/ana''"
  by (simp add: demo_dev_def eval)

theorem revoked_device_is_out_witness:
  "check_session_token (de_crypto demo_dev) (de_files demo_dev) ''d/x/ana'' ''tok'' 120 demo_out \<noteq> Some demo_key \<and>
   \<not> is_ok (fst (login (de_crypto demo_dev) (de_files demo_dev) (de_lc demo_dev) (de_data demo_dev) demo_login
     ''h'' 120 (Some ''t2'') (demo_out, [(''n'', 185)])))"
proof -
  have "remove_device_key (de_files demo_dev) ''d/x/ana'' demo_key demo_in = (True, demo_out)"
    unfolding demo_out_def by (simp add: demo_in_eval demo_defs eval)
  moreover have "locate demo_in ''d/x/ana'' = Some [''d'', ''x'', ''ana'']" "is_dir demo_in [''d'', ''x'', ''ana'']"
    by (simp_all add: demo_in_eval demo_defs eval)
  moreover have "device_steps demo_dev [Challenge 125 (Some ''n'')] (demo_out, []) = (demo_out, [(''n'', 185)])"
    by (simp add: device_steps_def demo_defs eval)
  moreover have "login_dir demo_dev demo_login = ''d/x/ana''" by (simp add: login_dir_def demo_defs eval)
  ultimately show ?thesis
    using revoked_device_is_out [where d = demo_dev and f = demo_in and i = demo_key and domain = "''x''"
        and localpart = "''ana''" and K = "[''d'', ''x'', ''ana'']" and ?f1.0 = demo_out
        and ops = "[Challenge 125 (Some ''n'')]" and live = "[]" and ?f2.0 = demo_out and ?live2.0 = "[(''n'', 185)]"
        and token = "''tok''" and now = 120 and q = demo_login and host = "''h''" and raw = "Some ''t2''",
        OF demo_in_ok demo_env_ok]
    by (simp add: demo_account vouches_other_def, simp add: demo_key_def demo_login_def)
qed

definition demo_pair :: fs where
  "demo_pair = demo_in\<lparr>fs_files := bt_ins [''d'', ''x'', ''ben'', ''envelope.json''] (Text ''secret'') (fs_files demo_in),
     fs_dirs := bs_add [''d'', ''x'', ''ben''] (fs_dirs demo_in)\<rparr>"

theorem revoke_reaches_other_accounts_witness:
  "bt_get (fs_files demo_pair) [''d'', ''x'', ''ben'', ''envelope.json''] = Some (Text ''secret'') \<and>
   bt_get (fs_files (snd (remove_device_key (de_files demo_dev) ''d/x/ana'' ''../../ben/envelope'' demo_pair)))
     [''d'', ''x'', ''ben'', ''envelope.json''] = None"
  using revoke_reaches_other_accounts [of demo_pair "''d/x/ana''" "[''d'', ''x'']" "''ana''" "''ben''" "''envelope''" "de_files demo_dev"]
  by (simp add: demo_pair_def demo_in_eval demo_defs eval plain_def)

end
