(* ===== verification/Mux.thy ===== *)
theory Mux
  imports Config
begin

text \<open>
  The routing of HTTP requests, \<open>crates/jmapsmtp/src/gomux.rs\<close>, and the table of routes,
  \<open>routes.rs\<close>. A path is matched as a prefix, after it has been cleaned as Go's \<open>ServeMux\<close> does.
\<close>

section \<open>Cleaning a path\<close>

text \<open>One segment onto the cleaned ones, which are kept last first, as \<open>push\<close> and \<open>pop\<close> see them.\<close>

definition clean_seg :: "string list \<Rightarrow> string \<Rightarrow> string list" where
  "clean_seg out seg =
    (if seg = [] \<or> seg = ''.'' then out
     else if seg = ''..'' then tl out
     else seg # out)"

definition lexical_clean :: "string \<Rightarrow> string" where
  "lexical_clean p =
    (let out = rev (foldl clean_seg [] (split_on (CHR ''/'') p)) in
     if out = [] then ''/'' else ''/'' @ join ''/'' out)"

definition clean_path :: "string \<Rightarrow> string" where
  "clean_path p =
    (if p = [] then ''/''
     else
       (let p' = (if is_prefix ''/'' p then p else ''/'' @ p); np = lexical_clean p' in
        if is_suffix ''/'' p' \<and> np \<noteq> ''/'' then np @ ''/'' else np))"

definition with_query :: "string \<Rightarrow> string \<Rightarrow> string" where
  "with_query path raw = (if raw = [] then path else path @ ''?'' @ raw)"

section \<open>The table\<close>

type_synonym 'h mux = "(string, 'h) btree"

definition redirect_status :: nat where
  "redirect_status = 307"

datatype 'h routed = Found string 'h | Redirect string | NotFound

text \<open>\<open>GoMux::handle\<close>: registering panics on an empty, relative or known pattern.\<close>

definition mux_handle :: "string \<Rightarrow> 'h \<Rightarrow> 'h mux \<Rightarrow> 'h mux outcome" where
  "mux_handle pattern h m =
    (if pattern = [] then Panic
     else if \<not> is_prefix ''/'' pattern then Panic
     else if bt_get m pattern \<noteq> None then Panic
     else Ret (bt_ins pattern h m))"

definition mux_patterns :: "'h mux \<Rightarrow> string list" where
  "mux_patterns m = bt_keys m"

text \<open>\<open>max_by_key\<close> gives the last of the longest.\<close>

fun longest :: "string option \<Rightarrow> string list \<Rightarrow> string option" where
  "longest best [] = best"
| "longest best (p # ps) =
    (case best of
       None \<Rightarrow> longest (Some p) ps
     | Some b \<Rightarrow> longest (Some (if length b \<le> length p then p else b)) ps)"

definition match_path :: "'h mux \<Rightarrow> string \<Rightarrow> string option" where
  "match_path m path =
    (if bt_get m path \<noteq> None then Some path
     else longest None (filter (\<lambda>p. is_suffix ''/'' p \<and> is_prefix p path) (bt_keys m)))"

definition route :: "'h mux \<Rightarrow> string \<Rightarrow> string \<Rightarrow> 'h routed" where
  "route m path raw =
    (let cleaned = clean_path path; matched = match_path m cleaned; slashed = cleaned @ ''/'' in
     if matched \<noteq> Some cleaned \<and> \<not> is_suffix ''/'' cleaned \<and> cleaned \<noteq> []
        \<and> match_path m slashed = Some slashed then
       Redirect (with_query slashed raw)
     else if cleaned \<noteq> path then Redirect (with_query cleaned raw)
     else (case matched of
             Some pattern \<Rightarrow> Found pattern (the (bt_get m pattern))
           | None \<Rightarrow> NotFound))"

section \<open>The routes\<close>

datatype guard = Open | Account | Bearer | SelfAuth

record route_spec =
  rs_pattern :: string
  rs_guard :: guard

definition spec :: "string \<Rightarrow> guard \<Rightarrow> route_spec" where
  "spec p g = \<lparr>rs_pattern = p, rs_guard = g\<rparr>"

definition always :: "route_spec list" where
  "always =
    [spec ''/.well-known/jmap'' Account, spec ''/jmap/api/'' Account, spec ''/jmap/eventsource/'' Account,
     spec ''/jmap/push/vapid-public-key'' Open, spec ''/jmap/push/subscribe'' Account,
     spec ''/jmap/push/unsubscribe'' Account,
     spec ''/.well-known/openpgpkey/policy'' Open, spec ''/.well-known/openpgpkey/hu/'' Open,
     spec ''/pgp/pubkey'' Open, spec ''/pgp/privkey'' Account, spec ''/pgp/peerkey'' Account,
     spec ''/setup'' SelfAuth, spec ''/auth/envelope'' Account, spec ''/auth/signup'' SelfAuth,
     spec ''/account/provision'' SelfAuth, spec ''/account/session/challenge'' Open,
     spec ''/account/session'' SelfAuth, spec ''/account/devices'' SelfAuth,
     spec ''/contacts'' Account, spec ''/contacts/'' Account, spec ''/account/delete'' Account,
     spec ''/account/alias'' Account, spec ''/account/migrate-to-scid'' Account,
     spec ''/account/storage'' Account, spec ''/account/storage/messages'' Account,
     spec ''/account/storage/export'' Account, spec ''/account/storage/purge-messages'' Account,
     spec ''/relay-info'' Open, spec ''/metrics'' Bearer, spec ''/admin/dashboard'' Open,
     spec ''/admin/accounts'' Bearer, spec ''/admin/accounts/'' Bearer]"

definition anchor_routes :: "route_spec list" where
  "anchor_routes = [spec ''/account/did'' Account, spec ''/admin/drain-anchor'' Bearer]"

definition custom_domain_routes :: "route_spec list" where
  "custom_domain_routes = [spec ''/domain/verify-token'' Account, spec ''/domain/add'' Account]"

definition blob_routes :: "route_spec list" where
  "blob_routes = [spec ''/jmap/upload/'' Account, spec ''/jmap/download/'' Account]"

text \<open>\<open>anchored\<close> is the build feature; the blob routes go before the event source.\<close>

definition route_specs :: "bool \<Rightarrow> config \<Rightarrow> bool \<Rightarrow> route_spec list" where
  "route_specs anchored cfg blob_api =
    (let before = takeWhile (\<lambda>s. rs_pattern s \<noteq> ''/jmap/eventsource/'') always;
         specs = (if blob_api then before @ blob_routes @ drop (length before) always else always) in
     specs @ (if anchored then anchor_routes else [])
       @ (if domain_verify_secret cfg \<noteq> [] then custom_domain_routes else []))"

fun mux_of :: "route_spec list \<Rightarrow> route_spec mux \<Rightarrow> route_spec mux outcome" where
  "mux_of [] m = Ret m"
| "mux_of (s # ss) m = bind_out (mux_handle (rs_pattern s) s m) (mux_of ss)"

definition build_mux :: "bool \<Rightarrow> config \<Rightarrow> bool \<Rightarrow> route_spec mux outcome" where
  "build_mux anchored cfg blob_api = mux_of (route_specs anchored cfg blob_api) []"

section \<open>Lemmas\<close>

lemma split_on_no_sep: "s \<in> set (split_on x p) \<Longrightarrow> x \<notin> set s"
  by (induction p arbitrary: s) (auto split: list.splits if_splits)

lemma clean_seg_plain:
  "list_all plain out \<Longrightarrow> CHR ''/'' \<notin> set s \<Longrightarrow> list_all plain (clean_seg out s)"
  by (cases out) (auto simp: clean_seg_def plain_def)

lemma clean_segs_plain:
  "list_all plain out \<Longrightarrow> list_all (\<lambda>s. CHR ''/'' \<notin> set s) segs \<Longrightarrow> list_all plain (foldl clean_seg out segs)"
  by (induction segs arbitrary: out) (simp_all add: clean_seg_plain)

lemma split_on_join:
  "list_all plain segs \<Longrightarrow> segs \<noteq> [] \<Longrightarrow> split_on (CHR ''/'') (join ''/'' segs) = segs"
proof (induction segs rule: induct_list012)
  case (2 s)
  then show ?case by (simp add: plain_def split_on_plain)
next
  case (3 s t ss)
  then show ?case by (simp add: plain_def split_on_append split_on_plain)
qed simp

lemma clean_plain: "list_all plain segs \<Longrightarrow> foldl clean_seg out segs = rev segs @ out"
  by (induction segs arbitrary: out) (auto simp: clean_seg_def plain_def)

text \<open>A cleaned path: the root, or plain segments, perhaps with a final slash.\<close>

definition clean :: "string \<Rightarrow> bool" where
  "clean p \<longleftrightarrow> p = ''/'' \<or>
    (\<exists>segs. segs \<noteq> [] \<and> list_all plain segs \<and>
      (p = ''/'' @ join ''/'' segs \<or> p = ''/'' @ join ''/'' segs @ ''/''))"

lemma lexical_clean_cases:
  obtains (root) "lexical_clean p = ''/''"
  | (segs) segs where "segs \<noteq> []" "list_all plain segs" "lexical_clean p = ''/'' @ join ''/'' segs"
proof -
  let ?out = "rev (foldl clean_seg [] (split_on (CHR ''/'') p))"
  have "list_all plain (foldl clean_seg [] (split_on (CHR ''/'') p))"
    by (rule clean_segs_plain) (auto simp: list_all_iff dest: split_on_no_sep)
  then have "list_all plain ?out" by (simp add: list_all_iff)
  then show thesis using that(1) that(2) [of ?out] by (cases "?out = []") (simp_all add: lexical_clean_def Let_def)
qed

lemma clean_clean_path: "clean (clean_path p)"
proof (cases "p = []")
  case False
  let ?p = "if is_prefix ''/'' p then p else ''/'' @ p"
  show ?thesis
    by (rule lexical_clean_cases [of ?p]) (use False in \<open>auto simp: clean_path_def Let_def clean_def\<close>)
qed (simp add: clean_path_def clean_def)

lemma join_not_slash: "list_all plain segs \<Longrightarrow> segs \<noteq> [] \<Longrightarrow> join ''/'' segs \<noteq> [] \<and> last (join ''/'' segs) \<noteq> CHR ''/''"
proof (induction segs rule: induct_list012)
  case (2 s)
  then show ?case by (cases s rule: rev_cases) (auto simp: plain_def)
qed auto

lemma lexical_clean_segs:
  "list_all plain segs \<Longrightarrow> segs \<noteq> [] \<Longrightarrow> lexical_clean (''/'' @ join ''/'' segs) = ''/'' @ join ''/'' segs"
  using clean_plain [of segs "[]"] split_on_join [of segs]
  by (simp add: lexical_clean_def clean_seg_def)


lemma clean_path_clean: "clean p \<Longrightarrow> clean_path p = p"
proof -
  assume "clean p"
  then consider "p = ''/''" | (leaf) segs where "segs \<noteq> []" "list_all plain segs" "p = ''/'' @ join ''/'' segs"
    | (dir) segs where "segs \<noteq> []" "list_all plain segs" "p = (''/'' @ join ''/'' segs) @ ''/''"
    unfolding clean_def by auto
  then show ?thesis
  proof cases
    case 1
    then show ?thesis by (simp add: clean_path_def lexical_clean_def clean_seg_def is_prefix_def is_suffix_def)
  next
    case leaf
    then have "\<not> is_suffix ''/'' p"
      using join_not_slash [of segs] by (cases "join ''/'' segs" rule: rev_cases) (auto simp: is_suffix_def is_prefix_def)
    then show ?thesis
      using lexical_clean_segs [OF leaf(2,1)] leaf(3) by (simp add: clean_path_def is_prefix_def)
  next
    case dir
    have "lexical_clean p = ''/'' @ join ''/'' segs"
      using clean_plain [OF dir(2), of "[]"] split_on_join [OF dir(2,1)] dir(1,3)
        split_on_append [of "CHR ''/''" "join ''/'' segs" "[]"]
      by (simp add: lexical_clean_def clean_seg_def)
    moreover have "join ''/'' segs \<noteq> []" using join_not_slash [OF dir(2,1)] by simp
    ultimately show ?thesis using dir(3) by (simp add: clean_path_def is_prefix_def is_suffix_def)
  qed
qed

lemma clean_slash: "clean p \<Longrightarrow> p \<noteq> [] \<Longrightarrow> \<not> is_suffix ''/'' p \<Longrightarrow> clean (p @ ''/'')"
  unfolding clean_def by (auto simp: is_suffix_def is_prefix_def)

text \<open>Which paths a route is found for.\<close>

definition redirect_target :: "'h mux \<Rightarrow> string \<Rightarrow> string" where
  "redirect_target m path =
    (let cleaned = clean_path path; slashed = cleaned @ ''/'' in
     if match_path m cleaned \<noteq> Some cleaned \<and> \<not> is_suffix ''/'' cleaned \<and> cleaned \<noteq> []
        \<and> match_path m slashed = Some slashed then slashed else cleaned)"

lemma route_redirect:
  "route m p q = Redirect t \<Longrightarrow> t = with_query (redirect_target m p) q"
  by (auto simp: route_def redirect_target_def Let_def split: if_splits option.splits)

text \<open>
  Redirects do not chain, and no handler sees a dot segment. The target of a redirect is
  itself routed without another redirect, whatever the table; and a handler is found only for a
  path that is clean: no empty, dot or dot-dot segment is left in it.
\<close>

theorem redirects_do_not_chain:
  "(\<forall>t. route m p q = Redirect t \<longrightarrow>
      t = with_query (redirect_target m p) q \<and> (\<forall>u. route m (redirect_target m p) q \<noteq> Redirect u)) \<and>
   (\<forall>pat h. route m p q = Found pat h \<longrightarrow> clean p)"
proof (intro conjI allI impI)
  fix t assume "route m p q = Redirect t"
  then show "t = with_query (redirect_target m p) q" by (rule route_redirect)
next
  fix u
  let ?c = "clean_path p"
  have c: "clean_path ?c = ?c" by (rule clean_path_clean [OF clean_clean_path])
  have "clean_path (?c @ ''/'') = ?c @ ''/''" if "\<not> is_suffix ''/'' ?c" "?c \<noteq> []"
    by (rule clean_path_clean [OF clean_slash [OF clean_clean_path that(2,1)]])
  with c show "route m (redirect_target m p) q \<noteq> Redirect u"
    by (auto simp: redirect_target_def route_def Let_def split: option.splits)
next
  fix pat h assume "route m p q = Found pat h"
  then have "clean_path p = p" by (auto simp: route_def Let_def split: if_splits option.splits)
  with clean_clean_path [of p] show "clean p" by simp
qed

lemma redirects_do_not_chain_witness:
  "route [(''/a/'', ())] ''//a'' ''q'' = Redirect ''/a/?q'' \<and>
   route [(''/a/'', ())] ''/a/'' ''q'' \<noteq> Redirect ''/a/?q'' \<and> clean ''/a/b''"
proof -
  note e = eval route_def match_path_def clean_path_def lexical_clean_def clean_seg_def with_query_def redirect_target_def
  have r: "route [(''/a/'', ())] ''//a'' ''q'' = Redirect ''/a/?q''" by (simp add: e)
  have t: "redirect_target [(''/a/'', ())] ''//a'' = ''/a/''" by (simp add: e)
  have f: "route [(''/a/'', ())] ''/a/b'' ''q'' = Found ''/a/'' ()" by (simp add: e)
  show ?thesis
    using r conjunct1 [OF redirects_do_not_chain [of "[(''/a/'', ())]" "''//a''" "''q''"]]
      conjunct2 [OF redirects_do_not_chain [of "[(''/a/'', ())]" "''/a/b''" "''q''"]] f
    unfolding t by blast
qed

lemma mux_of_ok:
  "distinct (map rs_pattern ss) \<Longrightarrow> list_all (\<lambda>s. is_prefix ''/'' (rs_pattern s)) ss \<Longrightarrow>
   \<forall>s \<in> set ss. bt_get m (rs_pattern s) = None \<Longrightarrow>
   \<exists>m'. mux_of ss m = Ret m' \<and>
     (\<forall>p. bt_get m' p = (case find (\<lambda>s. rs_pattern s = p) ss of Some s \<Rightarrow> Some s | None \<Rightarrow> bt_get m p))"
proof (induction ss arbitrary: m)
  case (Cons s ss)
  let ?m = "bt_ins (rs_pattern s) s m"
  have "rs_pattern s \<noteq> []" using Cons.prems(2) by (auto simp: is_prefix_def)
  then have h: "mux_handle (rs_pattern s) s m = Ret ?m"
    using Cons.prems by (simp add: mux_handle_def)
  have "\<forall>s' \<in> set ss. bt_get ?m (rs_pattern s') = None" using Cons.prems by (auto simp: image_iff)
  from Cons.IH [OF _ _ this] Cons.prems obtain m' where m': "mux_of ss ?m = Ret m'"
    "\<And>p. bt_get m' p = (case find (\<lambda>s. rs_pattern s = p) ss of Some s \<Rightarrow> Some s | None \<Rightarrow> bt_get ?m p)" by auto
  have "find (\<lambda>s'. rs_pattern s' = rs_pattern s) ss = None"
    using Cons.prems(1) by (auto simp: find_None_iff image_iff)
  with h m' show ?case by (auto split: option.splits)
qed simp

text \<open>
  The relay's table always builds: whatever the build and the configuration, no pattern is
  registered twice, so startup does not panic; and each pattern carries the guard of its entry.
\<close>

theorem routes_never_clash:
  "\<exists>m. build_mux anchored cfg blob_api = Ret m \<and>
    (\<forall>p. bt_get m p = find (\<lambda>s. rs_pattern s = p) (route_specs anchored cfg blob_api))"
proof -
  have d: "distinct (map rs_pattern (route_specs anchored cfg blob_api))"
    "list_all (\<lambda>s. is_prefix ''/'' (rs_pattern s)) (route_specs anchored cfg blob_api)"
    by (cases anchored; cases blob_api; cases "domain_verify_secret cfg = []";
        simp add: route_specs_def always_def anchor_routes_def custom_domain_routes_def blob_routes_def
        spec_def Let_def is_prefix_def)+
  have eta: "(case x of None \<Rightarrow> bt_get [] p | Some s \<Rightarrow> Some s) = x" for x :: "route_spec option" and p :: string
    by (cases x) simp_all
  from mux_of_ok [OF d, of "[]"] show ?thesis by (simp add: build_mux_def eta)
qed

end
