(* ===== verification/Codecs.thy ===== *)
theory Codecs
  imports Prelude
begin

text \<open>
  The two hand-written encodings of \<open>crates/jmapserver/src\<close>: \<open>base58.rs\<close> (arbitrary base
  conversion, leading zero bytes kept as leading \<open>1\<close>s) and \<open>zbase32.rs\<close> (five bits at a time,
  through a 32-bit accumulator whose high bits fall off). Both are proved to be inverted by
  their decoders, behind the contract \<open>codec\<close>.
\<close>

section \<open>The contract\<close>

locale codec =
  fixes enc :: "string \<Rightarrow> string" and dec :: "nat \<Rightarrow> string \<Rightarrow> string option" and ok :: "char \<Rightarrow> bool"
  assumes dec_enc: "dec (length s) (enc s) = Some s"
    and enc_chars: "list_all ok (enc s)"
begin

lemma enc_inj: "enc s = enc t \<Longrightarrow> length s = length t \<Longrightarrow> s = t"
  by (metis dec_enc option.inject)

lemma enc_avoids: "\<not> ok c \<Longrightarrow> c \<notin> set (enc s)"
  using enc_chars [of s] by (auto simp: list_all_iff)

end

section \<open>Numbers as digit lists\<close>

text \<open>Least significant digit first.\<close>

fun num :: "nat \<Rightarrow> nat list \<Rightarrow> nat" where
  "num b [] = 0"
| "num b (d # ds) = d + b * num b ds"

definition canonical :: "nat \<Rightarrow> nat list \<Rightarrow> bool" where
  "canonical b ds \<longleftrightarrow> list_all (\<lambda>d. d < b) ds \<and> (ds = [] \<or> last ds \<noteq> 0)"

lemma canonical_Cons: "canonical b (d # ds) \<longleftrightarrow> d < b \<and> canonical b ds \<and> (ds = [] \<longrightarrow> d \<noteq> 0)"
  by (auto simp: canonical_def)

lemma num_zero: "canonical b ds \<Longrightarrow> 1 < b \<Longrightarrow> num b ds = 0 \<Longrightarrow> ds = []"
  by (induction ds) (auto simp: canonical_Cons)

lemma num_inj: "canonical b ds \<Longrightarrow> canonical b es \<Longrightarrow> 1 < b \<Longrightarrow> num b ds = num b es \<Longrightarrow> ds = es"
proof (induction ds arbitrary: es)
  case Nil
  then show ?case using num_zero [of b es] by simp
next
  case (Cons d ds)
  from Cons.prems num_zero [of b "d # ds"] obtain e es' where es: "es = e # es'" by (cases es) auto
  have "d < b" "e < b" using Cons.prems es by (simp_all add: canonical_Cons)
  moreover from Cons.prems(4) es have "d + b * num b ds = e + b * num b es'" by simp
  ultimately have "d = e" "num b ds = num b es'"
    by (metis mod_mult_self2 mod_less, metis div_mult_self2 div_less add.left_neutral add.commute less_nat_zero_code)
  with Cons es show ?case by (auto simp: canonical_Cons)
qed

section \<open>Base 58\<close>

text \<open>Multiply by \<open>m\<close> and add the carry, in base \<open>b\<close>: the loop over the digits, and the loop that pushes the rest.\<close>

fun carry_digits :: "nat \<Rightarrow> nat \<Rightarrow> nat list" where
  "carry_digits b c = (if c = 0 \<or> b \<le> 1 then [] else (c mod b) # carry_digits b (c div b))"

declare carry_digits.simps [simp del]

fun mul_add :: "nat \<Rightarrow> nat \<Rightarrow> nat list \<Rightarrow> nat \<Rightarrow> nat list" where
  "mul_add b m [] c = carry_digits b c"
| "mul_add b m (d # ds) c = ((d * m + c) mod b) # mul_add b m ds ((d * m + c) div b)"

lemma num_carry: "1 < b \<Longrightarrow> num b (carry_digits b c) = c"
  by (induction b c rule: carry_digits.induct) (subst carry_digits.simps, simp)

lemma canonical_carry: "1 < b \<Longrightarrow> canonical b (carry_digits b c)"
proof (induction b c rule: carry_digits.induct)
  case (1 b c)
  show ?case
  proof (cases "c = 0")
    case False
    have "carry_digits b (c div b) = [] \<longrightarrow> c mod b \<noteq> 0"
      using num_carry [OF 1(2), of "c div b"] False 1(2) by (auto simp: mod_eq_0_iff_dvd dvd_div_eq_0_iff)
    with 1 False show ?thesis by (subst carry_digits.simps) (auto simp: canonical_Cons)
  qed (simp add: carry_digits.simps canonical_def)
qed

lemma num_mul_add: "1 < b \<Longrightarrow> num b (mul_add b m ds c) = num b ds * m + c"
  by (induction ds arbitrary: c) (auto simp: num_carry algebra_simps)

lemma canonical_mul_add:
  "1 < b \<Longrightarrow> 0 < m \<Longrightarrow> canonical b ds \<Longrightarrow> canonical b (mul_add b m ds c)"
proof (induction ds arbitrary: c)
  case (Cons d ds)
  let ?v = "d * m + c"
  have IH: "canonical b (mul_add b m ds (?v div b))" using Cons by (auto simp: canonical_Cons)
  have "mul_add b m ds (?v div b) = [] \<longrightarrow> ?v mod b \<noteq> 0"
  proof
    assume e: "mul_add b m ds (?v div b) = []"
    then have z: "num b ds * m + ?v div b = 0" using num_mul_add [OF Cons.prems(1), of m ds "?v div b"] by simp
    then have "ds = []" using num_zero [of b ds] Cons.prems by (auto simp: canonical_Cons)
    then have "d \<noteq> 0" using Cons.prems by (simp add: canonical_Cons)
    with z Cons.prems(1,2) show "?v mod b \<noteq> 0" by (simp add: div_eq_0_iff)
  qed
  with IH Cons.prems(1) show ?case by (auto simp: canonical_Cons)
qed (simp add: canonical_carry)

definition alphabet58 :: string where
  "alphabet58 = ''123456789ABCDEFGHJKLMNPQRSTUVWXYZabcdefghijkmnopqrstuvwxyz''"

text \<open>\<open>iter().position\<close> in an alphabet.\<close>

fun alpha_index :: "char \<Rightarrow> string \<Rightarrow> nat option" where
  "alpha_index c [] = None"
| "alpha_index c (x # xs) = (if x = c then Some 0 else map_option Suc (alpha_index c xs))"

definition b58_encode :: "string \<Rightarrow> string" where
  "b58_encode bytes =
    (let zeros = length (takeWhile (\<lambda>c. byte c = 0) bytes);
         digits = foldl (\<lambda>ds c. mul_add 58 256 ds (byte c)) [] bytes in
     replicate zeros (CHR ''1'') @ map (\<lambda>d. alphabet58 ! d) (rev digits))"

fun b58_digits :: "nat list \<Rightarrow> string \<Rightarrow> nat list option" where
  "b58_digits bs [] = Some bs"
| "b58_digits bs (c # s) =
    (case alpha_index c alphabet58 of
       None \<Rightarrow> None
     | Some i \<Rightarrow> b58_digits (mul_add 256 58 bs i) s)"

definition b58_decode :: "string \<Rightarrow> string option" where
  "b58_decode s =
    (let zeros = length (takeWhile (\<lambda>c. c = CHR ''1'') s) in
     case b58_digits [] (drop zeros s) of
       None \<Rightarrow> None
     | Some bs \<Rightarrow> Some (replicate zeros (chr 0) @ map chr (rev bs)))"


lemma alpha_index_nth:
  "distinct xs \<Longrightarrow> i < length xs \<Longrightarrow> alpha_index (xs ! i) xs = Some i"
  by (induction xs arbitrary: i) (auto simp: nth_Cons split: nat.splits)

lemma distinct58: "distinct alphabet58" "length alphabet58 = 58" "alphabet58 ! 0 = CHR ''1''"
  by (simp_all add: alphabet58_def)

lemma b58_digits_map:
  "list_all (\<lambda>d. d < 58) ds \<Longrightarrow>
   b58_digits bs (map (\<lambda>d. alphabet58 ! d) ds) = Some (foldl (\<lambda>bs d. mul_add 256 58 bs d) bs ds)"
  by (induction ds arbitrary: bs) (simp_all add: alpha_index_nth distinct58)

lemma foldl_mul_add:
  assumes "1 < b" "0 < m"
  shows "canonical b ds \<Longrightarrow> canonical b (foldl (mul_add b m) ds xs)"
    "num b (foldl (mul_add b m) ds xs) = num b ds * m ^ length xs + num m (rev xs)"
proof -
  show "canonical b ds \<Longrightarrow> canonical b (foldl (mul_add b m) ds xs)"
    using assms by (induction xs arbitrary: ds) (simp_all add: canonical_mul_add)
  have app: "num m (xs @ [x]) = num m xs + x * m ^ length xs" for x and xs :: "nat list"
    by (induction xs) (simp_all add: algebra_simps)
  show "num b (foldl (mul_add b m) ds xs) = num b ds * m ^ length xs + num m (rev xs)"
    using assms(1) by (induction xs arbitrary: ds) (simp_all add: num_mul_add app algebra_simps)
qed

text \<open>Converting the digits of a number from one base to the other and back.\<close>

lemma base_conversion:
  assumes "1 < b" "1 < m" "canonical m (rev xs)"
  shows "foldl (mul_add m b) [] (rev (foldl (mul_add b m) [] xs)) = rev xs"
proof (rule num_inj [of m])
  show "canonical m (foldl (mul_add m b) [] (rev (foldl (mul_add b m) [] xs)))"
    using assms foldl_mul_add(1) [of m b "[]"] by (simp add: canonical_def)
  show "num m (foldl (mul_add m b) [] (rev (foldl (mul_add b m) [] xs))) = num m (rev xs)"
    using assms foldl_mul_add(2) [of m b "[]"] foldl_mul_add(2) [of b m "[]" xs] by simp
qed (use assms in simp_all)

lemma foldl_zeros: "list_all (\<lambda>x. x = 0) zs \<Longrightarrow> foldl (mul_add b m) [] (zs @ xs) = foldl (mul_add b m) [] xs"
  by (induction zs) (simp_all add: carry_digits.simps)

lemma takeWhile_replicate:
  "takeWhile P ys = [] \<Longrightarrow> P x \<Longrightarrow> takeWhile P (replicate n x @ ys) = replicate n x"
  by (induction n) simp_all

theorem b58_decode_encode: "b58_decode (b58_encode s) = Some s"
proof -
  let ?z = "takeWhile (\<lambda>c. byte c = 0) s" and ?r = "dropWhile (\<lambda>c. byte c = 0) s"
  let ?ds = "foldl (mul_add 58 256) [] (map byte ?r)"
  have z: "?z = replicate (length ?z) (chr 0)"
    by (rule replicate_length_same [symmetric]) (auto dest!: set_takeWhileD intro: byte_eqD)
  have "map byte s = map byte ?z @ map byte ?r" by (simp flip: map_append)
  moreover have "list_all (\<lambda>x. x = 0) (map byte ?z)" by (auto simp: list_all_iff dest: set_takeWhileD)
  ultimately have ds: "foldl (\<lambda>ds c. mul_add 58 256 ds (byte c)) [] s = ?ds"
    by (metis foldl_zeros foldl_map)
  have "?r \<noteq> [] \<Longrightarrow> byte (hd ?r) \<noteq> 0" by (rule hd_dropWhile)
  then have "canonical 256 (rev (map byte ?r))"
    by (cases ?r) (auto simp: canonical_def list_all_iff)
  from base_conversion [OF _ _ this, of 58]
  have bk: "foldl (mul_add 256 58) [] (rev ?ds) = rev (map byte ?r)" by simp
  have c: "canonical 58 ?ds" by (rule foldl_mul_add(1)) (simp_all add: canonical_def)
  then have lt: "list_all (\<lambda>d. d < 58) (rev ?ds)" and ne: "?ds \<noteq> [] \<Longrightarrow> last ?ds \<noteq> 0"
    by (auto simp: canonical_def list_all_iff)
  let ?t = "map (\<lambda>d. alphabet58 ! d) (rev ?ds)"
  have enc: "b58_encode s = replicate (length ?z) (CHR ''1'') @ ?t" by (simp add: b58_encode_def ds)
  have "takeWhile (\<lambda>c. c = CHR ''1'') ?t = []"
  proof (cases "rev ?ds")
    case (Cons d xs)
    then have "last ?ds = d" "?ds \<noteq> []" by (metis hd_rev list.sel(1), metis rev.simps(1) list.distinct(1))
    with ne have "d \<noteq> 0" by simp
    moreover have "d < 58" using lt Cons by simp
    ultimately have "alphabet58 ! d \<noteq> alphabet58 ! 0"
      using nth_eq_iff_index_eq [OF distinct58(1), of d 0] distinct58(2) by simp
    then show ?thesis using Cons by (simp add: distinct58)
  qed simp
  then have tw: "takeWhile (\<lambda>c. c = CHR ''1'') (b58_encode s) = replicate (length ?z) (CHR ''1'')"
    unfolding enc by (rule takeWhile_replicate) simp
  have "b58_digits [] ?t = Some (rev (map byte ?r))" using b58_digits_map [OF lt, of "[]"] bk by simp
  then have "b58_decode (b58_encode s) = Some (replicate (length ?z) (chr 0) @ ?r)"
    unfolding b58_decode_def Let_def tw by (simp add: enc rev_map comp_def)
  then show ?thesis using z takeWhile_dropWhile_id [of "\<lambda>c. byte c = 0" s] by metis
qed

section \<open>z-base-32\<close>

unbundle bit_operations_syntax

definition zalphabet :: string where
  "zalphabet = ''ybndrfg8ejkmcpqxot1uwisza345h769''"

text \<open>
  The accumulator is a \<open>u32\<close>: a shift drops its high bits. \<open>z_emit\<close> is the inner loop, which
  pushes digits while five bits are left.
\<close>

fun z_emit :: "nat \<Rightarrow> 32 word \<Rightarrow> nat list \<Rightarrow> nat \<times> nat list" where
  "z_emit bits val out =
    (if 5 \<le> bits then z_emit (bits - 5) val (out @ [unat (drop_bit (bits - 5) val AND 31)])
     else (bits, out))"

declare z_emit.simps [simp del]

definition z_byte :: "nat \<times> 32 word \<times> nat list \<Rightarrow> char \<Rightarrow> nat \<times> 32 word \<times> nat list" where
  "z_byte st b =
    (case st of
       (bits, val, out) \<Rightarrow>
         (let val' = push_bit 8 val OR word_of_nat (byte b);
              (bits', out') = z_emit (bits + 8) val' out in
          (bits', val', out')))"

definition z_digits :: "string \<Rightarrow> nat list" where
  "z_digits data =
    (case foldl z_byte (0, 0, []) data of
       (bits, val, out) \<Rightarrow>
         if 0 < bits then out @ [unat (push_bit (5 - bits) val AND 31)] else out)"

definition z_encode :: "string \<Rightarrow> string" where
  "z_encode data = map (\<lambda>d. zalphabet ! d) (z_digits data)"

fun z_decode_loop :: "nat \<Rightarrow> nat \<times> 32 word \<times> string \<Rightarrow> string \<Rightarrow> (nat \<times> 32 word \<times> string) option" where
  "z_decode_loop n st [] = Some st"
| "z_decode_loop n st (c # s) =
    (case alpha_index c zalphabet of
       None \<Rightarrow> None
     | Some idx \<Rightarrow>
         (case st of
            (bits, val, out) \<Rightarrow>
              (let val' = push_bit 5 val OR word_of_nat idx; bits' = bits + 5 in
               if 8 \<le> bits' then
                 z_decode_loop n
                   (bits' - 8, val',
                    if length out < n then out @ [chr (unat (drop_bit (bits' - 8) val' AND 255))] else out) s
               else z_decode_loop n (bits', val', out) s)))"

definition z_decode :: "string \<Rightarrow> nat \<Rightarrow> string option" where
  "z_decode s n =
    (case z_decode_loop n (0, 0, []) s of
       None \<Rightarrow> None
     | Some (_, _, out) \<Rightarrow> if length out = n then Some out else None)"

subsection \<open>The accumulator as a number\<close>

lemma unat_shift_or:
  assumes "x < 2 ^ k" "k < 32"
  shows "unat (push_bit k v OR word_of_nat x :: 32 word) = (unat v mod 2 ^ (32 - k)) * 2 ^ k + x"
proof -
  have "(2::nat) ^ k < 2 ^ 32" using assms(2) by (rule power_strict_increasing) simp
  then have "x < 2 ^ 32" using assms(1) by simp
  then have x: "take_bit k x = x" "take_bit 32 x = x"
    using assms(1) by (simp_all add: take_bit_nat_eq_self)
  have "push_bit k (take_bit (32 - k) (unat v)) AND x = 0"
    by (subst x(1) [symmetric], rule bit_eqI) (simp add: bit_simps)
  then have "push_bit k (take_bit (32 - k) (unat v)) OR x = push_bit k (take_bit (32 - k) (unat v)) + x"
    by (simp add: disjunctive_add_eq_or)
  then show ?thesis
    by (simp add: unsigned_or_eq unsigned_push_bit_eq unsigned_of_nat x(2) take_bit_push_bit)
       (simp add: push_bit_eq_mult take_bit_eq_mod)
qed

lemma mod_smaller: "a \<le> b \<Longrightarrow> v mod 2 ^ b = N mod (2::nat) ^ b \<Longrightarrow> v mod 2 ^ a = N mod 2 ^ a"
  by (metis le_imp_power_dvd mod_mod_cancel)

lemma shift_cong:
  assumes "n \<le> j + k" "a mod 2 ^ j = c mod (2::nat) ^ j"
  shows "(a * 2 ^ k + x) mod 2 ^ n = (c * 2 ^ k + x) mod 2 ^ n"
proof -
  have "(y * 2 ^ k) mod 2 ^ (j + k) = y mod 2 ^ j * 2 ^ k" for y :: nat
    by (simp only: power_add mult_mod_left)
  then have "(a * 2 ^ k) mod 2 ^ (j + k) = (c * 2 ^ k) mod 2 ^ (j + k)"
    using assms(2) by (simp only:)
  then have "(a * 2 ^ k) mod 2 ^ n = (c * 2 ^ k) mod 2 ^ n"
    by (rule mod_smaller [OF assms(1)])
  then show ?thesis using mod_add_left_eq [of "a * 2 ^ k" "2 ^ n" x] mod_add_left_eq [of "c * 2 ^ k" "2 ^ n" x] by argo
qed

lemma shift_or_mod:
  assumes "x < 2 ^ k" "k < 32" "n \<le> 32" "n \<le> j + k" "unat v mod 2 ^ j = N mod 2 ^ j"
  shows "unat (push_bit k v OR word_of_nat x :: 32 word) mod 2 ^ n = (N * 2 ^ k + x) mod 2 ^ n"
proof -
  have "(unat v mod 2 ^ (32 - k) * 2 ^ k + x) mod 2 ^ n = (unat v * 2 ^ k + x) mod 2 ^ n"
    by (rule shift_cong [of n "32 - k" k]) (use assms(2,3) in simp_all)
  also have "\<dots> = (N * 2 ^ k + x) mod 2 ^ n" by (rule shift_cong [OF assms(4,5)])
  finally show ?thesis by (simp only: unat_shift_or [OF assms(1,2)])
qed

lemma unat_window: "unat (drop_bit k v AND 31 :: 32 word) = (unat v div 2 ^ k) mod 32"
  "unat (drop_bit k v AND 255 :: 32 word) = (unat v div 2 ^ k) mod 256"
proof -
  have w: "unat (drop_bit k v AND mask m) = (unat v div 2 ^ k) mod 2 ^ m" for m
  proof -
    have "unat v mod 2 ^ 32 = unat v" using unsigned_less [of v, where 'a = nat] by simp
    then show ?thesis
      by (simp only: take_bit_eq_mask [symmetric] unsigned_take_bit_eq unsigned_drop_bit_eq)
        (simp add: drop_bit_eq_div take_bit_eq_mod)
  qed
  show "unat (drop_bit k v AND 31 :: 32 word) = (unat v div 2 ^ k) mod 32"
    "unat (drop_bit k v AND 255 :: 32 word) = (unat v div 2 ^ k) mod 256"
    using w [of 5] w [of 8] by (simp_all add: mask_eq_exp_minus_1)
qed

lemma window_mod:
  assumes "w \<le> b" "v mod 2 ^ b = N mod (2::nat) ^ b"
  shows "(v div 2 ^ (b - w)) mod 2 ^ w = (N div 2 ^ (b - w)) mod 2 ^ w"
proof -
  have "take_bit w (drop_bit (b - w) a) = drop_bit (b - w) (take_bit b a)" for a :: nat
    using assms(1) by (simp add: drop_bit_take_bit)
  then show ?thesis using assms(2) by (metis take_bit_eq_mod drop_bit_eq_div)
qed

lemma div_step: "w \<le> b \<Longrightarrow> N div 2 ^ (b - w) = (N div 2 ^ b) * 2 ^ w + (N div 2 ^ (b - w)) mod (2::nat) ^ w"
proof -
  assume "w \<le> b"
  then have "N div 2 ^ b = (N div 2 ^ (b - w)) div 2 ^ w"
    by (simp add: div_mult2_eq [symmetric] flip: power_add)
  then show ?thesis using div_mult_mod_eq [of "N div 2 ^ (b - w)" "2 ^ w"] by simp
qed

text \<open>What has been taken in, as one number, is what has been put out and the pending low bits.\<close>

definition pending :: "nat \<Rightarrow> nat \<Rightarrow> 32 word \<Rightarrow> nat \<Rightarrow> bool" where
  "pending N bits val out \<longleftrightarrow> out = N div 2 ^ bits \<and> unat val mod 2 ^ bits = N mod 2 ^ bits"

lemma pending_shift:
  assumes "pending N bits val out" "x < 2 ^ k" "k < 32" "bits + k \<le> 32"
  shows "pending (N * 2 ^ k + x) (bits + k) (push_bit k val OR word_of_nat x) out"
proof -
  have "(N * 2 ^ k + x) div 2 ^ (bits + k) = N div 2 ^ bits"
    using assms(2) by (simp add: power_add mult.commute [of "2 ^ bits"] div_mult2_eq)
  with assms shift_or_mod [of x k "bits + k" bits val N] show ?thesis by (simp add: pending_def)
qed

lemma pending_out:
  assumes "pending N bits val out" "w \<le> bits" "x = (unat val div 2 ^ (bits - w)) mod 2 ^ w"
  shows "pending N (bits - w) val (out * 2 ^ w + x)"
  using assms window_mod [of w bits "unat val" N] div_step [of w bits N]
    mod_smaller [of "bits - w" bits "unat val" N]
  by (simp add: pending_def)

lemma num_snoc: "num b (rev (xs @ [x])) = num b (rev xs) * b + x"
  by simp

subsection \<open>Encoding\<close>

lemma z_emit_pending:
  assumes "pending N bits val (num 32 (rev out))" "list_all (\<lambda>d. d < 32) out" "z_emit bits val out = (bits', out')"
  shows "pending N bits' val (num 32 (rev out')) \<and> list_all (\<lambda>d. d < 32) out' \<and> bits' < 5 \<and>
    5 * length out' + bits' = 5 * length out + bits"
  using assms
proof (induction bits val out rule: z_emit.induct)
  case (1 bits val out)
  show ?case
  proof (cases "5 \<le> bits")
    case True
    let ?x = "unat (drop_bit (bits - 5) val AND 31)"
    have x: "?x = (unat val div 2 ^ (bits - 5)) mod 2 ^ 5" by (simp only: unat_window) simp
    have "pending N (bits - 5) val (num 32 (rev (out @ [?x])))"
      using pending_out [OF 1(2) True x] by (simp only: num_snoc) simp
    moreover have "?x < 32" by (simp add: x)
    moreover have "z_emit (bits - 5) val (out @ [?x]) = (bits', out')"
      using 1(4) True by (subst (asm) z_emit.simps) simp
    ultimately show ?thesis using 1(1) [OF True] 1(3) True by simp
  next
    case False
    with 1 show ?thesis by (simp add: z_emit.simps)
  qed
qed

definition z_inv :: "string \<Rightarrow> nat \<times> 32 word \<times> nat list \<Rightarrow> bool" where
  "z_inv B st \<longleftrightarrow> (case st of (bits, val, out) \<Rightarrow>
     pending (num 256 (rev (map byte B))) bits val (num 32 (rev out)) \<and> list_all (\<lambda>d. d < 32) out \<and> bits < 5 \<and>
     5 * length out + bits = 8 * length B)"

lemma z_byte_inv:
  assumes "z_inv B st"
  shows "z_inv (B @ [b]) (z_byte st b)"
proof -
  obtain bits val out where st: "st = (bits, val, out)" by (cases st)
  let ?N = "num 256 (rev (map byte B))" and ?v = "push_bit 8 val OR word_of_nat (byte b) :: 32 word"
  obtain bits' out' where e: "z_emit (bits + 8) ?v out = (bits', out')" by (metis prod.exhaust)
  have i: "pending ?N bits val (num 32 (rev out))" "bits < 5" "list_all (\<lambda>d. d < 32) out"
    "5 * length out + bits = 8 * length B" using assms st by (simp_all add: z_inv_def)
  have "pending (?N * 2 ^ 8 + byte b) (bits + 8) ?v (num 32 (rev out))"
    by (rule pending_shift) (use i byte_less [of b] in simp_all)
  from z_emit_pending [OF this i(3) e] st e i show ?thesis
    by (simp add: z_inv_def z_byte_def add.commute mult.commute)
qed

lemma z_inv_foldl: "z_inv A st \<Longrightarrow> z_inv (A @ B) (foldl z_byte st B)"
proof (induction B arbitrary: A st)
  case (Cons b B)
  from Cons.IH [OF z_byte_inv [OF Cons.prems, of b]] show ?case by simp
qed simp

text \<open>The digits are the number of the bytes, shifted by the padding bits.\<close>

lemma z_digits_num:
  "\<exists>p < 5. num 32 (rev (z_digits B)) = num 256 (rev (map byte B)) * 2 ^ p \<and>
     5 * length (z_digits B) = 8 * length B + p \<and> list_all (\<lambda>d. d < 32) (z_digits B)"
proof -
  obtain bits val out where st: "foldl z_byte (0, 0, []) B = (bits, val, out)" by (metis prod.exhaust)
  have "z_inv [] (0, 0, [])" by (simp add: z_inv_def pending_def)
  from z_inv_foldl [OF this, of B] st
  have i: "pending (num 256 (rev (map byte B))) bits val (num 32 (rev out))" "list_all (\<lambda>d. d < 32) out"
    "bits < 5" "5 * length out + bits = 8 * length B" by (simp_all add: z_inv_def)
  let ?N = "num 256 (rev (map byte B))"
  show ?thesis
  proof (cases "bits = 0")
    case True
    with i st show ?thesis by (intro exI [of _ 0]) (simp add: z_digits_def pending_def)
  next
    case False
    let ?x = "unat (push_bit (5 - bits) val AND 31)"
    have 5: "5 - bits < 32" "bits + (5 - bits) = 5" using i(3) by simp_all
    have p: "pending (?N * 2 ^ (5 - bits) + 0) (bits + (5 - bits)) (push_bit (5 - bits) val OR word_of_nat 0) (num 32 (rev out))"
      by (rule pending_shift) (use i 5 in simp_all)
    then have "pending (?N * 2 ^ (5 - bits)) 5 (push_bit (5 - bits) val) (num 32 (rev out))" using 5(2) by simp
    from pending_out [OF this, of 5 ?x]
    have "pending (?N * 2 ^ (5 - bits)) 0 (push_bit (5 - bits) val) (num 32 (rev out) * 32 + ?x)"
      using unat_window(1) [of 0 "push_bit (5 - bits) val"] by simp
    then have n: "num 32 (rev (out @ [?x])) = ?N * 2 ^ (5 - bits)" by (simp only: num_snoc) (simp add: pending_def)
    have "?x < 32" using unat_window(1) [of 0 "push_bit (5 - bits) val"] by simp
    with False i st n show ?thesis by (intro exI [of _ "5 - bits"]) (simp add: z_digits_def)
  qed
qed

subsection \<open>Decoding\<close>

lemma zalphabet: "distinct zalphabet" "length zalphabet = 32"
  by (simp_all add: zalphabet_def)

lemma z_decode_loop_map:
  assumes "list_all (\<lambda>d. d < 32) D" "list_all (\<lambda>d. d < 32) E" "5 * length (D @ E) < 8 * n + 8"
    "pending (num 32 (rev D)) bits val (num 256 (rev (map byte out)))" "bits < 8"
    "8 * length out + bits = 5 * length D"
  shows "\<exists>bits' val' out'. z_decode_loop n (bits, val, out) (map (\<lambda>d. zalphabet ! d) E) = Some (bits', val', out') \<and>
    pending (num 32 (rev (D @ E))) bits' val' (num 256 (rev (map byte out'))) \<and> bits' < 8 \<and>
    8 * length out' + bits' = 5 * length (D @ E)"
  using assms
proof (induction E arbitrary: D bits val out)
  case (Cons e E)
  have pos: "alpha_index (zalphabet ! e) zalphabet = Some e" and e: "e < 32"
    using Cons.prems(2) by (simp_all add: alpha_index_nth zalphabet)
  let ?v = "push_bit 5 val OR word_of_nat e :: 32 word"
  have "pending (num 32 (rev D) * 2 ^ 5 + e) (bits + 5) ?v (num 256 (rev (map byte out)))"
    by (rule pending_shift) (use Cons.prems e in simp_all)
  then have p: "pending (num 32 (rev (D @ [e]))) (bits + 5) ?v (num 256 (rev (map byte out)))"
    by (simp only: num_snoc) simp
  have D: "list_all (\<lambda>d. d < 32) (D @ [e])" "list_all (\<lambda>d. d < 32) E" "5 * length ((D @ [e]) @ E) < 8 * n + 8"
    using Cons.prems by simp_all
  show ?case
  proof (cases "8 \<le> bits + 5")
    case False
    then have "bits + 5 < 8" "8 * length out + (bits + 5) = 5 * length (D @ [e])" using Cons.prems(6) by simp_all
    from Cons.IH [OF D p this] False pos show ?thesis by simp
  next
    case True
    let ?x = "unat (drop_bit (bits + 5 - 8) ?v AND 255)"
    have x: "?x = (unat ?v div 2 ^ (bits + 5 - 8)) mod 2 ^ 8" by (simp only: unat_window) simp
    then have lt: "?x < 256" by simp
    have p': "pending (num 32 (rev (D @ [e]))) (bits + 5 - 8) ?v (num 256 (rev (map byte (out @ [chr ?x]))))"
      using pending_out [OF p True x] lt by (simp only: map_append list.map num_snoc) simp
    have "bits + 5 - 8 < 8" "8 * length (out @ [chr ?x]) + (bits + 5 - 8) = 5 * length (D @ [e])"
      using Cons.prems(5,6) True by simp_all
    from Cons.IH [OF D p' this] True pos Cons.prems(3,6) show ?thesis by simp
  qed
qed simp

lemma num_inj_length:
  "list_all (\<lambda>d. d < b) ds \<Longrightarrow> list_all (\<lambda>d. d < b) es \<Longrightarrow> length ds = length es \<Longrightarrow> num b ds = num b es \<Longrightarrow> ds = es"
proof (induction ds arbitrary: es)
  case (Cons d ds)
  from Cons.prems(3) obtain e es' where es: "es = e # es'" by (cases es) auto
  have "d < b" "e < b" "d + b * num b ds = e + b * num b es'" using Cons.prems es by simp_all
  then have "d = e" "num b ds = num b es'"
    by (metis mod_mult_self2 mod_less, metis div_mult_self2 div_less add.left_neutral add.commute less_nat_zero_code)
  with Cons es show ?case by simp
qed simp

lemma z_decode_encode: "z_decode (z_encode s) (length s) = Some s"
proof -
  obtain p where p: "p < 5" "num 32 (rev (z_digits s)) = num 256 (rev (map byte s)) * 2 ^ p"
    "5 * length (z_digits s) = 8 * length s + p" "list_all (\<lambda>d. d < 32) (z_digits s)"
    using z_digits_num [of s] by blast
  have "pending (num 32 (rev [])) 0 0 (num 256 (rev (map byte [])))" by (simp add: pending_def)
  from z_decode_loop_map [OF _ p(4) _ this, of "length s"] p(1,3)
  obtain bits val out where
    r: "z_decode_loop (length s) (0, 0, []) (z_encode s) = Some (bits, val, out)"
      "pending (num 32 (rev (z_digits s))) bits val (num 256 (rev (map byte out)))" "bits < 8"
      "8 * length out + bits = 8 * length s + p"
    by (auto simp: z_encode_def)
  from r(3,4) p(1) have len: "length out = length s" "bits = p" by presburger+
  have "num 256 (rev (map byte out)) = num 256 (rev (map byte s))"
    using r(2) p(2) len(2) by (simp add: pending_def)
  then have "rev (map byte out) = rev (map byte s)"
    using len(1) by (intro num_inj_length [of 256]) (auto simp: list_all_iff)
  then have "map byte out = map byte s" by simp
  then have "out = s" by (rule map_injective) (simp add: inj_def byte_inj)
  then show ?thesis using r(1) len(1) by (simp add: z_decode_def)
qed

end
