(* ===== verification/Bytes.thy ===== *)
theory Bytes
  imports Prelude
begin

text \<open>
  More of the standard library on text, shared by the readers of foreign input: lossy UTF-8,
  hexadecimal bytes, splitting at whitespace and outside quotes, and lemmas on searching.
\<close>

section \<open>Searching\<close>

lemma find_sub_Some:
  "find_sub s p = Some i \<Longrightarrow> i + length p \<le> length s \<and> take (length p) (drop i s) = p"
proof (induction s arbitrary: i)
  case (Cons c s)
  show ?case
  proof (cases "is_prefix p (c # s)")
    case True
    then have "length p \<le> length (c # s)" by (metis is_prefix_def length_take min.cobounded1)
    with True Cons.prems show ?thesis by (simp add: is_prefix_def)
  next
    case False
    with Cons show ?thesis by auto
  qed
qed (auto split: if_splits)

lemma is_prefix_append [simp]: "is_prefix p (p @ s)"
  by (simp add: is_prefix_def)

lemma is_prefix_iff: "is_prefix p s \<longleftrightarrow> (\<exists>t. s = p @ t)"
  by (metis append_take_drop_id is_prefix_append is_prefix_def)

lemma is_prefix_Nil [simp]: "is_prefix [] s" "is_prefix (c # p) [] = False"
  by (simp_all add: is_prefix_def)

lemma is_prefix_Cons [simp]: "is_prefix (a # p) (b # s) \<longleftrightarrow> a = b \<and> is_prefix p s"
  by (auto simp: is_prefix_def)

text \<open>The first occurrence: no earlier start of the text before it.\<close>

definition absent :: "string \<Rightarrow> string \<Rightarrow> string \<Rightarrow> bool" where
  "absent p s t \<longleftrightarrow> (\<forall>i < length s. \<not> is_prefix p (drop i s @ t))"

lemma absent_Nil [simp]: "absent p [] t"
  by (simp add: absent_def)

lemma absent_Cons: "absent p (c # s) t \<longleftrightarrow> \<not> is_prefix p (c # s @ t) \<and> absent p s t"
  by (auto simp: absent_def nth_Cons less_Suc_eq_0_disj)

lemma absent_append: "absent p (s @ u) t \<longleftrightarrow> absent p s (u @ t) \<and> absent p u t"
  by (induction s) (auto simp: absent_Cons)

lemma absent_hd: "p \<noteq> [] \<Longrightarrow> hd p \<notin> set s \<Longrightarrow> absent p s t"
  by (induction s) (auto simp: absent_Cons neq_Nil_conv)

lemma find_sub_first: "absent p s (p @ t) \<Longrightarrow> find_sub (s @ p @ t) p = Some (length s)"
proof (induction s)
  case Nil
  show ?case by (cases "p @ t") (simp_all, metis is_prefix_append)
next
  case (Cons c s)
  then show ?case by (simp add: absent_Cons)
qed

lemma find_sub_absent: "p \<noteq> [] \<Longrightarrow> absent p s [] \<Longrightarrow> find_sub s p = None"
  by (induction s) (auto simp: absent_Cons)

section \<open>Lossy UTF-8\<close>

text \<open>
  \<open>String::from_utf8_lossy\<close>. \<open>utf8_step\<close>: how many bytes the next character takes, or how many
  bytes of an ill-formed one are replaced by a single U+FFFD.
\<close>

definition cont_at :: "string \<Rightarrow> nat \<Rightarrow> bool" where
  "cont_at s i \<longleftrightarrow> i < length s \<and> is_cont (s ! i)"

definition second_ok :: "nat \<Rightarrow> string \<Rightarrow> bool" where
  "second_ok n s \<longleftrightarrow> cont_at s 1 \<and>
    (n = 224 \<longrightarrow> 160 \<le> byte (s ! 1)) \<and> (n = 237 \<longrightarrow> byte (s ! 1) < 160) \<and>
    (n = 240 \<longrightarrow> 144 \<le> byte (s ! 1)) \<and> (n = 244 \<longrightarrow> byte (s ! 1) < 144)"

definition utf8_step :: "string \<Rightarrow> bool \<times> nat" where
  "utf8_step s =
    (let n = byte (hd s) in
     if n < 128 then (True, 1)
     else if 194 \<le> n \<and> n \<le> 223 then (if cont_at s 1 then (True, 2) else (False, 1))
     else if 224 \<le> n \<and> n \<le> 239 then
       (if \<not> second_ok n s then (False, 1) else if cont_at s 2 then (True, 3) else (False, 2))
     else if 240 \<le> n \<and> n \<le> 244 then
       (if \<not> second_ok n s then (False, 1)
        else if \<not> cont_at s 2 then (False, 2)
        else if cont_at s 3 then (True, 4) else (False, 3))
     else (False, 1))"

definition replacement :: string where
  "replacement = map chr [239, 191, 189]"

lemma utf8_step_pos: "0 < snd (utf8_step s)"
  by (simp add: utf8_step_def Let_def)

function utf8_lossy :: "string \<Rightarrow> string" where
  "utf8_lossy s =
    (if s = [] then []
     else (case utf8_step s of
             (ok, n) \<Rightarrow> (if ok then take n s else replacement) @ utf8_lossy (drop n s)))"
  by pat_completeness auto
termination
proof (relation "measure length", goal_cases)
  case (2 s p n)
  then have "0 < n" "0 < length s" using utf8_step_pos [of s] by (auto dest: sym)
  then show ?case by simp
qed simp

declare utf8_lossy.simps [simp del]

lemma utf8_lossy_Nil [simp]: "utf8_lossy [] = []"
  by (simp add: utf8_lossy.simps)

lemma utf8_lossy_ascii_Cons [simp]: "byte c < 128 \<Longrightarrow> utf8_lossy (c # s) = c # utf8_lossy s"
  by (subst utf8_lossy.simps) (simp add: utf8_step_def)

lemma utf8_step_ok:
  assumes "utf8_ok (a # r)"
  shows "\<exists>n. utf8_step (a # r) = (True, Suc n) \<and> n \<le> length r \<and> utf8_ok (drop n r)"
proof -
  consider "byte a < 128" | "194 \<le> byte a" "byte a \<le> 223" | "224 \<le> byte a" "byte a \<le> 239"
    | "240 \<le> byte a" "byte a \<le> 244"
    using assms by (simp add: Let_def split: if_splits)
  then show ?thesis
  proof cases
    case 1
    then show ?thesis using assms by (simp add: utf8_step_def)
  next
    case 2
    then obtain b r' where "r = b # r'" using assms by (cases r) (auto simp: Let_def)
    then show ?thesis using assms 2 by (intro exI [of _ 1]) (simp add: Let_def utf8_step_def cont_at_def)
  next
    case 3
    then obtain b c r' where "r = b # c # r'"
      using assms by (cases r; cases "tl r") (auto simp: Let_def)
    then show ?thesis using assms 3
      by (intro exI [of _ 2]) (simp add: Let_def utf8_step_def cont_at_def second_ok_def eval_nat_numeral)
  next
    case 4
    then obtain b c d r' where "r = b # c # d # r'"
      using assms by (cases r; cases "tl r"; cases "tl (tl r)") (auto simp: Let_def)
    then show ?thesis using assms 4
      by (intro exI [of _ 3]) (simp add: Let_def utf8_step_def cont_at_def second_ok_def eval_nat_numeral)
  qed
qed

lemma utf8_lossy_ok [simp]: "utf8_ok s \<Longrightarrow> utf8_lossy s = s"
proof (induction s rule: length_induct)
  case (1 s)
  show ?case
  proof (cases s)
    case (Cons a r)
    with 1 obtain n where n: "utf8_step (a # r) = (True, Suc n)" "n \<le> length r" "utf8_ok (drop n r)"
      using utf8_step_ok by blast
    then have "utf8_lossy (drop n r) = drop n r" using 1(1) Cons by simp
    then show ?thesis using n Cons by (subst utf8_lossy.simps) simp
  qed simp
qed

section \<open>Hexadecimal\<close>

definition hex_val :: "char \<Rightarrow> nat option" where
  "hex_val c =
    (if is_digit c then Some (byte c - 48)
     else if 97 \<le> byte c \<and> byte c \<le> 102 then Some (byte c - 87)
     else if 65 \<le> byte c \<and> byte c \<le> 70 then Some (byte c - 55)
     else None)"

text \<open>\<open>u8::from_str_radix(s, 16)\<close> on two bytes: a leading \<open>+\<close> is a sign.\<close>

definition hex_byte :: "char \<Rightarrow> char \<Rightarrow> char option" where
  "hex_byte a b =
    (if a = CHR ''+'' then map_option chr (hex_val b)
     else (case hex_val a of
             None \<Rightarrow> None
           | Some m \<Rightarrow> map_option (\<lambda>n. chr (16 * m + n)) (hex_val b)))"

text \<open>One upper-case digit, as \<open>{:02X}\<close> writes two of them.\<close>

definition hex_upper :: "nat \<Rightarrow> char" where
  "hex_upper n = (if n < 10 then chr (48 + n) else chr (55 + n))"

lemma hex_val_upper [simp]: "n < 16 \<Longrightarrow> hex_val (hex_upper n) = Some n"
  by (simp add: hex_val_def hex_upper_def is_digit_def)

lemma hex_upper_not_plus: "n < 16 \<Longrightarrow> hex_upper n \<noteq> CHR ''+''"
proof
  assume "n < 16" "hex_upper n = CHR ''+''"
  then have "hex_val (CHR ''+'') = Some n" by (metis hex_val_upper)
  then show False by (simp add: hex_val_def is_digit_def byte_def)
qed

lemma hex_byte_upper [simp]: "hex_byte (hex_upper (byte c div 16)) (hex_upper (byte c mod 16)) = Some c"
proof -
  have "byte c div 16 < 16" using byte_less [of c] by linarith
  then show ?thesis by (simp add: hex_byte_def hex_upper_not_plus)
qed

section \<open>Splitting\<close>

text \<open>\<open>split_whitespace\<close>.\<close>

lemma length_until_ws: "length (until_ws s) \<le> length s"
  by (induction s) auto

lemma strip_front_token: "front_token ws (strip_front ws s) = None"
proof (induction ws s rule: strip_front.induct)
  case (1 ws s)
  then show ?case by (cases "front_token ws s") (simp_all add: strip_front.simps [of ws s])
qed

lemma trim_start_token: "front_token ws_chars (trim_start s) = None"
  unfolding trim_start_def by (rule strip_front_token)

lemma until_ws_trim_start: "trim_start s \<noteq> [] \<Longrightarrow> until_ws (trim_start s) \<noteq> []"
  using trim_start_token [of s] by (cases "trim_start s") auto

function split_ws :: "string \<Rightarrow> string list" where
  "split_ws s =
    (let t = trim_start s in
     if t = [] then [] else until_ws t # split_ws (drop (length (until_ws t)) t))"
  by pat_completeness auto
termination
proof (relation "measure length", goal_cases)
  case (2 s t)
  then have "0 < length (until_ws t)" "length t \<le> length s" "0 < length t"
    using length_strip_front [of ws_chars s] until_ws_trim_start [of s] by (auto simp: trim_start_def)
  then have "length t - length (until_ws t) < length s" by linarith
  then show ?case by simp
qed simp

declare split_ws.simps [simp del]

text \<open>Splitting at \<open>x\<close>, except inside double quotes; an empty last piece is dropped.\<close>

fun split_quoted :: "char \<Rightarrow> bool \<Rightarrow> string \<Rightarrow> string \<Rightarrow> string list" where
  "split_quoted x q piece [] = (if piece = [] then [] else [piece])"
| "split_quoted x q piece (c # s) =
    (if c = CHR 0x22 then split_quoted x (\<not> q) (piece @ [c]) s
     else if c = x \<and> \<not> q then piece # split_quoted x q [] s
     else split_quoted x q (piece @ [c]) s)"

declare hex_val_def [eval] hex_byte_def [eval] hex_upper_def [eval] utf8_step_def [eval]
  cont_at_def [eval] second_ok_def [eval]

end
