(* ===== verification/Identity.thy ===== *)
theory Identity
  imports Codecs Credentials Bytes
begin

text \<open>
  Names for an identity: the two codecs as providers of the contract of \<open>Codecs\<close>, percent
  decoding, the segments of a \<open>did:webvh\<close> identifier (\<open>did/webvh_id.rs\<close>), the localpart made of
  its SCID (\<open>did/scid_localpart.rs\<close>), and the key directory (\<open>wkd.rs\<close>). SHA-1 and the OpenPGP
  parser are arguments.
\<close>

section \<open>The codecs keep their contract\<close>

text \<open>Base 58 the other way round: a decodable string is the encoding of what it decodes to.\<close>

lemma alpha_index_Some: "alpha_index c xs = Some i \<Longrightarrow> i < length xs \<and> xs ! i = c"
  by (induction xs arbitrary: i) (auto split: if_splits)

lemma b58_digits_Some:
  "b58_digits bs s = Some r \<Longrightarrow>
   \<exists>ds. list_all (\<lambda>d. d < 58) ds \<and> s = map (\<lambda>d. alphabet58 ! d) ds \<and> r = foldl (mul_add 256 58) bs ds"
proof (induction s arbitrary: bs)
  case (Cons c s)
  then obtain i where i: "alpha_index c alphabet58 = Some i" "b58_digits (mul_add 256 58 bs i) s = Some r"
    by (auto split: option.splits)
  from Cons.IH [OF i(2)] obtain ds where
    "list_all (\<lambda>d. d < 58) ds \<and> s = map (\<lambda>d. alphabet58 ! d) ds \<and> r = foldl (mul_add 256 58) (mul_add 256 58 bs i) ds"
    by blast
  with alpha_index_Some [OF i(1)] distinct58(2) show ?case by (intro exI [of _ "i # ds"]) simp
qed simp

lemma takeWhile_drop: "drop (length (takeWhile P s)) s = dropWhile P s"
  by (metis append_eq_conv_conj takeWhile_dropWhile_id)

lemma b58_encode_decode:
  assumes "b58_decode s = Some b"
  shows "b58_encode b = s"
proof -
  let ?one = "\<lambda>c. c = CHR ''1''" and ?null = "\<lambda>c. byte c = 0"
  let ?z = "length (takeWhile ?one s)"
  from assms obtain bs where b: "b58_digits [] (dropWhile ?one s) = Some bs"
    "b = replicate ?z (chr 0) @ map chr (rev bs)"
    by (auto simp: b58_decode_def takeWhile_drop split: option.splits)
  from b58_digits_Some [OF b(1)] obtain ds where ds: "list_all (\<lambda>d. d < 58) ds"
    "dropWhile ?one s = map (\<lambda>d. alphabet58 ! d) ds" "bs = foldl (mul_add 256 58) [] ds" by blast
  have "ds \<noteq> [] \<Longrightarrow> hd ds \<noteq> 0"
    using hd_dropWhile [of ?one s] ds(2) distinct58(3) by (cases ds) (auto intro: gr0I)
  then have c: "canonical 58 (rev ds)" using ds(1) by (cases ds) (auto simp: canonical_def list_all_iff)
  have cb: "canonical 256 bs" unfolding ds(3) by (rule foldl_mul_add(1)) (simp_all add: canonical_def)
  then have lt: "list_all (\<lambda>d. d < 256) (rev bs)" and ne: "bs \<noteq> [] \<Longrightarrow> last bs \<noteq> 0"
    by (auto simp: canonical_def list_all_iff)
  have vals: "map byte (map chr (rev bs)) = rev bs" using lt by (induction "rev bs") (auto simp: list_all_iff intro!: map_idI)
  have "takeWhile ?null (map chr (rev bs)) = []"
    using lt ne by (cases bs rule: rev_cases) auto
  then have tw: "takeWhile ?null b = replicate ?z (chr 0)"
    unfolding b(2) by (rule takeWhile_replicate) simp
  have "map byte b = replicate ?z 0 @ rev bs" using vals by (simp add: b(2))
  then have "foldl (\<lambda>ds c. mul_add 58 256 ds (byte c)) [] b = foldl (mul_add 58 256) [] (rev bs)"
    using foldl_zeros [of "replicate ?z 0" 58 256 "rev bs"] foldl_map [of "mul_add 58 256" "[]" byte b]
    by (simp add: list_all_iff)
  also have "\<dots> = rev ds" using base_conversion [OF _ _ c, of 256] ds(3) by simp
  finally have "b58_encode b = replicate ?z (CHR ''1'') @ dropWhile ?one s"
    by (simp add: b58_encode_def tw ds(2))
  moreover have "takeWhile ?one s = replicate ?z (CHR ''1'')"
    by (rule replicate_length_same [symmetric]) (auto dest: set_takeWhileD)
  ultimately show ?thesis by (metis takeWhile_dropWhile_id)
qed

lemma b58_chars: "list_all (\<lambda>c. c \<in> set alphabet58) (b58_encode s)"
proof -
  have "canonical 58 (foldl (mul_add 58 256) [] (map byte s))"
    by (rule foldl_mul_add(1)) (simp_all add: canonical_def)
  then have "list_all (\<lambda>d. d < 58) (foldl (\<lambda>ds c. mul_add 58 256 ds (byte c)) [] s)"
    by (simp add: canonical_def foldl_map)
  then show ?thesis
    using distinct58 by (auto simp: b58_encode_def list_all_iff Let_def) (metis nth_mem zero_less_numeral)
qed

lemma z_chars: "list_all (\<lambda>c. c \<in> set zalphabet) (z_encode s)"
  using z_digits_num [of s] zalphabet(2) by (auto simp: z_encode_def list_all_iff)

interpretation b58: codec b58_encode "\<lambda>_. b58_decode" "\<lambda>c. c \<in> set alphabet58"
  by unfold_locales (rule b58_decode_encode, rule b58_chars)

interpretation zb: codec z_encode "\<lambda>n s. z_decode s n" "\<lambda>c. c \<in> set zalphabet"
  by unfold_locales (rule z_decode_encode, rule z_chars)

section \<open>Percent decoding\<close>

fun pct_bytes :: "string \<Rightarrow> string option" where
  "pct_bytes [] = Some []"
| "pct_bytes (c # s) =
    (if c = CHR ''%'' then
       (case s of
          a # b # r \<Rightarrow>
            (case hex_byte a b of None \<Rightarrow> None | Some x \<Rightarrow> map_option (Cons x) (pct_bytes r))
        | _ \<Rightarrow> None)
     else map_option (Cons c) (pct_bytes s))"

definition pct_segment :: "string \<Rightarrow> string option" where
  "pct_segment s = Option.bind (pct_bytes s) (\<lambda>b. if utf8_ok b then Some b else None)"

section \<open>Reading a did:webvh identifier\<close>

record webvh_id =
  w_scid :: string
  w_domain :: string
  w_port :: "nat option"
  w_username :: string

datatype webvh_error = NotWebvh | MalformedSegments | NotSingleSegmentPath | BadPort | BadUsername

definition split_port :: "string \<Rightarrow> webvh_error + string \<times> nat option" where
  "split_port dp =
    (let lower = ascii_lower dp in
     case find_sub lower ''%3a'' of
       None \<Rightarrow> Inr (lower, None)
     | Some i \<Rightarrow>
         (case parse_unsigned (2 ^ 16) (drop (i + 3) lower) of
            None \<Rightarrow> Inl BadPort
          | Some p \<Rightarrow> if p = 0 then Inl BadPort else Inr (take i lower, Some p)))"

definition bad_username :: "string \<Rightarrow> bool" where
  "bad_username u \<longleftrightarrow> u = [] \<or> u = ''.'' \<or> u = ''..'' \<or>
    list_ex (\<lambda>c. c \<in> {CHR ''/'', CHR 0x5C, CHR 0x00}) u \<or> trim u \<noteq> u"

definition webvh_parse :: "string \<Rightarrow> webvh_error + webvh_id" where
  "webvh_parse did =
    (case strip_prefix ''did:webvh:'' did of
       None \<Rightarrow> Inl NotWebvh
     | Some rest \<Rightarrow>
         (case split_on (CHR '':'') rest of
            scid # dp # path \<Rightarrow>
              if scid = [] \<or> dp = [] then Inl MalformedSegments
              else
                (case path of
                   [raw] \<Rightarrow>
                     (case split_port dp of
                        Inl e \<Rightarrow> Inl e
                      | Inr (domain, port) \<Rightarrow>
                          if domain = [] then Inl MalformedSegments
                          else
                            (case pct_segment raw of
                               None \<Rightarrow> Inl BadUsername
                             | Some u \<Rightarrow>
                                 if bad_username u then Inl BadUsername
                                 else Inr \<lparr>w_scid = scid, w_domain = domain, w_port = port, w_username = u\<rparr>))
                 | _ \<Rightarrow> Inl NotSingleSegmentPath)
          | _ \<Rightarrow> Inl MalformedSegments))"

section \<open>The localpart of a SCID\<close>

definition scid_bytes :: nat where
  "scid_bytes = 34"

definition to_localpart :: "string \<Rightarrow> string option" where
  "to_localpart scid =
    (case b58_decode scid of
       None \<Rightarrow> None
     | Some b \<Rightarrow> if length b \<noteq> scid_bytes then None else Some (z_encode b))"

definition from_localpart :: "string \<Rightarrow> string option" where
  "from_localpart localpart = map_option b58_encode (z_decode localpart scid_bytes)"

section \<open>The key directory\<close>

definition wkd_hash :: "(string \<Rightarrow> string) \<Rightarrow> (string \<Rightarrow> string) \<Rightarrow> string \<Rightarrow> string" where
  "wkd_hash lc sha1 localpart = z_encode (sha1 (lc localpart))"

definition pubkey_file :: "string \<Rightarrow> string \<Rightarrow> string \<Rightarrow> string" where
  "pubkey_file data domain localpart = pjoin (account_dir data domain localpart) ''pubkey.pgp''"

definition privkey_enc_file :: "string \<Rightarrow> string \<Rightarrow> string \<Rightarrow> string" where
  "privkey_enc_file data domain localpart = pjoin (account_dir data domain localpart) ''privkey.enc''"

datatype wkd_lookup = UserKey string string | GlobalKey | WkdNotFound

definition resolve_wkd ::
  "(string \<Rightarrow> string) \<Rightarrow> (string \<Rightarrow> string) \<Rightarrow> string list \<Rightarrow> string \<Rightarrow> string \<Rightarrow> bool
    \<Rightarrow> (string \<Rightarrow> string \<Rightarrow> bool) \<Rightarrow> wkd_lookup" where
  "resolve_wkd lc sha1 doms h param has_global serves_key =
    (let localpart = lc param;
         rest = (if \<not> has_global then WkdNotFound
                 else if localpart \<noteq> [] \<and> wkd_hash lc sha1 localpart \<noteq> h then WkdNotFound
                 else GlobalKey) in
     if localpart \<noteq> [] \<and> wkd_hash lc sha1 localpart = h then
       (case find (\<lambda>d. serves_key d localpart) doms of Some d \<Rightarrow> UserKey d localpart | None \<Rightarrow> rest)
     else rest)"

datatype key_error = InvalidKey | AddrRequired | KeyNotFound | KeyUnauthorized

fun key_status :: "key_error \<Rightarrow> nat" where
  "key_status InvalidKey = 400"
| "key_status AddrRequired = 400"
| "key_status KeyUnauthorized = 401"
| "key_status KeyNotFound = 404"

fun key_message :: "key_error \<Rightarrow> string" where
  "key_message InvalidKey = ''invalid PGP key''"
| "key_message AddrRequired = ''addr required''"
| "key_message KeyNotFound = ''not found''"
| "key_message KeyUnauthorized = ''unauthorized''"

text \<open>\<open>readable\<close>: \<open>parse_public_key\<close> accepts the armored bytes; \<open>packets\<close>: it does, and serializing gives these.\<close>

definition store_pubkey ::
  "(string \<Rightarrow> bool) \<Rightarrow> fenv \<Rightarrow> string \<Rightarrow> string \<Rightarrow> string \<Rightarrow> string \<Rightarrow> fs \<Rightarrow> (key_error + unit) \<times> fs" where
  "store_pubkey readable v data domain localpart armored f =
    (if \<not> readable armored then (Inl InvalidKey, f)
     else (case create_dir_all (account_dir data domain localpart) f of
             (False, f') \<Rightarrow> (Inl KeyNotFound, f')
           | (True, f') \<Rightarrow>
               (case fs_write v (pubkey_file data domain localpart) (Text armored) f' of
                  (b, f'') \<Rightarrow> (if b then Inr () else Inl KeyNotFound, f''))))"

definition serve_pubkey ::
  "(string \<Rightarrow> string option) \<Rightarrow> fenv \<Rightarrow> string \<Rightarrow> string \<Rightarrow> string \<Rightarrow> fs \<Rightarrow> string option" where
  "serve_pubkey packets v data domain localpart f =
    do {
      armored \<leftarrow> read_text v f (pubkey_file data domain localpart);
      binary \<leftarrow> packets armored;
      if binary = [] then None else Some binary
    }"

definition read_privkey :: "fenv \<Rightarrow> string \<Rightarrow> string \<Rightarrow> string \<Rightarrow> fs \<Rightarrow> string option" where
  "read_privkey v data domain localpart f = read_text v f (privkey_enc_file data domain localpart)"

definition store_privkey ::
  "fenv \<Rightarrow> string \<Rightarrow> string \<Rightarrow> string \<Rightarrow> string \<Rightarrow> fs \<Rightarrow> bool \<times> fs" where
  "store_privkey v data domain localpart blob f =
    write_account_file v data domain localpart ''privkey.enc'' (Text blob) f"

declare pct_segment_def [eval] split_port_def [eval]
  bad_username_def [eval] webvh_parse_def [eval] scid_bytes_def [eval] to_localpart_def [eval]
  from_localpart_def [eval] wkd_hash_def [eval] pubkey_file_def [eval] privkey_enc_file_def [eval]
  resolve_wkd_def [eval] store_pubkey_def [eval] serve_pubkey_def [eval] read_privkey_def [eval]
  store_privkey_def [eval]

end
