(* ===== verification/Envelope.thy ===== *)
theory Envelope
  imports Credentials
begin

text \<open>
  \<open>crates/cryptenv/src/lib.rs\<close>: the envelope in which an account's master secret is kept under
  a password, its validation, and its JSON. Argon2id, HKDF and AES-GCM are arguments, as are the
  random bytes; an envelope made here opens again and survives a change of password.
\<close>

section \<open>The envelope\<close>

datatype env_error =
    EmptyPassword | WrongPassword | UnsupportedVersion nat | Malformed string | EnvJson | Rng

record kdf_params =
  kp_time :: nat
  kp_memory :: nat
  kp_threads :: nat

definition default_kdf :: kdf_params where
  "default_kdf = \<lparr>kp_time = 3, kp_memory = 64 * 1024, kp_threads = 4\<rparr>"

record key_envelope =
  ke_version :: nat
  ke_salt :: string
  ke_kdf :: kdf_params
  ke_wrapped :: string
  ke_auth_hash :: string

record unsealed =
  us_auth_token :: string
  us_kek :: string

definition current_version :: nat where "current_version = 1"
definition min_salt_size :: nat where "min_salt_size = 8"
definition aes_nonce_size :: nat where "aes_nonce_size = 12"
definition aes_tag_size :: nat where "aes_tag_size = 16"
definition auth_hash_size :: nat where "auth_hash_size = 32"

definition hkdf_info_auth :: string where "hkdf_info_auth = ''biset-jmapsmtp/auth/v1''"
definition hkdf_info_kek :: string where "hkdf_info_kek = ''biset-jmapsmtp/enc/v1''"

definition env_check :: "key_envelope \<Rightarrow> env_error + unit" where
  "env_check e =
    (if ke_version e \<noteq> current_version then Inl (UnsupportedVersion (ke_version e))
     else if length (ke_salt e) < min_salt_size then Inl (Malformed ''salt too short'')
     else if kp_time (ke_kdf e) < 1 then Inl (Malformed ''kdf t must be at least 1'')
     else if kp_threads (ke_kdf e) < 1 then Inl (Malformed ''kdf p must be at least 1'')
     else if kp_memory (ke_kdf e) < 8 * kp_threads (ke_kdf e) then
       Inl (Malformed ''kdf m must be at least 8*p'')
     else if length (ke_wrapped e) \<le> aes_nonce_size + aes_tag_size then
       Inl (Malformed ''wrapped_secret too short'')
     else if length (ke_auth_hash e) \<noteq> auth_hash_size then
       Inl (Malformed ''auth_token_hash must be 32 bytes'')
     else Inr ())"

section \<open>Its JSON\<close>

definition dec_below :: "nat \<Rightarrow> json \<Rightarrow> nat option" where
  "dec_below n j = (case j of JNum i \<Rightarrow> if 0 \<le> i \<and> i < int n then Some (nat i) else None | _ \<Rightarrow> None)"

definition enc_kdf :: "kdf_params \<Rightarrow> json" where
  "enc_kdf p = struct [(''t'', Some (JNum (int (kp_time p)))), (''m'', Some (JNum (int (kp_memory p)))),
     (''p'', Some (JNum (int (kp_threads p))))]"

definition dec_kdf :: "json \<Rightarrow> kdf_params option" where
  "dec_kdf j =
    (if \<not> struct_ok 3 j then None
     else do {
       t \<leftarrow> req j 0 ''t'' (dec_below (2 ^ 32));
       m \<leftarrow> req j 1 ''m'' (dec_below (2 ^ 32));
       p \<leftarrow> req j 2 ''p'' (dec_below (2 ^ 8));
       Some \<lparr>kp_time = t, kp_memory = m, kp_threads = p\<rparr>
     })"

text \<open>The module \<open>b64\<close>: \<open>null\<close> reads as no bytes.\<close>

definition b64_ser :: "crypto \<Rightarrow> string \<Rightarrow> json" where
  "b64_ser k s = JStr (std k s)"

definition b64_de :: "crypto \<Rightarrow> json \<Rightarrow> string option" where
  "b64_de k j =
    (case dec_opt dec_str j of
       None \<Rightarrow> None
     | Some None \<Rightarrow> Some []
     | Some (Some s) \<Rightarrow> un_std k s)"

definition enc_key_envelope :: "crypto \<Rightarrow> key_envelope \<Rightarrow> json" where
  "enc_key_envelope k e = struct
    [(''v'', Some (JNum (int (ke_version e)))),
     (''salt'', Some (b64_ser k (ke_salt e))),
     (''kdf'', Some (enc_kdf (ke_kdf e))),
     (''wrapped_secret'', Some (b64_ser k (ke_wrapped e))),
     (''auth_token_hash'', Some (b64_ser k (ke_auth_hash e)))]"

definition dec_key_envelope :: "crypto \<Rightarrow> json \<Rightarrow> key_envelope option" where
  "dec_key_envelope k j =
    (if \<not> struct_ok 5 j then None
     else do {
       v \<leftarrow> req j 0 ''v'' (dec_below (2 ^ 32));
       s \<leftarrow> req j 1 ''salt'' (b64_de k);
       p \<leftarrow> req j 2 ''kdf'' dec_kdf;
       w \<leftarrow> req j 3 ''wrapped_secret'' (b64_de k);
       h \<leftarrow> req j 4 ''auth_token_hash'' (b64_de k);
       Some \<lparr>ke_version = v, ke_salt = s, ke_kdf = p, ke_wrapped = w, ke_auth_hash = h\<rparr>
     })"

text \<open>\<open>to_bytes\<close> and \<open>from_bytes\<close>, between an envelope and the JSON value of the bytes.\<close>

definition env_to_bytes :: "crypto \<Rightarrow> key_envelope \<Rightarrow> json" where
  "env_to_bytes k e = enc_key_envelope k e"

definition env_from_bytes :: "crypto \<Rightarrow> json option \<Rightarrow> env_error + key_envelope" where
  "env_from_bytes k j =
    (case Option.bind j (dec_key_envelope k) of
       None \<Rightarrow> Inl EnvJson
     | Some e \<Rightarrow> (case env_check e of Inl err \<Rightarrow> Inl err | Inr _ \<Rightarrow> Inr e))"

section \<open>Sealing\<close>

text \<open>
  \<open>argon_params\<close>: whether \<open>Params::new\<close> accepts memory, time and lanes; \<open>argon\<close>: the 32-byte
  hash of password and salt under them.
\<close>

record sealing =
  base :: crypto
  argon_params :: "nat \<Rightarrow> nat \<Rightarrow> nat \<Rightarrow> bool"
  argon :: "nat \<Rightarrow> nat \<Rightarrow> nat \<Rightarrow> string \<Rightarrow> string \<Rightarrow> string option"
  hkdf :: "string \<Rightarrow> string \<Rightarrow> string"
  gcm_enc :: "string \<Rightarrow> string \<Rightarrow> string \<Rightarrow> string option"
  gcm_dec :: "string \<Rightarrow> string \<Rightarrow> string \<Rightarrow> string option"

definition derive_wrap_key :: "sealing \<Rightarrow> string \<Rightarrow> string \<Rightarrow> kdf_params \<Rightarrow> env_error + string" where
  "derive_wrap_key c pw salt p =
    (if \<not> argon_params c (kp_memory p) (kp_time p) (kp_threads p) then
       Inl (Malformed ''invalid kdf parameters'')
     else (case argon c (kp_memory p) (kp_time p) (kp_threads p) pw salt of
             None \<Rightarrow> Inl (Malformed ''argon2 failed'')
           | Some key \<Rightarrow> Inr key))"

definition derive_auth_and_kek :: "sealing \<Rightarrow> string \<Rightarrow> unsealed" where
  "derive_auth_and_kek c master =
    \<lparr>us_auth_token = hkdf c master hkdf_info_auth, us_kek = hkdf c master hkdf_info_kek\<rparr>"

definition aes_gcm_seal :: "sealing \<Rightarrow> string \<Rightarrow> string \<Rightarrow> string option \<Rightarrow> env_error + string" where
  "aes_gcm_seal c key msg nonce =
    (case nonce of
       None \<Rightarrow> Inl Rng
     | Some n \<Rightarrow>
         (case gcm_enc c key n msg of
            None \<Rightarrow> Inl (Malformed ''aes-gcm seal failed'')
          | Some ct \<Rightarrow> Inr (n @ ct)))"

definition aes_gcm_open :: "sealing \<Rightarrow> string \<Rightarrow> string \<Rightarrow> env_error + string" where
  "aes_gcm_open c key s =
    (if length s < aes_nonce_size then Inl (Malformed ''sealed too short'')
     else (case gcm_dec c key (take aes_nonce_size s) (drop aes_nonce_size s) of
             None \<Rightarrow> Inl WrongPassword
           | Some m \<Rightarrow> Inr m))"

text \<open>The random bytes of a call: salt, master secret and nonce, each possibly failing.\<close>

definition envelope_new_with_kdf ::
  "sealing \<Rightarrow> string \<Rightarrow> kdf_params \<Rightarrow> string option \<Rightarrow> string option \<Rightarrow> string option
    \<Rightarrow> env_error + key_envelope \<times> unsealed" where
  "envelope_new_with_kdf c pw p salt master nonce =
    (if pw = [] then Inl EmptyPassword
     else (case salt of
       None \<Rightarrow> Inl Rng
     | Some s \<Rightarrow> (case master of
         None \<Rightarrow> Inl Rng
       | Some m \<Rightarrow> (case derive_wrap_key c pw s p of
           Inl e \<Rightarrow> Inl e
         | Inr key \<Rightarrow> (case aes_gcm_seal c key m nonce of
             Inl e \<Rightarrow> Inl e
           | Inr w \<Rightarrow>
               (let u = derive_auth_and_kek c m in
                Inr (\<lparr>ke_version = current_version, ke_salt = s, ke_kdf = p, ke_wrapped = w,
                      ke_auth_hash = sha256 (base c) (us_auth_token u)\<rparr>, u)))))))"

definition envelope_new ::
  "sealing \<Rightarrow> string \<Rightarrow> string option \<Rightarrow> string option \<Rightarrow> string option \<Rightarrow> env_error + key_envelope \<times> unsealed" where
  "envelope_new c pw salt master nonce = envelope_new_with_kdf c pw default_kdf salt master nonce"

definition unseal :: "sealing \<Rightarrow> string \<Rightarrow> key_envelope \<Rightarrow> env_error + unsealed" where
  "unseal c pw e =
    (case env_check e of
       Inl err \<Rightarrow> Inl err
     | Inr _ \<Rightarrow> (case derive_wrap_key c pw (ke_salt e) (ke_kdf e) of
         Inl err \<Rightarrow> Inl err
       | Inr key \<Rightarrow> (case aes_gcm_open c key (ke_wrapped e) of
           Inl err \<Rightarrow> Inl err
         | Inr m \<Rightarrow> Inr (derive_auth_and_kek c m))))"

definition rewrap ::
  "sealing \<Rightarrow> string \<Rightarrow> string \<Rightarrow> string option \<Rightarrow> string option \<Rightarrow> key_envelope \<Rightarrow> env_error + key_envelope" where
  "rewrap c old_pw new_pw salt nonce e =
    (if new_pw = [] then Inl EmptyPassword
     else (case env_check e of
       Inl err \<Rightarrow> Inl err
     | Inr _ \<Rightarrow> (case derive_wrap_key c old_pw (ke_salt e) (ke_kdf e) of
         Inl err \<Rightarrow> Inl err
       | Inr key \<Rightarrow> (case aes_gcm_open c key (ke_wrapped e) of
           Inl err \<Rightarrow> Inl err
         | Inr m \<Rightarrow> (case salt of
             None \<Rightarrow> Inl Rng
           | Some s \<Rightarrow> (case derive_wrap_key c new_pw s default_kdf of
               Inl err \<Rightarrow> Inl err
             | Inr key' \<Rightarrow> (case aes_gcm_seal c key' m nonce of
                 Inl err \<Rightarrow> Inl err
               | Inr w \<Rightarrow>
                   Inr \<lparr>ke_version = current_version, ke_salt = s, ke_kdf = default_kdf, ke_wrapped = w,
                        ke_auth_hash = sha256 (base c) (us_auth_token (derive_auth_and_kek c m))\<rparr>)))))))"

definition verify_auth :: "crypto \<Rightarrow> string \<Rightarrow> key_envelope \<Rightarrow> bool" where
  "verify_auth k token e \<longleftrightarrow> sha256 k token = ke_auth_hash e"

section \<open>Lemmas\<close>

text \<open>The numbers fit their types.\<close>

definition env_bounds :: "key_envelope \<Rightarrow> bool" where
  "env_bounds e \<longleftrightarrow> ke_version e < 2 ^ 32 \<and> kp_time (ke_kdf e) < 2 ^ 32 \<and> kp_memory (ke_kdf e) < 2 ^ 32 \<and>
    kp_threads (ke_kdf e) < 2 ^ 8"

definition b64_ok :: "crypto \<Rightarrow> bool" where
  "b64_ok k \<longleftrightarrow> (\<forall>s. un_std k (std k s) = Some s)"

lemma dec_below_enc [simp]: "n < b \<Longrightarrow> dec_below b (JNum (int n)) = Some n"
  by (simp add: dec_below_def)

lemma b64_roundtrip [simp]: "b64_ok k \<Longrightarrow> b64_de k (b64_ser k s) = Some s"
  by (simp add: b64_ok_def b64_de_def b64_ser_def dec_opt_def dec_str_def as_str_def)

lemma kdf_roundtrip:
  "kp_time p < 2 ^ 32 \<Longrightarrow> kp_memory p < 2 ^ 32 \<Longrightarrow> kp_threads p < 2 ^ 8 \<Longrightarrow> dec_kdf (enc_kdf p) = Some p"
  unfolding dec_kdf_def enc_kdf_def by (simp add: req_def field_struct)

lemma key_envelope_roundtrip:
  "b64_ok k \<Longrightarrow> env_bounds e \<Longrightarrow> dec_key_envelope k (enc_key_envelope k e) = Some e"
  unfolding dec_key_envelope_def enc_key_envelope_def env_bounds_def
  by (simp add: req_def field_struct kdf_roundtrip)

lemma dec_below_bound: "dec_below b j = Some n \<Longrightarrow> n < b"
  by (auto simp: dec_below_def split: json.splits if_splits)

lemma dec_key_envelope_bounds: "dec_key_envelope k j = Some e \<Longrightarrow> env_bounds e"
  by (auto simp: dec_key_envelope_def dec_kdf_def env_bounds_def req_def bind_eq_Some_conv
    split: if_splits dest!: dec_below_bound)

lemma env_from_bytes_Inr:
  "env_from_bytes k j = Inr e \<Longrightarrow> env_check e = Inr () \<and> env_bounds e"
  by (auto simp: env_from_bytes_def dec_key_envelope_bounds bind_eq_Some_conv split: option.splits sum.splits)

lemma env_bytes_roundtrip:
  "b64_ok k \<Longrightarrow> env_from_bytes k j = Inr e \<Longrightarrow> env_from_bytes k (Some (env_to_bytes k e)) = Inr e"
  using env_from_bytes_Inr [of k j e] key_envelope_roundtrip [of k e]
  by (simp add: env_from_bytes_def env_to_bytes_def)

text \<open>What AES-GCM promises: it opens what it sealed, and a tag of 16 bytes is added.\<close>

definition aead :: "sealing \<Rightarrow> bool" where
  "aead c \<longleftrightarrow> (\<forall>k n m ct. gcm_enc c k n m = Some ct \<longrightarrow> gcm_dec c k n ct = Some m \<and> length ct = length m + aes_tag_size)"

lemma open_seal:
  assumes "aead c" "length n = aes_nonce_size" "aes_gcm_seal c key m (Some n) = Inr w"
  shows "aes_gcm_open c key w = Inr m" "length w = aes_nonce_size + aes_tag_size + length m"
  using assms by (auto simp: aead_def aes_gcm_seal_def aes_gcm_open_def split: option.splits)

declare env_check_def [eval] dec_below_def [eval] enc_kdf_def [eval] dec_kdf_def [eval] b64_ser_def [eval]
  b64_de_def [eval] enc_key_envelope_def [eval] dec_key_envelope_def [eval] env_to_bytes_def [eval]
  env_from_bytes_def [eval] default_kdf_def [eval] current_version_def [eval] min_salt_size_def [eval]
  aes_nonce_size_def [eval] aes_tag_size_def [eval] auth_hash_size_def [eval] derive_wrap_key_def [eval]
  derive_auth_and_kek_def [eval] aes_gcm_seal_def [eval] aes_gcm_open_def [eval]
  envelope_new_with_kdf_def [eval] envelope_new_def [eval] unseal_def [eval] rewrap_def [eval]
  verify_auth_def [eval]

section \<open>Properties\<close>

text \<open>What the relay accepts it can store: an envelope read from a request is valid, and
  reading it back from its own JSON gives the same envelope; nothing with another version, a
  short salt, a zero cost, a secret too short to hold nonce, tag and data, or a hash that is
  not 32 bytes is accepted. Base64 is required to decode what it encoded.\<close>

theorem accepted_envelope_persists:
  assumes "b64_ok k" "env_from_bytes k j = Inr e"
  shows "env_from_bytes k (Some (env_to_bytes k e)) = Inr e \<and> ke_version e = 1 \<and> 8 \<le> length (ke_salt e) \<and>
    0 < kp_time (ke_kdf e) \<and> 0 < kp_threads (ke_kdf e) \<and> 8 * kp_threads (ke_kdf e) \<le> kp_memory (ke_kdf e) \<and>
    28 < length (ke_wrapped e) \<and> length (ke_auth_hash e) = 32"
  using env_bytes_roundtrip [OF assms] env_from_bytes_Inr [OF assms(2)]
  by (auto simp: env_check_def current_version_def min_salt_size_def aes_nonce_size_def
    aes_tag_size_def auth_hash_size_def split: if_splits)

text \<open>A change of password keeps the secrets: from an envelope that opens with the old
  password, \<open>rewrap\<close> makes one that opens with the new password to the same token and key, that
  verifies the token, and that the relay accepts; and a fresh envelope opens with its password.
  AES-GCM must open what it sealed, SHA-256 give 32 bytes, the random source 16 bytes of salt
  and 12 of nonce, and the secret must not be empty.\<close>

theorem rewrap_keeps_secrets:
  assumes "aead c" "\<And>s. length (sha256 (base c) s) = 32" "length salt = 16" "length nonce = 12"
    "length salt' = 16" "length nonce' = 12" "master \<noteq> []"
    "envelope_new c pw (Some salt) (Some master) (Some nonce) = Inr (e, u)"
    "rewrap c pw new_pw (Some salt') (Some nonce') e = Inr e'"
  shows "unseal c pw e = Inr u \<and> unseal c new_pw e' = Inr u \<and>
    verify_auth (base c) (us_auth_token u) e' \<and> env_check e' = Inr ()"
proof -
  from assms(8) obtain key w where n: "derive_wrap_key c pw salt default_kdf = Inr key"
    "aes_gcm_seal c key master (Some nonce) = Inr w" "u = derive_auth_and_kek c master"
    "e = \<lparr>ke_version = current_version, ke_salt = salt, ke_kdf = default_kdf, ke_wrapped = w,
      ke_auth_hash = sha256 (base c) (us_auth_token u)\<rparr>"
    by (auto simp: envelope_new_def envelope_new_with_kdf_def Let_def split: if_splits sum.splits)
  have o': "aes_gcm_open c key w = Inr master" "env_check e = Inr ()"
    using open_seal [OF assms(1) _ n(2)] assms(2,3,4,7) n(4)
    by (auto simp: env_check_def default_kdf_def current_version_def min_salt_size_def aes_nonce_size_def
      aes_tag_size_def auth_hash_size_def)
  from assms(9) o' n obtain key' w' where r: "derive_wrap_key c new_pw salt' default_kdf = Inr key'"
    "aes_gcm_seal c key' master (Some nonce') = Inr w'"
    "e' = \<lparr>ke_version = current_version, ke_salt = salt', ke_kdf = default_kdf, ke_wrapped = w',
      ke_auth_hash = sha256 (base c) (us_auth_token u)\<rparr>"
    by (auto simp: rewrap_def split: if_splits sum.splits)
  have "aes_gcm_open c key' w' = Inr master" "env_check e' = Inr ()"
    using open_seal [OF assms(1) _ r(2)] assms(2,5,6,7) r(3)
    by (auto simp: env_check_def default_kdf_def current_version_def min_salt_size_def aes_nonce_size_def
      aes_tag_size_def auth_hash_size_def)
  then show ?thesis using o' n r by (simp add: unseal_def verify_auth_def)
qed

section \<open>Witnesses\<close>

text \<open>A transparent instance: the key is not used, and the tag is sixteen zero bytes.\<close>

definition demo_base :: crypto where
  "demo_base = \<lparr>un_std = Some, un_std_raw = Some, un_url = Some, un_url_raw = Some, std = (\<lambda>s. s),
     url_raw = (\<lambda>s. s), sha256 = (\<lambda>s. replicate 32 (CHR ''h'')), key_ok = (\<lambda>_. True), verifies = (\<lambda>_ _ _. True)\<rparr>"

definition demo_sealing :: sealing where
  "demo_sealing = \<lparr>base = demo_base, argon_params = (\<lambda>_ _ _. True), argon = (\<lambda>_ _ _ pw _. Some pw),
     hkdf = (\<lambda>s i. i @ s), gcm_enc = (\<lambda>k _ m. Some (replicate 16 (CHR ''t'') @ m)),
     gcm_dec = (\<lambda>k _ ct. Some (drop 16 ct))\<rparr>"

definition demo_envelope :: "string \<Rightarrow> key_envelope" where
  "demo_envelope s = \<lparr>ke_version = 1, ke_salt = replicate 16 (CHR ''s''), ke_kdf = default_kdf,
     ke_wrapped = replicate 12 (CHR ''n'') @ replicate 16 (CHR ''t'') @ s, ke_auth_hash = replicate 32 (CHR ''h'')\<rparr>"

lemma demo_sealing_ok: "aead demo_sealing" "b64_ok demo_base"
  by (simp_all add: aead_def demo_sealing_def b64_ok_def demo_base_def aes_tag_size_def)

lemma rewrap_keeps_secrets_witness:
  "unseal demo_sealing ''new'' (demo_envelope ''m'') = Inr (derive_auth_and_kek demo_sealing ''m'')"
proof -
  let ?s = "replicate 16 (CHR ''s'')" and ?n = "replicate 12 (CHR ''n'')"
  have made: "envelope_new demo_sealing ''old'' (Some ?s) (Some ''m'') (Some ?n) =
      Inr (demo_envelope ''m'', derive_auth_and_kek demo_sealing ''m'')"
    by (simp add: envelope_new_def envelope_new_with_kdf_def derive_wrap_key_def aes_gcm_seal_def
      demo_sealing_def demo_base_def demo_envelope_def current_version_def)
  have again: "rewrap demo_sealing ''old'' ''new'' (Some ?s) (Some ?n) (demo_envelope ''m'') = Inr (demo_envelope ''m'')"
    by (simp add: rewrap_def env_check_def derive_wrap_key_def aes_gcm_seal_def aes_gcm_open_def
      demo_sealing_def demo_base_def demo_envelope_def current_version_def min_salt_size_def aes_nonce_size_def
      aes_tag_size_def auth_hash_size_def default_kdf_def)
  have "length (sha256 (base demo_sealing) x) = 32" for x by (simp add: demo_sealing_def demo_base_def)
  from rewrap_keeps_secrets [OF demo_sealing_ok(1) this _ _ _ _ _ made again] show ?thesis by simp
qed

lemma accepted_envelope_persists_witness:
  "env_from_bytes demo_base (Some (env_to_bytes demo_base (demo_envelope ''m''))) = Inr (demo_envelope ''m'')"
proof -
  have "env_bounds (demo_envelope ''m'')" by (simp add: env_bounds_def demo_envelope_def default_kdf_def)
  then have "env_from_bytes demo_base (Some (enc_key_envelope demo_base (demo_envelope ''m''))) = Inr (demo_envelope ''m'')"
    using key_envelope_roundtrip [OF demo_sealing_ok(2)]
    by (simp add: env_from_bytes_def env_check_def demo_envelope_def current_version_def min_salt_size_def
      aes_nonce_size_def aes_tag_size_def auth_hash_size_def default_kdf_def)
  from accepted_envelope_persists [OF demo_sealing_ok(2) this] show ?thesis by blast
qed

end
