(* ===== verification/Startup.thy ===== *)
theory Startup
  imports Envelope
begin

text \<open>
  What happens to the files before the relay listens (\<open>startup.rs\<close>): sweeping what no longer
  belongs to an account, finding the accounts of earlier runs, and issuing setup tokens; and
  claiming an account with such a token (\<open>setup.rs\<close>, the envelope files of \<open>auth_env.rs\<close>).
  Names on disk are taken to be UTF-8.
\<close>

section \<open>Removing directories\<close>

text \<open>
  \<open>fs::remove_dir_all\<close>. \<open>wipe k\<close>: all of the directory \<open>k\<close> goes (\<open>None\<close>), or the call fails and
  leaves the paths given.
\<close>

type_synonym wiping = "node_path \<Rightarrow> (node_path \<Rightarrow> bool) option"

definition remove_dir_all :: "wiping \<Rightarrow> string \<Rightarrow> fs \<Rightarrow> bool \<times> fs" where
  "remove_dir_all wipe p f =
    (case locate f p of
       None \<Rightarrow> (False, f)
     | Some k \<Rightarrow>
         if \<not> is_dir f k then (False, f)
         else (case wipe k of
                 None \<Rightarrow> (True, remove_tree k f)
               | Some left \<Rightarrow>
                   (False, f\<lparr>fs_files := filter (\<lambda>(p, _). below k p \<longrightarrow> left p) (fs_files f),
                             fs_dirs := filter (\<lambda>(p, _). below k p \<longrightarrow> left p) (fs_dirs f)\<rparr>)))"

section \<open>Envelope files\<close>

definition envelope_file :: "string \<Rightarrow> string \<Rightarrow> string \<Rightarrow> string" where
  "envelope_file data domain localpart = pjoin (account_dir data domain localpart) ''envelope.json''"

definition read_envelope :: "crypto \<Rightarrow> fenv \<Rightarrow> string \<Rightarrow> string \<Rightarrow> string \<Rightarrow> fs \<Rightarrow> key_envelope option" where
  "read_envelope k v data domain localpart f =
    (case fs_read f (envelope_file data domain localpart) of
       None \<Rightarrow> None
     | Some c \<Rightarrow> (case env_from_bytes k (as_json v c) of Inl _ \<Rightarrow> None | Inr e \<Rightarrow> Some e))"

definition write_envelope ::
  "crypto \<Rightarrow> fenv \<Rightarrow> string \<Rightarrow> string \<Rightarrow> string \<Rightarrow> key_envelope \<Rightarrow> fs \<Rightarrow> bool \<times> fs" where
  "write_envelope k v data domain localpart e f =
    write_account_file v data domain localpart ''envelope.json'' (Json (env_to_bytes k e)) f"

section \<open>The sweep\<close>

definition reserved_domain_dirs :: "string list" where
  "reserved_domain_dirs = [''_domains'', ''_queue'']"

definition reserved_account_dirs :: "string list" where
  "reserved_account_dirs = [''peers'']"

definition token_file :: "string \<Rightarrow> string \<Rightarrow> string \<Rightarrow> string" where
  "token_file data domain localpart = pjoin (account_dir data domain localpart) ''setup.token''"

definition subdirs :: "string list \<Rightarrow> (string \<times> content option) list \<Rightarrow> string list" where
  "subdirs reserved es = sort (filter (\<lambda>n. n \<notin> set reserved) (map fst (filter (\<lambda>(_, c). c = None) es)))"

definition sweep_account ::
  "fenv \<Rightarrow> wiping \<Rightarrow> string \<Rightarrow> string \<Rightarrow> domain_config \<Rightarrow> string list \<times> fs \<Rightarrow> string \<Rightarrow> string list \<times> fs" where
  "sweep_account v wipe data domain dc s localpart =
    (case s of
       (gone, f) \<Rightarrow>
         if bt_get (d_accounts dc) localpart \<noteq> None then (gone, f)
         else if read_auth_hash v data domain localpart f \<noteq> [] then (gone, f)
         else (gone @ [''data/'' @ domain @ ''/'' @ localpart],
               snd (remove_dir_all wipe (account_dir data domain localpart) f)))"

definition sweep_domain ::
  "fenv \<Rightarrow> wiping \<Rightarrow> config \<Rightarrow> dynamic_domains \<Rightarrow> string \<Rightarrow> string list \<times> fs \<Rightarrow> string \<Rightarrow> string list \<times> fs" where
  "sweep_domain v wipe cfg dyn data s domain =
    (case s of
       (gone, f) \<Rightarrow>
         (case domain_config_of cfg dyn domain of
            None \<Rightarrow> (gone @ [''data/'' @ domain], snd (remove_dir_all wipe (pjoin data domain) f))
          | Some dc \<Rightarrow>
              (case read_dir f (pjoin data domain) of
                 None \<Rightarrow> (gone, f)
               | Some (_, es) \<Rightarrow>
                   foldl (sweep_account v wipe data domain dc) (gone, f)
                     (subdirs reserved_account_dirs es))))"

definition cleanup_orphaned_data ::
  "fenv \<Rightarrow> wiping \<Rightarrow> config \<Rightarrow> dynamic_domains \<Rightarrow> string \<Rightarrow> fs \<Rightarrow> string list \<times> fs" where
  "cleanup_orphaned_data v wipe cfg dyn data f =
    (case read_dir f data of
       None \<Rightarrow> ([], f)
     | Some (_, es) \<Rightarrow> foldl (sweep_domain v wipe cfg dyn data) ([], f) (subdirs reserved_domain_dirs es))"

section \<open>Accounts of earlier runs\<close>

text \<open>\<open>register\<close> is called for each account found, on the state it changes; \<open>fs_of\<close> is its file tree.\<close>

definition scan_entry ::
  "fenv \<Rightarrow> config \<Rightarrow> string \<Rightarrow> ('s \<Rightarrow> fs) \<Rightarrow> (string \<Rightarrow> string \<Rightarrow> 's \<Rightarrow> 's) \<Rightarrow> string \<Rightarrow> 's
    \<Rightarrow> string \<times> content option \<Rightarrow> 's" where
  "scan_entry v cfg data fs_of register domain s e =
    (case e of
       (_, Some _) \<Rightarrow> s
     | (localpart, None) \<Rightarrow>
         if localpart \<in> set reserved_account_dirs then s
         else if (case bt_get (domains cfg) domain of
                    None \<Rightarrow> False | Some d \<Rightarrow> bt_get (d_accounts d) localpart \<noteq> None) then s
         else if read_auth_hash v data domain localpart (fs_of s) \<noteq> [] then register localpart domain s
         else s)"

definition scan_domain ::
  "fenv \<Rightarrow> config \<Rightarrow> string \<Rightarrow> ('s \<Rightarrow> fs) \<Rightarrow> (string \<Rightarrow> string \<Rightarrow> 's \<Rightarrow> 's) \<Rightarrow> 's \<Rightarrow> string \<Rightarrow> 's" where
  "scan_domain v cfg data fs_of register s domain =
    (case read_dir (fs_of s) (pjoin data domain) of
       None \<Rightarrow> s
     | Some (_, es) \<Rightarrow> foldl (scan_entry v cfg data fs_of register domain) s es)"

definition scan_dyn_accounts ::
  "fenv \<Rightarrow> config \<Rightarrow> dynamic_domains \<Rightarrow> string \<Rightarrow> ('s \<Rightarrow> fs) \<Rightarrow> (string \<Rightarrow> string \<Rightarrow> 's \<Rightarrow> 's) \<Rightarrow> 's \<Rightarrow> 's" where
  "scan_dyn_accounts v cfg dyn data fs_of register s =
    foldl (scan_domain v cfg data fs_of register) s
      (remdups_adj (sort (bt_keys (domains cfg) @ bt_keys dyn)))"

section \<open>Setup tokens\<close>

definition hex_digit :: "nat \<Rightarrow> char" where
  "hex_digit n = (if n < 10 then chr (48 + n) else chr (87 + n))"

definition hex :: "string \<Rightarrow> string" where
  "hex s = concat (map (\<lambda>c. [hex_digit (byte c div 16), hex_digit (byte c mod 16)]) s)"

text \<open>\<open>raw\<close>: sixteen random bytes, or a failure of the source, which is fatal.\<close>

definition generate_token :: "string option \<Rightarrow> string outcome" where
  "generate_token raw = (case raw of None \<Rightarrow> Panic | Some r \<Rightarrow> Ret (hex r))"

record setup_invite =
  si_localpart :: string
  si_domain :: string
  si_token :: string

definition invite_url :: "string \<Rightarrow> setup_invite \<Rightarrow> string" where
  "invite_url url i = url @ ''/setup?token='' @ si_token i"

definition static_accounts :: "config \<Rightarrow> (string \<times> string) list" where
  "static_accounts cfg = concat (map (\<lambda>(d, dc). map (Pair d) (bt_keys (d_accounts dc))) (domains cfg))"

definition issue_token ::
  "crypto \<Rightarrow> fenv \<Rightarrow> string \<Rightarrow> (string \<Rightarrow> string \<Rightarrow> string option) \<Rightarrow> setup_invite list \<times> fs
    \<Rightarrow> string \<times> string \<Rightarrow> (setup_invite list \<times> fs) outcome" where
  "issue_token k v data fresh s a =
    (case (s, a) of
       ((invites, f), (domain, localpart)) \<Rightarrow>
         if read_envelope k v data domain localpart f \<noteq> None then Ret (invites, f)
         else
           (let path = token_file data domain localpart;
                existing = or_default [] (read_text v f path) in
            bind_out
              (if existing \<noteq> [] then Ret (existing, f)
               else bind_out (generate_token (fresh domain localpart)) (\<lambda>t.
                 Ret (t, snd (fs_write v path (Text t) (snd (create_dir_all (account_dir data domain localpart) f))))))
              (\<lambda>(token, f'). Ret (invites @ [\<lparr>si_localpart = localpart, si_domain = domain, si_token = token\<rparr>], f'))))"

fun issue_tokens ::
  "crypto \<Rightarrow> fenv \<Rightarrow> string \<Rightarrow> (string \<Rightarrow> string \<Rightarrow> string option) \<Rightarrow> setup_invite list \<times> fs
    \<Rightarrow> (string \<times> string) list \<Rightarrow> (setup_invite list \<times> fs) outcome" where
  "issue_tokens k v data fresh s [] = Ret s"
| "issue_tokens k v data fresh s (a # as) =
    bind_out (issue_token k v data fresh s a) (\<lambda>s'. issue_tokens k v data fresh s' as)"

definition issue_setup_tokens ::
  "crypto \<Rightarrow> fenv \<Rightarrow> config \<Rightarrow> string \<Rightarrow> (string \<Rightarrow> string \<Rightarrow> string option) \<Rightarrow> fs
    \<Rightarrow> (setup_invite list \<times> fs) outcome" where
  "issue_setup_tokens k v cfg data fresh f = issue_tokens k v data fresh ([], f) (static_accounts cfg)"

section \<open>Aliases from the configuration\<close>

definition full_alias :: "(string \<Rightarrow> string) \<Rightarrow> string \<Rightarrow> string \<Rightarrow> string" where
  "full_alias lc domain alias =
    (let a = lc alias in if CHR ''@'' \<in> set a then a else a @ ''@'' @ domain)"

definition build_alias_map :: "(string \<Rightarrow> string) \<Rightarrow> config \<Rightarrow> (string, string) btree" where
  "build_alias_map lc cfg =
    foldl (\<lambda>m (d, dc).
      foldl (\<lambda>m (l, ac).
        (let primary = lc l @ ''@'' @ d in
         foldl (\<lambda>m al. bt_ins (full_alias lc d al) primary m) (bt_ins primary primary m) (ca_alias ac)))
        m (d_accounts dc))
      [] (domains cfg)"

section \<open>Claiming an account\<close>

datatype setup_error =
    EmailRequired | TokenRequired | InvalidToken | AlreadyInitialized | InvalidEnvelope
  | SetupNotFound | SetupUnauthorized

fun setup_status :: "setup_error \<Rightarrow> nat" where
  "setup_status EmailRequired = 400"
| "setup_status TokenRequired = 400"
| "setup_status InvalidEnvelope = 400"
| "setup_status SetupUnauthorized = 401"
| "setup_status InvalidToken = 401"
| "setup_status SetupNotFound = 404"
| "setup_status AlreadyInitialized = 409"

fun setup_message :: "setup_error \<Rightarrow> string" where
  "setup_message EmailRequired = ''email required''"
| "setup_message TokenRequired = ''token required''"
| "setup_message InvalidToken = ''invalid or expired token''"
| "setup_message AlreadyInitialized = ''already initialized''"
| "setup_message InvalidEnvelope = ''invalid envelope''"
| "setup_message SetupNotFound = ''not found''"
| "setup_message SetupUnauthorized = ''unauthorized''"

definition read_envelope_for ::
  "(string \<Rightarrow> string) \<Rightarrow> config \<Rightarrow> dynamic_domains \<Rightarrow> string \<Rightarrow> string \<Rightarrow> fs \<Rightarrow> setup_error + content" where
  "read_envelope_for lc cfg dyn data email_param f =
    (case split_once (CHR ''@'') (lc email_param) of
       None \<Rightarrow> Inl EmailRequired
     | Some (localpart, domain) \<Rightarrow>
         if domain_config_of cfg dyn domain = None then Inl SetupNotFound
         else (case fs_read f (envelope_file data domain localpart) of
                 None \<Rightarrow> Inl SetupNotFound | Some c \<Rightarrow> Inr c))"

definition replace_envelope ::
  "crypto \<Rightarrow> fenv \<Rightarrow> string \<Rightarrow> string \<Rightarrow> string \<Rightarrow> content \<Rightarrow> fs \<Rightarrow> (setup_error + unit) \<times> fs" where
  "replace_envelope k v data domain localpart body f =
    (case env_from_bytes k (as_json v body) of
       Inl _ \<Rightarrow> (Inl InvalidEnvelope, f)
     | Inr e \<Rightarrow>
         (case write_envelope k v data domain localpart e f of
            (b, f') \<Rightarrow> (if b then Inr () else Inl SetupNotFound, f')))"

definition account_for_token ::
  "fenv \<Rightarrow> config \<Rightarrow> string \<Rightarrow> string \<Rightarrow> fs \<Rightarrow> setup_error + string \<times> string" where
  "account_for_token v cfg data token f =
    (if token = [] then Inl TokenRequired
     else (case find (\<lambda>(d, l). map_option trim (read_text v f (token_file data d l)) = Some token) (static_accounts cfg) of
             None \<Rightarrow> Inl InvalidToken | Some a \<Rightarrow> Inr a))"

definition signup ::
  "crypto \<Rightarrow> fenv \<Rightarrow> config \<Rightarrow> string \<Rightarrow> string \<Rightarrow> content \<Rightarrow> fs \<Rightarrow> (setup_error + string \<times> string) \<times> fs" where
  "signup k v cfg data token body f =
    (case account_for_token v cfg data token f of
       Inl e \<Rightarrow> (Inl e, f)
     | Inr (domain, localpart) \<Rightarrow>
         if read_envelope k v data domain localpart f \<noteq> None then (Inl AlreadyInitialized, f)
         else
           (case env_from_bytes k (as_json v body) of
              Inl _ \<Rightarrow> (Inl InvalidEnvelope, f)
            | Inr e \<Rightarrow>
                (case write_envelope k v data domain localpart e f of
                   (False, f') \<Rightarrow> (Inl SetupNotFound, f')
                 | (True, f') \<Rightarrow>
                     (Inr (domain, localpart), try_remove v (token_file data domain localpart) f'))))"

record relay_info =
  ri_label :: string
  ri_color :: string
  ri_kind :: string
  ri_domain :: "string option"

definition enc_relay_info :: "relay_info \<Rightarrow> json" where
  "enc_relay_info i = struct [(''label'', Some (JStr (ri_label i))), (''color'', Some (JStr (ri_color i))),
     (''type'', Some (JStr (ri_kind i))), (''domain'', map_option JStr (ri_domain i))]"

definition relay_info_of :: "config \<Rightarrow> relay_info" where
  "relay_info_of cfg = \<lparr>ri_label = relay_label cfg, ri_color = relay_color cfg, ri_kind = ''mail'',
     ri_domain = provision_domain cfg\<rparr>"

declare remove_dir_all_def [eval] remove_tree_def [eval] below_def [eval] envelope_file_def [eval]
  read_envelope_def [eval] write_envelope_def [eval] reserved_domain_dirs_def [eval]
  reserved_account_dirs_def [eval] token_file_def [eval] subdirs_def [eval] sweep_account_def [eval]
  sweep_domain_def [eval] cleanup_orphaned_data_def [eval] scan_entry_def [eval] scan_domain_def [eval]
  scan_dyn_accounts_def [eval] hex_digit_def [eval] hex_def [eval] generate_token_def [eval]
  invite_url_def [eval] static_accounts_def [eval] issue_token_def [eval] issue_setup_tokens_def [eval]
  full_alias_def [eval] build_alias_map_def [eval] read_envelope_for_def [eval] replace_envelope_def [eval]
  account_for_token_def [eval] signup_def [eval] domain_config_of_def [eval]

end
