(* ===== verification/StartupProps.thy ===== *)
theory StartupProps
  imports Startup CredentialsProps
begin

text \<open>
  Properties of startup: exactly which paths the sweep removes, and that a setup token claims an
  account once. The sweep is a pruning of the file tree, decided on the tree it started from.
\<close>

section \<open>Pruning\<close>

definition prune :: "(node_path \<Rightarrow> bool) \<Rightarrow> fs \<Rightarrow> fs" where
  "prune S f = f\<lparr>fs_files := filter (\<lambda>(p, _). \<not> S p) (fs_files f), fs_dirs := filter (\<lambda>(p, _). \<not> S p) (fs_dirs f)\<rparr>"

lemma bt_get_filter: "bt_get (filter (\<lambda>(p, _). Q p) m) k = (if Q k then bt_get m k else None)"
  unfolding bt_get_def by (induction m) auto

lemma prune_prune: "prune T (prune S f) = prune (\<lambda>p. S p \<or> T p) f"
  unfolding prune_def case_prod_beta' by simp

lemma prune_none [simp]: "prune (\<lambda>_. False) f = f"
proof -
  have "filter (\<lambda>(p, _). True) m = m" for m :: "(node_path, 'a) btree" by (simp add: case_prod_beta)
  then show ?thesis by (simp add: prune_def)
qed

lemma remove_tree_prune: "remove_tree k f = prune (below k) f"
  by (simp add: remove_tree_def prune_def)

lemma is_dir_prune: "is_dir (prune S f) k \<longleftrightarrow> k = [] \<or> is_dir f k \<and> \<not> S k"
  by (auto simp: is_dir_def prune_def bs_mem_def bt_get_filter)

lemma get_prune: "bt_get (fs_files (prune S f)) k = (if S k then None else bt_get (fs_files f) k)"
  by (simp add: prune_def bt_get_filter)

text \<open>Walking a path without \<open>..\<close> passes through the ancestors of its end only.\<close>

lemma below_self [simp]: "below k k" "below [] k" "below k (k @ x)"
  by (simp_all add: below_def)

lemma below_append: "below k p \<longleftrightarrow> (\<exists>x. p = k @ x)"
  by (auto simp: below_def) (metis append_take_drop_id)

lemma walk_below: "walk d cur cs = Some k \<Longrightarrow> ''..'' \<notin> set cs \<Longrightarrow> below cur k"
proof (induction cs arbitrary: cur)
  case (Cons c cs)
  then show ?case by (auto simp: below_append split: if_splits) fastforce+
qed simp

lemma walk_change:
  "walk d cur cs = Some k \<Longrightarrow> ''..'' \<notin> set cs \<Longrightarrow> (\<And>x. below x k \<Longrightarrow> d x \<Longrightarrow> e x) \<Longrightarrow> walk e cur cs = Some k"
proof (induction cs arbitrary: cur)
  case (Cons c cs)
  show ?case
  proof (cases "c = [] \<or> c = ''.''")
    case True
    then show ?thesis using Cons by auto
  next
    case False
    then have w: "walk d (cur @ [c]) cs = Some k" "cs = [] \<or> d (cur @ [c])"
      using Cons.prems(1,2) by (auto split: if_splits)
    have "below (cur @ [c]) k" using walk_below [OF w(1)] Cons.prems(2) by simp
    then show ?thesis using Cons.IH [OF w(1) _ Cons.prems(3)] w(2) False Cons.prems(2,3) by auto
  qed
qed simp

section \<open>A data directory\<close>

text \<open>
  A well-formed tree of plain names, with the data directory \<open>K\<close> in it, reached by a path
  without \<open>..\<close>.
\<close>

definition data_at :: "string \<Rightarrow> node_path \<Rightarrow> fs \<Rightarrow> bool" where
  "data_at data K f \<longleftrightarrow> fs_ok f \<and> (\<forall>k. is_dir f k \<longrightarrow> list_all plain k) \<and> locate f data = Some K \<and> is_dir f K \<and>
    ''..'' \<notin> set (split_on (CHR ''/'') data)"

text \<open>Removing paths strictly inside the data directory leaves it in place.\<close>

definition inside :: "node_path \<Rightarrow> (node_path \<Rightarrow> bool) \<Rightarrow> bool" where
  "inside K S \<longleftrightarrow> (\<forall>p. S p \<longrightarrow> (\<exists>d r. p = K @ d # r))"

lemma inside_above: "inside K S \<Longrightarrow> below x K \<Longrightarrow> \<not> S x"
  by (auto simp: inside_def below_append)

lemma pruned_data:
  assumes "data_at data K f" "inside K S"
  shows "locate (prune S f) data = Some K" "is_dir (prune S f) K"
proof -
  have k: "is_dir f K" "locate f data = Some K" "''..'' \<notin> set (split_on (CHR ''/'') data)"
    using assms(1) by (simp_all add: data_at_def)
  show "is_dir (prune S f) K" using k(1) inside_above [OF assms(2)] by (simp add: is_dir_prune)
  show "locate (prune S f) data = Some K"
    using walk_change [of "is_dir f" "[]" _ K "is_dir (prune S f)"] k inside_above [OF assms(2)]
    by (simp add: locate_def is_dir_prune)
qed

lemma plain_dir: "data_at data K f \<Longrightarrow> is_dir f (K @ xs) \<Longrightarrow> list_all plain xs"
  by (auto simp: data_at_def)

lemma locate_account:
  assumes "data_at data K f" "inside K S" "is_dir f (K @ [d, l])" "\<not> S (K @ [d])" "\<not> S (K @ [d, l])"
  shows "locate (prune S f) (account_dir data d l) = Some (K @ [d, l])" "is_dir (prune S f) (K @ [d, l])"
    "locate (prune S f) (pjoin data d) = Some (K @ [d])" "is_dir (prune S f) (K @ [d])"
proof -
  have p: "plain d" "plain l" using plain_dir [OF assms(1,3)] by simp_all
  have "is_dir f (K @ [d])"
    using assms(1,3) fs_okD(2) [of f "K @ [d, l]"] by (simp add: data_at_def butlast_append)
  then show d: "is_dir (prune S f) (K @ [d])" using assms(4) by (simp add: is_dir_prune)
  show l: "is_dir (prune S f) (K @ [d, l])" using assms(3,5) by (simp add: is_dir_prune)
  show w: "locate (prune S f) (pjoin data d) = Some (K @ [d])"
    using locate_child [OF p(1) pruned_data [OF assms(1,2)]] by simp
  show "locate (prune S f) (account_dir data d l) = Some (K @ [d, l])"
    using locate_child [OF p(2) w d] by (simp add: account_dir_def)
qed

text \<open>The credential of an account is read from what lies below its directory.\<close>

lemma auth_hash_pruned:
  assumes "data_at data K f" "inside K S" "is_dir f (K @ [d, l])" "\<not> S (K @ [d])"
    "\<And>x. \<not> S (K @ [d, l] @ x)"
  shows "read_auth_hash v data d l (prune S f) = read_auth_hash v data d l f"
proof -
  have a: "\<not> S (K @ [d, l])" using assms(5) [of "[]"] by simp
  have n: "locate (prune S f) (auth_hash_file data d l) = Some (K @ [d, l, ''auth_token_hash''])"
    using locate_child [OF _ locate_account(1,2) [OF assms(1-4) a], of "''auth_token_hash''"]
    by (simp add: auth_hash_file_def)
  have "inside K (\<lambda>_. False)" by (simp add: inside_def)
  from locate_child [OF _ locate_account(1,2) [OF assms(1) this assms(3)], of "''auth_token_hash''"]
  have "locate f (auth_hash_file data d l) = Some (K @ [d, l, ''auth_token_hash''])"
    by (simp add: auth_hash_file_def)
  with n assms(5) [of "[''auth_token_hash'']"] show ?thesis
    by (simp add: read_auth_hash_def read_text_def fs_read_def get_prune)
qed

section \<open>The sweep as a pruning\<close>

definition never_fails :: wiping where
  "never_fails = (\<lambda>_. None)"

lemma remove_dir_prune:
  "locate f p = Some k \<Longrightarrow> is_dir f k \<Longrightarrow> remove_dir_all never_fails p f = (True, prune (below k) f)"
  by (simp add: remove_dir_all_def never_fails_def remove_tree_prune)

definition swept_account :: "fenv \<Rightarrow> string \<Rightarrow> domain_config \<Rightarrow> fs \<Rightarrow> string \<Rightarrow> string \<Rightarrow> bool" where
  "swept_account v data dc f d l \<longleftrightarrow> bt_get (d_accounts dc) l = None \<and> read_auth_hash v data d l f = []"

lemma sweep_accounts:
  assumes "data_at data K f"
  shows "inside K S \<Longrightarrow> \<not> S (K @ [d]) \<Longrightarrow> distinct ls \<Longrightarrow>
    (\<And>l x. l \<in> set ls \<Longrightarrow> is_dir f (K @ [d, l]) \<and> \<not> S (K @ [d, l] @ x)) \<Longrightarrow>
    snd (foldl (sweep_account v never_fails data d dc) (g, prune S f) ls) =
      prune (\<lambda>p. S p \<or> (\<exists>l \<in> set ls. swept_account v data dc f d l \<and> below (K @ [d, l]) p)) f"
proof (induction ls arbitrary: S g)
  case (Cons l ls)
  have l: "is_dir f (K @ [d, l])" "\<And>x. \<not> S (K @ [d, l] @ x)" using Cons.prems(4) [of l] by simp_all
  have hash: "read_auth_hash v data d l (prune S f) = read_auth_hash v data d l f"
    by (rule auth_hash_pruned [OF assms Cons.prems(1) l(1) Cons.prems(2) l(2)])
  show ?case
  proof (cases "swept_account v data dc f d l")
    case False
    then have "sweep_account v never_fails data d dc (g, prune S f) l = (g, prune S f)"
      by (auto simp: sweep_account_def swept_account_def hash)
    moreover have "(\<exists>l' \<in> set (l # ls). swept_account v data dc f d l' \<and> below (K @ [d, l']) p) \<longleftrightarrow>
        (\<exists>l' \<in> set ls. swept_account v data dc f d l' \<and> below (K @ [d, l']) p)" for p
      using False by auto
    ultimately show ?thesis using Cons.IH [OF Cons.prems(1,2)] Cons.prems(3,4) by simp
  next
    case True
    let ?S = "\<lambda>p. S p \<or> below (K @ [d, l]) p"
    have "\<not> S (K @ [d, l])" using l(2) [of "[]"] by simp
    note loc = locate_account(1,2) [OF assms Cons.prems(1) l(1) Cons.prems(2) this]
    obtain g' where "sweep_account v never_fails data d dc (g, prune S f) l = (g', prune ?S f)"
      using True remove_dir_prune [OF loc] by (auto simp: sweep_account_def swept_account_def hash prune_prune)
    moreover have "inside K ?S" using Cons.prems(1) by (auto simp: inside_def below_append)
    moreover have "\<not> ?S (K @ [d])" using Cons.prems(2) by (auto simp: below_append)
    moreover have "is_dir f (K @ [d, l']) \<and> \<not> ?S (K @ [d, l'] @ x)" if "l' \<in> set ls" for l' x
      using Cons.prems(4) [of l' x] Cons.prems(3) that by (auto simp: below_append)
    ultimately have "snd (foldl (sweep_account v never_fails data d dc) (g, prune S f) (l # ls)) =
        prune (\<lambda>p. ?S p \<or> (\<exists>l' \<in> set ls. swept_account v data dc f d l' \<and> below (K @ [d, l']) p)) f"
      using Cons.IH [of ?S g'] Cons.prems(3) by simp
    also have "(\<lambda>p. ?S p \<or> (\<exists>l' \<in> set ls. swept_account v data dc f d l' \<and> below (K @ [d, l']) p)) =
        (\<lambda>p. S p \<or> (\<exists>l' \<in> set (l # ls). swept_account v data dc f d l' \<and> below (K @ [d, l']) p))"
      using True by auto
    finally show ?thesis .
  qed
qed simp

text \<open>The directories an account sweep sees.\<close>

lemma bt_ok_filter_keys: "bt_ok m \<Longrightarrow> bt_ok (filter (\<lambda>(p, _). Q p) m)"
proof -
  have "map fst (filter (\<lambda>(p, _). Q p) m) = filter Q (map fst m)" by (induction m) auto
  then show "bt_ok m \<Longrightarrow> bt_ok (filter (\<lambda>(p, _). Q p) m)" by (simp add: bt_ok_def sorted_wrt_filter)
qed

lemma subdirs_read:
  assumes "bt_ok (fs_dirs f)" "locate f p = Some k" "is_dir f k"
  shows "\<exists>es. read_dir f p = Some (k, es) \<and> distinct (subdirs res es) \<and>
    set (subdirs res es) = {n. is_dir f (k @ [n]) \<and> n \<notin> set res}"
proof -
  let ?es = "children k Some (fs_files f) @ children k (\<lambda>_. None) (fs_dirs f)"
  let ?ds = "filter (\<lambda>(p, _). p \<noteq> [] \<and> butlast p = k) (fs_dirs f)"
  have ns: "map fst (filter (\<lambda>(_, c). c = None) ?es) = map (\<lambda>(p, _). last p) ?ds"
    unfolding case_prod_beta by (simp add: children_def comp_def case_prod_beta filter_map filter_empty_conv)
  have "distinct (map fst (fs_dirs f))" using assms(1) by (auto simp: bt_ok_def strict_sorted_iff)
  then have "distinct (map fst ?ds)" by (induction "fs_dirs f") (auto simp: distinct_map intro: inj_on_subset)
  then have "distinct (map (\<lambda>(p, _). last p) ?ds)"
    by (auto simp: distinct_map inj_on_def) (metis append_butlast_last_id)+
  moreover have "n \<in> set (map (\<lambda>(p, _). last p) ?ds) \<longleftrightarrow> is_dir f (k @ [n])" for n
  proof -
    have "is_dir f (k @ [n]) \<longleftrightarrow> k @ [n] \<in> fst ` set (fs_dirs f)"
      using bt_get_None [of "fs_dirs f" "k @ [n]"]
      by (cases "bt_get (fs_dirs f) (k @ [n])") (auto simp: is_dir_def bs_mem_def)
    then show ?thesis by (force simp: image_iff)
  qed
  moreover have "subdirs res ?es = sort (filter (\<lambda>n. n \<notin> set res) (map (\<lambda>(p, _). last p) ?ds))"
    by (simp only: subdirs_def ns)
  ultimately have "distinct (subdirs res ?es)" "set (subdirs res ?es) = {n. is_dir f (k @ [n]) \<and> n \<notin> set res}"
    by (simp_all only: distinct_sort distinct_filter set_sort set_filter)
  then show ?thesis using assms(2,3) by (intro exI [of _ ?es]) (simp add: read_dir_def)
qed

lemma pruned_dirs_ok: "data_at data K f \<Longrightarrow> bt_ok (fs_dirs (prune S f))"
  by (simp add: data_at_def fs_ok_def prune_def bt_ok_filter_keys)

text \<open>What goes with the domain \<open>d\<close>.\<close>

definition swept_below :: "fenv \<Rightarrow> config \<Rightarrow> dynamic_domains \<Rightarrow> string \<Rightarrow> node_path \<Rightarrow> fs \<Rightarrow> string \<Rightarrow> string list \<Rightarrow> bool" where
  "swept_below v cfg dyn data K f d r \<longleftrightarrow>
    (case domain_config_of cfg dyn d of
       None \<Rightarrow> True
     | Some dc \<Rightarrow>
         (case r of
            [] \<Rightarrow> False
          | l # _ \<Rightarrow> l \<notin> set reserved_account_dirs \<and> is_dir f (K @ [d, l]) \<and> swept_account v data dc f d l))"

lemma sweep_domain_prune:
  assumes "data_at data K f" "inside K S" "is_dir f (K @ [d])" "\<And>r. \<not> S (K @ d # r)"
  shows "snd (sweep_domain v never_fails cfg dyn data (g, prune S f) d) =
    prune (\<lambda>p. S p \<or> (\<exists>r. p = K @ d # r \<and> swept_below v cfg dyn data K f d r)) f"
proof -
  have p: "plain d" using plain_dir [OF assms(1,3)] by simp
  have d: "\<not> S (K @ [d])" "is_dir (prune S f) (K @ [d])" using assms(3,4) by (simp_all add: is_dir_prune)
  have loc: "locate (prune S f) (pjoin data d) = Some (K @ [d])"
    using locate_child [OF p pruned_data [OF assms(1,2)]] by simp
  show ?thesis
  proof (cases "domain_config_of cfg dyn d")
    case None
    have "below (K @ [d]) p \<longleftrightarrow> (\<exists>r. p = K @ d # r \<and> swept_below v cfg dyn data K f d r)" for p
      using None by (auto simp: below_append swept_below_def)
    then show ?thesis
      using None remove_dir_prune [OF loc d(2)] by (simp add: sweep_domain_def prune_prune)
  next
    case (Some dc)
    obtain es where es: "read_dir (prune S f) (pjoin data d) = Some (K @ [d], es)"
      "distinct (subdirs reserved_account_dirs es)"
      "set (subdirs reserved_account_dirs es) = {n. is_dir (prune S f) (K @ [d, n]) \<and> n \<notin> set reserved_account_dirs}"
      using subdirs_read [OF pruned_dirs_ok [OF assms(1)] loc d(2), of reserved_account_dirs] by auto
    have ls: "set (subdirs reserved_account_dirs es) = {n. is_dir f (K @ [d, n]) \<and> n \<notin> set reserved_account_dirs}"
      using es(3) assms(4) by (auto simp: is_dir_prune)
    have "snd (foldl (sweep_account v never_fails data d dc) (g, prune S f) (subdirs reserved_account_dirs es)) =
      prune (\<lambda>p. S p \<or> (\<exists>l \<in> set (subdirs reserved_account_dirs es). swept_account v data dc f d l \<and> below (K @ [d, l]) p)) f"
      by (rule sweep_accounts [OF assms(1,2) d(1) es(2)]) (use ls assms(4) in auto)
    moreover have "(\<exists>l \<in> set (subdirs reserved_account_dirs es). swept_account v data dc f d l \<and> below (K @ [d, l]) p) \<longleftrightarrow>
        (\<exists>r. p = K @ d # r \<and> swept_below v cfg dyn data K f d r)" for p
      unfolding ls by (force simp: swept_below_def Some below_append neq_Nil_conv split: list.splits)
    ultimately show ?thesis using Some es(1) by (simp add: sweep_domain_def)
  qed
qed

lemma sweep_domains:
  assumes "data_at data K f"
  shows "inside K S \<Longrightarrow> distinct ds \<Longrightarrow> (\<And>d r. d \<in> set ds \<Longrightarrow> is_dir f (K @ [d]) \<and> \<not> S (K @ d # r)) \<Longrightarrow>
    snd (foldl (sweep_domain v never_fails cfg dyn data) (g, prune S f) ds) =
      prune (\<lambda>p. S p \<or> (\<exists>d r. d \<in> set ds \<and> p = K @ d # r \<and> swept_below v cfg dyn data K f d r)) f"
proof (induction ds arbitrary: S g)
  case (Cons d ds)
  let ?S = "\<lambda>p. S p \<or> (\<exists>r. p = K @ d # r \<and> swept_below v cfg dyn data K f d r)"
  have "is_dir f (K @ [d])" "\<And>r. \<not> S (K @ d # r)" using Cons.prems(3) [of d] by simp_all
  from sweep_domain_prune [OF assms Cons.prems(1) this, of v cfg dyn g]
  obtain g' where step: "sweep_domain v never_fails cfg dyn data (g, prune S f) d = (g', prune ?S f)"
    by (metis prod.collapse)
  have "snd (foldl (sweep_domain v never_fails cfg dyn data) (g', prune ?S f) ds) =
      prune (\<lambda>p. ?S p \<or> (\<exists>d r. d \<in> set ds \<and> p = K @ d # r \<and> swept_below v cfg dyn data K f d r)) f"
  proof (rule Cons.IH)
    show "inside K ?S" using Cons.prems(1) by (auto simp: inside_def)
    show "distinct ds" using Cons.prems(2) by simp
    show "is_dir f (K @ [d']) \<and> \<not> ?S (K @ d' # r)" if "d' \<in> set ds" for d' r
      using Cons.prems(2) Cons.prems(3) [of d' r] that by auto
  qed
  moreover have "(\<lambda>p. ?S p \<or> (\<exists>d r. d \<in> set ds \<and> p = K @ d # r \<and> swept_below v cfg dyn data K f d r)) =
      (\<lambda>p. S p \<or> (\<exists>d' r. d' \<in> set (d # ds) \<and> p = K @ d' # r \<and> swept_below v cfg dyn data K f d' r))"
    by auto
  ultimately show ?case by (simp add: step)
qed simp

definition swept :: "fenv \<Rightarrow> config \<Rightarrow> dynamic_domains \<Rightarrow> string \<Rightarrow> node_path \<Rightarrow> fs \<Rightarrow> node_path \<Rightarrow> bool" where
  "swept v cfg dyn data K f p \<longleftrightarrow>
    (\<exists>d r. p = K @ d # r \<and> is_dir f (K @ [d]) \<and> d \<notin> set reserved_domain_dirs \<and> swept_below v cfg dyn data K f d r)"

lemma cleanup_prunes:
  assumes "data_at data K f"
  shows "snd (cleanup_orphaned_data v never_fails cfg dyn data f) = prune (swept v cfg dyn data K f) f"
proof -
  have i: "inside K (\<lambda>_. False)" by (simp add: inside_def)
  note loc = pruned_data [OF assms i, simplified]
  obtain es where es: "read_dir f data = Some (K, es)" "distinct (subdirs reserved_domain_dirs es)"
    "set (subdirs reserved_domain_dirs es) = {n. is_dir f (K @ [n]) \<and> n \<notin> set reserved_domain_dirs}"
    using subdirs_read [OF _ loc, of reserved_domain_dirs] pruned_dirs_ok [OF assms, of "\<lambda>_. False"] by auto
  have "snd (foldl (sweep_domain v never_fails cfg dyn data) ([], prune (\<lambda>_. False) f) (subdirs reserved_domain_dirs es)) =
    prune (\<lambda>p. False \<or> (\<exists>d r. d \<in> set (subdirs reserved_domain_dirs es) \<and> p = K @ d # r \<and> swept_below v cfg dyn data K f d r)) f"
    by (rule sweep_domains [OF assms i es(2)]) (use es(3) in auto)
  moreover have "(\<lambda>p. False \<or> (\<exists>d r. d \<in> set (subdirs reserved_domain_dirs es) \<and> p = K @ d # r \<and> swept_below v cfg dyn data K f d r)) =
    swept v cfg dyn data K f"
    unfolding es(3) by (auto simp: swept_def fun_eq_iff)
  ultimately show ?thesis by (simp add: cleanup_orphaned_data_def es(1))
qed

section \<open>What the sweep removes\<close>

text \<open>An account the sweep keeps.\<close>

definition kept :: "fenv \<Rightarrow> config \<Rightarrow> dynamic_domains \<Rightarrow> string \<Rightarrow> fs \<Rightarrow> string \<Rightarrow> string \<Rightarrow> bool" where
  "kept v cfg dyn data f d l \<longleftrightarrow> d \<in> {''_domains'', ''_queue''} \<or>
    (\<exists>dc. domain_config_of cfg dyn d = Some dc \<and>
       (l = ''peers'' \<or> bt_get (d_accounts dc) l \<noteq> None \<or> read_auth_hash v data d l f \<noteq> []))"

lemma swept_account_iff:
  assumes "data_at data K f" "is_dir f (K @ [d, l])"
  shows "swept v cfg dyn data K f (K @ [d, l] @ x) \<longleftrightarrow> \<not> kept v cfg dyn data f d l"
proof -
  have "is_dir f (K @ [d])"
    using assms fs_okD(2) [of f "K @ [d, l]"] by (simp add: data_at_def butlast_append)
  then show ?thesis
    using assms(2)
    by (auto simp: swept_def swept_below_def kept_def swept_account_def reserved_domain_dirs_def
      reserved_account_dirs_def split: option.splits)
qed

text \<open>
  The paths the sweep is meant to take: in a directory of the data directory that is not
  \<open>_domains\<close> or \<open>_queue\<close>, everything when it is named like no known domain, and otherwise what is
  in or below an account directory that is neither \<open>peers\<close>, nor in the configuration letter by
  letter, nor has a non-empty \<open>auth_token_hash\<close>.
\<close>

definition orphaned :: "fenv \<Rightarrow> config \<Rightarrow> dynamic_domains \<Rightarrow> string \<Rightarrow> node_path \<Rightarrow> fs \<Rightarrow> node_path \<Rightarrow> bool" where
  "orphaned v cfg dyn data K f p \<longleftrightarrow>
    (\<exists>d r. p = K @ d # r \<and> is_dir f (K @ [d]) \<and> d \<notin> {''_domains'', ''_queue''} \<and>
      (case domain_config_of cfg dyn d of
         None \<Rightarrow> True
       | Some dc \<Rightarrow> \<exists>l x. r = l # x \<and> is_dir f (K @ [d, l]) \<and> l \<noteq> ''peers'' \<and>
           bt_get (d_accounts dc) l = None \<and> read_auth_hash v data d l f = []))"

lemma swept_orphaned: "swept v cfg dyn data K f p \<longleftrightarrow> orphaned v cfg dyn data K f p"
proof -
  have "swept_below v cfg dyn data K f d r \<longleftrightarrow>
    (case domain_config_of cfg dyn d of
         None \<Rightarrow> True
       | Some dc \<Rightarrow> \<exists>l x. r = l # x \<and> is_dir f (K @ [d, l]) \<and> l \<noteq> ''peers'' \<and>
           bt_get (d_accounts dc) l = None \<and> read_auth_hash v data d l f = [])" for d r
    by (cases r) (auto simp: swept_below_def swept_account_def reserved_account_dirs_def split: option.split)
  then show ?thesis by (simp add: swept_def orphaned_def reserved_domain_dirs_def)
qed

text \<open>
  C28. What the sweep at startup removes, on a disk where removals work. A file or a directory is
  gone afterwards if it is in a directory of the data directory that is named like no known domain,
  other than \<open>_domains\<close> and \<open>_queue\<close> (the whole of it goes, DKIM key included), or in a known
  domain in an account directory that is not \<open>peers\<close>, not in the configuration letter by letter
  and without a non-empty \<open>auth_token_hash\<close>. Every other file and directory of the disk is as it
  was. Nothing else is asked of an account, in particular no device key.
\<close>

theorem sweep_removes_exactly:
  assumes "data_at data K f" "cleanup_orphaned_data v never_fails cfg dyn data f = (names, f')"
  shows "bt_get (fs_files f') p = (if orphaned v cfg dyn data K f p then None else bt_get (fs_files f) p) \<and>
    (is_dir f' p \<longleftrightarrow> is_dir f p \<and> \<not> orphaned v cfg dyn data K f p)"
proof -
  have f': "f' = prune (swept v cfg dyn data K f) f" using cleanup_prunes [OF assms(1), of v cfg dyn] assms(2) by simp
  have "\<not> orphaned v cfg dyn data K f []" by (simp add: orphaned_def)
  moreover have "is_dir f []" by (simp add: is_dir_def)
  ultimately show ?thesis unfolding f' is_dir_prune get_prune swept_orphaned by auto
qed

section \<open>Claiming an account\<close>

lemma signup_Inr:
  assumes "signup k v cfg data token body f = (Inr (d, l), f')"
  obtains e f1 where "env_from_bytes k (as_json v body) = Inr e" "read_envelope k v data d l f = None"
    "write_envelope k v data d l e f = (True, f1)" "f' = try_remove v (token_file data d l) f1"
  using assms by (auto simp: signup_def split: sum.splits prod.splits if_splits bool.splits)

lemma write_account_file_read:
  assumes "write_account_file v data d l name c f = (True, f')"
  shows "fs_read f' (pjoin (account_dir data d l) name) = Some c"
proof -
  from assms obtain f1 where w: "fs_write v (pjoin (account_dir data d l) name) c f1 = (True, f')"
    by (auto simp: write_account_file_def split: prod.splits bool.splits)
  from fs_write_cases [OF w] show ?thesis by (auto simp: fs_read_def)
qed

lemma read_after_try_remove:
  assumes "plain a" "plain b" "a \<noteq> b" "fs_read f (pjoin p a) = Some c"
  shows "fs_read (try_remove v (pjoin p b) f) (pjoin p a) = Some c"
proof -
  obtain k where k: "locate f (pjoin p a) = Some (k @ [a])" "locate f p = Some k"
    using assms(4) locate_childD [OF assms(1), of f p] by (auto simp: fs_read_def bind_eq_Some_conv)
  show ?thesis
  proof (cases "fs_remove v (pjoin p b) f")
    case (Removed f')
    then obtain k' where k': "locate f (pjoin p b) = Some k'" "f' = put_file k' None f"
      by (auto simp: fs_remove_def split: option.splits if_splits)
    with locate_childD [OF assms(2) k'(1)] k(2) have "k' = k @ [b]" by auto
    then show ?thesis using Removed k' k assms(3,4) by (simp add: try_remove_def fs_read_def)
  qed (use assms(4) in \<open>simp_all add: try_remove_def\<close>)
qed

text \<open>A setup token claims an account once. When signup succeeds, the envelope that was sent is
  the one read back for the account, and no later signup, with this token or another, whatever
  the removal of the token file did, can succeed for that account on those files.\<close>

theorem signup_claims_once:
  assumes "b64_ok k" "signup k v cfg data token body f = (Inr (d, l), f')"
  shows "(\<exists>e. env_from_bytes k (as_json v body) = Inr e \<and> read_envelope k v data d l f' = Some e) \<and>
    fst (signup k v cfg data token' body' f') \<noteq> Inr (d, l)"
proof -
  from assms(2) obtain e f1 where s: "env_from_bytes k (as_json v body) = Inr e"
    "write_envelope k v data d l e f = (True, f1)" "f' = try_remove v (token_file data d l) f1"
    by (rule signup_Inr)
  have "fs_read f1 (envelope_file data d l) = Some (Json (env_to_bytes k e))"
    using s(2) write_account_file_read by (simp add: write_envelope_def envelope_file_def)
  then have "fs_read f' (envelope_file data d l) = Some (Json (env_to_bytes k e))"
    using read_after_try_remove [of "''envelope.json''" "''setup.token''"] s(3)
    by (simp add: envelope_file_def token_file_def plain_def)
  then have r: "read_envelope k v data d l f' = Some e"
    using env_bytes_roundtrip [OF assms(1) s(1)] by (simp add: read_envelope_def as_json_def)
  moreover have "fst (signup k v cfg data token' body' f') \<noteq> Inr (d, l)"
    by (auto simp: signup_def r split: sum.splits prod.splits if_splits bool.splits)
  ultimately show ?thesis using s(1) by auto
qed

section \<open>The hypotheses hold\<close>

text \<open>An account with a device key and a session, and without a static token.\<close>

definition demo_device_only :: fs where
  "demo_device_only = put_file [''d'', ''x'', ''ana'', ''auth_token_hash''] None demo_in"

definition demo_domain :: domain_config where
  "demo_domain = \<lparr>dkim_selector = [], d_accounts = [(''Bea'', \<lparr>ca_alias = [''B'']\<rparr>)], allow_provision = True,
     provision_secret = [], authorized_did_domain = False\<rparr>"

definition demo_cfg :: config where
  "demo_cfg = config_default\<lparr>domains := [(''x'', demo_domain)]\<rparr>"

lemma demo_device_dirs: "is_dir demo_device_only k \<longleftrightarrow> k \<in> {[], [''d''], [''d'', ''x''], [''d'', ''x'', ''ana''],
    [''d'', ''x'', ''ana'', ''devices''], [''d'', ''x'', ''ana'', ''sessions'']}"
  unfolding demo_device_only_def put_file_simps by (simp add: is_dir_def bs_mem_set demo_in_eval)

lemma demo_data: "data_at ''d'' [''d''] demo_device_only"
proof -
  have "locate demo_device_only ''d'' = Some [''d'']" by (simp add: locate_def demo_device_dirs)
  moreover have "\<forall>k. is_dir demo_device_only k \<longrightarrow> list_all plain k" by (auto simp: demo_device_dirs plain_def)
  moreover have "fs_ok demo_device_only" unfolding demo_device_only_def by (rule fs_ok_put_file [OF demo_in_ok]) simp
  ultimately show ?thesis by (simp add: data_at_def demo_device_dirs)
qed

lemma demo_not_kept: "\<not> kept (de_files demo_dev) demo_cfg [] ''d'' demo_device_only ''x'' ''ana''"
  by (simp add: kept_def demo_cfg_def demo_domain_def demo_device_only_def demo_in_eval demo_defs eval)

lemma demo_orphaned: "orphaned (de_files demo_dev) demo_cfg [] ''d'' [''d''] demo_device_only [''d'', ''x'', ''ana'']"
  using demo_not_kept swept_account_iff [OF demo_data, of "''x''" "''ana''" "de_files demo_dev" demo_cfg "[]" "[]"]
  by (simp add: swept_orphaned demo_device_dirs)

theorem sweep_removes_exactly_witness:
  "has_device_key ''d/x/ana'' demo_key demo_device_only \<and> is_dir demo_device_only [''d'', ''x'', ''ana''] \<and>
   (\<exists>names f'. cleanup_orphaned_data (de_files demo_dev) never_fails demo_cfg [] ''d'' demo_device_only = (names, f') \<and>
      \<not> is_dir f' [''d'', ''x'', ''ana''] \<and> is_dir f' [''d'', ''x''])"
proof -
  obtain names f' where c: "cleanup_orphaned_data (de_files demo_dev) never_fails demo_cfg [] ''d'' demo_device_only = (names, f')"
    by fastforce
  note sweep = sweep_removes_exactly [OF demo_data c]
  have "\<not> orphaned (de_files demo_dev) demo_cfg [] ''d'' [''d''] demo_device_only [''d'', ''x'']"
    by (simp add: orphaned_def demo_cfg_def demo_domain_def domain_config_of_def bt_get_def)
  then have "is_dir f' [''d'', ''x'']" "\<not> is_dir f' [''d'', ''x'', ''ana'']"
    using sweep [of "[''d'', ''x'']"] sweep [of "[''d'', ''x'', ''ana'']"] demo_orphaned by (simp_all add: demo_device_dirs)
  moreover have "has_device_key ''d/x/ana'' demo_key demo_device_only"
    by (simp add: demo_device_only_def demo_in_eval demo_defs eval)
  moreover have "is_dir demo_device_only [''d'', ''x'', ''ana'']" by (simp add: demo_device_dirs)
  ultimately show ?thesis using c by blast
qed

definition demo_claimed :: fs where
  "demo_claimed = \<lparr>fs_files = [([''d'', ''x'', ''Bea'', ''setup.token''], Text ''t'')],
     fs_dirs = bs_of [[''d''], [''d'', ''x''], [''d'', ''x'', ''Bea'']]\<rparr>"

theorem signup_claims_once_witness:
  "fst (signup demo_base (de_files demo_dev) demo_cfg ''d'' ''t'' (Json (env_to_bytes demo_base (demo_envelope ''w'')))
     (snd (signup demo_base (de_files demo_dev) demo_cfg ''d'' ''t'' (Json (env_to_bytes demo_base (demo_envelope ''m''))) demo_claimed)))
   \<noteq> Inr (''x'', ''Bea'')"
proof -
  have "env_bounds (demo_envelope ''m'')" by (simp add: env_bounds_def demo_envelope_def default_kdf_def)
  then have e: "env_from_bytes demo_base (Some (env_to_bytes demo_base (demo_envelope ''m''))) = Inr (demo_envelope ''m'')"
    using key_envelope_roundtrip [OF demo_sealing_ok(2)]
    by (simp add: env_from_bytes_def env_to_bytes_def env_check_def demo_envelope_def current_version_def min_salt_size_def
      aes_nonce_size_def aes_tag_size_def auth_hash_size_def default_kdf_def)
  have "account_for_token (de_files demo_dev) demo_cfg ''d'' ''t'' demo_claimed = Inr (''x'', ''Bea'')"
    by (simp add: account_for_token_def static_accounts_def token_file_def demo_cfg_def demo_domain_def demo_claimed_def demo_defs eval)
  moreover have "read_envelope demo_base (de_files demo_dev) ''d'' ''x'' ''Bea'' demo_claimed = None"
    by (simp add: read_envelope_def envelope_file_def demo_claimed_def demo_defs eval)
  moreover have "fst (write_envelope demo_base (de_files demo_dev) ''d'' ''x'' ''Bea'' (demo_envelope ''m'') demo_claimed)"
    by (simp add: write_envelope_def write_account_file_def demo_claimed_def demo_defs eval)
  ultimately have "\<exists>f'. signup demo_base (de_files demo_dev) demo_cfg ''d'' ''t''
      (Json (env_to_bytes demo_base (demo_envelope ''m''))) demo_claimed = (Inr (''x'', ''Bea''), f')"
    using e by (auto simp: signup_def as_json_def split: prod.splits bool.splits)
  then obtain f' where s: "signup demo_base (de_files demo_dev) demo_cfg ''d'' ''t''
      (Json (env_to_bytes demo_base (demo_envelope ''m''))) demo_claimed = (Inr (''x'', ''Bea''), f')" ..
  show ?thesis
    unfolding s snd_conv by (rule conjunct2 [OF signup_claims_once [OF demo_sealing_ok(2) s]])
qed

end
