(* ===== verification/Anchor.thy ===== *)
theory Anchor
  imports Accounts Identity Startup
begin

text \<open>
  The identity anchor: the client (\<open>did/anchor.rs\<close> of \<open>jmapserver\<close>), what its verdicts mean for a
  request (\<open>did/anchor.rs\<close>, \<open>did/bind.rs\<close> of \<open>jmapsmtp\<close>), and the pass that brings the aliases of
  each account in line with its identity (\<open>did/alias_reconcile.rs\<close>). The transport is an
  argument: the answer to each request, if one came.
\<close>

section \<open>Requests\<close>

record anchor_ref =
  an_url :: string
  an_token :: string

definition anchor_ref_of :: "config \<Rightarrow> anchor_ref" where
  "anchor_ref_of cfg = \<lparr>an_url = anchor_url cfg, an_token = anchor_token cfg\<rparr>"

definition is_configured :: "anchor_ref \<Rightarrow> bool" where
  "is_configured a \<longleftrightarrow> an_url a \<noteq> []"

definition endpoint :: "anchor_ref \<Rightarrow> string \<Rightarrow> string" where
  "endpoint a path = trim_end_chars [CHR ''/''] (an_url a) @ path"

record binding_proof =
  bp_sig :: string
  bp_ts :: int
  bp_host :: string

record vouch_proof =
  vp_key :: string
  vp_label :: string
  vp_sig :: string
  vp_ts :: int

record anchor_request =
  ar_method :: string
  ar_url :: string
  ar_token :: string
  ar_body :: "json option"

type_synonym transport = "anchor_request \<Rightarrow> (nat \<times> string) option"

definition ask_anchor :: "transport \<Rightarrow> anchor_ref \<Rightarrow> string \<Rightarrow> string \<Rightarrow> json option \<Rightarrow> (nat \<times> string) option" where
  "ask_anchor tr a method path body =
    tr \<lparr>ar_method = method, ar_url = endpoint a path, ar_token = an_token a, ar_body = body\<rparr>"

text \<open>Percent-encoding of a query value, byte by byte.\<close>

definition unreserved :: "char \<Rightarrow> bool" where
  "unreserved c \<longleftrightarrow> is_upper c \<or> is_lower c \<or> is_digit c \<or> c \<in> {CHR ''-'', CHR ''_'', CHR ''.'', CHR ''~''}"

definition escape_byte :: "char \<Rightarrow> string" where
  "escape_byte c =
    (if unreserved c then [c]
     else if c = CHR '' '' then ''+''
     else [CHR ''%'', hex_upper (byte c div 16), hex_upper (byte c mod 16)])"

definition query_escape :: "string \<Rightarrow> string" where
  "query_escape s = concat (map escape_byte s)"

section \<open>Verdicts\<close>

definition claim ::
  "transport \<Rightarrow> anchor_ref \<Rightarrow> string \<Rightarrow> string \<Rightarrow> string \<Rightarrow> binding_proof \<Rightarrow> verdict" where
  "claim tr a localpart domain did proof =
    (if \<not> is_configured a then VError
     else (case ask_anchor tr a ''POST'' (''/_anchor/identity/'' @ localpart)
                  (Some (obj [(''domain'', JStr domain), (''did'', JStr did), (''did_sig'', JStr (bp_sig proof)),
                     (''bind_ts'', JNum (bp_ts proof)), (''host'', JStr (bp_host proof))])) of
             None \<Rightarrow> VError
           | Some (status, _) \<Rightarrow>
               if status = 200 \<or> status = 201 then VOk
               else if status = 409 then VConflict
               else if status = 401 then VInvalid
               else VError))"

definition verify_binding ::
  "transport \<Rightarrow> anchor_ref \<Rightarrow> string \<Rightarrow> string \<Rightarrow> string \<Rightarrow> binding_proof \<Rightarrow> verdict" where
  "verify_binding tr a localpart domain did proof =
    (if \<not> is_configured a then VError
     else (case ask_anchor tr a ''POST'' ''/_anchor/verify-binding''
                  (Some (obj [(''domain'', JStr domain), (''username'', JStr localpart), (''did'', JStr did),
                     (''did_sig'', JStr (bp_sig proof)), (''bind_ts'', JNum (bp_ts proof)),
                     (''host'', JStr (bp_host proof))])) of
             None \<Rightarrow> VError
           | Some (status, _) \<Rightarrow> if status = 200 then VOk else if status = 401 then VInvalid else VError))"

definition anchor_vouch ::
  "transport \<Rightarrow> anchor_ref \<Rightarrow> string \<Rightarrow> string \<Rightarrow> string \<Rightarrow> vouch_proof \<Rightarrow> verdict" where
  "anchor_vouch tr a username domain did proof =
    (if \<not> is_configured a then VError
     else (case ask_anchor tr a ''POST'' ''/_anchor/devices/vouch''
                  (Some (obj [(''did'', JStr did), (''device_pub_key'', JStr (vp_key proof)),
                     (''label'', JStr (vp_label proof)), (''bind_ts'', JNum (vp_ts proof)),
                     (''sig'', JStr (vp_sig proof)), (''username'', JStr username), (''domain'', JStr domain)])) of
             None \<Rightarrow> VError
           | Some (status, _) \<Rightarrow>
               if status = 200 then VOk else if status = 400 \<or> status = 401 then VInvalid else VError))"

definition release_ok :: "transport \<Rightarrow> anchor_ref \<Rightarrow> string \<Rightarrow> string \<Rightarrow> bool" where
  "release_ok tr a localpart domain =
    (if \<not> is_configured a then False
     else (case ask_anchor tr a ''DELETE'' (''/_anchor/identity/'' @ localpart @ ''?domain='' @ query_escape domain) None of
             None \<Rightarrow> False
           | Some (status, _) \<Rightarrow> status \<noteq> 403 \<and> 200 \<le> status \<and> status < 300))"

datatype alias_lookup = NotBound | Unknown | Resolved "string option" "string option"

definition dec_alias_target :: "json \<Rightarrow> (string option \<times> string option) option" where
  "dec_alias_target j =
    (if \<not> struct_ok 2 j then None
     else do {
       u \<leftarrow> fld j 0 ''currentUsername'' (dec_opt dec_str) None;
       d \<leftarrow> fld j 1 ''currentDomain'' (dec_opt dec_str) None;
       Some (u, d)
     })"

definition current_alias :: "transport \<Rightarrow> fenv \<Rightarrow> anchor_ref \<Rightarrow> string \<Rightarrow> string \<Rightarrow> alias_lookup" where
  "current_alias tr v a localpart domain =
    (if \<not> is_configured a then Unknown
     else (case ask_anchor tr a ''GET'' (''/_anchor/alias-target/'' @ localpart @ ''?domain='' @ query_escape domain) None of
             None \<Rightarrow> Unknown
           | Some (status, body) \<Rightarrow>
               if status = 404 then NotBound
               else if status = 200 then
                 (case Option.bind (f_parse v body) dec_alias_target of
                    None \<Rightarrow> Unknown | Some (u, d) \<Rightarrow> Resolved u d)
               else Unknown))"

record drain_report =
  dr_released :: "(string \<times> string) list"
  dr_failed :: "(string \<times> string) list"

definition drain :: "transport \<Rightarrow> anchor_ref \<Rightarrow> (string \<times> string) list \<Rightarrow> drain_report" where
  "drain tr a names =
    foldl (\<lambda>r (l, d).
      if release_ok tr a l d then r\<lparr>dr_released := dr_released r @ [(l, d)]\<rparr>
      else r\<lparr>dr_failed := dr_failed r @ [(l, d)]\<rparr>)
    \<lparr>dr_released = [], dr_failed = []\<rparr> names"

section \<open>Binding an identity to an account\<close>

definition max_body :: nat where
  "max_body = 2 ^ 12"

record bind_request =
  br_did :: string
  br_ts :: int
  br_sig :: string

definition dec_bind_request :: "json \<Rightarrow> bind_request option" where
  "dec_bind_request j =
    (if \<not> struct_ok 3 j then None
     else do {
       d \<leftarrow> fld j 0 ''did'' dec_str [];
       t \<leftarrow> fld j 1 ''bind_ts'' dec_i64 0;
       s \<leftarrow> fld j 2 ''did_sig'' dec_str [];
       Some \<lparr>br_did = d, br_ts = t, br_sig = s\<rparr>
     })"

datatype bind_refusal =
    BindDidRequired | NoAnchor | BindSigRequired | BindingRejected | BindMismatch | BindAnchorUnavailable

fun bind_status :: "bind_refusal \<Rightarrow> nat" where
  "bind_status BindDidRequired = 400"
| "bind_status NoAnchor = 400"
| "bind_status BindSigRequired = 400"
| "bind_status BindingRejected = 401"
| "bind_status BindMismatch = 409"
| "bind_status BindAnchorUnavailable = 503"

fun bind_message :: "bind_refusal \<Rightarrow> string" where
  "bind_message BindDidRequired = ''did required''"
| "bind_message NoAnchor = ''did not supported on this relay (no identity anchor)''"
| "bind_message BindSigRequired = ''did_sig required''"
| "bind_message BindingRejected = ''did binding rejected''"
| "bind_message BindMismatch = ''did mismatch for this identity''"
| "bind_message BindAnchorUnavailable = ''identity anchor unavailable''"

definition bind_decide :: "fenv \<Rightarrow> bool \<Rightarrow> string \<Rightarrow> bind_refusal + bind_request" where
  "bind_decide v configured body =
    (let q = or_default \<lparr>br_did = [], br_ts = 0, br_sig = []\<rparr>
               (Option.bind (f_parse v (take max_body body)) dec_bind_request) in
     if br_did q = [] then Inl BindDidRequired
     else if \<not> configured then Inl NoAnchor
     else if br_sig q = [] then Inl BindSigRequired
     else Inr q)"

fun bind_verdict :: "verdict \<Rightarrow> bind_refusal option" where
  "bind_verdict VOk = None"
| "bind_verdict VInvalid = Some BindingRejected"
| "bind_verdict VConflict = Some BindMismatch"
| "bind_verdict VError = Some BindAnchorUnavailable"

section \<open>Reconciling aliases\<close>

text \<open>\<open>unreachable!\<close> is a panic.\<close>

definition desired_alias :: "config \<Rightarrow> alias_lookup \<Rightarrow> string option outcome" where
  "desired_alias cfg l =
    (case l of
       NotBound \<Rightarrow> Panic
     | Unknown \<Rightarrow> Panic
     | Resolved (Some u) (Some d) \<Rightarrow>
         Ret (if bt_get (domains cfg) d \<noteq> None then Some (u @ ''@'' @ d) else None)
     | Resolved _ _ \<Rightarrow> Ret None)"

definition alias_plan :: "string list \<Rightarrow> string option \<Rightarrow> string list \<times> string option" where
  "alias_plan current desired =
    (filter (\<lambda>a. desired \<noteq> Some a) current,
     case desired of None \<Rightarrow> None | Some d \<Rightarrow> if d \<in> set current then None else Some d)"

definition apply_plan :: "(string \<Rightarrow> string) \<Rightarrow> string \<Rightarrow> string list \<times> string option \<Rightarrow> accounts \<Rightarrow> accounts" where
  "apply_plan lc primary plan t =
    (let t' = foldl (\<lambda>t al. snd (remove_alias al primary t)) t (fst plan) in
     case snd plan of None \<Rightarrow> t' | Some want \<Rightarrow> snd (add_alias lc want primary t'))"

definition reconcile_one ::
  "transport \<Rightarrow> fenv \<Rightarrow> (string \<Rightarrow> string) \<Rightarrow> config \<Rightarrow> string \<Rightarrow> (accounts \<times> fs) \<Rightarrow> string
    \<Rightarrow> (accounts \<times> fs) outcome" where
  "reconcile_one tr v lc cfg data s primary =
    (case split_once (CHR ''@'') primary of
       None \<Rightarrow> Ret s
     | Some (localpart, domain) \<Rightarrow>
         (let look = current_alias tr v (anchor_ref_of cfg) localpart domain in
          if look = NotBound \<or> look = Unknown then Ret s
          else bind_out (desired_alias cfg look) (\<lambda>desired.
            (case s of
               (t, f) \<Rightarrow>
                 (let plan = alias_plan (aliases_for primary t) desired in
                  if plan = ([], None) then Ret (t, f)
                  else
                    (let t' = apply_plan lc primary plan t in
                     Ret (t', snd (write_aliases v data domain localpart (aliases_for primary t') f))))))))"

fun reconcile_all ::
  "transport \<Rightarrow> fenv \<Rightarrow> (string \<Rightarrow> string) \<Rightarrow> config \<Rightarrow> string \<Rightarrow> (accounts \<times> fs) \<Rightarrow> string list
    \<Rightarrow> (accounts \<times> fs) outcome" where
  "reconcile_all tr v lc cfg data s [] = Ret s"
| "reconcile_all tr v lc cfg data s (p # ps) =
    bind_out (reconcile_one tr v lc cfg data s p) (\<lambda>s'. reconcile_all tr v lc cfg data s' ps)"

definition reconcile_aliases ::
  "transport \<Rightarrow> fenv \<Rightarrow> (string \<Rightarrow> string) \<Rightarrow> config \<Rightarrow> string \<Rightarrow> (accounts \<times> fs) \<Rightarrow> (accounts \<times> fs) outcome" where
  "reconcile_aliases tr v lc cfg data s =
    (if \<not> is_configured (anchor_ref_of cfg) then Ret s
     else reconcile_all tr v lc cfg data s (primaries (fst s)))"

declare anchor_ref_of_def [eval] is_configured_def [eval] endpoint_def [eval] ask_anchor_def [eval]
  unreserved_def [eval] escape_byte_def [eval] query_escape_def [eval]
  claim_def [eval] verify_binding_def [eval] anchor_vouch_def [eval] release_ok_def [eval]
  dec_alias_target_def [eval] current_alias_def [eval] drain_def [eval] max_body_def [eval]
  dec_bind_request_def [eval] bind_decide_def [eval] desired_alias_def [eval] alias_plan_def [eval]
  apply_plan_def [eval] reconcile_one_def [eval] reconcile_aliases_def [eval]

end
