(* ===== verification/AnchorProps.thy ===== *)
theory AnchorProps
  imports Anchor AccountsProps StartupProps
begin

text \<open>
  Properties of the pass over the aliases: it never panics, a silent anchor changes nothing, and
  an answer leaves an account with exactly the address its identity names.
\<close>

lemma desired_resolved: "\<exists>d. desired_alias cfg (Resolved u w) = Ret d"
  by (cases u; cases w) (simp_all add: desired_alias_def)

lemma reconcile_one_total: "\<exists>s'. reconcile_one tr v lc cfg data s primary = Ret s'"
proof (cases "split_once (CHR ''@'') primary")
  case (Some ld)
  obtain l d where ld: "ld = (l, d)" by (cases ld)
  obtain t f where s: "s = (t, f)" by (cases s)
  show ?thesis
  proof (cases "current_alias tr v (anchor_ref_of cfg) l d")
    case (Resolved u w)
    with desired_resolved [of cfg u w] Some ld s show ?thesis
      by (auto simp: reconcile_one_def Let_def)
  qed (use Some ld in \<open>simp_all add: reconcile_one_def\<close>)
qed (simp add: reconcile_one_def)

definition silent :: "transport \<Rightarrow> bool" where
  "silent tr \<longleftrightarrow> (\<forall>q. case tr q of None \<Rightarrow> True | Some (status, _) \<Rightarrow> status \<noteq> 200)"

lemma silent_lookup: "silent tr \<Longrightarrow> current_alias tr v a l d \<in> {NotBound, Unknown}"
proof -
  assume "silent tr"
  then have "ask_anchor tr a m p b \<noteq> Some (200, x)" for m p b x
    by (auto simp: silent_def ask_anchor_def dest: spec [of _ "\<lparr>ar_method = m, ar_url = endpoint a p, ar_token = an_token a, ar_body = b\<rparr>"])
  then show ?thesis by (auto simp: current_alias_def split: option.splits prod.splits)
qed

lemma reconcile_one_silent: "silent tr \<Longrightarrow> reconcile_one tr v lc cfg data s p = Ret s"
proof -
  assume "silent tr"
  then have "current_alias tr v (anchor_ref_of cfg) l d \<in> {NotBound, Unknown}" for l d by (rule silent_lookup)
  then show ?thesis by (auto simp: reconcile_one_def Let_def split: option.split)
qed

text \<open>C32. A pass over all accounts always ends, without panicking, whatever the anchor answers; and
  an anchor that cannot be reached, refuses the relay, or answers with anything but 200 leaves
  every alias and every file as it was.\<close>

theorem reconcile_fails_safe:
  "(\<exists>s'. reconcile_aliases tr v lc cfg data s = Ret s') \<and>
   (silent tr \<longrightarrow> reconcile_aliases tr v lc cfg data s = Ret s)"
proof -
  have "\<exists>s'. reconcile_all tr v lc cfg data s ps = Ret s'" for ps
  proof (induction ps arbitrary: s)
    case (Cons p ps)
    obtain s1 where "reconcile_one tr v lc cfg data s p = Ret s1" using reconcile_one_total by blast
    with Cons show ?case by simp
  qed simp
  moreover have "reconcile_all tr v lc cfg data s ps = Ret s" if "silent tr" for ps
    by (induction ps) (simp_all add: reconcile_one_silent [OF that])
  ultimately show ?thesis by (simp add: reconcile_aliases_def)
qed

section \<open>One account\<close>

lemma remove_aliases_get:
  assumes "bt_ok (a_aliases t)" "\<And>al. al \<in> set als \<Longrightarrow> \<not> eq_ignore_ascii_case al primary"
  shows "bt_ok (a_aliases (foldl (\<lambda>t al. snd (remove_alias al primary t)) t als)) \<and>
    a_stores (foldl (\<lambda>t al. snd (remove_alias al primary t)) t als) = a_stores t \<and>
    bt_get (a_aliases (foldl (\<lambda>t al. snd (remove_alias al primary t)) t als)) x =
      (if x \<in> set als \<and> bt_get (a_aliases t) x = Some primary then None else bt_get (a_aliases t) x)"
  using assms
proof (induction als arbitrary: t)
  case (Cons al als)
  let ?t = "snd (remove_alias al primary t)"
  have t: "bt_ok (a_aliases ?t)" "a_stores ?t = a_stores t"
    "bt_get (a_aliases ?t) x = (if x = al \<and> bt_get (a_aliases t) x = Some primary then None else bt_get (a_aliases t) x)" for x
    using Cons.prems by (auto simp: remove_alias_def)
  from Cons.IH [OF t(1)] Cons.prems(2) show ?case by (auto simp: t)
qed simp

lemma aliases_for_set:
  assumes "bt_ok (a_aliases t)"
  shows "al \<in> set (aliases_for primary t) \<longleftrightarrow> bt_get (a_aliases t) al = Some primary \<and> al \<noteq> primary"
proof -
  have "(x, p) \<in> set (a_aliases t) \<longleftrightarrow> bt_get (a_aliases t) x = Some p" for x p
    using in_set_bt_get [OF assms, of x p] bt_get_in_set [of "a_aliases t" x p] by metis
  moreover have "al \<in> set (aliases_for primary t) \<longleftrightarrow> (al, primary) \<in> set (a_aliases t) \<and> al \<noteq> primary"
    by (force simp: aliases_for_def)
  ultimately show ?thesis by metis
qed

lemma plan_effect:
  assumes "bt_ok (a_aliases t)" "bt_get (a_stores t) primary \<noteq> None"
    "\<And>al. al \<in> set (aliases_for primary t) \<Longrightarrow> lc al = al \<and> \<not> eq_ignore_ascii_case al primary"
    "t' = apply_plan lc primary (alias_plan (aliases_for primary t) desired) t"
  shows "bt_ok (a_aliases t')" "a_stores t' = a_stores t"
    "bt_get (a_aliases t') x =
      (if map_option lc desired = Some x then Some primary
       else if bt_get (a_aliases t) x = Some primary \<and> x \<noteq> primary then None
       else bt_get (a_aliases t) x)"
proof -
  let ?cur = "aliases_for primary t"
  let ?rem = "filter (\<lambda>a. desired \<noteq> Some a) ?cur"
  define t1 where "t1 = foldl (\<lambda>t al. snd (remove_alias al primary t)) t ?rem"
  have r: "bt_ok (a_aliases t1)" "a_stores t1 = a_stores t"
    "bt_get (a_aliases t1) x =
      (if x \<in> set ?rem \<and> bt_get (a_aliases t) x = Some primary then None else bt_get (a_aliases t) x)" for x
    using remove_aliases_get [OF assms(1), of ?rem primary] assms(3) by (auto simp: t1_def)
  have t': "t' = (case desired of None \<Rightarrow> t1
      | Some d \<Rightarrow> if d \<in> set ?cur then t1 else snd (add_alias lc d primary t1))"
    by (auto simp: assms(4) t1_def apply_plan_def alias_plan_def Let_def split: option.split)
  have st: "bt_get (a_stores t1) primary \<noteq> None" using assms(2) r(2) by simp
  show "bt_ok (a_aliases t')" "a_stores t' = a_stores t"
    using r(1,2) st by (auto simp: t' add_alias_def split: option.split)
  show "bt_get (a_aliases t') x =
      (if map_option lc desired = Some x then Some primary
       else if bt_get (a_aliases t) x = Some primary \<and> x \<noteq> primary then None
       else bt_get (a_aliases t) x)"
  proof (cases desired)
    case None
    then show ?thesis using r(3) aliases_for_set [OF assms(1)] by (auto simp: t')
  next
    case (Some d)
    show ?thesis
    proof (cases "d \<in> set ?cur")
      case True
      with Some assms(3) aliases_for_set [OF assms(1)] show ?thesis by (auto simp: t' r(3))
    next
      case False
      with Some st have "t' = t1\<lparr>a_aliases := bt_ins (lc d) primary (a_aliases t1)\<rparr>"
        by (auto simp: t' add_alias_def)
      with Some r(1) have "bt_get (a_aliases t') x = (if lc d = x then Some primary else bt_get (a_aliases t1) x)" by simp
      moreover have "x \<in> set ?rem \<longleftrightarrow> bt_get (a_aliases t) x = Some primary \<and> x \<noteq> primary"
        using False Some aliases_for_set [OF assms(1)] by auto
      ultimately show ?thesis using Some by (auto simp: r(3))
    qed
  qed
qed

text \<open>C31. When the anchor answers, one account's pass ends with exactly the address its identity
  names as its only alias (none, if the domain is not served here); the account itself and every
  address that led elsewhere are as before, unless that address is the one named.\<close>

theorem reconcile_follows_identity:
  assumes "bt_ok (a_aliases t)" "bt_get (a_stores t) primary \<noteq> None"
    "split_once (CHR ''@'') primary = Some (l, d)"
    "current_alias tr v (anchor_ref_of cfg) l d = Resolved u w"
    "desired_alias cfg (Resolved u w) = Ret desired"
    "\<And>al. al \<in> set (aliases_for primary t) \<Longrightarrow> lc al = al \<and> \<not> eq_ignore_ascii_case al primary"
  shows "\<exists>t' f'. reconcile_one tr v lc cfg data (t, f) primary = Ret (t', f') \<and> a_stores t' = a_stores t \<and>
    (\<forall>x. bt_get (a_aliases t') x =
      (if map_option lc desired = Some x then Some primary
       else if bt_get (a_aliases t) x = Some primary \<and> x \<noteq> primary then None
       else bt_get (a_aliases t) x))"
proof -
  let ?plan = "alias_plan (aliases_for primary t) desired"
  let ?t = "apply_plan lc primary ?plan t"
  have "?t = t" if "?plan = ([], None)" using that by (simp add: apply_plan_def)
  then have "\<exists>f'. reconcile_one tr v lc cfg data (t, f) primary = Ret (?t, f')"
    using assms(3-5) by (auto simp: reconcile_one_def Let_def)
  moreover note plan_effect [OF assms(1,2,6) refl, where desired = desired]
  ultimately show ?thesis by blast
qed

section \<open>Witnesses\<close>

definition demo_anchored :: config where
  "demo_anchored = demo_cfg\<lparr>anchor_url := ''https://a/''\<rparr>"

lemma reconcile_fails_safe_witness:
  "reconcile_aliases (\<lambda>_. Some (503, ''busy'')) (de_files demo_dev) ascii_lower demo_anchored ''d'' (demo_table, demo_device_only)
    = Ret (demo_table, demo_device_only)"
  using reconcile_fails_safe [of "\<lambda>_. Some (503, ''busy'')" "de_files demo_dev" ascii_lower demo_anchored "''d''" "(demo_table, demo_device_only)"]
  by (simp add: silent_def)

definition demo_answer :: json where
  "demo_answer = obj [(''currentDomain'', JStr ''x''), (''currentUsername'', JStr ''post'')]"

definition demo_reading :: "fenv \<Rightarrow> fenv" where
  "demo_reading v = v\<lparr>f_parse := \<lambda>s. if s = ''answer'' then Some demo_answer else None\<rparr>"

definition demo_asking :: transport where
  "demo_asking q =
    (if ar_url q = ''https://a/_anchor/alias-target/ana?domain=x'' then Some (200, ''answer'') else None)"

lemma reconcile_follows_identity_witness:
  "\<exists>t' f'. reconcile_one demo_asking (demo_reading (de_files demo_dev)) ascii_lower demo_anchored ''d'' (demo_table, demo_device_only) ''ana@x'' = Ret (t', f') \<and>
    bt_get (a_aliases t') ''post@x'' = Some ''ana@x'' \<and> bt_get (a_aliases t') ''info@x'' = None \<and>
    bt_get (a_aliases t') ''ana@x'' = Some ''ana@x''"
proof -
  have look: "current_alias demo_asking (demo_reading (de_files demo_dev)) (anchor_ref_of demo_anchored) ''ana'' ''x''
      = Resolved (Some ''post'') (Some ''x'')"
    by (simp add: demo_asking_def demo_reading_def demo_anchored_def demo_answer_def demo_cfg_def config_default_def
      eval or_default_def byte_def)
  have want: "desired_alias demo_anchored (Resolved (Some ''post'') (Some ''x'')) = Ret (Some ''post@x'')"
    by (simp add: desired_alias_def demo_anchored_def demo_cfg_def bt_get_def)
  have stores: "bt_get (a_stores demo_table) ''ana@x'' \<noteq> None"
    by (simp add: demo_table_def acc_insert_def add_alias_def accounts_new_def demo_account_def demo_env_def bt_get_def)
  have als: "aliases_for ''ana@x'' demo_table = [''ana@y'', ''info@x'']"
    by (simp add: aliases_for_def demo_aliases)
  have ok: "bt_ok (a_aliases demo_table)" by (simp add: demo_aliases bt_ok_def less_char_def byte_def eval)
  have at: "split_once (CHR ''@'') ''ana@x'' = Some (''ana'', ''x'')" by (simp add: eval)
  have lower: "ascii_lower al = al \<and> \<not> eq_ignore_ascii_case al ''ana@x''" if "al \<in> set (aliases_for ''ana@x'' demo_table)" for al
    using that by (auto simp: als eval)
  note reconcile_follows_identity [OF ok stores at look want lower, of "''d''" demo_device_only]
  then obtain t' f' where "reconcile_one demo_asking (demo_reading (de_files demo_dev)) ascii_lower demo_anchored ''d'' (demo_table, demo_device_only) ''ana@x'' = Ret (t', f')"
    "\<forall>x. bt_get (a_aliases t') x = (if map_option ascii_lower (Some ''post@x'') = Some x then Some ''ana@x''
       else if bt_get (a_aliases demo_table) x = Some ''ana@x'' \<and> x \<noteq> ''ana@x'' then None
       else bt_get (a_aliases demo_table) x)" by blast
  moreover have "ascii_lower ''post@x'' = ''post@x''" by (simp add: eval)
  ultimately show ?thesis by (simp add: demo_aliases bt_get_def)
qed

end
