(* ===== verification/Mime.thy ===== *)
theory Mime
  imports Bytes JmapTypes
begin

text \<open>
  \<open>mime.rs\<close>: reading a message into an \<open>Email\<close>, and writing an \<open>Email\<close> as a message.
  Base 64, the two date parsers and Unicode lower-casing are arguments.
\<close>

section \<open>Environment\<close>

text \<open>\<open>OffsetDateTime\<close>, in its own offset.\<close>

record datetime =
  dt_year :: int
  dt_month :: nat
  dt_day :: nat
  dt_weekday :: nat
  dt_hour :: nat
  dt_minute :: nat
  dt_second :: nat
  dt_nano :: nat
  dt_off :: "int \<times> int \<times> int"
  dt_unix_nanos :: int

record mime_env =
  me_b64 :: "string \<Rightarrow> string option"
  me_2822 :: "string \<Rightarrow> datetime option"
  me_3339 :: "string \<Rightarrow> datetime option"
  me_lc :: "string \<Rightarrow> string"

section \<open>Headers\<close>

type_synonym mime_headers = "(string \<times> string) list"

definition standard_headers :: "string list" where
  "standard_headers = [''from'', ''to'', ''cc'', ''bcc'', ''subject'', ''date'', ''message-id'',
     ''in-reply-to'', ''references'', ''content-type'', ''content-transfer-encoding'', ''mime-version'',
     ''autocrypt'', ''autocrypt-gossip'', ''dkim-signature'', ''received'', ''return-path'', ''chat-version'']"

definition hdr_get :: "mime_headers \<Rightarrow> string \<Rightarrow> string" where
  "hdr_get hs name = (case find (\<lambda>(k, _). eq_ignore_ascii_case k name) hs of None \<Rightarrow> [] | Some (_, v) \<Rightarrow> v)"

definition split_head_body :: "string \<Rightarrow> (string \<times> string) option" where
  "split_head_body data =
    (case find_sub data (CRLF @ CRLF) of
       Some i \<Rightarrow> Some (take (i + 2) data, drop (i + 4) data)
     | None \<Rightarrow>
         (case find_sub data [LF, LF] of
            Some i \<Rightarrow> Some (take (i + 1) data, drop (i + 2) data)
          | None \<Rightarrow> if data \<noteq> [] then Some (data, []) else None))"

definition header_line :: "mime_headers \<Rightarrow> string \<Rightarrow> mime_headers" where
  "header_line hs l =
    (let line = (case strip_suffix [CR] l of None \<Rightarrow> l | Some l' \<Rightarrow> l') in
     case line of
       [] \<Rightarrow> hs
     | c # _ \<Rightarrow>
         if c = SP \<or> c = CHR 0x09 then
           (if hs = [] then hs
            else butlast hs @ [(fst (last hs), snd (last hs) @ '' '' @ trim_start line)])
         else
           (case split_once (CHR '':'') line of
              None \<Rightarrow> hs
            | Some (name, v) \<Rightarrow> hs @ [(trim name, trim v)]))"

definition parse_headers :: "string \<Rightarrow> mime_headers" where
  "parse_headers head = foldl header_line [] (split_on LF (utf8_lossy head))"

definition split_message :: "string \<Rightarrow> (mime_headers \<times> string) option" where
  "split_message data = map_option (\<lambda>(head, body). (parse_headers head, body)) (split_head_body data)"

section \<open>Transfer encodings\<close>

text \<open>\<open>s.replace("\\r\\n", "\\n")\<close>.\<close>

fun normalise_newlines :: "string \<Rightarrow> string" where
  "normalise_newlines [] = []"
| "normalise_newlines [a] = [a]"
| "normalise_newlines (a # b # s) =
    (if a = CR \<and> b = LF then LF # normalise_newlines s else a # normalise_newlines (b # s))"

definition ascii_whitespace :: "char \<Rightarrow> bool" where
  "ascii_whitespace c \<longleftrightarrow> byte c \<in> {9, 10, 12, 13, 32}"

fun longest_prefix :: "(string \<Rightarrow> string option) \<Rightarrow> string \<Rightarrow> nat \<Rightarrow> string" where
  "longest_prefix dec s 0 = []"
| "longest_prefix dec s (Suc n) =
    (case dec (take (Suc n) s) of Some v \<Rightarrow> v | None \<Rightarrow> longest_prefix dec s n)"

definition decode_base64_lenient :: "mime_env \<Rightarrow> string \<Rightarrow> string" where
  "decode_base64_lenient e body =
    (let filtered = filter (\<lambda>c. \<not> ascii_whitespace c) body in
     case me_b64 e filtered of
       Some v \<Rightarrow> v
     | None \<Rightarrow> longest_prefix (me_b64 e) filtered (length filtered))"

fun decode_quoted_printable :: "string \<Rightarrow> string" where
  "decode_quoted_printable [] = []"
| "decode_quoted_printable (c # s) =
    (if c = CHR ''='' then
       (case s of
          a # b # r \<Rightarrow>
            if [a, b] = CRLF then decode_quoted_printable r
            else (case hex_byte a b of
                    Some x \<Rightarrow> x # decode_quoted_printable r
                  | None \<Rightarrow> c # decode_quoted_printable s)
        | [a] \<Rightarrow> if a = LF then [] else c # decode_quoted_printable s
        | [] \<Rightarrow> [c])
     else c # decode_quoted_printable s)"

definition decode_transfer_bytes :: "mime_env \<Rightarrow> string \<Rightarrow> string \<Rightarrow> string" where
  "decode_transfer_bytes e cte body =
    (let k = ascii_lower (trim cte) in
     if k = ''quoted-printable'' then decode_quoted_printable body
     else if k = ''base64'' then decode_base64_lenient e body
     else body)"

definition decode_transfer :: "mime_env \<Rightarrow> string \<Rightarrow> string \<Rightarrow> string" where
  "decode_transfer e cte body = utf8_lossy (decode_transfer_bytes e cte body)"

definition html_to_markdown :: "string \<Rightarrow> string" where
  "html_to_markdown html = trim (normalise_newlines html)"

section \<open>Media types\<close>

definition unquote :: "string \<Rightarrow> string" where
  "unquote v =
    (case Option.bind (strip_prefix [CHR 0x22] v) (strip_suffix [CHR 0x22]) of None \<Rightarrow> v | Some s \<Rightarrow> s)"

definition media_param :: "(string, string) btree \<Rightarrow> string \<Rightarrow> (string, string) btree" where
  "media_param m param =
    (case split_once (CHR ''='') param of
       None \<Rightarrow> m | Some (k, v) \<Rightarrow> bt_ins (ascii_lower (trim k)) (unquote (trim v)) m)"

definition parse_media_type :: "string \<Rightarrow> (string \<times> (string, string) btree) option" where
  "parse_media_type raw =
    (let v = trim raw in
     if v = [] then None
     else
       (case (case split_once (CHR '';'') v of None \<Rightarrow> (v, []) | Some mr \<Rightarrow> mr) of
          (m, rest) \<Rightarrow>
            (let media = ascii_lower (trim m) in
             if media = [] then None
             else Some (media, foldl media_param [] (split_quoted (CHR '';'') False [] rest)))))"

definition media_of :: "string \<Rightarrow> string" where
  "media_of ct = (case parse_media_type ct of None \<Rightarrow> [] | Some (m, _) \<Rightarrow> m)"

section \<open>Multipart bodies\<close>

record part =
  pt_headers :: mime_headers
  pt_body :: string

definition delimiter :: "string \<Rightarrow> string" where
  "delimiter boundary = ''--'' @ boundary"

definition part_end :: "string \<Rightarrow> nat \<Rightarrow> nat" where
  "part_end rest nx =
    (if 2 \<le> nx \<and> take 2 (drop (nx - 2) rest) = CRLF then nx - 2
     else if 1 \<le> nx \<and> rest ! (nx - 1) = LF then nx - 1
     else nx)"

definition skip_eol :: "string \<Rightarrow> string" where
  "skip_eol rest =
    (case strip_prefix CRLF rest of
       Some r \<Rightarrow> r | None \<Rightarrow> (case strip_prefix [LF] rest of Some r \<Rightarrow> r | None \<Rightarrow> rest))"

definition part_of :: "string \<Rightarrow> part list" where
  "part_of raw = (case split_message raw of None \<Rightarrow> [] | Some (h, b) \<Rightarrow> [\<lparr>pt_headers = h, pt_body = b\<rparr>])"

lemma length_skip_eol: "length (skip_eol s) \<le> length s"
  by (auto simp: skip_eol_def strip_prefix_def split: option.splits)

function parts_loop :: "string \<Rightarrow> string \<Rightarrow> part list" where
  "parts_loop boundary rest =
    (if is_prefix ''--'' rest then []
     else
       (let r = skip_eol rest in
        case find_sub r (delimiter boundary) of
          None \<Rightarrow> []
        | Some nx \<Rightarrow>
            part_of (take (part_end r nx) r) @
            parts_loop boundary (drop (nx + length (delimiter boundary)) r)))"
  by pat_completeness auto
termination
proof (relation "measure (\<lambda>(b, rest). length rest)", goal_cases)
  case (2 boundary rest r nx)
  then have "nx + length (delimiter boundary) \<le> length r" "length r \<le> length rest"
    using find_sub_Some length_skip_eol by blast+
  then have "length r - (nx + length (delimiter boundary)) < length rest" by (simp add: delimiter_def)
  then show ?case by simp
qed simp

declare parts_loop.simps [simp del]

definition split_parts :: "string \<Rightarrow> string \<Rightarrow> part list" where
  "split_parts body boundary =
    (case find_sub body (delimiter boundary) of
       None \<Rightarrow> []
     | Some start \<Rightarrow> parts_loop boundary (drop (start + length (delimiter boundary)) body))"

text \<open>A part is shorter than the body it is in.\<close>

lemma part_of_size: "p \<in> set (part_of raw) \<Longrightarrow> length (pt_body p) \<le> length raw"
  by (auto simp: part_of_def split_message_def split_head_body_def split: option.splits prod.splits if_splits)

lemma parts_loop_size: "p \<in> set (parts_loop b rest) \<Longrightarrow> length (pt_body p) \<le> length rest"
proof (induction b rest rule: parts_loop.induct)
  case (1 b rest)
  let ?r = "skip_eol rest"
  have r: "length ?r \<le> length rest" by (rule length_skip_eol)
  from "1.prems" obtain nx where n: "\<not> is_prefix ''--'' rest" "find_sub ?r (delimiter b) = Some nx"
    and p: "p \<in> set (part_of (take (part_end ?r nx) ?r)) \<or>
      p \<in> set (parts_loop b (drop (nx + length (delimiter b)) ?r))"
    unfolding parts_loop.simps [of b rest]
    by (cases "find_sub ?r (delimiter b)") (auto simp: Let_def split: if_splits)
  from p show ?case
  proof
    assume "p \<in> set (part_of (take (part_end ?r nx) ?r))"
    from part_of_size [OF this] r show ?thesis by simp
  next
    assume "p \<in> set (parts_loop b (drop (nx + length (delimiter b)) ?r))"
    from "1.IH" [OF n(1) refl n(2) this] r show ?thesis by simp
  qed
qed

lemma split_parts_size: "p \<in> set (split_parts body b) \<Longrightarrow> length (pt_body p) < length body"
proof -
  assume "p \<in> set (split_parts body b)"
  then obtain i where i: "find_sub body (delimiter b) = Some i"
    "p \<in> set (parts_loop b (drop (i + length (delimiter b)) body))"
    by (cases "find_sub body (delimiter b)") (auto simp: split_parts_def)
  from parts_loop_size [OF i(2)] find_sub_Some [OF i(1)]
  have "length (pt_body p) \<le> length body - (i + length (delimiter b))" "i + length (delimiter b) \<le> length body" by simp_all
  moreover have "0 < length (delimiter b)" by (simp add: delimiter_def)
  ultimately show ?thesis by linarith
qed

section \<open>The text of a message\<close>

definition pgp_marker :: string where
  "pgp_marker = ''-----BEGIN PGP MESSAGE-----''"

definition encrypted_part :: "mime_env \<Rightarrow> part \<Rightarrow> string option" where
  "encrypted_part e p =
    (if media_of (hdr_get (pt_headers p) ''Content-Type'') \<in> {''application/octet-stream'', ''application/pgp-encrypted''}
     then
       (let t = normalise_newlines (decode_transfer e (hdr_get (pt_headers p) ''Content-Transfer-Encoding'') (pt_body p)) in
        if contains t pgp_marker then Some t else None)
     else None)"

text \<open>The loop over the parts; \<open>nested\<close> is the recursive call.\<close>

fun pick_text :: "mime_env \<Rightarrow> (part \<Rightarrow> string) \<Rightarrow> string \<Rightarrow> part list \<Rightarrow> string" where
  "pick_text e nested html [] = html"
| "pick_text e nested html (p # ps) =
    (let ct = hdr_get (pt_headers p) ''Content-Type'';
         media = media_of ct;
         cte = hdr_get (pt_headers p) ''Content-Transfer-Encoding'' in
     if ct = [] then pick_text e nested html ps
     else if media = ''text/plain'' then normalise_newlines (decode_transfer e cte (pt_body p))
     else
       (let html' = (if media = ''text/html'' \<and> html = [] then html_to_markdown (decode_transfer e cte (pt_body p)) else html) in
        if is_prefix ''multipart/'' media then
          (let t = nested p in if t \<noteq> [] then t else pick_text e nested html' ps)
        else pick_text e nested html' ps))"

lemma pick_text_cong [fundef_cong]:
  "e = e' \<Longrightarrow> h = h' \<Longrightarrow> ps = ps' \<Longrightarrow> (\<And>p. p \<in> set ps' \<Longrightarrow> f p = g p) \<Longrightarrow> pick_text e f h ps = pick_text e' g h' ps'"
proof (induction ps arbitrary: ps' h h')
  case (Cons p ps)
  then have "f p = g p" "\<And>h. pick_text e f h ps = pick_text e g h ps" by auto
  with Cons.prems show ?case by (auto simp: Let_def)
qed simp

function extract_mime_text :: "mime_env \<Rightarrow> string \<Rightarrow> string \<Rightarrow> string \<Rightarrow> string" where
  "extract_mime_text e content_type cte body =
    (if content_type = [] then normalise_newlines (utf8_lossy body)
     else
       (case parse_media_type content_type of
          None \<Rightarrow> normalise_newlines (utf8_lossy body)
        | Some (media, params) \<Rightarrow>
            if media = ''text/plain'' then normalise_newlines (decode_transfer e cte body)
            else if media = ''text/html'' then html_to_markdown (decode_transfer e cte body)
            else if media = ''multipart/encrypted'' then
              (case bt_get params ''boundary'' of
                 None \<Rightarrow> []
               | Some boundary \<Rightarrow>
                   (case List.map_filter (encrypted_part e) (split_parts body boundary) of
                      [] \<Rightarrow> [] | t # _ \<Rightarrow> t))
            else if is_prefix ''multipart/'' media then
              (case bt_get params ''boundary'' of
                 None \<Rightarrow> []
               | Some boundary \<Rightarrow>
                   pick_text e
                     (\<lambda>p. extract_mime_text e (hdr_get (pt_headers p) ''Content-Type'')
                            (hdr_get (pt_headers p) ''Content-Transfer-Encoding'') (pt_body p))
                     [] (split_parts body boundary))
            else []))"
  by pat_completeness auto
termination
  by (relation "measure (\<lambda>(e, ct, cte, body). length body)") (auto dest: split_parts_size)

declare extract_mime_text.simps [simp del]

section \<open>Attachments\<close>

record attachment =
  at_filename :: string
  at_type :: string
  at_bytes :: string

function collect_attachments :: "mime_env \<Rightarrow> string \<Rightarrow> string \<Rightarrow> string \<Rightarrow> string \<Rightarrow> attachment list" where
  "collect_attachments e content_type cte dispo body =
    (let parsed = parse_media_type content_type;
         media = (case parsed of None \<Rightarrow> [] | Some (m, _) \<Rightarrow> m) in
     if is_prefix ''multipart/'' media then
       (case Option.bind parsed (\<lambda>(_, p). bt_get p ''boundary'') of
          None \<Rightarrow> []
        | Some boundary \<Rightarrow>
            concat (map (\<lambda>p. collect_attachments e (hdr_get (pt_headers p) ''Content-Type'')
                 (hdr_get (pt_headers p) ''Content-Transfer-Encoding'')
                 (hdr_get (pt_headers p) ''Content-Disposition'') (pt_body p)) (split_parts body boundary)))
     else
       (case parse_media_type dispo of
          None \<Rightarrow> []
        | Some (disp, dparams) \<Rightarrow>
            if \<not> eq_ignore_ascii_case disp ''attachment'' then []
            else
              [\<lparr>at_filename =
                  (case bt_get dparams ''filename'' of
                     Some f \<Rightarrow> f
                   | None \<Rightarrow> (case Option.bind parsed (\<lambda>(_, p). bt_get p ''name'') of None \<Rightarrow> [] | Some f \<Rightarrow> f)),
                at_type = media,
                at_bytes = decode_transfer_bytes e cte body\<rparr>]))"
  by pat_completeness auto
termination
  by (relation "measure (\<lambda>(e, ct, cte, d, body). length body)") (auto dest: split_parts_size)

declare collect_attachments.simps [simp del]

definition extract_attachments :: "mime_env \<Rightarrow> string \<Rightarrow> attachment list" where
  "extract_attachments e raw =
    (case split_message raw of
       None \<Rightarrow> []
     | Some (hs, body) \<Rightarrow>
         collect_attachments e (hdr_get hs ''Content-Type'') (hdr_get hs ''Content-Transfer-Encoding'')
           (hdr_get hs ''Content-Disposition'') body)"

section \<open>Encoded words\<close>

definition decode_one_word :: "mime_env \<Rightarrow> string \<Rightarrow> (string \<times> string) option" where
  "decode_one_word e after =
    (case find_sub after ''?='' of
       None \<Rightarrow> None
     | Some stop \<Rightarrow>
         (case split_once (CHR ''?'') (take stop after) of
            None \<Rightarrow> None
          | Some (chset, r) \<Rightarrow>
              (case split_once (CHR ''?'') r of
                 None \<Rightarrow> None
               | Some (encoding, txt) \<Rightarrow>
                   (case (if ascii_lower encoding = ''b'' then Some (decode_base64_lenient e txt)
                          else if ascii_lower encoding = ''q'' then
                            Some (decode_quoted_printable (map (\<lambda>c. if c = CHR ''_'' then CHR '' '' else c) txt))
                          else None) of
                      None \<Rightarrow> None
                    | Some bytes \<Rightarrow>
                        if ascii_lower chset \<in> {''utf-8'', ''utf8'', ''us-ascii'', ''ascii'', ''iso-8859-1'', ''latin1''}
                        then Some (utf8_lossy bytes, drop (stop + 2) after)
                        else None))))"

lemma decode_one_word_shorter: "decode_one_word e after = Some (t, r) \<Longrightarrow> length r \<le> length after"
  by (auto simp: decode_one_word_def split: option.splits if_splits)

function decode_words_loop :: "mime_env \<Rightarrow> string \<Rightarrow> string" where
  "decode_words_loop e rest =
    (case find_sub rest ''=?'' of
       None \<Rightarrow> rest
     | Some start \<Rightarrow>
         (let after = drop (start + 2) rest in
          take start rest @
          (case decode_one_word e after of
             None \<Rightarrow> ''=?'' @ decode_words_loop e after
           | Some (t, rest') \<Rightarrow> t @ decode_words_loop e rest')))"
  by pat_completeness auto
termination
proof (relation "measure (\<lambda>(e, rest). length rest)", goal_cases)
  case (2 e rest start after)
  then show ?case using find_sub_Some [of rest "''=?''" start] by auto
next
  case (3 e rest start after d t rest')
  then have "length rest' \<le> length after" using decode_one_word_shorter by blast
  moreover have "length after < length rest" using 3 find_sub_Some [of rest "''=?''" start] by auto
  ultimately show ?case by simp
qed simp

declare decode_words_loop.simps [simp del]

definition decode_words :: "mime_env \<Rightarrow> string \<Rightarrow> string" where
  "decode_words e s = (if contains s ''=?'' then decode_words_loop e s else s)"

section \<open>Addresses\<close>

definition parse_address :: "mime_env \<Rightarrow> string \<Rightarrow> address option" where
  "parse_address e raw =
    (let v = trim raw in
     if v = [] then None
     else
       (case (case rsplit_once (CHR ''<'') v of
                None \<Rightarrow> ([], v)
              | Some (b, a) \<Rightarrow>
                  (case rsplit_once (CHR ''>'') a of
                     None \<Rightarrow> ([], v)
                   | Some (inner, _) \<Rightarrow>
                       (decode_words e (trim (trim_matches [CHR 0x22] (trim b))), trim inner))) of
          (name, email) \<Rightarrow>
            if CHR ''@'' \<in> set email then Some \<lparr>a_name = name, a_email = email\<rparr> else None))"

definition parse_address_list :: "mime_env \<Rightarrow> string \<Rightarrow> address list option" where
  "parse_address_list e raw =
    (let v = trim raw in
     if v = [] then None
     else
       (case sequence_opt (map (parse_address e) (split_quoted (CHR '','') False [] v)) of
          None \<Rightarrow> None
        | Some as \<Rightarrow> if as = [] then None else Some as))"

section \<open>Dates\<close>

text \<open>\<open>{:0w}\<close>: padded with zeros to a width that includes the sign.\<close>

definition pad0 :: "nat \<Rightarrow> string \<Rightarrow> string" where
  "pad0 w s = replicate (w - length s) (CHR ''0'') @ s"

definition show_pad :: "nat \<Rightarrow> int \<Rightarrow> string" where
  "show_pad w i = (if i < 0 then CHR ''-'' # pad0 (w - 1) (show_int (- i)) else pad0 w (show_int i))"

definition two :: "nat \<Rightarrow> string" where
  "two n = pad0 2 (show_nat n)"

definition off_negative :: "datetime \<Rightarrow> bool" where
  "off_negative t = (case dt_off t of (h, m, s) \<Rightarrow> h < 0 \<or> m < 0 \<or> s < 0)"

definition off_hm :: "string \<Rightarrow> datetime \<Rightarrow> string" where
  "off_hm sep t =
    (case dt_off t of
       (h, m, _) \<Rightarrow> (if off_negative t then ''-'' else ''+'') @ two (nat \<bar>h\<bar>) @ sep @ two (nat \<bar>m\<bar>))"

definition format_go_style :: "datetime \<Rightarrow> string" where
  "format_go_style t =
    (let frac = trim_end_chars [CHR ''0''] (pad0 9 (show_nat (dt_nano t))) in
     show_pad 4 (dt_year t) @ ''-'' @ two (dt_month t) @ ''-'' @ two (dt_day t) @ ''T'' @
     two (dt_hour t) @ '':'' @ two (dt_minute t) @ '':'' @ two (dt_second t) @
     (if dt_nano t \<noteq> 0 \<and> frac \<noteq> [] then ''.'' @ frac else []) @
     (if dt_off t = (0, 0, 0) then ''Z'' else off_hm '':'' t))"

definition rfc_days :: "string list" where
  "rfc_days = [''Mon'', ''Tue'', ''Wed'', ''Thu'', ''Fri'', ''Sat'', ''Sun'']"

definition rfc_months :: "string list" where
  "rfc_months = [''Jan'', ''Feb'', ''Mar'', ''Apr'', ''May'', ''Jun'', ''Jul'', ''Aug'', ''Sep'', ''Oct'', ''Nov'', ''Dec'']"

definition format_rfc1123z :: "datetime \<Rightarrow> string" where
  "format_rfc1123z t =
    rfc_days ! dt_weekday t @ '', '' @ two (dt_day t) @ '' '' @ rfc_months ! (dt_month t - 1) @ '' '' @
    show_pad 4 (dt_year t) @ '' '' @ two (dt_hour t) @ '':'' @ two (dt_minute t) @ '':'' @ two (dt_second t) @
    '' '' @ off_hm [] t"

definition parse_date :: "mime_env \<Rightarrow> string \<Rightarrow> string option" where
  "parse_date e s = map_option format_go_style (me_2822 e (trim s))"

section \<open>Reading a message\<close>

definition is_standard :: "string \<Rightarrow> bool" where
  "is_standard name = list_ex (eq_ignore_ascii_case name) standard_headers"

definition extra_headers :: "mime_headers \<Rightarrow> header list" where
  "extra_headers hs =
    map (\<lambda>(n, v). \<lparr>h_name = n, h_value = v\<rparr>)
      (foldl (\<lambda>m (n, v). if is_standard n \<or> bt_get m n \<noteq> None then m else bt_ins n v m) [] hs)"

definition id_chars :: "char list" where
  "id_chars = [CHR '' '', CHR ''<'', CHR ''>'']"

definition id_list :: "string \<Rightarrow> string list" where
  "id_list i = (if i = [] then [] else [i])"

definition parse_mime_email :: "mime_env \<Rightarrow> string \<Rightarrow> string \<Rightarrow> email option" where
  "parse_mime_email e data now =
    (case split_message data of
       None \<Rightarrow> None
     | Some (hs, body) \<Rightarrow>
         Some (email_default\<lparr>
           subject := decode_words e (hdr_get hs ''Subject''),
           m_from := (case parse_address e (hdr_get hs ''From'') of None \<Rightarrow> [] | Some a \<Rightarrow> [a]),
           m_to := (case parse_address_list e (hdr_get hs ''To'') of None \<Rightarrow> [] | Some as \<Rightarrow> as),
           cc := (case parse_address_list e (hdr_get hs ''Cc'') of None \<Rightarrow> [] | Some as \<Rightarrow> as),
           received_at := Some (case parse_date e (hdr_get hs ''Date'') of None \<Rightarrow> now | Some d \<Rightarrow> d),
           message_id := id_list (trim_matches id_chars (hdr_get hs ''Message-Id'')),
           in_reply_to := id_list (trim_matches id_chars (hdr_get hs ''In-Reply-To'')),
           references := filter (\<lambda>r. r \<noteq> [])
             (map (trim_matches [CHR ''<'', CHR ''>'']) (split_ws (hdr_get hs ''References''))),
           headers := extra_headers hs,
           body_values := [(''1'', body_value_default\<lparr>bv_value :=
             extract_mime_text e (hdr_get hs ''Content-Type'') (hdr_get hs ''Content-Transfer-Encoding'') body\<rparr>)],
           text_body := [BodyPart ''1'' [] 0 [] [] ''text/plain'' [] [] [] [] [] []]\<rparr>))"

section \<open>Writing a message\<close>

definition message_body :: "email \<Rightarrow> string" where
  "message_body m =
    (case text_body m of
       [] \<Rightarrow> []
     | p # _ \<Rightarrow> (case bt_get (body_values m) (part_id p) of None \<Rightarrow> [] | Some bv \<Rightarrow> bv_value bv))"

definition is_vchar :: "char \<Rightarrow> bool" where
  "is_vchar c \<longleftrightarrow> 33 \<le> byte c \<and> byte c \<le> 126"

definition is_wsp :: "char \<Rightarrow> bool" where
  "is_wsp c \<longleftrightarrow> c = SP \<or> c = CHR 0x09"

definition quote_char :: "char \<Rightarrow> string" where
  "quote_char c =
    (if is_vchar c \<and> c \<noteq> CHR 0x5C \<and> c \<noteq> CHR 0x22 \<or> is_wsp c then [c]
     else if is_vchar c then [CHR 0x5C, c]
     else [])"

definition quote_string :: "string \<Rightarrow> string" where
  "quote_string s = [CHR 0x22] @ concat (map quote_char s) @ [CHR 0x22]"

definition q_plain :: "char \<Rightarrow> bool" where
  "q_plain c \<longleftrightarrow> is_digit c \<or> is_lower c \<or> is_upper c \<or> c \<in> {CHR ''!'', CHR ''*'', CHR ''+'', CHR ''-'', CHR ''/''}"

definition encode_byte :: "char \<Rightarrow> string" where
  "encode_byte c =
    (if c = SP then ''_''
     else if q_plain c then [c]
     else [CHR ''='', hex_upper (byte c div 16), hex_upper (byte c mod 16)])"

definition encode_word :: "string \<Rightarrow> string" where
  "encode_word s = ''=?utf-8?q?'' @ concat (map encode_byte s) @ ''?=''"

definition render_display_name :: "string \<Rightarrow> string" where
  "render_display_name name =
    (if list_all (\<lambda>c. is_vchar c \<or> is_wsp c) name then quote_string name else encode_word name)"

definition format_addr :: "address \<Rightarrow> string" where
  "format_addr a =
    (if a_email a = [] then []
     else
       (let name = (if a_name a \<noteq> [] then a_name a
                    else (case split_once (CHR ''@'') (a_email a) of None \<Rightarrow> [] | Some (l, _) \<Rightarrow> l)) in
        if name = [] then ''<'' @ a_email a @ ''>''
        else render_display_name name @ '' <'' @ a_email a @ ''>''))"

definition join_addrs :: "address list \<Rightarrow> string" where
  "join_addrs as = join '', '' (filter (\<lambda>s. s \<noteq> []) (map format_addr as))"

definition bracket_join :: "string list \<Rightarrow> string" where
  "bracket_join ids =
    join '' '' (map (\<lambda>i. ''<'' @ i @ ''>'') (filter (\<lambda>i. i \<noteq> []) (map (trim_matches id_chars) ids)))"

definition skip_headers :: "string list" where
  "skip_headers = [''from'', ''to'', ''cc'', ''subject'', ''date'', ''message-id'', ''in-reply-to'', ''references'', ''content-type'']"

definition built_domain :: "email \<Rightarrow> string \<Rightarrow> string" where
  "built_domain m default_domain =
    (let d = (if default_domain \<noteq> [] then default_domain
              else (case m_from m of
                      [] \<Rightarrow> []
                    | a # _ \<Rightarrow> (case split_once (CHR ''@'') (a_email a) of None \<Rightarrow> [] | Some (_, d) \<Rightarrow> d))) in
     if d = [] then ''localhost'' else d)"

definition built_id :: "email \<Rightarrow> string \<Rightarrow> datetime \<Rightarrow> string \<Rightarrow> string" where
  "built_id m default_domain now random_hex =
    (let fresh = show_int (dt_unix_nanos now) @ ''.'' @ random_hex @ ''@'' @ built_domain m default_domain in
     case message_id m of
       [] \<Rightarrow> fresh
     | i # _ \<Rightarrow> if i \<noteq> [] then trim_matches [CHR ''<'', CHR ''>''] i else fresh)"

definition built_date :: "mime_env \<Rightarrow> email \<Rightarrow> datetime \<Rightarrow> datetime" where
  "built_date e m now =
    (case Option.bind (case sent_at m of Some t \<Rightarrow> Some t | None \<Rightarrow> received_at m) (me_3339 e) of
       None \<Rightarrow> now | Some d \<Rightarrow> d)"

definition built_subject :: "mime_env \<Rightarrow> email \<Rightarrow> string" where
  "built_subject e m =
    (if in_reply_to m \<noteq> [] \<and> subject m \<noteq> [] \<and> \<not> is_prefix ''re:'' (me_lc e (subject m)) then ''Re: '' @ subject m
     else subject m)"

definition optional :: "bool \<Rightarrow> string \<Rightarrow> string \<Rightarrow> mime_headers" where
  "optional b n v = (if b then [(n, v)] else [])"

definition built_headers :: "mime_env \<Rightarrow> email \<Rightarrow> string \<Rightarrow> datetime \<Rightarrow> string \<Rightarrow> mime_headers" where
  "built_headers e m default_domain now random_hex =
    (let from_value = (case m_from m of [] \<Rightarrow> [] | a # _ \<Rightarrow> format_addr a);
         to_value = join_addrs (m_to m);
         cc_value = join_addrs (cc m) in
     [(''MIME-Version'', ''1.0'')] @
     optional (from_value \<noteq> []) ''From'' from_value @
     optional (to_value \<noteq> []) ''To'' to_value @
     optional (cc_value \<noteq> []) ''Cc'' cc_value @
     [(''Subject'', built_subject e m), (''Date'', format_rfc1123z (built_date e m now)),
      (''Message-Id'', ''<'' @ built_id m default_domain now random_hex @ ''>'')] @
     optional (in_reply_to m \<noteq> []) ''In-Reply-To'' (bracket_join (in_reply_to m)) @
     optional (references m \<noteq> []) ''References'' (bracket_join (references m)) @
     map (\<lambda>h. (h_name h, h_value h))
       (filter (\<lambda>h. \<not> list_ex (eq_ignore_ascii_case (h_name h)) skip_headers) (headers m)) @
     [(''Content-Type'', ''text/plain; charset=utf-8'')])"

definition render_header :: "string \<times> string \<Rightarrow> string" where
  "render_header h = (case h of (n, v) \<Rightarrow> n @ '': '' @ v @ CRLF)"

definition build_rfc5322 :: "mime_env \<Rightarrow> email \<Rightarrow> string \<Rightarrow> datetime \<Rightarrow> string \<Rightarrow> string \<times> string" where
  "build_rfc5322 e m default_domain now random_hex =
    (concat (map render_header (built_headers e m default_domain now random_hex)) @ CRLF @ message_body m,
     built_id m default_domain now random_hex)"

text \<open>\<open>build_envelope\<close>: each recipient once, at its first place.\<close>

definition env_address_new :: "string \<Rightarrow> env_address" where
  "env_address_new a = \<lparr>ea_email = a, ea_parameters = None\<rparr>"

definition add_rcpt :: "string list \<Rightarrow> string \<Rightarrow> string list" where
  "add_rcpt seen a = (if a = [] \<or> a \<in> set seen then seen else seen @ [a])"

definition build_envelope :: "email \<Rightarrow> envelope option" where
  "build_envelope m =
    (case m_from m of
       [] \<Rightarrow> None
     | a # _ \<Rightarrow>
         if a_email a = [] then None
         else
           (let rcpt = foldl add_rcpt [] (map a_email (m_to m @ cc m @ bcc m)) in
            if rcpt = [] then None
            else Some \<lparr>env_mail_from = Some (env_address_new (a_email a)), env_rcpt_to = map env_address_new rcpt\<rparr>))"

declare standard_headers_def [eval] hdr_get_def [eval] split_head_body_def [eval] header_line_def [eval]
  parse_headers_def [eval] split_message_def [eval] ascii_whitespace_def [eval] decode_base64_lenient_def [eval]
  decode_transfer_bytes_def [eval] decode_transfer_def [eval] html_to_markdown_def [eval] unquote_def [eval]
  media_param_def [eval] parse_media_type_def [eval] media_of_def [eval] delimiter_def [eval] part_end_def [eval]
  skip_eol_def [eval] part_of_def [eval] split_parts_def [eval] pgp_marker_def [eval] encrypted_part_def [eval]
  extract_attachments_def [eval] decode_one_word_def [eval] decode_words_def [eval] parse_address_def [eval]
  parse_address_list_def [eval] pad0_def [eval] show_pad_def [eval] two_def [eval] off_negative_def [eval]
  off_hm_def [eval] format_go_style_def [eval] rfc_days_def [eval] rfc_months_def [eval] format_rfc1123z_def [eval]
  parse_date_def [eval] is_standard_def [eval] extra_headers_def [eval] id_chars_def [eval] id_list_def [eval]
  parse_mime_email_def [eval] message_body_def [eval] is_vchar_def [eval] is_wsp_def [eval] quote_char_def [eval]
  quote_string_def [eval] q_plain_def [eval] encode_byte_def [eval] encode_word_def [eval]
  render_display_name_def [eval] format_addr_def [eval] join_addrs_def [eval] bracket_join_def [eval]
  skip_headers_def [eval] built_domain_def [eval] built_id_def [eval] built_date_def [eval] built_subject_def [eval]
  optional_def [eval] built_headers_def [eval] render_header_def [eval] build_rfc5322_def [eval]
  env_address_new_def [eval] add_rcpt_def [eval] build_envelope_def [eval]

end
