(* ===== verification/MimeProps.thy ===== *)
theory MimeProps
  imports Mime
begin

text \<open>
  Properties of reading and writing mail: encoded words, encrypted messages, multipart bodies,
  and a written message read back.
\<close>

section \<open>Encoded words\<close>

definition encoded :: "string \<Rightarrow> string" where
  "encoded s = concat (map encode_byte s)"

lemma encoded_simps [simp]: "encoded [] = []" "encoded (c # s) = encode_byte c @ encoded s"
  by (simp_all add: encoded_def)

text \<open>The first byte is written as it is, or as an underscore.\<close>

definition starts_plain :: "string \<Rightarrow> bool" where
  "starts_plain s \<longleftrightarrow> s = [] \<or> hd s = SP \<or> q_plain (hd s)"

lemma hex_upper_neq: "n < 16 \<Longrightarrow> hex_val c = None \<Longrightarrow> hex_upper n \<noteq> c"
  using hex_val_upper by fastforce

lemma hex_digits_neq:
  assumes "hex_val d = None"
  shows "hex_upper (byte c div 16) \<noteq> d" "hex_upper (byte c mod 16) \<noteq> d"
proof -
  have "byte c div 16 < 16" using byte_less [of c] by linarith
  then show "hex_upper (byte c div 16) \<noteq> d" using assms by (rule hex_upper_neq)
  show "hex_upper (byte c mod 16) \<noteq> d" using assms by (intro hex_upper_neq) simp_all
qed

lemma not_hex [simp]: "hex_val (CHR ''?'') = None" "hex_val (CHR ''_'') = None" "hex_val (CHR ''='') = None"
    "hex_val CR = None"
  by (simp_all add: hex_val_def is_digit_def byte_def CR_def)

lemmas digits_neq [simp] = hex_digits_neq [OF not_hex(1)] hex_digits_neq [OF not_hex(2)]
  hex_digits_neq [OF not_hex(3)] hex_digits_neq [OF not_hex(4)]

lemmas digits_neq_sym [simp] = digits_neq [THEN not_sym]

lemma SP_neq [simp]: "SP \<noteq> CHR ''=''" "SP \<noteq> CHR ''_''" "SP \<noteq> CHR ''?''" "CHR ''='' \<noteq> SP" "CHR ''?'' \<noteq> SP"
  by (simp_all add: SP_def)

lemma not_q_plain [simp]: "\<not> q_plain (CHR ''?'')" "\<not> q_plain (CHR ''='')" "\<not> q_plain (CHR ''_'')" "\<not> q_plain SP"
  by (simp_all add: q_plain_def is_digit_def is_lower_def is_upper_def byte_def SP_def)

lemma no_question: "CHR ''?'' \<notin> set (encoded s)"
  by (induction s) (auto simp: encode_byte_def)

lemma no_start: "absent ''=?'' (encoded s) t"
proof (induction s)
  case (Cons c s)
  have "absent ''=?'' (encode_byte c) u" for u
    by (auto simp: encode_byte_def absent_Cons)
  with Cons show ?case by (simp add: absent_append)
qed simp

lemma unencode: "decode_quoted_printable (map (\<lambda>c. if c = CHR ''_'' then CHR '' '' else c) (encoded s)) = s"
proof (induction s)
  case (Cons c s)
  have sp: "CHR '' '' = SP" by (simp add: SP_def)
  consider "c = SP" | "c \<noteq> SP" "q_plain c" | "c \<noteq> SP" "\<not> q_plain c" by blast
  then show ?case
  proof cases
    case 1
    with Cons show ?thesis by (simp add: encode_byte_def sp)
  next
    case 2
    then have "c \<noteq> CHR ''=''" "c \<noteq> CHR ''_''" by auto
    with 2 Cons show ?thesis by (simp add: encode_byte_def)
  next
    case 3
    with Cons show ?thesis by (simp add: encode_byte_def CRLF_eq)
  qed
qed simp

lemma word_body: "encode_word s = ''=?'' @ ''utf-8?q?'' @ encoded s @ ''?=''"
  by (simp add: encode_word_def encoded_def)

lemma contains_prefix: "is_prefix p s \<Longrightarrow> contains s p"
  by (cases s) (auto simp: is_prefix_def)

lemma encoded_hd: "encoded s \<noteq> [] \<Longrightarrow> starts_plain s \<Longrightarrow> hd (encoded s) \<noteq> CHR ''=''"
  by (cases s) (auto simp: starts_plain_def encode_byte_def)

lemma word_plain:
  assumes "starts_plain s" "utf8_ok s"
  shows "decode_one_word e (''utf-8?q?'' @ encoded s @ ''?='') = Some (s, [])"
proof -
  define w where "w = ''utf-8?q?'' @ encoded s"
  have w: "''utf-8?q?'' @ encoded s @ ''?='' = w @ ''?=''" by (simp add: w_def)
  have "absent ''?='' (encoded s) ''?=''" by (rule absent_hd) (use no_question in auto)
  moreover have "\<not> is_prefix ''='' (encoded s @ ''?='')"
    using encoded_hd [OF _ assms(1)] by (cases "encoded s") auto
  ultimately have "absent ''?='' w (''?='' @ [])" by (simp add: w_def absent_append absent_Cons)
  from find_sub_first [OF this] have stop: "find_sub (w @ ''?='') ''?='' = Some (length w)" by simp
  have "split_once (CHR ''?'') w = Some (''utf-8'', ''q?'' @ encoded s)" by (simp add: w_def)
  then show ?thesis
    unfolding w decode_one_word_def stop
    using unencode [of s] assms(2) by (simp add: ascii_lower_def ascii_lower_char_def is_upper_def byte_def)
qed

lemma word_escaped:
  assumes "\<not> starts_plain s"
  shows "decode_one_word e (''utf-8?q?'' @ encoded s @ ''?='') = None"
proof -
  from assms obtain c r where s: "s = c # r" "c \<noteq> SP" "\<not> q_plain c" by (cases s) (auto simp: starts_plain_def)
  then have "\<exists>t. ''utf-8?q?'' @ encoded s @ ''?='' = ''utf-8?q'' @ ''?='' @ t" by (simp add: encode_byte_def)
  then obtain t where t: "''utf-8?q?'' @ encoded s @ ''?='' = ''utf-8?q'' @ ''?='' @ t" by blast
  have "absent ''?='' ''utf-8?q'' (''?='' @ t)" by (simp add: absent_Cons)
  from find_sub_first [OF this] show ?thesis unfolding t decode_one_word_def by simp
qed

text \<open>An encoded word, as the relay writes it for a display name, reads back as the name
  exactly if its first byte is not escaped; otherwise, as for every name that starts outside
  ASCII, it is left encoded.\<close>

theorem encoded_word_reads_back:
  assumes "utf8_ok s"
  shows "decode_words e (encode_word s) = (if starts_plain s then s else encode_word s)"
proof -
  let ?after = "''utf-8?q?'' @ encoded s @ ''?=''"
  have c: "contains (encode_word s) ''=?''" unfolding word_body by (rule contains_prefix) simp
  have f: "find_sub (encode_word s) ''=?'' = Some 0" by (simp add: word_body)
  have d: "drop 2 (encode_word s) = ?after" by (simp add: word_body)
  have "absent ''=?'' ?after []"
    using no_start [of s "''?=''"] by (simp add: absent_append absent_Cons)
  then have "find_sub ?after ''=?'' = None" by (rule find_sub_absent [rotated]) simp
  then have rest: "decode_words_loop e ?after = ?after"
    by (simp only: decode_words_loop.simps [of e ?after] option.case)
  have nil: "decode_words_loop e [] = []" by (subst decode_words_loop.simps) simp
  have "decode_words e (encode_word s) =
    (case decode_one_word e ?after of
       None \<Rightarrow> ''=?'' @ decode_words_loop e ?after | Some (t, r) \<Rightarrow> t @ decode_words_loop e r)"
    by (simp only: decode_words_def c if_True decode_words_loop.simps [of e "encode_word s"] f option.case
      Let_def add_0 d take_0 append_Nil)
  then show ?thesis
    using word_plain [OF _ assms] word_escaped rest nil by (auto simp: word_body)
qed

definition demo_mime :: mime_env where
  "demo_mime = \<lparr>me_b64 = (\<lambda>_. None), me_2822 = (\<lambda>_. None), me_3339 = (\<lambda>_. None), me_lc = ascii_lower\<rparr>"

definition emile :: string where
  "emile = [CHR 0xC3, CHR 0x89] @ ''mile''"

lemma emile_facts: "utf8_ok emile" "\<not> starts_plain emile"
  by (simp_all add: emile_def starts_plain_def q_plain_def is_digit_def is_lower_def is_upper_def is_cont_def
    SP_def byte_def)

lemma encoded_word_reads_back_witness:
  "decode_words demo_mime (encode_word emile) = encode_word emile \<and> encode_word emile \<noteq> emile"
  using encoded_word_reads_back [OF emile_facts(1), of demo_mime] emile_facts(2)
  by (simp add: encode_word_def emile_def)

section \<open>Encrypted mail\<close>

lemma bt_get_ins_Nil [simp]: "bt_get [(k, v)] k = Some v"
  by (simp add: bt_get_def)

lemma map_filter_hd: "List.map_filter f xs = t # ts \<Longrightarrow> \<exists>x \<in> set xs. f x = Some t"
  by (induction xs) (auto simp: List.map_filter_simps split: option.splits)

lemma extract_encrypted:
  assumes "parse_media_type ct = Some (''multipart/encrypted'', ps)"
  shows "extract_mime_text e ct cte body =
    (case bt_get ps ''boundary'' of
       None \<Rightarrow> []
     | Some b \<Rightarrow> (case List.map_filter (encrypted_part e) (split_parts body b) of [] \<Rightarrow> [] | t # _ \<Rightarrow> t))"
proof -
  have "ct \<noteq> []" using assms by (auto simp: parse_media_type_def trim_def)
  then show ?thesis by (subst extract_mime_text.simps) (simp only: assms if_False option.case prod.case, simp)
qed

lemma guarded_Some: "(if c then if d then Some x else None else None) = Some t \<longleftrightarrow> c \<and> d \<and> x = t"
  by simp

lemma encrypted_part_Some:
  "encrypted_part e p = Some t \<Longrightarrow> contains t pgp_marker \<and>
    media_of (hdr_get (pt_headers p) ''Content-Type'') \<in> {''application/octet-stream'', ''application/pgp-encrypted''} \<and>
    t = normalise_newlines (decode_transfer e (hdr_get (pt_headers p) ''Content-Transfer-Encoding'') (pt_body p))"
  unfolding encrypted_part_def Let_def guarded_Some by (elim conjE, hypsubst, intro conjI refl; assumption)

text \<open>The text kept of a \<open>multipart/encrypted\<close> message is either nothing or the armoured
  message of one of its encrypted parts: a readable part that comes with it is never stored.\<close>

theorem encrypted_stays_encrypted:
  assumes "split_message data = Some (hs, body)"
    "parse_media_type (hdr_get hs ''Content-Type'') = Some (''multipart/encrypted'', ps)"
    "parse_mime_email e data now = Some m"
  shows "message_body m = [] \<or>
    contains (message_body m) pgp_marker \<and>
    (\<exists>b. \<exists>p \<in> set (split_parts body b).
       media_of (hdr_get (pt_headers p) ''Content-Type'') \<in> {''application/octet-stream'', ''application/pgp-encrypted''} \<and>
       message_body m = normalise_newlines (decode_transfer e (hdr_get (pt_headers p) ''Content-Transfer-Encoding'') (pt_body p)))"
proof -
  have body: "message_body m = extract_mime_text e (hdr_get hs ''Content-Type'') (hdr_get hs ''Content-Transfer-Encoding'') body"
    using assms(1,3) by (auto simp: parse_mime_email_def message_body_def)
  note kept = extract_encrypted [OF assms(2), of e "hdr_get hs ''Content-Transfer-Encoding''" body, folded body]
  show ?thesis
  proof (cases "bt_get ps ''boundary''")
    case (Some b)
    with kept have t: "message_body m = (case List.map_filter (encrypted_part e) (split_parts body b) of [] \<Rightarrow> [] | t # _ \<Rightarrow> t)"
      by simp
    show ?thesis
    proof (cases "List.map_filter (encrypted_part e) (split_parts body b)")
      case (Cons u us)
      from map_filter_hd [OF Cons] obtain p where p: "p \<in> set (split_parts body b)" "encrypted_part e p = Some u" ..
      have u: "message_body m = u" using t Cons by simp
      note q = encrypted_part_Some [OF p(2), folded u]
      show ?thesis
        by (rule disjI2, rule conjI, rule conjunct1 [OF q], rule exI [of _ b], rule bexI [of _ p],
          rule conjunct2 [OF q], rule p(1))
    qed (simp add: t)
  qed (simp add: kept)
qed

section \<open>Multipart bodies\<close>

definition multipart :: "string \<Rightarrow> string list \<Rightarrow> string" where
  "multipart b raws = concat (map (\<lambda>r. delimiter b @ CRLF @ r @ CRLF) raws) @ delimiter b @ ''--''"

lemma absent_tail: "absent p s p \<Longrightarrow> absent p s (p @ t)"
  unfolding absent_def is_prefix_def
proof (intro allI impI)
  fix i assume "\<forall>i<length s. take (length p) (drop i s @ p) \<noteq> p" "i < length s"
  then show "take (length p) (drop i s @ p @ t) \<noteq> p" by simp
qed

lemma find_delimiter: "absent p s p \<Longrightarrow> find_sub (s @ p @ t) p = Some (length s)"
  by (intro find_sub_first absent_tail)

lemma skip_eol_CRLF [simp]: "skip_eol (CRLF @ s) = s"
  by (simp add: skip_eol_def strip_prefix_def)

lemma part_end_CRLF: "part_end (r @ CRLF @ s) (length (r @ CRLF)) = length r"
  by (simp add: part_end_def CRLF_def)

lemma parts_loop_step:
  assumes "absent (delimiter b) (r @ CRLF) (delimiter b)"
  shows "parts_loop b (CRLF @ r @ CRLF @ delimiter b @ t) = part_of r @ parts_loop b t"
proof -
  let ?q = "r @ CRLF @ delimiter b @ t"
  have f: "find_sub ?q (delimiter b) = Some (length (r @ CRLF))"
    using find_delimiter [OF assms, of t] by simp
  have "\<not> is_prefix ''--'' (CRLF @ ?q)" by (simp add: CRLF_def)
  then have "parts_loop b (CRLF @ ?q) =
      part_of (take (part_end ?q (length (r @ CRLF))) ?q) @ parts_loop b (drop (length (r @ CRLF) + length (delimiter b)) ?q)"
    by (simp only: parts_loop.simps [of b "CRLF @ ?q"] if_False Let_def skip_eol_CRLF f option.case)
  then show ?thesis by (simp only: part_end_CRLF) simp
qed

lemma parts_loop_multipart:
  "\<forall>r \<in> set (r # rs). absent (delimiter b) (r @ CRLF) (delimiter b) \<Longrightarrow>
   parts_loop b (CRLF @ r @ CRLF @ multipart b rs @ t) = concat (map part_of (r # rs))"
proof (induction rs arbitrary: r)
  case Nil
  have "parts_loop b (''--'' @ t) = []" by (subst parts_loop.simps) simp
  with Nil parts_loop_step [of b r "''--'' @ t"] show ?case by (simp add: multipart_def)
next
  case (Cons r2 rs)
  have "multipart b (r2 # rs) @ t = delimiter b @ CRLF @ r2 @ CRLF @ multipart b rs @ t" by (simp add: multipart_def)
  with Cons parts_loop_step [of b r "CRLF @ r2 @ CRLF @ multipart b rs @ t"] show ?case by simp
qed

text \<open>Splitting a multipart body gives exactly its parts, in order, without the preamble and
  whatever follows the closing delimiter, provided the delimiter does not occur in them.\<close>

theorem multipart_splits:
  assumes "absent (delimiter b) preamble (delimiter b)"
    "\<forall>r \<in> set raws. absent (delimiter b) (r @ CRLF) (delimiter b)"
  shows "split_parts (preamble @ multipart b raws @ epilogue) b = concat (map part_of raws)"
proof -
  obtain t where t: "multipart b raws @ epilogue = delimiter b @ t" "parts_loop b t = concat (map part_of raws)"
  proof (cases raws)
    case Nil
    then show ?thesis using that [of "''--'' @ epilogue"] by (simp add: multipart_def parts_loop.simps [of b])
  next
    case (Cons r rs)
    then show ?thesis
      using that [of "CRLF @ r @ CRLF @ multipart b rs @ epilogue"] parts_loop_multipart [of r rs b epilogue] assms(2)
      by (simp add: multipart_def)
  qed
  show ?thesis unfolding t(1) by (simp add: split_parts_def find_delimiter [OF assms(1)] t(2))
qed

section \<open>A written message read back\<close>

lemma utf8_ok_prefix:
  assumes "utf8_ok (a # r)"
  shows "\<exists>n \<le> length r. utf8_ok (drop n r) \<and> (\<forall>u. utf8_ok (drop n r @ u) \<longrightarrow> utf8_ok (a # r @ u))"
proof -
  consider "byte a < 128" | "194 \<le> byte a" "byte a \<le> 223" | "224 \<le> byte a" "byte a \<le> 239"
    | "240 \<le> byte a" "byte a \<le> 244"
    using assms by (simp add: Let_def split: if_splits)
  then show ?thesis
  proof cases
    case 1
    then show ?thesis using assms by (intro exI [of _ 0]) simp
  next
    case 2
    then obtain b r' where "r = b # r'" using assms by (cases r) (auto simp: Let_def)
    then show ?thesis using assms 2 by (intro exI [of _ 1]) (simp add: Let_def)
  next
    case 3
    then obtain b c r' where "r = b # c # r'"
      using assms by (cases r; cases "tl r") (auto simp: Let_def)
    then show ?thesis using assms 3 by (intro exI [of _ 2]) (simp add: Let_def)
  next
    case 4
    then obtain b c d r' where "r = b # c # d # r'"
      using assms by (cases r; cases "tl r"; cases "tl (tl r)") (auto simp: Let_def)
    then show ?thesis using assms 4 by (intro exI [of _ 3]) (simp add: Let_def eval_nat_numeral)
  qed
qed

lemma utf8_ok_append: "utf8_ok a \<Longrightarrow> utf8_ok b \<Longrightarrow> utf8_ok (a @ b)"
proof (induction a rule: length_induct)
  case (1 a)
  show ?case
  proof (cases a)
    case (Cons c r)
    with 1 obtain n where n: "n \<le> length r" "utf8_ok (drop n r)"
      and step: "\<And>u. utf8_ok (drop n r @ u) \<Longrightarrow> utf8_ok (c # r @ u)"
      using utf8_ok_prefix by blast
    then have "utf8_ok (drop n r @ b)" using 1 Cons by simp
    then show ?thesis using step Cons by simp
  qed (use 1 in simp)
qed

text \<open>A header that takes one line and survives trimming.\<close>

definition clean_header :: "string \<times> string \<Rightarrow> bool" where
  "clean_header h =
    (case h of (n, v) \<Rightarrow> n \<noteq> [] \<and> hd n \<noteq> SP \<and> hd n \<noteq> CHR 0x09 \<and> trim n = n \<and> trim v = v \<and> utf8_ok n \<and> utf8_ok v \<and>
       {CR, LF, CHR '':''} \<inter> set n = {} \<and> {CR, LF} \<inter> set v = {})"

lemma header_line_clean:
  assumes "clean_header (n, v)"
  shows "header_line hs (n @ '': '' @ v @ [CR]) = hs @ [(n, v)]"
proof -
  obtain c r where n: "n = c # r" using assms by (cases n) (auto simp: clean_header_def)
  have "strip_suffix [CR] ((n @ '': '' @ v) @ [CR]) = Some (n @ '': '' @ v)"
    by (simp add: strip_suffix_def is_suffix_def is_prefix_def)
  moreover have "split_once (CHR '':'') (n @ CHR '':'' # SP # v) = Some (n, SP # v)"
    by (rule split_once_first) (use assms in \<open>auto simp: clean_header_def\<close>)
  moreover have "trim (SP # v) = trim v" by (simp add: trim_def SP_def)
  ultimately show ?thesis using assms n by (simp add: header_line_def clean_header_def SP_def)
qed

lemma header_line_Nil [simp]: "header_line hs [] = hs"
  by (simp add: header_line_def strip_suffix_def is_suffix_def is_prefix_def)

lemma split_on_line: "x \<notin> set l \<Longrightarrow> split_on x (l @ x # r) = l # split_on x r"
  by (induction l) auto

lemma parse_rendered:
  "list_all clean_header hs \<Longrightarrow>
   foldl header_line acc (split_on LF (concat (map render_header hs))) = acc @ hs"
proof (induction hs arbitrary: acc)
  case (Cons h hs)
  obtain n v where h: "h = (n, v)" by (cases h)
  have "LF \<notin> set (n @ '': '' @ v @ [CR])" using Cons.prems h by (simp add: clean_header_def LF_def CR_def)
  from split_on_line [OF this] have "split_on LF (render_header h @ r) = (n @ '': '' @ v @ [CR]) # split_on LF r" for r
    by (simp add: h render_header_def CRLF_eq)
  then show ?case using Cons header_line_clean [of n v acc] h by simp
qed simp

lemma rendered_utf8: "list_all clean_header hs \<Longrightarrow> utf8_ok (concat (map render_header hs))"
proof (induction hs)
  case (Cons h hs)
  obtain n v where h: "h = (n, v)" by (cases h)
  have "utf8_ok '': ''" "utf8_ok CRLF" by (simp_all add: CRLF_def byte_def)
  moreover have "utf8_ok n" "utf8_ok v" using Cons.prems h by (simp_all add: clean_header_def)
  moreover have "utf8_ok (concat (map render_header hs))" using Cons by simp
  ultimately have "utf8_ok (n @ '': '' @ v @ CRLF @ concat (map render_header hs))" by (intro utf8_ok_append)
  moreover have "render_header h = n @ '': '' @ v @ CRLF" by (simp add: h render_header_def)
  ultimately show ?case by simp
qed simp

text \<open>The blank line that ends the headers is the first one.\<close>

lemma rendered_ends:
  assumes "list_all clean_header hs" "hs \<noteq> []"
  shows "\<exists>x. concat (map render_header hs) = x @ CRLF \<and> x \<noteq> [] \<and> hd x \<noteq> CR \<and> absent (CRLF @ CRLF) x t"
  using assms
proof (induction hs)
  case (Cons h hs)
  obtain n v where h: "h = (n, v)" by (cases h)
  let ?l = "n @ '': '' @ v"
  have r: "render_header h = ?l @ CRLF" by (simp add: h render_header_def)
  have n: "n \<noteq> []" "hd n \<noteq> CR" "CR \<notin> set ?l"
    using Cons.prems h by (auto simp: clean_header_def CR_def dest: hd_in_set)
  have l: "absent (CRLF @ CRLF) ?l u" for u
    by (rule absent_hd) (use n in \<open>simp_all add: CRLF_eq\<close>)
  show ?case
  proof (cases "hs = []")
    case True
    then show ?thesis using n l by (intro exI [of _ ?l]) (simp add: r)
  next
    case False
    with Cons obtain x where x: "concat (map render_header hs) = x @ CRLF" "x \<noteq> []" "hd x \<noteq> CR" "absent (CRLF @ CRLF) x t"
      by auto
    have "absent (CRLF @ CRLF) (CRLF @ x) t" using x(2-4) by (cases x) (simp_all add: CRLF_eq absent_Cons)
    then have "absent (CRLF @ CRLF) (?l @ CRLF @ x) t" using l by (simp only: absent_append)
    then show ?thesis using n x(1) by (intro exI [of _ "?l @ CRLF @ x"]) (simp add: r)
  qed
qed simp

lemma split_rendered:
  assumes "list_all clean_header hs" "hs \<noteq> []"
  shows "split_message (concat (map render_header hs) @ CRLF @ body) = Some (hs, body)"
proof -
  obtain x where x: "concat (map render_header hs) = x @ CRLF" "absent (CRLF @ CRLF) x ((CRLF @ CRLF) @ body)"
    using rendered_ends [OF assms] by blast
  from find_sub_first [OF x(2)] have f: "find_sub (x @ CRLF @ CRLF @ body) (CRLF @ CRLF) = Some (length x)" by simp
  have "length CRLF = 2" by (simp add: CRLF_def)
  then have "take (length x + 2) (x @ CRLF @ CRLF @ body) = x @ CRLF" "drop (length x + 4) (x @ CRLF @ CRLF @ body) = body"
    by (simp_all add: take_Cons' drop_Cons')
  with f have "split_head_body ((x @ CRLF) @ CRLF @ body) = Some (x @ CRLF, body)"
    by (simp add: split_head_body_def)
  moreover have "parse_headers (x @ CRLF) = hs"
    using parse_rendered [OF assms(1), of "[]"] rendered_utf8 [OF assms(1)] by (simp add: parse_headers_def x(1))
  ultimately show ?thesis unfolding x(1) by (simp add: split_message_def)
qed

lemma hdr_get_Nil [simp]: "hdr_get [] n = []"
  by (simp add: hdr_get_def)

lemma hdr_get_Cons: "hdr_get ((k, v) # hs) n = (if eq_ignore_ascii_case k n then v else hdr_get hs n)"
  by (simp add: hdr_get_def)

lemma hdr_get_append:
  "hdr_get (xs @ ys) n = (if list_ex (\<lambda>(k, _). eq_ignore_ascii_case k n) xs then hdr_get xs n else hdr_get ys n)"
  by (induction xs) (auto simp: hdr_get_Cons)

lemma list_ex_optional: "list_ex P (optional b n v) \<longleftrightarrow> b \<and> P (n, v)"
  by (simp add: optional_def)

lemmas hdr_lookup = built_headers_def Let_def hdr_get_append hdr_get_Cons list_ex_optional

lemma custom_skipped:
  assumes "n \<in> set skip_headers"
  shows "\<not> list_ex (\<lambda>(k, _). eq_ignore_ascii_case k n)
    (map (\<lambda>h. (h_name h, h_value h)) (filter (\<lambda>h. \<not> list_ex (eq_ignore_ascii_case (h_name h)) skip_headers) hs))"
  using assms by (auto simp: list_ex_iff)

lemma eq_case_names:
  "eq_ignore_ascii_case k ''Content-Type'' = eq_ignore_ascii_case k ''content-type''"
  "eq_ignore_ascii_case k ''Subject'' = eq_ignore_ascii_case k ''subject''"
  by (simp_all add: eq_ignore_ascii_case_def ascii_lower_def ascii_lower_char_def is_upper_def byte_def)

lemma hdr_get_name: "(\<And>k. eq_ignore_ascii_case k n = eq_ignore_ascii_case k n') \<Longrightarrow> hdr_get hs n = hdr_get hs n'"
  by (simp add: hdr_get_def)

lemma built_lookups:
  "hdr_get (built_headers e m d now r) ''Subject'' = built_subject e m"
  "hdr_get (built_headers e m d now r) ''Message-Id'' = ''<'' @ built_id m d now r @ ''>''"
  by (simp_all add: hdr_lookup eq_ignore_ascii_case_def eval)

lemma built_content_type:
  "hdr_get (built_headers e m d now r) ''Content-Type'' = ''text/plain; charset=utf-8''"
proof -
  have "''content-type'' \<in> set skip_headers" by (simp add: skip_headers_def)
  note skipped = custom_skipped [OF this, of "headers m"]
  have "hdr_get (built_headers e m d now r) ''content-type'' = ''text/plain; charset=utf-8''"
    unfolding built_headers_def Let_def hdr_get_append using skipped
    by (simp add: hdr_get_Cons list_ex_optional eq_ignore_ascii_case_def ascii_lower_def ascii_lower_char_def is_upper_def byte_def)
  then show ?thesis using hdr_get_name [OF eq_case_names(1)] by simp
qed

lemma built_no_encoding:
  assumes "list_all (\<lambda>h. \<not> eq_ignore_ascii_case (h_name h) ''Content-Transfer-Encoding'') (headers m)"
  shows "hdr_get (built_headers e m d now r) ''Content-Transfer-Encoding'' = []"
proof -
  have "\<not> list_ex (\<lambda>(k, _). eq_ignore_ascii_case k ''Content-Transfer-Encoding'')
    (map (\<lambda>h. (h_name h, h_value h)) (filter (\<lambda>h. \<not> list_ex (eq_ignore_ascii_case (h_name h)) skip_headers) (headers m)))"
    using assms by (auto simp: list_ex_iff list_all_iff)
  then show ?thesis
    unfolding built_headers_def Let_def hdr_get_append
    by (simp add: hdr_get_Cons list_ex_optional eq_ignore_ascii_case_def ascii_lower_def ascii_lower_char_def is_upper_def byte_def)
qed

lemma trim_matches_bracketed:
  assumes "a \<in> set cs" "b \<in> set cs"
  shows "trim_matches cs ([a] @ s @ [b]) = trim_matches cs s"
proof (cases "list_all (\<lambda>c. c \<in> set cs) s")
  case True
  then show ?thesis using assms
    by (simp add: trim_matches_def trim_start_chars_def trim_end_chars_def list_all_iff dropWhile_eq_Nil_conv)
      (metis set_dropWhileD)
next
  case False
  then obtain c where "c \<in> set s" "c \<notin> set cs" by (auto simp: list_all_iff)
  then show ?thesis using assms
    by (simp add: trim_matches_def trim_start_chars_def trim_end_chars_def dropWhile_append1)
qed

text \<open>C22. What the relay writes, a relay reads back: unless a field breaks its header line, the
  headers of a written message are exactly those that were written, the body follows them, and
  the message read has the text, the subject and the id of the one written.\<close>

theorem built_message_reads_back:
  assumes "list_all clean_header (built_headers e m d now r)"
    "list_all (\<lambda>h. \<not> eq_ignore_ascii_case (h_name h) ''Content-Transfer-Encoding'') (headers m)"
  shows "split_message (fst (build_rfc5322 e m d now r)) = Some (built_headers e m d now r, message_body m) \<and>
    (\<exists>m'. parse_mime_email e (fst (build_rfc5322 e m d now r)) t = Some m' \<and>
       message_body m' = normalise_newlines (utf8_lossy (message_body m)) \<and>
       subject m' = decode_words e (built_subject e m) \<and>
       message_id m' = id_list (trim_matches id_chars (built_id m d now r)))"
proof
  let ?hs = "built_headers e m d now r"
  have "?hs \<noteq> []" by (simp add: built_headers_def Let_def)
  from split_rendered [OF assms(1) this]
  show split: "split_message (fst (build_rfc5322 e m d now r)) = Some (?hs, message_body m)"
    by (simp add: build_rfc5322_def)
  have media: "parse_media_type ''text/plain; charset=utf-8'' = Some (''text/plain'', [(''charset'', ''utf-8'')])"
    by (simp add: eval trim_def graphic_def byte_def)
  have "extract_mime_text e ''text/plain; charset=utf-8'' [] body = normalise_newlines (utf8_lossy body)" for body
    by (subst extract_mime_text.simps) (simp add: media decode_transfer_def decode_transfer_bytes_def trim_def ascii_lower_def)
  moreover have "trim_matches id_chars (''<'' @ i @ ''>'') = trim_matches id_chars i" for i
    by (rule trim_matches_bracketed) (simp_all add: id_chars_def)
  ultimately show "\<exists>m'. parse_mime_email e (fst (build_rfc5322 e m d now r)) t = Some m' \<and>
       message_body m' = normalise_newlines (utf8_lossy (message_body m)) \<and>
       subject m' = decode_words e (built_subject e m) \<and>
       message_id m' = id_list (trim_matches id_chars (built_id m d now r))"
    by (simp add: parse_mime_email_def split built_lookups built_content_type built_no_encoding [OF assms(2)]
      message_body_def bt_get_def)
qed

section \<open>Witnesses\<close>

definition demo_day :: datetime where
  "demo_day = \<lparr>dt_year = 2026, dt_month = 8, dt_day = 3, dt_weekday = 0, dt_hour = 9, dt_minute = 5, dt_second = 7,
     dt_nano = 0, dt_off = (9, 0, 0), dt_unix_nanos = 77\<rparr>"

definition demo_letter :: email where
  "demo_letter = email_default\<lparr>m_from := [\<lparr>a_name = ''Ana'', a_email = ''ana@x''\<rparr>],
     m_to := [\<lparr>a_name = [], a_email = ''bob@y''\<rparr>], subject := ''Hi'',
     body_values := [(''1'', body_value_default\<lparr>bv_value := ''See you.''\<rparr>)],
     text_body := [BodyPart ''1'' [] 0 [] [] ''text/plain'' [] [] [] [] [] []]\<rparr>"

lemma demo_fields:
  "m_from demo_letter = [\<lparr>a_name = ''Ana'', a_email = ''ana@x''\<rparr>]" "m_to demo_letter = [\<lparr>a_name = [], a_email = ''bob@y''\<rparr>]"
  "cc demo_letter = []" "subject demo_letter = ''Hi''" "in_reply_to demo_letter = []" "references demo_letter = []"
  "message_id demo_letter = []" "headers demo_letter = []" "sent_at demo_letter = None" "received_at demo_letter = None"
  "message_body demo_letter = ''See you.''"
  by (simp_all add: demo_letter_def email_default_def message_body_def body_value_default_def bt_get_def)

lemma demo_digits:
  "show_nat 0 = ''0''" "show_nat 3 = ''3''" "show_nat 5 = ''5''" "show_nat 7 = ''7''" "show_nat 9 = ''9''"
  "show_nat 77 = ''77''" "show_nat 2026 = ''2026''"
  by (simp_all add: show_nat.simps [of 0] show_nat.simps [of 3] show_nat.simps [of 5] show_nat.simps [of 7]
    show_nat.simps [of 9] show_nat.simps [of 77] show_nat.simps [of 2026] show_nat.simps [of 202] show_nat.simps [of 20]
    show_nat.simps [of 2] chr_def char_of_def bit_0)

lemma demo_two: "two 3 = ''03''" "two 9 = ''09''" "two 5 = ''05''" "two 7 = ''07''" "two 0 = ''00''"
  by (simp_all add: two_def pad0_def demo_digits)

lemma demo_date: "format_rfc1123z demo_day = ''Mon, 03 Aug 2026 09:05:07 +0900''"
  by (simp add: format_rfc1123z_def demo_day_def demo_two off_hm_def off_negative_def show_pad_def pad0_def
    show_int_def rfc_days_def rfc_months_def demo_digits)

lemma demo_names:
  "format_addr \<lparr>a_name = ''Ana'', a_email = ''ana@x''\<rparr> = [CHR 0x22] @ ''Ana'' @ [CHR 0x22] @ '' <ana@x>''"
  "format_addr \<lparr>a_name = [], a_email = ''bob@y''\<rparr> = [CHR 0x22] @ ''bob'' @ [CHR 0x22] @ '' <bob@y>''"
  by (simp_all add: format_addr_def render_display_name_def quote_string_def quote_char_def is_vchar_def byte_def)

lemma demo_built:
  "built_headers demo_mime demo_letter [] demo_day ''ab'' =
    [(''MIME-Version'', ''1.0''), (''From'', [CHR 0x22] @ ''Ana'' @ [CHR 0x22] @ '' <ana@x>''),
     (''To'', [CHR 0x22] @ ''bob'' @ [CHR 0x22] @ '' <bob@y>''), (''Subject'', ''Hi''),
     (''Date'', ''Mon, 03 Aug 2026 09:05:07 +0900''), (''Message-Id'', ''<77.ab@x>''),
     (''Content-Type'', ''text/plain; charset=utf-8'')]"
  by (simp add: built_headers_def demo_fields demo_names demo_date join_addrs_def optional_def built_subject_def
    built_date_def built_id_def built_domain_def demo_day_def [THEN arg_cong, of dt_unix_nanos] show_int_def demo_digits)

lemma built_message_reads_back_witness:
  "\<exists>m'. parse_mime_email demo_mime (fst (build_rfc5322 demo_mime demo_letter [] demo_day ''ab'')) ''now'' = Some m' \<and>
     message_body m' = ''See you.'' \<and> subject m' = ''Hi''"
proof -
  have clean: "list_all clean_header (built_headers demo_mime demo_letter [] demo_day ''ab'')"
    unfolding demo_built
    by (simp add: clean_header_def trim_def trim_end_graphic graphic_def byte_def SP_def CR_def LF_def)
  have "list_all (\<lambda>h. \<not> eq_ignore_ascii_case (h_name h) ''Content-Transfer-Encoding'') (headers demo_letter)"
    by (simp add: demo_fields)
  note reread = built_message_reads_back [OF clean this, of "''now''", THEN conjunct2, unfolded demo_fields]
  have "normalise_newlines (utf8_lossy ''See you.'') = ''See you.''" by (simp add: byte_def CR_def)
  moreover have "decode_words demo_mime (built_subject demo_mime demo_letter) = ''Hi''"
    by (simp add: demo_fields built_subject_def decode_words_def)
  ultimately show ?thesis using reread by metis
qed

definition demo_sealed :: mime_headers where
  "demo_sealed = [(''Content-Type'', ''multipart/encrypted; boundary=b'')]"

definition demo_two_parts :: string where
  "demo_two_parts = multipart ''b'' [''Content-Type: text/plain'' @ CRLF @ CRLF @ ''secret'',
     ''Content-Type: application/octet-stream'' @ CRLF @ CRLF @ pgp_marker]"

lemma encrypted_stays_encrypted_witness:
  "\<exists>m. parse_mime_email demo_mime (concat (map render_header demo_sealed) @ CRLF @ demo_two_parts) ''now'' = Some m \<and>
     (message_body m = [] \<or> contains (message_body m) pgp_marker)"
proof -
  have "list_all clean_header demo_sealed" "demo_sealed \<noteq> []"
    by (simp_all add: demo_sealed_def clean_header_def trim_def trim_end_graphic graphic_def byte_def SP_def CR_def LF_def)
  note split = split_rendered [OF this, of demo_two_parts]
  have media: "parse_media_type (hdr_get demo_sealed ''Content-Type'') = Some (''multipart/encrypted'', [(''boundary'', ''b'')])"
    by (simp add: demo_sealed_def eval trim_def trim_end_graphic graphic_def byte_def)
  obtain m where m: "parse_mime_email demo_mime (concat (map render_header demo_sealed) @ CRLF @ demo_two_parts) ''now'' = Some m"
    by (simp add: parse_mime_email_def split)
  have "message_body m = [] \<or> contains (message_body m) pgp_marker"
    using encrypted_stays_encrypted [OF split media m] by (elim disjE conjE) (rule disjI1, assumption, rule disjI2, assumption)
  with m show ?thesis by (intro exI [of _ m] conjI)
qed

lemma multipart_splits_witness:
  "split_parts (''note'' @ CRLF @ multipart ''b'' [[LF, LF] @ ''hi''] @ CRLF @ ''bye'') ''b'' = [\<lparr>pt_headers = [], pt_body = ''hi''\<rparr>]"
proof -
  have pre: "absent (delimiter ''b'') (''note'' @ CRLF) (delimiter ''b'')"
    by (rule absent_hd) (simp_all add: delimiter_def CRLF_def)
  have part: "\<forall>r \<in> set [[LF, LF] @ ''hi'']. absent (delimiter ''b'') (r @ CRLF) (delimiter ''b'')"
    by (simp add: absent_Cons delimiter_def CRLF_def LF_def)
  have "part_of ([LF, LF] @ ''hi'') = [\<lparr>pt_headers = [], pt_body = ''hi''\<rparr>]"
    by (simp add: part_of_def split_message_def split_head_body_def CRLF_eq LF_def CR_def parse_headers_def byte_def)
  with multipart_splits [OF pre part, of "CRLF @ ''bye''"] show ?thesis by simp
qed

end
