(* ===== verification/KeptFile.thy ===== *)
theory KeptFile
  imports Files
begin

text \<open>
  The contract of a value kept in one JSON file: what is encoded decodes to itself. A file that
  was written reads as the value, and so does every other file as before.
\<close>

lemma fs_write_read:
  assumes "fs_write v p c f = (True, f')"
  shows "fs_read f' p = Some c"
proof -
  obtain k where "locate f p = Some k" "f' = put_file k (Some c) f"
    using assms by (auto simp: fs_write_def split: option.splits if_splits)
  then show ?thesis by (simp add: fs_read_def)
qed

lemma fs_write_other:
  assumes "fs_write v p c f = (b, f')" "locate f q \<noteq> locate f p \<or> locate f q = None"
  shows "fs_read f' q = fs_read f q"
  using fs_write_cases [OF assms(1)] assms(2) by (auto simp: fs_read_def split: option.split) (cases "locate f q"; auto)+

locale kept_value =
  fixes enc :: "'a \<Rightarrow> json" and dec :: "json \<Rightarrow> 'a option" and fits :: "'a \<Rightarrow> bool"
  assumes decodes: "fits x \<Longrightarrow> dec (enc x) = Some x"
begin

definition load :: "fenv \<Rightarrow> fs \<Rightarrow> string \<Rightarrow> 'a option" where
  "load v f p = Option.bind (read_json v f p) dec"

lemma load_written: "fits x \<Longrightarrow> fs_write v p (Json (enc x)) f = (True, f') \<Longrightarrow> load v f' p = Some x"
  using fs_write_read [of v p "Json (enc x)" f f'] by (simp add: load_def read_json_def as_json_def decodes)

lemma load_other:
  "fs_write v p (Json (enc x)) f = (b, f') \<Longrightarrow> locate f q \<noteq> locate f p \<or> locate f q = None \<Longrightarrow> load v f' q = load v f q"
  using fs_write_other [of v p "Json (enc x)" f b f' q] by (simp add: load_def read_json_def)

end

end
