(* ===== verification/Contacts.thy ===== *)
theory Contacts
  imports KeptFile Store
begin

text \<open>
  Two lists the relay keeps for a client: its contacts (\<open>contacts.rs\<close>), one file per account,
  and its Web Push subscriptions (\<open>push.rs\<close>), one file for all accounts.
\<close>

section \<open>Cards\<close>

record email_addr =
  ed_address :: string

record crypto_key =
  ck_uri :: string

record contact_link =
  li_uri :: string

record card =
  cd_kind :: string
  cd_version :: string
  cd_uid :: string
  cd_emails :: "(string, email_addr) btree"
  cd_keys :: "(string, crypto_key) btree"
  cd_links :: "(string, contact_link) btree"
  cd_verified_at :: int

definition enc_email_addr :: "email_addr \<Rightarrow> json" where
  "enc_email_addr a = struct [(''address'', Some (JStr (ed_address a)))]"

definition dec_email_addr :: "json \<Rightarrow> email_addr option" where
  "dec_email_addr j =
    (if \<not> struct_ok 1 j then None
     else do { a \<leftarrow> req j 0 ''address'' dec_str; Some \<lparr>ed_address = a\<rparr> })"

definition enc_crypto_key :: "crypto_key \<Rightarrow> json" where
  "enc_crypto_key a = struct [(''uri'', Some (JStr (ck_uri a)))]"

definition dec_crypto_key :: "json \<Rightarrow> crypto_key option" where
  "dec_crypto_key j =
    (if \<not> struct_ok 1 j then None
     else do { a \<leftarrow> req j 0 ''uri'' dec_str; Some \<lparr>ck_uri = a\<rparr> })"

definition enc_link :: "contact_link \<Rightarrow> json" where
  "enc_link a = struct [(''uri'', Some (JStr (li_uri a)))]"

definition dec_link :: "json \<Rightarrow> contact_link option" where
  "dec_link j =
    (if \<not> struct_ok 1 j then None
     else do { a \<leftarrow> req j 0 ''uri'' dec_str; Some \<lparr>li_uri = a\<rparr> })"

definition card_fields :: "card \<Rightarrow> (string \<times> json option) list" where
  "card_fields c =
    [(''@type'', Some (JStr (cd_kind c))), (''version'', Some (JStr (cd_version c))), (''uid'', Some (JStr (cd_uid c))),
     (''emails'', unless (cd_emails c = []) (enc_map enc_email_addr (cd_emails c))),
     (''cryptoKeys'', unless (cd_keys c = []) (enc_map enc_crypto_key (cd_keys c))),
     (''links'', unless (cd_links c = []) (enc_map enc_link (cd_links c))),
     (''biset.md:verifiedAt'', unless (cd_verified_at c = 0) (JNum (cd_verified_at c)))]"

definition enc_card :: "card \<Rightarrow> json" where
  "enc_card c = struct (card_fields c)"

definition dec_card :: "json \<Rightarrow> card option" where
  "dec_card j =
    (if \<not> struct_ok 7 j then None
     else do {
       t \<leftarrow> req j 0 ''@type'' dec_str;
       v \<leftarrow> req j 1 ''version'' dec_str;
       u \<leftarrow> req j 2 ''uid'' dec_str;
       e \<leftarrow> fld j 3 ''emails'' (dec_map dec_email_addr) [];
       k \<leftarrow> fld j 4 ''cryptoKeys'' (dec_map dec_crypto_key) [];
       l \<leftarrow> fld j 5 ''links'' (dec_map dec_link) [];
       a \<leftarrow> fld j 6 ''biset.md:verifiedAt'' dec_i64 0;
       Some \<lparr>cd_kind = t, cd_version = v, cd_uid = u, cd_emails = e, cd_keys = k, cd_links = l, cd_verified_at = a\<rparr>
     })"

section \<open>The contacts of an account\<close>

definition contacts_path :: "string \<Rightarrow> string" where
  "contacts_path dir = pjoin dir ''contacts.json''"

definition read_contacts :: "fenv \<Rightarrow> string \<Rightarrow> fs \<Rightarrow> card list" where
  "read_contacts v dir f =
    (case Option.bind (read_json v f (contacts_path dir)) (dec_vec dec_card) of None \<Rightarrow> [] | Some cs \<Rightarrow> cs)"

fun upsert :: "card \<Rightarrow> card list \<Rightarrow> card list" where
  "upsert c [] = [c]"
| "upsert c (d # ds) = (if cd_uid d = cd_uid c then c # ds else d # upsert c ds)"

definition put_contact :: "fenv \<Rightarrow> string \<Rightarrow> card \<Rightarrow> fs \<Rightarrow> bool \<times> fs" where
  "put_contact v dir c f =
    fs_write v (contacts_path dir) (Json (enc_vec enc_card (upsert c (read_contacts v dir f)))) f"

datatype contact_error = InvalidCard | UidMismatch | ContactUnauthorized | ContactNotFound

fun contact_status :: "contact_error \<Rightarrow> nat" where
  "contact_status InvalidCard = 400"
| "contact_status UidMismatch = 400"
| "contact_status ContactUnauthorized = 401"
| "contact_status ContactNotFound = 404"

fun contact_message :: "contact_error \<Rightarrow> string" where
  "contact_message InvalidCard = ''invalid card''"
| "contact_message UidMismatch = ''uid mismatch''"
| "contact_message ContactUnauthorized = ''unauthorized''"
| "contact_message ContactNotFound = ''not found''"

definition parse_upsert :: "fenv \<Rightarrow> string \<Rightarrow> string \<Rightarrow> contact_error + card" where
  "parse_upsert v path_uid body =
    (if path_uid = [] then Inl ContactNotFound
     else (case Option.bind (f_parse v body) dec_card of
             None \<Rightarrow> Inl InvalidCard
           | Some c \<Rightarrow>
               if cd_uid c = [] then Inl InvalidCard
               else if cd_uid c \<noteq> path_uid then Inl UidMismatch
               else Inr c))"

section \<open>Push subscriptions\<close>

record push_subscription =
  ps_endpoint :: string
  ps_p256dh :: string
  ps_auth :: string

definition enc_subscription :: "push_subscription \<Rightarrow> json" where
  "enc_subscription s = struct [(''endpoint'', Some (JStr (ps_endpoint s))), (''p256dh'', Some (JStr (ps_p256dh s))),
     (''auth'', Some (JStr (ps_auth s)))]"

definition dec_subscription :: "json \<Rightarrow> push_subscription option" where
  "dec_subscription j =
    (if \<not> struct_ok 3 j then None
     else do {
       e \<leftarrow> req j 0 ''endpoint'' dec_str;
       p \<leftarrow> fld j 1 ''p256dh'' dec_str [];
       a \<leftarrow> fld j 2 ''auth'' dec_str [];
       Some \<lparr>ps_endpoint = e, ps_p256dh = p, ps_auth = a\<rparr>
     })"

record vapid =
  va_public :: string
  va_private :: string
  va_subscriber :: string

text \<open>\<open>str::get(..7)\<close>: nothing off a character boundary.\<close>

definition vapid_new :: "string \<Rightarrow> string \<Rightarrow> string \<Rightarrow> vapid" where
  "vapid_new public private subscriber =
    \<lparr>va_public = public, va_private = private,
     va_subscriber =
       (if 7 \<le> length subscriber \<and> char_boundary subscriber 7 \<and> eq_ignore_ascii_case (take 7 subscriber) ''mailto:''
        then drop 7 subscriber else subscriber)\<rparr>"

record push_registry =
  pr_subs :: "(string, push_subscription list) btree"
  pr_dir :: "string option"

definition push_new :: push_registry where
  "push_new = \<lparr>pr_subs = [], pr_dir = None\<rparr>"

definition push_path :: "string \<Rightarrow> string" where
  "push_path dir = pjoin dir ''push_subs.json''"

definition push_load :: "fenv \<Rightarrow> string \<Rightarrow> fs \<Rightarrow> push_registry \<Rightarrow> push_registry" where
  "push_load v dir f r =
    (case Option.bind (read_json v f (push_path dir)) (dec_map (dec_vec dec_subscription)) of
       None \<Rightarrow> r\<lparr>pr_dir := Some dir\<rparr>
     | Some subs \<Rightarrow> r\<lparr>pr_dir := Some dir, pr_subs := subs\<rparr>)"

definition push_save :: "fenv \<Rightarrow> push_registry \<times> fs \<Rightarrow> push_registry \<times> fs" where
  "push_save v s =
    (case s of
       (r, f) \<Rightarrow>
         (case pr_dir r of
            None \<Rightarrow> (r, f)
          | Some dir \<Rightarrow> (r, snd (fs_write v (push_path dir) (Json (enc_map (enc_vec enc_subscription) (pr_subs r))) f))))"

definition push_for :: "push_registry \<Rightarrow> string \<Rightarrow> push_subscription list" where
  "push_for r a = (case bt_get (pr_subs r) a of None \<Rightarrow> [] | Some l \<Rightarrow> l)"

definition push_add :: "fenv \<Rightarrow> string \<Rightarrow> push_subscription \<Rightarrow> push_registry \<times> fs \<Rightarrow> push_registry \<times> fs" where
  "push_add v a sub s =
    (case s of
       (r, f) \<Rightarrow>
         (let l = push_for r a in
          if list_ex (\<lambda>x. ps_endpoint x = ps_endpoint sub) l then (r\<lparr>pr_subs := bt_ins a l (pr_subs r)\<rparr>, f)
          else push_save v (r\<lparr>pr_subs := bt_ins a (l @ [sub]) (pr_subs r)\<rparr>, f)))"

definition push_remove :: "fenv \<Rightarrow> string \<Rightarrow> string \<Rightarrow> push_registry \<times> fs \<Rightarrow> push_registry \<times> fs" where
  "push_remove v a endpoint s =
    (case s of
       (r, f) \<Rightarrow>
         push_save v
           ((case bt_get (pr_subs r) a of
               None \<Rightarrow> r
             | Some l \<Rightarrow>
                 (let l' = filter (\<lambda>x. ps_endpoint x \<noteq> endpoint) l in
                  r\<lparr>pr_subs := (if l' = [] then bt_del a (pr_subs r) else bt_ins a l' (pr_subs r))\<rparr>)), f))"

definition push_count :: "push_registry \<Rightarrow> nat" where
  "push_count r = sum_list (map length (bt_vals (pr_subs r)))"

definition state_event :: string where
  "state_event = ''event: state'' @ [LF] @ ''data: {'' @ [CHR 0x22] @ ''changed'' @ [CHR 0x22] @ '':{'' @ [CHR 0x22] @
     ''urn:ietf:params:jmap:mail'' @ [CHR 0x22] @ '':null}}'' @ [LF, LF]"

definition ping_event :: string where
  "ping_event = '': ping'' @ [LF, LF]"

section \<open>What is kept\<close>

definition card_fits :: "card \<Rightarrow> bool" where
  "card_fits c \<longleftrightarrow> - (2 ^ 63) \<le> cd_verified_at c \<and> cd_verified_at c < 2 ^ 63"

lemma leaf_roundtrips [simp]:
  "dec_email_addr (enc_email_addr a) = Some a" "dec_crypto_key (enc_crypto_key b) = Some b"
  "dec_link (enc_link l) = Some l" "dec_subscription (enc_subscription s) = Some s"
  by (simp_all add: dec_email_addr_def enc_email_addr_def dec_crypto_key_def enc_crypto_key_def dec_link_def enc_link_def
    dec_subscription_def enc_subscription_def req_def fld_def field_struct)

lemma distinct_card_fields: "distinct (map fst (card_fields c))"
  by (simp add: card_fields_def)

lemma card_roundtrip: "card_fits c \<Longrightarrow> dec_card (enc_card c) = Some c"
  by (simp only: dec_card_def enc_card_def req_def fld_struct [OF distinct_card_fields] field_struct [OF distinct_card_fields]
      struct_ok_struct simp_thms if_True if_False)
    (simp add: card_fields_def card_fits_def roundtrip)

lemma dec_card_fits: "dec_card j = Some c \<Longrightarrow> card_fits c"
  by (auto simp: dec_card_def card_fits_def fld_def dec_i64_def split: if_splits option.splits json.splits bind_splits)

text \<open>The three files and their contract.\<close>

interpretation cards: kept_value "enc_vec enc_card" "dec_vec dec_card" "list_all card_fits"
  by unfold_locales (auto intro!: dec_enc_vec card_roundtrip simp: list_all_iff)

interpretation subs: kept_value "enc_map (enc_vec enc_subscription)" "dec_map (dec_vec dec_subscription)" "\<lambda>_. True"
  by unfold_locales (intro dec_enc_map dec_enc_vec, simp)

lemma read_contacts_load: "read_contacts v dir f = (case cards.load v f (contacts_path dir) of None \<Rightarrow> [] | Some cs \<Rightarrow> cs)"
  by (simp add: read_contacts_def cards.load_def)

lemma dec_vec_all: "dec_vec d j = Some xs \<Longrightarrow> (\<And>k x. d k = Some x \<Longrightarrow> P x) \<Longrightarrow> list_all P xs"
proof -
  have seq: "sequence_opt (map d ks) = Some xs \<Longrightarrow> (\<And>k x. d k = Some x \<Longrightarrow> P x) \<Longrightarrow> list_all P xs" for ks
  proof (induction ks arbitrary: xs)
    case (Cons a ks)
    then show ?case by (cases "d a") (auto split: option.splits bind_splits)
  qed simp
  assume "dec_vec d j = Some xs" "\<And>k x. d k = Some x \<Longrightarrow> P x"
  then show ?thesis using seq by (cases j) (auto simp: dec_vec_def)
qed

lemma read_contacts_fit: "list_all card_fits (read_contacts v dir f)"
  using dec_vec_all [of dec_card _ _ card_fits] dec_card_fits
  by (auto simp: read_contacts_def split: option.split bind_splits)

lemma upsert_fits: "list_all P cs \<Longrightarrow> P c \<Longrightarrow> list_all P (upsert c cs)"
  by (induction cs) auto

lemma upsert_uids: "map cd_uid (upsert c cs) = (if cd_uid c \<in> set (map cd_uid cs) then map cd_uid cs else map cd_uid cs @ [cd_uid c])"
  by (induction cs) auto

lemma upsert_find: "find (\<lambda>d. cd_uid d = u) (upsert c cs) = (if u = cd_uid c then Some c else find (\<lambda>d. cd_uid d = u) cs)"
  by (induction cs) auto

text \<open>A contact that was accepted and stored is there afterwards, at the place of the card it
  replaces or at the end; every other card of the account is as it was, and so are the contacts
  of every account kept elsewhere.\<close>

theorem stored_contact_is_kept:
  assumes "parse_upsert v uid body = Inr c" "put_contact v dir c f = (True, f')"
  shows "find (\<lambda>d. cd_uid d = u) (read_contacts v dir f') =
      (if u = uid then Some c else find (\<lambda>d. cd_uid d = u) (read_contacts v dir f)) \<and>
    map cd_uid (read_contacts v dir f') =
      (if uid \<in> set (map cd_uid (read_contacts v dir f)) then map cd_uid (read_contacts v dir f)
       else map cd_uid (read_contacts v dir f) @ [uid]) \<and>
    (locate f (contacts_path dir') = locate f (contacts_path dir) \<or>
     read_contacts v dir' f' = read_contacts v dir' f)"
proof -
  have c: "cd_uid c = uid" "card_fits c"
    using assms(1) dec_card_fits by (auto simp: parse_upsert_def split: if_splits option.splits bind_splits)
  let ?cs = "upsert c (read_contacts v dir f)"
  have w: "fs_write v (contacts_path dir) (Json (enc_vec enc_card ?cs)) f = (True, f')"
    using assms(2) by (simp add: put_contact_def)
  from cards.load_written [OF upsert_fits [OF read_contacts_fit c(2)] this]
  have "read_contacts v dir f' = ?cs" by (simp add: read_contacts_load)
  moreover from cards.load_other [OF w, of "contacts_path dir'"]
  have "locate f (contacts_path dir') \<noteq> locate f (contacts_path dir) \<Longrightarrow> read_contacts v dir' f' = read_contacts v dir' f"
    by (simp add: read_contacts_load)
  ultimately show ?thesis by (auto simp: upsert_find upsert_uids c(1))
qed

section \<open>Subscriptions and restarts\<close>

datatype push_op = Subscribe string push_subscription | Unsubscribe string string

fun push_step :: "fenv \<Rightarrow> push_op \<Rightarrow> push_registry \<times> fs \<Rightarrow> push_registry \<times> fs" where
  "push_step v (Subscribe a sub) s = push_add v a sub s"
| "push_step v (Unsubscribe a e) s = push_remove v a e s"

definition push_steps :: "fenv \<Rightarrow> push_op list \<Rightarrow> push_registry \<times> fs \<Rightarrow> push_registry \<times> fs" where
  "push_steps v ops s = foldl (\<lambda>s op. push_step v op s) s ops"

text \<open>The file holds the registry; before the first write there may be no file, or one that does not read.\<close>

definition in_step :: "fenv \<Rightarrow> string \<Rightarrow> node_path \<Rightarrow> push_registry \<times> fs \<Rightarrow> bool" where
  "in_step v dir k s \<longleftrightarrow>
    (case s of
       (r, f) \<Rightarrow> pr_dir r = Some dir \<and> bt_ok (pr_subs r) \<and>
         locate f (push_path dir) = Some k \<and> \<not> is_dir f k \<and> is_dir f (butlast k) \<and>
         (subs.load v f (push_path dir) = Some (pr_subs r) \<or> subs.load v f (push_path dir) = None \<and> pr_subs r = []))"

lemma push_save_in_step:
  assumes "f_io v k = None" "pr_dir r = Some dir" "bt_ok (pr_subs r)"
    "locate f (push_path dir) = Some k" "\<not> is_dir f k" "is_dir f (butlast k)"
  shows "in_step v dir k (push_save v (r, f))"
proof -
  let ?j = "Json (enc_map (enc_vec enc_subscription) (pr_subs r))"
  have w: "fs_write v (push_path dir) ?j f = (True, put_file k (Some ?j) f)"
    using assms by (simp add: fs_write_def)
  from subs.load_written [OF TrueI this] assms show ?thesis by (simp add: in_step_def push_save_def w)
qed

lemma push_step_in_step:
  assumes "f_io v k = None" "in_step v dir k s"
  shows "in_step v dir k (push_step v op s)"
proof -
  obtain r f where s: "s = (r, f)" by (cases s)
  note inv = assms(2) [unfolded s in_step_def prod.case]
  have saved: "in_step v dir k (push_save v (r\<lparr>pr_subs := m\<rparr>, f))" if "bt_ok m" for m
    by (rule push_save_in_step [OF assms(1)]) (use inv that in auto)
  show ?thesis
  proof (cases op)
    case (Subscribe a sub)
    show ?thesis
    proof (cases "list_ex (\<lambda>x. ps_endpoint x = ps_endpoint sub) (push_for r a)")
      case True
      then have "bt_get (pr_subs r) a = Some (push_for r a)" by (auto simp: push_for_def split: option.splits)
      then have "bt_ins a (push_for r a) (pr_subs r) = pr_subs r" using inv by (simp add: bt_ins_same)
      with True assms(2) show ?thesis by (simp add: Subscribe s push_add_def)
    next
      case False
      with inv show ?thesis by (simp add: Subscribe s push_add_def saved)
    qed
  next
    case (Unsubscribe a e)
    show ?thesis
    proof (cases "bt_get (pr_subs r) a")
      case None
      with saved [of "pr_subs r"] inv show ?thesis by (simp add: Unsubscribe s push_remove_def)
    next
      case (Some l)
      with inv show ?thesis by (simp add: Unsubscribe s push_remove_def Let_def saved)
    qed
  qed
qed

text \<open>On a disk that works, the subscriptions a relay knows after any requests are those it
  knows after a restart.\<close>

theorem subscriptions_survive_restart:
  assumes "f_io v k = None" "locate f (push_path dir) = Some k" "\<not> is_dir f k" "is_dir f (butlast k)"
    "bt_ok (pr_subs (push_load v dir f push_new))"
    "push_steps v ops (push_load v dir f push_new, f) = (r, f')"
  shows "pr_subs (push_load v dir f' push_new) = pr_subs r"
proof -
  have "in_step v dir k (push_load v dir f push_new, f)"
    using assms(2-5) by (auto simp: in_step_def push_load_def push_new_def subs.load_def split: option.split)
  then have "in_step v dir k (push_steps v ops s)" if "s = (push_load v dir f push_new, f)" for s
    unfolding push_steps_def that
    by (induction ops rule: rev_induct) (simp_all add: push_step_in_step [OF assms(1)])
  with assms(6) have "in_step v dir k (r, f')" by metis
  then show ?thesis by (auto simp: in_step_def push_load_def push_new_def subs.load_def)
qed

definition demo_card :: card where
  "demo_card = \<lparr>cd_kind = ''Card'', cd_version = ''1.0'', cd_uid = ''u'', cd_emails = [(''e'', \<lparr>ed_address = ''b@y''\<rparr>)],
     cd_keys = [], cd_links = [], cd_verified_at = 7\<rparr>"

definition demo_cards_env :: fenv where
  "demo_cards_env = \<lparr>f_parse = (\<lambda>_. Some (enc_card demo_card)), f_print = (\<lambda>_. []), f_io = (\<lambda>_. None), f_kept = (\<lambda>_. False)\<rparr>"

definition demo_dir_fs :: fs where
  "demo_dir_fs = \<lparr>fs_files = [], fs_dirs = bs_of [[''d'']]\<rparr>"

lemma stored_contact_is_kept_witness:
  "find (\<lambda>c. cd_uid c = ''u'') (read_contacts demo_cards_env ''d'' (snd (put_contact demo_cards_env ''d'' demo_card demo_dir_fs)))
    = Some demo_card"
proof -
  have parsed: "parse_upsert demo_cards_env ''u'' [] = Inr demo_card"
    using card_roundtrip [of demo_card] by (simp add: parse_upsert_def demo_cards_env_def card_fits_def demo_card_def)
  have "locate demo_dir_fs ''d/contacts.json'' = Some [''d'', ''contacts.json'']"
    by (simp add: locate_def is_dir_def demo_dir_fs_def bs_mem_set)
  then have "fst (put_contact demo_cards_env ''d'' c demo_dir_fs)" for c
    by (simp add: put_contact_def fs_write_def contacts_path_def pjoin_def is_prefix_def is_suffix_def is_dir_def
      demo_dir_fs_def bs_mem_set demo_cards_env_def)
  then obtain f' where "put_contact demo_cards_env ''d'' demo_card demo_dir_fs = (True, f')"
    by (metis prod.collapse)
  with stored_contact_is_kept [OF parsed this, of "''u''" "''d''"] show ?thesis by simp
qed

lemma subscriptions_survive_restart_witness:
  "push_for (push_load demo_cards_env ''d'' (snd (push_steps demo_cards_env
      [Subscribe ''ana@x'' \<lparr>ps_endpoint = ''e'', ps_p256dh = [], ps_auth = []\<rparr>]
      (push_load demo_cards_env ''d'' demo_dir_fs push_new, demo_dir_fs))) push_new) ''ana@x''
    = [\<lparr>ps_endpoint = ''e'', ps_p256dh = [], ps_auth = []\<rparr>]"
proof -
  let ?s = "push_steps demo_cards_env [Subscribe ''ana@x'' \<lparr>ps_endpoint = ''e'', ps_p256dh = [], ps_auth = []\<rparr>]
      (push_load demo_cards_env ''d'' demo_dir_fs push_new, demo_dir_fs)"
  have path: "push_path ''d'' = ''d/push_subs.json''" by (simp add: push_path_def pjoin_def is_prefix_def is_suffix_def)
  have loc: "locate demo_dir_fs (push_path ''d'') = Some [''d'', ''push_subs.json'']"
    by (simp add: path locate_def is_dir_def demo_dir_fs_def bs_mem_set)
  have none: "push_load demo_cards_env ''d'' demo_dir_fs push_new = push_new\<lparr>pr_dir := Some ''d''\<rparr>"
    using loc by (simp add: push_load_def read_json_def fs_read_def demo_dir_fs_def)
  have "pr_subs (fst ?s) = [(''ana@x'', [\<lparr>ps_endpoint = ''e'', ps_p256dh = [], ps_auth = []\<rparr>])]"
    by (simp add: none push_steps_def push_add_def push_for_def push_save_def Let_def) (simp add: push_new_def)
  moreover have "pr_subs (push_load demo_cards_env ''d'' (snd ?s) push_new) = pr_subs (fst ?s)"
  proof (rule subscriptions_survive_restart [OF _ loc _ _ _ prod.collapse [symmetric]])
    show "bt_ok (pr_subs (push_load demo_cards_env ''d'' demo_dir_fs push_new))" by (simp add: none) (simp add: push_new_def)
  qed (simp_all add: demo_cards_env_def is_dir_def demo_dir_fs_def bs_mem_set)
  ultimately show ?thesis by (simp add: push_for_def bt_get_def)
qed

declare enc_email_addr_def [eval] dec_email_addr_def [eval] enc_crypto_key_def [eval] dec_crypto_key_def [eval]
  enc_link_def [eval] dec_link_def [eval] card_fields_def [eval] enc_card_def [eval] dec_card_def [eval]
  contacts_path_def [eval] read_contacts_def [eval] put_contact_def [eval] parse_upsert_def [eval]
  enc_subscription_def [eval] dec_subscription_def [eval] vapid_new_def [eval] push_new_def [eval]
  push_path_def [eval] push_load_def [eval] push_save_def [eval] push_for_def [eval] push_add_def [eval]
  push_remove_def [eval] push_count_def [eval]

end
