(* ===== verification/Admin.thy ===== *)
theory Admin
  imports Contacts Startup Accounts
begin

text \<open>
  What an account's directory holds, for its owner (\<open>storage.rs\<close>) and for the operator
  (\<open>admin.rs\<close>), and the activity log (\<open>activity.rs\<close>). The size of a file is the length of its
  bytes; a file that is listed can be measured.
\<close>

definition bytes_of :: "fenv \<Rightarrow> content \<Rightarrow> string" where
  "bytes_of v c = (case c of Json j \<Rightarrow> f_print v j | Text s \<Rightarrow> s)"

section \<open>Storage\<close>

record storage_entry =
  se_name :: string
  se_kind :: string
  se_count :: nat
  se_size :: nat

definition enc_storage_entry :: "storage_entry \<Rightarrow> json" where
  "enc_storage_entry e = struct [(''name'', Some (JStr (se_name e))), (''type'', Some (JStr (se_kind e))),
     (''count'', unless (se_count e = 0) (enc_u64 (se_count e))), (''sizeBytes'', Some (enc_u64 (se_size e)))]"

definition files_in :: "(string \<times> content option) list \<Rightarrow> (string \<times> content) list" where
  "files_in es = List.map_filter (\<lambda>(n, c). map_option (Pair n) c) es"

definition summarise_dir :: "fenv \<Rightarrow> string \<Rightarrow> fs \<Rightarrow> nat \<times> nat" where
  "summarise_dir v dir f =
    (case read_dir f dir of
       None \<Rightarrow> (0, 0)
     | Some (_, es) \<Rightarrow>
         (length (files_in es), sum_list (map (\<lambda>(_, c). length (bytes_of v c)) (files_in es))))"

definition file_entry :: "fenv \<Rightarrow> string \<times> content \<Rightarrow> storage_entry" where
  "file_entry v e =
    \<lparr>se_name = fst e, se_kind = ''file'', se_count = 0, se_size = length (bytes_of v (snd e))\<rparr>"

definition storage_of :: "fenv \<Rightarrow> string \<Rightarrow> fs \<Rightarrow> string \<times> content option \<Rightarrow> storage_entry list" where
  "storage_of v dir f e =
    (case e of
       (name, None) \<Rightarrow>
         if name \<noteq> ''messages'' then []
         else (case summarise_dir v (pjoin dir ''messages'') f of
                 (n, sz) \<Rightarrow> [\<lparr>se_name = name, se_kind = ''dir'', se_count = n, se_size = sz\<rparr>])
     | (name, Some c) \<Rightarrow> [file_entry v (name, c)])"

definition list_account_storage :: "fenv \<Rightarrow> string \<Rightarrow> string \<Rightarrow> string \<Rightarrow> fs \<Rightarrow> storage_entry list option" where
  "list_account_storage v data domain localpart f =
    (let dir = account_dir data domain localpart in
     map_option (\<lambda>(_, es). concat (map (storage_of v dir f) (sort_key fst es))) (read_dir f dir))"

definition list_message_files :: "fenv \<Rightarrow> string \<Rightarrow> string \<Rightarrow> string \<Rightarrow> fs \<Rightarrow> storage_entry list option" where
  "list_message_files v data domain localpart f =
    map_option (\<lambda>(_, es). map (file_entry v) (files_in (sort_key fst es)))
      (read_dir f (pjoin (account_dir data domain localpart) ''messages''))"

definition export_account_storage :: "fenv \<Rightarrow> string \<Rightarrow> string \<Rightarrow> string \<Rightarrow> fs \<Rightarrow> (string, string) btree" where
  "export_account_storage v data domain localpart f =
    (case locate f (account_dir data domain localpart) of
       None \<Rightarrow> []
     | Some k \<Rightarrow>
         if \<not> is_dir f k then []
         else
           foldl (\<lambda>m (p, c). bt_ins (replace_char (CHR 0x5C) (CHR ''/'') (join ''/'' (drop (length k) p))) (bytes_of v c) m)
             [] (filter (\<lambda>(p, _). below k p \<and> p \<noteq> k) (fs_files f)))"

definition purge_must_not_touch :: "string list" where
  "purge_must_not_touch = [''mailboxes.json'', ''identities.json'', ''contacts.json'', ''envelope.json'',
     ''auth_token_hash'', ''privkey.enc'', ''pubkey.pgp'', ''setup.token'', ''devices'', ''sessions'']"

definition storage_summary :: "storage_entry list \<Rightarrow> json" where
  "storage_summary es = struct [(''entries'', Some (enc_vec enc_storage_entry es)),
     (''totalSizeBytes'', Some (enc_u64 (sum_list (map se_size es))))]"

section \<open>The activity log\<close>

record activity_event =
  ev_time :: string
  ev_dir :: string
  ev_kind :: string
  ev_peer :: string
  ev_msgid :: string
  ev_bytes :: int
  ev_result :: string
  ev_note :: string

definition event_fields :: "activity_event \<Rightarrow> (string \<times> json option) list" where
  "event_fields e =
    [(''t'', Some (JStr (ev_time e))), (''dir'', Some (JStr (ev_dir e))), (''kind'', Some (JStr (ev_kind e))),
     (''peer'', unless (ev_peer e = []) (JStr (ev_peer e))), (''msgid'', unless (ev_msgid e = []) (JStr (ev_msgid e))),
     (''bytes'', unless (ev_bytes e = 0) (JNum (ev_bytes e))), (''result'', unless (ev_result e = []) (JStr (ev_result e))),
     (''note'', unless (ev_note e = []) (JStr (ev_note e)))]"

definition enc_event :: "activity_event \<Rightarrow> json" where
  "enc_event e = struct (event_fields e)"

definition dec_event :: "json \<Rightarrow> activity_event option" where
  "dec_event j =
    (if \<not> struct_ok 8 j then None
     else do {
       t \<leftarrow> req j 0 ''t'' dec_str;
       d \<leftarrow> req j 1 ''dir'' dec_str;
       k \<leftarrow> req j 2 ''kind'' dec_str;
       p \<leftarrow> fld j 3 ''peer'' dec_str [];
       m \<leftarrow> fld j 4 ''msgid'' dec_str [];
       b \<leftarrow> fld j 5 ''bytes'' dec_i64 0;
       r \<leftarrow> fld j 6 ''result'' dec_str [];
       n \<leftarrow> fld j 7 ''note'' dec_str [];
       Some \<lparr>ev_time = t, ev_dir = d, ev_kind = k, ev_peer = p, ev_msgid = m, ev_bytes = b, ev_result = r, ev_note = n\<rparr>
     })"

definition activity_rotate_bytes :: nat where
  "activity_rotate_bytes = 2 * 2 ^ 20"

definition activity_default_limit :: nat where
  "activity_default_limit = 100"

definition activity_log_path :: "string \<Rightarrow> string \<Rightarrow> string \<Rightarrow> string" where
  "activity_log_path data domain localpart = pjoin (account_dir data domain localpart) ''activity.log''"

text \<open>\<open>fs::rename\<close> of a file onto a file; it may be refused like a removal.\<close>

definition rename_file :: "fenv \<Rightarrow> string \<Rightarrow> string \<Rightarrow> fs \<Rightarrow> bool \<times> fs" where
  "rename_file v p q f =
    (case (locate f p, locate f q) of
       (Some k, Some k') \<Rightarrow>
         (case bt_get (fs_files f) k of
            None \<Rightarrow> (False, f)
          | Some c \<Rightarrow>
              if f_kept v k \<or> is_dir f k' \<or> \<not> is_dir f (butlast k') then (False, f)
              else (True, put_file k' (Some c) (put_file k None f)))
     | _ \<Rightarrow> (False, f))"

definition rotate_activity :: "fenv \<Rightarrow> string \<Rightarrow> string \<Rightarrow> string \<Rightarrow> fs \<Rightarrow> fs" where
  "rotate_activity v data domain localpart f =
    (let path = activity_log_path data domain localpart in
     case fs_read f path of
       None \<Rightarrow> f
     | Some c \<Rightarrow>
         if activity_rotate_bytes \<le> length (bytes_of v c)
         then snd (rename_file v path (pjoin (account_dir data domain localpart) ''activity.log.1'') f)
         else f)"

definition append_activity :: "fenv \<Rightarrow> string \<Rightarrow> string \<Rightarrow> string \<Rightarrow> activity_event \<Rightarrow> fs \<Rightarrow> bool \<times> fs" where
  "append_activity v data domain localpart e f =
    (let path = activity_log_path data domain localpart;
         f1 = rotate_activity v data domain localpart f;
         old = (case fs_read f1 path of None \<Rightarrow> [] | Some c \<Rightarrow> bytes_of v c) in
     fs_write v path (Text (old @ f_print v (enc_event e) @ [LF])) f1)"

definition activity_lines :: "fenv \<Rightarrow> string \<Rightarrow> activity_event list" where
  "activity_lines v bytes =
    List.map_filter (\<lambda>line. Option.bind (f_parse v line) dec_event)
      (filter (\<lambda>line. \<not> list_all (\<lambda>c. byte c \<in> {9, 10, 12, 13, 32}) line)
        (map (\<lambda>line. or_default line (strip_suffix [CR] line)) (split_on LF bytes)))"

definition read_activity :: "fenv \<Rightarrow> string \<Rightarrow> string \<Rightarrow> string \<Rightarrow> nat \<Rightarrow> fs \<Rightarrow> activity_event list option" where
  "read_activity v data domain localpart n f =
    (let limit = (if n = 0 then activity_default_limit else n);
         path = activity_log_path data domain localpart in
     case fs_read f path of
       Some c \<Rightarrow> Some (take limit (rev (activity_lines v (bytes_of v c))))
     | None \<Rightarrow>
         (case locate f path of
            None \<Rightarrow> if blocked f [] (split_on (CHR ''/'') path) then None else Some []
          | Some k \<Rightarrow> if is_dir f k then None else Some []))"

section \<open>The operator's view\<close>

record account_ref =
  ar_domain :: string
  ar_localpart :: string

definition not_domains :: "string list" where
  "not_domains = [''_domains'']"

definition not_accounts :: "string list" where
  "not_accounts = [''peers'']"

definition dirs_in :: "string list \<Rightarrow> string \<Rightarrow> fs \<Rightarrow> string list option" where
  "dirs_in skip p f =
    map_option (\<lambda>(_, es). sort (filter (\<lambda>n. n \<notin> set skip) (map fst (filter (\<lambda>(_, c). c = None) es)))) (read_dir f p)"

definition list_provisioned :: "string \<Rightarrow> fs \<Rightarrow> account_ref list" where
  "list_provisioned data f =
    (case dirs_in not_domains data f of
       None \<Rightarrow> []
     | Some ds \<Rightarrow>
         concat (map (\<lambda>d. map (\<lambda>l. \<lparr>ar_domain = d, ar_localpart = l\<rparr>)
           (or_default [] (dirs_in not_accounts (pjoin data d) f))) ds))"

record account_row =
  ro_address :: string
  ro_domain :: string
  ro_localpart :: string
  ro_messages :: nat
  ro_bytes :: nat
  ro_last :: "string option"

definition enc_account_row :: "account_row \<Rightarrow> (string \<times> json option) list" where
  "enc_account_row r =
    [(''address'', Some (JStr (ro_address r))), (''domain'', Some (JStr (ro_domain r))),
     (''localpart'', Some (JStr (ro_localpart r))), (''messages'', Some (enc_u64 (ro_messages r))),
     (''bytes'', Some (enc_u64 (ro_bytes r))), (''lastActivity'', map_option JStr (ro_last r))]"

definition message_stats :: "fenv \<Rightarrow> string \<Rightarrow> string \<Rightarrow> string \<Rightarrow> fs \<Rightarrow> nat \<times> nat" where
  "message_stats v data domain localpart f =
    (case read_dir f (pjoin (account_dir data domain localpart) ''messages'') of
       None \<Rightarrow> (0, 0)
     | Some (_, es) \<Rightarrow>
         (let js = filter (\<lambda>(n, _). json_name n) (files_in es) in
          (length js, sum_list (map (\<lambda>(_, c). length (bytes_of v c)) js))))"

definition dir_bytes :: "fenv \<Rightarrow> string \<Rightarrow> fs \<Rightarrow> nat" where
  "dir_bytes v root f =
    (case locate f root of
       None \<Rightarrow> 0
     | Some k \<Rightarrow>
         if \<not> is_dir f k then 0
         else sum_list (map (\<lambda>(_, c). length (bytes_of v c)) (filter (\<lambda>(p, _). below k p \<and> p \<noteq> k) (fs_files f))))"

definition admin_row :: "fenv \<Rightarrow> string \<Rightarrow> string \<Rightarrow> string \<Rightarrow> string option \<Rightarrow> fs \<Rightarrow> account_row" where
  "admin_row v data domain localpart last_activity f =
    (case message_stats v data domain localpart f of
       (n, sz) \<Rightarrow> \<lparr>ro_address = localpart @ ''@'' @ domain, ro_domain = domain, ro_localpart = localpart,
                      ro_messages = n, ro_bytes = sz, ro_last = last_activity\<rparr>)"

definition usage_breakdown :: "fenv \<Rightarrow> string \<Rightarrow> string \<Rightarrow> string \<Rightarrow> fs \<Rightarrow> (string \<times> nat) list" where
  "usage_breakdown v data domain localpart f =
    [(''messages'', snd (message_stats v data domain localpart f)),
     (''total'', dir_bytes v (account_dir data domain localpart) f)]"

section \<open>Metrics\<close>

record metric =
  me_name :: string
  me_help :: string
  me_kind :: string
  me_labels :: "(string \<times> string) list"
  me_value :: nat

definition escape_label :: "string \<Rightarrow> string" where
  "escape_label s = concat (map (\<lambda>c.
     if c = CHR 0x5C then [CHR 0x5C, CHR 0x5C]
     else if c = CHR 0x22 then [CHR 0x5C, CHR 0x22]
     else if c = LF then [CHR 0x5C, CHR ''n'']
     else [c]) s)"

definition render_label :: "string \<times> string \<Rightarrow> string" where
  "render_label l = fst l @ ''='' @ [CHR 0x22] @ escape_label (snd l) @ [CHR 0x22]"

definition render_series :: "metric \<Rightarrow> string" where
  "render_series m =
    me_name m @ (if me_labels m = [] then [] else ''{'' @ join '','' (map render_label (me_labels m)) @ ''}'') @
    '' '' @ show_nat (me_value m) @ [LF]"

definition render_help :: "metric \<Rightarrow> string" where
  "render_help m =
    ''# HELP '' @ me_name m @ '' '' @ me_help m @ [LF] @ ''# TYPE '' @ me_name m @ '' '' @ me_kind m @ [LF]"

definition metric_names :: "metric list \<Rightarrow> string list" where
  "metric_names ms = foldl (\<lambda>ns m. if me_name m \<in> set ns then ns else ns @ [me_name m]) [] ms"

definition render_metric :: "string list \<times> string \<Rightarrow> metric \<Rightarrow> string list \<times> string" where
  "render_metric s m =
    (case s of
       (seen, out) \<Rightarrow>
         if me_name m \<in> set seen then (seen, out @ render_series m)
         else (seen @ [me_name m], out @ render_help m @ render_series m))"

definition render_prometheus :: "metric list \<Rightarrow> string" where
  "render_prometheus ms =
    snd (foldl (\<lambda>s n. foldl render_metric s (filter (\<lambda>m. me_name m = n) ms)) ([], []) (metric_names ms))"

definition bump_count :: "(string, nat) btree \<Rightarrow> string \<Rightarrow> (string, nat) btree" where
  "bump_count m d = bt_ins d (Suc (or_default 0 (bt_get m d))) m"

definition account_counts :: "string \<Rightarrow> fs \<Rightarrow> (string, nat) btree" where
  "account_counts data f =
    foldl (\<lambda>m r. bump_count m (ar_domain r))
      (foldl (\<lambda>m d. bt_ins d (or_default 0 (bt_get m d)) m) [] (or_default [] (dirs_in not_domains data f)))
      (list_provisioned data f)"

definition collect :: "fenv \<Rightarrow> string \<Rightarrow> string \<Rightarrow> string \<Rightarrow> fs \<Rightarrow> metric list" where
  "collect v data label version f =
    [\<lparr>me_name = ''biset_build_info'', me_help = ''Build and relay information; the metric value is always 1.'',
       me_kind = ''gauge'', me_labels = [(''relay'', label), (''version'', version)], me_value = 1\<rparr>] @
    map (\<lambda>(d, n). \<lparr>me_name = ''biset_accounts'', me_help = ''Number of provisioned accounts, by domain.'',
       me_kind = ''gauge'', me_labels = [(''domain'', d)], me_value = n\<rparr>) (account_counts data f) @
    [\<lparr>me_name = ''biset_data_disk_bytes'', me_help = ''Total size of the data directory tree in bytes.'',
       me_kind = ''gauge'', me_labels = [], me_value = dir_bytes v data f\<rparr>]"

definition smtp_outbound_metrics :: "nat \<Rightarrow> nat \<Rightarrow> metric list" where
  "smtp_outbound_metrics sent failed =
    map (\<lambda>(r, n). \<lparr>me_name = ''biset_smtp_outbound_total'', me_help = ''Outbound SMTP send attempts, by result.'',
       me_kind = ''counter'', me_labels = [(''result'', r)], me_value = n\<rparr>) [(''failed'', failed), (''sent'', sent)]"

end
