(* ===== verification/AdminProps.thy ===== *)
theory AdminProps
  imports Admin
begin

text \<open>
  The properties of what the relay reports: the account series of the metrics against the listing
  of accounts, the grouping of the exposition, and the activity log read back newest first.
\<close>

section \<open>Accounts per domain\<close>

lemma bt_ok_bump [simp]: "bt_ok m \<Longrightarrow> bt_ok (bump_count m d)"
  by (simp add: bump_count_def)

lemma get_bump [simp]: "bt_get (bump_count m d) e = (if e = d then Some (Suc (or_default 0 (bt_get m d))) else bt_get m e)"
  by (simp add: bump_count_def)

lemma sum_bump: "bt_ok m \<Longrightarrow> sum_list (map snd (bump_count m d)) = Suc (sum_list (map snd m))"
proof (induction m)
  case (Cons p m)
  obtain e n where p: "p = (e, n)" by (cases p)
  have "\<And>q. q \<in> set m \<Longrightarrow> e < fst q" "bt_ok m" using Cons.prems by (auto simp: bt_ok_Cons p)
  then have "d < e \<Longrightarrow> map_of m d = None" by (force simp: map_of_eq_None_iff)
  with Cons.IH [OF \<open>bt_ok m\<close>] show ?case
    by (cases d e rule: linorder_cases) (auto simp: p bump_count_def bt_get_def or_default_def)
qed (simp add: bump_count_def or_default_def)

lemma bt_ok_counts: "bt_ok m \<Longrightarrow> bt_ok (foldl (\<lambda>m r. bump_count m (ar_domain r)) m rs)"
  by (induction rs arbitrary: m) simp_all

lemma get_counts:
  "or_default 0 (bt_get (foldl (\<lambda>m r. bump_count m (ar_domain r)) m rs) d) =
    or_default 0 (bt_get m d) + length (filter (\<lambda>r. ar_domain r = d) rs)"
  by (induction rs arbitrary: m) (simp_all add: or_default_def)

lemma dom_counts:
  "bt_get (foldl (\<lambda>m r. bump_count m (ar_domain r)) m rs) d \<noteq> None \<longleftrightarrow> bt_get m d \<noteq> None \<or> d \<in> ar_domain ` set rs"
  by (induction rs arbitrary: m) auto

lemma sum_counts:
  "bt_ok m \<Longrightarrow> sum_list (map snd (foldl (\<lambda>m r. bump_count m (ar_domain r)) m rs)) = sum_list (map snd m) + length rs"
  by (induction rs arbitrary: m) (simp_all add: sum_bump)

abbreviation zeroes :: "(string, nat) btree \<Rightarrow> string list \<Rightarrow> (string, nat) btree" where
  "zeroes m ds \<equiv> foldl (\<lambda>m d. bt_ins d (or_default 0 (bt_get m d)) m) m ds"

lemma zeroes_facts:
  assumes "bt_ok m" "\<And>e n. bt_get m e = Some n \<Longrightarrow> n = 0"
  shows "bt_ok (zeroes m ds) \<and> (\<forall>e. bt_get (zeroes m ds) e = (if e \<in> set ds \<or> bt_get m e \<noteq> None then Some 0 else None))"
  using assms
proof (induction ds arbitrary: m)
  case Nil
  then show ?case by (metis foldl_Nil empty_iff empty_set not_None_eq)
next
  case (Cons d ds)
  have z: "or_default 0 (bt_get m d) = 0" using Cons.prems(2) by (cases "bt_get m d") (auto simp: or_default_def)
  have "bt_ok (bt_ins d 0 m)" "\<And>e n. bt_get (bt_ins d 0 m) e = Some n \<Longrightarrow> n = 0"
    using Cons.prems by (auto split: if_splits)
  from Cons.IH [OF this] show ?case by (auto simp: z)
qed

lemma sum_zero: "bt_ok m \<Longrightarrow> (\<And>e n. bt_get m e = Some n \<Longrightarrow> n = 0) \<Longrightarrow> sum_list (map snd m) = (0::nat)"
  using in_set_bt_get by fastforce

lemma listed_domains: "ar_domain ` set (list_provisioned data f) \<subseteq> set (or_default [] (dirs_in not_domains data f))"
  by (auto simp: list_provisioned_def or_default_def split: option.splits)

text \<open>C29. The metrics and the listing agree: the series of a domain counts its rows in the
  listing, the series together count all accounts, and there is a series, if only a zero, for
  each domain directory and no other.\<close>

theorem metrics_agree_with_listing:
  "or_default 0 (bt_get (account_counts data f) d) = length (filter (\<lambda>r. ar_domain r = d) (list_provisioned data f)) \<and>
   (bt_get (account_counts data f) d \<noteq> None \<longleftrightarrow> d \<in> set (or_default [] (dirs_in not_domains data f))) \<and>
   sum_list (map me_value (filter (\<lambda>m. me_name m = ''biset_accounts'') (collect v data label version f))) =
     length (list_provisioned data f)"
proof -
  let ?ds = "or_default [] (dirs_in not_domains data f)"
  have z: "bt_ok (zeroes [] ?ds)" "bt_get (zeroes [] ?ds) e = (if e \<in> set ?ds then Some 0 else None)" for e
    using zeroes_facts [of "[]" ?ds] by simp_all
  have zero: "sum_list (map snd (zeroes [] ?ds)) = 0"
    by (rule sum_zero [OF z(1)]) (simp add: z(2) split: if_splits)
  have "filter (\<lambda>m. me_name m = ''biset_accounts'') (collect v data label version f) =
      map (\<lambda>(d, n). \<lparr>me_name = ''biset_accounts'', me_help = ''Number of provisioned accounts, by domain.'',
       me_kind = ''gauge'', me_labels = [(''domain'', d)], me_value = n\<rparr>) (account_counts data f)"
    by (simp add: collect_def filter_map comp_def case_prod_unfold)
  then have "sum_list (map me_value (filter (\<lambda>m. me_name m = ''biset_accounts'') (collect v data label version f))) =
      sum_list (map snd (account_counts data f))"
    by (simp add: comp_def case_prod_unfold)
  also have "\<dots> = length (list_provisioned data f)"
    by (subst account_counts_def) (simp only: sum_counts [OF z(1)], use zero in simp)
  finally have total: "sum_list (map me_value (filter (\<lambda>m. me_name m = ''biset_accounts'') (collect v data label version f))) =
      length (list_provisioned data f)" .
  have "or_default 0 (bt_get (zeroes [] ?ds) d) = 0"
    unfolding z(2) by (simp add: or_default_def)
  then have "or_default 0 (bt_get (account_counts data f) d) = length (filter (\<lambda>r. ar_domain r = d) (list_provisioned data f))"
    by (simp add: account_counts_def get_counts)
  moreover have "bt_get (account_counts data f) d \<noteq> None \<longleftrightarrow> d \<in> set ?ds"
    unfolding account_counts_def dom_counts z(2) using listed_domains [of data f] by auto
  ultimately show ?thesis using total by blast
qed

section \<open>The exposition\<close>

lemma metric_names_from:
  "foldl (\<lambda>ns m. if me_name m \<in> set ns then ns else ns @ [me_name m]) ns ms =
    ns @ filter (\<lambda>n. n \<notin> set ns) (foldl (\<lambda>ns m. if me_name m \<in> set ns then ns else ns @ [me_name m]) [] ms)"
  by (induction ms rule: rev_induct) auto

lemma metric_names_facts: "distinct (metric_names ms) \<and> set (metric_names ms) = me_name ` set ms"
  unfolding metric_names_def by (induction ms rule: rev_induct) auto

lemma render_seen: "list_all (\<lambda>m. me_name m \<in> set seen) ms \<Longrightarrow>
    foldl render_metric (seen, out) ms = (seen, out @ concat (map render_series ms))"
  by (induction ms arbitrary: out) (simp_all add: render_metric_def)

definition render_group :: "metric list \<Rightarrow> string" where
  "render_group ms = (case ms of [] \<Rightarrow> [] | m # _ \<Rightarrow> render_help m @ concat (map render_series ms))"

lemma render_fresh:
  assumes "list_all (\<lambda>m. me_name m = n) ms" "n \<notin> set seen" "ms \<noteq> []"
  shows "foldl render_metric (seen, out) ms = (seen @ [n], out @ render_group ms)"
proof -
  obtain m ms' where ms: "ms = m # ms'" using assms(3) by (cases ms) auto
  then have "list_all (\<lambda>m. me_name m \<in> set (seen @ [n])) ms'" using assms(1) by (auto simp: list_all_iff)
  from render_seen [OF this] ms assms show ?thesis by (simp add: render_metric_def render_group_def)
qed

lemma render_names:
  assumes "distinct ns" "set ns \<inter> set seen = {}" "set ns \<subseteq> me_name ` set ms"
  shows "foldl (\<lambda>s n. foldl render_metric s (filter (\<lambda>m. me_name m = n) ms)) (seen, out) ns =
    (seen @ ns, out @ concat (map (\<lambda>n. render_group (filter (\<lambda>m. me_name m = n) ms)) ns))"
  using assms
proof (induction ns arbitrary: seen out)
  case (Cons n ns)
  have "filter (\<lambda>m. me_name m = n) ms \<noteq> []" using Cons.prems(3) by (auto simp: filter_empty_conv)
  then have "foldl render_metric (seen, out) (filter (\<lambda>m. me_name m = n) ms) =
      (seen @ [n], out @ render_group (filter (\<lambda>m. me_name m = n) ms))"
    using Cons.prems(2) by (intro render_fresh) (auto simp: list_all_iff)
  with Cons show ?case by auto
qed simp

text \<open>The exposition is one group after the other, each name once: its HELP and TYPE lines,
  taken from its first series, and then all its series in the order they were given.\<close>

theorem exposition_groups:
  "render_prometheus ms = concat (map (\<lambda>n. render_group (filter (\<lambda>m. me_name m = n) ms)) (metric_names ms)) \<and>
   distinct (metric_names ms) \<and> set (metric_names ms) = me_name ` set ms"
  using render_names [of "metric_names ms" "[]" ms "[]"] metric_names_facts [of ms]
  by (simp add: render_prometheus_def)

text \<open>A label value cannot end its quotes or its line: reading the escapes gives it back.\<close>

fun unescape_label :: "string \<Rightarrow> string \<times> string" where
  "unescape_label [] = ([], [])"
| "unescape_label (c # s) =
    (if c = CHR 0x22 then ([], s)
     else if c = CHR 0x5C then
       (case s of
          [] \<Rightarrow> ([], [])
        | d # s' \<Rightarrow> apfst (Cons (if d = CHR ''n'' then LF else d)) (unescape_label s'))
     else apfst (Cons c) (unescape_label s))"

lemma label_reads_back: "unescape_label (escape_label s @ CHR 0x22 # rest) = (s, rest) \<and> LF \<notin> set (escape_label s)"
  by (induction s) (auto simp: escape_label_def LF_def)

section \<open>The activity log\<close>

text \<open>What the reader needs of the printer: what is printed parses to what it was, and stands on one line.\<close>

definition prints_line :: "fenv \<Rightarrow> activity_event \<Rightarrow> bool" where
  "prints_line v e \<longleftrightarrow>
    (let l = f_print v (enc_event e) in
     f_parse v l = Some (enc_event e) \<and> LF \<notin> set l \<and> l \<noteq> [] \<and> hd l = CHR ''{'' \<and> last l = CHR ''}'')"

definition event_fits :: "activity_event \<Rightarrow> bool" where
  "event_fits e \<longleftrightarrow> - (2 ^ 63) \<le> ev_bytes e \<and> ev_bytes e < 2 ^ 63"

lemma distinct_event_fields: "distinct (map fst (event_fields e))"
  by (simp add: event_fields_def)

lemma event_roundtrip: "event_fits e \<Longrightarrow> dec_event (enc_event e) = Some e"
  by (simp only: dec_event_def enc_event_def req_def fld_struct [OF distinct_event_fields] field_struct [OF distinct_event_fields]
      struct_ok_struct simp_thms if_True if_False)
    (simp add: event_fields_def event_fits_def roundtrip)

definition event_line :: "fenv \<Rightarrow> activity_event \<Rightarrow> string" where
  "event_line v e = f_print v (enc_event e) @ [LF]"

lemma is_suffix_snoc: "is_suffix [c] (s @ [d]) \<longleftrightarrow> c = d"
  by (auto simp: is_suffix_def is_prefix_def)

lemma activity_lines_step:
  assumes "prints_line v e" "event_fits e"
  shows "activity_lines v (event_line v e @ s) = e # activity_lines v s"
proof -
  let ?l = "f_print v (enc_event e)"
  have l: "LF \<notin> set ?l" "?l \<noteq> []" "hd ?l = CHR ''{''" "last ?l = CHR ''}''" "f_parse v ?l = Some (enc_event e)"
    using assms(1) by (simp_all add: prints_line_def Let_def)
  have "?l = butlast ?l @ [CHR ''}'']" using l(2,4) append_butlast_last_id [of ?l] by simp
  then have "\<not> is_suffix [CR] ?l"
    by (rule ssubst) (simp add: is_suffix_snoc CR_def)
  then have "strip_suffix [CR] ?l = None" by (simp add: strip_suffix_def)
  moreover have "\<not> list_all (\<lambda>c. byte c \<in> {9, 10, 12, 13, 32}) ?l"
    using l by (cases ?l) (simp_all add: byte_def)
  ultimately show ?thesis using l(1,2,5)
    by (simp add: activity_lines_def event_line_def split_on_append split_on_none or_default_def
        event_roundtrip [OF assms(2)] List.map_filter_simps)
qed

lemma activity_lines_all:
  "list_all (prints_line v) es \<Longrightarrow> list_all event_fits es \<Longrightarrow> activity_lines v (concat (map (event_line v) es)) = es"
proof (induction es)
  case Nil
  show ?case by (simp add: activity_lines_def List.map_filter_simps or_default_def strip_suffix_def is_suffix_def)
qed (simp add: activity_lines_step)

text \<open>The files of the log: the current one and the generation before it, as text.\<close>

definition log_text :: "fenv \<Rightarrow> node_path \<Rightarrow> fs \<Rightarrow> string" where
  "log_text v k f = (case bt_get (fs_files f) k of None \<Rightarrow> [] | Some c \<Rightarrow> bytes_of v c)"

definition log_files :: "fenv \<Rightarrow> string \<Rightarrow> string \<Rightarrow> string \<Rightarrow> node_path \<Rightarrow> node_path \<Rightarrow> fs \<Rightarrow> bool" where
  "log_files v data domain localpart k k' f \<longleftrightarrow>
    locate f (activity_log_path data domain localpart) = Some k \<and>
    locate f (pjoin (account_dir data domain localpart) ''activity.log.1'') = Some k' \<and>
    k \<noteq> k' \<and> \<not> is_dir f k \<and> \<not> is_dir f k' \<and> is_dir f (butlast k) \<and> is_dir f (butlast k') \<and>
    f_io v k = None \<and> \<not> f_kept v k"

lemma log_files_put: "log_files v data domain localpart k k' (put_file j c f) = log_files v data domain localpart k k' f"
  by (simp add: log_files_def)

lemma rotate_log:
  assumes "log_files v data domain localpart k k' f"
  shows "rotate_activity v data domain localpart f =
    (if activity_rotate_bytes \<le> length (log_text v k f) then put_file k' (bt_get (fs_files f) k) (put_file k None f) else f)"
  using assms by (auto simp: log_files_def log_text_def rotate_activity_def rename_file_def fs_read_def activity_rotate_bytes_def
    split: option.split)

lemma append_log:
  assumes "log_files v data domain localpart k k' f"
  shows "append_activity v data domain localpart e f =
    (if activity_rotate_bytes \<le> length (log_text v k f)
     then (True, put_file k (Some (Text (event_line v e))) (put_file k' (bt_get (fs_files f) k) (put_file k None f)))
     else (True, put_file k (Some (Text (log_text v k f @ event_line v e))) f))"
  using assms unfolding append_activity_def rotate_log [OF assms]
  by (auto simp: log_files_def log_text_def fs_read_def fs_write_def event_line_def Let_def split: option.split)

definition append_all :: "fenv \<Rightarrow> string \<Rightarrow> string \<Rightarrow> string \<Rightarrow> activity_event list \<Rightarrow> fs \<Rightarrow> fs" where
  "append_all v data domain localpart es f = foldl (\<lambda>f e. snd (append_activity v data domain localpart e f)) f es"

text \<open>One more event. \<open>newest_kept\<close>: how the files in \<open>f'\<close> come from those in \<open>f\<close> by \<open>es\<close>.\<close>

lemma append_log_texts:
  assumes "log_files v data domain localpart k k' f" "append_activity v data domain localpart e f = (ok, f')"
  shows "ok \<and> log_files v data domain localpart k k' f' \<and>
    (if activity_rotate_bytes \<le> length (log_text v k f)
     then log_text v k' f' = log_text v k f \<and> log_text v k f' = event_line v e
     else log_text v k' f' = log_text v k' f \<and> log_text v k f' = log_text v k f @ event_line v e)"
proof -
  have "k \<noteq> k'" using assms(1) by (simp add: log_files_def)
  moreover have "log_files v data domain localpart k k' f'"
    using assms by (auto simp: append_log log_files_put split: if_splits)
  ultimately show ?thesis
    using assms(2) unfolding append_log [OF assms(1)]
    by (auto split: if_splits) (simp_all add: log_text_def bytes_of_def)
qed

definition newest_kept :: "fenv \<Rightarrow> node_path \<Rightarrow> node_path \<Rightarrow> fs \<Rightarrow> activity_event list \<Rightarrow> fs \<Rightarrow> bool" where
  "newest_kept v k k' f es f' \<longleftrightarrow>
    (\<exists>forgotten. log_text v k' f @ log_text v k f @ concat (map (event_line v) es) =
       forgotten @ log_text v k' f' @ log_text v k f' \<and>
       (forgotten = [] \<or> activity_rotate_bytes \<le> length (log_text v k' f')) \<and>
       (es = [] \<or> length (log_text v k f') < activity_rotate_bytes + length (event_line v (last es))))"

lemma newest_kept_step:
  assumes "log_files v data domain localpart k k' g" "newest_kept v k k' f es g"
    "append_activity v data domain localpart e g = (ok, g')"
  shows "newest_kept v k k' f (es @ [e]) g'"
proof -
  obtain old where old: "log_text v k' f @ log_text v k f @ concat (map (event_line v) es) = old @ log_text v k' g @ log_text v k g"
    "old = [] \<or> activity_rotate_bytes \<le> length (log_text v k' g)" using assms(2) by (auto simp: newest_kept_def)
  have p: "0 < activity_rotate_bytes" by (simp add: activity_rotate_bytes_def)
  note texts = append_log_texts [OF assms(1,3)]
  show ?thesis
  proof (cases "activity_rotate_bytes \<le> length (log_text v k g)")
    case True
    then show ?thesis using texts old(1) p unfolding newest_kept_def by (intro exI [of _ "old @ log_text v k' g"]) simp
  next
    case False
    then show ?thesis using texts old unfolding newest_kept_def by (intro exI [of _ old]) simp
  qed
qed

lemma append_all_keeps:
  assumes "log_files v data domain localpart k k' f"
  shows "log_files v data domain localpart k k' (append_all v data domain localpart es f) \<and>
    newest_kept v k k' f es (append_all v data domain localpart es f)"
proof (induction es rule: rev_induct)
  case Nil
  show ?case using assms by (simp add: append_all_def newest_kept_def)
next
  case (snoc e es)
  obtain ok g where g: "append_activity v data domain localpart e (append_all v data domain localpart es f) = (ok, g)" by fastforce
  then have "append_all v data domain localpart (es @ [e]) f = g" by (simp add: append_all_def)
  then show ?case using append_log_texts [OF _ g] newest_kept_step [OF _ _ g] snoc by blast
qed

text \<open>
  C30. What the log of an account keeps, on a disk that works, however many events are appended.
  Written one after the other, the kept generation and the current log are an end piece of what
  they were at first followed by every event since, in order: rotation forgets from the old end
  only. There is one kept generation, so it does forget; but once anything is forgotten the kept
  generation has at least the full size (2 MiB) at which a log is rotated. The current log exceeds
  that size by less than its last line, and a further append succeeds.
\<close>

theorem append_keeps_newest:
  assumes "log_files v data domain localpart k k' f"
  shows "let f' = append_all v data domain localpart es f in \<exists>forgotten.
    log_text v k' f @ log_text v k f @ concat (map (event_line v) es) = forgotten @ log_text v k' f' @ log_text v k f' \<and>
    (forgotten = [] \<or> activity_rotate_bytes \<le> length (log_text v k' f')) \<and>
    (es = [] \<or> length (log_text v k f') < activity_rotate_bytes + length (event_line v (last es))) \<and>
    fst (append_activity v data domain localpart e f')"
  using append_all_keeps [OF assms, of es] append_log [of v data domain localpart k k' "append_all v data domain localpart es f" e]
  unfolding Let_def newest_kept_def by (auto split: if_splits)

lemma append_all_log:
  assumes "log_files v data domain localpart k k' f"
    "length (log_text v k f @ concat (map (event_line v) es)) < activity_rotate_bytes"
  shows "log_files v data domain localpart k k' (append_all v data domain localpart es f) \<and>
    log_text v k (append_all v data domain localpart es f) = log_text v k f @ concat (map (event_line v) es)"
  using assms
proof (induction es arbitrary: f)
  case Nil
  then show ?case by (simp add: append_all_def)
next
  case (Cons e es)
  let ?f = "put_file k (Some (Text (log_text v k f @ event_line v e))) f"
  have step: "append_all v data domain localpart (e # es) f = append_all v data domain localpart es ?f"
    using Cons.prems(2) by (simp add: append_all_def append_log [OF Cons.prems(1)])
  have "log_text v k ?f = log_text v k f @ event_line v e" by (simp add: log_text_def bytes_of_def)
  with Cons.IH [of ?f] Cons.prems show ?case by (simp add: step log_files_put)
qed

text \<open>What was appended since the log was empty is what a read returns, newest first, and at
  most as many as were asked for; zero asks for the default.\<close>

theorem activity_newest_first:
  assumes "list_all (prints_line v) es" "list_all event_fits es" "log_files v data domain localpart k k' f"
    "bt_get (fs_files f) k = None" "length (concat (map (event_line v) es)) < activity_rotate_bytes"
  shows "read_activity v data domain localpart n (append_all v data domain localpart es f) =
    Some (take (if n = 0 then activity_default_limit else n) (rev es))"
proof -
  let ?f = "append_all v data domain localpart es f"
  have empty: "log_text v k f = []" using assms(4) by (simp add: log_text_def)
  then have log: "log_files v data domain localpart k k' ?f" "log_text v k ?f = concat (map (event_line v) es)"
    using append_all_log [OF assms(3), of es] assms(5) by simp_all
  show ?thesis
  proof (cases "bt_get (fs_files ?f) k")
    case None
    then have "concat (map (event_line v) es) = []" using log(2) by (simp add: log_text_def)
    then have "es = []" by (cases es) (simp_all add: event_line_def)
    then show ?thesis using log(1) None by (simp add: read_activity_def fs_read_def log_files_def)
  next
    case (Some c)
    then have "bytes_of v c = concat (map (event_line v) es)" using log(2) by (simp add: log_text_def)
    then show ?thesis using log(1) Some
      by (simp add: read_activity_def fs_read_def log_files_def activity_lines_all [OF assms(1,2)])
  qed
qed

section \<open>Instances\<close>

definition demo_event :: activity_event where
  "demo_event = \<lparr>ev_time = ''t'', ev_dir = ''in'', ev_kind = ''email'', ev_peer = ''b@y'', ev_msgid = [], ev_bytes = 9,
     ev_result = ''ok'', ev_note = []\<rparr>"

definition demo_log_env :: fenv where
  "demo_log_env = \<lparr>f_parse = (\<lambda>_. Some (enc_event demo_event)), f_print = (\<lambda>_. ''{}''), f_io = (\<lambda>_. None), f_kept = (\<lambda>_. False)\<rparr>"

definition demo_log_fs :: fs where
  "demo_log_fs = \<lparr>fs_files = [], fs_dirs = bs_of [[''d''], [''d'', ''x''], [''d'', ''x'', ''a'']]\<rparr>"

lemma demo_log_files:
  "log_files demo_log_env ''d'' ''x'' ''a'' [''d'', ''x'', ''a'', ''activity.log''] [''d'', ''x'', ''a'', ''activity.log.1''] demo_log_fs"
  by (simp add: log_files_def activity_log_path_def account_dir_def pjoin_def is_prefix_def is_suffix_def locate_def is_dir_def
    demo_log_fs_def bs_mem_set demo_log_env_def)

text \<open>A full log and the generation before it: the next event makes that one be forgotten.\<close>

definition demo_full_log :: fs where
  "demo_full_log =
    put_file [''d'', ''x'', ''a'', ''activity.log''] (Some (Text (replicate activity_rotate_bytes (CHR ''a''))))
      (put_file [''d'', ''x'', ''a'', ''activity.log.1''] (Some (Text ''old'')) demo_log_fs)"

lemma demo_full_texts:
  "log_text demo_log_env [''d'', ''x'', ''a'', ''activity.log''] demo_full_log = replicate activity_rotate_bytes (CHR ''a'')"
  "log_text demo_log_env [''d'', ''x'', ''a'', ''activity.log.1''] demo_full_log = ''old''"
  by (simp_all add: log_text_def demo_full_log_def bytes_of_def)

lemma append_keeps_newest_witness:
  "let f' = append_all demo_log_env ''d'' ''x'' ''a'' [demo_event] demo_full_log in
    ''old'' @ replicate activity_rotate_bytes (CHR ''a'') @ ''{}'' @ [LF] =
      ''old'' @ log_text demo_log_env [''d'', ''x'', ''a'', ''activity.log.1''] f' @
        log_text demo_log_env [''d'', ''x'', ''a'', ''activity.log''] f' \<and>
    log_text demo_log_env [''d'', ''x'', ''a'', ''activity.log''] f' = ''{}'' @ [LF]"
proof -
  let ?k = "[''d'', ''x'', ''a'', ''activity.log'']" and ?k' = "[''d'', ''x'', ''a'', ''activity.log.1'']"
  let ?full = "replicate activity_rotate_bytes (CHR ''a'')"
  let ?f = "append_all demo_log_env ''d'' ''x'' ''a'' [demo_event] demo_full_log"
  have files: "log_files demo_log_env ''d'' ''x'' ''a'' ?k ?k' demo_full_log"
    unfolding demo_full_log_def by (simp only: log_files_put demo_log_files)
  have line: "event_line demo_log_env demo_event = ''{}'' @ [LF]" by (simp add: event_line_def demo_log_env_def)
  have "\<exists>gone. ''old'' @ ?full @ ''{}'' @ [LF] = gone @ log_text demo_log_env ?k' ?f @ log_text demo_log_env ?k ?f"
    using append_keeps_newest [OF files, of "[demo_event]" demo_event] unfolding Let_def demo_full_texts
    by (simp only: list.map concat.simps append_Nil2 line) blast
  then obtain gone where gone: "''old'' @ ?full @ ''{}'' @ [LF] = gone @ log_text demo_log_env ?k' ?f @ log_text demo_log_env ?k ?f"
    by (rule exE)
  have f: "?f = put_file ?k (Some (Text (''{}'' @ [LF])))
      (put_file ?k' (bt_get (fs_files demo_full_log) ?k) (put_file ?k None demo_full_log))"
    using append_log [OF files, of demo_event] by (simp add: append_all_def line demo_full_texts)
  have texts: "log_text demo_log_env ?k' ?f = ?full" "log_text demo_log_env ?k ?f = ''{}'' @ [LF]"
    unfolding f by (simp_all add: log_text_def bytes_of_def demo_full_log_def)
  from gone have "gone = ''old''" unfolding texts by simp
  with gone texts show ?thesis unfolding Let_def by simp
qed

lemma activity_newest_first_witness:
  "read_activity demo_log_env ''d'' ''x'' ''a'' 1
     (append_all demo_log_env ''d'' ''x'' ''a'' [demo_event, demo_event] demo_log_fs) = Some [demo_event]"
proof -
  have "list_all (prints_line demo_log_env) [demo_event, demo_event]" "list_all event_fits [demo_event, demo_event]"
    "length (concat (map (event_line demo_log_env) [demo_event, demo_event])) < activity_rotate_bytes"
    "bt_get (fs_files demo_log_fs) k = None" for k
    by (simp_all add: prints_line_def demo_log_env_def LF_def event_fits_def demo_event_def event_line_def
      activity_rotate_bytes_def demo_log_fs_def)
  from activity_newest_first [OF this(1,2) demo_log_files this(4,3), of 1] show ?thesis by simp
qed

text \<open>The queue's directory is listed as a domain, and its entries as accounts.\<close>

lemma queue_entries_are_accounts:
  "list_provisioned ''d'' \<lparr>fs_files = [], fs_dirs = [([''d''], ()), ([''d'', ''_queue''], ()), ([''d'', ''_queue'', ''1''], ())]\<rparr> =
    [\<lparr>ar_domain = ''_queue'', ar_localpart = ''1''\<rparr>]"
  by (simp add: list_provisioned_def dirs_in_def read_dir_def locate_def is_dir_def children_def bs_mem_def bt_get_def
    not_domains_def not_accounts_def pjoin_def is_prefix_def is_suffix_def or_default_def)

end
