(* ===== verification/Provision.thy ===== *)
theory Provision
  imports Anchor
begin

text \<open>
  Who may make an account and under which domain: the decisions of \<open>POST /account/provision\<close>
  (\<open>did/provision.rs\<close>, the verdicts of \<open>did/anchor.rs\<close>) and the domains users bring themselves
  (\<open>customdomain.rs\<close>). The keyed digest behind the tokens, as hexadecimal text, is the argument
  \<open>mac\<close>.
\<close>

section \<open>The request\<close>

record provision_request =
  pq_username :: string
  pq_domain :: string
  pq_did :: string
  pq_bind_ts :: int
  pq_did_sig :: string
  pq_device_key :: string
  pq_device_label :: string
  pq_vouch_ts :: int
  pq_vouch_sig :: string
  pq_secret :: string
  pq_envelope :: "json option"

definition dec_provision_request :: "json \<Rightarrow> provision_request option" where
  "dec_provision_request j =
    (if \<not> struct_ok 11 j then None
     else do {
       u \<leftarrow> fld j 0 ''username'' dec_str [];
       d \<leftarrow> fld j 1 ''domain'' dec_str [];
       i \<leftarrow> fld j 2 ''did'' dec_str [];
       t \<leftarrow> fld j 3 ''bind_ts'' dec_i64 0;
       s \<leftarrow> fld j 4 ''did_sig'' dec_str [];
       k \<leftarrow> fld j 5 ''device_pub_key'' dec_str [];
       l \<leftarrow> fld j 6 ''device_label'' dec_str [];
       vt \<leftarrow> fld j 7 ''device_vouch_ts'' dec_i64 0;
       vs \<leftarrow> fld j 8 ''device_vouch_sig'' dec_str [];
       p \<leftarrow> fld j 9 ''provision_secret'' dec_str [];
       e \<leftarrow> fld j 10 ''envelope'' (dec_opt Some) None;
       Some \<lparr>pq_username = u, pq_domain = d, pq_did = i, pq_bind_ts = t, pq_did_sig = s, pq_device_key = k,
         pq_device_label = l, pq_vouch_ts = vt, pq_vouch_sig = vs, pq_secret = p, pq_envelope = e\<rparr>
     })"

section \<open>Refusals\<close>

datatype refusal =
    InvalidUsername | DeviceCredentialRequired | DidRequired | DidSigRequired | UnknownDomain
  | NotAvailable | DomainNotOpen | UsernameTaken | DidBindingRejected | IdentityOwnedByAnother
  | ProvisionAnchorDown | DeviceVouchRejected | DidMethodNeedsAnchor | DidDomainNotAuthorized | DidNotReadable

fun refusal_status :: "refusal \<Rightarrow> nat" where
  "refusal_status InvalidUsername = 400"
| "refusal_status DeviceCredentialRequired = 400"
| "refusal_status DidRequired = 400"
| "refusal_status DidSigRequired = 400"
| "refusal_status UnknownDomain = 400"
| "refusal_status DidNotReadable = 400"
| "refusal_status NotAvailable = 403"
| "refusal_status DomainNotOpen = 403"
| "refusal_status DidDomainNotAuthorized = 403"
| "refusal_status DidBindingRejected = 401"
| "refusal_status DeviceVouchRejected = 401"
| "refusal_status DidMethodNeedsAnchor = 401"
| "refusal_status UsernameTaken = 409"
| "refusal_status IdentityOwnedByAnother = 409"
| "refusal_status ProvisionAnchorDown = 503"

fun refusal_message :: "refusal \<Rightarrow> string" where
  "refusal_message InvalidUsername = ''invalid username''"
| "refusal_message DeviceCredentialRequired = ''device_pub_key and device_vouch_sig required''"
| "refusal_message DidRequired = ''did required''"
| "refusal_message DidSigRequired = ''did_sig required when did is present''"
| "refusal_message UnknownDomain = ''unknown domain''"
| "refusal_message NotAvailable = ''account creation not available''"
| "refusal_message DomainNotOpen = ''domain not open for provisioning''"
| "refusal_message DidNotReadable = ''did is not a readable did:webvh identifier''"
| "refusal_message DidDomainNotAuthorized =
    ''this domain only accepts identities whose did:webvh document already lives on a domain this relay administers''"
| "refusal_message UsernameTaken = ''username taken''"
| "refusal_message DidBindingRejected = ''did binding rejected''"
| "refusal_message IdentityOwnedByAnother = ''identity owned by a different key''"
| "refusal_message ProvisionAnchorDown = ''identity anchor unavailable''"
| "refusal_message DeviceVouchRejected = ''device vouch rejected''"
| "refusal_message DidMethodNeedsAnchor =
    ''this DID method needs an identity anchor, and this relay has none configured''"

fun provision_refusal :: "verdict \<Rightarrow> refusal option" where
  "provision_refusal VOk = None"
| "provision_refusal VConflict = Some IdentityOwnedByAnother"
| "provision_refusal VInvalid = Some DidBindingRejected"
| "provision_refusal VError = Some ProvisionAnchorDown"

section \<open>The checks\<close>

definition name_char :: "char \<Rightarrow> bool" where
  "name_char c \<longleftrightarrow> is_lower c \<or> is_digit c"

definition valid_username :: "string \<Rightarrow> bool" where
  "valid_username name =
    (case name of
       [] \<Rightarrow> False
     | c # cs \<Rightarrow>
         if 31 < length name then False
         else name_char c \<and> list_all (\<lambda>c. name_char c \<or> c = CHR ''_'' \<or> c = CHR ''-'') cs)"

text \<open>\<open>Panic\<close> where the code indexes the map of domains; it never happens.\<close>

definition resolve_domain ::
  "(string \<Rightarrow> string) \<Rightarrow> config \<Rightarrow> dynamic_domains \<Rightarrow> string \<Rightarrow> (refusal + string \<times> domain_config) outcome" where
  "resolve_domain lc cfg dyn requested =
    (let requested = lc (trim requested) in
     if requested \<noteq> [] then
       Ret (case domain_config_of cfg dyn requested of None \<Rightarrow> Inl UnknownDomain | Some d \<Rightarrow> Inr (requested, d))
     else (case provision_domain cfg of
             None \<Rightarrow> Ret (Inl NotAvailable)
           | Some domain \<Rightarrow>
               (case bt_get (domains cfg) domain of None \<Rightarrow> Panic | Some d \<Rightarrow> Ret (Inr (domain, d)))))"

definition did_domain_gate :: "config \<Rightarrow> string \<Rightarrow> refusal + unit" where
  "did_domain_gate cfg did =
    (case webvh_parse did of
       Inl _ \<Rightarrow> Inl DidNotReadable
     | Inr i \<Rightarrow> if bt_get (domains cfg) (w_domain i) \<noteq> None then Inr () else Inl DidDomainNotAuthorized)"

definition may_provision :: "config \<Rightarrow> domain_config \<Rightarrow> string \<Rightarrow> string \<Rightarrow> refusal + unit" where
  "may_provision cfg d did submitted =
    (if authorized_did_domain d then did_domain_gate cfg did
     else if allow_provision d then Inr ()
     else if provision_secret d = [] \<or> provision_secret d \<noteq> submitted then Inl DomainNotOpen
     else Inr ())"

definition name_is_taken ::
  "fenv \<Rightarrow> string \<Rightarrow> string \<Rightarrow> string \<Rightarrow> string \<Rightarrow> bool \<Rightarrow> fs \<Rightarrow> bool" where
  "name_is_taken v acct_dir data domain localpart already f \<longleftrightarrow>
    already \<or> read_auth_hash v data domain localpart f \<noteq> [] \<or> list_device_keys v acct_dir f \<noteq> []"

datatype vouch_path = ViaAnchor | Impossible

definition vouch_path_of :: "bool \<Rightarrow> config \<Rightarrow> vouch_path" where
  "vouch_path_of anchored cfg = (if anchor_configured anchored cfg then ViaAnchor else Impossible)"

definition check_request :: "(string \<Rightarrow> string) \<Rightarrow> bool \<Rightarrow> config \<Rightarrow> provision_request \<Rightarrow> refusal + unit" where
  "check_request lc anchored cfg q =
    (if \<not> valid_username (lc (trim (pq_username q))) then Inl InvalidUsername
     else if pq_device_key q = [] \<or> pq_vouch_sig q = [] then Inl DeviceCredentialRequired
     else if pq_did q = [] then Inl DidRequired
     else if anchor_configured anchored cfg \<and> pq_did_sig q = [] then Inl DidSigRequired
     else Inr ())"

definition did_bound :: "bool \<Rightarrow> config \<Rightarrow> provision_request \<Rightarrow> bool" where
  "did_bound anchored cfg q \<longleftrightarrow> pq_did q \<noteq> [] \<and> anchor_configured anchored cfg"

section \<open>Custom domains\<close>

definition label_ok :: "string \<Rightarrow> bool" where
  "label_ok l \<longleftrightarrow> l \<noteq> [] \<and> length l \<le> 63 \<and> list_all (\<lambda>c. name_char c \<or> c = CHR ''-'') l \<and>
    \<not> is_prefix ''-'' l \<and> \<not> is_suffix ''-'' l"

definition valid_custom_domain :: "string \<Rightarrow> bool" where
  "valid_custom_domain domain =
    (if domain = [] \<or> 253 < length domain then False
     else (case rsplit_once (CHR ''.'') domain of
             None \<Rightarrow> False
           | Some (labels, tld) \<Rightarrow>
               if length tld < 2 \<or> \<not> list_all is_lower tld then False
               else labels \<noteq> [] \<and> list_all label_ok (split_on (CHR ''.'') labels)))"

text \<open>\<open>mac secret message\<close>: HMAC-SHA-256 in hexadecimal.\<close>

definition hmac_hex32 :: "(string \<Rightarrow> string \<Rightarrow> string) \<Rightarrow> string \<Rightarrow> string \<Rightarrow> string" where
  "hmac_hex32 mac secret message = take 32 (mac secret message)"

definition verify_token :: "(string \<Rightarrow> string \<Rightarrow> string) \<Rightarrow> config \<Rightarrow> string \<Rightarrow> string" where
  "verify_token mac cfg domain = ''biset-verify='' @ hmac_hex32 mac (domain_verify_secret cfg) domain"

definition verify_txt_name :: "string \<Rightarrow> string" where
  "verify_txt_name domain = ''_biset-verify.'' @ domain"

definition provision_secret_for :: "(string \<Rightarrow> string \<Rightarrow> string) \<Rightarrow> config \<Rightarrow> string \<Rightarrow> string" where
  "provision_secret_for mac cfg domain = hmac_hex32 mac (domain_verify_secret cfg) (''provision:'' @ domain)"

definition txt_proves_ownership :: "string list \<Rightarrow> string \<Rightarrow> bool" where
  "txt_proves_ownership records expected \<longleftrightarrow> list_ex (\<lambda>r. r = expected) records"

definition registered_domain_config :: "(string \<Rightarrow> string \<Rightarrow> string) \<Rightarrow> config \<Rightarrow> string \<Rightarrow> domain_config" where
  "registered_domain_config mac cfg domain =
    \<lparr>dkim_selector = ''default'', d_accounts = [], allow_provision = False,
     provision_secret = provision_secret_for mac cfg domain, authorized_did_domain = False\<rparr>"

datatype domain_error = InvalidDomain | NotVerified | DomainUnauthorized | ServerManaged

fun domain_status :: "domain_error \<Rightarrow> nat" where
  "domain_status InvalidDomain = 400"
| "domain_status DomainUnauthorized = 401"
| "domain_status ServerManaged = 403"
| "domain_status NotVerified = 412"

fun domain_message :: "domain_error \<Rightarrow> string" where
  "domain_message InvalidDomain = ''invalid domain''"
| "domain_message NotVerified =
    ''verification TXT record not found (DNS propagation can take a few minutes '' @ [CHR 0xE2, CHR 0x80, CHR 0x94]
      @ '' retry shortly)''"
| "domain_message DomainUnauthorized = ''unauthorized''"
| "domain_message ServerManaged =
    ''this account is server-managed and can'' @ [CHR 0x27] @ ''t be self-deleted''"

definition may_self_delete :: "domain_config option \<Rightarrow> string \<Rightarrow> domain_error + unit" where
  "may_self_delete dc localpart =
    (case dc of
       Some d \<Rightarrow> if bt_get (d_accounts d) localpart \<noteq> None then Inl ServerManaged else Inr ()
     | None \<Rightarrow> Inr ())"

section \<open>Lemmas\<close>

lemma find_in: "find P xs = Some x \<Longrightarrow> x \<in> set xs"
  by (auto simp: find_Some_iff)

lemma provision_domain_known: "provision_domain cfg = Some d \<Longrightarrow> bt_get (domains cfg) d \<noteq> None"
  unfolding bt_get_None by (force simp: provision_domain_def dest: find_in)

lemma resolve_domain_returns: "\<exists>r. resolve_domain lc cfg dyn requested = Ret r"
  using provision_domain_known [of cfg] by (auto simp: resolve_domain_def Let_def split: option.split)

text \<open>A name that is accepted stands for itself as a path, and is what it is in lower case.\<close>

lemma valid_username_plain: "valid_username n \<Longrightarrow> plain n"
  by (auto simp: valid_username_def plain_def name_char_def is_lower_def is_digit_def byte_def list_all_iff
    split: list.splits if_splits)

lemma label_plain: "label_ok l \<Longrightarrow> list_all (\<lambda>c. name_char c \<or> c = CHR ''-'') l \<and> l \<noteq> []"
  by (simp add: label_ok_def)

declare dec_provision_request_def [eval] name_char_def [eval] valid_username_def [eval] resolve_domain_def [eval]
  did_domain_gate_def [eval] may_provision_def [eval] name_is_taken_def [eval] vouch_path_of_def [eval]
  check_request_def [eval] did_bound_def [eval] label_ok_def [eval] valid_custom_domain_def [eval]
  hmac_hex32_def [eval] verify_token_def [eval] verify_txt_name_def [eval] provision_secret_for_def [eval]
  txt_proves_ownership_def [eval] registered_domain_config_def [eval] may_self_delete_def [eval]

end
