(* ===== verification/Http.thy ===== *)
theory Http
  imports Bytes Anchor Mux
begin

text \<open>
  What the handlers of \<open>server.rs\<close> share: responses and their headers, the two layers of CORS,
  parameters of the query, and credentials. A response is its status, the header map and the
  body; header names are in lower case, and a value is its bytes.
\<close>

section \<open>Requests and responses\<close>

text \<open>The first value of each header; the query is what follows the question mark, if there is one.\<close>

record request =
  rq_method :: string
  rq_path :: string
  rq_query :: "string option"
  rq_headers :: "(string, string) btree"

record response =
  rs_status :: nat
  rs_headers :: "(string, string) btree"
  rs_body :: string

definition plain_response :: "nat \<Rightarrow> string \<Rightarrow> response" where
  "plain_response status body = \<lparr>rs_status = status, rs_headers = [], rs_body = body\<rparr>"

definition set_header :: "string \<Rightarrow> string \<Rightarrow> response \<Rightarrow> response" where
  "set_header n v r = r\<lparr>rs_headers := bt_ins n v (rs_headers r)\<rparr>"

text \<open>\<open>HeaderValue::to_str\<close>: visible ASCII and tabs.\<close>

definition header_char :: "char \<Rightarrow> bool" where
  "header_char c \<longleftrightarrow> 32 \<le> byte c \<and> byte c < 127 \<or> byte c = 9"

definition header_str :: "request \<Rightarrow> string \<Rightarrow> string option" where
  "header_str q n =
    (case bt_get (rq_headers q) n of None \<Rightarrow> None | Some v \<Rightarrow> if list_all header_char v then Some v else None)"

section \<open>CORS\<close>

definition default_cors :: "(string \<times> string) list" where
  "default_cors =
    [(''access-control-allow-origin'', ''*''), (''access-control-allow-headers'', ''Authorization, Content-Type''),
     (''access-control-allow-methods'', ''GET, POST, PUT, OPTIONS'')]"

definition fill_outer_cors :: "response \<Rightarrow> response" where
  "fill_outer_cors r =
    foldl (\<lambda>r (n, v). if bt_get (rs_headers r) n \<noteq> None then r else set_header n v r) r default_cors"

definition set_route_cors :: "string \<Rightarrow> string \<Rightarrow> response \<Rightarrow> response" where
  "set_route_cors methods hs r =
    (let r' = set_header ''access-control-allow-methods'' methods (set_header ''access-control-allow-origin'' ''*'' r) in
     if hs \<noteq> [] then set_header ''access-control-allow-headers'' hs r' else r')"

section \<open>Bodies\<close>

definition text_error :: "nat \<Rightarrow> string \<Rightarrow> response" where
  "text_error status message =
    set_header ''x-content-type-options'' ''nosniff''
      (set_header ''content-type'' ''text/plain; charset=utf-8'' (plain_response status (message @ [LF])))"

definition html_escape :: "string \<Rightarrow> string" where
  "html_escape s = concat (map (\<lambda>c.
     if c = CHR 0x26 then [CHR 0x26] @ ''amp;''
     else if c = CHR 0x27 then [CHR 0x26] @ ''#39;''
     else if c = CHR ''<'' then [CHR 0x26] @ ''lt;''
     else if c = CHR ''>'' then [CHR 0x26] @ ''gt;''
     else if c = CHR 0x22 then [CHR 0x26] @ ''#34;''
     else [c]) s)"

definition redirect :: "string \<Rightarrow> response" where
  "redirect to =
    (let body = ''<a href='' @ [CHR 0x22] @ html_escape to @ [CHR 0x22] @ ''>Temporary Redirect</a>.'' @ [LF, LF];
         r = plain_response redirect_status body;
         r' = (if list_all header_char to then set_header ''location'' to r else r) in
     set_header ''content-type'' ''text/html; charset=utf-8'' r')"

definition mux_not_found :: response where
  "mux_not_found = text_error 404 ''404 page not found''"

definition json_response :: "nat \<Rightarrow> string \<Rightarrow> response" where
  "json_response status body =
    set_header ''content-type'' ''application/json''
      (plain_response status (if is_suffix [LF] body then body else body @ [LF]))"

definition json_response_raw :: "nat \<Rightarrow> string \<Rightarrow> response" where
  "json_response_raw status body = set_header ''content-type'' ''application/json'' (plain_response status body)"

definition octet_stream :: "string \<Rightarrow> response" where
  "octet_stream body = set_header ''content-type'' ''application/octet-stream'' (plain_response 200 body)"

definition no_content :: response where
  "no_content = plain_response 204 []"

definition quoted :: "string \<Rightarrow> string" where
  "quoted s = [CHR 0x22] @ s @ [CHR 0x22]"

definition unauthorized :: response where
  "unauthorized = set_header ''www-authenticate'' (''Basic realm='' @ quoted ''biset'') (text_error 401 ''unauthorized'')"

definition unauthorized_jmap :: response where
  "unauthorized_jmap = set_header ''www-authenticate'' (''Bearer realm='' @ quoted ''jmap'') (text_error 401 ''unauthorized'')"

section \<open>Parameters\<close>

text \<open>
  The bytes of \<open>percent_decode\<close>. Behind a percent sign two bytes are sliced off the text, which
  panics unless both ends are character boundaries.
\<close>

fun percent_bytes :: "string \<Rightarrow> string outcome" where
  "percent_bytes [] = Ret []"
| "percent_bytes (c # s) =
    (if c = CHR ''+'' then bind_out (percent_bytes s) (\<lambda>r. Ret (CHR '' '' # r))
     else if c = CHR 0x25 then
       (case s of
          a # b # r \<Rightarrow>
            if is_cont a \<or> (case r of [] \<Rightarrow> False | d # _ \<Rightarrow> is_cont d) then Panic
            else (case hex_byte a b of
                    Some x \<Rightarrow> bind_out (percent_bytes r) (\<lambda>t. Ret (x # t))
                  | None \<Rightarrow> bind_out (percent_bytes s) (\<lambda>t. Ret (c # t)))
        | _ \<Rightarrow> bind_out (percent_bytes s) (\<lambda>t. Ret (c # t)))
     else bind_out (percent_bytes s) (\<lambda>t. Ret (c # t)))"

definition percent_decode :: "string \<Rightarrow> string outcome" where
  "percent_decode s = bind_out (percent_bytes s) (\<lambda>b. Ret (utf8_lossy b))"

definition param_of :: "string \<Rightarrow> string \<times> string" where
  "param_of pair = (case split_once (CHR ''='') pair of None \<Rightarrow> (pair, []) | Some kv \<Rightarrow> kv)"

definition query_param :: "request \<Rightarrow> string \<Rightarrow> string option outcome" where
  "query_param q name =
    (case rq_query q of
       None \<Rightarrow> Ret None
     | Some query \<Rightarrow>
         (case find (\<lambda>(k, _). k = name) (map param_of (split_on (CHR ''&'') query)) of
            None \<Rightarrow> Ret None
          | Some (_, v) \<Rightarrow> bind_out (percent_decode v) (\<lambda>t. Ret (Some t))))"

definition host_header :: "request \<Rightarrow> string" where
  "host_header q = or_default [] (header_str q ''host'')"

section \<open>Credentials\<close>

text \<open>User and password out of a \<open>Basic\<close> header.\<close>

definition basic_credentials :: "crypto \<Rightarrow> string \<Rightarrow> (string \<times> string) option" where
  "basic_credentials k encoded =
    do {
      decoded \<leftarrow> un_std k encoded;
      if utf8_ok decoded then split_once (CHR '':'') decoded else None
    }"

definition token_credentials :: "string \<Rightarrow> string \<times> string" where
  "token_credentials tok = (case split_once (CHR '':'') tok of Some up \<Rightarrow> up | None \<Rightarrow> ([], tok))"

text \<open>The first \<open>access_token\<close> of the query that is not empty once decoded.\<close>

fun query_credentials :: "string list \<Rightarrow> (string \<times> string) option outcome" where
  "query_credentials [] = Ret None"
| "query_credentials (pair # pairs) =
    (case strip_prefix ''access_token='' pair of
       None \<Rightarrow> query_credentials pairs
     | Some val \<Rightarrow>
         bind_out (percent_decode val) (\<lambda>t.
           if t \<noteq> [] then Ret (Some (token_credentials t)) else query_credentials pairs))"

definition extract_credentials :: "crypto \<Rightarrow> request \<Rightarrow> string \<Rightarrow> (string \<times> string) option outcome" where
  "extract_credentials k q query =
    (case header_str q ''authorization'' of
       None \<Rightarrow> query_credentials (split_on (CHR ''&'') query)
     | Some h \<Rightarrow>
         (case strip_prefix ''Bearer '' h of
            Some tok \<Rightarrow> Ret (Some (token_credentials tok))
          | None \<Rightarrow>
              (case strip_prefix ''Basic '' h of
                 Some encoded \<Rightarrow> Ret (basic_credentials k encoded)
               | None \<Rightarrow> query_credentials (split_on (CHR ''&'') query))))"

text \<open>\<open>decide\<close>: the check of \<open>auth_env.rs\<close> on a user and a password; the account as domain and localpart.\<close>

definition account_parts :: "string \<Rightarrow> (string \<times> string) option" where
  "account_parts i = map_option (\<lambda>(localpart, domain). (domain, localpart)) (split_once (CHR ''@'') i)"

definition http_authenticate ::
  "crypto \<Rightarrow> (string \<Rightarrow> string \<Rightarrow> string option) \<Rightarrow> request \<Rightarrow> (string \<times> string) option" where
  "http_authenticate k decide q =
    do {
      h \<leftarrow> header_str q ''authorization'';
      encoded \<leftarrow> strip_prefix ''Basic '' h;
      (username, password) \<leftarrow> basic_credentials k encoded;
      i \<leftarrow> decide username password;
      account_parts i
    }"

definition authenticate_jmap ::
  "crypto \<Rightarrow> (string \<Rightarrow> string \<Rightarrow> string option) \<Rightarrow> request \<Rightarrow> string \<Rightarrow> (string \<times> string) option outcome" where
  "authenticate_jmap k decide q query =
    bind_out (extract_credentials k q query) (\<lambda>c. Ret (
      do {
        (username, password) \<leftarrow> c;
        i \<leftarrow> decide username password;
        account_parts i
      }))"

section \<open>Lemmas\<close>

lemma nibbles: "byte c div 16 < 16" "byte c mod 16 < 16"
  using byte_less [of c] by (simp_all add: less_mult_imp_div_less)

lemma hex_upper_byte: "n < 16 \<Longrightarrow> byte (hex_upper n) < 128"
  by (simp add: hex_upper_def)

lemma not_cont_ascii: "byte c < 128 \<Longrightarrow> \<not> is_cont c"
  by (simp add: is_cont_def)

lemma unreserved_plain: "unreserved c \<Longrightarrow> c \<noteq> CHR ''+'' \<and> c \<noteq> CHR 0x25"
  by (auto simp: unreserved_def is_upper_def is_lower_def is_digit_def byte_def)

lemma percent_bytes_escaped:
  assumes "is_ascii r"
  shows "percent_bytes (escape_byte c @ r) = bind_out (percent_bytes r) (\<lambda>t. Ret (c # t))"
proof -
  let ?a = "hex_upper (byte c div 16)" and ?b = "hex_upper (byte c mod 16)"
  have "\<not> is_cont ?a" by (intro not_cont_ascii hex_upper_byte nibbles)
  moreover have "\<not> (case r of [] \<Rightarrow> False | d # _ \<Rightarrow> is_cont d)"
    using assms by (cases r) (simp_all add: not_cont_ascii)
  ultimately have "percent_bytes (CHR 0x25 # ?a # ?b # r) = bind_out (percent_bytes r) (\<lambda>t. Ret (c # t))"
    by simp
  then show ?thesis by (auto simp: escape_byte_def dest: unreserved_plain)
qed

lemma is_ascii_escape: "is_ascii (query_escape s)"
proof -
  have "unreserved c \<Longrightarrow> byte c < 128" for c
    by (auto simp: unreserved_def is_upper_def is_lower_def is_digit_def) (simp_all add: byte_def)
  moreover have "byte (CHR 0x25) < 128" "byte (CHR ''+'') < 128" by (simp_all add: byte_def)
  ultimately have "is_ascii (escape_byte c)" for c
    by (simp add: escape_byte_def hex_upper_byte nibbles)
  then show ?thesis by (induction s) (simp_all add: query_escape_def)
qed

lemma percent_bytes_query_escape: "percent_bytes (query_escape s) = Ret s"
proof (induction s)
  case (Cons c s)
  then show ?case using percent_bytes_escaped [OF is_ascii_escape, of c s] by (simp add: query_escape_def)
qed (simp add: query_escape_def)

lemma find_append: "find P (xs @ ys) = (case find P xs of None \<Rightarrow> find P ys | Some x \<Rightarrow> Some x)"
  by (induction xs) simp_all

lemma escape_avoids:
  assumes "hex_val x = None" "\<not> unreserved x" "x \<noteq> CHR 0x25" "x \<noteq> CHR ''+''"
  shows "x \<notin> set (query_escape s)"
proof -
  have hex: "n < 16 \<Longrightarrow> x \<noteq> hex_upper n" for n
    using assms(1) hex_val_upper [of n] by auto
  have "x \<notin> set (escape_byte c)" for c
    using hex [OF nibbles(1) [of c]] hex [OF nibbles(2) [of c]] assms(2-4) by (auto simp: escape_byte_def)
  then show ?thesis by (induction s) (simp_all add: query_escape_def)
qed

lemma escape_no_sep: "CHR 0x26 \<notin> set (query_escape s)" "CHR ''='' \<notin> set (query_escape s)"
  by (rule escape_avoids;
    simp add: hex_val_def unreserved_def is_upper_def is_lower_def is_digit_def byte_def)+

text \<open>A value that is escaped into a query reads back as itself, whatever parameters stand before it.\<close>

theorem query_value_survives:
  assumes "utf8_ok s" "CHR 0x26 \<notin> set name" "CHR ''='' \<notin> set name"
    "name \<notin> set (map (\<lambda>p. fst (param_of p)) (split_on (CHR 0x26) before))"
  shows "query_param (q\<lparr>rq_query := Some (before @ [CHR 0x26] @ name @ ''='' @ query_escape s)\<rparr>) name = Ret (Some s)"
proof -
  let ?last = "name @ CHR ''='' # query_escape s"
  have "CHR 0x26 \<notin> set ?last" using assms(2) escape_no_sep by simp
  then have split: "split_on (CHR 0x26) (before @ CHR 0x26 # ?last) = split_on (CHR 0x26) before @ [?last]"
    by (simp add: split_on_append split_on_none)
  have "find (\<lambda>(k, _). k = name) (map param_of (split_on (CHR 0x26) before)) = None"
    using assms(4) by (force simp: find_None_iff)
  moreover have "param_of ?last = (name, query_escape s)"
    using assms(3) by (simp add: param_of_def split_once_first)
  ultimately have "find (\<lambda>(k, _). k = name) (map param_of (split_on (CHR 0x26) (before @ CHR 0x26 # ?last))) =
      Some (name, query_escape s)"
    unfolding split by (simp add: find_append)
  then show ?thesis
    by (simp add: query_param_def percent_decode_def percent_bytes_query_escape assms(1))
qed

lemma query_value_survives_witness:
  "query_param \<lparr>rq_method = ''GET'', rq_path = ''/auth/envelope'', rq_query = Some (''a=1&email='' @ query_escape ''ana+b@x''),
     rq_headers = []\<rparr> ''email'' = Ret (Some ''ana+b@x'')"
proof -
  let ?q = "\<lparr>rq_method = ''GET'', rq_path = ''/auth/envelope'', rq_query = None, rq_headers = []\<rparr>"
  have "is_ascii ''ana+b@x''" by (simp add: byte_def)
  then have utf8: "utf8_ok ''ana+b@x''" by (rule utf8_ok_ascii)
  have "''email'' \<notin> set (map (\<lambda>p. fst (param_of p)) (split_on (CHR 0x26) ''a=1''))" by (simp add: param_of_def)
  from query_value_survives [OF utf8 _ _ this, of ?q] show ?thesis by simp
qed

text \<open>A percent sign before a character of several bytes panics.\<close>

lemma percent_decode_panics: "percent_decode [CHR 0x25, CHR ''a'', CHR 0xC3, CHR 0xA9] = Panic"
  by (simp add: percent_decode_def is_cont_def byte_def)

lemma percent_bytes_ascii: "is_ascii s \<Longrightarrow> \<exists>t. percent_bytes s = Ret t"
proof (induction s rule: length_induct)
  case (1 s)
  note IH = "1.IH" [rule_format]
  show ?case
  proof (cases s)
    case (Cons c r)
    with IH [of r] "1.prems" obtain t where t: "percent_bytes r = Ret t" by auto
    show ?thesis
    proof (cases "c = CHR 0x25 \<and> 2 \<le> length r")
      case True
      then obtain a b u where r: "r = a # b # u" by (cases r; cases "tl r") auto
      with IH [of u] "1.prems" Cons obtain t' where t': "percent_bytes u = Ret t'" by auto
      have "\<not> is_cont a" "\<not> (case u of [] \<Rightarrow> False | d # _ \<Rightarrow> is_cont d)"
        using "1.prems" Cons r by (cases u; simp add: not_cont_ascii)+
      then have "percent_bytes (CHR 0x25 # a # b # u) =
          (case hex_byte a b of Some x \<Rightarrow> Ret (x # t') | None \<Rightarrow> Ret (CHR 0x25 # t))"
        using t t' r by (simp split: option.split)
      with True Cons r show ?thesis by (simp split: option.split)
    next
      case False
      then have "percent_bytes (c # r) = Ret ((if c = CHR ''+'' then CHR '' '' else c) # t)"
        using t by (cases r; cases "tl r") auto
      with Cons show ?thesis by simp
    qed
  qed simp
qed

lemma percent_decode_ascii: "is_ascii s \<Longrightarrow> \<exists>t. percent_decode s = Ret t"
  using percent_bytes_ascii by (force simp: percent_decode_def)

declare plain_response_def [eval] set_header_def [eval] header_char_def [eval] header_str_def [eval]
  default_cors_def [eval] fill_outer_cors_def [eval] set_route_cors_def [eval] text_error_def [eval]
  html_escape_def [eval] redirect_def [eval] mux_not_found_def [eval] json_response_def [eval]
  json_response_raw_def [eval] octet_stream_def [eval] no_content_def [eval] quoted_def [eval]
  unauthorized_def [eval] unauthorized_jmap_def [eval] percent_decode_def [eval] param_of_def [eval]
  query_param_def [eval] host_header_def [eval] basic_credentials_def [eval] token_credentials_def [eval]
  extract_credentials_def [eval] account_parts_def [eval] http_authenticate_def [eval] authenticate_jmap_def [eval]

end
