(* ===== verification/Dkim.thy ===== *)
theory Dkim
  imports Bytes KeptFile
begin

text \<open>
  The signing keys of the domains (\<open>dkim.rs\<close>) and whether DNS publishes them (\<open>dkim_dns.rs\<close>).
  RSA, its encodings and the signature are arguments; a key is whatever they make of it.
\<close>

section \<open>Keys\<close>

text \<open>
  \<open>rk_parse\<close>: a key out of PEM text; \<open>rk_pem\<close>: its PEM text; \<open>rk_record\<close>: base 64 of its public
  half; \<open>rk_sign\<close>: the signature header for a message, a domain and a selector. Each may fail.
\<close>

record 'k rsa =
  rk_parse :: "string \<Rightarrow> 'k option"
  rk_pem :: "'k \<Rightarrow> string option"
  rk_spki :: "'k \<Rightarrow> string option"
  rk_sign :: "string \<Rightarrow> 'k \<Rightarrow> string \<Rightarrow> string \<Rightarrow> string option"

definition default_selector :: string where
  "default_selector = ''default''"

definition key_file :: "string \<Rightarrow> string" where
  "key_file dir = pjoin dir ''key.pem''"

text \<open>A file that must not exist before.\<close>

definition fs_create_new :: "fenv \<Rightarrow> string \<Rightarrow> content \<Rightarrow> fs \<Rightarrow> bool \<times> fs" where
  "fs_create_new v p c f = (if path_exists f p then (False, f) else fs_write v p c f)"

text \<open>\<open>fresh\<close>: a key just generated, unless that failed.\<close>

definition load_or_generate_key ::
  "'k rsa \<Rightarrow> fenv \<Rightarrow> 'k option \<Rightarrow> string \<Rightarrow> fs \<Rightarrow> 'k option \<times> fs" where
  "load_or_generate_key r v fresh dir f =
    (case Option.bind (read_text v f (key_file dir)) (rk_parse r) of
       Some key \<Rightarrow> (Some key, f)
     | None \<Rightarrow>
         (case fresh of
            None \<Rightarrow> (None, f)
          | Some key \<Rightarrow>
              (case rk_pem r key of
                 None \<Rightarrow> (None, f)
               | Some pem \<Rightarrow>
                   (case fs_create_new v (key_file dir) (Text pem) f of
                      (b, f') \<Rightarrow> (if b then Some key else None, f')))))"

definition public_key_record :: "'k rsa \<Rightarrow> 'k \<Rightarrow> string" where
  "public_key_record r key =
    (case rk_spki r key of None \<Rightarrow> [] | Some p \<Rightarrow> ''v=DKIM1; k=rsa; p='' @ p)"

definition record_name :: "string \<Rightarrow> string \<Rightarrow> string" where
  "record_name selector domain = selector @ ''._domainkey.'' @ domain"

definition write_record_file :: "'k rsa \<Rightarrow> fenv \<Rightarrow> string \<Rightarrow> string \<Rightarrow> string \<Rightarrow> 'k \<Rightarrow> fs \<Rightarrow> bool \<times> fs" where
  "write_record_file r v dir selector domain key f =
    (let record = public_key_record r key in
     if record = [] then (True, f)
     else fs_write v (pjoin dir ''dkim-dns.txt'')
            (Text (''# Add this TXT record to DNS:'' @ [LF] @ ''# '' @ record_name selector domain @ [LF] @ record @ [LF])) f)"

text \<open>A message that cannot be signed goes out as it is.\<close>

definition dkim_sign :: "'k rsa \<Rightarrow> string \<Rightarrow> 'k \<Rightarrow> string \<Rightarrow> string \<Rightarrow> string" where
  "dkim_sign r raw key domain selector =
    (case rk_sign r raw key domain selector of None \<Rightarrow> raw | Some h \<Rightarrow> h @ raw)"

section \<open>What DNS publishes\<close>

datatype dns_finding = Match | Mismatch | Missing | NoAnswer

definition is_problem :: "dns_finding \<Rightarrow> bool" where
  "is_problem f \<longleftrightarrow> f = Mismatch \<or> f = Missing"

definition squeeze :: "string \<Rightarrow> string" where
  "squeeze s = filter (\<lambda>c. byte c \<notin> {9, 10, 13, 32}) s"

text \<open>
  The value of the tag with a one-letter name. A part without an equals sign whose text is that
  letter ends the search; \<open>n\<close> is an ASCII character.
\<close>

fun tag_in :: "char \<Rightarrow> string list \<Rightarrow> string option" where
  "tag_in n [] = None"
| "tag_in n (part # parts) =
    (case split_once (CHR ''='') (trim part) of
       None \<Rightarrow> if trim (trim part) = [n] then None else tag_in n parts
     | Some (k, v) \<Rightarrow> if trim k = [n] then Some (squeeze v) else tag_in n parts)"

definition tag :: "string \<Rightarrow> char \<Rightarrow> string option" where
  "tag record n = tag_in n (split_on (CHR '';'') record)"

definition dkim_like :: "string \<Rightarrow> bool" where
  "dkim_like record \<longleftrightarrow> contains (ascii_lower record) ''v=dkim1'' \<or> contains record ''p=''"

definition dns_decide :: "string list \<Rightarrow> string \<Rightarrow> dns_finding" where
  "dns_decide published expected =
    (case tag expected (CHR ''p'') of
       None \<Rightarrow> NoAnswer
     | Some want \<Rightarrow>
         if published = [] then NoAnswer
         else
           (let records = filter dkim_like (map squeeze (published @ [concat published])) in
            if list_ex (\<lambda>r. tag r (CHR ''p'') = Some want) records then Match
            else if records \<noteq> [] then Mismatch
            else Missing))"

definition check_domain :: "(string \<Rightarrow> string list) \<Rightarrow> string \<Rightarrow> string \<Rightarrow> string \<Rightarrow> dns_finding" where
  "check_domain txt selector domain expected = dns_decide (txt (record_name selector domain)) expected"

section \<open>A published key is kept\<close>

lemma loaded_key_is_kept:
  assumes "read_text v f (key_file dir) = Some pem" "rk_parse r pem = Some key"
  shows "load_or_generate_key r v fresh dir f = (Some key, f)"
  using assms by (simp add: load_or_generate_key_def)

lemma fs_create_new_keeps:
  assumes "fs_create_new v p c f = (b, f')" "bt_get (fs_files f) k \<noteq> None"
  shows "bt_get (fs_files f') k = bt_get (fs_files f) k"
proof (cases "path_exists f p")
  case True
  with assms(1) show ?thesis by (simp add: fs_create_new_def)
next
  case False
  then have "locate f p \<noteq> Some k" using assms(2) by (auto simp: path_exists_def)
  with fs_write_cases [of v p c f b f'] assms(1) False show ?thesis
    by (auto simp: fs_create_new_def)
qed

text \<open>Asking for a domain's key never replaces one: every file that is there stays as it is,
  and once a request was answered with a key, every later one is answered with the same key,
  whatever keys are generated in between.\<close>

theorem dkim_key_is_kept:
  assumes "load_or_generate_key r v fresh dir f = (Some key, f')" "\<And>k pem. rk_pem r k = Some pem \<Longrightarrow> rk_parse r pem = Some k"
  shows "(bt_get (fs_files f) k = None \<or> bt_get (fs_files f') k = bt_get (fs_files f) k) \<and>
    load_or_generate_key r v fresh' dir f' = (Some key, f')"
proof (cases "Option.bind (read_text v f (key_file dir)) (rk_parse r)")
  case (Some key')
  then obtain pem where "read_text v f (key_file dir) = Some pem" "rk_parse r pem = Some key'"
    by (auto simp: bind_eq_Some_conv)
  with loaded_key_is_kept [OF this] assms(1) show ?thesis by auto
next
  case None
  then obtain pem where pem: "fresh = Some key" "rk_pem r key = Some pem"
    "fs_create_new v (key_file dir) (Text pem) f = (True, f')"
    using assms(1) by (auto simp: load_or_generate_key_def split: option.splits prod.splits if_splits)
  then have "fs_write v (key_file dir) (Text pem) f = (True, f')"
    by (simp add: fs_create_new_def split: if_splits)
  from fs_write_read [OF this] have "read_text v f' (key_file dir) = Some pem" by (simp add: read_text_def)
  from loaded_key_is_kept [OF this assms(2) [OF pem(2)]] fs_create_new_keeps [OF pem(3)] show ?thesis
    by (cases "bt_get (fs_files f) k") auto
qed

text \<open>The check on a published record does not depend on how DNS splits it, nor on white space:
  if the strings together squeeze to the record, the key matches.\<close>

lemma dns_check_joins:
  assumes "tag expected (CHR ''p'') = Some want" "squeeze (concat published) = squeeze expected" "published \<noteq> []"
    "dkim_like (squeeze expected)" "tag (squeeze expected) (CHR ''p'') = Some want"
  shows "dns_decide published expected = Match"
  using assms by (simp add: dns_decide_def)

definition demo_rsa :: "string rsa" where
  "demo_rsa = \<lparr>rk_parse = Some, rk_pem = Some, rk_spki = Some, rk_sign = (\<lambda>_ _ _ _. None)\<rparr>"

definition demo_key_env :: fenv where
  "demo_key_env = \<lparr>f_parse = (\<lambda>_. None), f_print = (\<lambda>_. []), f_io = (\<lambda>_. None), f_kept = (\<lambda>_. False)\<rparr>"

definition demo_key_fs :: fs where
  "demo_key_fs = \<lparr>fs_files = [], fs_dirs = [([''d''], ())]\<rparr>"

lemma dkim_key_is_kept_witness:
  "fst (load_or_generate_key demo_rsa demo_key_env (Some ''new'') ''d''
     (snd (load_or_generate_key demo_rsa demo_key_env (Some ''first'') ''d'' demo_key_fs))) = Some ''first''"
proof -
  have "fst (load_or_generate_key demo_rsa demo_key_env (Some ''first'') ''d'' demo_key_fs) = Some ''first''"
    by (simp add: load_or_generate_key_def demo_rsa_def demo_key_env_def demo_key_fs_def key_file_def pjoin_def
      is_prefix_def is_suffix_def read_text_def fs_read_def locate_def is_dir_def bs_mem_def bt_get_def
      fs_create_new_def path_exists_def fs_write_def)
  then obtain f' where l: "load_or_generate_key demo_rsa demo_key_env (Some ''first'') ''d'' demo_key_fs = (Some ''first'', f')"
    by (metis prod.collapse)
  from dkim_key_is_kept [OF this, of "[]" "Some ''new''"] show ?thesis by (simp add: l) (simp add: demo_rsa_def)
qed

declare fs_create_new_def [eval] load_or_generate_key_def [eval] public_key_record_def [eval] key_file_def [eval]
  record_name_def [eval] write_record_file_def [eval] dkim_sign_def [eval] default_selector_def [eval]

end
