(* ===== verification/Relay.thy ===== *)
theory Relay
  imports Provision Http Dkim Admin
begin

text \<open>
  The relay as its HTTP clients see it, \<open>server.rs\<close>: the state behind the routes, a handler for
  each route, and the dispatch that guards them. A handler answers, or panics, and leaves a state.
  The files an open store owns are in the store's entry (\<open>acc_store\<close>); \<open>r_disks\<close> has the store
  files of directories no store is open on, and \<open>r_fs\<close> all other files. Cryptography, DNS, the
  anchor, the page templates, the clock and the random source are in the environment.
\<close>

section \<open>State\<close>

record relay =
  r_fs :: fs
  r_disks :: "(string, (string, json) btree) btree"
  r_accounts :: accounts
  r_dyn :: "string bset"
  r_domains :: dynamic_domains
  r_nonces :: nonce_store
  r_push :: push_registry
  r_hub :: "subscriber list"
  r_sent :: nat
  r_failed :: nat

text \<open>
  \<open>e_now\<close>, \<open>e_stamp\<close>, \<open>e_raw\<close>, \<open>e_fresh\<close>: the time, the time as text, random bytes and a signing
  key drawn for this request. \<open>e_hooks\<close>: the hooks of an account (\<open>submit.rs\<close>). \<open>e_global\<close>: the relay's own key, if it has one, as packets
  unless they cannot be written. \<open>e_stuck k\<close>: the directory \<open>k\<close> cannot be renamed. \<open>e_os_error\<close>: the text of a
  system error.
\<close>

record 'k relay_env =
  e_cfg :: config
  e_data :: string
  e_anchored :: bool
  e_crypto :: crypto
  e_files :: fenv
  e_jenv :: jenv
  e_refs :: ref_text
  e_hooks :: "account \<Rightarrow> hooks"
  e_wipe :: wiping
  e_stuck :: "node_path \<Rightarrow> bool"
  e_os_error :: string
  e_transport :: transport
  e_txt :: "string \<Rightarrow> string list"
  e_mac :: "string \<Rightarrow> string \<Rightarrow> string"
  e_sha1 :: "string \<Rightarrow> string"
  e_global :: "string option option"
  e_readable :: "string \<Rightarrow> bool"
  e_packets :: "string \<Rightarrow> string option"
  e_admin_token :: string
  e_metrics_token :: string
  e_vapid :: vapid
  e_rsa :: "'k rsa"
  e_page :: string
  e_dashboard :: string
  e_version :: string
  e_mux :: "route_spec mux"
  e_now :: int
  e_stamp :: string
  e_raw :: "string option"
  e_fresh :: "'k option"

definition lower :: "'k relay_env \<Rightarrow> string \<Rightarrow> string" where
  "lower e = j_lc (e_jenv e)"

definition email_of :: "string \<Rightarrow> string \<Rightarrow> string" where
  "email_of localpart domain = localpart @ ''@'' @ domain"

definition dir_of :: "'k relay_env \<Rightarrow> string \<Rightarrow> string \<Rightarrow> string" where
  "dir_of e domain localpart = account_dir (e_data e) domain localpart"

text \<open>A handler's outcome on a state.\<close>

type_synonym reply = "response outcome \<times> relay"

definition answer :: "response \<Rightarrow> relay \<Rightarrow> reply" where
  "answer r s = (Ret r, s)"

definition with_cors :: "string \<Rightarrow> string \<Rightarrow> reply \<Rightarrow> reply" where
  "with_cors methods hs x = (case x of (r, s) \<Rightarrow> (bind_out r (\<lambda>p. Ret (set_route_cors methods hs p)), s))"

text \<open>Evaluating an argument that may panic first.\<close>

definition try_arg :: "'a outcome \<Rightarrow> relay \<Rightarrow> ('a \<Rightarrow> reply) \<Rightarrow> reply" where
  "try_arg x s k = (case x of Panic \<Rightarrow> (Panic, s) | Ret v \<Rightarrow> k v)"

definition print_json :: "'k relay_env \<Rightarrow> json \<Rightarrow> string" where
  "print_json e j = f_print (e_files e) j"

definition parse_json :: "'k relay_env \<Rightarrow> string \<Rightarrow> json option" where
  "parse_json e body = f_parse (e_files e) body"

definition json_ok :: "'k relay_env \<Rightarrow> nat \<Rightarrow> json \<Rightarrow> response" where
  "json_ok e status j = json_response status (print_json e j)"

definition method_not_allowed :: response where
  "method_not_allowed = text_error 405 ''method not allowed''"

definition internal_error :: response where
  "internal_error = text_error 500 ''internal error''"

section \<open>All files\<close>

text \<open>The file tree with the files of the stores in it, as the listings see it.\<close>

definition add_disk :: "fs \<Rightarrow> string \<times> (string, json) btree \<Rightarrow> fs" where
  "add_disk f d =
    (case d of (dir, files) \<Rightarrow>
       (case locate f dir of
          None \<Rightarrow> f
        | Some k \<Rightarrow> foldl (\<lambda>f (n, j). put_file (k @ split_on (CHR ''/'') n) (Some (Json j)) f) f files))"

definition open_disks :: "relay \<Rightarrow> (string \<times> (string, json) btree) list" where
  "open_disks s = map (\<lambda>ac. (acc_dir ac, disk (acc_store ac))) (bt_vals (a_stores (r_accounts s)))"

definition all_files :: "relay \<Rightarrow> fs" where
  "all_files s = foldl add_disk (foldl add_disk (r_fs s) (r_disks s)) (open_disks s)"

text \<open>The store files of a directory: those of the store open on it, else what lies there.\<close>

definition disk_at :: "relay \<Rightarrow> string \<Rightarrow> (string, json) btree" where
  "disk_at s dir =
    (case map_of (open_disks s) dir of Some d \<Rightarrow> d | None \<Rightarrow> or_default [] (bt_get (r_disks s) dir))"

section \<open>Opening stores\<close>

text \<open>\<open>Store::open\<close>: the directory for messages is made, then what is there is read.\<close>

definition store_open :: "string \<Rightarrow> relay \<Rightarrow> mail_store option \<times> relay" where
  "store_open dir s =
    (case create_dir_all (pjoin dir ''messages'') (r_fs s) of
       (False, f) \<Rightarrow> (None, s\<lparr>r_fs := f\<rparr>)
     | (True, f) \<Rightarrow> (Some (open_store (disk_at s dir)), s\<lparr>r_fs := f\<rparr>))"

definition account_for :: "'k relay_env \<Rightarrow> string \<Rightarrow> string \<Rightarrow> mail_store \<Rightarrow> account" where
  "account_for e localpart domain ms =
    \<lparr>acc_email = email_of localpart domain, acc_domain = domain, acc_localpart = localpart,
     acc_dir = dir_of e domain localpart, acc_store = ms\<rparr>"

definition with_inbox :: "'k relay_env \<Rightarrow> string \<Rightarrow> mail_store \<Rightarrow> mail_store" where
  "with_inbox e email ms = snd (put_mailboxes (j_io (e_jenv e)) [default_inbox email] ms)"

definition register_dyn_account :: "'k relay_env \<Rightarrow> string \<Rightarrow> string \<Rightarrow> relay \<Rightarrow> relay" where
  "register_dyn_account e localpart domain s =
    (let email = email_of localpart domain; dir = dir_of e domain localpart in
     case store_open dir s of
       (None, s1) \<Rightarrow> s1
     | (Some ms, s1) \<Rightarrow>
         (let ms' = with_inbox e email ms;
              aliases = read_aliases (lower e) (e_files e) (e_data e) domain localpart (r_fs s1) in
          s1\<lparr>r_dyn := dyn_acc_insert (lower e) email (r_dyn s1),
             r_accounts := acc_insert (lower e) (account_for e localpart domain ms') aliases (r_accounts s1)\<rparr>))"

text \<open>The stores of the configured accounts; one that does not open stops the relay.\<close>

definition open_configured ::
  "'k relay_env \<Rightarrow> (string, string) btree \<Rightarrow> string \<times> string \<Rightarrow> relay \<Rightarrow> relay option" where
  "open_configured e aliases a s =
    (case a of (domain, name) \<Rightarrow>
      (let localpart = lower e name;
           primary = email_of localpart domain;
           dir = dir_of e domain localpart in
       case store_open dir s of
         (None, _) \<Rightarrow> None
       | (Some ms, s1) \<Rightarrow>
           (let ms' = with_inbox e primary ms;
                mine = map fst (filter (\<lambda>(_, target). target = primary) aliases) in
            Some (s1\<lparr>r_accounts := acc_insert (lower e) (account_for e localpart domain ms') mine (r_accounts s1)\<rparr>))))"

fun open_all :: "'k relay_env \<Rightarrow> (string, string) btree \<Rightarrow> (string \<times> string) list \<Rightarrow> relay \<Rightarrow> relay option" where
  "open_all e aliases [] s = Some s"
| "open_all e aliases (a # as) s = Option.bind (open_configured e aliases a s) (open_all e aliases as)"

definition open_stores :: "'k relay_env \<Rightarrow> relay \<Rightarrow> relay option" where
  "open_stores e s = open_all e (build_alias_map (lower e) (e_cfg e)) (static_accounts (e_cfg e)) s"

definition record_smtp_outbound :: "bool \<Rightarrow> relay \<Rightarrow> relay" where
  "record_smtp_outbound sent s = (if sent then s\<lparr>r_sent := r_sent s + 1\<rparr> else s\<lparr>r_failed := r_failed s + 1\<rparr>)"

definition load_push_subscriptions :: "'k relay_env \<Rightarrow> relay \<Rightarrow> relay" where
  "load_push_subscriptions e s = s\<lparr>r_push := push_load (e_files e) (e_data e) (r_fs s) (r_push s)\<rparr>"

definition relay_new :: "fs \<Rightarrow> (string, (string, json) btree) btree \<Rightarrow> relay" where
  "relay_new f disks = \<lparr>r_fs = f, r_disks = disks, r_accounts = accounts_new, r_dyn = [], r_domains = [], r_nonces = [],
     r_push = push_new, r_hub = [], r_sent = 0, r_failed = 0\<rparr>"

end
