(* ===== verification/Handlers.thy ===== *)
theory Handlers
  imports Relay
begin

text \<open>
  The handlers of \<open>server.rs\<close>, one for each route, and the page of \<open>setup_page.rs\<close>. The bodies
  of the routes that stream are their first frame.
\<close>

section \<open>Credentials\<close>

definition decide_account :: "'k relay_env \<Rightarrow> relay \<Rightarrow> string \<Rightarrow> string \<Rightarrow> string option" where
  "decide_account e s u p =
    auth_check (e_crypto e) (e_files e) (lower e) (e_cfg e) (r_dyn s) (e_data e) (e_now e) u p (r_fs s)"

definition caller :: "'k relay_env \<Rightarrow> request \<Rightarrow> relay \<Rightarrow> (string \<times> string) option" where
  "caller e q s = http_authenticate (e_crypto e) (decide_account e s) q"

definition jmap_caller :: "'k relay_env \<Rightarrow> request \<Rightarrow> string \<Rightarrow> relay \<Rightarrow> (string \<times> string) option outcome" where
  "jmap_caller e q query s = authenticate_jmap (e_crypto e) (decide_account e s) q query"

text \<open>The caller of a relay route; without one the answer is given.\<close>

definition as_caller :: "'k relay_env \<Rightarrow> request \<Rightarrow> relay \<Rightarrow> response \<Rightarrow> (string \<Rightarrow> string \<Rightarrow> reply) \<Rightarrow> reply" where
  "as_caller e q s refused k =
    (case caller e q s of None \<Rightarrow> answer refused s | Some (domain, localpart) \<Rightarrow> k domain localpart)"

definition as_jmap_caller :: "'k relay_env \<Rightarrow> request \<Rightarrow> string \<Rightarrow> relay \<Rightarrow> (string \<Rightarrow> string \<Rightarrow> reply) \<Rightarrow> reply" where
  "as_jmap_caller e q query s k =
    try_arg (jmap_caller e q query s) s (\<lambda>c.
      case c of None \<Rightarrow> answer unauthorized_jmap s | Some (domain, localpart) \<Rightarrow> k domain localpart)"

definition only :: "string \<Rightarrow> request \<Rightarrow> relay \<Rightarrow> reply \<Rightarrow> reply" where
  "only m q s r = (if rq_method q = m then r else answer method_not_allowed s)"

section \<open>Onboarding\<close>

definition h_relay_info :: "'k relay_env \<Rightarrow> relay \<Rightarrow> reply" where
  "h_relay_info e s =
    answer (set_route_cors ''GET, OPTIONS'' ''Authorization, Content-Type''
      (json_ok e 200 (enc_relay_info (relay_info_of (e_cfg e))))) s"

text \<open>One pass over the template; a verb it does not know, or arguments left over, panics.\<close>

fun render_page :: "string \<Rightarrow> string list \<Rightarrow> string outcome" where
  "render_page [] args = (if args = [] then Ret [] else Panic)"
| "render_page (c # t) args =
    (if c \<noteq> CHR 0x25 then bind_out (render_page t args) (\<lambda>r. Ret (c # r))
     else (case t of
             [] \<Rightarrow> if args = [] then Ret [c] else Panic
           | d # t' \<Rightarrow>
               if d = CHR 0x25 then bind_out (render_page t' args) (\<lambda>r. Ret (CHR 0x25 # r))
               else if d = CHR ''s'' then
                 (case args of [] \<Rightarrow> Panic | a # as \<Rightarrow> bind_out (render_page t' as) (\<lambda>r. Ret (a @ r)))
               else Panic))"

definition setup_page :: "string \<Rightarrow> string \<Rightarrow> string \<Rightarrow> string \<Rightarrow> string outcome" where
  "setup_page template localpart domain token =
    render_page template [localpart, domain, localpart, domain, localpart, domain, token]"

definition h_setup :: "'k relay_env \<Rightarrow> request \<Rightarrow> relay \<Rightarrow> reply" where
  "h_setup e q s =
    try_arg (query_param q ''token'') s (\<lambda>t.
      let token = or_default [] t in
      if token = [] then answer (text_error 400 (setup_message TokenRequired)) s
      else
        (case account_for_token (e_files e) (e_cfg e) (e_data e) token (r_fs s) of
           Inl _ \<Rightarrow> answer (text_error 401 (setup_message InvalidToken)) s
         | Inr (domain, localpart) \<Rightarrow>
             only ''GET'' q s
               (try_arg (setup_page (e_page e) localpart domain token) s (\<lambda>page.
                 answer (set_header ''content-type'' ''text/html; charset=utf-8'' (plain_response 200 page)) s))))"

definition h_auth_envelope :: "'k relay_env \<Rightarrow> request \<Rightarrow> string \<Rightarrow> relay \<Rightarrow> reply" where
  "h_auth_envelope e q body s = with_cors ''GET, PUT, OPTIONS'' ''Authorization, Content-Type''
    (if rq_method q = ''GET'' then
       try_arg (query_param q ''email'') s (\<lambda>m.
         case read_envelope_for (lower e) (e_cfg e) (r_domains s) (e_data e) (or_default [] m) (r_fs s) of
           Inr c \<Rightarrow> answer (json_response_raw 200 (bytes_of (e_files e) c)) s
         | Inl SetupNotFound \<Rightarrow> answer mux_not_found s
         | Inl x \<Rightarrow> answer (text_error (setup_status x) (setup_message x)) s)
     else if rq_method q = ''PUT'' then
       as_caller e q s unauthorized (\<lambda>domain localpart.
         case replace_envelope (e_crypto e) (e_files e) (e_data e) domain localpart (Text body) (r_fs s) of
           (Inr _, f) \<Rightarrow> answer no_content (s\<lparr>r_fs := f\<rparr>)
         | (Inl x, f) \<Rightarrow> answer (text_error (setup_status x) (setup_message x)) (s\<lparr>r_fs := f\<rparr>))
     else answer method_not_allowed s)"

definition h_auth_signup :: "'k relay_env \<Rightarrow> request \<Rightarrow> string \<Rightarrow> relay \<Rightarrow> reply" where
  "h_auth_signup e q body s = with_cors ''POST, OPTIONS'' ''Content-Type''
    (only ''POST'' q s
      (try_arg (query_param q ''token'') s (\<lambda>t.
        case signup (e_crypto e) (e_files e) (e_cfg e) (e_data e) (or_default [] t) (Text body) (r_fs s) of
          (Inr _, f) \<Rightarrow> answer no_content (s\<lparr>r_fs := f\<rparr>)
        | (Inl x, f) \<Rightarrow> answer (text_error (setup_status x) (setup_message x)) (s\<lparr>r_fs := f\<rparr>))))"

section \<open>Keys\<close>

definition h_wkd_policy :: "relay \<Rightarrow> reply" where
  "h_wkd_policy s = answer (plain_response 200 []) s"

definition h_wkd_lookup :: "'k relay_env \<Rightarrow> request \<Rightarrow> relay \<Rightarrow> reply" where
  "h_wkd_lookup e q s =
    try_arg (query_param q ''l'') s (\<lambda>l.
      let h = or_default [] (strip_prefix ''/.well-known/openpgpkey/hu/'' (rq_path q));
          doms = remdups_adj (sort (bt_keys (domains (e_cfg e)) @ bt_keys (r_domains s)));
          serves = (\<lambda>d l. acc_resolve (lower e) (r_accounts s) (email_of l d) \<noteq> None \<and>
                          path_exists (r_fs s) (pubkey_file (e_data e) d l));
          key = (case resolve_wkd (lower e) (e_sha1 e) doms h (or_default [] l) (e_global e \<noteq> None) serves of
                   UserKey d l \<Rightarrow> serve_pubkey (e_packets e) (e_files e) (e_data e) d l (r_fs s)
                 | GlobalKey \<Rightarrow> or_default None (e_global e)
                 | WkdNotFound \<Rightarrow> None) in
      case key of
        Some k \<Rightarrow> answer (set_header ''access-control-allow-origin'' ''*'' (octet_stream k)) s
      | None \<Rightarrow> answer mux_not_found s)"

definition h_pgp_pubkey :: "'k relay_env \<Rightarrow> request \<Rightarrow> string \<Rightarrow> relay \<Rightarrow> reply" where
  "h_pgp_pubkey e q body s = with_cors ''PUT, OPTIONS'' ''Authorization, Content-Type''
    (only ''PUT'' q s
      (as_caller e q s unauthorized (\<lambda>domain localpart.
        case store_pubkey (e_readable e) (e_files e) (e_data e) domain localpart body (r_fs s) of
          (Inr _, f) \<Rightarrow> answer no_content (s\<lparr>r_fs := f\<rparr>)
        | (Inl x, f) \<Rightarrow> answer (text_error (key_status x) (key_message x)) (s\<lparr>r_fs := f\<rparr>))))"

definition h_pgp_privkey :: "'k relay_env \<Rightarrow> request \<Rightarrow> string \<Rightarrow> relay \<Rightarrow> reply" where
  "h_pgp_privkey e q body s = with_cors ''GET, PUT, OPTIONS'' ''Authorization, Content-Type''
    (as_caller e q s unauthorized (\<lambda>domain localpart.
      if rq_method q = ''GET'' then
        (case read_privkey (e_files e) (e_data e) domain localpart (r_fs s) of
           Some blob \<Rightarrow> answer (json_response_raw 200 blob) s
         | None \<Rightarrow> answer mux_not_found s)
      else if rq_method q = ''PUT'' then
        (case store_privkey (e_files e) (e_data e) domain localpart body (r_fs s) of
           (b, f) \<Rightarrow> answer (if b then no_content else internal_error) (s\<lparr>r_fs := f\<rparr>))
      else answer method_not_allowed s))"

definition peer_key_path :: "'k relay_env \<Rightarrow> string \<Rightarrow> string \<Rightarrow> string" where
  "peer_key_path e domain addr = pjoin (pjoin (pjoin (e_data e) domain) ''peers'') (lower e addr @ ''.pgp'')"

text \<open>\<open>Path::parent\<close> of a path below the data directory: what stands before the last slash.\<close>

definition path_parent :: "string \<Rightarrow> string" where
  "path_parent p = (case rsplit_once (CHR ''/'') p of None \<Rightarrow> [] | Some (d, _) \<Rightarrow> d)"

definition h_pgp_peerkey :: "'k relay_env \<Rightarrow> request \<Rightarrow> string \<Rightarrow> relay \<Rightarrow> reply" where
  "h_pgp_peerkey e q body s = with_cors ''GET, PUT, OPTIONS'' ''Authorization, Content-Type''
    (if rq_method q \<noteq> ''GET'' \<and> rq_method q \<noteq> ''PUT'' then answer method_not_allowed s
     else as_caller e q s (text_error 401 ''unauthorized'') (\<lambda>domain _.
       try_arg (query_param q ''addr'') s (\<lambda>a.
         let addr = or_default [] a; path = peer_key_path e domain addr in
         if addr = [] then answer (text_error 400 (key_message AddrRequired)) s
         else if rq_method q = ''GET'' then
           (case fs_read (r_fs s) path of
              Some c \<Rightarrow> answer (octet_stream (bytes_of (e_files e) c)) s
            | None \<Rightarrow> answer (text_error 404 (key_message KeyNotFound)) s)
         else
           (case fs_write (e_files e) path (Text body) (snd (create_dir_all (path_parent path) (r_fs s))) of
              (b, f) \<Rightarrow> answer (if b then no_content else internal_error) (s\<lparr>r_fs := f\<rparr>)))))"

section \<open>Contacts\<close>

definition h_contacts_list :: "'k relay_env \<Rightarrow> request \<Rightarrow> relay \<Rightarrow> reply" where
  "h_contacts_list e q s =
    only ''GET'' q s
      (as_caller e q s (text_error 401 ''unauthorized'') (\<lambda>domain localpart.
        answer (json_ok e 200 (obj [(''cards'', enc_vec enc_card (read_contacts (e_files e) (dir_of e domain localpart) (r_fs s)))])) s))"

definition h_contacts_put :: "'k relay_env \<Rightarrow> request \<Rightarrow> string \<Rightarrow> relay \<Rightarrow> reply" where
  "h_contacts_put e q body s =
    only ''PUT'' q s
      (try_arg (percent_decode (or_default [] (strip_prefix ''/contacts/'' (rq_path q)))) s (\<lambda>uid.
        if uid = [] then answer mux_not_found s
        else as_caller e q s (text_error 401 ''unauthorized'') (\<lambda>domain localpart.
          case parse_upsert (e_files e) uid body of
            Inl x \<Rightarrow> answer (text_error (contact_status x) (contact_message x)) s
          | Inr c \<Rightarrow>
              (let dir = dir_of e domain localpart in
               case create_dir_all dir (r_fs s) of
                 (False, f) \<Rightarrow> answer internal_error (s\<lparr>r_fs := f\<rparr>)
               | (True, f) \<Rightarrow>
                   (case put_contact (e_files e) dir c f of
                      (b, f') \<Rightarrow> answer (if b then no_content else internal_error) (s\<lparr>r_fs := f'\<rparr>))))))"

section \<open>Devices and sessions\<close>

definition h_session_challenge :: "'k relay_env \<Rightarrow> request \<Rightarrow> relay \<Rightarrow> reply" where
  "h_session_challenge e q s = with_cors ''GET, OPTIONS'' ''Content-Type''
    (only ''GET'' q s
      (try_arg (nonce_issue (e_crypto e) (e_now e) (e_raw e) (r_nonces s)) s (\<lambda>(nonce, live).
        answer (json_ok e 200 (obj [(''nonce'', JStr nonce), (''expires_in'', JNum nonce_ttl)])) (s\<lparr>r_nonces := live\<rparr>))))"

definition enc_session_response :: "session_response \<Rightarrow> json" where
  "enc_session_response p = obj [(''email'', JStr (sp_email p)), (''token'', JStr (sp_token p)),
     (''expires_in'', JNum (sp_expires_in p))]"

definition device_refusal :: "device_error \<Rightarrow> response" where
  "device_refusal x = text_error (device_status x) (device_message x)"

definition h_account_session :: "'k relay_env \<Rightarrow> request \<Rightarrow> string \<Rightarrow> relay \<Rightarrow> reply" where
  "h_account_session e q body s = with_cors ''POST, OPTIONS'' ''Content-Type''
    (only ''POST'' q s
      (case Option.bind (parse_json e body) dec_session_request of
         None \<Rightarrow> answer (text_error 400 ''invalid JSON'') s
       | Some l \<Rightarrow>
           (case login (e_crypto e) (e_files e) (lower e) (e_data e) l (host_header q) (e_now e) (e_raw e) (r_fs s, r_nonces s) of
              (r, f, live) \<Rightarrow>
                (let s' = s\<lparr>r_fs := f, r_nonces := live\<rparr> in
                 case r of
                   Inl x \<Rightarrow> answer (device_refusal x) s'
                 | Inr p \<Rightarrow> answer (json_ok e 200 (enc_session_response p)) s'))))"

definition anchor_verdict :: "'k relay_env \<Rightarrow> string \<Rightarrow> string \<Rightarrow> vouch_request \<Rightarrow> verdict" where
  "anchor_verdict e localpart domain q =
    anchor_vouch (e_transport e) (anchor_ref_of (e_cfg e)) localpart domain (vr_did q)
      \<lparr>vp_key = vr_key q, vp_label = vr_label q, vp_sig = vr_sig q, vp_ts = vr_bind_ts q\<rparr>"

definition h_vouch_device :: "'k relay_env \<Rightarrow> string \<Rightarrow> relay \<Rightarrow> reply" where
  "h_vouch_device e body s =
    (case Option.bind (parse_json e body) dec_vouch_request of
       None \<Rightarrow> answer (text_error 400 ''invalid JSON'') s
     | Some q \<Rightarrow>
         (case vouch_device (e_anchored e) (e_files e) (lower e) (e_cfg e) (e_data e) (anchor_verdict e) q (e_now e) (r_fs s) of
            (Inl x, f) \<Rightarrow> answer (device_refusal x) (s\<lparr>r_fs := f\<rparr>)
          | (Inr b, f) \<Rightarrow> answer (if b then no_content else internal_error) (s\<lparr>r_fs := f\<rparr>)))"

definition h_account_devices :: "'k relay_env \<Rightarrow> request \<Rightarrow> string \<Rightarrow> relay \<Rightarrow> reply" where
  "h_account_devices e q body s = with_cors ''GET, POST, DELETE, OPTIONS'' ''Authorization, Content-Type''
    (if rq_method q = ''POST'' then h_vouch_device e body s
     else as_caller e q s unauthorized (\<lambda>domain localpart.
       let dir = dir_of e domain localpart in
       if rq_method q = ''GET'' then
         answer (json_ok e 200 (enc_vec enc_device_key (list_device_keys (e_files e) dir (r_fs s)))) s
       else if rq_method q = ''DELETE'' then
         try_arg (query_param q ''id'') s (\<lambda>i.
           if or_default [] i = [] then answer (text_error 400 (device_message IdRequired)) s
           else (case remove_device_key (e_files e) dir (or_default [] i) (r_fs s) of
                   (b, f) \<Rightarrow> answer (if b then no_content else internal_error) (s\<lparr>r_fs := f\<rparr>)))
       else answer method_not_allowed s))"

section \<open>Storage\<close>

definition storage_route :: "'k relay_env \<Rightarrow> request \<Rightarrow> relay \<Rightarrow> (string \<Rightarrow> string \<Rightarrow> json) \<Rightarrow> reply" where
  "storage_route e q s render = with_cors ''GET, OPTIONS'' ''Authorization, Content-Type''
    (only ''GET'' q s
      (as_caller e q s unauthorized (\<lambda>domain localpart. answer (json_ok e 200 (render domain localpart)) s)))"

definition h_storage_summary :: "'k relay_env \<Rightarrow> request \<Rightarrow> relay \<Rightarrow> reply" where
  "h_storage_summary e q s = storage_route e q s (\<lambda>domain localpart.
     storage_summary (or_default [] (list_account_storage (e_files e) (e_data e) domain localpart (all_files s))))"

definition h_storage_messages :: "'k relay_env \<Rightarrow> request \<Rightarrow> relay \<Rightarrow> reply" where
  "h_storage_messages e q s = storage_route e q s (\<lambda>domain localpart.
     obj [(''files'', enc_vec enc_storage_entry
       (or_default [] (list_message_files (e_files e) (e_data e) domain localpart (all_files s))))])"

definition h_storage_export :: "'k relay_env \<Rightarrow> request \<Rightarrow> relay \<Rightarrow> reply" where
  "h_storage_export e q s = storage_route e q s (\<lambda>domain localpart.
     obj [(''email'', JStr (email_of localpart domain)),
       (''files'', JObj (map (\<lambda>(p, b). (p, JStr (std (e_crypto e) b)))
         (export_account_storage (e_files e) (e_data e) domain localpart (all_files s))))])"

definition h_storage_purge :: "'k relay_env \<Rightarrow> request \<Rightarrow> relay \<Rightarrow> reply" where
  "h_storage_purge e q s = with_cors ''POST, OPTIONS'' ''Authorization, Content-Type''
    (only ''POST'' q s
      (as_caller e q s unauthorized (\<lambda>domain localpart.
        let email = email_of localpart domain;
            purged = (\<lambda>n. json_ok e 200 (obj [(''purged'', enc_u64 n)])) in
        case acc_get (lower e) (r_accounts s) email of
          None \<Rightarrow> answer (purged 0) s
        | Some ac \<Rightarrow>
            (case purge (j_io (e_jenv e)) (acc_store ac) of
               (n, ms) \<Rightarrow>
                 answer (purged n)
                   (s\<lparr>r_accounts := set_store (lower e email) ms (r_accounts s), r_hub := hub_notify (r_hub s)\<rparr>)))))"

section \<open>Administration\<close>

definition last_event :: "'k relay_env \<Rightarrow> relay \<Rightarrow> account_ref \<Rightarrow> string option" where
  "last_event e s a =
    (case read_activity (e_files e) (e_data e) (ar_domain a) (ar_localpart a) 1 (all_files s) of
       Some (ev # _) \<Rightarrow> Some (ev_time ev) | _ \<Rightarrow> None)"

definition h_admin_accounts :: "'k relay_env \<Rightarrow> request \<Rightarrow> relay \<Rightarrow> reply" where
  "h_admin_accounts e q s =
    only ''GET'' q s
      (answer (json_ok e 200 (obj [(''relay'', JStr (c_relay_label (e_cfg e))), (''version'', JStr (e_version e)),
         (''accounts'', enc_vec (\<lambda>a. struct (enc_account_row
            (admin_row (e_files e) (e_data e) (ar_domain a) (ar_localpart a) (last_event e s a) (all_files s))))
          (list_provisioned (e_data e) (all_files s)))])) s)"

text \<open>\<open>str::parse\<close> to a 64-bit \<open>usize\<close>.\<close>

definition parse_usize :: "string \<Rightarrow> nat option" where
  "parse_usize s =
    (let d = (case s of [] \<Rightarrow> [] | c # r \<Rightarrow> if c = CHR ''+'' \<and> r \<noteq> [] then r else s);
         n = foldl (\<lambda>n c. 10 * n + (byte c - 48)) 0 d in
     if d = [] \<or> \<not> list_all is_digit d \<or> 2 ^ 64 \<le> n then None else Some n)"

definition admin_limit :: "string option \<Rightarrow> nat" where
  "admin_limit l =
    (case Option.bind l parse_usize of
       Some n \<Rightarrow> if 0 < n then n else activity_default_limit
     | None \<Rightarrow> activity_default_limit)"

definition h_admin_account_detail :: "'k relay_env \<Rightarrow> request \<Rightarrow> relay \<Rightarrow> reply" where
  "h_admin_account_detail e q s =
    only ''GET'' q s
      (try_arg (percent_decode (or_default [] (strip_prefix ''/admin/accounts/'' (rq_path q)))) s (\<lambda>addr.
        case rsplit_once (CHR ''@'') addr of
          None \<Rightarrow> answer (text_error 400 ''bad address'') s
        | Some (localpart, domain) \<Rightarrow>
            if localpart = [] \<or> domain = [] then answer (text_error 400 ''bad address'') s
            else if \<not> path_exists (all_files s) (dir_of e domain localpart) then answer (text_error 404 ''not found'') s
            else try_arg (query_param q ''limit'') s (\<lambda>l.
              let f = all_files s; v = e_files e; data = e_data e;
                  activity = or_default [] (read_activity v data domain localpart (admin_limit l) f);
                  last_time = (case activity of [] \<Rightarrow> None | ev # _ \<Rightarrow> Some (ev_time ev));
                  row = enc_account_row (admin_row v data domain localpart last_time f);
                  usage = JObj (bt_of (map (\<lambda>(n, b). (n, enc_u64 b)) (usage_breakdown v data domain localpart f))) in
              answer (json_ok e 200 (struct (row @ [(''usage'', Some usage), (''activity'', Some (enc_vec enc_event activity))]))) s)))"

definition enc_name :: "string \<times> string \<Rightarrow> json" where
  "enc_name n = obj [(''localpart'', JStr (fst n)), (''domain'', JStr (snd n))]"

definition enc_drain_report :: "drain_report \<Rightarrow> json" where
  "enc_drain_report r = obj [(''released'', enc_vec enc_name (dr_released r)), (''failed'', enc_vec enc_name (dr_failed r))]"

definition h_drain_anchor :: "'k relay_env \<Rightarrow> request \<Rightarrow> relay \<Rightarrow> reply" where
  "h_drain_anchor e q s =
    only ''POST'' q s
      (let a = anchor_ref_of (e_cfg e) in
       if \<not> is_configured a then
         answer (text_error 400 (''relay is not anchored '' @ [CHR 0xE2, CHR 0x80, CHR 0x94] @ '' nothing to drain'')) s
       else
         (let names = map (\<lambda>r. (ar_localpart r, ar_domain r)) (list_provisioned (e_data e) (all_files s));
              report = drain (e_transport e) a names in
          answer (json_ok e (if dr_failed report = [] then 200 else 502) (enc_drain_report report)) s))"

definition h_admin_dashboard :: "'k relay_env \<Rightarrow> relay \<Rightarrow> reply" where
  "h_admin_dashboard e s =
    answer (set_header ''content-type'' ''text/html; charset=utf-8'' (plain_response 200 (e_dashboard e))) s"

definition h_metrics :: "'k relay_env \<Rightarrow> relay \<Rightarrow> reply" where
  "h_metrics e s =
    answer (set_header ''content-type'' ''text/plain; version=0.0.4; charset=utf-8''
      (plain_response 200 (render_prometheus
        (collect (e_files e) (e_data e) (c_relay_label (e_cfg e)) (e_version e) (all_files s) @
         smtp_outbound_metrics (r_sent s) (r_failed s))))) s"

section \<open>JMAP\<close>

definition h_jmap_session :: "'k relay_env \<Rightarrow> request \<Rightarrow> string \<Rightarrow> relay \<Rightarrow> reply" where
  "h_jmap_session e q query s = with_cors ''GET, POST, OPTIONS'' ''Authorization, Content-Type''
    (as_jmap_caller e q query s (\<lambda>domain localpart.
      answer (json_response_raw 200
        (print_json e (jmap_session (server_config_of (e_cfg e)) relay_capabilities (relay_accounts (r_accounts s))
           (Some (email_of localpart domain))) @ [LF])) s))"

definition dec_api_request :: "json \<Rightarrow> json list option" where
  "dec_api_request j = (if \<not> struct_ok 1 j then None else fld j 0 ''methodCalls'' (dec_vec Some) [])"

definition h_jmap_api :: "'k relay_env \<Rightarrow> request \<Rightarrow> string \<Rightarrow> string \<Rightarrow> relay \<Rightarrow> reply" where
  "h_jmap_api e q body query s = with_cors ''GET, POST, OPTIONS'' ''Authorization, Content-Type''
    (as_jmap_caller e q query s (\<lambda>_ _.
      only ''POST'' q s
        (case Option.bind (parse_json e body) dec_api_request of
           None \<Rightarrow> answer (text_error 400 ''bad request'') s
         | Some calls \<Rightarrow>
             (case run_batch (e_refs e) (relay_handle (e_jenv e) (e_hooks e) (e_stamp e)) calls (r_accounts s) of
                (r, a) \<Rightarrow>
                  (bind_out r (\<lambda>j. Ret (json_response_raw 200 (print_json e j @ [LF]))), s\<lparr>r_accounts := a\<rparr>)))))"

section \<open>The life of an account\<close>

definition h_account_did :: "'k relay_env \<Rightarrow> request \<Rightarrow> string \<Rightarrow> relay \<Rightarrow> reply" where
  "h_account_did e q body s = with_cors ''PUT, OPTIONS'' ''Authorization, Content-Type''
    (if rq_method q = ''OPTIONS'' then answer no_content s
     else only ''PUT'' q s
      (as_caller e q s unauthorized (\<lambda>domain localpart.
        let a = anchor_ref_of (e_cfg e);
            refuse = (\<lambda>x. answer (text_error (bind_status x) (bind_message x)) s) in
        case bind_decide (e_files e) (is_configured a) body of
          Inl x \<Rightarrow> refuse x
        | Inr r \<Rightarrow>
            (case bind_verdict (claim (e_transport e) a localpart domain (br_did r)
                    \<lparr>bp_sig = br_sig r, bp_ts = br_ts r, bp_host = host_header q\<rparr>) of
               Some x \<Rightarrow> refuse x
             | None \<Rightarrow> answer no_content s))))"

text \<open>The name of the account an identity gets: its SCID where it has one, else the name asked for.\<close>

definition primary_localpart :: "string \<Rightarrow> string \<Rightarrow> string" where
  "primary_localpart did username =
    or_default username (case webvh_parse did of Inl _ \<Rightarrow> None | Inr i \<Rightarrow> to_localpart (w_scid i))"

definition provision_vouch :: "provision_request \<Rightarrow> string \<Rightarrow> string \<Rightarrow> vouch_request" where
  "provision_vouch r primary domain =
    \<lparr>vr_username = primary, vr_domain = domain, vr_did = pq_did r, vr_key = pq_device_key r, vr_label = pq_device_label r,
     vr_bind_ts = pq_vouch_ts r, vr_sig = pq_vouch_sig r\<rparr>"

text \<open>The anchor's word on a new account: its claim on the name, then its vouch for the device.\<close>

definition anchor_admits ::
  "'k relay_env \<Rightarrow> provision_request \<Rightarrow> string \<Rightarrow> string \<Rightarrow> string \<Rightarrow> refusal + unit" where
  "anchor_admits e r primary domain host =
    (case provision_refusal (claim (e_transport e) (anchor_ref_of (e_cfg e)) primary domain (pq_did r)
            \<lparr>bp_sig = pq_did_sig r, bp_ts = pq_bind_ts r, bp_host = host\<rparr>) of
       Some x \<Rightarrow> Inl x
     | None \<Rightarrow>
         if verdict_error (anchor_verdict e primary domain (provision_vouch r primary domain)) \<noteq> None
         then Inl DeviceVouchRejected else Inr ())"

definition keep_envelope :: "'k relay_env \<Rightarrow> string \<Rightarrow> string \<Rightarrow> json option \<Rightarrow> fs \<Rightarrow> fs" where
  "keep_envelope e domain primary j f =
    (case j of
       None \<Rightarrow> f
     | Some j \<Rightarrow>
         (case env_from_bytes (e_crypto e) (Some j) of
            Inl _ \<Rightarrow> f
          | Inr env \<Rightarrow> snd (write_envelope (e_crypto e) (e_files e) (e_data e) domain primary env f)))"

definition alias_to_primary :: "'k relay_env \<Rightarrow> string \<Rightarrow> string \<Rightarrow> string \<Rightarrow> relay \<Rightarrow> relay" where
  "alias_to_primary e username primary domain s =
    (if primary = username then s
     else
       (let a = snd (add_alias (lower e) (email_of username domain) (email_of primary domain) (r_accounts s)) in
        s\<lparr>r_accounts := a,
          r_fs := snd (write_aliases (e_files e) (e_data e) domain primary (aliases_for (email_of primary domain) a) (r_fs s))\<rparr>))"

definition create_account ::
  "'k relay_env \<Rightarrow> provision_request \<Rightarrow> string \<Rightarrow> string \<Rightarrow> string \<Rightarrow> relay \<Rightarrow> reply" where
  "create_account e r username primary domain s =
    (case write_device (e_files e) (e_data e) domain primary (provision_vouch r primary domain) (e_now e) (r_fs s) of
       (False, f) \<Rightarrow> answer internal_error (s\<lparr>r_fs := f\<rparr>)
     | (True, f) \<Rightarrow>
         (let s1 = s\<lparr>r_fs := keep_envelope e domain primary (pq_envelope r) f\<rparr>;
              s2 = register_dyn_account e primary domain s1;
              s3 = alias_to_primary e username primary domain s2 in
          answer (json_ok e 201 (obj ([(''email'', JStr (email_of primary domain))] @
            (if pq_did r \<noteq> [] then [(''did_bound'', JBool (did_bound (e_anchored e) (e_cfg e) r))] else [])))) s3))"

definition h_account_provision :: "'k relay_env \<Rightarrow> request \<Rightarrow> string \<Rightarrow> relay \<Rightarrow> reply" where
  "h_account_provision e q body s = with_cors ''POST, OPTIONS'' ''Content-Type''
    (only ''POST'' q s
      (case Option.bind (parse_json e body) dec_provision_request of
         None \<Rightarrow> answer (text_error 400 ''invalid JSON'') s
       | Some r \<Rightarrow>
           (let refuse = (\<lambda>x. answer (text_error (refusal_status x) (refusal_message x)) s) in
            case check_request (lower e) (e_anchored e) (e_cfg e) r of
              Inl x \<Rightarrow> refuse x
            | Inr _ \<Rightarrow>
                (let username = lower e (trim (pq_username r)) in
                 try_arg (resolve_domain (lower e) (e_cfg e) (r_domains s) (pq_domain r)) s (\<lambda>d.
                   case d of
                     Inl x \<Rightarrow> refuse x
                   | Inr (domain, dc) \<Rightarrow>
                       (case may_provision (e_cfg e) dc (pq_did r) (pq_secret r) of
                          Inl x \<Rightarrow> refuse x
                        | Inr _ \<Rightarrow>
                            (let primary = primary_localpart (pq_did r) username;
                                 email = email_of primary domain;
                                 already = dyn_acc_contains (lower e) email (r_dyn s) \<or>
                                           acc_get (lower e) (r_accounts s) email \<noteq> None in
                             if name_is_taken (e_files e) (dir_of e domain primary) (e_data e) domain primary already (r_fs s)
                             then refuse UsernameTaken
                             else if (case acc_resolve (lower e) (r_accounts s) (email_of username domain) of
                                        None \<Rightarrow> False | Some ac \<Rightarrow> acc_email ac \<noteq> email)
                             then refuse UsernameTaken
                             else
                               (case vouch_path_of (e_anchored e) (e_cfg e) of
                                  Impossible \<Rightarrow> refuse DidMethodNeedsAnchor
                                | ViaAnchor \<Rightarrow>
                                    (case anchor_admits e r primary domain (host_header q) of
                                       Inl x \<Rightarrow> refuse x
                                     | Inr _ \<Rightarrow> create_account e r username primary domain s)))))))))"

text \<open>Dropping an account from the tables; its store's files stay where they are.\<close>

definition drop_account :: "'k relay_env \<Rightarrow> string \<Rightarrow> string \<Rightarrow> relay \<Rightarrow> relay" where
  "drop_account e domain localpart s =
    (let email = email_of localpart domain; dir = dir_of e domain localpart in
     s\<lparr>r_disks := bt_ins dir (disk_at s dir) (r_disks s),
       r_accounts := snd (acc_remove email (r_accounts s)),
       r_dyn := snd (dyn_acc_remove (lower e) email (r_dyn s))\<rparr>)"

definition remove_account_dir :: "'k relay_env \<Rightarrow> string \<Rightarrow> relay \<Rightarrow> bool \<times> relay" where
  "remove_account_dir e dir s =
    (case remove_dir_all (e_wipe e) dir (r_fs s) of
       (True, f) \<Rightarrow> (True, s\<lparr>r_fs := f, r_disks := bt_del dir (r_disks s)\<rparr>)
     | (False, f) \<Rightarrow> (False, s\<lparr>r_fs := f\<rparr>))"

text \<open>The claim at the anchor is released at the end; whatever comes of that changes nothing here.\<close>

definition h_account_delete :: "'k relay_env \<Rightarrow> request \<Rightarrow> relay \<Rightarrow> reply" where
  "h_account_delete e q s = with_cors ''POST, OPTIONS'' ''Authorization, Content-Type''
    (only ''POST'' q s
      (as_caller e q s unauthorized (\<lambda>domain localpart.
        case may_self_delete (domain_config_of (e_cfg e) (r_domains s) domain) localpart of
          Inl x \<Rightarrow> answer (text_error (domain_status x) (domain_message x)) s
        | Inr _ \<Rightarrow>
            (let dir = dir_of e domain localpart in
             case remove_account_dir e dir (drop_account e domain localpart s) of
               (gone, s') \<Rightarrow>
                 if \<not> gone \<and> path_exists (r_fs s') dir then answer (text_error 500 ''failed to delete account data'') s'
                 else answer no_content s'))))"

datatype alias_op = AliasAdd | AliasRemove

definition dec_alias_op :: "json \<Rightarrow> alias_op option" where
  "dec_alias_op j =
    (case j of
       JStr n \<Rightarrow> if n = ''add'' then Some AliasAdd else if n = ''remove'' then Some AliasRemove else None
     | JObj [(n, JNull)] \<Rightarrow> if n = ''add'' then Some AliasAdd else if n = ''remove'' then Some AliasRemove else None
     | _ \<Rightarrow> None)"

definition dec_alias_request :: "json \<Rightarrow> (alias_op \<times> string) option" where
  "dec_alias_request j =
    (if \<not> struct_ok 2 j then None
     else do { x \<leftarrow> req j 0 ''op'' dec_alias_op; a \<leftarrow> req j 1 ''address'' dec_str; Some (x, a) })"

definition h_account_alias :: "'k relay_env \<Rightarrow> request \<Rightarrow> string \<Rightarrow> relay \<Rightarrow> reply" where
  "h_account_alias e q body s = with_cors ''GET, POST, OPTIONS'' ''Authorization, Content-Type''
    (as_caller e q s unauthorized (\<lambda>domain localpart.
      let primary = email_of localpart domain in
      if rq_method q = ''GET'' then
        answer (json_ok e 200 (enc_vec JStr (aliases_for primary (r_accounts s)))) s
      else if rq_method q = ''POST'' then
        (case Option.bind (parse_json e body) dec_alias_request of
           None \<Rightarrow> answer (text_error 400 ''invalid JSON'') s
         | Some (x, a) \<Rightarrow>
             (let address = lower e (trim a) in
              if address = [] \<or> CHR ''@'' \<notin> set address then answer (text_error 400 ''invalid address'') s
              else
                (case (case x of AliasAdd \<Rightarrow> add_alias (lower e) address primary (r_accounts s)
                              | AliasRemove \<Rightarrow> remove_alias address primary (r_accounts s)) of
                   (False, a') \<Rightarrow> answer (text_error 409 ''alias change refused'') (s\<lparr>r_accounts := a'\<rparr>)
                 | (True, a') \<Rightarrow>
                     answer no_content (s\<lparr>r_accounts := a',
                       r_fs := snd (write_aliases (e_files e) (e_data e) domain localpart (aliases_for primary a') (r_fs s))\<rparr>))))
      else answer method_not_allowed s))"

text \<open>\<open>fs::rename\<close> of a directory to a path where nothing is.\<close>

definition move_path :: "node_path \<Rightarrow> node_path \<Rightarrow> node_path \<Rightarrow> node_path" where
  "move_path k k' p = (if below k p then k' @ drop (length k) p else p)"

definition rename_dir :: "(node_path \<Rightarrow> bool) \<Rightarrow> string \<Rightarrow> string \<Rightarrow> fs \<Rightarrow> bool \<times> fs" where
  "rename_dir stuck p q f =
    (case (locate f p, locate f q) of
       (Some k, Some k') \<Rightarrow>
         if \<not> bs_mem k (fs_dirs f) \<or> stuck k \<or> below k k' \<or> \<not> is_dir f (butlast k') \<or> path_exists f q then (False, f)
         else (True, f\<lparr>fs_files := bt_of (map (apfst (move_path k k')) (fs_files f)),
                        fs_dirs := bt_of (map (apfst (move_path k k')) (fs_dirs f))\<rparr>)
     | _ \<Rightarrow> (False, f))"

definition move_account_dir :: "'k relay_env \<Rightarrow> string \<Rightarrow> string \<Rightarrow> relay \<Rightarrow> bool \<times> relay" where
  "move_account_dir e old new s =
    (case rename_dir (e_stuck e) old new (r_fs s) of
       (False, f) \<Rightarrow> (False, s\<lparr>r_fs := f\<rparr>)
     | (True, f) \<Rightarrow> (True, s\<lparr>r_fs := f, r_disks := bt_ins new (disk_at s old) (bt_del old (r_disks s))\<rparr>))"

definition dec_migrate_request :: "json \<Rightarrow> string option" where
  "dec_migrate_request j = (if \<not> struct_ok 1 j then None else req j 0 ''did'' dec_str)"

definition migrate_account ::
  "'k relay_env \<Rightarrow> string \<Rightarrow> string \<Rightarrow> string \<Rightarrow> relay \<Rightarrow> reply" where
  "migrate_account e domain localpart scid s =
    (let old_dir = dir_of e domain localpart; new_dir = dir_of e domain scid;
         old_primary = email_of localpart domain; new_email = email_of scid domain;
         back = (\<lambda>s'. s'\<lparr>r_fs := snd (rename_dir (e_stuck e) new_dir old_dir (r_fs s')), r_disks := r_disks s\<rparr>) in
     if path_exists (r_fs s) new_dir then answer (text_error 409 ''an account already exists at the target SCID'') s
     else
       (case move_account_dir e old_dir new_dir s of
          (False, s1) \<Rightarrow> answer (text_error 500 (''rename failed: '' @ e_os_error e)) s1
        | (True, s1) \<Rightarrow>
            (case store_open new_dir s1 of
               (None, s2) \<Rightarrow> answer (text_error 500 (''reopening the migrated store failed: '' @ e_os_error e)) (back s2)
             | (Some ms, s2) \<Rightarrow>
                 (case migrate_primary old_primary (account_for e scid domain ms) (r_accounts s2) of
                    (False, a) \<Rightarrow> answer (text_error 500 ''internal error: primary swap failed'') (back (s2\<lparr>r_accounts := a\<rparr>))
                  | (True, a) \<Rightarrow>
                      (let s3 = s2\<lparr>r_accounts := a, r_disks := bt_del new_dir (r_disks s2),
                                  r_dyn := dyn_acc_insert (lower e) new_email (snd (dyn_acc_remove (lower e) old_primary (r_dyn s2)))\<rparr>;
                           f = snd (write_aliases (e_files e) (e_data e) domain scid (aliases_for new_email a) (r_fs s3)) in
                       answer (json_ok e 200 (obj [(''email'', JStr new_email)])) (s3\<lparr>r_fs := f\<rparr>))))))"

definition h_account_migrate :: "'k relay_env \<Rightarrow> request \<Rightarrow> string \<Rightarrow> relay \<Rightarrow> reply" where
  "h_account_migrate e q body s = with_cors ''POST, OPTIONS'' ''Authorization, Content-Type''
    (only ''POST'' q s
      (as_caller e q s unauthorized (\<lambda>domain localpart.
        case Option.bind (parse_json e body) dec_migrate_request of
          None \<Rightarrow> answer (text_error 400 ''invalid JSON'') s
        | Some did \<Rightarrow>
            (case webvh_parse did of
               Inl _ \<Rightarrow>
                 answer (text_error 400 (''did does not read as biset'' @ [CHR 0x27] @ ''s own did:webvh shape '' @
                   [CHR 0xE2, CHR 0x80, CHR 0x94] @ '' nothing to migrate to'')) s
             | Inr i \<Rightarrow>
                 (case to_localpart (w_scid i) of
                    None \<Rightarrow> answer (text_error 400 ''did carries no usable SCID'') s
                  | Some scid \<Rightarrow>
                      if scid = localpart then answer (text_error 409 ''already SCID-primary'') s
                      else migrate_account e domain localpart scid s)))))"

section \<open>Custom domains\<close>

definition domain_refusal :: "domain_error \<Rightarrow> response" where
  "domain_refusal x = text_error (domain_status x) (domain_message x)"

definition domain_dir :: "'k relay_env \<Rightarrow> string \<Rightarrow> string" where
  "domain_dir e domain = pjoin (pjoin (e_data e) ''_domains'') domain"

definition domain_dkim :: "'k relay_env \<Rightarrow> string \<Rightarrow> fs \<Rightarrow> (string \<times> string) \<times> fs" where
  "domain_dkim e domain f =
    (let dir = domain_dir e domain in
     case create_dir_all dir f of
       (False, f1) \<Rightarrow> (([], []), f1)
     | (True, f1) \<Rightarrow>
         (case load_or_generate_key (e_rsa e) (e_files e) (e_fresh e) dir f1 of
            (None, f2) \<Rightarrow> (([], []), f2)
          | (Some key, f2) \<Rightarrow>
              ((record_name default_selector domain, public_key_record (e_rsa e) key),
               snd (write_record_file (e_rsa e) (e_files e) dir default_selector domain key f2))))"

definition h_domain_verify_token :: "'k relay_env \<Rightarrow> request \<Rightarrow> relay \<Rightarrow> reply" where
  "h_domain_verify_token e q s = with_cors ''GET, OPTIONS'' []
    (try_arg (query_param q ''domain'') s (\<lambda>d.
      let domain = lower e (trim (or_default [] d)) in
      if \<not> valid_custom_domain domain then answer (domain_refusal InvalidDomain) s
      else
        (case domain_dkim e domain (r_fs s) of
           ((dkim_name, dkim_value), f) \<Rightarrow>
             answer (json_ok e 200 (obj [(''txt_name'', JStr (verify_txt_name domain)),
               (''token'', JStr (verify_token (e_mac e) (e_cfg e) domain)), (''mx_target'', JStr (hostname (e_cfg e))),
               (''dkim_name'', JStr dkim_name), (''dkim_value'', JStr dkim_value)])) (s\<lparr>r_fs := f\<rparr>))))"

definition dec_add_request :: "json \<Rightarrow> string option" where
  "dec_add_request j = (if \<not> struct_ok 1 j then None else fld j 0 ''domain'' dec_str [])"

definition register_domain :: "'k relay_env \<Rightarrow> string \<Rightarrow> relay \<Rightarrow> reply" where
  "register_domain e domain s =
    (let dir = domain_dir e domain; dc = registered_domain_config (e_mac e) (e_cfg e) domain in
     case create_dir_all dir (r_fs s) of
       (False, f) \<Rightarrow> answer internal_error (s\<lparr>r_fs := f\<rparr>)
     | (True, f) \<Rightarrow>
         (case fs_write (e_files e) (pjoin dir ''domain.json'') (Json (enc_domain_config dc)) f of
            (False, f') \<Rightarrow> answer internal_error (s\<lparr>r_fs := f'\<rparr>)
          | (True, f') \<Rightarrow>
              (case domain_dkim e domain f' of
                 ((dkim_name, dkim_value), f'') \<Rightarrow>
                   answer (json_ok e 200 (obj [(''domain'', JStr domain), (''mx_target'', JStr (hostname (e_cfg e))),
                     (''dkim_name'', JStr dkim_name), (''dkim_value'', JStr dkim_value),
                     (''provision_secret'', JStr (provision_secret dc))]))
                     (s\<lparr>r_fs := f'', r_domains := dyn_insert domain dc (r_domains s)\<rparr>))))"

definition h_domain_add :: "'k relay_env \<Rightarrow> request \<Rightarrow> string \<Rightarrow> relay \<Rightarrow> reply" where
  "h_domain_add e q body s = with_cors ''POST, OPTIONS'' ''Content-Type''
    (only ''POST'' q s
      (case Option.bind (parse_json e body) dec_add_request of
         None \<Rightarrow> answer (text_error 400 ''invalid JSON'') s
       | Some d \<Rightarrow>
           (let domain = lower e (trim d) in
            if \<not> valid_custom_domain domain then answer (domain_refusal InvalidDomain) s
            else if \<not> txt_proves_ownership (e_txt e (verify_txt_name domain)) (verify_token (e_mac e) (e_cfg e) domain)
            then answer (domain_refusal NotVerified) s
            else register_domain e domain s)))"

section \<open>Push and events\<close>

definition h_push_vapid_key :: "'k relay_env \<Rightarrow> relay \<Rightarrow> reply" where
  "h_push_vapid_key e s = with_cors ''GET, POST, OPTIONS'' ''Authorization, Content-Type''
    (answer (set_header ''content-type'' ''text/plain'' (plain_response 200 (va_public (e_vapid e)))) s)"

definition dec_push_keys :: "json \<Rightarrow> (string \<times> string) option" where
  "dec_push_keys j =
    (if \<not> struct_ok 2 j then None
     else do { p \<leftarrow> fld j 0 ''p256dh'' dec_str []; a \<leftarrow> fld j 1 ''auth'' dec_str []; Some (p, a) })"

definition dec_subscribe_request :: "json \<Rightarrow> (string \<times> string \<times> string) option" where
  "dec_subscribe_request j =
    (if \<not> struct_ok 2 j then None
     else do {
       endpoint \<leftarrow> fld j 0 ''endpoint'' dec_str [];
       k \<leftarrow> fld j 1 ''keys'' (dec_opt dec_push_keys) None;
       Some (endpoint, or_default ([], []) k)
     })"

definition h_push_subscribe :: "'k relay_env \<Rightarrow> request \<Rightarrow> string \<Rightarrow> string \<Rightarrow> relay \<Rightarrow> reply" where
  "h_push_subscribe e q body query s = with_cors ''GET, POST, OPTIONS'' ''Authorization, Content-Type''
    (as_jmap_caller e q query s (\<lambda>domain localpart.
      only ''POST'' q s
        (case Option.bind (parse_json e body) dec_subscribe_request of
           None \<Rightarrow> answer (text_error 400 ''bad request'') s
         | Some (url, p, a) \<Rightarrow>
             if url = [] then answer (text_error 400 ''bad request'') s
             else
               (case push_add (e_files e) (email_of localpart domain) \<lparr>ps_endpoint = url, ps_p256dh = p, ps_auth = a\<rparr>
                       (r_push s, r_fs s) of
                  (reg, f) \<Rightarrow> answer no_content (s\<lparr>r_push := reg, r_fs := f\<rparr>)))))"

definition dec_unsubscribe_request :: "json \<Rightarrow> string option" where
  "dec_unsubscribe_request j = (if \<not> struct_ok 1 j then None else fld j 0 ''endpoint'' dec_str [])"

definition h_push_unsubscribe :: "'k relay_env \<Rightarrow> request \<Rightarrow> string \<Rightarrow> string \<Rightarrow> relay \<Rightarrow> reply" where
  "h_push_unsubscribe e q body query s = with_cors ''GET, POST, OPTIONS'' ''Authorization, Content-Type''
    (as_jmap_caller e q query s (\<lambda>domain localpart.
      only ''POST'' q s
        (case Option.bind (parse_json e body) dec_unsubscribe_request of
           None \<Rightarrow> answer (text_error 400 ''bad request'') s
         | Some url \<Rightarrow>
             if url = [] then answer (text_error 400 ''bad request'') s
             else
               (case push_remove (e_files e) (email_of localpart domain) url (r_push s, r_fs s) of
                  (reg, f) \<Rightarrow> answer no_content (s\<lparr>r_push := reg, r_fs := f\<rparr>)))))"

definition h_event_source :: "'k relay_env \<Rightarrow> request \<Rightarrow> string \<Rightarrow> relay \<Rightarrow> reply" where
  "h_event_source e q query s = with_cors ''GET, POST, OPTIONS'' ''Authorization, Content-Type''
    (as_jmap_caller e q query s (\<lambda>_ _.
      answer (set_header ''cache-control'' ''no-cache''
          (set_header ''content-type'' ''text/event-stream'' (plain_response 200 state_event)))
        (s\<lparr>r_hub := hub_subscribe (r_hub s)\<rparr>)))"

section \<open>Dispatch\<close>

definition bearer_refused :: response where
  "bearer_refused = set_header ''www-authenticate'' ''Bearer'' (text_error 401 ''unauthorized'')"

definition run_route :: "'k relay_env \<Rightarrow> string \<Rightarrow> request \<Rightarrow> string \<Rightarrow> relay \<Rightarrow> reply" where
  "run_route e pattern q body s =
    (let query = or_default [] (rq_query q) in
     if pattern = ''/relay-info'' then h_relay_info e s
     else if pattern = ''/setup'' then h_setup e q s
     else if pattern = ''/.well-known/openpgpkey/policy'' then h_wkd_policy s
     else if pattern = ''/.well-known/openpgpkey/hu/'' then h_wkd_lookup e q s
     else if pattern = ''/pgp/pubkey'' then h_pgp_pubkey e q body s
     else if pattern = ''/pgp/privkey'' then h_pgp_privkey e q body s
     else if pattern = ''/pgp/peerkey'' then h_pgp_peerkey e q body s
     else if pattern = ''/auth/envelope'' then h_auth_envelope e q body s
     else if pattern = ''/auth/signup'' then h_auth_signup e q body s
     else if pattern = ''/contacts'' then h_contacts_list e q s
     else if pattern = ''/contacts/'' then h_contacts_put e q body s
     else if pattern = ''/account/session/challenge'' then h_session_challenge e q s
     else if pattern = ''/account/session'' then h_account_session e q body s
     else if pattern = ''/account/devices'' then h_account_devices e q body s
     else if pattern = ''/account/storage'' then h_storage_summary e q s
     else if pattern = ''/account/storage/messages'' then h_storage_messages e q s
     else if pattern = ''/account/storage/export'' then h_storage_export e q s
     else if pattern = ''/admin/accounts'' then h_admin_accounts e q s
     else if pattern = ''/admin/accounts/'' then h_admin_account_detail e q s
     else if pattern = ''/.well-known/jmap'' then h_jmap_session e q query s
     else if pattern = ''/jmap/api/'' then h_jmap_api e q body query s
     else if pattern = ''/account/provision'' then h_account_provision e q body s
     else if pattern = ''/account/did'' \<and> e_anchored e then h_account_did e q body s
     else if pattern = ''/admin/drain-anchor'' \<and> e_anchored e then h_drain_anchor e q s
     else if pattern = ''/account/delete'' then h_account_delete e q s
     else if pattern = ''/account/alias'' then h_account_alias e q body s
     else if pattern = ''/account/migrate-to-scid'' then h_account_migrate e q body s
     else if pattern = ''/account/storage/purge-messages'' then h_storage_purge e q s
     else if pattern = ''/admin/dashboard'' then h_admin_dashboard e s
     else if pattern = ''/metrics'' then h_metrics e s
     else if pattern = ''/domain/verify-token'' then h_domain_verify_token e q s
     else if pattern = ''/domain/add'' then h_domain_add e q body s
     else if pattern = ''/jmap/push/vapid-public-key'' then h_push_vapid_key e s
     else if pattern = ''/jmap/push/subscribe'' then h_push_subscribe e q body query s
     else if pattern = ''/jmap/push/unsubscribe'' then h_push_unsubscribe e q body query s
     else if pattern = ''/jmap/eventsource/'' then h_event_source e q query s
     else answer (text_error 501 ''not implemented'') s)"

text \<open>A body that is too long, or breaks off, counts as empty.\<close>

definition max_request :: nat where
  "max_request = 2 ^ 24"

definition route_dispatch :: "'k relay_env \<Rightarrow> string \<Rightarrow> guard \<Rightarrow> request \<Rightarrow> string option \<Rightarrow> relay \<Rightarrow> reply" where
  "route_dispatch e pattern g q body s =
    (let token = (if pattern = ''/metrics'' then e_metrics_token e else e_admin_token e);
         presented = or_default [] (header_str q ''authorization'');
         bytes = (case body of None \<Rightarrow> [] | Some b \<Rightarrow> if max_request < length b then [] else b) in
     if g = Bearer \<and> \<not> bearer_check token presented then answer bearer_refused s
     else run_route e pattern q bytes s)"

definition serve_request :: "'k relay_env \<Rightarrow> request \<Rightarrow> string option \<Rightarrow> relay \<Rightarrow> reply" where
  "serve_request e q body s =
    (if rq_method q = ''OPTIONS'' then answer (fill_outer_cors no_content) s
     else
       (let x = (case route (e_mux e) (rq_path q) (or_default [] (rq_query q)) of
                   Redirect to \<Rightarrow> answer (redirect to) s
                 | NotFound \<Rightarrow> answer mux_not_found s
                 | Found pattern r \<Rightarrow> route_dispatch e pattern (rs_guard r) q body s) in
        case x of (r, s') \<Rightarrow> (bind_out r (\<lambda>p. Ret (fill_outer_cors p)), s')))"

end
