(* ===== verification/RelayProps.thy ===== *)
theory RelayProps
  imports Handlers AccountsProps StartupProps
begin

text \<open>
  What requests can do. Every request moves the relay by the steps of \<open>relay_effect\<close>, so what
  each step keeps, every sequence of requests keeps.
\<close>

section \<open>Effects\<close>

text \<open>The steps a request is made of. Only a proof of control of a domain's DNS registers it.\<close>

inductive table_step :: "'k relay_env \<Rightarrow> accounts \<Rightarrow> accounts \<Rightarrow> bool" for e where
  operation: "table_step e a (run_accounts (e_jenv e) (e_hooks e) now op a)"
| store_change: "table_step e a (set_store p ms a)"

inductive relay_effect :: "'k relay_env \<Rightarrow> relay \<Rightarrow> relay \<Rightarrow> bool" for e where
  files: "relay_effect e s (s\<lparr>r_fs := f\<rparr>)"
| disks: "relay_effect e s (s\<lparr>r_disks := d\<rparr>)"
| nonces: "relay_effect e s (s\<lparr>r_nonces := n\<rparr>)"
| subscriptions: "relay_effect e s (s\<lparr>r_push := p\<rparr>)"
| hub: "relay_effect e s (s\<lparr>r_hub := h\<rparr>)"
| dynamic: "relay_effect e s (s\<lparr>r_dyn := y\<rparr>)"
| table: "table_step e (r_accounts s) a \<Longrightarrow> relay_effect e s (s\<lparr>r_accounts := a\<rparr>)"
| domain: "valid_custom_domain d \<Longrightarrow>
    txt_proves_ownership (e_txt e (verify_txt_name d)) (verify_token (e_mac e) (e_cfg e) d) \<Longrightarrow>
    relay_effect e s (s\<lparr>r_domains := dyn_insert d (registered_domain_config (e_mac e) (e_cfg e) d) (r_domains s)\<rparr>)"

inductive_cases table_step_cases: "table_step e a b"
inductive_cases relay_effect_cases: "relay_effect e s s'"

definition effects :: "'k relay_env \<Rightarrow> relay \<Rightarrow> relay \<Rightarrow> bool" where
  "effects e = (relay_effect e)\<^sup>*\<^sup>*"

named_theorems effect_intro

lemma effects_refl [effect_intro]: "effects e s s"
  by (simp add: effects_def)

lemma effects_trans: "effects e s s1 \<Longrightarrow> effects e s1 s2 \<Longrightarrow> effects e s s2"
  by (simp add: effects_def)

lemma effects_step: "effects e s s1 \<Longrightarrow> relay_effect e s1 s2 \<Longrightarrow> effects e s s2"
  by (simp add: effects_def)

lemmas effects_updates [effect_intro] =
  effects_step [OF _ files] effects_step [OF _ disks] effects_step [OF _ nonces] effects_step [OF _ subscriptions]
  effects_step [OF _ hub] effects_step [OF _ dynamic] effects_step [OF _ table]

lemmas table_operation = table_step.operation [of e a now op for e a now op]

lemma table_steps [effect_intro]:
  "table_step e a (acc_insert (lower e) ac als a)"
  "table_step e a (snd (add_alias (lower e) al p a))"
  "table_step e a (snd (remove_alias al p a))"
  "table_step e a (snd (migrate_primary old ac a))"
  "table_step e a (snd (acc_remove p a))"
  "table_step e a (set_store p ms a)"
  using table_operation [of e a _ "Insert ac als"] table_operation [of e a _ "AddAlias al p"]
    table_operation [of e a _ "RemoveAlias al p"] table_operation [of e a _ "Migrate old ac"]
    table_operation [of e a _ "Remove p"] table_step.store_change
  by (simp_all add: lower_def)

text \<open>What a handler's reply did to the state it was given.\<close>

definition does :: "'k relay_env \<Rightarrow> relay \<Rightarrow> reply \<Rightarrow> bool" where
  "does e s x \<longleftrightarrow> effects e s (snd x)"

lemma does_answer [effect_intro]: "effects e s s' \<Longrightarrow> does e s (answer r s')"
  by (simp add: does_def answer_def)

lemma does_cors [effect_intro]: "does e s x \<Longrightarrow> does e s (with_cors m h x)"
  by (cases x) (simp add: does_def with_cors_def)

lemma does_try [effect_intro]: "(\<And>v. x = Ret v \<Longrightarrow> does e s (k v)) \<Longrightarrow> does e s (try_arg x s k)"
  by (cases x) (simp_all add: does_def try_arg_def effects_refl)

lemma does_only [effect_intro]: "does e s x \<Longrightarrow> does e s (only m q s x)"
  by (simp add: only_def does_answer effects_refl)

lemma does_as_caller [effect_intro]:
  "(\<And>d l. caller e q s = Some (d, l) \<Longrightarrow> does e s (k d l)) \<Longrightarrow> does e s (as_caller e q s r k)"
  by (auto simp: as_caller_def does_answer effects_refl split: option.split)

lemma does_as_jmap_caller [effect_intro]:
  "(\<And>d l. jmap_caller e q query s = Ret (Some (d, l)) \<Longrightarrow> does e s (k d l)) \<Longrightarrow> does e s (as_jmap_caller e q query s k)"
  unfolding as_jmap_caller_def by (rule does_try) (auto simp: does_answer effects_refl split: option.split)

section \<open>The handlers\<close>

lemma batch_keeps:
  assumes keep: "\<And>n j a. P a \<Longrightarrow> P (snd (handle n j a))"
  shows "P s \<Longrightarrow> P (snd (batch_loop e handle res calls s))"
proof (induction calls arbitrary: res s)
  case (Cons raw calls)
  have skip: "P (snd (case batch_loop e handle r calls s' of (x, t) \<Rightarrow> (f x, t)))" if "P s'" for r s' f
    using Cons.IH [OF that, of r] by (simp add: case_prod_beta)
  show ?case
  proof (cases "\<exists>c0 c1 c2 cs. as_array raw = Some (c0 # c1 # c2 # cs)")
    case True
    then obtain c0 c1 c2 cs where raw: "as_array raw = Some (c0 # c1 # c2 # cs)" by blast
    show ?thesis
    proof (cases "resolve e c1 res")
      case (Inl m)
      then show ?thesis by (simp add: raw Let_def skip Cons.prems)
    next
      case (Inr args)
      obtain r s' where h: "handle (str_or_empty c0) args s = (r, s')" by (cases "handle (str_or_empty c0) args s")
      then have "P s'" using keep [OF Cons.prems, of "str_or_empty c0" args] by simp
      then show ?thesis by (simp add: raw Let_def Inr h skip split: outcome.split sum.split)
    qed
  next
    case False
    then have "batch_loop e handle res (raw # calls) s = batch_loop e handle res calls s"
      by (auto split: option.split list.split)
    then show ?thesis by (simp add: Cons.IH Cons.prems)
  qed
qed simp


named_theorems handlers_do

lemma onboarding_do [handlers_do]:
  "does e s (h_relay_info e s)"
  "does e s (h_setup e q s)"
  "does e s (h_auth_envelope e q body s)"
  "does e s (h_auth_signup e q body s)"
  unfolding h_relay_info_def h_setup_def h_auth_envelope_def h_auth_signup_def
  by (auto simp: Let_def intro!: effect_intro split: sum.split prod.split setup_error.split)

lemma keys_do [handlers_do]:
  "does e s (h_wkd_policy s)"
  "does e s (h_wkd_lookup e q s)"
  "does e s (h_pgp_pubkey e q body s)"
  "does e s (h_pgp_privkey e q body s)"
  "does e s (h_pgp_peerkey e q body s)"
  unfolding h_wkd_policy_def h_wkd_lookup_def h_pgp_pubkey_def h_pgp_privkey_def h_pgp_peerkey_def
  by (auto simp: Let_def intro!: effect_intro split: sum.split prod.split option.split)

lemma contacts_do [handlers_do]:
  "does e s (h_contacts_list e q s)"
  "does e s (h_contacts_put e q body s)"
  unfolding h_contacts_list_def h_contacts_put_def
  by (auto simp: Let_def intro!: effect_intro split: sum.split prod.split option.split bool.split)


lemma devices_do [handlers_do]:
  "does e s (h_session_challenge e q s)"
  "does e s (h_account_session e q body s)"
  "does e s (h_account_devices e q body s)"
  unfolding h_session_challenge_def h_account_session_def h_account_devices_def h_vouch_device_def
  by (auto simp: Let_def intro!: effect_intro split: sum.split prod.split option.split bool.split)

lemma storage_do [handlers_do]:
  "does e s (h_storage_summary e q s)"
  "does e s (h_storage_messages e q s)"
  "does e s (h_storage_export e q s)"
  "does e s (h_storage_purge e q s)"
  unfolding h_storage_summary_def h_storage_messages_def h_storage_export_def storage_route_def h_storage_purge_def
  by (auto simp: Let_def intro!: effect_intro split: sum.split prod.split option.split bool.split)

lemma administration_do [handlers_do]:
  "does e s (h_admin_accounts e q s)"
  "does e s (h_admin_account_detail e q s)"
  "does e s (h_drain_anchor e q s)"
  "does e s (h_admin_dashboard e s)"
  "does e s (h_metrics e s)"
  unfolding h_admin_accounts_def h_admin_account_detail_def h_drain_anchor_def h_admin_dashboard_def h_metrics_def
  by (auto simp: Let_def intro!: effect_intro split: sum.split prod.split option.split list.split)

lemma push_do [handlers_do]:
  "does e s (h_push_vapid_key e s)"
  "does e s (h_push_subscribe e q body query s)"
  "does e s (h_push_unsubscribe e q body query s)"
  "does e s (h_event_source e q query s)"
  unfolding h_push_vapid_key_def h_push_subscribe_def h_push_unsubscribe_def h_event_source_def
  by (auto simp: Let_def intro!: effect_intro split: sum.split prod.split option.split list.split)


lemma jmap_session_does [handlers_do]: "does e s (h_jmap_session e q query s)"
  unfolding h_jmap_session_def by (auto intro!: effect_intro)

lemma batch_does:
  "effects e s (s\<lparr>r_accounts := snd (run_batch v (relay_handle (e_jenv e) (e_hooks e) now) calls (r_accounts s))\<rparr>)"
proof -
  have "effects e s (s\<lparr>r_accounts := snd (relay_handle (e_jenv e) (e_hooks e) now n j a)\<rparr>)"
    if h: "effects e s (s\<lparr>r_accounts := a\<rparr>)" for n j a
    using effects_step [OF h table [OF table_operation [of e _ now "Handle n j"]]] by simp
  from batch_keeps [where P = "\<lambda>a. effects e s (s\<lparr>r_accounts := a\<rparr>)", OF this]
  show ?thesis unfolding run_batch_def by (auto simp: effects_refl case_prod_beta)
qed

lemma jmap_api_does [handlers_do]: "does e s (h_jmap_api e q body query s)"
proof -
  have "does e s (r, s\<lparr>r_accounts := a\<rparr>)"
    if "run_batch v (relay_handle (e_jenv e) (e_hooks e) now) calls (r_accounts s) = (x, a)" for v now calls x a r
    using batch_does [of e s v now calls] that by (simp add: does_def)
  then show ?thesis
    unfolding h_jmap_api_def by (auto intro!: effect_intro split: option.split prod.split)
qed

lemma did_does [handlers_do]: "does e s (h_account_did e q body s)"
  unfolding h_account_did_def by (auto simp: Let_def intro!: effect_intro split: sum.split option.split)

lemma delete_does [handlers_do]: "does e s (h_account_delete e q s)"
  unfolding h_account_delete_def drop_account_def remove_account_dir_def
  by (auto simp: Let_def intro!: effect_intro split: sum.split prod.split bool.split)

lemma domain_handlers_do [handlers_do]:
  "does e s (h_domain_verify_token e q s)"
  unfolding h_domain_verify_token_def by (auto simp: Let_def intro!: effect_intro split: prod.split)


lemma domain_add_does [handlers_do]: "does e s (h_domain_add e q body s)"
proof -
  have "does e s (register_domain e d s)"
    if "valid_custom_domain d" "txt_proves_ownership (e_txt e (verify_txt_name d)) (verify_token (e_mac e) (e_cfg e) d)" for d
  proof -
    have "effects e s (s\<lparr>r_fs := f, r_domains := dyn_insert d (registered_domain_config (e_mac e) (e_cfg e) d) (r_domains s)\<rparr>)" for f
      using effects_step [OF _ domain [OF that, of "s\<lparr>r_fs := f\<rparr>"], of s] by (simp add: effect_intro)
    then show ?thesis
      unfolding register_domain_def by (auto simp: Let_def intro!: effect_intro split: prod.split bool.split)
  qed
  then show ?thesis
    unfolding h_domain_add_def by (auto simp: Let_def intro!: effect_intro split: option.split)
qed

lemma store_open_effects: "store_open dir s = (ms, s') \<Longrightarrow> effects e s s'"
  by (auto simp: store_open_def intro!: effect_intro split: prod.splits bool.splits)

lemma register_effects: "effects e s (register_dyn_account e localpart domain s)"
  unfolding register_dyn_account_def
  by (auto simp: Let_def intro!: effect_intro split: option.split prod.split dest: store_open_effects)


lemma alias_to_primary_effects: "effects e s s' \<Longrightarrow> effects e s (alias_to_primary e username primary d s')"
  unfolding alias_to_primary_def by (auto simp: Let_def intro!: effect_intro)

lemma create_does: "does e s (create_account e r username primary d s)"
proof -
  have "effects e s (alias_to_primary e username primary d (register_dyn_account e primary d (s\<lparr>r_fs := f\<rparr>)))" for f
    by (intro alias_to_primary_effects effects_trans [OF _ register_effects] effect_intro)
  then show ?thesis
    unfolding create_account_def by (auto simp: Let_def intro!: effect_intro split: prod.split bool.split)
qed

lemma provision_does [handlers_do]: "does e s (h_account_provision e q body s)"
  unfolding h_account_provision_def
  by (intro does_cors does_only)
    (auto simp: Let_def intro!: effect_intro create_does split: option.split sum.split prod.split vouch_path.split)

lemma alias_does [handlers_do]: "does e s (h_account_alias e q body s)"
proof -
  have "table_step e (r_accounts s) a"
    if "(case x of AliasAdd \<Rightarrow> add_alias (lower e) al p (r_accounts s) | AliasRemove \<Rightarrow> remove_alias al p (r_accounts s)) = (b, a)"
    for x al p b a
    using that table_steps(2) [of e "r_accounts s" al p] table_steps(3) [of e "r_accounts s" al p]
    by (cases x) auto
  then show ?thesis
    unfolding h_account_alias_def by (auto simp: Let_def intro!: effect_intro split: option.split prod.split bool.split)
qed

lemma migrate_does: "does e s (migrate_account e d l scid s)"
proof -
  have move: "effects e s s1" if "move_account_dir e p q s = (b, s1)" for p q b s1
    using that by (auto simp: move_account_dir_def intro!: effect_intro split: prod.splits bool.splits)
  have swap: "table_step e a a'" if "migrate_primary p ac a = (b, a')" for p ac a b a'
    using table_steps(4) [of e a p ac] that by simp
  show ?thesis
    unfolding migrate_account_def
    by (auto simp: Let_def intro!: effect_intro split: option.split prod.split bool.split
        dest!: store_open_effects [where e = e] move swap intro: effects_trans)
qed

lemma migration_does [handlers_do]: "does e s (h_account_migrate e q body s)"
  unfolding h_account_migrate_def by (auto intro!: effect_intro migrate_does split: option.split sum.split)

section \<open>Requests\<close>

lemma route_does: "does e s (run_route e pattern q body s)"
  unfolding run_route_def Let_def by (simp add: handlers_do does_answer effects_refl)

lemma request_does: "does e s (serve_request e q body s)"
proof -
  have "does e s (route_dispatch e p g q body s)" for p g
    unfolding route_dispatch_def Let_def by (simp add: route_does does_answer effects_refl)
  then have "does e s (case route (e_mux e) (rq_path q) (or_default [] (rq_query q)) of
      Redirect to \<Rightarrow> answer (redirect to) s | NotFound \<Rightarrow> answer mux_not_found s
    | Found p r \<Rightarrow> route_dispatch e p (rs_guard r) q body s)"
    by (simp add: does_answer effects_refl split: routed.split)
  then show ?thesis
    unfolding serve_request_def by (auto simp: does_def Let_def answer_def effects_refl split: prod.split)
qed


section \<open>A running relay\<close>

text \<open>
  The states of a relay: a new one, after opening the configured accounts or finding a provisioned
  one on disk, and after any requests, each in its own environment out of \<open>E\<close> (its own time,
  random bytes and answers of DNS and the anchor).
\<close>

inductive running :: "'k relay_env set \<Rightarrow> relay \<Rightarrow> bool" for E where
  fresh: "running E (relay_new f d)"
| opened: "running E s \<Longrightarrow> e \<in> E \<Longrightarrow> open_stores e s = Some s' \<Longrightarrow> running E s'"
| found: "running E s \<Longrightarrow> e \<in> E \<Longrightarrow> running E (register_dyn_account e l d s)"
| served: "running E s \<Longrightarrow> e \<in> E \<Longrightarrow> running E (snd (serve_request e q body s))"

lemma effects_induct [consumes 1, case_names refl step]:
  assumes "effects e s s'" "P s" "\<And>s1 s2. P s1 \<Longrightarrow> relay_effect e s1 s2 \<Longrightarrow> P s2"
  shows "P s'"
  using assms(1) unfolding effects_def by (induction rule: rtranclp_induct) (use assms(2,3) in auto)

lemma effects_accounts_ok:
  assumes "effects e s s'" "accounts_ok (r_accounts s)"
  shows "accounts_ok (r_accounts s')"
  using assms(1)
proof (induction rule: effects_induct)
  case (step s1 s2)
  have "accounts_ok b" if "table_step e a b" "accounts_ok a" for a b
    using that by (cases rule: table_step.cases) (simp_all add: run_accounts_ok set_store_ok)
  with step(1) step(2) show ?case by (elim relay_effect_cases) auto
qed (rule assms(2))

lemma open_configured_ok:
  "open_configured e als x s = Some s' \<Longrightarrow> accounts_ok (r_accounts s) \<Longrightarrow> accounts_ok (r_accounts s')"
  by (auto simp: open_configured_def store_open_def Let_def insert_ok split: prod.splits option.splits bool.splits)

lemma open_all_ok:
  "open_all e als xs s = Some s' \<Longrightarrow> accounts_ok (r_accounts s) \<Longrightarrow> accounts_ok (r_accounts s')"
  by (induction xs arbitrary: s) (auto simp: bind_eq_Some_conv dest: open_configured_ok)

lemma running_ok: "running E s \<Longrightarrow> accounts_ok (r_accounts s)"
proof (induction rule: running.induct)
  case (opened s e s')
  then show ?case by (simp add: open_stores_def open_all_ok)
next
  case (found s e l d)
  then show ?case by (simp add: effects_accounts_ok [OF register_effects])
next
  case (served s e q body)
  from effects_accounts_ok [OF request_does [unfolded does_def] served.IH] show ?case .
qed (simp add: relay_new_def accounts_new_def accounts_ok_def)

text \<open>
  Mail never goes nowhere: in every state of a relay, whatever requests it served, in whatever
  order and whoever made them, an address it accepts mail for leads to an account that exists and
  is kept under its own primary address.
\<close>

theorem accepted_address_has_account:
  assumes "running E s" "bt_get (a_aliases (r_accounts s)) (lc x) = Some p"
  shows "\<exists>ac. acc_resolve lc (r_accounts s) x = Some ac \<and> acc_email ac = p"
proof -
  note ok = accounts_okD [OF running_ok [OF assms(1)]]
  obtain ac where "bt_get (a_stores (r_accounts s)) p = Some ac" using ok(4) [OF assms(2)] by auto
  with ok(3) [OF this] assms(2) show ?thesis by (simp add: acc_resolve_def)
qed

lemma effects_domains:
  assumes "effects e s s'" "bt_get (r_domains s') d = Some dc" "bt_get (r_domains s) d \<noteq> Some dc"
  shows "valid_custom_domain d \<and> txt_proves_ownership (e_txt e (verify_txt_name d)) (verify_token (e_mac e) (e_cfg e) d) \<and>
    dc = registered_domain_config (e_mac e) (e_cfg e) d"
proof -
  have "bt_get (r_domains s') d = Some dc \<longrightarrow> bt_get (r_domains s) d = Some dc \<or> valid_custom_domain d \<and>
      txt_proves_ownership (e_txt e (verify_txt_name d)) (verify_token (e_mac e) (e_cfg e) d) \<and>
      dc = registered_domain_config (e_mac e) (e_cfg e) d"
    using assms(1)
  proof (induction rule: effects_induct)
    case (step s1 s2)
    from step(2) show ?case
      by (cases rule: relay_effect.cases) (use step(1) in \<open>auto simp: dyn_insert_def split: if_splits\<close>)
  qed simp
  with assms(2,3) show ?thesis by blast
qed

text \<open>
  C35. Only who controls a domain's DNS brings it to the relay: in every state of a relay that
  started without custom domains, each custom domain is a well-formed name, and at the moment of some request its verification
  record held the token the relay derives for it; its settings are the derived ones.
\<close>

theorem custom_domains_are_proved:
  assumes "running E s" "bt_get (r_domains s) d = Some dc"
  shows "valid_custom_domain d \<and>
    (\<exists>e \<in> E. txt_proves_ownership (e_txt e (verify_txt_name d)) (verify_token (e_mac e) (e_cfg e) d) \<and>
       dc = registered_domain_config (e_mac e) (e_cfg e) d)"
  using assms
proof (induction rule: running.induct)
  case (opened s e s')
  have one: "r_domains s2 = r_domains s1" if "open_configured e als x s1 = Some s2" for als x s1 s2
    using that by (auto simp: open_configured_def store_open_def Let_def split: prod.splits option.splits bool.splits)
  have "r_domains s2 = r_domains s1" if "open_all e als xs s1 = Some s2" for als xs s1 s2
    using that by (induction xs arbitrary: s1) (auto simp: bind_eq_Some_conv dest: one)
  with opened show ?case by (auto simp: open_stores_def)
next
  case (found s e l d')
  have "r_domains (register_dyn_account e l d' s) = r_domains s"
    by (auto simp: register_dyn_account_def store_open_def Let_def split: prod.split option.split bool.split)
  with found show ?case by simp
next
  case (served s e q body)
  show ?case
  proof (cases "bt_get (r_domains s) d = Some dc")
    case False
    from effects_domains [OF request_does [unfolded does_def] served.prems False] served.hyps show ?thesis by blast
  qed (rule served.IH)
qed (simp add: relay_new_def)


section \<open>Provisioning\<close>

text \<open>What the checks before an account is made come to.\<close>

definition admitted :: "'k relay_env \<Rightarrow> request \<Rightarrow> string \<Rightarrow> relay \<Rightarrow> provision_request \<Rightarrow> string \<Rightarrow> string \<Rightarrow> bool" where
  "admitted e q body s r d l \<longleftrightarrow>
    rq_method q = ''POST'' \<and> Option.bind (parse_json e body) dec_provision_request = Some r \<and>
    check_request (lower e) (e_anchored e) (e_cfg e) r = Inr () \<and>
    (\<exists>dc. resolve_domain (lower e) (e_cfg e) (r_domains s) (pq_domain r) = Ret (Inr (d, dc)) \<and>
       may_provision (e_cfg e) dc (pq_did r) (pq_secret r) = Inr ()) \<and>
    l = primary_localpart (pq_did r) (lower e (trim (pq_username r))) \<and>
    \<not> name_is_taken (e_files e) (dir_of e d l) (e_data e) d l
      (dyn_acc_contains (lower e) (email_of l d) (r_dyn s) \<or> acc_get (lower e) (r_accounts s) (email_of l d) \<noteq> None) (r_fs s) \<and>
    (\<forall>ac. acc_resolve (lower e) (r_accounts s) (email_of (lower e (trim (pq_username r))) d) = Some ac \<longrightarrow> acc_email ac = email_of l d) \<and>
    anchor_admits e r l d (host_header q) = Inr ()"

lemma answer_eq: "answer p s = (Ret p', s') \<longleftrightarrow> p = p' \<and> s = s'"
  by (auto simp: answer_def)

lemma status_cors [simp]: "rs_status (set_route_cors m h p) = rs_status p"
  by (simp add: set_route_cors_def set_header_def Let_def)

lemma status_text_error [simp]: "rs_status (text_error n m) = n"
  by (simp add: text_error_def set_header_def plain_response_def)

lemma with_cors_Ret: "with_cors m h x = (Ret p, s') \<longleftrightarrow> (\<exists>p0. x = (Ret p0, s') \<and> p = set_route_cors m h p0)"
  by (cases x; cases "fst x") (auto simp: with_cors_def)

definition refused :: "relay \<Rightarrow> reply \<Rightarrow> bool" where
  "refused s x \<longleftrightarrow> snd x = s \<and> (\<forall>p. fst x = Ret p \<longrightarrow> rs_status p \<noteq> 201)"

lemma refused_answer: "rs_status p \<noteq> 201 \<Longrightarrow> refused s (answer p s)"
  by (simp add: refused_def answer_def)

lemma refused_panic: "refused s (Panic, s)"
  by (simp add: refused_def)

lemma refused_cors: "refused s x \<Longrightarrow> refused s (with_cors m h x)"
  by (cases x; cases "fst x") (simp_all add: refused_def with_cors_def)

lemma refusal_not_201: "refusal_status x \<noteq> 201"
  by (cases x) simp_all

lemmas refused_intros = refused_answer refused_panic refused_cors

lemma provision_splits:
  obtains "refused s (h_account_provision e q body s)"
  | r d l where "admitted e q body s r d l"
      "h_account_provision e q body s = with_cors ''POST, OPTIONS'' ''Content-Type''
         (create_account e r (lower e (trim (pq_username r))) l d s)"
proof -
  let ?h = "h_account_provision e q body s"
  note no = refused_intros refusal_not_201
  show thesis
  proof (cases "rq_method q = ''POST''")
    case False
    then have "refused s ?h" by (simp add: h_account_provision_def only_def method_not_allowed_def no)
    then show thesis by (rule that(1))
  next
    case post: True
    show thesis
    proof (cases "Option.bind (parse_json e body) dec_provision_request")
      case None
      then have "refused s ?h" by (simp add: h_account_provision_def only_def post no)
      then show thesis by (rule that(1))
    next
      case req: (Some r)
      note eval = h_account_provision_def only_def post req Let_def try_arg_def
      let ?user = "lower e (trim (pq_username r))" let ?l = "primary_localpart (pq_did r) (lower e (trim (pq_username r)))"
      show thesis
      proof (cases "refused s ?h")
        case False
        have check: "check_request (lower e) (e_anchored e) (e_cfg e) r = Inr ()"
          using False by (cases "check_request (lower e) (e_anchored e) (e_cfg e) r") (simp_all add: eval no)
        obtain d dc where dom: "resolve_domain (lower e) (e_cfg e) (r_domains s) (pq_domain r) = Ret (Inr (d, dc))"
          using False by (auto simp: eval no check split: outcome.splits sum.splits)
        have may: "may_provision (e_cfg e) dc (pq_did r) (pq_secret r) = Inr ()"
          using False by (cases "may_provision (e_cfg e) dc (pq_did r) (pq_secret r)") (simp_all add: eval no check dom)
        let ?taken = "name_is_taken (e_files e) (dir_of e d ?l) (e_data e) d ?l
            (dyn_acc_contains (lower e) (email_of ?l d) (r_dyn s) \<or> acc_get (lower e) (r_accounts s) (email_of ?l d) \<noteq> None) (r_fs s)"
        have free: "\<not> ?taken"
          using False by (intro notI) (simp add: eval no check dom may del: not_None_eq)
        have mine: "acc_email ac = email_of ?l d"
          if "acc_resolve (lower e) (r_accounts s) (email_of ?user d) = Some ac" for ac
          using False that free by (intro ccontr [of "acc_email ac = email_of ?l d"]) (simp add: eval no check dom may del: not_None_eq)
        have theirs: "\<not> (case acc_resolve (lower e) (r_accounts s) (email_of ?user d) of
            None \<Rightarrow> False | Some ac \<Rightarrow> acc_email ac \<noteq> email_of ?l d)"
          using mine by (auto split: option.split)
        have vouch: "vouch_path_of (e_anchored e) (e_cfg e) = ViaAnchor"
          using False free theirs
          by (cases "vouch_path_of (e_anchored e) (e_cfg e)") (simp_all add: eval no check dom may del: not_None_eq)
        have anchor: "anchor_admits e r ?l d (host_header q) = Inr ()"
          using False free theirs vouch
          by (cases "anchor_admits e r ?l d (host_header q)") (simp_all add: eval no check dom may del: not_None_eq)
        have "admitted e q body s r d ?l"
          unfolding admitted_def using post req check dom may free mine anchor by blast
        moreover have "?h = with_cors ''POST, OPTIONS'' ''Content-Type'' (create_account e r ?user ?l d s)"
          using free theirs by (simp add: eval check dom may vouch anchor del: not_None_eq)
        ultimately show thesis by (rule that(2))
      qed (rule that(1))
    qed
  qed
qed

end
