(* ===== verification/ProvisionProps.thy ===== *)
theory ProvisionProps
  imports RelayProps IdentityProps AnchorProps
begin

text \<open>
  Provisioning an account: who gets one, and what becomes of it at the next start. The file
  operations of a new account stay off its token hash, so the sweep does not know it.
\<close>

section \<open>Files that stay as they are\<close>

lemma make_dirs_plain:
  "list_all plain cur \<Longrightarrow> \<forall>c \<in> set cs. CHR ''/'' \<notin> set c \<Longrightarrow> \<forall>k. is_dir f k \<longrightarrow> list_all plain k \<Longrightarrow>
   is_dir (snd (make_dirs cur cs f)) k \<Longrightarrow> list_all plain k"
proof (induction cur cs f rule: make_dirs.induct)
  case (2 cur c cs f)
  have "list_all plain (butlast cur)" using 2(4) by (auto simp: list_all_iff dest: in_set_butlastD)
  moreover have "plain c" if "c \<noteq> []" "c \<noteq> ''.''" "c \<noteq> ''..''" using 2(5) that by (simp add: plain_def)
  ultimately show ?case using 2 by (auto simp: is_dir_add split: if_splits)
qed simp

lemma split_on_pieces: "c \<in> set (split_on x s) \<Longrightarrow> x \<notin> set c"
  by (induction s arbitrary: c) (auto split: list.splits if_splits)

lemma data_at_create_dir:
  assumes "data_at data K f"
  shows "data_at data K (snd (create_dir_all p f))"
proof -
  have "list_all plain k" if "is_dir (snd (create_dir_all p f)) k" for k
  proof (rule make_dirs_plain)
    show "is_dir (snd (make_dirs [] (split_on (CHR ''/'') p) f)) k" using that by (simp add: create_dir_all_def)
    show "\<forall>c \<in> set (split_on (CHR ''/'') p). CHR ''/'' \<notin> set c" using split_on_pieces by blast
  qed (use assms in \<open>simp_all add: data_at_def\<close>)
  with assms show ?thesis by (simp add: data_at_def fs_ok_create_dir create_dir_all_mono locate_create_dir)
qed

lemma data_at_write:
  assumes "data_at data K f" "fs_write v p c f = (b, f')"
  shows "data_at data K f'"
proof -
  have "is_dir f' = is_dir f" using fs_write_cases [OF assms(2)] by auto
  then show ?thesis
    using assms fs_ok_write [OF _ assms(2)] by (simp add: data_at_def locate_def)
qed

text \<open>A path that ends in \<open>t\<close> leads to a file whose name ends in \<open>t\<close>.\<close>

lemma split_on_last:
  "x \<notin> set t \<Longrightarrow> \<exists>cs c. split_on x (s @ t) = cs @ [c @ t]"
proof (induction s)
  case Nil
  then show ?case by (intro exI [of _ "[]"]) (simp add: split_on_none)
next
  case (Cons a s)
  then obtain cs c where "split_on x (s @ t) = cs @ [c @ t]" by blast
  then show ?case
    by (cases "a = x"; cases cs) (auto intro: exI [of _ "[]"] exI [of _ "[] # cs"])
qed

lemma walk_last: "walk d cur (cs @ [c]) = Some k \<Longrightarrow> 2 < length c \<Longrightarrow> \<exists>k0. k = k0 @ [c]"
  by (induction cs arbitrary: cur) (auto split: if_splits)

lemma locate_last:
  assumes "locate f (s @ t) = Some k" "CHR ''/'' \<notin> set t" "2 < length t"
  shows "\<exists>k0 c. k = k0 @ [c @ t]"
proof -
  obtain cs c where "split_on (CHR ''/'') (s @ t) = cs @ [c @ t]" using split_on_last [OF assms(2)] by blast
  with assms(1,3) show ?thesis using walk_last [of "is_dir f" "[]" cs "c @ t" k] by (fastforce simp: locate_def)
qed

lemma write_keeps_other:
  assumes "fs_write v (s @ t) c f = (b, f')" "CHR ''/'' \<notin> set t" "2 < length t" "last t \<noteq> last n"
  shows "bt_get (fs_files f') (k @ [n]) = bt_get (fs_files f) (k @ [n])"
proof -
  have "k' \<noteq> k @ [n]" if "locate f (s @ t) = Some k'" for k'
    using locate_last [OF that assms(2,3)] assms(3,4) by (cases "t = []") (auto simp: last_append)
  then show ?thesis using fs_write_cases [OF assms(1)] by auto
qed

lemma pjoin_ends: "\<exists>s. pjoin p q = s @ q"
  by (auto simp: pjoin_def)

text \<open>Reading a file of an account.\<close>

lemma account_file_read:
  assumes "data_at data K f" "plain d" "plain l" "plain n"
  shows "fs_read f (pjoin (account_dir data d l) n) = bt_get (fs_files f) (K @ [d, l, n])"
proof (cases "locate f (pjoin (account_dir data d l) n)")
  case None
  have "bt_get (fs_files f) (K @ [d, l, n]) = None"
  proof (rule ccontr)
    assume "bt_get (fs_files f) (K @ [d, l, n]) \<noteq> None"
    then obtain c where c: "bt_get (fs_files f) (K @ [d, l, n]) = Some c" by blast
    have ok: "fs_ok f" using assms(1) by (simp add: data_at_def)
    have l: "is_dir f (K @ [d, l])" using fs_okD(5) [OF ok c] by (simp add: butlast_append)
    have "inside K (\<lambda>_. False)" by (simp add: inside_def)
    from locate_child [OF assms(4) locate_account(1,2) [OF assms(1) this l]] None show False by simp
  qed
  with None show ?thesis by (simp add: fs_read_def)
next
  case (Some k)
  from locate_childD [OF assms(4) Some] obtain k1 where 1: "locate f (account_dir data d l) = Some k1" "k = k1 @ [n]" by blast
  from locate_childD [OF assms(3) 1(1) [unfolded account_dir_def]] obtain k2 where
    2: "locate f (pjoin data d) = Some k2" "k1 = k2 @ [l]" by blast
  from locate_childD [OF assms(2) 2(1)] assms(1) have "k2 = K @ [d]" by (auto simp: data_at_def)
  with 1 2 Some show ?thesis by (simp add: fs_read_def)
qed

lemma auth_hash_read:
  assumes "data_at data K f" "plain d" "plain l"
  shows "read_auth_hash v data d l f = or_default [] (map_option (\<lambda>c. trim (case_content (f_print v) (\<lambda>s. s) c))
    (bt_get (fs_files f) (K @ [d, l, ''auth_token_hash''])))"
proof -
  have "plain ''auth_token_hash''" by (simp add: plain_def)
  from account_file_read [OF assms this] show ?thesis
    by (simp add: read_auth_hash_def auth_hash_file_def read_text_def option.map_comp comp_def)
qed


section \<open>A new account has no token hash\<close>

definition still :: "string \<Rightarrow> node_path \<Rightarrow> node_path \<Rightarrow> fs \<Rightarrow> fs \<Rightarrow> bool" where
  "still data K k f f' \<longleftrightarrow> data_at data K f' \<and> (\<forall>j. is_dir f j \<longrightarrow> is_dir f' j) \<and>
    bt_get (fs_files f') (k @ [''auth_token_hash'']) = bt_get (fs_files f) (k @ [''auth_token_hash''])"

named_theorems still_intro

lemma still_refl [still_intro]: "data_at data K f \<Longrightarrow> still data K k f f"
  by (simp add: still_def)

lemma still_create_dir [still_intro]: "still data K k f f' \<Longrightarrow> still data K k f (snd (create_dir_all p f'))"
  by (simp add: still_def data_at_create_dir create_dir_all_mono)

lemma still_write:
  assumes "still data K k f f'" "fs_write v (pjoin p (x @ t)) c f' = (b, f'')"
    "CHR ''/'' \<notin> set t" "2 < length t" "last t \<noteq> CHR ''h''"
  shows "still data K k f f''"
proof -
  obtain s where "pjoin p (x @ t) = (s @ x) @ t" using pjoin_ends [of p "x @ t"] by auto
  from write_keeps_other [OF assms(2) [unfolded this] assms(3,4), of "''auth_token_hash''" k]
  moreover have "is_dir f'' = is_dir f'" using fs_write_cases [OF assms(2)] by auto
  ultimately show ?thesis using assms(1,5) data_at_write [OF _ assms(2)] by (simp add: still_def)
qed

lemma still_account_file:
  assumes "still data K k f f'" "CHR ''/'' \<notin> set n" "2 < length n" "last n \<noteq> CHR ''h''"
  shows "still data K k f (snd (write_account_file v da d l n c f'))"
proof -
  obtain b g where g: "create_dir_all (account_dir da d l) f' = (b, g)" by (metis prod.exhaust)
  then have "still data K k f g" using still_create_dir [OF assms(1), of "account_dir da d l"] by simp
  then have "still data K k f h" if "fs_write v (pjoin (account_dir da d l) n) c g = (b', h)" for b' h
    using still_write [of data K k f g v _ "[]" n] that assms(2-4) by simp
  with \<open>still data K k f g\<close> g show ?thesis
    by (cases b; cases "fs_write v (pjoin (account_dir da d l) n) c g") (simp_all add: write_account_file_def)
qed

lemma still_device [still_intro]:
  assumes "still data K k f f'"
  shows "still data K k f (snd (write_device v da d l q now f'))"
proof -
  obtain b g where g: "create_dir_all (devices_dir (account_dir da d l)) f' = (b, g)" by (metis prod.exhaust)
  then have "still data K k f g" using still_create_dir [OF assms, of "devices_dir (account_dir da d l)"] by simp
  then have "still data K k f h" if "fs_write v (device_file (account_dir da d l) i) c g = (b', h)" for i c b' h
    by (rule still_write [OF _ that [unfolded device_file_def]]) simp_all
  then have "still data K k f (snd (fs_write v (device_file (account_dir da d l) i) c g))" for i c
    by (cases "fs_write v (device_file (account_dir da d l) i) c g") simp
  with \<open>still data K k f g\<close> g show ?thesis
    by (cases b) (simp_all add: write_device_def write_device_key_def)
qed

lemma still_envelope [still_intro]:
  "still data K k f f' \<Longrightarrow> still data K k f (keep_envelope e d l j f')"
  by (auto simp: keep_envelope_def write_envelope_def intro!: still_account_file split: option.split sum.split)

lemma still_aliases [still_intro]:
  "still data K k f f' \<Longrightarrow> still data K k f (snd (write_aliases v da d l as f'))"
  by (auto simp: write_aliases_def intro!: still_account_file)

lemma still_register [still_intro]:
  "still data K k f (r_fs s) \<Longrightarrow> still data K k f (r_fs (register_dyn_account e l d s))"
  using still_create_dir [of data K k f "r_fs s" "pjoin (dir_of e d l) ''messages''"]
  by (auto simp: register_dyn_account_def store_open_def Let_def split: prod.split option.split bool.split)

lemma still_alias_to_primary [still_intro]:
  "still data K k f (r_fs s) \<Longrightarrow> still data K k f (r_fs (alias_to_primary e u l d s))"
  by (simp add: alias_to_primary_def Let_def still_aliases)

lemma make_dirs_reach:
  assumes "\<forall>k. is_dir f k \<longrightarrow> is_dir f (butlast k)" "is_dir f cur" "make_dirs cur cs f = (True, f')"
  shows "\<exists>k. walk (is_dir f') cur cs = Some k \<and> is_dir f' k"
  using assms
proof (induction cur cs f rule: make_dirs.induct)
  case (2 cur c cs f)
  consider "c = [] \<or> c = ''.''" | "c = ''..''" | "c \<noteq> []" "c \<noteq> ''.''" "c \<noteq> ''..''" by blast
  then show ?case
  proof cases
    case 1
    then show ?thesis using 2 by auto
  next
    case 2
    then show ?thesis using "2.IH"(2) "2.prems" by auto
  next
    case 3
    let ?f = "f\<lparr>fs_dirs := bs_add (cur @ [c]) (fs_dirs f)\<rparr>"
    have m: "make_dirs (cur @ [c]) cs ?f = (True, f')" "bt_get (fs_files f) (cur @ [c]) = None"
      using 3 "2.prems"(3) by (auto split: if_splits)
    have "\<forall>k. is_dir ?f k \<longrightarrow> is_dir ?f (butlast k)" using "2.prems"(1,2) by (auto simp: is_dir_add)
    with "2.IH"(3) 3 m obtain k where "walk (is_dir f') (cur @ [c]) cs = Some k" "is_dir f' k"
      by (auto simp: is_dir_add)
    moreover have "is_dir f' (cur @ [c])"
      using make_dirs_mono [of ?f "cur @ [c]" "cur @ [c]" cs] m(1) by (simp add: is_dir_add)
    ultimately show ?thesis using 3 by auto
  qed
qed auto

lemma create_dir_reach:
  "fs_ok f \<Longrightarrow> create_dir_all p f = (True, f') \<Longrightarrow> \<exists>k. locate f' p = Some k \<and> is_dir f' k"
  unfolding create_dir_all_def locate_def by (rule make_dirs_reach) (auto simp: fs_ok_def is_dir_def [of f "[]"])

lemma written_device_dir:
  assumes "data_at data K f" "plain d" "plain l" "write_device v data d l q now f = (True, f')"
  shows "is_dir f' (K @ [d, l])"
proof -
  let ?dir = "devices_dir (account_dir data d l)"
  obtain g where g: "create_dir_all ?dir f = (True, g)"
    and w: "fs_write v (device_file (account_dir data d l) (vr_key q)) (Json (enc_device_key
      \<lparr>dk_id = vr_key q, dk_label = vr_label q, dk_created_at = now\<rparr>)) g = (True, f')"
    using assms(4) by (auto simp: write_device_def write_device_key_def split: prod.splits bool.splits)
  have ok: "data_at data K g" using data_at_create_dir [OF assms(1), of ?dir] g by simp
  obtain k where k: "locate g ?dir = Some k" "is_dir g k"
    using create_dir_reach [OF _ g] assms(1) by (auto simp: data_at_def)
  have n: "plain ''devices''" by (simp add: plain_def)
  from locate_childD [OF n k(1) [unfolded devices_dir_def]] obtain k1 where
    1: "locate g (account_dir data d l) = Some k1" "k = k1 @ [''devices'']" by blast
  from locate_childD [OF assms(3) 1(1) [unfolded account_dir_def]] obtain k2 where
    2: "locate g (pjoin data d) = Some k2" "k1 = k2 @ [l]" by blast
  have "k2 = K @ [d]" using locate_childD [OF assms(2) 2(1)] ok by (auto simp: data_at_def)
  then have "is_dir g (K @ [d, l])"
    using fs_okD(2) [of g k] k(2) ok 1(2) 2(2) by (simp add: data_at_def butlast_append)
  then show ?thesis using fs_write_cases [OF w] by auto
qed

lemma created_account:
  assumes "data_at (e_data e) K (r_fs s)" "plain d" "plain l"
    "create_account e r u l d s = (Ret p, s')" "rs_status p = 201"
  shows "data_at (e_data e) K (r_fs s')" "is_dir (r_fs s') (K @ [d, l])"
    "read_auth_hash v (e_data e) d l (r_fs s') = read_auth_hash v (e_data e) d l (r_fs s)"
proof -
  obtain f where f: "write_device (e_files e) (e_data e) d l (provision_vouch r l d) (e_now e) (r_fs s) = (True, f)"
    and s': "s' = alias_to_primary e u l d (register_dyn_account e l d (s\<lparr>r_fs := keep_envelope e d l (pq_envelope r) f\<rparr>))"
    using assms(4,5) by (auto simp: create_account_def answer_eq internal_error_def Let_def split: prod.splits bool.splits)
  have 1: "still (e_data e) K (K @ [d, l]) (r_fs s) f"
    using still_device [OF still_refl [OF assms(1)]] f by (metis snd_conv)
  then have "data_at (e_data e) K f" by (simp add: still_def)
  then have 2: "still (e_data e) K (K @ [d, l]) f (r_fs s')"
    unfolding s' by (auto intro!: still_intro)
  then show d: "data_at (e_data e) K (r_fs s')" by (simp add: still_def)
  show "is_dir (r_fs s') (K @ [d, l])" using 2 written_device_dir [OF assms(1-3) f] by (simp add: still_def)
  show "read_auth_hash v (e_data e) d l (r_fs s') = read_auth_hash v (e_data e) d l (r_fs s)"
    using 1 2 auth_hash_read [OF assms(1-3)] auth_hash_read [OF d assms(2,3)] by (simp add: still_def)
qed


section \<open>What provisioning asks for, and what becomes of it\<close>

lemma primary_plain: "valid_username u \<Longrightarrow> plain (primary_localpart did u)"
  by (auto simp: primary_localpart_def or_default_def valid_username_plain localpart_plain(2)
      split: sum.split option.split)

lemma provision_refusal_None: "provision_refusal x = None \<longleftrightarrow> x = VOk"
  by (cases x) simp_all

lemma verdict_error_None: "verdict_error x = None \<longleftrightarrow> x = VOk"
  by (cases x) simp_all

text \<open>
  C18. Whatever is sent to \<open>/account/provision\<close>, nothing of the relay changes unless the request reads
  as one, its domain is served and open to it, no account has the name it comes to, the address it
  asks for does not already deliver to another account, and the anchor both recorded the
  identity's claim on the name and vouched for the device.
\<close>

theorem provisioning_needs_consent:
  assumes "h_account_provision e q body s = (x, s')" "s' \<noteq> s"
  shows "\<exists>r d dc l. Option.bind (parse_json e body) dec_provision_request = Some r \<and>
    resolve_domain (lower e) (e_cfg e) (r_domains s) (pq_domain r) = Ret (Inr (d, dc)) \<and>
    may_provision (e_cfg e) dc (pq_did r) (pq_secret r) = Inr () \<and>
    l = primary_localpart (pq_did r) (lower e (trim (pq_username r))) \<and>
    acc_get (lower e) (r_accounts s) (email_of l d) = None \<and> read_auth_hash (e_files e) (e_data e) d l (r_fs s) = [] \<and>
    acc_resolve (lower e) (r_accounts s) (email_of (lower e (trim (pq_username r))) d) \<in>
      {None} \<union> {Some ac |ac. acc_email ac = email_of l d} \<and>
    claim (e_transport e) (anchor_ref_of (e_cfg e)) l d (pq_did r)
      \<lparr>bp_sig = pq_did_sig r, bp_ts = pq_bind_ts r, bp_host = host_header q\<rparr> = VOk \<and>
    anchor_verdict e l d (provision_vouch r l d) = VOk"
proof (cases rule: provision_splits [of s e q body])
  case 1
  with assms show ?thesis by (simp add: refused_def)
next
  case (2 r d l)
  from 2(1) obtain dc where "resolve_domain (lower e) (e_cfg e) (r_domains s) (pq_domain r) = Ret (Inr (d, dc))"
    "may_provision (e_cfg e) dc (pq_did r) (pq_secret r) = Inr ()" by (auto simp: admitted_def)
  with 2(1) show ?thesis
    by (intro exI [of _ r] exI [of _ d] exI [of _ dc] exI [of _ l])
      (auto simp: admitted_def name_is_taken_def anchor_admits_def provision_refusal_None verdict_error_None
        split: option.splits if_splits)
qed

text \<open>
  C34. A relay forgets the accounts it gives out. When \<open>/account/provision\<close> answers 201 the account's
  directory is there, but nothing in it is a token hash: the sweep at the next start, whatever
  custom domains it then knows, removes the directory with every file in it, unless the
  configuration has come to name the account.
\<close>

theorem provisioned_account_is_swept:
  assumes "data_at (e_data e) K (r_fs s)"
    and "h_account_provision e q body s = (Ret p, s')" "rs_status p = 201"
    and "Option.bind (parse_json e body) dec_provision_request = Some r"
    and "resolve_domain (lower e) (e_cfg e) (r_domains s) (pq_domain r) = Ret (Inr (d, dc))"
    and "l = primary_localpart (pq_did r) (lower e (trim (pq_username r)))"
    and "plain d" "d \<notin> {''_domains'', ''_queue''}" "l \<noteq> ''peers''"
    and "\<And>c. domain_config_of (e_cfg e) dyn d = Some c \<Longrightarrow> bt_get (d_accounts c) l = None"
    and "f = snd (cleanup_orphaned_data (e_files e) never_fails (e_cfg e) dyn (e_data e) (r_fs s'))"
  shows "is_dir (r_fs s') (K @ [d, l]) \<and> \<not> is_dir f (K @ [d, l]) \<and> bt_get (fs_files f) (K @ [d, l] @ x) = None"
proof (cases rule: provision_splits [of s e q body])
  case 1
  with assms(2,3) show ?thesis by (simp add: refused_def)
next
  case (2 r' d' l')
  have eq: "r' = r" "d' = d" "l' = l" using 2(1) assms(4-6) by (auto simp: admitted_def)
  note adm = 2(1) [unfolded eq admitted_def]
  have "with_cors ''POST, OPTIONS'' ''Content-Type'' (create_account e r (lower e (trim (pq_username r))) l d s) = (Ret p, s')"
    using 2(2) assms(2) by (simp add: eq)
  then obtain p0 where made: "create_account e r (lower e (trim (pq_username r))) l d s = (Ret p0, s')" "rs_status p0 = 201"
    using assms(3) by (auto simp: with_cors_Ret)
  have "valid_username (lower e (trim (pq_username r)))"
    using adm by (auto simp: check_request_def split: if_splits)
  then have l: "plain l" using assms(6) primary_plain by simp
  note created = created_account [OF assms(1,7) l made]
  have "read_auth_hash (e_files e) (e_data e) d l (r_fs s') = []"
    using created(3) adm by (auto simp: name_is_taken_def)
  then have "\<not> kept (e_files e) (e_cfg e) dyn (e_data e) (r_fs s') d l"
    using assms(8-10) by (auto simp: kept_def)
  then have "swept (e_files e) (e_cfg e) dyn (e_data e) K (r_fs s') (K @ [d, l] @ y)" for y
    using swept_account_iff [OF created(1,2)] by blast
  from this [of "[]"] this [of x] show ?thesis
    using created(2) assms(11) by (simp add: cleanup_prunes [OF created(1)] is_dir_prune get_prune)
qed


section \<open>The hypotheses hold\<close>

definition demo_body :: json where
  "demo_body = JObj [(''device_pub_key'', JStr ''key''), (''device_vouch_sig'', JStr ''sig''), (''did'', JStr ''did:x''),
     (''did_sig'', JStr ''sig''), (''domain'', JStr ''x''), (''username'', JStr ''bob'')]"

definition demo_relay :: "string relay_env" where
  "demo_relay = \<lparr>e_cfg = demo_anchored, e_data = ''d'', e_anchored = True, e_crypto = demo_crypto,
     e_files = \<lparr>f_parse = (\<lambda>s. if s = ''go'' then Some demo_body else None), f_print = (\<lambda>_. []), f_io = (\<lambda>_. None), f_kept = (\<lambda>_. False)\<rparr>,
     e_jenv = demo_env, e_refs = \<lparr>re_dbg = (\<lambda>s. s), re_err = (\<lambda>_. [])\<rparr>, e_hooks = (\<lambda>_. no_hooks), e_wipe = never_fails,
     e_stuck = (\<lambda>_. False), e_os_error = [], e_transport = (\<lambda>_. Some (200, [])), e_txt = (\<lambda>_. []),
     e_mac = (\<lambda>k m. k @ m), e_sha1 = (\<lambda>s. s), e_global = None, e_readable = (\<lambda>_. True), e_packets = Some,
     e_admin_token = [], e_metrics_token = [], e_vapid = \<lparr>va_public = [], va_private = [], va_subscriber = []\<rparr>,
     e_rsa = demo_rsa, e_page = [], e_dashboard = [], e_version = [], e_mux = [], e_now = 100, e_stamp = [],
     e_raw = None, e_fresh = None\<rparr>"

definition demo_post :: request where
  "demo_post = \<lparr>rq_method = ''POST'', rq_path = ''/account/provision'', rq_query = None, rq_headers = []\<rparr>"

definition demo_request :: provision_request where
  "demo_request = \<lparr>pq_username = ''bob'', pq_domain = ''x'', pq_did = ''did:x'', pq_bind_ts = 0, pq_did_sig = ''sig'',
     pq_device_key = ''key'', pq_device_label = [], pq_vouch_ts = 0, pq_vouch_sig = ''sig'', pq_secret = [], pq_envelope = None\<rparr>"

definition demo_provisioned :: reply where
  "demo_provisioned = h_account_provision demo_relay demo_post ''go'' (relay_new demo_fs [])"

lemma demo_decoded: "Option.bind (parse_json demo_relay ''go'') dec_provision_request = Some demo_request"
  by (simp add: parse_json_def demo_relay_def demo_body_def dec_provision_request_def demo_request_def demo_defs eval)


lemmas demo_relay_fields = demo_relay_def demo_request_def demo_anchored_def demo_cfg_def demo_domain_def

lemma demo_name: "primary_localpart ''did:x'' ''bob'' = ''bob''"
  by (simp add: primary_localpart_def webvh_parse_def demo_defs eval)

lemma demo_admitted:
  "check_request (lower demo_relay) (e_anchored demo_relay) (e_cfg demo_relay) demo_request = Inr ()"
  "lower demo_relay (trim (pq_username demo_request)) = ''bob''" "pq_did demo_request = ''did:x''"
  "resolve_domain (lower demo_relay) (e_cfg demo_relay) [] (pq_domain demo_request) = Ret (Inr (''x'', demo_domain))"
  "may_provision (e_cfg demo_relay) demo_domain ''did:x'' (pq_secret demo_request) = Inr ()"
  "vouch_path_of (e_anchored demo_relay) (e_cfg demo_relay) = ViaAnchor"
  "anchor_admits demo_relay demo_request ''bob'' ''x'' host = Inr ()"
  by (simp_all add: check_request_def resolve_domain_def may_provision_def vouch_path_of_def anchor_configured_def
      domain_config_of_def anchor_admits_def claim_def anchor_verdict_def anchor_vouch_def anchor_ref_of_def is_configured_def
      ask_anchor_def valid_username_def lower_def demo_env_def name_char_def provision_vouch_def demo_relay_fields demo_defs eval)

lemma demo_free:
  "\<not> name_is_taken (e_files demo_relay) (dir_of demo_relay ''x'' ''bob'') (e_data demo_relay) ''x'' ''bob'' False demo_fs"
  by (simp add: name_is_taken_def list_device_keys_def dir_of_def demo_relay_fields demo_defs eval)

lemma demo_relay_is: "e_cfg demo_relay = demo_anchored" "e_data demo_relay = ''d''" "e_now demo_relay = 100"
  by (simp_all add: demo_relay_def)

lemma demo_made:
  "\<exists>p0 p s'. create_account demo_relay demo_request ''bob'' ''bob'' ''x'' (relay_new demo_fs []) = (Ret p0, s') \<and>
     rs_status p0 = 201 \<and> demo_provisioned = (Ret p, s') \<and> rs_status p = 201"
proof -
  have "fst (write_device (e_files demo_relay) (e_data demo_relay) ''x'' ''bob'' (provision_vouch demo_request ''bob'' ''x'') 100 demo_fs)"
    by (simp add: write_device_def write_device_key_def provision_vouch_def demo_relay_fields demo_defs eval)
  then obtain f where f: "write_device (e_files demo_relay) (e_data demo_relay) ''x'' ''bob'' (provision_vouch demo_request ''bob'' ''x'') 100
      (r_fs (relay_new demo_fs [])) = (True, f)"
    by (simp add: relay_new_def) (metis (full_types) prod.collapse)
  then obtain p s' where made: "create_account demo_relay demo_request ''bob'' ''bob'' ''x'' (relay_new demo_fs []) = (Ret p, s')" "rs_status p = 201"
    by (simp add: create_account_def answer_def demo_relay_is(3) Let_def json_ok_def json_response_def set_header_def plain_response_def)
  then have "demo_provisioned = with_cors ''POST, OPTIONS'' ''Content-Type'' (Ret p, s')"
    using demo_free by (simp add: demo_provisioned_def h_account_provision_def only_def demo_post_def demo_decoded Let_def
      demo_admitted relay_new_def try_arg_def demo_name dyn_acc_contains_def acc_get_def acc_resolve_def accounts_new_def bs_mem_def)
  with made show ?thesis by (auto simp: with_cors_def)
qed

lemma demo_fs_data: "data_at ''d'' [''d''] demo_fs"
proof -
  have "locate demo_fs ''d'' = Some [''d'']" by (simp add: locate_def demo_is_dir)
  moreover have "\<forall>k. is_dir demo_fs k \<longrightarrow> list_all plain k" by (auto simp: demo_is_dir plain_def)
  ultimately show ?thesis by (simp add: data_at_def demo_fs_ok demo_is_dir)
qed

theorem provisioned_account_is_swept_witness:
  "is_dir (r_fs (snd demo_provisioned)) [''d'', ''x'', ''bob''] \<and>
   \<not> is_dir (snd (cleanup_orphaned_data (e_files demo_relay) never_fails demo_anchored [] ''d'' (r_fs (snd demo_provisioned))))
       [''d'', ''x'', ''bob'']"
proof -
  obtain p s' where made: "demo_provisioned = (Ret p, s')" "rs_status p = 201" using demo_made by blast
  have "bt_get (d_accounts c) ''bob'' = None" if "domain_config_of demo_anchored [] ''x'' = Some c" for c
    using that by (auto simp: domain_config_of_def demo_relay_fields bt_get_def split: option.splits)
  moreover have "data_at ''d'' [''d''] (r_fs (relay_new demo_fs []))"
    using demo_fs_data by (simp add: relay_new_def)
  moreover have "resolve_domain (lower demo_relay) demo_anchored (r_domains (relay_new demo_fs [])) (pq_domain demo_request)
      = Ret (Inr (''x'', demo_domain))"
    using demo_admitted(4) by (simp add: relay_new_def demo_relay_is)
  ultimately have "is_dir (r_fs s') ([''d''] @ [''x'', ''bob'']) \<and>
      \<not> is_dir (snd (cleanup_orphaned_data (e_files demo_relay) never_fails (e_cfg demo_relay) [] (e_data demo_relay) (r_fs s')))
         ([''d''] @ [''x'', ''bob'']) \<and>
      bt_get (fs_files (snd (cleanup_orphaned_data (e_files demo_relay) never_fails (e_cfg demo_relay) [] (e_data demo_relay) (r_fs s'))))
         ([''d''] @ [''x'', ''bob''] @ []) = None"
    by (intro provisioned_account_is_swept [OF _ made(1) [unfolded demo_provisioned_def] made(2) demo_decoded, of _ _ demo_domain])
      (simp_all add: demo_relay_is demo_admitted demo_name plain_def)
  then show ?thesis by (simp add: made(1) demo_relay_is)
qed

theorem provisioning_needs_consent_witness:
  "\<exists>r d l. Option.bind (parse_json demo_relay ''go'') dec_provision_request = Some r \<and>
     l = primary_localpart (pq_did r) (lower demo_relay (trim (pq_username r))) \<and>
     anchor_verdict demo_relay l d (provision_vouch r l d) = VOk"
proof -
  obtain p0 p s' where made: "create_account demo_relay demo_request ''bob'' ''bob'' ''x'' (relay_new demo_fs []) = (Ret p0, s')"
    "rs_status p0 = 201" "demo_provisioned = (Ret p, s')" using demo_made by blast
  have "data_at (e_data demo_relay) [''d''] (r_fs (relay_new demo_fs []))"
    using demo_fs_data by (simp add: relay_new_def demo_relay_is)
  from created_account(2) [OF this _ _ made(1,2)]
  have "is_dir (r_fs s') [''d'', ''x'', ''bob'']" by (simp add: plain_def)
  then have "s' \<noteq> relay_new demo_fs []" by (auto simp: relay_new_def demo_is_dir)
  from provisioning_needs_consent [OF made(3) [unfolded demo_provisioned_def] this] show ?thesis by blast
qed

end
