(* ===== verification/RelayLimits.thy ===== *)
theory RelayLimits
  imports ProvisionProps
begin

text \<open>
  How far an authenticated request reaches: a JMAP call names the account it works on, an alias
  is any address, and the address of a peer key is part of a path.
\<close>

section \<open>JMAP calls\<close>

text \<open>
  C36. A JMAP call runs on the account its arguments name, whoever makes it: with any account's
  credentials, the answer to a single call is what the named account's store answers, and that
  store is what the call made of it. The caller's own account plays no part.
\<close>

theorem any_account_reaches_any_other:
  assumes "jmap_caller e q query s = Ret (Some (d, l))" "rq_method q = ''POST''"
    and "Option.bind (parse_json e body) dec_api_request = Some [JArr [JStr m, args, JStr c]]"
    and "resolve (e_refs e) args [] = Inr args"
    and "acc_get (lower e) (r_accounts s) (account_id_of args) = Some ac"
    and "dispatch (e_jenv e) (e_hooks e ac) (e_stamp e) (account_id_of args) m args (acc_store ac) = (Ret (Inr res), ms)"
  shows "h_jmap_api e q body query s = with_cors ''GET, POST, OPTIONS'' ''Authorization, Content-Type''
    (answer (json_response_raw 200 (print_json e (obj [(''sessionState'', JStr ''0''),
        (''methodResponses'', JArr [JArr [JStr m, res, JStr c]])]) @ [LF]))
      (s\<lparr>r_accounts := set_store (lower e (account_id_of args)) ms (r_accounts s)\<rparr>))"
proof -
  have "relay_handle (e_jenv e) (e_hooks e) (e_stamp e) m args (r_accounts s) =
      (Ret (Inr res), set_store (lower e (account_id_of args)) ms (r_accounts s))"
    using assms(5,6) by (simp add: relay_handle_def lower_def Let_def)
  then have "run_batch (e_refs e) (relay_handle (e_jenv e) (e_hooks e) (e_stamp e)) [JArr [JStr m, args, JStr c]] (r_accounts s) =
      (Ret (obj [(''sessionState'', JStr ''0''), (''methodResponses'', JArr [JArr [JStr m, res, JStr c]])]),
       set_store (lower e (account_id_of args)) ms (r_accounts s))"
    by (simp add: run_batch_def assms(4) str_or_empty_def or_default_def as_array_def as_str_def Let_def)
  with assms(1-3) show ?thesis
    by (simp add: h_jmap_api_def as_jmap_caller_def try_arg_def only_def answer_def)
qed

section \<open>Aliases\<close>

text \<open>
  Adding an alias makes exactly that address deliver to the caller, and any address can be
  added: also one that is another account's primary, whose mail then goes to the caller.
\<close>

theorem alias_takes_any_address:
  assumes "caller e q s = Some (d, l)" "rq_method q = ''POST''"
    and "Option.bind (parse_json e body) dec_alias_request = Some (AliasAdd, a)"
    and "CHR ''@'' \<in> set (lower e (trim a))"
    and "bt_get (a_stores (r_accounts s)) (email_of l d) = Some ac"
    and "lower e (lower e (trim a)) = lower e (trim a)"
    and "h_account_alias e q body s = (x, s')"
  shows "(\<exists>p. x = Ret p \<and> rs_status p = 204) \<and>
    acc_resolve (lower e) (r_accounts s') y =
      (if lower e y = lower e (trim a) then Some ac else acc_resolve (lower e) (r_accounts s) y)"
proof -
  let ?al = "lower e (trim a)"
  let ?t = "(r_accounts s)\<lparr>a_aliases := bt_ins ?al (email_of l d) (a_aliases (r_accounts s))\<rparr>"
  have "add_alias (lower e) ?al (email_of l d) (r_accounts s) = (True, ?t)"
    using assms(5,6) by (simp add: add_alias_def)
  moreover have "?al \<noteq> []" using assms(4) by auto
  ultimately have "x = Ret (set_route_cors ''GET, POST, OPTIONS'' ''Authorization, Content-Type'' no_content)"
    "r_accounts s' = ?t"
    using assms(1-4,7) by (auto simp: h_account_alias_def as_caller_def answer_def with_cors_def Let_def)
  then show ?thesis
    using assms(5) by (simp add: no_content_def plain_response_def acc_resolve_def split: option.split)
qed

section \<open>Peer keys\<close>

lemma make_dirs_sub:
  assumes "fs_ok f" "locate f p = Some k" "is_dir f k" "plain c" "bt_get (fs_files f) (k @ [c]) = None"
  shows "is_dir (snd (create_dir_all (pjoin p c @ ''/'' @ z) f)) (k @ [c])"
proof -
  from plainD [OF assms(4)] obtain as where as: "split_on (CHR ''/'') (pjoin p c) = as @ [c]"
    "split_on (CHR ''/'') p = as \<or> split_on (CHR ''/'') p = as @ [[]]"
    by (metis split_pjoin)
  have w: "walk (is_dir f) [] as = Some k"
    using assms(2) as(2) walk_appendD [of "is_dir f" "[]" as "[[]]" k] by (auto simp: locate_def)
  let ?ds = "c # split_on (CHR ''/'') z"
  have "split_on (CHR ''/'') (pjoin p c @ ''/'' @ z) = as @ ?ds"
    using split_on_append [of "CHR ''/''" "pjoin p c" z] as(1) by simp
  then have "is_dir (snd (create_dir_all (pjoin p c @ ''/'' @ z) f)) = is_dir (snd (make_dirs k ?ds f))"
    using make_dirs_walk [OF assms(1) is_dir_root w assms(3), of ?ds] by (simp add: create_dir_all_def)
  moreover have "is_dir (snd (make_dirs k ?ds f)) (k @ [c])"
    using assms(4,5) make_dirs_mono [of "f\<lparr>fs_dirs := bs_add (k @ [c]) (fs_dirs f)\<rparr>" "k @ [c]"]
    by (auto simp: plain_def is_dir_add)
  ultimately show ?thesis by simp
qed

text \<open>
  The address of a peer key goes into its path unchecked: an account can put any bytes in place of
  the public key of another account of its domain, by an address that climbs out of \<open>peers\<close>.
\<close>

theorem peer_key_overwrites_other_account:
  assumes "data_at (e_data e) K (r_fs s)" "caller e q s = Some (d, l)" "rq_method q = ''PUT''"
    and "query_param q ''addr'' = Ret (Some (''../'' @ x @ ''/pubkey''))"
    and "lower e (''../'' @ x @ ''/pubkey'') = ''../'' @ x @ ''/pubkey''"
    and "plain d" "plain x" "bt_get (fs_files (r_fs s)) (K @ [d, ''peers'']) = None"
    and "fs_read (r_fs s) (pubkey_file (e_data e) d x) = Some key" "f_io (e_files e) (K @ [d, x, ''pubkey.pgp'']) = None"
  shows "fs_read (r_fs (snd (h_pgp_peerkey e q body s))) (pubkey_file (e_data e) d x) = Some (Text body)"
proof -
  have n: "plain ''pubkey.pgp''" by (simp add: plain_def)
  note at = account_file_read [OF _ assms(6,7) n, folded pubkey_file_def]
  have old: "bt_get (fs_files (r_fs s)) (K @ [d, x, ''pubkey.pgp'']) = Some key" using at [OF assms(1)] assms(9) by simp
  have x: "is_dir (r_fs s) (K @ [d, x])"
    using fs_okD(5) [OF _ old] assms(1) by (simp add: data_at_def butlast_append)
  let ?D = "pjoin (e_data e) d" let ?P = "pjoin ?D ''peers''"
  let ?path = "?P @ ''/../'' @ x @ ''/pubkey.pgp''"
  obtain z where z: "?P = z @ ''peers''" using pjoin_ends by blast
  have path: "peer_key_path e d (''../'' @ x @ ''/pubkey'') = ?path"
    unfolding peer_key_path_def assms(5) unfolding z pjoin_def [of "z @ ''peers''"] by (simp add: is_prefix_def is_suffix_def)
  have "split_once (CHR ''/'') (rev ''pubkey.pgp'' @ CHR ''/'' # rev (?P @ ''/../'' @ x)) = Some (rev ''pubkey.pgp'', rev (?P @ ''/../'' @ x))"
    by (rule split_once_first) simp
  then have parent: "path_parent ?path = ?P @ ''/../'' @ x"
    by (simp add: path_parent_def rsplit_once_def)
  let ?f = "snd (create_dir_all (?P @ ''/../'' @ x) (r_fs s))"
  have ok: "data_at (e_data e) K ?f" by (rule data_at_create_dir [OF assms(1)])
  have D: "locate (r_fs s) ?D = Some (K @ [d])" "is_dir (r_fs s) (K @ [d])"
    using assms(1) locate_child [OF assms(6)] fs_okD(2) [of "r_fs s" "K @ [d, x]"] x
    by (auto simp: data_at_def butlast_append)
  have dirs: "is_dir ?f (K @ [d])" "is_dir ?f (K @ [d, x])" "is_dir ?f (K @ [d, ''peers''])"
    using create_dir_all_mono D(2) x
      make_dirs_sub [OF _ D, of "''peers''" "''../'' @ x"] assms(1,8) by (auto simp: data_at_def plain_def)
  have P: "locate ?f ?P = Some (K @ [d, ''peers''])"
    using locate_child [of "''peers''", OF _ locate_create_dir [OF D(1)] dirs(1)] by (simp add: plain_def)
  have "split_on (CHR ''/'') ?path = split_on (CHR ''/'') ?P @ [''..'', x, ''pubkey.pgp'']"
    using assms(7) by (simp add: split_on_append [of "CHR ''/''" ?P "''../'' @ x @ ''/pubkey.pgp''", simplified]
      split_on_append [of "CHR ''/''" x "''pubkey.pgp''", simplified] split_on_plain plain_def)
  then have "locate ?f ?path = walk (is_dir ?f) (K @ [d, ''peers'']) [''..'', x, ''pubkey.pgp'']"
    using P dirs(3) walk_append [of "is_dir ?f" "[]" "split_on (CHR ''/'') ?P"] by (simp add: locate_def)
  also have "\<dots> = Some (K @ [d, x, ''pubkey.pgp''])"
    using dirs(2) assms(7) by (simp add: butlast_append plain_def)
  finally have loc: "locate ?f ?path = Some (K @ [d, x, ''pubkey.pgp''])" .
  let ?g = "put_file (K @ [d, x, ''pubkey.pgp'']) (Some (Text body)) ?f"
  have "\<not> is_dir ?f (K @ [d, x, ''pubkey.pgp''])"
    using fs_okD(3) [of ?f] ok old by (auto simp: data_at_def)
  then have w: "fs_write (e_files e) ?path (Text body) ?f = (True, ?g)"
    using loc dirs(2) assms(10) by (simp add: fs_write_def butlast_append)
  have "r_fs (snd (h_pgp_peerkey e q body s)) = ?g"
    using assms(2-4) by (simp add: h_pgp_peerkey_def as_caller_def try_arg_def or_default_def Let_def
      path [unfolded append.simps] parent [unfolded append.simps] w [unfolded append.simps] with_cors_def answer_def)
  then show ?thesis using at [OF data_at_write [OF ok w]] by simp
qed


section \<open>The hypotheses hold\<close>

text \<open>Two accounts, Ana with a session and Ben with a key, and Ana's requests.\<close>

definition demo_keys :: fs where
  "demo_keys = put_file [''d'', ''x'', ''ben'', ''pubkey.pgp''] (Some (Text ''key'')) demo_pair"

definition demo_shared :: relay where
  "demo_shared = (relay_new demo_keys [])\<lparr>r_accounts := acc_insert ascii_lower (demo_account ''ben@x'') []
     (acc_insert ascii_lower (demo_account ''ana@x'') [] accounts_new)\<rparr>"

definition demo_reads :: "json \<Rightarrow> string relay_env" where
  "demo_reads j = demo_relay\<lparr>e_files := \<lparr>f_parse = (\<lambda>_. Some j), f_print = (\<lambda>_. []), f_io = (\<lambda>_. None), f_kept = (\<lambda>_. False)\<rparr>\<rparr>"

definition demo_ana :: "string \<Rightarrow> string option \<Rightarrow> request" where
  "demo_ana m query = \<lparr>rq_method = m, rq_path = [], rq_query = query, rq_headers = [(''authorization'', ''Basic ana@x:tok'')]\<rparr>"

lemma demo_reads_is [simp]:
  "lower (demo_reads j) = ascii_lower" "e_crypto (demo_reads j) = demo_crypto" "e_cfg (demo_reads j) = demo_anchored"
  "e_data (demo_reads j) = ''d''" "e_now (demo_reads j) = 100" "parse_json (demo_reads j) body = Some j"
  "e_files (demo_reads j) = \<lparr>f_parse = (\<lambda>_. Some j), f_print = (\<lambda>_. []), f_io = (\<lambda>_. None), f_kept = (\<lambda>_. False)\<rparr>"
  by (simp_all add: lower_def parse_json_def demo_reads_def demo_relay_def demo_env_def)

lemma demo_decides: "decide_account (demo_reads j) demo_shared ''ana@x'' ''tok'' = Some ''ana@x''"
  by (simp add: decide_account_def auth_check_def check_session_token_def demo_shared_def demo_keys_def demo_pair_def demo_in_eval
      relay_new_def demo_defs Let_def eval)

lemma demo_ana_calls:
  "caller (demo_reads j) (demo_ana m query) demo_shared = Some (''x'', ''ana'')"
  "jmap_caller (demo_reads j) (demo_ana m query) [] demo_shared = Ret (Some (''x'', ''ana''))"
  using demo_decides [of j]
  by (simp_all add: caller_def jmap_caller_def http_authenticate_def authenticate_jmap_def extract_credentials_def basic_credentials_def
      account_parts_def header_str_def header_char_def demo_ana_def demo_crypto_def byte_def eval)


lemma demo_stores:
  "bt_get (a_stores (r_accounts demo_shared)) ''ana@x'' = Some (demo_account ''ana@x'')"
  "bt_get (a_stores (r_accounts demo_shared)) ''ben@x'' = Some (demo_account ''ben@x'')"
  by (simp_all add: demo_shared_def relay_new_def acc_insert_def demo_account_def)

definition demo_get :: json where
  "demo_get = JObj [(''accountId'', JStr ''ben@x'')]"

definition demo_batch :: json where
  "demo_batch = JObj [(''methodCalls'', JArr [JArr [JStr ''Mailbox/get'', demo_get, JStr ''0'']])]"

theorem any_account_reaches_any_other_witness:
  "\<exists>s'. h_jmap_api (demo_reads demo_batch) (demo_ana ''POST'' None) [] [] demo_shared =
     with_cors ''GET, POST, OPTIONS'' ''Authorization, Content-Type''
       (answer (json_response_raw 200 (print_json (demo_reads demo_batch) (obj [(''sessionState'', JStr ''0''),
          (''methodResponses'', JArr [JArr [JStr ''Mailbox/get'', mailbox_get ''ben@x'' (acc_store (demo_account ''ben@x'')), JStr ''0'']])])
          @ [LF])) s')"
proof -
  have "Option.bind (parse_json (demo_reads demo_batch) []) dec_api_request = Some [JArr [JStr ''Mailbox/get'', demo_get, JStr ''0'']]"
    by (simp add: demo_batch_def dec_api_request_def eval)
  moreover have "resolve (e_refs (demo_reads demo_batch)) demo_get [] = Inr demo_get"
    by (simp add: demo_get_def resolve_def hash_def eval)
  moreover have acc: "account_id_of demo_get = ''ben@x''"
    by (simp add: account_id_of_def demo_get_def as_object_def as_str_def or_default_def bt_get_def)
  moreover have "acc_get (lower (demo_reads demo_batch)) (r_accounts demo_shared) (account_id_of demo_get) = Some (demo_account ''ben@x'')"
    using demo_stores(2) by (simp add: acc_get_def acc eval)
  ultimately show ?thesis
    using any_account_reaches_any_other [where e = "demo_reads demo_batch" and q = "demo_ana ''POST'' None" and body = "[]"
        and m = "''Mailbox/get''" and args = demo_get and c = "''0''", OF demo_ana_calls(2)]
    by (simp add: demo_ana_def dispatch_def reads_def) blast
qed


definition demo_take :: json where
  "demo_take = JObj [(''address'', JStr ''ben@x''), (''op'', JStr ''add'')]"

theorem alias_takes_any_address_witness:
  "acc_resolve ascii_lower (r_accounts (snd (h_account_alias (demo_reads demo_take) (demo_ana ''POST'' None) [] demo_shared))) ''ben@x''
     = Some (demo_account ''ana@x'')"
proof -
  have "Option.bind (parse_json (demo_reads demo_take) []) dec_alias_request = Some (AliasAdd, ''ben@x'')"
    by (simp add: demo_take_def dec_alias_request_def dec_alias_op_def req_def eval)
  moreover have "bt_get (a_stores (r_accounts demo_shared)) (email_of ''ana'' ''x'') = Some (demo_account ''ana@x'')"
    using demo_stores(1) by (simp add: email_of_def)
  ultimately show ?thesis
    using alias_takes_any_address [where e = "demo_reads demo_take" and q = "demo_ana ''POST'' None" and body = "[]"
        and a = "''ben@x''" and ac = "demo_account ''ana@x''" and y = "''ben@x''", OF demo_ana_calls(1) _ _ _ _ _ prod.collapse [symmetric]]
    by (simp add: demo_ana_def eval)
qed

lemma demo_keys_data: "data_at ''d'' [''d''] demo_keys"
proof -
  have dirs: "is_dir demo_keys k \<longleftrightarrow> k \<in> {[], [''d''], [''d'', ''x''], [''d'', ''x'', ''ana''], [''d'', ''x'', ''ana'', ''devices''],
      [''d'', ''x'', ''ana'', ''sessions''], [''d'', ''x'', ''ben'']}" for k
    unfolding demo_keys_def put_file_simps by (auto simp: is_dir_def bs_mem_set demo_pair_def demo_in_eval)
  have "fs_ok demo_keys"
    unfolding fs_ok_def
    by (auto simp: dirs) (auto simp: demo_keys_def demo_pair_def demo_in_eval put_file_def bt_ok_def bt_get_def
        bs_add_def bs_of_def less_char_def byte_def split: if_splits)
  moreover have "locate demo_keys ''d'' = Some [''d'']" by (simp add: locate_def dirs)
  moreover have "\<forall>k. is_dir demo_keys k \<longrightarrow> list_all plain k" by (auto simp: dirs plain_def)
  ultimately show ?thesis by (simp add: data_at_def dirs)
qed

theorem peer_key_overwrites_other_account_witness:
  "fs_read (r_fs (snd (h_pgp_peerkey (demo_reads JNull) (demo_ana ''PUT'' (Some ''addr=../ben/pubkey'')) ''mine'' demo_shared)))
     (pubkey_file ''d'' ''x'' ''ben'') = Some (Text ''mine'')"
proof -
  have "query_param (demo_ana ''PUT'' (Some ''addr=../ben/pubkey'')) ''addr'' = Ret (Some (''../'' @ ''ben'' @ ''/pubkey''))"
    by (simp add: query_param_def demo_ana_def param_of_def percent_decode_def eval)
  moreover have "fs_read (r_fs demo_shared) (pubkey_file ''d'' ''x'' ''ben'') = Some (Text ''key'')"
    by (simp add: pubkey_file_def demo_shared_def relay_new_def demo_keys_def demo_pair_def demo_in_eval demo_defs eval)
  moreover have "bt_get (fs_files (r_fs demo_shared)) ([''d''] @ [''x'', ''peers'']) = None"
    by (simp add: demo_shared_def relay_new_def demo_keys_def demo_pair_def demo_in_eval demo_defs eval)
  moreover have "data_at ''d'' [''d''] (r_fs demo_shared)" using demo_keys_data by (simp add: demo_shared_def relay_new_def)
  ultimately show ?thesis
    using peer_key_overwrites_other_account [of "demo_reads JNull" "[''d'']" demo_shared, OF _ demo_ana_calls(1), of "''PUT''"
      "Some ''addr=../ben/pubkey''" "''ben''" "Text ''key''" "''mine''"]
    by (simp add: demo_ana_def plain_def eval)
qed


theorem accepted_address_has_account_witness:
  "\<exists>ac. acc_resolve ascii_lower (r_accounts (register_dyn_account demo_relay ''bob'' ''x'' (relay_new demo_fs []))) ''Bob@x'' = Some ac \<and>
     acc_email ac = ''bob@x''"
proof -
  have "running {demo_relay} (register_dyn_account demo_relay ''bob'' ''x'' (relay_new demo_fs []))"
    by (rule running.found [OF running.fresh]) simp
  moreover have "bt_get (a_aliases (r_accounts (register_dyn_account demo_relay ''bob'' ''x'' (relay_new demo_fs [])))) (ascii_lower ''Bob@x'') = Some ''bob@x''"
    by (simp add: register_dyn_account_def store_open_def relay_new_def dir_of_def demo_relay_is acc_insert_def account_for_def email_of_def
      read_aliases_def aliases_file_def accounts_new_def demo_defs Let_def eval)
  ultimately show ?thesis by (rule accepted_address_has_account)
qed

text \<open>A domain whose verification record is published.\<close>

definition demo_dns :: "string relay_env" where
  "demo_dns = (demo_reads (JObj [(''domain'', JStr ''ex.am'')]))\<lparr>e_mux := [(''/domain/add'', spec ''/domain/add'' Open)],
     e_txt := (\<lambda>n. if n = verify_txt_name ''ex.am'' then [verify_token (@) demo_anchored ''ex.am''] else [])\<rparr>"

definition demo_add :: request where
  "demo_add = \<lparr>rq_method = ''POST'', rq_path = ''/domain/add'', rq_query = None, rq_headers = []\<rparr>"

theorem custom_domains_are_proved_witness:
  "valid_custom_domain ''ex.am'' \<and>
   bt_get (r_domains (snd (serve_request demo_dns demo_add (Some []) (relay_new demo_fs [])))) ''ex.am'' \<noteq> None"
proof -
  have "route (e_mux demo_dns) ''/domain/add'' [] = Found ''/domain/add'' (spec ''/domain/add'' Open)"
    by (simp add: demo_dns_def route_def match_path_def clean_path_def lexical_clean_def clean_seg_def eval)
  moreover have "r_domains (snd (h_domain_add demo_dns demo_add [] (relay_new demo_fs []))) =
      dyn_insert ''ex.am'' (registered_domain_config (e_mac demo_dns) (e_cfg demo_dns) ''ex.am'') []"
  proof -
    have "Option.bind (parse_json demo_dns []) dec_add_request = Some ''ex.am''"
      by (simp add: parse_json_def demo_dns_def dec_add_request_def eval)
    moreover have "lower demo_dns (trim ''ex.am'') = ''ex.am''" "valid_custom_domain ''ex.am''"
      by (simp_all add: demo_dns_def lower_def demo_env_def demo_reads_def demo_relay_def valid_custom_domain_def label_ok_def
          rsplit_once_def name_char_def is_lower_def byte_def eval)
    moreover have "txt_proves_ownership (e_txt demo_dns (verify_txt_name ''ex.am'')) (verify_token (e_mac demo_dns) (e_cfg demo_dns) ''ex.am'')"
      by (simp add: txt_proves_ownership_def demo_dns_def demo_reads_def demo_relay_def)
    moreover have "r_domains (snd (register_domain demo_dns ''ex.am'' (relay_new demo_fs []))) =
        dyn_insert ''ex.am'' (registered_domain_config (e_mac demo_dns) (e_cfg demo_dns) ''ex.am'') []"
      by (simp add: register_domain_def domain_dir_def demo_dns_def demo_reads_def demo_relay_def relay_new_def answer_def Let_def demo_defs
          eval split: prod.split)
    ultimately show ?thesis
      by (simp add: h_domain_add_def demo_add_def only_def with_cors_def case_prod_beta Let_def)
  qed
  ultimately have "bt_get (r_domains (snd (serve_request demo_dns demo_add (Some []) (relay_new demo_fs [])))) ''ex.am'' \<noteq> None"
    by (simp add: serve_request_def demo_add_def route_dispatch_def run_route_def or_default_def spec_def dyn_insert_def Let_def
        header_str_def case_prod_beta bt_get_def)
  moreover have "running {demo_dns} (snd (serve_request demo_dns demo_add (Some []) (relay_new demo_fs [])))"
    by (rule running.served [OF running.fresh]) simp
  ultimately show ?thesis using custom_domains_are_proved by blast
qed

end
