(* ===== verification/QueueLive.thy ===== *)
theory QueueLive
  imports Queue
begin

text \<open>
  What becomes of a queued message (\<open>queue.rs\<close>): followed from pass to pass until a server takes it
  or its sender is told why none did.
\<close>

section \<open>One message through one pass\<close>

definition same_message :: "entry \<Rightarrow> entry \<Rightarrow> bool" where
  "same_message e e' \<longleftrightarrow> e_id e' = e_id e \<and> e_from e' = e_from e \<and> e_to e' = e_to e"

text \<open>
  \<open>settled r e raw ns\<close>: the attempt on \<open>r\<close> was taken, or it was the last one and \<open>ns\<close> holds the
  notice of its error, if the sender has an account and that account took the notice.
\<close>

definition settled :: "relay \<Rightarrow> entry \<Rightarrow> string \<Rightarrow> (string \<times> string) list \<Rightarrow> bool" where
  "settled r e raw ns \<longleftrightarrow>
    (case attempt_result r e raw of
       Panic \<Rightarrow> False
     | Ret (Inr _) \<Rightarrow> True
     | Ret (Inl err) \<Rightarrow>
         (classify err = Permanent \<or> backoff (attempts e + 1) = None) \<and>
         (case r_resolve r (e_from e) of
            None \<Rightarrow> True
          | Some a \<Rightarrow>
              let n = notice r e (show_error (r_dbg r) err) in r_filed r a n \<longrightarrow> (a, n) \<in> set ns))"

lemma settled_mono: "settled r e raw ns \<Longrightarrow> set ns \<subseteq> set ns' \<Longrightarrow> settled r e raw ns'"
  by (auto simp: settled_def Let_def split: outcome.splits sum.splits option.splits)

lemma retry_one_notices: "retry_one k r e q = Ret q' \<Longrightarrow> set (notices q) \<subseteq> set (notices q')"
  by (auto simp: retry_one_def split: option.splits outcome.splits sum.splits if_splits prod.splits)

lemma retry_all_notices: "retry_all k r es q = Ret q' \<Longrightarrow> set (notices q) \<subseteq> set (notices q')"
proof (induction es arbitrary: q)
  case (Cons e es)
  then obtain q1 where "retry_one k r e q = Ret q1" "retry_all k r es q1 = Ret q'"
    by (auto simp: bind_out_Ret_iff)
  then show ?case using retry_one_notices Cons.IH by blast
qed simp

lemma retry_all_frame:
  "retry_all None r es q = Ret q' \<Longrightarrow> disk_ok (store q) \<Longrightarrow> j \<notin> e_id ` set es \<Longrightarrow>
   disk_ok (store q') \<and> map_of (store q') j = map_of (store q) j"
proof (induction es arbitrary: q)
  case (Cons e es)
  then obtain q1 where q1: "retry_one None r e q = Ret q1" "retry_all None r es q1 = Ret q'"
    by (auto simp: bind_out_Ret_iff)
  show ?case using Cons.IH [OF q1(2)] retry_one_frame [OF q1(1) Cons.prems(2)] Cons.prems(3) by simp
qed simp

lemma retry_one_settles:
  assumes "queued (store q) (e_id e) = Some e" "message_bytes (store q) (e_id e) = Some raw" "retry_one None r e q = Ret q'"
  shows "settled r e raw (notices q') \<or>
    (\<exists>e'. same_message e e' \<and> queued (store q') (e_id e) = Some e' \<and> message_bytes (store q') (e_id e) = Some raw)"
  using retry_one_spec [OF assms]
  by (auto simp: accounted_def settled_def same_message_def new_notices_def Let_def
      split: outcome.splits sum.splits if_splits option.splits)

lemma retry_all_settles:
  "retry_all None r es q = Ret q' \<Longrightarrow> disk_ok (store q) \<Longrightarrow> distinct (map e_id es) \<Longrightarrow> e \<in> set es \<Longrightarrow>
   queued (store q) (e_id e) = Some e \<Longrightarrow> message_bytes (store q) (e_id e) = Some raw \<Longrightarrow>
   settled r e raw (notices q') \<or>
   (\<exists>e'. same_message e e' \<and> queued (store q') (e_id e) = Some e' \<and> message_bytes (store q') (e_id e) = Some raw)"
proof (induction es arbitrary: q)
  case (Cons x es)
  obtain q1 where q1: "retry_one None r x q = Ret q1" "retry_all None r es q1 = Ret q'"
    using Cons.prems(1) by (auto simp: bind_out_Ret_iff)
  note f = retry_one_frame [OF q1(1) Cons.prems(2)]
  show ?case
  proof (cases "x = e")
    case True
    have "e_id e \<notin> e_id ` set es" using Cons.prems(3) True by simp
    then have "map_of (store q') (e_id e) = map_of (store q1) (e_id e)"
      using retry_all_frame [OF q1(2)] f by simp
    from message_other [OF this] show ?thesis
      using retry_one_settles [OF Cons.prems(5,6)] q1(1) True retry_all_notices [OF q1(2)] settled_mono by metis
  next
    case False
    then have e: "e \<in> set es" using Cons.prems(4) by simp
    then have "e_id e \<noteq> e_id x" using Cons.prems(3) by (metis distinct.simps(2) image_eqI list.set_map list.simps(9))
    then have "map_of (store q1) (e_id e) = map_of (store q) (e_id e)" using f by simp
    from message_other [OF this] show ?thesis
      using Cons.IH [OF q1(2) _ _ e] f Cons.prems(3,5,6) by simp
  qed
qed simp

text \<open>The entry an id names carries that id, and is retried once it is due.\<close>

lemma queued_id: "disk_ok d \<Longrightarrow> queued d i = Some e \<Longrightarrow> e_id e = i"
  using disk_okD [of d i] by (auto simp: queued_def dir_ok_def entry_of_def split: option.splits content.splits)

lemma retry_pass_settles:
  assumes "retry_pass None r q = Ret q'" "disk_ok (store q)" "queued (store q) i = Some e"
    "message_bytes (store q) i = Some raw" "next_attempt e \<le> r_now r"
  shows "settled r e raw (notices q') \<or>
    (\<exists>e'. same_message e e' \<and> queued (store q') i = Some e' \<and> message_bytes (store q') i = Some raw)"
proof -
  have i: "e_id e = i" by (rule queued_id [OF assms(2,3)])
  have "e \<in> set (due (store q) (r_now r))"
    using set_load_all [OF assms(2), of e] assms(3,5) i by (simp add: due_def)
  moreover have "distinct (map e_id (due (store q) (r_now r)))"
    using distinct_load_all [OF assms(2)] by (simp add: due_def distinct_map_filter)
  ultimately show ?thesis
    using retry_all_settles [of r _ q q' e raw] assms i by (simp add: retry_pass_def)
qed

section \<open>Passes that do not panic\<close>

text \<open>The loop ends only where the client does: a reply that kills the attempt kills the task.\<close>

definition answered :: "relay \<Rightarrow> bool" where
  "answered r \<longleftrightarrow> (\<forall>e raw. attempt_result r e raw \<noteq> Panic)"

lemma retry_one_runs: "answered r \<Longrightarrow> \<exists>q'. retry_one k r e q = Ret q'"
  by (auto simp: retry_one_def answered_def attempt_result_def split: option.splits outcome.splits sum.splits if_splits prod.splits)

lemma retry_all_runs: "answered r \<Longrightarrow> \<exists>q'. retry_all k r es q = Ret q'"
proof (induction es arbitrary: q)
  case (Cons e es)
  then show ?case using retry_one_runs [OF Cons.prems, of k e q] by auto
qed simp

lemma retry_pass_runs: "answered r \<Longrightarrow> \<exists>q'. retry_pass k r q = Ret q'"
  by (simp add: retry_pass_def retry_all_runs)

lemma retry_passes_runs: "list_all (answered \<circ> snd) ps \<Longrightarrow> \<exists>q'. retry_passes ps q = Ret q'"
proof (induction ps arbitrary: q)
  case (Cons p ps)
  obtain k r where p: "p = (k, r)" by fastforce
  then obtain q1 where "retry_pass k r q = Ret q1" using retry_pass_runs [of r k q] Cons.prems by auto
  then show ?case using Cons p by simp
qed simp

lemma retry_passes_notices: "retry_passes ps q = Ret q' \<Longrightarrow> set (notices q) \<subseteq> set (notices q')"
proof (induction ps arbitrary: q)
  case (Cons p ps)
  obtain k r where p: "p = (k, r)" by fastforce
  then obtain q1 where "retry_pass k r q = Ret q1" "retry_passes ps q1 = Ret q'"
    using Cons.prems by (auto simp: bind_out_Ret_iff)
  then show ?case using Cons.IH retry_all_notices unfolding retry_pass_def by blast
qed simp

section \<open>Every message ends\<close>

lemma passes_settle:
  "tried k t q \<Longrightarrow> spaced t rs \<Longrightarrow> retry_passes (map (\<lambda>r. (None, r)) rs) q = Ret q' \<Longrightarrow>
   queued (store q) i = Some e \<Longrightarrow> message_bytes (store q) i = Some raw \<Longrightarrow> queued (store q') i = None \<Longrightarrow>
   \<exists>r \<in> set rs. \<exists>e'. same_message e e' \<and> settled r e' raw (notices q')"
proof (induction rs arbitrary: k t q e)
  case Nil
  then show ?case by simp
next
  case (Cons r rs)
  obtain q1 where q1: "retry_pass None r q = Ret q1" "retry_passes (map (\<lambda>r. (None, r)) rs) q1 = Ret q'"
    using Cons.prems(3) by (auto simp: bind_out_Ret_iff)
  have ok: "disk_ok (store q)" and "next_attempt e \<le> t" "t \<le> r_now r"
    using Cons.prems(1,2,4) by (auto simp: tried_def)
  then have due: "next_attempt e \<le> r_now r" by simp
  from retry_pass_settles [OF q1(1) ok Cons.prems(4,5) due] show ?case
  proof
    assume "settled r e raw (notices q1)"
    then have "settled r e raw (notices q')" by (rule settled_mono [OF _ retry_passes_notices [OF q1(2)]])
    then show ?thesis by (auto simp: same_message_def)
  next
    assume "\<exists>e'. same_message e e' \<and> queued (store q1) i = Some e' \<and> message_bytes (store q1) i = Some raw"
    then obtain e1 where e1: "same_message e e1" "queued (store q1) i = Some e1" "message_bytes (store q1) i = Some raw" by blast
    have "tried (Suc k) (r_now r + longest_wait) q1"
      using tried_pass [OF Cons.prems(1) _ q1(1)] Cons.prems(2) by simp
    from Cons.IH [OF this _ q1(2) e1(2,3) Cons.prems(6)] Cons.prems(2) e1(1)
    show ?thesis by (fastforce simp: same_message_def)
  qed
qed

text \<open>
  C5. Every queued message ends. Take a queue on a working disk whose entries have between one
  and seven attempts behind them, and seven passes of the retry task, the first when everything
  is due and each at least the longest wait after the one before, on which no reply kills the
  task. Then the task runs through; nothing is queued any more; and for each message that was
  queued there was a pass at which the message, byte for byte and with its envelope unchanged,
  was taken by the servers of its recipients, or at which it was refused for good or for the last
  time: then a notice of that refusal is with the account of the sender, unless there is no such
  account any more or the notice could not be stored in it, which the relay only logs.
\<close>

theorem queued_mail_is_settled:
  assumes "tried 1 t q" "spaced t rs" "length rs = 7" "list_all answered rs"
    "queued (store q) i = Some e" "message_bytes (store q) i = Some raw"
  shows "\<exists>q'. retry_passes (map (\<lambda>r. (None, r)) rs) q = Ret q' \<and> queued (store q') i = None \<and>
    (\<exists>r \<in> set rs. \<exists>e'. same_message e e' \<and> settled r e' raw (notices q'))"
proof -
  have "list_all (answered \<circ> snd) (map (\<lambda>r. (None :: fault, r)) rs)"
    using assms(4) by (simp add: list_all_length)
  then obtain q' where q': "retry_passes (map (\<lambda>r. (None, r)) rs) q = Ret q'" using retry_passes_runs by blast
  have "queued (store q') i = None" by (rule queue_empties [OF assms(1-3) q'])
  with passes_settle [OF assms(1,2) q' assms(5,6)] q' show ?thesis by blast
qed

section \<open>A message whose domain has no exchanger\<close>

lemma demo_tried: "tried 1 5 demo_queue"
proof -
  have "queued demo_disk j = (if j = ''i'' then Some demo_entry else None)" for j
    using demo_disk_facts(1) by (auto simp: queued_def demo_disk_def entry_of_def)
  then show ?thesis using demo_disk_facts by (auto simp: tried_def demo_queue_def demo_entry_def)
qed

lemma demo_passes_facts:
  "spaced 5 demo_passes" "length demo_passes = 7"
  "r \<in> set demo_passes \<Longrightarrow> r_mx r = (\<lambda>_. []) \<and> r_sender r = demo_sender \<and> r_resolve r = Some \<and> r_filed r = (\<lambda>_ _. True)"
  by (auto simp: demo_passes_def demo_relay_def longest_wait_def)

lemma demo_answered: "list_all answered demo_passes"
proof -
  have "attempt_result r e raw \<noteq> Panic" if "r \<in> set demo_passes" for r e raw
    using no_mx_fails [of demo_sender "r_nets r" "e_from e" "e_to e" raw] demo_passes_facts(3) [OF that]
    by (metis attempt_result_def demo_sender_def prod.collapse sender.select_convs(2))
  then show ?thesis by (simp add: list_all_iff answered_def)
qed

lemma demo_unsendable:
  "r \<in> set demo_passes \<Longrightarrow> e_to e = [''v@d''] \<Longrightarrow> attempt_result r e raw = Ret (Inl (NoMx ''d''))"
  by (simp add: attempt_result_def demo_passes_facts(3) deliver_def demo_sender_def eval)

theorem queued_mail_is_settled_witness:
  "\<exists>q'. retry_passes (map (\<lambda>r. (None, r)) demo_passes) demo_queue = Ret q' \<and>
     queued (store demo_queue) ''i'' = Some demo_entry \<and> queued (store q') ''i'' = None \<and> notices q' \<noteq> []"
proof -
  have q: "queued (store demo_queue) ''i'' = Some demo_entry" "message_bytes (store demo_queue) ''i'' = Some ''m''"
    using demo_disk_facts by (simp_all add: demo_queue_def)
  from queued_mail_is_settled [OF demo_tried demo_passes_facts(1,2) demo_answered q]
  obtain q' r e' where a: "retry_passes (map (\<lambda>r. (None, r)) demo_passes) demo_queue = Ret q'"
      "queued (store q') ''i'' = None" "r \<in> set demo_passes" "same_message demo_entry e'"
      "settled r e' ''m'' (notices q')"
    by blast
  have "e_to e' = [''v@d'']" using a(4) by (simp add: same_message_def demo_entry_def)
  from a(5) demo_unsendable [OF a(3) this, of "''m''"] demo_passes_facts(3) [OF a(3)]
  have "notices q' \<noteq> []" by (auto simp: settled_def Let_def)
  with a(1,2) q(1) show ?thesis by blast
qed

end
