(* ===== verification/Maintenance.thy ===== *)
theory Maintenance
  imports Handlers
begin

text \<open>
  The process around the relay: the sweep of unused accounts (\<open>maintenance.rs\<close>, \<open>delivery.rs\<close>) and
  the order in which \<open>main.rs\<close> starts the relay on what earlier runs left.
\<close>

section \<open>When an account was last used\<close>

text \<open>
  A directory with the modification times of its files, in seconds: unreadable, or a time before
  the epoch, is \<open>None\<close>; a directory may be unreadable too.
\<close>

datatype mtree = MFile "int option" | MDir "mtree list option" | MOther

fun latest_in :: "mtree \<Rightarrow> int \<Rightarrow> int" where
  "latest_in (MFile t) l = (case t of None \<Rightarrow> l | Some s \<Rightarrow> max l s)"
| "latest_in (MDir None) l = l"
| "latest_in (MDir (Some es)) l = foldl (\<lambda>l x. latest_in x l) l es"
| "latest_in MOther l = l"

definition last_activity :: "mtree list option \<Rightarrow> int" where
  "last_activity d = latest_in (MDir d) 0"

section \<open>Which accounts go\<close>

datatype keep = ClosedDomain | StaticallyConfigured | Active | ActiveOnAPeer

text \<open>\<open>walks p\<close>: what is at the path \<open>p\<close>, on this machine.\<close>

definition should_purge ::
  "(string \<Rightarrow> mtree list option) \<Rightarrow> config \<Rightarrow> string \<Rightarrow> string \<Rightarrow> string \<Rightarrow> int \<Rightarrow> keep + unit" where
  "should_purge walks cfg data domain localpart cutoff =
    (case bt_get (domains cfg) domain of
       None \<Rightarrow> Inl ClosedDomain
     | Some dc \<Rightarrow>
         if \<not> allow_provision dc then Inl ClosedDomain
         else if bt_get (d_accounts dc) localpart \<noteq> None then Inl StaticallyConfigured
         else if cutoff < last_activity (walks (pjoin (pjoin data domain) localpart)) then Inl Active
         else if list_ex (\<lambda>peer. cutoff < last_activity (walks (pjoin (pjoin peer domain) localpart))) (peer_data_dirs cfg)
         then Inl ActiveOnAPeer
         else Inr ())"

text \<open>The release build wraps at 64 bits.\<close>

definition purge_cutoff :: "int \<Rightarrow> nat \<Rightarrow> int" where
  "purge_cutoff now days = sint (word_of_int now - of_nat days * 24 * 60 * 60 :: 64 word)"

definition directories :: "(string \<times> content option) list \<Rightarrow> string list" where
  "directories es = sort (map fst (filter (\<lambda>(_, c). c = None) es))"

definition purge_in_domain ::
  "(string \<Rightarrow> mtree list option) \<Rightarrow> config \<Rightarrow> string \<Rightarrow> int \<Rightarrow> fs \<Rightarrow> string \<times> domain_config \<Rightarrow> (string \<times> string) list" where
  "purge_in_domain walks cfg data cutoff f d =
    (case d of (domain, dc) \<Rightarrow>
      if \<not> allow_provision dc then []
      else
        (case read_dir f (pjoin data domain) of
           None \<Rightarrow> []
         | Some (_, es) \<Rightarrow>
             map (Pair domain)
               (filter (\<lambda>l. is_ok (should_purge walks cfg data domain l cutoff)) (directories es))))"

definition accounts_to_purge ::
  "(string \<Rightarrow> mtree list option) \<Rightarrow> config \<Rightarrow> string \<Rightarrow> int \<Rightarrow> fs \<Rightarrow> (string \<times> string) list" where
  "accounts_to_purge walks cfg data now f =
    (if inactive_purge_days cfg = 0 then []
     else concat (map (purge_in_domain walks cfg data (purge_cutoff now (inactive_purge_days cfg)) f) (domains cfg)))"

definition purge_account :: "'k relay_env \<Rightarrow> relay \<Rightarrow> string \<times> string \<Rightarrow> relay" where
  "purge_account e s a =
    (case a of (domain, localpart) \<Rightarrow> snd (remove_account_dir e (dir_of e domain localpart) (drop_account e domain localpart s)))"

definition purge_inactive :: "(string \<Rightarrow> mtree list option) \<Rightarrow> 'k relay_env \<Rightarrow> relay \<Rightarrow> relay" where
  "purge_inactive walks e s =
    foldl (purge_account e) s (accounts_to_purge walks (e_cfg e) (e_data e) (e_now e) (all_files s))"

text \<open>
  \<open>spawn_maintenance\<close>: no timer unless the setting is there; the first tick passes without a
  sweep. \<open>ticks\<close>: what each tick finds and the environment it runs in.
\<close>

definition sweeps :: "config \<Rightarrow> ((string \<Rightarrow> mtree list option) \<times> 'k relay_env) list \<Rightarrow> relay \<Rightarrow> relay" where
  "sweeps cfg ticks s =
    (if inactive_purge_days cfg = 0 then s else foldl (\<lambda>s (walks, e). purge_inactive walks e s) s (drop 1 ticks))"

section \<open>Starting\<close>

text \<open>
  The store files of a directory that the sweep of orphaned data removed are gone too.
\<close>

definition boot_cleanup :: "'k relay_env \<Rightarrow> relay \<Rightarrow> string list \<times> relay" where
  "boot_cleanup e s =
    (case cleanup_orphaned_data (e_files e) (e_wipe e) (e_cfg e) (r_domains s) (e_data e) (r_fs s) of
       (gone, f) \<Rightarrow> (gone, s\<lparr>r_fs := f, r_disks := filter (\<lambda>(dir, _). path_exists f dir) (r_disks s)\<rparr>))"

text \<open>The signing keys of the configured domains; a domain without one stops the start.\<close>

fun boot_dkim :: "'k relay_env \<Rightarrow> (string \<Rightarrow> 'k option) \<Rightarrow> (string \<times> domain_config) list \<Rightarrow> fs \<Rightarrow> fs option" where
  "boot_dkim e fresh [] f = Some f"
| "boot_dkim e fresh ((domain, dc) # ds) f =
    (let dir = pjoin (e_data e) domain in
     case create_dir_all dir f of
       (False, _) \<Rightarrow> None
     | (True, f1) \<Rightarrow>
         (case load_or_generate_key (e_rsa e) (e_files e) (fresh domain) dir f1 of
            (None, _) \<Rightarrow> None
          | (Some key, f2) \<Rightarrow>
              boot_dkim e fresh ds (snd (write_record_file (e_rsa e) (e_files e) dir (selector dc) domain key f2))))"

text \<open>
  \<open>run\<close> up to the listeners: \<open>Ret None\<close> where it refuses to start. \<open>keys\<close> and \<open>tokens\<close>: what is
  generated for a domain and for an account.
\<close>

definition boot ::
  "'k relay_env \<Rightarrow> (string \<Rightarrow> 'k option) \<Rightarrow> (string \<Rightarrow> string \<Rightarrow> string option) \<Rightarrow> relay \<Rightarrow> relay option outcome" where
  "boot e keys tokens s =
    (let s1 = s\<lparr>r_domains := dyn_load (e_files e) (r_fs s) (e_data e) (r_domains s)\<rparr>;
         s2 = snd (boot_cleanup e s1) in
     case boot_dkim e keys (domains (e_cfg e)) (r_fs s2) of
       None \<Rightarrow> Ret None
     | Some f \<Rightarrow>
         bind_out (issue_setup_tokens (e_crypto e) (e_files e) (e_cfg e) (e_data e) tokens f) (\<lambda>(_, f').
           Ret (map_option
             (\<lambda>s. scan_dyn_accounts (e_files e) (e_cfg e) (r_domains s) (e_data e) r_fs
                    (\<lambda>localpart domain. register_dyn_account e localpart domain) s)
             (open_stores e (load_push_subscriptions e (s2\<lparr>r_fs := f'\<rparr>))))))"

declare last_activity_def [eval] should_purge_def [eval] directories_def [eval] purge_in_domain_def [eval]
  accounts_to_purge_def [eval] purge_account_def [eval] purge_inactive_def [eval] sweeps_def [eval]
  boot_cleanup_def [eval] boot_def [eval]

end
