(* ===== verification/Autocrypt.thy ===== *)
theory Autocrypt
  imports Handlers Mime
begin

text \<open>
  \<open>autocrypt.rs\<close>: the headers that advertise a key, and the packaging of a message the client has
  encrypted. \<open>pgp.rs\<close>: the keys on disk and the document that is sealed. Reading and writing
  OpenPGP packets and encrypting are arguments.
\<close>

section \<open>OpenPGP\<close>

text \<open>
  \<open>pg_armored\<close>, \<open>pg_packets\<close>: a key out of armoured or binary bytes; \<open>pg_write\<close>: its packets;
  \<open>pg_encrypt\<close>: the armoured message for some keys, of which there is at least one. Each may fail.
\<close>

record 'p pgp =
  pg_armored :: "string \<Rightarrow> 'p option"
  pg_packets :: "string \<Rightarrow> 'p option"
  pg_write :: "'p \<Rightarrow> string option"
  pg_encrypt :: "string \<Rightarrow> 'p list \<Rightarrow> string option"

datatype pgp_error = PgpParse | PgpEncrypt | PgpIo

definition parse_public_key :: "'p pgp \<Rightarrow> string \<Rightarrow> pgp_error + 'p" where
  "parse_public_key g d =
    (case (if is_prefix ''-----BEGIN PGP'' d then pg_armored g d else pg_packets g d) of
       None \<Rightarrow> Inl PgpParse | Some k \<Rightarrow> Inr k)"

definition encrypt_inline :: "'p pgp \<Rightarrow> string \<Rightarrow> 'p list \<Rightarrow> pgp_error + string" where
  "encrypt_inline g plaintext recipients =
    (if recipients = [] then Inl PgpEncrypt
     else (case pg_encrypt g plaintext recipients of None \<Rightarrow> Inl PgpEncrypt | Some c \<Rightarrow> Inr c))"

definition ok_of :: "'e + 'a \<Rightarrow> 'a option" where
  "ok_of r = (case r of Inl _ \<Rightarrow> None | Inr x \<Rightarrow> Some x)"

definition load_account_key :: "'p pgp \<Rightarrow> fenv \<Rightarrow> string \<Rightarrow> fs \<Rightarrow> 'p option" where
  "load_account_key g v dir f =
    Option.bind (fs_read f (pjoin dir ''pubkey.pgp'')) (\<lambda>c. ok_of (parse_public_key g (bytes_of v c)))"

section \<open>Headers\<close>

text \<open>\<open>find\<close>: no place in a message shorter than what is looked for, nor for nothing.\<close>

definition find_bytes :: "string \<Rightarrow> string \<Rightarrow> nat option" where
  "find_bytes haystack needle =
    (if needle = [] \<or> length haystack < length needle then None else find_sub haystack needle)"

definition insert_header :: "string \<Rightarrow> string \<Rightarrow> string" where
  "insert_header raw line =
    (case find_bytes raw (CRLF @ CRLF) of
       None \<Rightarrow> raw
     | Some i \<Rightarrow> take (i + 2) raw @ line @ drop (i + 2) raw)"

definition inject_chat_version :: "string \<Rightarrow> string" where
  "inject_chat_version raw =
    (if find_bytes raw (LF # ''Chat-Version:'') \<noteq> None \<or> is_prefix ''Chat-Version:'' raw then raw
     else insert_header raw (''Chat-Version: 1.0'' @ CRLF))"

definition autocrypt_value :: "string \<Rightarrow> string \<Rightarrow> string" where
  "autocrypt_value from key_data = ''addr='' @ from @ ''; prefer-encrypt=mutual; keydata='' @ key_data"

definition inject_autocrypt :: "string \<Rightarrow> string \<Rightarrow> string \<Rightarrow> string" where
  "inject_autocrypt raw from key_data =
    insert_header raw (''Autocrypt: '' @ autocrypt_value from key_data @ CRLF)"

definition autocrypt_part :: "string \<times> string \<Rightarrow> string \<Rightarrow> string \<times> string" where
  "autocrypt_part acc piece =
    (case split_once (CHR ''='') (trim piece) of
       None \<Rightarrow> acc
     | Some (k, v) \<Rightarrow>
         if trim k = ''addr'' then (trim v, snd acc)
         else if trim k = ''keydata'' then (fst acc, trim v)
         else acc)"

definition parse_autocrypt_header :: "string \<Rightarrow> string \<times> string" where
  "parse_autocrypt_header line = foldl autocrypt_part ([], []) (split_on (CHR '';'') line)"

definition unfold_keydata :: "string \<Rightarrow> string" where
  "unfold_keydata keydata = filter (\<lambda>c. byte c \<notin> {9, 10, 13, 32}) keydata"

section \<open>Wrapping an encrypted body\<close>

text \<open>The name of a header line; bytes that are not UTF-8 have none.\<close>

definition header_name :: "string \<Rightarrow> string" where
  "header_name line = (let n = takeWhile (\<lambda>c. c \<noteq> CHR '':'') line in if utf8_ok n then n else [])"

lemma find_bytes_Some: "find_bytes s p = Some i \<Longrightarrow> 0 < length p \<and> i + length p \<le> length s"
  using find_sub_Some by (auto simp: find_bytes_def split: if_splits)

function split_crlf :: "string \<Rightarrow> string list" where
  "split_crlf rest =
    (case find_bytes rest CRLF of
       Some i \<Rightarrow> take i rest # split_crlf (drop (i + 2) rest)
     | None \<Rightarrow> if rest \<noteq> [] then [rest] else [])"
  by pat_completeness auto
termination
  by (relation "measure length") (auto dest!: find_bytes_Some simp: CRLF_def)

declare split_crlf.simps [simp del]

function replace_all :: "string \<Rightarrow> string \<Rightarrow> string \<Rightarrow> string" where
  "replace_all rest from to =
    (case find_bytes rest from of
       Some i \<Rightarrow> take i rest @ to @ replace_all (drop (i + length from) rest) from to
     | None \<Rightarrow> rest)"
  by pat_completeness auto
termination
  by (relation "measure (\<lambda>(rest, from, to). length rest)") (simp, drule find_bytes_Some, simp del: length_greater_0_conv)

declare replace_all.simps [simp del]

definition pgp_end :: string where
  "pgp_end = ''-----END PGP MESSAGE-----''"

definition describes_body :: "string \<Rightarrow> bool" where
  "describes_body line \<longleftrightarrow>
    eq_ignore_ascii_case (header_name line) ''content-type'' \<or>
    eq_ignore_ascii_case (header_name line) ''content-transfer-encoding''"

text \<open>From the first BEGIN marker to the first END marker after it.\<close>

definition pgp_block :: "string \<Rightarrow> string option" where
  "pgp_block body =
    (case find_bytes body pgp_marker of
       None \<Rightarrow> None
     | Some start \<Rightarrow>
         map_option (\<lambda>e. take (e + length pgp_end) (drop start body)) (find_bytes (drop start body) pgp_end))"

definition pgp_boundary :: "(string \<Rightarrow> string) \<Rightarrow> string \<Rightarrow> string" where
  "pgp_boundary sha1 block = ''biset-pgp-'' @ hex (take 6 (sha1 block))"

definition encrypted_type :: "string \<Rightarrow> string" where
  "encrypted_type b =
    ''multipart/encrypted; protocol='' @ [CHR 0x22] @ ''application/pgp-encrypted'' @ [CHR 0x22] @
    ''; boundary='' @ [CHR 0x22] @ b @ [CHR 0x22]"

definition pgp_mime_wrap_inline :: "(string \<Rightarrow> string) \<Rightarrow> string \<Rightarrow> string option" where
  "pgp_mime_wrap_inline sha1 raw =
    (case find_bytes raw (CRLF @ CRLF) of
       None \<Rightarrow> None
     | Some header_end \<Rightarrow>
         (case pgp_block (drop (header_end + 4) raw) of
            None \<Rightarrow> None
          | Some block \<Rightarrow>
              (let b = pgp_boundary sha1 block in
               Some
                 (concat (map (\<lambda>l. l @ CRLF) (filter (\<lambda>l. \<not> describes_body l) (split_crlf (take header_end raw)))) @
                  ''Content-Type: '' @ encrypted_type b @ CRLF @ CRLF @
                  ''--'' @ b @ CRLF @ ''Content-Type: application/pgp-encrypted'' @ CRLF @ CRLF @
                  ''Version: 1'' @ CRLF @ CRLF @
                  ''--'' @ b @ CRLF @ ''Content-Type: application/octet-stream'' @ CRLF @ CRLF @
                  replace_all block [LF] CRLF @ CRLF @
                  ''--'' @ b @ ''--'' @ CRLF))))"

section \<open>Keys of peers\<close>

text \<open>\<open>un\<close> is the standard base 64 decoder.\<close>

definition store_peer_key ::
  "'p pgp \<Rightarrow> 'k relay_env \<Rightarrow> string \<Rightarrow> string \<Rightarrow> string \<Rightarrow> fs \<Rightarrow> (pgp_error + unit) \<times> fs" where
  "store_peer_key g e domain addr keydata f =
    (case un_std (e_crypto e) (unfold_keydata keydata) of
       None \<Rightarrow> (Inl PgpParse, f)
     | Some raw \<Rightarrow>
         (case parse_public_key g raw of
            Inl x \<Rightarrow> (Inl x, f)
          | Inr _ \<Rightarrow>
              (let path = peer_key_path e domain addr in
               case create_dir_all (path_parent path) f of
                 (False, f1) \<Rightarrow> (Inl PgpIo, f1)
               | (True, f1) \<Rightarrow>
                   (case fs_write (e_files e) path (Text raw) f1 of
                      (b, f2) \<Rightarrow> (if b then Inr () else Inl PgpIo, f2)))))"

definition load_peer_key :: "'p pgp \<Rightarrow> 'k relay_env \<Rightarrow> string \<Rightarrow> string \<Rightarrow> fs \<Rightarrow> 'p option" where
  "load_peer_key g e domain addr f =
    Option.bind (fs_read f (peer_key_path e domain addr)) (\<lambda>c. ok_of (parse_public_key g (bytes_of (e_files e) c)))"

section \<open>The document that is sealed\<close>

text \<open>\<open>chunks(76)\<close>, a line break between two.\<close>

function chunks :: "nat \<Rightarrow> string \<Rightarrow> string list" where
  "chunks n s = (if s = [] \<or> n = 0 then [] else take n s # chunks n (drop n s))"
  by pat_completeness auto
termination
  by (relation "measure (\<lambda>(n, s). length s)") auto

declare chunks.simps [simp del]

definition wrap_base64 :: "string \<Rightarrow> string" where
  "wrap_base64 s = join CRLF (map utf8_lossy (chunks 76 s))"

definition attachment_part :: "(string \<Rightarrow> string) \<Rightarrow> string \<Rightarrow> attachment \<Rightarrow> string" where
  "attachment_part b64 boundary a =
    (let ct = (if at_type a = [] then ''application/octet-stream'' else at_type a);
         name = filter (\<lambda>c. c \<noteq> CHR 0x22) (at_filename a) in
     ''--'' @ boundary @ CRLF @ ''Content-Type: '' @ ct @ CRLF @
     ''Content-Disposition: attachment; filename='' @ [CHR 0x22] @ name @ [CHR 0x22] @ CRLF @
     ''Content-Transfer-Encoding: base64'' @ CRLF @ CRLF @ wrap_base64 (b64 (at_bytes a)) @ CRLF)"

definition build_encrypted_multipart :: "(string \<Rightarrow> string) \<Rightarrow> string \<Rightarrow> attachment list \<Rightarrow> string \<Rightarrow> string" where
  "build_encrypted_multipart b64 txt as boundary =
    ''Content-Type: multipart/mixed; boundary='' @ [CHR 0x22] @ boundary @ [CHR 0x22] @ CRLF @ CRLF @
    ''--'' @ boundary @ CRLF @
    ''Content-Type: text/plain; charset=utf-8'' @ CRLF @ ''Content-Transfer-Encoding: 8bit'' @ CRLF @ CRLF @
    txt @ CRLF @ concat (map (attachment_part b64 boundary) as) @
    ''--'' @ boundary @ ''--''"

text \<open>Sixteen random bytes.\<close>

definition multipart_boundary :: "string \<Rightarrow> string" where
  "multipart_boundary raw = ''biset_'' @ hex raw"

declare parse_public_key_def [eval] encrypt_inline_def [eval] ok_of_def [eval] load_account_key_def [eval]
  find_bytes_def [eval] insert_header_def [eval] inject_chat_version_def [eval] autocrypt_value_def [eval]
  inject_autocrypt_def [eval] autocrypt_part_def [eval] parse_autocrypt_header_def [eval] unfold_keydata_def [eval]
  header_name_def [eval] pgp_end_def [eval] describes_body_def [eval] pgp_block_def [eval] pgp_boundary_def [eval]
  encrypted_type_def [eval] pgp_mime_wrap_inline_def [eval] store_peer_key_def [eval] load_peer_key_def [eval]
  wrap_base64_def [eval] attachment_part_def [eval] build_encrypted_multipart_def [eval] multipart_boundary_def [eval]

end
