(* ===== verification/Submission.thy ===== *)
theory Submission
  imports Queue Autocrypt
begin

text \<open>
  Sending mail: the decisions of \<open>hooks.rs\<close>, the hooks of \<open>submit.rs\<close> that a JMAP client reaches
  through \<open>Email/set\<close> and \<open>EmailSubmission/set\<close>, and \<open>outbound.rs\<close>, which turns a stored message
  into the bytes that are sent.
\<close>

section \<open>What a call draws\<close>

text \<open>
  What the clock, the random source and the walk of the account's directory give one call.
  \<open>dw_error\<close> is the text of a JSON error.
\<close>

record draws =
  dw_listing :: "dir_entry list option"
  dw_stamp :: string
  dw_millis :: int
  dw_nanos :: int
  dw_clock :: datetime
  dw_raw6 :: string
  dw_raw8 :: string
  dw_raw16 :: string
  dw_error :: string

section \<open>Decisions\<close>

definition keyword_e2e :: string where "keyword_e2e = ''$e2e''"
definition keyword_draft :: string where "keyword_draft = ''$draft''"

definition within_storage_cap :: "config \<Rightarrow> dir_entry list option \<Rightarrow> string + unit" where
  "within_storage_cap cfg listing =
    (let cap = max_account_storage_mb cfg in
     if cap = 0 then Inr ()
     else if cap \<le> dir_size_mb listing then Inl (''storage limit reached ('' @ show_nat cap @ ''MB)'')
     else Inr ())"

record draft_defaults =
  dd_id :: "string option"
  dd_message_id :: "string option"

definition draft_defaults :: "draws \<Rightarrow> email \<Rightarrow> string \<Rightarrow> draft_defaults" where
  "draft_defaults w msg domain =
    \<lparr>dd_id = (if m_id msg = [] then Some (new_id (dw_millis w) (hex (dw_raw8 w))) else None),
     dd_message_id =
       (if (case message_id msg of [] \<Rightarrow> True | i # _ \<Rightarrow> i = [])
        then Some (new_rfc_message_id (dw_nanos w) (hex (dw_raw6 w)) domain) else None)\<rparr>"

definition prepare_draft :: "draws \<Rightarrow> email \<Rightarrow> json \<Rightarrow> string \<Rightarrow> string \<Rightarrow> email" where
  "prepare_draft w msg create domain received =
    (let m1 = msg\<lparr>headers := headers msg @ map (\<lambda>(n, v). \<lparr>h_name = n, h_value = v\<rparr>) (extract_text_headers create)\<rparr>;
         d = draft_defaults w m1 domain;
         m2 = (case dd_id d of None \<Rightarrow> m1 | Some i \<Rightarrow> m1\<lparr>m_id := i\<rparr>);
         m3 = (case dd_message_id d of None \<Rightarrow> m2 | Some i \<Rightarrow> m2\<lparr>message_id := [i]\<rparr>) in
     m3\<lparr>received_at := Some received\<rparr>)"

definition reply_only_allows :: "(string \<Rightarrow> string) \<Rightarrow> config \<Rightarrow> string \<Rightarrow> envelope \<Rightarrow> string bset \<Rightarrow> string + unit" where
  "reply_only_allows lc cfg sender v known =
    (if \<not> reply_only_outbound cfg \<or> reply_only_exempt lc cfg sender then Inr ()
     else
       (case find (\<lambda>r. \<not> bs_mem (lc (ea_email r)) known) (env_rcpt_to v) of
          None \<Rightarrow> Inr ()
        | Some r \<Rightarrow> Inl (''reply_only_outbound: '' @ ea_email r @ '' has not sent you a message'')))"

datatype stored_body = AlreadyEncrypted | EncryptToAccountKey | Plaintext

definition stored_body :: "string \<Rightarrow> bool \<Rightarrow> stored_body" where
  "stored_body body has_account_key =
    (if contains body pgp_marker then AlreadyEncrypted
     else if has_account_key then EncryptToAccountKey
     else Plaintext)"

definition seal_stored_body :: "email \<Rightarrow> string \<Rightarrow> email" where
  "seal_stored_body msg ciphertext =
    (let bare = foldl (\<lambda>v p. bt_del (part_id p) v) (body_values msg) (html_body msg);
         sealed = foldl (\<lambda>v p. bt_ins (part_id p) (body_value_default\<lparr>bv_value := ciphertext\<rparr>) v) bare (text_body msg) in
     msg\<lparr>body_values := sealed, html_body := []\<rparr>)"

definition resolve_envelope :: "email \<Rightarrow> envelope \<Rightarrow> string + envelope" where
  "resolve_envelope msg supplied =
    (if env_mail_from supplied \<noteq> None then Inr supplied
     else (case build_envelope msg of None \<Rightarrow> Inl ''no recipients'' | Some v \<Rightarrow> Inr v))"

definition activity_peer :: "envelope \<Rightarrow> string" where
  "activity_peer v = join '','' (map ea_email (env_rcpt_to v))"

definition sent_message_id :: "string \<Rightarrow> string option" where
  "sent_message_id reported =
    (let t = trim_matches [CHR ''<'', CHR ''>''] reported in if t = [] then None else Some t)"

section \<open>Creating a draft\<close>

definition on_create_email ::
  "'k relay_env \<Rightarrow> draws \<Rightarrow> account \<Rightarrow> json \<Rightarrow> mail_store \<Rightarrow> (string + email) \<times> mail_store" where
  "on_create_email e w ac raw ms =
    (case within_storage_cap (e_cfg e) (dw_listing w) of
       Inl x \<Rightarrow> (Inl x, ms)
     | Inr _ \<Rightarrow>
         (case dec_email raw of
            None \<Rightarrow> (Inl (dw_error w), ms)
          | Some m \<Rightarrow>
              (let msg = prepare_draft w m raw (acc_domain ac) (dw_stamp w) in
               (Inr msg, put_pending msg ms))))"

section \<open>Submitting\<close>

text \<open>What the background task is given.\<close>

record send_job =
  jb_outbound :: email
  jb_stored :: email
  jb_envelope :: envelope
  jb_body :: string

text \<open>The copy that stays, for the body it has.\<close>

definition stored_copy :: "'p pgp \<Rightarrow> fenv \<Rightarrow> string \<Rightarrow> fs \<Rightarrow> email \<Rightarrow> email" where
  "stored_copy g v dir f msg =
    (let stored = msg\<lparr>m_keywords := bt_del keyword_draft (m_keywords msg)\<rparr>; body = message_body stored in
     if body = [] then stored
     else
       (let key = load_account_key g v dir f in
        case stored_body body (key \<noteq> None) of
          AlreadyEncrypted \<Rightarrow> stored\<lparr>m_keywords := bt_ins keyword_e2e True (m_keywords stored)\<rparr>
        | EncryptToAccountKey \<Rightarrow>
            (case key of
               None \<Rightarrow> stored
             | Some k \<Rightarrow>
                 (case encrypt_inline g body [k] of
                    Inl _ \<Rightarrow> stored
                  | Inr c \<Rightarrow> seal_stored_body stored (utf8_lossy c)))
        | Plaintext \<Rightarrow> stored))"

definition on_submit_email ::
  "'p pgp \<Rightarrow> 'k relay_env \<Rightarrow> draws \<Rightarrow> fs \<Rightarrow> account \<Rightarrow> email \<Rightarrow> envelope \<Rightarrow> mail_store
   \<Rightarrow> (string + send_job) \<times> mail_store" where
  "on_submit_email g e w f ac msg supplied ms =
    (case within_storage_cap (e_cfg e) (dw_listing w) of
       Inl x \<Rightarrow> (Inl x, ms)
     | Inr _ \<Rightarrow>
         (case resolve_envelope msg supplied of
            Inl x \<Rightarrow> (Inl x, ms)
          | Inr v \<Rightarrow>
              (case (if reply_only_outbound (e_cfg e)
                     then reply_only_allows (lower e) (e_cfg e) (acc_email ac) v
                            (known_correspondents (lower e) (all_emails (j_ts (e_jenv e)) ms))
                     else Inr ()) of
                 Inl x \<Rightarrow> (Inl x, ms)
               | Inr _ \<Rightarrow>
                   (let stored = stored_copy g (e_files e) (acc_dir ac) f msg in
                    case Store.put (j_io (e_jenv e)) stored ms of
                      (Inl x, ms') \<Rightarrow> (Inl x, ms')
                    | (Inr _, ms') \<Rightarrow>
                        (Inr \<lparr>jb_outbound = msg, jb_stored = stored, jb_envelope = v,
                              jb_body = message_body msg\<rparr>, ms')))))"

text \<open>
  \<open>install_hooks\<close>. The hook hands its job to a task of its own (\<open>spawn_send\<close>) and wakes the
  streams of the hub; the store is what the method that called it sees.
\<close>

definition install_hooks :: "'p pgp \<Rightarrow> 'k relay_env \<Rightarrow> draws \<Rightarrow> fs \<Rightarrow> account \<Rightarrow> hooks" where
  "install_hooks g e w f ac =
    no_hooks\<lparr>create_email := Some (on_create_email e w ac),
             submit_email := Some (\<lambda>msg v ms.
               (case on_submit_email g e w f ac msg v ms of
                  (Inl x, ms') \<Rightarrow> (Inl x, ms')
                | (Inr _, ms') \<Rightarrow> (Inr (), ms')))\<rparr>"

section \<open>The bytes that are sent\<close>

text \<open>What writing a message takes beyond the relay's environment.\<close>

record 'p outbound =
  ob_pgp :: "'p pgp"
  ob_mime :: mime_env

definition advertise_key :: "'p outbound \<Rightarrow> 'k relay_env \<Rightarrow> string \<Rightarrow> fs \<Rightarrow> string \<Rightarrow> string \<Rightarrow> string" where
  "advertise_key o' e dir f from raw =
    (case Option.bind (load_account_key (ob_pgp o') (e_files e) dir f) (pg_write (ob_pgp o')) of
       None \<Rightarrow> raw
     | Some packets \<Rightarrow> inject_autocrypt raw from (std (e_crypto e) packets))"

definition wrap_encrypted :: "(string \<Rightarrow> string) \<Rightarrow> string \<Rightarrow> string" where
  "wrap_encrypted sha1 raw =
    (if contains raw pgp_marker then or_default raw (pgp_mime_wrap_inline sha1 raw) else raw)"

definition signing_selector :: "config \<Rightarrow> string \<Rightarrow> string" where
  "signing_selector cfg domain =
    (case bt_get (domains cfg) domain of None \<Rightarrow> default_selector | Some d \<Rightarrow> selector d)"

text \<open>The key is the one in the directory named like the sender's domain.\<close>

definition sign_outbound :: "'k relay_env \<Rightarrow> string \<Rightarrow> string \<Rightarrow> fs \<Rightarrow> string \<times> fs" where
  "sign_outbound e from raw f =
    (case rsplit_once (CHR ''@'') from of
       None \<Rightarrow> (raw, f)
     | Some (_, domain) \<Rightarrow>
         (case load_or_generate_key (e_rsa e) (e_files e) (e_fresh e) (pjoin (e_data e) domain) f of
            (None, f') \<Rightarrow> (raw, f')
          | (Some key, f') \<Rightarrow> (dkim_sign (e_rsa e) raw key domain (signing_selector (e_cfg e) domain), f')))"

definition dump_path :: string where
  "dump_path = ''/tmp/jmapsmtp-last-out.eml''"

text \<open>\<open>send\<close> up to the delivery: the message and its id.\<close>

definition compose ::
  "'p outbound \<Rightarrow> 'k relay_env \<Rightarrow> draws \<Rightarrow> string \<Rightarrow> string \<Rightarrow> email \<Rightarrow> fs \<Rightarrow> (string \<times> string) \<times> fs" where
  "compose o' e w dir from msg f =
    (case build_rfc5322 (ob_mime o') msg (Config.hostname (e_cfg e)) (dw_clock w) (hex (dw_raw6 w)) of
       (built, i) \<Rightarrow>
         (let unsigned = wrap_encrypted (e_sha1 e) (inject_chat_version (advertise_key o' e dir f from built)) in
          case sign_outbound e from unsigned f of
            (raw, f1) \<Rightarrow>
              ((raw, i),
               if debug_dump_eml (e_cfg e) then snd (fs_write (e_files e) dump_path (Text raw) f1) else f1)))"

definition sender_of :: "config \<Rightarrow> sender" where
  "sender_of cfg =
    \<lparr>s_hostname = Config.hostname cfg,
     relay_host = (if Config.relay_host cfg = [] then None else Some (Config.relay_host cfg))\<rparr>"

text \<open>
  \<open>n\<close> and \<open>k\<close>: the network and the failing writes the attempt meets; \<open>i\<close>: the id of a queue entry.
  The result is an error, or what became of the message.
\<close>

definition send ::
  "fault \<Rightarrow> Queue.relay \<Rightarrow> string \<Rightarrow> 'p outbound \<Rightarrow> 'k relay_env \<Rightarrow> draws \<Rightarrow> string \<Rightarrow> email \<Rightarrow> envelope
   \<Rightarrow> fs \<times> Queue.disk \<Rightarrow> (string + send_outcome) outcome \<times> fs \<times> Queue.disk" where
  "send k n i o' e w dir msg v fd =
    (case fd of (f, d) \<Rightarrow>
      (let from = (case env_mail_from v of None \<Rightarrow> [] | Some a \<Rightarrow> ea_email a);
           to = map ea_email (env_rcpt_to v) in
       if to = [] then (Ret (Inl ''no recipients''), f, d)
       else
         (case compose o' e w dir from msg f of
            ((raw, mid), f') \<Rightarrow>
              (case outbound_send k (n\<lparr>r_sender := sender_of (e_cfg e)\<rparr>) i mid from to raw d of
                 (r, d') \<Rightarrow> (r, f', d')))))"

section \<open>The task that sends\<close>

definition put_if_kept :: "'k relay_env \<Rightarrow> string \<Rightarrow> email \<Rightarrow> Relay.relay \<Rightarrow> Relay.relay" where
  "put_if_kept e email m s =
    (case bt_get (a_stores (r_accounts s)) email of
       None \<Rightarrow> s
     | Some ac \<Rightarrow> s\<lparr>r_accounts := set_store email (snd (Store.put (j_io (e_jenv e)) m (acc_store ac))) (r_accounts s)\<rparr>)"

definition sent_event :: "draws \<Rightarrow> send_job \<Rightarrow> string + send_outcome \<Rightarrow> activity_event" where
  "sent_event w j r =
    \<lparr>ev_time = dw_stamp w, ev_dir = ''out'', ev_kind = ''email'', ev_peer = activity_peer (jb_envelope j), ev_msgid = [],
     ev_bytes = int (length (jb_body j)),
     ev_result = (case r of Inl _ \<Rightarrow> activity_word False | Inr x \<Rightarrow> Queue.activity_result x), ev_note = []\<rparr>"

definition log_event :: "'k relay_env \<Rightarrow> account \<Rightarrow> activity_event \<Rightarrow> Relay.relay \<Rightarrow> Relay.relay" where
  "log_event e ac ev s =
    s\<lparr>r_fs := snd (append_activity (e_files e) (e_data e) (acc_domain ac) (acc_localpart ac) ev (r_fs s))\<rparr>"

definition after_send :: "'k relay_env \<Rightarrow> account \<Rightarrow> send_job \<Rightarrow> string + send_outcome \<Rightarrow> Relay.relay \<Rightarrow> Relay.relay" where
  "after_send e ac j r s =
    (case r of
       Inl _ \<Rightarrow> Relay.record_smtp_outbound False s
     | Inr Queued \<Rightarrow> s
     | Inr (Sent mid) \<Rightarrow>
         (let s1 = Relay.record_smtp_outbound True s in
          case Option.bind mid sent_message_id of
            None \<Rightarrow> s1
          | Some i \<Rightarrow>
              (put_if_kept e (acc_email ac) ((jb_stored j)\<lparr>message_id := [i]\<rparr>) s1)\<lparr>r_hub := hub_notify (r_hub s1)\<rparr>))"

text \<open>\<open>spawn_send\<close>: a panic ends the task before it records anything.\<close>

definition spawn_send ::
  "fault \<Rightarrow> Queue.relay \<Rightarrow> string \<Rightarrow> 'p outbound \<Rightarrow> 'k relay_env \<Rightarrow> draws \<Rightarrow> account \<Rightarrow> send_job
   \<Rightarrow> Relay.relay \<times> Queue.disk \<Rightarrow> unit outcome \<times> Relay.relay \<times> Queue.disk" where
  "spawn_send k n i o' e w ac j sd =
    (case sd of (s, d) \<Rightarrow>
      (case send k n i o' e w (acc_dir ac) (jb_outbound j) (jb_envelope j) (r_fs s, d) of
         (Panic, f', d') \<Rightarrow> (Panic, s\<lparr>r_fs := f'\<rparr>, d')
       | (Ret r, f', d') \<Rightarrow>
           (Ret (), after_send e ac j r (log_event e ac (sent_event w j r) (s\<lparr>r_fs := f'\<rparr>)), d')))"

declare within_storage_cap_def [eval] draft_defaults_def [eval] prepare_draft_def [eval] reply_only_allows_def [eval]
  stored_body_def [eval] seal_stored_body_def [eval] resolve_envelope_def [eval] activity_peer_def [eval]
  sent_message_id_def [eval] on_create_email_def [eval] stored_copy_def [eval] on_submit_email_def [eval]
  install_hooks_def [eval] advertise_key_def [eval] wrap_encrypted_def [eval] signing_selector_def [eval]
  sign_outbound_def [eval] dump_path_def [eval] compose_def [eval] sender_of_def [eval] send_def [eval]
  put_if_kept_def [eval] sent_event_def [eval] log_event_def [eval] after_send_def [eval] spawn_send_def [eval]

end
