(* ===== verification/Inbound.thy ===== *)
theory Inbound
  imports Serve Submission
begin

text \<open>
  Receiving mail (\<open>delivery.rs\<close>): the backend that an SMTP session delivers to, on the relay's
  state, and the push notifications (\<open>webpush.rs\<close>) it sends for what arrived.
\<close>

section \<open>One message\<close>

definition delivery_accepts :: "'k relay_env \<Rightarrow> Relay.relay \<Rightarrow> string \<Rightarrow> bool" where
  "delivery_accepts e s rcpt \<longleftrightarrow> acc_resolve (lower e) (r_accounts s) rcpt \<noteq> None"

definition carries_nothing :: "email \<Rightarrow> bool" where
  "carries_nothing m \<longleftrightarrow>
    m_from m = [] \<and> m_sender m = [] \<and> m_to m = [] \<and> cc m = [] \<and>
    trim (subject m) = [] \<and> message_id m = [] \<and>
    list_all (\<lambda>v. trim (bv_value v) = []) (bt_vals (body_values m))"

definition seal_inbound ::
  "'p outbound \<Rightarrow> 'k relay_env \<Rightarrow> draws \<Rightarrow> string \<Rightarrow> fs \<Rightarrow> string \<Rightarrow> email \<Rightarrow> email" where
  "seal_inbound o' e w dir f raw message =
    (let body = message_body message in
     if body = [] then message
     else if contains body pgp_marker then message\<lparr>m_keywords := bt_ins keyword_e2e True (m_keywords message)\<rparr>
     else
       (case load_account_key (ob_pgp o') (e_files e) dir f of
          None \<Rightarrow> message
        | Some key \<Rightarrow>
            (let as = extract_attachments (ob_mime o') raw;
                 plaintext = (if as = [] then body
                   else build_encrypted_multipart (std (e_crypto e)) body as (multipart_boundary (dw_raw16 w))) in
             case encrypt_inline (ob_pgp o') plaintext [key] of
               Inr c \<Rightarrow> seal_stored_body message (utf8_lossy c)
             | Inl _ \<Rightarrow> message)))"

definition inbox_id :: "account \<Rightarrow> string" where
  "inbox_id ac =
    (case find (\<lambda>b. role b = ''inbox'') (mailboxes (acc_store ac)) of
       None \<Rightarrow> make_mailbox_id (acc_email ac) | Some b \<Rightarrow> b_id b)"

text \<open>The message as it is stored, or why it is not.\<close>

definition filed_message ::
  "'p outbound \<Rightarrow> 'k relay_env \<Rightarrow> draws \<Rightarrow> account \<Rightarrow> string \<Rightarrow> fs \<Rightarrow> string + email" where
  "filed_message o' e w ac raw f =
    (case within_storage_cap (e_cfg e) (dw_listing w) of
       Inl x \<Rightarrow> Inl x
     | Inr _ \<Rightarrow>
         (case parse_mime_email (ob_mime o') raw (dw_stamp w) of
            None \<Rightarrow> Inl ''unparseable message''
          | Some m \<Rightarrow>
              if carries_nothing m then Inl ''message carries nothing''
              else
                (let rfc_id = (case message_id m of [] \<Rightarrow> [] | i # _ \<Rightarrow> i) in
                 Inr (seal_inbound o' e w (acc_dir ac) f raw
                   (m\<lparr>m_id := make_message_id rfc_id (acc_email ac) (dw_millis w),
                      received_at := Some (dw_stamp w),
                      mailbox_ids := [(inbox_id ac, True)]\<rparr>)))))"

definition store_message ::
  "'p outbound \<Rightarrow> 'k relay_env \<Rightarrow> draws \<Rightarrow> account \<Rightarrow> string \<Rightarrow> Relay.relay \<Rightarrow> (string + unit) \<times> Relay.relay" where
  "store_message o' e w ac raw s =
    (case filed_message o' e w ac raw (r_fs s) of
       Inl x \<Rightarrow> (Inl x, s)
     | Inr m \<Rightarrow>
         (case Store.put (j_io (e_jenv e)) m (acc_store ac) of
            (r, ms) \<Rightarrow> (r, s\<lparr>r_accounts := set_store (acc_email ac) ms (r_accounts s)\<rparr>)))"

definition received_event :: "draws \<Rightarrow> string \<Rightarrow> nat \<Rightarrow> bool \<Rightarrow> activity_event" where
  "received_event w from n ok =
    \<lparr>ev_time = dw_stamp w, ev_dir = ''in'', ev_kind = ''email'', ev_peer = from, ev_msgid = [], ev_bytes = int n,
     ev_result = activity_word ok, ev_note = []\<rparr>"

definition store_and_log ::
  "'p outbound \<Rightarrow> 'k relay_env \<Rightarrow> draws \<Rightarrow> account \<Rightarrow> string \<Rightarrow> string \<Rightarrow> Relay.relay \<Rightarrow> Relay.relay" where
  "store_and_log o' e w ac from raw s =
    (case store_message o' e w ac raw s of
       (r, s') \<Rightarrow> log_event e ac (received_event w from (length raw) (is_ok r)) s')"

text \<open>\<open>deliver_local\<close>: a notice the relay wrote itself.\<close>

definition deliver_local ::
  "'p outbound \<Rightarrow> 'k relay_env \<Rightarrow> draws \<Rightarrow> account \<Rightarrow> string \<Rightarrow> string \<Rightarrow> Relay.relay \<Rightarrow> Relay.relay" where
  "deliver_local o' e w ac from raw s = store_and_log o' e w ac from raw s"

section \<open>One delivery\<close>

text \<open>The recipients in order, each with what the clock and the directory give at its turn.\<close>

definition deliver_one ::
  "'p outbound \<Rightarrow> 'k relay_env \<Rightarrow> string \<Rightarrow> string \<Rightarrow> Relay.relay \<Rightarrow> string \<times> draws \<Rightarrow> Relay.relay" where
  "deliver_one o' e from raw s rw =
    (case rw of (rcpt, w) \<Rightarrow>
      (case acc_resolve (lower e) (r_accounts s) rcpt of
         None \<Rightarrow> s
       | Some ac \<Rightarrow> store_and_log o' e w ac from raw s))"

definition add_pushed :: "'k relay_env \<Rightarrow> Relay.relay \<Rightarrow> string list \<Rightarrow> string \<Rightarrow> string list" where
  "add_pushed e s pushed rcpt =
    (case acc_resolve (lower e) (r_accounts s) rcpt of
       None \<Rightarrow> pushed
     | Some ac \<Rightarrow> if acc_email ac \<in> set pushed then pushed else pushed @ [acc_email ac])"

text \<open>The state left, and the accounts a push task is started for.\<close>

definition delivery_deliver ::
  "'p outbound \<Rightarrow> 'k relay_env \<Rightarrow> string \<Rightarrow> (string \<times> draws) list \<Rightarrow> string \<Rightarrow> Relay.relay
   \<Rightarrow> string list \<times> Relay.relay" where
  "delivery_deliver o' e from rws raw s =
    (let s1 = foldl (deliver_one o' e from raw) s rws;
         s2 = s1\<lparr>r_hub := hub_notify (r_hub s1)\<rparr> in
     (foldl (add_pushed e s2) [] (map fst rws), s2))"

text \<open>The deliveries of a session, one after the other; \<open>w\<close>: what each is given.\<close>

definition with_draws :: "(nat \<Rightarrow> nat \<Rightarrow> draws) \<Rightarrow> nat \<times> SmtpIn.delivery \<Rightarrow> (string \<times> draws) list" where
  "with_draws w d = (case d of (n, x) \<Rightarrow> map (\<lambda>(i, r). (r, w n i)) (enumerate 0 (d_rcpts x)))"

definition receive_session ::
  "'p outbound \<Rightarrow> 'k relay_env \<Rightarrow> (nat \<Rightarrow> nat \<Rightarrow> draws) \<Rightarrow> (string \<Rightarrow> string) \<Rightarrow> bool \<Rightarrow> string \<Rightarrow> string option
   \<Rightarrow> Relay.relay \<Rightarrow> ending \<times> Relay.relay" where
  "receive_session o' e w uc tls i upgraded s =
    (let x = serve_session (Config.hostname (e_cfg e)) tls (lower e) uc (delivery_accepts e s) i upgraded in
     (finish x,
      foldl (\<lambda>s nd. snd (delivery_deliver o' e (d_from (snd nd)) (with_draws w nd) (d_raw (snd nd)) s)) s
        (enumerate 0 (all_delivered x))))"

section \<open>Push notifications\<close>

text \<open>
  The \<open>web-push\<close> library. \<open>wp_sign\<close>: the VAPID signature for a private key, a subscription and
  claims; \<open>wp_build\<close>: the endpoint, and, where a payload was encrypted, its encoding, its
  headers and its bytes. \<open>wp_send\<close> is the HTTP client: an error, or a status and a body.
\<close>

record push_request =
  pq_endpoint :: string
  pq_headers :: "(string \<times> string) list"
  pq_body :: string

record web_push =
  wp_sign :: "string \<Rightarrow> push_subscription \<Rightarrow> (string \<times> string) list \<Rightarrow> string + string"
  wp_build :: "push_subscription \<Rightarrow> string \<Rightarrow> string \<Rightarrow> nat
    \<Rightarrow> string + (string \<times> (string \<times> (string \<times> string) list \<times> string) option)"
  wp_send :: "push_request \<Rightarrow> string + (nat \<times> string)"

datatype push_delivery = PushSent | PushGone | PushFailed string

definition push_header :: "push_request \<Rightarrow> string \<Rightarrow> string option" where
  "push_header q name = map_option snd (find (\<lambda>(n, _). eq_ignore_ascii_case n name) (pq_headers q))"

definition push_payload :: string where
  "push_payload = ''{'' @ [CHR 0x22] @ ''changed'' @ [CHR 0x22] @ '':{'' @ [CHR 0x22] @ ''urn:ietf:params:jmap:mail'' @
     [CHR 0x22] @ '':null}}''"

definition push_ttl :: nat where
  "push_ttl = 4 * 60 * 60"

definition build_request :: "web_push \<Rightarrow> vapid \<Rightarrow> push_subscription \<Rightarrow> string + push_request" where
  "build_request p v sub =
    (let claims = (if va_subscriber v = [] then [] else [(''sub'', ''mailto:'' @ va_subscriber v)]) in
     case wp_sign p (va_private v) sub claims of
       Inl x \<Rightarrow> Inl x
     | Inr signature \<Rightarrow>
         (case wp_build p sub push_payload signature push_ttl of
            Inl x \<Rightarrow> Inl x
          | Inr (_, None) \<Rightarrow> Inl ''no payload was encrypted''
          | Inr (url, Some (enc, hs, body)) \<Rightarrow>
              Inr \<lparr>pq_endpoint = url,
                   pq_headers = [(''TTL'', show_nat push_ttl), (''Content-Encoding'', enc),
                     (''Content-Type'', ''application/octet-stream'')] @ hs,
                   pq_body = body\<rparr>))"

definition push_classify :: "nat \<Rightarrow> string \<Rightarrow> push_delivery" where
  "push_classify status body =
    (if 200 \<le> status \<and> status \<le> 299 then PushSent
     else if status = 404 \<or> status = 410 then PushGone
     else PushFailed (show_nat status @ '': '' @ trim body))"

definition push_one :: "web_push \<Rightarrow> vapid \<Rightarrow> push_subscription \<Rightarrow> push_delivery" where
  "push_one p v sub =
    (case build_request p v sub of
       Inl x \<Rightarrow> PushFailed x
     | Inr q \<Rightarrow> (case wp_send p q of Inl x \<Rightarrow> PushFailed x | Inr (status, body) \<Rightarrow> push_classify status body))"

definition push_step ::
  "web_push \<Rightarrow> fenv \<Rightarrow> vapid \<Rightarrow> string \<Rightarrow> push_registry \<times> fs \<Rightarrow> push_subscription \<Rightarrow> push_registry \<times> fs" where
  "push_step p v va account rf sub =
    (if push_one p va sub = PushGone then push_remove v account (ps_endpoint sub) rf else rf)"

definition push_notify :: "web_push \<Rightarrow> 'k relay_env \<Rightarrow> string \<Rightarrow> Relay.relay \<Rightarrow> Relay.relay" where
  "push_notify p e account s =
    (let va = e_vapid e in
     if va_public va = [] \<or> va_private va = [] then s
     else
       (case foldl (push_step p (e_files e) va account) (r_push s, r_fs s) (push_for (r_push s) account) of
          (r, f) \<Rightarrow> s\<lparr>r_push := r, r_fs := f\<rparr>))"

declare delivery_accepts_def [eval] carries_nothing_def [eval] seal_inbound_def [eval] inbox_id_def [eval]
  filed_message_def [eval] store_message_def [eval] received_event_def [eval] store_and_log_def [eval]
  deliver_local_def [eval] deliver_one_def [eval] add_pushed_def [eval] delivery_deliver_def [eval]
  with_draws_def [eval] receive_session_def [eval] push_header_def [eval] push_payload_def [eval] push_ttl_def [eval]
  build_request_def [eval] push_classify_def [eval] push_one_def [eval] push_step_def [eval] push_notify_def [eval]

end
