(* ===== verification/SubmissionProps.thy ===== *)
theory SubmissionProps
  imports Submission StoreLog
begin

text \<open>
  What submitting does to the store, to the copy that stays and to the message that goes out.
\<close>

section \<open>Storing\<close>

definition threaded :: "email \<Rightarrow> mail_store \<Rightarrow> email" where
  "threaded m s = (if thread_id m = [] then m\<lparr>thread_id := resolve_thread_id m s\<rparr> else m)"

lemma threaded_sel [simp]:
  "m_id (threaded m s) = m_id m" "body_values (threaded m s) = body_values m" "text_body (threaded m s) = text_body m"
  "html_body (threaded m s) = html_body m" "preview (threaded m s) = preview m" "m_keywords (threaded m s) = m_keywords m"
  "message_id (threaded m s) = message_id m" "mailbox_ids (threaded m s) = mailbox_ids m"
  "message_body (threaded m s) = message_body m"
  by (simp_all add: threaded_def message_body_def split: list.split)

lemma write_file_done: "write_file io p c s = (Inr u, t) \<Longrightarrow> t = s\<lparr>disk := bt_ins p c (disk s)\<rparr>"
  by (auto simp: write_file_def split: option.splits)

lemma save_state_disk: "p \<noteq> ''delta.json'' \<Longrightarrow> bt_get (disk (save_state io s)) p = bt_get (disk s) p"
  by (auto simp: save_state_def write_file_def split: option.split)

lemma msg_path_not_state: "msg_path i \<noteq> ''delta.json''"
  by (simp add: msg_path_def)

lemma put_done:
  assumes "Store.put io m s = (Inr u, t)"
  shows "msgs t = bt_ins (m_id m) (threaded m s) (msgs s)"
    "bt_get (disk t) (msg_path (m_id m)) = Some (enc_email (threaded m s))"
    "Store.pending t = Store.pending s"
proof -
  obtain r s1 where w: "write_file io (msg_path (m_id m)) (enc_email (threaded m s)) s = (r, s1)" by fastforce
  have p: "Store.put io m s =
    (case (r, s1) of
       (Inl e, s1) \<Rightarrow> (Inl e, s1)
     | (Inr _, s1) \<Rightarrow>
         (Inr (), if bt_get (msgs s1) (m_id m) \<noteq> None then s1\<lparr>msgs := bt_ins (m_id m) (threaded m s) (msgs s1)\<rparr>
                  else bump io \<lparr>added = [m_id m], updated = [], removed = []\<rparr> (s1\<lparr>msgs := bt_ins (m_id m) (threaded m s) (msgs s1)\<rparr>)))"
    using w unfolding Store.put_def threaded_def [symmetric] Let_def threaded_sel by simp
  with assms obtain v where r: "r = Inr v" by (cases r) auto
  have s1: "s1 = s\<lparr>disk := bt_ins (msg_path (m_id m)) (enc_email (threaded m s)) (disk s)\<rparr>"
    using write_file_done w r by blast
  show "msgs t = bt_ins (m_id m) (threaded m s) (msgs s)"
    "bt_get (disk t) (msg_path (m_id m)) = Some (enc_email (threaded m s))" "Store.pending t = Store.pending s"
    using p assms r s1 by (auto simp: bump_def save_state_disk msg_path_not_state split: if_splits)
qed

lemma put_works: "io (msg_path (m_id m)) = None \<Longrightarrow> \<exists>t. Store.put io m s = (Inr (), t)"
  by (cases "thread_id m = []") (simp_all add: Store.put_def Let_def write_file_def)

lemma put_fails: "Store.put io m s = (Inl x, t) \<Longrightarrow> msgs t = msgs s \<and> Store.pending t = Store.pending s"
  by (auto simp: Store.put_def Let_def write_file_def split: option.splits prod.splits sum.splits)

section \<open>The copy that stays\<close>

definition sealed_value :: "string \<Rightarrow> body_value" where
  "sealed_value c = body_value_default\<lparr>bv_value := c\<rparr>"

lemma bt_get_inserted:
  "bt_get (foldl (\<lambda>v p. bt_ins (part_id p) x v) m ps) k = (if k \<in> part_id ` set ps then Some x else bt_get m k)"
  by (induction ps arbitrary: m) auto

lemma bt_get_deleted:
  "bt_get (foldl (\<lambda>v p. bt_del (part_id p) v) m ps) k = (if k \<in> part_id ` set ps then None else bt_get m k)"
  by (induction ps arbitrary: m) auto

lemma sealed_values:
  "bt_get (body_values (seal_stored_body m c)) k =
    (if k \<in> part_id ` set (text_body m) then Some (sealed_value c)
     else if k \<in> part_id ` set (html_body m) then None
     else bt_get (body_values m) k)"
  by (simp add: seal_stored_body_def Let_def bt_get_inserted bt_get_deleted sealed_value_def)

lemma sealed_sel [simp]:
  "text_body (seal_stored_body m c) = text_body m" "html_body (seal_stored_body m c) = []"
  "m_id (seal_stored_body m c) = m_id m" "preview (seal_stored_body m c) = preview m"
  "m_keywords (seal_stored_body m c) = m_keywords m" "mailbox_ids (seal_stored_body m c) = mailbox_ids m"
  "thread_id (seal_stored_body m c) = thread_id m" "message_id (seal_stored_body m c) = message_id m"
  by (simp_all add: seal_stored_body_def Let_def)

lemma sealed_body: "message_body m \<noteq> [] \<Longrightarrow> message_body (seal_stored_body m c) = c"
  by (cases "text_body m") (simp_all add: message_body_def sealed_values sealed_value_def)

text \<open>An accepted submission: what held, and what it leaves.\<close>

lemma submitted:
  assumes "on_submit_email g e w f ac msg supplied ms = (Inr job, ms')"
  shows "resolve_envelope msg supplied = Inr (jb_envelope job)" "jb_outbound job = msg"
    "jb_stored job = stored_copy g (e_files e) (acc_dir ac) f msg" "jb_body job = message_body msg"
    "Store.put (j_io (e_jenv e)) (jb_stored job) ms = (Inr (), ms')"
    "reply_only_outbound (e_cfg e) \<Longrightarrow>
      reply_only_allows (lower e) (e_cfg e) (acc_email ac) (jb_envelope job)
        (known_correspondents (lower e) (all_emails (j_ts (e_jenv e)) ms)) = Inr ()"
  using assms by (auto simp: on_submit_email_def Let_def split: sum.splits prod.splits if_splits)

lemma stored_copy_id [simp]: "m_id (stored_copy g v dir f msg) = m_id msg"
  by (auto simp: stored_copy_def Let_def split: stored_body.split option.split sum.split)

lemma stored_copy_cases:
  assumes "message_body msg \<noteq> []" "load_account_key g v dir f = Some key"
  shows "stored_copy g v dir f msg =
    (let m = msg\<lparr>m_keywords := bt_del keyword_draft (m_keywords msg)\<rparr> in
     if contains (message_body msg) pgp_marker then m\<lparr>m_keywords := bt_ins keyword_e2e True (m_keywords m)\<rparr>
     else (case encrypt_inline g (message_body msg) [key] of Inr c \<Rightarrow> seal_stored_body m (utf8_lossy c) | Inl _ \<Rightarrow> m))"
proof -
  have b: "message_body (msg\<lparr>m_keywords := k\<rparr>) = message_body msg" for k by (simp add: message_body_def split: list.split)
  show ?thesis using assms b by (simp add: stored_copy_def Let_def stored_body_def)
qed

text \<open>
  C9. What the relay can still read of a message its user sends with a key on file. The copy it
  keeps is the one on disk, and the message that goes out is the one the client submitted. When the
  text does not contain the line that opens an armoured block and encrypting it works, the text
  parts of the copy hold the ciphertext and the HTML parts nothing, and every other body value, of
  an attachment for instance, stays as the client sent it and readable. When encrypting fails or
  the text contains that line, all body values stay. A preview and the subject stay always.
\<close>

theorem submitted_copy_is_sealed:
  assumes "on_submit_email g e w f ac msg supplied ms = (Inr job, ms')"
    "message_body msg \<noteq> []" "load_account_key g (e_files e) (acc_dir ac) f = Some key"
  shows "\<exists>kept. get_email (m_id msg) ms' = Some kept \<and>
    bt_get (disk ms') (msg_path (m_id msg)) = Some (enc_email kept) \<and> jb_outbound job = msg \<and>
    preview kept = preview msg \<and> subject kept = subject msg \<and>
    (if contains (message_body msg) pgp_marker
     then body_values kept = body_values msg \<and> bt_get (m_keywords kept) keyword_e2e = Some True
     else (case encrypt_inline g (message_body msg) [key] of
       Inr c \<Rightarrow> message_body kept = utf8_lossy c \<and> html_body kept = [] \<and>
         (\<forall>k. bt_get (body_values kept) k =
           (if k \<in> part_id ` set (text_body msg) then Some (sealed_value (utf8_lossy c))
            else if k \<in> part_id ` set (html_body msg) then None
            else bt_get (body_values msg) k))
     | Inl _ \<Rightarrow> body_values kept = body_values msg))"
proof -
  let ?m = "msg\<lparr>m_keywords := bt_del keyword_draft (m_keywords msg)\<rparr>"
  let ?kept = "threaded (stored_copy g (e_files e) (acc_dir ac) f msg) ms"
  note cases = stored_copy_cases [OF assms(2,3)]
  have b: "message_body ?m = message_body msg" by (simp add: message_body_def split: list.split)
  have put: "Store.put (j_io (e_jenv e)) (stored_copy g (e_files e) (acc_dir ac) f msg) ms = (Inr (), ms')"
    using submitted(3,5) [OF assms(1)] by simp
  have frame: "preview ?kept = preview msg" "subject ?kept = subject msg"
    by (simp_all add: cases Let_def threaded_def seal_stored_body_def split: sum.split)
  have cond: "if contains (message_body msg) pgp_marker
     then body_values ?kept = body_values msg \<and> bt_get (m_keywords ?kept) keyword_e2e = Some True
     else (case encrypt_inline g (message_body msg) [key] of
       Inr c \<Rightarrow> message_body ?kept = utf8_lossy c \<and> html_body ?kept = [] \<and>
         (\<forall>k. bt_get (body_values ?kept) k =
           (if k \<in> part_id ` set (text_body msg) then Some (sealed_value (utf8_lossy c))
            else if k \<in> part_id ` set (html_body msg) then None
            else bt_get (body_values msg) k))
     | Inl _ \<Rightarrow> body_values ?kept = body_values msg)"
    using sealed_body [of ?m] assms(2) b by (simp add: cases Let_def sealed_values split: sum.split)
  show ?thesis
    using put_done(1,2) [OF put] submitted(2) [OF assms(1)] frame cond
    by (intro exI [of _ ?kept]) (simp add: get_email_def)
qed

section \<open>Refusals\<close>

lemma find_none: "find P xs = None \<Longrightarrow> x \<in> set xs \<Longrightarrow> \<not> P x"
  by (simp add: find_None_iff)

text \<open>C19. Where replies only are allowed, an account that is not exempt sends to nobody but the
  senders of messages it has stored.\<close>

theorem reply_only_reaches_correspondents:
  assumes "on_submit_email g e w f ac msg supplied ms = (Inr job, ms')"
    "reply_only_outbound (e_cfg e)" "\<not> reply_only_exempt (lower e) (e_cfg e) (acc_email ac)"
    "r \<in> set (env_rcpt_to (jb_envelope job))"
  shows "\<exists>m \<in> set (bt_vals (msgs ms)). \<exists>a \<in> set (m_from m). lower e (a_email a) = lower e (ea_email r)"
proof -
  let ?known = "known_correspondents (lower e) (all_emails (j_ts (e_jenv e)) ms)"
  from submitted(6) [OF assms(1,2)] assms(2,3)
  have "find (\<lambda>r. \<not> bs_mem (lower e (ea_email r)) ?known) (env_rcpt_to (jb_envelope job)) = None"
    by (auto simp: reply_only_allows_def split: option.splits)
  from find_none [OF this assms(4)] have "lower e (ea_email r) \<in> bs_set ?known" by (simp add: bs_mem_set)
  then show ?thesis by (fastforce simp: known_correspondents_def bs_set_of all_emails_def)
qed

lemma refused_keeps:
  assumes "on_submit_email g e w f ac msg supplied ms = (Inl x, ms')"
  shows "msgs ms' = msgs ms" "Store.pending ms' = Store.pending ms"
  using assms put_fails by (auto simp: on_submit_email_def Let_def split: sum.splits prod.splits if_splits)

text \<open>A refused submission loses the draft: the message is taken off the drafts before the
  account's limits are checked, so that after a refusal the client can neither read it nor send
  it again.\<close>

theorem refused_submission_loses_draft:
  assumes "bt_get (Store.pending s) (cs_email_id cs) = Some m" "bt_get (msgs s) (cs_email_id cs) = None"
    "fst (on_submit_email g e w f ac m (or_default envelope_default (cs_envelope cs))
       (snd (take_pending (cs_email_id cs) s))) = Inl x"
    "submission_create v (install_hooks g e w f ac) now (a, s) (key, cs) = (a', s')"
  shows "get_email (cs_email_id cs) s' = None \<and>
    bt_get (not_created a') key = Some (err_obj ''serverFail'' x)"
proof -
  obtain s2 where h: "on_submit_email g e w f ac m (or_default envelope_default (cs_envelope cs))
      (snd (take_pending (cs_email_id cs) s)) = (Inl x, s2)"
    using assms(3) by (metis prod.collapse)
  from refused_keeps [OF h] have s2: "get_email (cs_email_id cs) s2 = None"
    using assms(2) by (simp add: get_email_def take_pending_def)
  have "s' = s2 \<and> a' = a\<lparr>not_created := bt_ins key (err_obj ''serverFail'' x) (not_created a)\<rparr>"
    using assms(1,4) h by (auto simp: submission_create_def install_hooks_def no_hooks_def take_pending_def Let_def)
  then show ?thesis using s2 by simp
qed

section \<open>After the send\<close>

text \<open>When the send succeeds the stored message is written again as it was at submission,
  whatever happened to it since: a message deleted meanwhile is back, and flags and mailboxes
  changed meanwhile are lost.\<close>

theorem sent_message_is_restored:
  assumes "sent_message_id mid = Some i" "bt_get (a_stores (r_accounts s)) (acc_email ac) = Some ac1"
    "Store.put (j_io (e_jenv e)) ((jb_stored job)\<lparr>message_id := [i]\<rparr>) (acc_store ac1) = (Inr (), ms)"
  shows "\<exists>ac2 m. bt_get (a_stores (r_accounts (after_send e ac job (Inr (Sent (Some mid))) s))) (acc_email ac) = Some ac2 \<and>
    get_email (m_id (jb_stored job)) (acc_store ac2) = Some m \<and> message_id m = [i] \<and>
    m_keywords m = m_keywords (jb_stored job) \<and> mailbox_ids m = mailbox_ids (jb_stored job)"
proof -
  have "bt_get (a_stores (r_accounts (after_send e ac job (Inr (Sent (Some mid))) s))) (acc_email ac) =
      Some (ac1\<lparr>acc_store := ms\<rparr>)"
    using assms by (simp add: after_send_def put_if_kept_def Relay.record_smtp_outbound_def set_store_def)
  then show ?thesis using put_done(1) [OF assms(3)] by (simp add: get_email_def)
qed

section \<open>The signature\<close>

lemma signed_with:
  assumes "rsplit_once (CHR ''@'') from = Some (l, d)"
    "fst (load_or_generate_key (e_rsa e) (e_files e) (e_fresh e) (pjoin (e_data e) d) f) = Some key"
  shows "\<exists>unsigned. fst (fst (compose o' e w dir from msg f)) =
    dkim_sign (e_rsa e) unsigned key d (signing_selector (e_cfg e) d)"
proof -
  obtain f1 where k: "load_or_generate_key (e_rsa e) (e_files e) (e_fresh e) (pjoin (e_data e) d) f = (Some key, f1)"
    using assms(2) by (metis prod.collapse)
  obtain built i where "build_rfc5322 (ob_mime o') msg (Config.hostname (e_cfg e)) (dw_clock w) (hex (dw_raw6 w)) = (built, i)"
    by fastforce
  then show ?thesis by (auto simp: compose_def sign_outbound_def assms(1) k Let_def)
qed

lemma accepted_as_supplied:
  assumes "within_storage_cap (e_cfg e) (dw_listing w) = Inr ()" "env_mail_from supplied = Some a"
    "reply_only_outbound (e_cfg e) \<Longrightarrow>
      reply_only_allows (lower e) (e_cfg e) (acc_email ac) supplied
        (known_correspondents (lower e) (all_emails (j_ts (e_jenv e)) ms)) = Inr ()"
    "j_io (e_jenv e) (msg_path (m_id msg)) = None"
  obtains job ms' where "on_submit_email g e w f ac msg supplied ms = (Inr job, ms')" "jb_envelope job = supplied"
proof -
  have v: "resolve_envelope msg supplied = Inr supplied" using assms(2) by (simp add: resolve_envelope_def)
  obtain ms' where "Store.put (j_io (e_jenv e)) (stored_copy g (e_files e) (acc_dir ac) f msg) ms = (Inr (), ms')"
    using put_works [of "j_io (e_jenv e)" "stored_copy g (e_files e) (acc_dir ac) f msg" ms] assms(4) by auto
  with assms(1,3) v show thesis by (auto simp: on_submit_email_def Let_def intro: that)
qed

text \<open>
  C38. Any account can send in the name of any address of the relay. Whatever address an account's
  user names as the envelope's sender, the submission is accepted with that sender, provided only
  what is asked of every submission: the account is below its storage limit, the disk takes the
  copy, and, where replies only are allowed, the recipients are correspondents. The task then
  signs the message with the key of the domain the address names, if the relay holds one, whoever
  the account is.
\<close>

theorem any_sender_is_signed:
  assumes "within_storage_cap (e_cfg e) (dw_listing w) = Inr ()" "j_io (e_jenv e) (msg_path (m_id msg)) = None"
    "reply_only_outbound (e_cfg e) \<Longrightarrow>
      reply_only_allows (lower e) (e_cfg e) (acc_email ac) supplied
        (known_correspondents (lower e) (all_emails (j_ts (e_jenv e)) ms)) = Inr ()"
    "env_mail_from supplied = Some a" "rsplit_once (CHR ''@'') (ea_email a) = Some (l, d)"
    "read_text (e_files e) f' (key_file (pjoin (e_data e) d)) = Some pem" "rk_parse (e_rsa e) pem = Some key"
  shows "\<exists>job ms' unsigned. on_submit_email g e w f ac msg supplied ms = (Inr job, ms') \<and>
    jb_envelope job = supplied \<and> jb_outbound job = msg \<and>
    fst (fst (compose o' e w' (acc_dir ac) (ea_email a) (jb_outbound job) f')) =
      dkim_sign (e_rsa e) unsigned key d (signing_selector (e_cfg e) d)"
proof -
  obtain job ms' where s: "on_submit_email g e w f ac msg supplied ms = (Inr job, ms')" "jb_envelope job = supplied"
    by (rule accepted_as_supplied [OF assms(1,4) assms(3) assms(2)])
  have "fst (load_or_generate_key (e_rsa e) (e_files e) (e_fresh e) (pjoin (e_data e) d) f') = Some key"
    using assms(6,7) by (simp add: load_or_generate_key_def)
  from signed_with [OF assms(5) this, of o' w' "acc_dir ac" "jb_outbound job"] show ?thesis
    using s submitted(2) [OF s(1)] by blast
qed

text \<open>C39. Mail of a custom domain is not signed with the key its owner was told to publish: that
  key is kept with the domain's registration, and the message is signed, under the same selector,
  with another key, made on the first send, beside the domain's accounts.\<close>

theorem custom_domain_signs_with_other_key:
  assumes "bt_get (domains (e_cfg e)) d = None"
    "create_dir_all (domain_dir e d) f = (True, f)"
    "read_text (e_files e) f (key_file (domain_dir e d)) = Some pem" "rk_parse (e_rsa e) pem = Some k1"
    "domain_dkim e d f = ((name, published), f1)"
    "rsplit_once (CHR ''@'') from = Some (l, d)"
    "fs_read f1 (key_file (pjoin (e_data e) d)) = None"
    "fst (load_or_generate_key (e_rsa e) (e_files e) (e_fresh e) (pjoin (e_data e) d) f1) = Some k2"
  shows "name = record_name default_selector d \<and> published = public_key_record (e_rsa e) k1 \<and> e_fresh e = Some k2 \<and>
    (\<exists>unsigned. fst (fst (compose o' e w dir from msg f1)) = dkim_sign (e_rsa e) unsigned k2 d default_selector)"
proof -
  have "load_or_generate_key (e_rsa e) (e_files e) (e_fresh e) (domain_dir e d) f = (Some k1, f)"
    using assms(3,4) by (simp add: load_or_generate_key_def)
  then have "name = record_name default_selector d" "published = public_key_record (e_rsa e) k1"
    using assms(2,5) by (auto simp: domain_dkim_def Let_def)
  moreover have "e_fresh e = Some k2"
    using assms(7,8) by (auto simp: load_or_generate_key_def read_text_def split: option.splits prod.splits if_splits)
  moreover from signed_with [OF assms(6,8), of o' w dir msg] have
    "\<exists>unsigned. fst (fst (compose o' e w dir from msg f1)) = dkim_sign (e_rsa e) unsigned k2 d default_selector"
    by (simp add: signing_selector_def assms(1))
  ultimately show ?thesis by simp
qed

end
