(* ===== verification/InboundProps.thy ===== *)
theory InboundProps
  imports Inbound SubmissionProps RelayProps
begin

text \<open>
  What arrives: every recipient the relay serves finds the message in the inbox, sealed if the
  account has a key, and nobody else's mail changes.
\<close>

section \<open>One recipient\<close>

lemma write_file_others: "p \<noteq> q \<Longrightarrow> write_file io q c s = (r, t) \<Longrightarrow> bt_get (disk t) p = bt_get (disk s) p"
  by (auto simp: write_file_def split: option.splits)

lemma put_others:
  assumes "Store.put io m s = (r, t)" "p \<noteq> msg_path (m_id m)" "p \<noteq> ''delta.json''"
  shows "bt_get (disk t) p = bt_get (disk s) p"
  using assms
  by (auto simp: Store.put_def Let_def bump_def save_state_disk dest: write_file_others [rotated]
      split: prod.splits sum.splits if_splits)

lemma put_mailboxes: "Store.put io m s = (r, t) \<Longrightarrow> mailboxes t = mailboxes s"
proof -
  assume "Store.put io m s = (r, t)"
  from put_others [OF this, of "''mailboxes.json''"] show ?thesis by (simp add: mailboxes_def msg_path_def)
qed

definition account_at :: "string \<Rightarrow> Relay.relay \<Rightarrow> account option" where
  "account_at p s = bt_get (a_stores (r_accounts s)) p"

lemma account_at_stored:
  "account_at q (s\<lparr>r_accounts := set_store p ms (r_accounts s)\<rparr>) =
    (if q = p then map_option (\<lambda>ac. ac\<lparr>acc_store := ms\<rparr>) (account_at p s) else account_at q s)"
  by (auto simp: account_at_def set_store_def split: option.split)

lemma set_store_aliases [simp]: "a_aliases (set_store p ms a) = a_aliases a"
  by (simp add: set_store_def split: option.split)

lemma log_event_sel [simp]:
  "r_accounts (log_event e ac ev s) = r_accounts s" "account_at p (log_event e ac ev s) = account_at p s"
  by (simp_all add: log_event_def account_at_def)

text \<open>An address leads to a primary; no delivery changes to which.\<close>

definition primary_of :: "'k relay_env \<Rightarrow> Relay.relay \<Rightarrow> string \<Rightarrow> string option" where
  "primary_of e s rcpt = bt_get (a_aliases (r_accounts s)) (lower e rcpt)"

lemma resolve_account: "acc_resolve (lower e) (r_accounts s) rcpt = Option.bind (primary_of e s rcpt) (\<lambda>p. account_at p s)"
  by (simp add: acc_resolve_def primary_of_def account_at_def split: option.split)

text \<open>What a delivery may do to an account: file a message under its id.\<close>

definition filed_in :: "'p outbound \<Rightarrow> 'k relay_env \<Rightarrow> draws \<Rightarrow> string \<Rightarrow> account \<Rightarrow> account \<Rightarrow> bool" where
  "filed_in o' e w raw ac ac' \<longleftrightarrow>
    (\<exists>ms. ac' = ac\<lparr>acc_store := ms\<rparr> \<and> mailboxes ms = mailboxes (acc_store ac) \<and>
      (msgs ms = msgs (acc_store ac) \<or>
       (\<exists>f m. filed_message o' e w ac raw f = Inr m \<and>
          msgs ms = bt_ins (m_id m) (threaded m (acc_store ac)) (msgs (acc_store ac)))))"

lemma stored_at:
  assumes "account_at (acc_email ac) s = Some ac"
  shows "\<exists>ac'. account_at (acc_email ac) (store_and_log o' e w ac from raw s) = Some ac' \<and> filed_in o' e w raw ac ac'"
    "q \<noteq> acc_email ac \<Longrightarrow> account_at q (store_and_log o' e w ac from raw s) = account_at q s"
    "a_aliases (r_accounts (store_and_log o' e w ac from raw s)) = a_aliases (r_accounts s)"
proof -
  obtain r s' where r: "store_message o' e w ac raw s = (r, s')" by fastforce
  have sl: "store_and_log o' e w ac from raw s = log_event e ac (received_event w from (length raw) (is_ok r)) s'"
    by (simp add: store_and_log_def r)
  have "(\<exists>ac'. account_at (acc_email ac) s' = Some ac' \<and> filed_in o' e w raw ac ac') \<and>
    (q \<noteq> acc_email ac \<longrightarrow> account_at q s' = account_at q s) \<and> a_aliases (r_accounts s') = a_aliases (r_accounts s)"
  proof (cases "filed_message o' e w ac raw (r_fs s)")
    case (Inl x)
    then have "s' = s" using r by (simp add: store_message_def)
    moreover have "filed_in o' e w raw ac ac"
      unfolding filed_in_def by (rule exI [of _ "acc_store ac"]) simp
    ultimately show ?thesis using assms by blast
  next
    case (Inr m)
    obtain r' ms where p: "Store.put (j_io (e_jenv e)) m (acc_store ac) = (r', ms)" by fastforce
    have s': "s' = s\<lparr>r_accounts := set_store (acc_email ac) ms (r_accounts s)\<rparr>"
      using r p Inr by (simp add: store_message_def)
    have "msgs ms = msgs (acc_store ac) \<or> msgs ms = bt_ins (m_id m) (threaded m (acc_store ac)) (msgs (acc_store ac))"
      using p put_fails put_done(1) by (cases r') auto
    then have "filed_in o' e w raw ac (ac\<lparr>acc_store := ms\<rparr>)"
      using put_mailboxes [OF p] Inr by (auto simp: filed_in_def)
    then show ?thesis using assms s' by (simp add: account_at_stored)
  qed
  then show
    "\<exists>ac'. account_at (acc_email ac) (store_and_log o' e w ac from raw s) = Some ac' \<and> filed_in o' e w raw ac ac'"
    "q \<noteq> acc_email ac \<Longrightarrow> account_at q (store_and_log o' e w ac from raw s) = account_at q s"
    "a_aliases (r_accounts (store_and_log o' e w ac from raw s)) = a_aliases (r_accounts s)"
    by (simp_all add: sl)
qed

text \<open>The accounts are kept under their own addresses.\<close>

definition keyed :: "Relay.relay \<Rightarrow> bool" where
  "keyed s \<longleftrightarrow> (\<forall>p ac. account_at p s = Some ac \<longrightarrow> acc_email ac = p)"

lemma accounts_keyed: "accounts_ok (r_accounts s) \<Longrightarrow> keyed s"
  by (simp add: keyed_def account_at_def accounts_ok_def)

lemma deliver_one_at:
  assumes "keyed s"
  shows "primary_of e (deliver_one o' e from raw s (rcpt, w)) x = primary_of e s x"
    "primary_of e s rcpt \<noteq> Some q \<Longrightarrow> account_at q (deliver_one o' e from raw s (rcpt, w)) = account_at q s"
    "primary_of e s rcpt = Some p \<Longrightarrow> account_at p s = Some ac \<Longrightarrow>
      \<exists>ac'. account_at p (deliver_one o' e from raw s (rcpt, w)) = Some ac' \<and> filed_in o' e w raw ac ac'"
proof -
  have "primary_of e (deliver_one o' e from raw s (rcpt, w)) x = primary_of e s x \<and>
    (primary_of e s rcpt \<noteq> Some q \<longrightarrow> account_at q (deliver_one o' e from raw s (rcpt, w)) = account_at q s) \<and>
    (primary_of e s rcpt = Some p \<longrightarrow> account_at p s = Some ac \<longrightarrow>
      (\<exists>ac'. account_at p (deliver_one o' e from raw s (rcpt, w)) = Some ac' \<and> filed_in o' e w raw ac ac'))"
  proof (cases "acc_resolve (lower e) (r_accounts s) rcpt")
    case None
    then have "deliver_one o' e from raw s (rcpt, w) = s" by (simp add: deliver_one_def)
    then show ?thesis using None by (auto simp: resolve_account)
  next
    case (Some a)
    then obtain p0 where p0: "primary_of e s rcpt = Some p0" "account_at p0 s = Some a"
      by (auto simp: resolve_account bind_eq_Some_conv)
    then have "acc_email a = p0" using assms by (simp add: keyed_def)
    moreover have "deliver_one o' e from raw s (rcpt, w) = store_and_log o' e w a from raw s"
      using Some by (simp add: deliver_one_def)
    ultimately show ?thesis
      using stored_at [where ac = a and s = s and e = e and o' = o'] p0 by (auto simp: primary_of_def)
  qed
  then show "primary_of e (deliver_one o' e from raw s (rcpt, w)) x = primary_of e s x"
    "primary_of e s rcpt \<noteq> Some q \<Longrightarrow> account_at q (deliver_one o' e from raw s (rcpt, w)) = account_at q s"
    "primary_of e s rcpt = Some p \<Longrightarrow> account_at p s = Some ac \<Longrightarrow>
      \<exists>ac'. account_at p (deliver_one o' e from raw s (rcpt, w)) = Some ac' \<and> filed_in o' e w raw ac ac'"
    by blast+
qed

lemma store_message_ok: "accounts_ok (r_accounts s) \<Longrightarrow> accounts_ok (r_accounts (snd (store_message o' e w ac raw s)))"
  by (auto simp: store_message_def set_store_ok split: sum.split prod.split)

lemma deliver_one_ok:
  "accounts_ok (r_accounts s) \<Longrightarrow> accounts_ok (r_accounts (deliver_one o' e from raw s rw))"
  using store_message_ok [of s o' e]
  by (auto simp: deliver_one_def store_and_log_def split: prod.split option.split) (metis snd_conv)+

section \<open>All recipients\<close>

text \<open>A message in the store that came from these bytes, as the parser read them.\<close>

definition came_from :: "'p outbound \<Rightarrow> string \<Rightarrow> account \<Rightarrow> string \<Rightarrow> email \<Rightarrow> bool" where
  "came_from o' raw ac i m \<longleftrightarrow> m_id m = i \<and> mailbox_ids m = [(inbox_id ac, True)] \<and>
    (\<exists>now p. parse_mime_email (ob_mime o') raw now = Some p \<and> \<not> carries_nothing p \<and> subject m = subject p \<and>
       m_from m = m_from p \<and> m_to m = m_to p \<and> cc m = cc p \<and> message_id m = message_id p \<and>
       in_reply_to m = in_reply_to p \<and> references m = references p \<and> headers m = headers p)"

definition first_id :: "email \<Rightarrow> string" where
  "first_id m = (case message_id m of [] \<Rightarrow> [] | i # _ \<Rightarrow> i)"

lemma seal_inbound_sel [simp]:
  "m_id (seal_inbound o' e w dir f raw m) = m_id m" "mailbox_ids (seal_inbound o' e w dir f raw m) = mailbox_ids m"
  "subject (seal_inbound o' e w dir f raw m) = subject m" "m_from (seal_inbound o' e w dir f raw m) = m_from m"
  "m_to (seal_inbound o' e w dir f raw m) = m_to m" "cc (seal_inbound o' e w dir f raw m) = cc m"
  "message_id (seal_inbound o' e w dir f raw m) = message_id m" "in_reply_to (seal_inbound o' e w dir f raw m) = in_reply_to m"
  "references (seal_inbound o' e w dir f raw m) = references m" "headers (seal_inbound o' e w dir f raw m) = headers m"
  by (simp_all add: seal_inbound_def seal_stored_body_def Let_def split: option.split sum.split)

lemma threaded_more [simp]:
  "subject (threaded m s) = subject m" "m_from (threaded m s) = m_from m" "m_to (threaded m s) = m_to m"
  "cc (threaded m s) = cc m" "in_reply_to (threaded m s) = in_reply_to m" "references (threaded m s) = references m"
  "headers (threaded m s) = headers m"
  by (simp_all add: threaded_def)

lemma filed_parses:
  assumes "filed_message o' e w ac raw f = Inr m"
  obtains p where "parse_mime_email (ob_mime o') raw (dw_stamp w) = Some p" "\<not> carries_nothing p"
    "m = seal_inbound o' e w (acc_dir ac) f raw
       (p\<lparr>m_id := make_message_id (first_id p) (acc_email ac) (dw_millis w), received_at := Some (dw_stamp w),
          mailbox_ids := [(inbox_id ac, True)]\<rparr>)"
  using assms by (auto simp: filed_message_def first_id_def Let_def split: sum.splits option.splits if_splits)

lemma filed_came_from:
  assumes "filed_message o' e w ac raw f = Inr m"
  shows "came_from o' raw ac (m_id m) (threaded m ms)"
proof -
  from filed_parses [OF assms] obtain p where p: "parse_mime_email (ob_mime o') raw (dw_stamp w) = Some p" "\<not> carries_nothing p"
    "m = seal_inbound o' e w (acc_dir ac) f raw
       (p\<lparr>m_id := make_message_id (first_id p) (acc_email ac) (dw_millis w), received_at := Some (dw_stamp w),
          mailbox_ids := [(inbox_id ac, True)]\<rparr>)" .
  show ?thesis unfolding came_from_def
    by (intro conjI exI [of _ "dw_stamp w"] exI [of _ p] p(1,2)) (simp_all add: p(3))
qed

lemma filed_id:
  "filed_message o' e w ac raw f = Inr m \<Longrightarrow> parse_mime_email (ob_mime o') raw (dw_stamp w) = Some p \<Longrightarrow>
   m_id m = make_message_id (first_id p) (acc_email ac) (dw_millis w)"
  by (elim filed_parses) simp

lemma filed_inbox: "filed_in o' e w raw ac ac' \<Longrightarrow> inbox_id ac' = inbox_id ac \<and> acc_email ac' = acc_email ac"
  by (auto simp: filed_in_def inbox_id_def split: option.split)

lemma came_from_inbox: "inbox_id ac' = inbox_id ac \<Longrightarrow> came_from o' raw ac' i m = came_from o' raw ac i m"
  by (simp add: came_from_def)

definition has_arrived :: "'p outbound \<Rightarrow> string \<Rightarrow> account \<Rightarrow> string \<Rightarrow> account \<Rightarrow> bool" where
  "has_arrived o' raw ac i ac' \<longleftrightarrow> inbox_id ac' = inbox_id ac \<and>
    (\<exists>m. bt_get (msgs (acc_store ac')) i = Some m \<and> came_from o' raw ac i m)"

lemma filed_keeps: "filed_in o' e w raw ac1 ac2 \<Longrightarrow> has_arrived o' raw ac i ac1 \<Longrightarrow> has_arrived o' raw ac i ac2"
proof -
  assume f: "filed_in o' e w raw ac1 ac2" and a: "has_arrived o' raw ac i ac1"
  have b: "inbox_id ac2 = inbox_id ac" "inbox_id ac1 = inbox_id ac"
    using filed_inbox [OF f] a by (simp_all add: has_arrived_def)
  from f obtain ms where ms: "ac2 = ac1\<lparr>acc_store := ms\<rparr>"
    "msgs ms = msgs (acc_store ac1) \<or> (\<exists>g m. filed_message o' e w ac1 raw g = Inr m \<and>
       msgs ms = bt_ins (m_id m) (threaded m (acc_store ac1)) (msgs (acc_store ac1)))"
    unfolding filed_in_def by blast
  from ms(2) show ?thesis
  proof
    assume "msgs ms = msgs (acc_store ac1)"
    then show ?thesis using a b ms(1) by (simp add: has_arrived_def)
  next
    assume "\<exists>g m. filed_message o' e w ac1 raw g = Inr m \<and>
       msgs ms = bt_ins (m_id m) (threaded m (acc_store ac1)) (msgs (acc_store ac1))"
    then obtain g m where m: "filed_message o' e w ac1 raw g = Inr m"
      "msgs ms = bt_ins (m_id m) (threaded m (acc_store ac1)) (msgs (acc_store ac1))" by blast
    have "came_from o' raw ac (m_id m) (threaded m (acc_store ac1))"
      using filed_came_from [OF m(1)] came_from_inbox [OF b(2)] by blast
    then show ?thesis using a b(1) ms(1) m(2) by (auto simp: has_arrived_def)
  qed
qed

lemma deliver_one_arrives:
  assumes "accounts_ok (r_accounts s)" "primary_of e s rcpt = Some p" "account_at p s = Some ac"
    "within_storage_cap (e_cfg e) (dw_listing w) = Inr ()" "parse_mime_email (ob_mime o') raw (dw_stamp w) = Some x"
    "\<not> carries_nothing x" "\<And>i. j_io (e_jenv e) (msg_path i) = None"
  shows "\<exists>ac'. account_at p (deliver_one o' e from raw s (rcpt, w)) = Some ac' \<and>
    has_arrived o' raw ac (make_message_id (first_id x) p (dw_millis w)) ac'"
proof -
  have p: "acc_email ac = p" using accounts_keyed [OF assms(1)] assms(3) by (simp add: keyed_def)
  obtain m where m: "filed_message o' e w ac raw (r_fs s) = Inr m"
    using assms(4-6) by (simp add: filed_message_def Let_def)
  obtain ms where ms: "Store.put (j_io (e_jenv e)) m (acc_store ac) = (Inr (), ms)"
    using put_works [of "j_io (e_jenv e)" m "acc_store ac", OF assms(7)] by (rule exE)
  have "account_at p (deliver_one o' e from raw s (rcpt, w)) = Some (ac\<lparr>acc_store := ms\<rparr>)"
    using assms(2,3) p m ms
    by (simp add: deliver_one_def resolve_account store_and_log_def store_message_def account_at_stored)
  moreover have "inbox_id (ac\<lparr>acc_store := ms\<rparr>) = inbox_id ac"
    using put_mailboxes [OF ms] by (simp add: inbox_id_def split: option.split)
  ultimately show ?thesis
    using put_done(1) [OF ms] filed_came_from [OF m] filed_id [OF m assms(5)] p by (simp add: has_arrived_def)
qed

text \<open>A notice that is stored (\<open>Queue.r_filed\<close>) is in the inbox of the account it is for.\<close>

lemma notice_is_filed:
  assumes "account_at (acc_email ac) s = Some ac" "store_message o' e w ac raw s = (Inr (), s1)"
  shows "\<exists>ac' i m. account_at (acc_email ac) (deliver_local o' e w ac label raw s) = Some ac' \<and>
    bt_get (msgs (acc_store ac')) i = Some m \<and> came_from o' raw ac' i m"
proof -
  obtain m ms where m: "filed_message o' e w ac raw (r_fs s) = Inr m"
    "Store.put (j_io (e_jenv e)) m (acc_store ac) = (Inr (), ms)"
    using assms(2) by (auto simp: store_message_def split: sum.splits prod.splits)
  have at: "account_at (acc_email ac) (deliver_local o' e w ac label raw s) = Some (ac\<lparr>acc_store := ms\<rparr>)"
    using assms(1) m by (simp add: deliver_local_def store_and_log_def store_message_def account_at_stored)
  have "inbox_id (ac\<lparr>acc_store := ms\<rparr>) = inbox_id ac"
    using put_mailboxes [OF m(2)] by (simp add: inbox_id_def split: option.split)
  then have "came_from o' raw (ac\<lparr>acc_store := ms\<rparr>) (m_id m) (threaded m (acc_store ac))"
    using filed_came_from [OF m(1)] came_from_inbox by blast
  then show ?thesis using at put_done(1) [OF m(2)] by auto
qed

lemma deliver_all_keeps:
  "accounts_ok (r_accounts s) \<Longrightarrow> account_at p s = Some ac1 \<Longrightarrow> has_arrived o' raw ac i ac1 \<Longrightarrow>
   \<exists>ac2. account_at p (foldl (deliver_one o' e from raw) s rws) = Some ac2 \<and> has_arrived o' raw ac i ac2"
proof (induction rws arbitrary: s ac1)
  case (Cons rw rws)
  obtain r w where rw: "rw = (r, w)" by fastforce
  note ok = accounts_keyed [OF Cons.prems(1)]
  have "\<exists>ac2. account_at p (deliver_one o' e from raw s rw) = Some ac2 \<and> has_arrived o' raw ac i ac2"
  proof (cases "primary_of e s r = Some p")
    case True
    from deliver_one_at(3) [OF ok True Cons.prems(2)] Cons.prems(3) rw filed_keeps show ?thesis by blast
  next
    case False
    from deliver_one_at(2) [OF ok False, where o' = o'] Cons.prems(2,3) rw show ?thesis by simp
  qed
  then obtain ac2 where "account_at p (deliver_one o' e from raw s rw) = Some ac2" "has_arrived o' raw ac i ac2" by blast
  from Cons.IH [OF deliver_one_ok [OF Cons.prems(1)] this] show ?case by simp
qed simp

lemma deliver_all_frame:
  "accounts_ok (r_accounts s) \<Longrightarrow>
   accounts_ok (r_accounts (foldl (deliver_one o' e from raw) s rws)) \<and>
   primary_of e (foldl (deliver_one o' e from raw) s rws) x = primary_of e s x \<and>
   (Some q \<notin> primary_of e s ` fst ` set rws \<longrightarrow> account_at q (foldl (deliver_one o' e from raw) s rws) = account_at q s)"
proof (induction rws arbitrary: s)
  case (Cons rw rws)
  obtain r w where rw: "rw = (r, w)" by fastforce
  let ?s1 = "deliver_one o' e from raw s rw"
  note ok = accounts_keyed [OF Cons.prems]
  have p: "primary_of e ?s1 = primary_of e s" using deliver_one_at(1) [OF ok] rw by blast
  have "Some q \<noteq> primary_of e s r \<Longrightarrow> account_at q ?s1 = account_at q s"
    using deliver_one_at(2) [OF ok] rw by metis
  with Cons.IH [OF deliver_one_ok [OF Cons.prems, of o' e "from" raw rw]] p rw show ?case by auto
qed simp

lemma deliver_all_arrives:
  assumes "accounts_ok (r_accounts s)" "(rcpt, w) \<in> set rws" "primary_of e s rcpt = Some p" "account_at p s = Some ac"
    "within_storage_cap (e_cfg e) (dw_listing w) = Inr ()" "parse_mime_email (ob_mime o') raw (dw_stamp w) = Some x"
    "\<not> carries_nothing x" "\<And>i. j_io (e_jenv e) (msg_path i) = None"
  shows "\<exists>ac'. account_at p (foldl (deliver_one o' e from raw) s rws) = Some ac' \<and>
    has_arrived o' raw ac (make_message_id (first_id x) p (dw_millis w)) ac'"
proof -
  have "\<exists>ac0. account_at p t = Some ac0 \<and> inbox_id ac0 = inbox_id ac \<Longrightarrow> accounts_ok (r_accounts t) \<Longrightarrow>
      primary_of e t rcpt = Some p \<Longrightarrow>
      \<exists>ac'. account_at p (foldl (deliver_one o' e from raw) t rws) = Some ac' \<and>
        has_arrived o' raw ac (make_message_id (first_id x) p (dw_millis w)) ac'" for t
    using assms(2)
  proof (induction rws arbitrary: t)
    case (Cons rw rws)
    obtain r w' where rw: "rw = (r, w')" by fastforce
    let ?t1 = "deliver_one o' e from raw t rw"
    note ok = accounts_keyed [OF Cons.prems(2)]
    obtain ac0 where ac0: "account_at p t = Some ac0" "inbox_id ac0 = inbox_id ac" using Cons.prems(1) by blast
    show ?case
    proof (cases "rw = (rcpt, w)")
      case True
      have "has_arrived o' raw ac0 i ac1 = has_arrived o' raw ac i ac1" for i ac1
        using ac0(2) by (simp add: has_arrived_def came_from_def)
      then obtain ac1 where "account_at p ?t1 = Some ac1" "has_arrived o' raw ac (make_message_id (first_id x) p (dw_millis w)) ac1"
        using deliver_one_arrives [OF Cons.prems(2,3) ac0(1) assms(5-8)] unfolding True by blast
      from deliver_all_keeps [OF deliver_one_ok [OF Cons.prems(2)] this] show ?thesis by simp
    next
      case False
      have "\<exists>ac1. account_at p ?t1 = Some ac1 \<and> inbox_id ac1 = inbox_id ac"
      proof (cases "primary_of e t r = Some p")
        case True
        from deliver_one_at(3) [OF ok True ac0(1)] rw filed_inbox ac0(2) show ?thesis by metis
      next
        case False
        from deliver_one_at(2) [OF ok False, where o' = o'] rw ac0 show ?thesis by simp
      qed
      moreover have "primary_of e ?t1 rcpt = Some p" using deliver_one_at(1) [OF ok] rw Cons.prems(3) by metis
      moreover have "(rcpt, w) \<in> set rws" using Cons.prems(4) False by simp
      ultimately show ?thesis using Cons.IH [OF _ deliver_one_ok [OF Cons.prems(2)]] by simp
    qed
  qed simp
  then show ?thesis using assms(1,3,4) by blast
qed

lemma pushed_to:
  "acc_resolve (lower e) (r_accounts s) rcpt = Some ac \<Longrightarrow> rcpt \<in> set rs \<Longrightarrow>
   acc_email ac \<in> set (foldl (add_pushed e s) ps rs)"
proof (induction rs arbitrary: ps)
  case (Cons r rs)
  have keep: "x \<in> set ps \<Longrightarrow> x \<in> set (foldl (add_pushed e s) ps rs)" for x ps
  proof (induction rs arbitrary: ps)
    case (Cons a rs)
    have "x \<in> set (add_pushed e s ps a)" using Cons.prems by (simp add: add_pushed_def split: option.split)
    then show ?case using Cons.IH by simp
  qed simp
  show ?case
  proof (cases "r = rcpt")
    case True
    then have "acc_email ac \<in> set (add_pushed e s ps r)" using Cons.prems(1) by (simp add: add_pushed_def)
    then show ?thesis using keep by simp
  next
    case False
    then show ?thesis using Cons by simp
  qed
qed simp

text \<open>
  C3. Delivered mail is in the inbox. When a session hands over a message, each recipient whose
  address leads to an account finds it there: under the id made of its Message-ID, filed in the
  account's inbox and nowhere else, with the headers the parser read from the bytes that came, and
  a push is started for the account. This holds for every recipient whatever the others are, in
  any order, with repetitions and aliases, provided the account is below its storage limit, its
  disk takes the message and the bytes are a message that carries something. Accounts that no
  recipient leads to are untouched, and no address leads elsewhere afterwards.
\<close>

theorem delivered_mail_is_filed:
  assumes "accounts_ok (r_accounts s)" "(rcpt, w) \<in> set rws"
    "acc_resolve (lower e) (r_accounts s) rcpt = Some ac"
    "within_storage_cap (e_cfg e) (dw_listing w) = Inr ()"
    "parse_mime_email (ob_mime o') raw (dw_stamp w) = Some x" "\<not> carries_nothing x"
    "\<And>i. j_io (e_jenv e) (msg_path i) = None"
    "delivery_deliver o' e from rws raw s = (pushed, s')"
  shows "(\<exists>ac' m. acc_resolve (lower e) (r_accounts s') rcpt = Some ac' \<and>
      get_email (make_message_id (first_id x) (acc_email ac) (dw_millis w)) (acc_store ac') = Some m \<and>
      came_from o' raw ac' (make_message_id (first_id x) (acc_email ac) (dw_millis w)) m) \<and>
    acc_email ac \<in> set pushed \<and>
    (\<forall>q. Some q \<notin> primary_of e s ` fst ` set rws \<longrightarrow> account_at q s' = account_at q s) \<and>
    primary_of e s' = primary_of e s"
proof -
  let ?s1 = "foldl (deliver_one o' e from raw) s rws"
  have s': "r_accounts s' = r_accounts ?s1" "pushed = foldl (add_pushed e s') [] (map fst rws)"
    using assms(8) by (auto simp: delivery_deliver_def Let_def)
  then have at: "account_at q s' = account_at q ?s1" "primary_of e s' x = primary_of e ?s1 x" for q x
    by (simp_all add: account_at_def primary_of_def)
  obtain p where p: "primary_of e s rcpt = Some p" "account_at p s = Some ac"
    using assms(3) by (auto simp: resolve_account bind_eq_Some_conv)
  have k: "acc_email ac = p" using accounts_keyed [OF assms(1)] p(2) by (simp add: keyed_def)
  note frame = deliver_all_frame [OF assms(1), of o' e "from" raw rws]
  from deliver_all_arrives [OF assms(1,2) p assms(4-7)] obtain ac' where
    a: "account_at p ?s1 = Some ac'" "has_arrived o' raw ac (make_message_id (first_id x) p (dw_millis w)) ac'" by blast
  have r: "acc_resolve (lower e) (r_accounts s') rcpt = Some ac'"
    using a(1) p(1) frame by (simp add: resolve_account at)
  have "acc_email ac' = p" using accounts_keyed [of ?s1] frame a(1) by (auto simp: keyed_def)
  moreover have "acc_email ac' \<in> set pushed"
    unfolding s'(2) by (rule pushed_to [OF r]) (use assms(2) in force)
  moreover obtain m where "get_email (make_message_id (first_id x) p (dw_millis w)) (acc_store ac') = Some m"
      "came_from o' raw ac' (make_message_id (first_id x) p (dw_millis w)) m"
    using a(2) came_from_inbox [of ac' ac o' raw] by (auto simp: has_arrived_def get_email_def)
  ultimately show ?thesis using r frame k at by (auto simp: fun_eq_iff)
qed

section \<open>What is readable of it\<close>

text \<open>What is encrypted of a message that came: its text, or a multipart of it and the attachments.\<close>

definition sealed_document :: "'p outbound \<Rightarrow> 'k relay_env \<Rightarrow> draws \<Rightarrow> string \<Rightarrow> string \<Rightarrow> string" where
  "sealed_document o' e w raw body =
    (if extract_attachments (ob_mime o') raw = [] then body
     else build_encrypted_multipart (std (e_crypto e)) body (extract_attachments (ob_mime o') raw) (multipart_boundary (dw_raw16 w)))"

lemma seal_inbound_cases:
  assumes "message_body m \<noteq> []" "load_account_key (ob_pgp o') (e_files e) dir f = Some key"
  shows "seal_inbound o' e w dir f raw m =
    (if contains (message_body m) pgp_marker then m\<lparr>m_keywords := bt_ins keyword_e2e True (m_keywords m)\<rparr>
     else (case encrypt_inline (ob_pgp o') (sealed_document o' e w raw (message_body m)) [key] of
       Inr c \<Rightarrow> seal_stored_body m (utf8_lossy c) | Inl _ \<Rightarrow> m))"
  using assms by (simp add: seal_inbound_def sealed_document_def Let_def)

text \<open>
  C8. What the relay can still read of a message it receives for an account with a key on file and
  files with some text. Its subject, always. Of the body there are three cases. When the text does
  not contain the line that opens an armoured block and encrypting it with the account's key works,
  the ciphertext is the only body value, with no HTML part and no preview, and what was encrypted
  is that text or a multipart of it and the attachments. When encrypting fails, the text is kept,
  readable, and not flagged. When the text contains that line, it is kept as it came, readable or
  not, and flagged as encrypted.
\<close>

theorem received_mail_is_sealed:
  assumes "filed_message o' e w ac raw f = Inr m" "parse_mime_email (ob_mime o') raw (dw_stamp w) = Some p"
    "message_body p \<noteq> []" "load_account_key (ob_pgp o') (e_files e) (acc_dir ac) f = Some key"
  shows "subject m = subject p \<and>
    (if contains (message_body p) pgp_marker
     then body_values m = body_values p \<and> m_keywords m = bt_ins keyword_e2e True (m_keywords p)
     else (case encrypt_inline (ob_pgp o') (sealed_document o' e w raw (message_body p)) [key] of
       Inr c \<Rightarrow> body_values m = [(''1'', sealed_value (utf8_lossy c))] \<and> message_body m = utf8_lossy c \<and>
         html_body m = [] \<and> preview m = [] \<and> m_keywords m = m_keywords p
     | Inl _ \<Rightarrow> body_values m = body_values p \<and> message_body m = message_body p \<and> m_keywords m = m_keywords p))"
proof -
  let ?p = "p\<lparr>m_id := make_message_id (first_id p) (acc_email ac) (dw_millis w), received_at := Some (dw_stamp w),
    mailbox_ids := [(inbox_id ac, True)]\<rparr>"
  have m: "m = seal_inbound o' e w (acc_dir ac) f raw ?p" using filed_parses [OF assms(1)] assms(2) by auto
  have b: "message_body ?p = message_body p" by (simp add: message_body_def split: list.split)
  obtain v where p: "body_values p = [(''1'', v)]" "text_body p = [BodyPart ''1'' [] 0 [] [] ''text/plain'' [] [] [] [] [] []]"
      "html_body p = []" "preview p = []"
    using assms(2) by (auto simp: parse_mime_email_def email_default_def split: option.splits)
  have one: "body_values (seal_stored_body ?p c) = [(''1'', sealed_value c)]" "subject (seal_stored_body ?p c) = subject p" for c
    using p by (simp_all add: seal_stored_body_def Let_def sealed_value_def)
  have body: "message_body (seal_stored_body ?p c) = c" for c using sealed_body [of ?p c] assms(3) b by simp
  have m': "m = (if contains (message_body p) pgp_marker then ?p\<lparr>m_keywords := bt_ins keyword_e2e True (m_keywords ?p)\<rparr>
     else (case encrypt_inline (ob_pgp o') (sealed_document o' e w raw (message_body p)) [key] of
       Inr c \<Rightarrow> seal_stored_body ?p (utf8_lossy c) | Inl _ \<Rightarrow> ?p))"
    using seal_inbound_cases [of ?p o' e "acc_dir ac" f key w raw] assms(3,4) m b by simp
  show ?thesis
  proof (cases "contains (message_body p) pgp_marker")
    case False
    show ?thesis
    proof (cases "encrypt_inline (ob_pgp o') (sealed_document o' e w raw (message_body p)) [key]")
      case (Inl x)
      then show ?thesis using m' False b by simp
    next
      case (Inr c)
      then show ?thesis using m' False one body p by simp
    qed
  qed (use m' in simp)
qed

section \<open>Push notifications\<close>

lemma push_saved [simp]: "fst (push_save v (r, f)) = r"
  by (simp add: push_save_def split: option.split)

lemma push_for_removed:
  "push_for (fst (push_remove v a ep rf)) b =
    filter (\<lambda>x. \<not> (b = a \<and> ps_endpoint x = ep)) (push_for (fst rf) b)"
  by (cases rf) (auto simp: push_remove_def Let_def push_for_def filter_empty_conv split: option.split)

lemma push_all_removed:
  "push_for (fst (foldl (Inbound.push_step p v va a) rf subs)) b =
    filter (\<lambda>x. \<not> (b = a \<and> (\<exists>y \<in> set subs. ps_endpoint y = ps_endpoint x \<and> push_one p va y = PushGone))) (push_for (fst rf) b)"
proof (induction subs arbitrary: rf)
  case (Cons y subs)
  have "push_for (fst (Inbound.push_step p v va a rf y)) b =
      filter (\<lambda>x. \<not> (b = a \<and> ps_endpoint y = ps_endpoint x \<and> push_one p va y = PushGone)) (push_for (fst rf) b)"
    using push_for_removed [of v a "ps_endpoint y" rf b] by (auto simp: Inbound.push_step_def intro: filter_cong)
  then show ?case using Cons.IH [of "Inbound.push_step p v va a rf y"] by (auto intro: filter_cong)
qed simp

definition push_refused :: "web_push \<Rightarrow> vapid \<Rightarrow> push_subscription \<Rightarrow> bool" where
  "push_refused p va sub \<longleftrightarrow>
    (\<exists>q status body. build_request p va sub = Inr q \<and> wp_send p q = Inr (status, body) \<and> status \<in> {404, 410})"

lemma push_gone_iff: "push_one p va sub = PushGone \<longleftrightarrow> push_refused p va sub"
  by (auto simp: push_one_def push_refused_def push_classify_def split: sum.split)

text \<open>
  C40. Notifying an account forgets its dead subscriptions and no others. Whatever the push
  services answer, afterwards the account's subscriptions are those it had, in order, without the
  endpoints that were refused with 404 or 410; one that failed otherwise stays, and the other
  accounts keep all of theirs. Without a key pair nothing is sent and nothing forgotten.
\<close>

theorem push_forgets_dead_only:
  "push_for (r_push (push_notify p e a s)) b =
    filter (\<lambda>x. \<not> (b = a \<and> va_public (e_vapid e) \<noteq> [] \<and> va_private (e_vapid e) \<noteq> [] \<and>
       (\<exists>y \<in> set (push_for (r_push s) a). ps_endpoint y = ps_endpoint x \<and> push_refused p (e_vapid e) y)))
      (push_for (r_push s) b)"
proof (cases "va_public (e_vapid e) = [] \<or> va_private (e_vapid e) = []")
  case True
  then show ?thesis by (auto simp: push_notify_def)
next
  case False
  obtain r f where r: "foldl (push_step p (e_files e) (e_vapid e) a) (r_push s, r_fs s) (push_for (r_push s) a) = (r, f)"
    by fastforce
  then show ?thesis
    using False push_all_removed [of p "e_files e" "e_vapid e" a "(r_push s, r_fs s)" "push_for (r_push s) a" b]
    by (simp add: push_notify_def push_gone_iff)
qed

end
