(* ===== verification/MaintenanceProps.thy ===== *)
theory MaintenanceProps
  imports Maintenance InboundProps
begin

text \<open>
  Which accounts the sweep of unused accounts takes, and that it takes no others.
\<close>

section \<open>Last use\<close>

text \<open>The modification times that can be read in a tree.\<close>

fun mtimes :: "mtree \<Rightarrow> int list" where
  "mtimes (MFile t) = (case t of None \<Rightarrow> [] | Some s \<Rightarrow> [s])"
| "mtimes (MDir None) = []"
| "mtimes (MDir (Some es)) = concat (map mtimes es)"
| "mtimes MOther = []"

lemma fold_latest:
  "(\<And>x l. x \<in> set es \<Longrightarrow> g x l \<le> c \<longleftrightarrow> l \<le> c \<and> P x) \<Longrightarrow>
   foldl (\<lambda>l x. g x l) l es \<le> (c :: int) \<longleftrightarrow> l \<le> c \<and> list_all P es"
  by (induction es arbitrary: l) auto

lemma latest_in_le: "latest_in t l \<le> c \<longleftrightarrow> l \<le> c \<and> (\<forall>m \<in> set (mtimes t). m \<le> c)"
proof (induction t l rule: latest_in.induct)
  case (3 es l)
  have "latest_in (MDir (Some es)) l \<le> c \<longleftrightarrow> l \<le> c \<and> list_all (\<lambda>t. \<forall>m \<in> set (mtimes t). m \<le> c) es"
    using fold_latest [of es latest_in c "\<lambda>t. \<forall>m \<in> set (mtimes t). m \<le> c" l] 3 by simp
  then show ?case by (auto simp: list_all_iff)
qed (auto split: option.split)

definition unused :: "mtree list option \<Rightarrow> int \<Rightarrow> bool" where
  "unused d cutoff \<longleftrightarrow> (\<forall>m \<in> set (mtimes (MDir d)). m \<le> cutoff)"

lemma last_activity_le: "last_activity d \<le> c \<longleftrightarrow> 0 \<le> c \<and> unused d c"
  by (simp add: last_activity_def latest_in_le unused_def)

section \<open>Which accounts go\<close>

text \<open>
  \<open>purgeable walks cfg data f cutoff d dc l\<close>: the domain is open, the configuration does not
  name the account, it has a directory, and nothing in its directory here or on any peer of this
  relay is newer than the cutoff.
\<close>

definition purgeable ::
  "(string \<Rightarrow> mtree list option) \<Rightarrow> config \<Rightarrow> string \<Rightarrow> fs \<Rightarrow> int \<Rightarrow> string \<Rightarrow> domain_config \<Rightarrow> string \<Rightarrow> bool" where
  "purgeable walks cfg data f cutoff d dc l \<longleftrightarrow>
    bt_get (domains cfg) d = Some dc \<and> allow_provision dc \<and> bt_get (d_accounts dc) l = None \<and>
    (\<exists>k es. read_dir f (pjoin data d) = Some (k, es) \<and> (l, None) \<in> set es) \<and> 0 \<le> cutoff \<and>
    (\<forall>dir \<in> set (data # peer_data_dirs cfg). unused (walks (pjoin (pjoin dir d) l)) cutoff)"

lemma should_purge_iff:
  "is_ok (should_purge walks cfg data d l cutoff) \<longleftrightarrow>
    (\<exists>dc. bt_get (domains cfg) d = Some dc \<and> allow_provision dc \<and> bt_get (d_accounts dc) l = None) \<and> 0 \<le> cutoff \<and>
    (\<forall>dir \<in> set (data # peer_data_dirs cfg). unused (walks (pjoin (pjoin dir d) l)) cutoff)"
proof -
  have "\<not> cutoff < last_activity x \<longleftrightarrow> 0 \<le> cutoff \<and> unused x cutoff" for x
    using last_activity_le [of x cutoff] by linarith
  then show ?thesis
    by (auto simp: should_purge_def is_ok_def list_ex_iff split: option.split)
qed

lemma in_directories: "l \<in> set (directories es) \<longleftrightarrow> (l, None) \<in> set es"
  by (force simp: directories_def)

lemma to_purge_iff:
  assumes "bt_ok (domains cfg)"
  shows "(d, l) \<in> set (accounts_to_purge walks cfg data now f) \<longleftrightarrow> inactive_purge_days cfg \<noteq> 0 \<and>
    (\<exists>dc. purgeable walks cfg data f (purge_cutoff now (inactive_purge_days cfg)) d dc l)"
proof -
  have dom: "(d, dc) \<in> set (domains cfg) \<longleftrightarrow> bt_get (domains cfg) d = Some dc" for dc
    using in_set_bt_get [OF assms] bt_get_in_set by metis
  let ?c = "purge_cutoff now (inactive_purge_days cfg)"
  have "(d, l) \<in> set (purge_in_domain walks cfg data ?c f (d', dc)) \<longleftrightarrow>
      d' = d \<and> allow_provision dc \<and> (\<exists>k es. read_dir f (pjoin data d) = Some (k, es) \<and> (l, None) \<in> set es) \<and>
      is_ok (should_purge walks cfg data d l ?c)" for d' dc
    by (cases "read_dir f (pjoin data d')") (auto simp: purge_in_domain_def in_directories)
  then have "(d, l) \<in> set (accounts_to_purge walks cfg data now f) \<longleftrightarrow> inactive_purge_days cfg \<noteq> 0 \<and>
      (\<exists>dc. (d, dc) \<in> set (domains cfg) \<and> allow_provision dc \<and>
        (\<exists>k es. read_dir f (pjoin data d) = Some (k, es) \<and> (l, None) \<in> set es) \<and> is_ok (should_purge walks cfg data d l ?c))"
    by (auto simp: accounts_to_purge_def Bex_def split_paired_Ex)
  then show ?thesis unfolding dom purgeable_def should_purge_iff by auto
qed

section \<open>What is left\<close>

lemma purged_account_at:
  "account_at p (purge_account e s (d, l)) = (if p = email_of l d then None else account_at p s)"
  by (simp add: purge_account_def account_at_def remove_account_dir_def drop_account_def acc_remove_def Let_def
      split: prod.split bool.split)

lemma get_filter_value:
  "bt_ok m \<Longrightarrow> bt_get (filter (\<lambda>(k, v). Q v) m) x = (case bt_get m x of None \<Rightarrow> None | Some v \<Rightarrow> if Q v then Some v else None)"
  by (induction m) (auto simp: bt_ok_def bt_get_def map_of_eq_None_iff image_iff split: option.split)

lemma purged_primary:
  assumes "accounts_ok (r_accounts s)"
  shows "primary_of e (purge_account e' s (d, l)) x =
    (case primary_of e s x of None \<Rightarrow> None | Some p \<Rightarrow> if p = email_of l d then None else Some p)"
  using assms
  by (auto simp: accounts_ok_def purge_account_def primary_of_def remove_account_dir_def drop_account_def acc_remove_def
      Let_def get_filter_value split: prod.split bool.split option.split)

lemma purge_account_ok:
  "accounts_ok (r_accounts s) \<Longrightarrow> accounts_ok (r_accounts (purge_account e s a))"
  using run_accounts_ok [of "r_accounts s" "e_jenv e" "e_hooks e" _ "Remove (email_of (snd a) (fst a))"]
  by (cases a) (simp add: purge_account_def remove_account_dir_def drop_account_def Let_def split: prod.split bool.split)

lemma purge_all_at:
  "accounts_ok (r_accounts s) \<Longrightarrow>
   account_at p (foldl (purge_account e) s as) = (if p \<in> (\<lambda>(d, l). email_of l d) ` set as then None else account_at p s) \<and>
   primary_of e (foldl (purge_account e) s as) x =
     (case primary_of e s x of None \<Rightarrow> None | Some p \<Rightarrow> if p \<in> (\<lambda>(d, l). email_of l d) ` set as then None else Some p)"
proof (induction as arbitrary: s)
  case (Cons a as)
  obtain d l where a: "a = (d, l)" by fastforce
  have "accounts_ok (r_accounts (purge_account e s a))" by (rule purge_account_ok [OF Cons.prems])
  from Cons.IH [OF this] show ?case
    by (auto simp: a purged_account_at purged_primary [OF Cons.prems] split: option.split)
qed (auto split: option.split)

definition goes :: "(string \<Rightarrow> mtree list option) \<Rightarrow> 'k relay_env \<Rightarrow> Relay.relay \<Rightarrow> string \<Rightarrow> bool" where
  "goes walks e s p \<longleftrightarrow> inactive_purge_days (e_cfg e) \<noteq> 0 \<and> (\<exists>d dc l. p = email_of l d \<and>
    purgeable walks (e_cfg e) (e_data e) (all_files s) (purge_cutoff (e_now e) (inactive_purge_days (e_cfg e))) d dc l)"

text \<open>
  C20. The sweep takes unused accounts and no others. After a sweep an account is gone exactly
  if its domain is configured and open to registration, the configuration does not name it, it has
  a directory, and no file in that directory, here or in the data directory of any peer, was
  modified after the cutoff; with no limit of days set nothing goes. Every other account is there
  as it was, and an address that led to an account that stays leads to it still, while those of an
  account that went lead nowhere.
\<close>

theorem sweep_takes_unused_only:
  assumes "bt_ok (domains (e_cfg e))" "accounts_ok (r_accounts s)"
  shows "account_at p (purge_inactive walks e s) = (if goes walks e s p then None else account_at p s) \<and>
    primary_of e (purge_inactive walks e s) x =
      (case primary_of e s x of None \<Rightarrow> None | Some q \<Rightarrow> if goes walks e s q then None else Some q)"
proof -
  let ?as = "accounts_to_purge walks (e_cfg e) (e_data e) (e_now e) (all_files s)"
  have "p \<in> (\<lambda>(d, l). email_of l d) ` set ?as \<longleftrightarrow> (\<exists>d l. (d, l) \<in> set ?as \<and> p = email_of l d)" for p by force
  then have "p \<in> (\<lambda>(d, l). email_of l d) ` set ?as \<longleftrightarrow> goes walks e s p" for p
    unfolding goes_def to_purge_iff [OF assms(1)] by blast
  with purge_all_at [OF assms(2), of p e ?as x] show ?thesis unfolding purge_inactive_def by (simp split: option.split)
qed

text \<open>The directory of the peers' public keys is an account to the sweep.\<close>

lemma peer_keys_are_purged:
  assumes "bt_ok (domains cfg)" "inactive_purge_days cfg \<noteq> 0" "bt_get (domains cfg) d = Some dc" "allow_provision dc"
    "bt_get (d_accounts dc) ''peers'' = None" "read_dir f (pjoin data d) = Some (k, es)" "(''peers'', None) \<in> set es"
    "0 \<le> purge_cutoff now (inactive_purge_days cfg)"
    "\<forall>dir \<in> set (data # peer_data_dirs cfg). unused (walks (pjoin (pjoin dir d) ''peers'')) (purge_cutoff now (inactive_purge_days cfg))"
  shows "(d, ''peers'') \<in> set (accounts_to_purge walks cfg data now f)"
  using assms by (auto simp: to_purge_iff purgeable_def)

end
