(* ===== verification/Lifetime.thy ===== *)
theory Lifetime
  imports MaintenanceProps AnchorProps
begin

text \<open>
  A relay over its whole life: what \<open>main.rs\<close> sets up, and then requests, sessions on port 25,
  the tasks that send, notify, sweep and follow the identities, in any order.
\<close>

section \<open>The steps\<close>

text \<open>
  Each step has its own environment out of \<open>E\<close>, and everything else it meets is arbitrary: what
  the clock and the random source gave (\<open>draws\<close>), the network, and the queue's disk.
\<close>

inductive alive :: "'p outbound \<Rightarrow> web_push \<Rightarrow> 'k relay_env set \<Rightarrow> Relay.relay \<Rightarrow> bool" for o' p E where
  booted: "e \<in> E \<Longrightarrow> boot e keys tokens (relay_new f d) = Ret (Some s) \<Longrightarrow> alive o' p E s"
| served: "alive o' p E s \<Longrightarrow> e \<in> E \<Longrightarrow> alive o' p E (snd (serve_request e q body s))"
| received: "alive o' p E s \<Longrightarrow> e \<in> E \<Longrightarrow> alive o' p E (snd (receive_session o' e w uc tls i upgraded s))"
| noticed: "alive o' p E s \<Longrightarrow> e \<in> E \<Longrightarrow> alive o' p E (deliver_local o' e wd ac label raw s)"
| sent: "alive o' p E s \<Longrightarrow> e \<in> E \<Longrightarrow> alive o' p E (fst (snd (spawn_send k n i o' e wd ac job (s, q))))"
| notified: "alive o' p E s \<Longrightarrow> e \<in> E \<Longrightarrow> alive o' p E (push_notify p e account s)"
| swept: "alive o' p E s \<Longrightarrow> e \<in> E \<Longrightarrow> alive o' p E (purge_inactive walks e s)"
| reconciled: "alive o' p E s \<Longrightarrow> e \<in> E \<Longrightarrow>
    reconcile_aliases (e_transport e) (e_files e) (lower e) (e_cfg e) (e_data e) (r_accounts s, r_fs s) = Ret (a, f) \<Longrightarrow>
    alive o' p E (s\<lparr>r_accounts := a, r_fs := f\<rparr>)"

section \<open>What every step keeps\<close>

lemma scan_keeps:
  assumes "\<And>l d s. P s \<Longrightarrow> P (register l d s)" "P s"
  shows "P (scan_dyn_accounts v cfg dyn data fs_of register s)"
proof -
  have fold: "(\<And>s x. P s \<Longrightarrow> P (g s x)) \<Longrightarrow> P s \<Longrightarrow> P (foldl g s xs)" for g s xs
    by (induction xs arbitrary: s) auto
  have "P s \<Longrightarrow> P (scan_entry v cfg data fs_of register d s x)" for d s x
    using assms(1) by (auto simp: scan_entry_def Let_def split: prod.split option.split)
  then have "P s \<Longrightarrow> P (scan_domain v cfg data fs_of register s d)" for d s
    by (auto simp: scan_domain_def split: option.split prod.split intro!: fold)
  then show ?thesis unfolding scan_dyn_accounts_def by (intro fold assms(2))
qed

lemma registered_ok: "accounts_ok (r_accounts s) \<Longrightarrow> accounts_ok (r_accounts (register_dyn_account e l d s))"
  by (rule effects_accounts_ok [OF register_effects])

lemma scanned_ok:
  "accounts_ok (r_accounts s) \<Longrightarrow>
   accounts_ok (r_accounts (scan_dyn_accounts v cfg dyn data r_fs (\<lambda>l d. register_dyn_account e l d) s))"
  by (rule scan_keeps [where P = "\<lambda>s. accounts_ok (r_accounts s)", OF registered_ok])

lemma opened_ok: "open_stores e s = Some s' \<Longrightarrow> accounts_ok (r_accounts s) \<Longrightarrow> accounts_ok (r_accounts s')"
  by (simp add: open_stores_def open_all_ok)

lemma new_ok: "accounts_ok accounts_new"
  by (simp add: accounts_new_def accounts_ok_def)

lemma booted_ok: "boot e keys tokens (relay_new f d) = Ret (Some s) \<Longrightarrow> accounts_ok (r_accounts s)"
  by (auto simp: boot_def boot_cleanup_def load_push_subscriptions_def relay_new_def Let_def bind_out_Ret_iff new_ok
      intro!: scanned_ok dest!: opened_ok split: option.splits prod.splits)

lemma delivered_ok:
  "accounts_ok (r_accounts s) \<Longrightarrow> accounts_ok (r_accounts (snd (delivery_deliver o' e from rws raw s)))"
  using deliver_all_frame [of s o' e "from" raw rws] by (simp add: delivery_deliver_def Let_def)

lemma received_ok:
  assumes "accounts_ok (r_accounts s)"
  shows "accounts_ok (r_accounts (snd (receive_session o' e w uc tls i upgraded s)))"
proof -
  have "accounts_ok (r_accounts s) \<Longrightarrow>
      accounts_ok (r_accounts (foldl (\<lambda>s nd. snd (delivery_deliver o' e (d_from (snd nd)) (with_draws w nd) (d_raw (snd nd)) s)) s xs))" for s xs
    by (induction xs arbitrary: s) (simp_all add: delivered_ok)
  then show ?thesis using assms by (simp add: receive_session_def Let_def)
qed

lemma noticed_ok: "accounts_ok (r_accounts s) \<Longrightarrow> accounts_ok (r_accounts (deliver_local o' e w ac from raw s))"
  using store_message_ok [of s o' e w ac raw]
  by (auto simp: deliver_local_def store_and_log_def split: prod.split)

lemma put_if_kept_ok: "accounts_ok (r_accounts s) \<Longrightarrow> accounts_ok (r_accounts (put_if_kept e p m s))"
  by (simp add: put_if_kept_def set_store_ok split: option.split)

lemma sent_ok: "accounts_ok (r_accounts s) \<Longrightarrow> accounts_ok (r_accounts (fst (snd (spawn_send k n i o' e w ac job (s, q)))))"
  by (auto simp: spawn_send_def after_send_def Relay.record_smtp_outbound_def Let_def put_if_kept_ok
      split: prod.split outcome.split sum.split send_outcome.split option.split)

lemma notified_accounts [simp]: "r_accounts (push_notify p e account s) = r_accounts s"
  by (simp add: push_notify_def Let_def split: prod.split)

lemma swept_ok: "accounts_ok (r_accounts s) \<Longrightarrow> accounts_ok (r_accounts (purge_inactive walks e s))"
proof -
  have "accounts_ok (r_accounts s) \<Longrightarrow> accounts_ok (r_accounts (foldl (purge_account e) s as))" for s as
    by (induction as arbitrary: s) (simp_all add: purge_account_ok)
  then show "accounts_ok (r_accounts s) \<Longrightarrow> accounts_ok (r_accounts (purge_inactive walks e s))"
    by (simp add: purge_inactive_def)
qed

lemma planned_ok: "accounts_ok t \<Longrightarrow> accounts_ok (apply_plan lc primary plan t)"
proof -
  have "accounts_ok t \<Longrightarrow> accounts_ok (foldl (\<lambda>t al. snd (remove_alias al primary t)) t als)" for t als
    by (induction als arbitrary: t) (simp_all add: remove_alias_ok)
  then show "accounts_ok t \<Longrightarrow> accounts_ok (apply_plan lc primary plan t)"
    by (auto simp: apply_plan_def Let_def add_alias_ok split: option.split)
qed

lemma reconciled_ok:
  assumes "reconcile_aliases tr v lc cfg data s = Ret s'" "accounts_ok (fst s)"
  shows "accounts_ok (fst s')"
proof -
  have one: "reconcile_one tr v lc cfg data s p = Ret s' \<Longrightarrow> accounts_ok (fst s) \<Longrightarrow> accounts_ok (fst s')" for s s' p
    by (cases s) (auto simp: reconcile_one_def Let_def bind_out_Ret_iff planned_ok split: option.splits prod.splits if_splits)
  have "reconcile_all tr v lc cfg data s ps = Ret s' \<Longrightarrow> accounts_ok (fst s) \<Longrightarrow> accounts_ok (fst s')" for s s' ps
    by (induction ps arbitrary: s) (auto simp: bind_out_Ret_iff dest: one)
  then show ?thesis using assms by (auto simp: reconcile_aliases_def split: if_splits)
qed

lemma alive_ok: "alive o' p E s \<Longrightarrow> accounts_ok (r_accounts s)"
proof (induction rule: alive.induct)
  case (served s e q body)
  from effects_accounts_ok [OF request_does [unfolded does_def] served.IH] show ?case .
next
  case (reconciled s e a f)
  from reconciled_ok [OF reconciled.hyps(3)] reconciled.IH show ?case by simp
qed (simp_all add: booted_ok received_ok noticed_ok sent_ok swept_ok)

text \<open>
  C7. Mail never goes nowhere. From the start of the process on, whatever requests it served, whatever
  sessions it received mail in, sends, notices, push notifications, sweeps and passes over the
  aliases there were, in any order: an address the SMTP server accepts mail for leads to an account
  that exists and is kept under its own primary address, and to nothing if its account is gone.
\<close>

theorem served_address_has_account:
  assumes "alive o' p E s"
  shows "(delivery_accepts e s x \<longleftrightarrow> primary_of e s x \<noteq> None) \<and>
    (case primary_of e s x of
       None \<Rightarrow> acc_resolve (lower e) (r_accounts s) x = None
     | Some q \<Rightarrow> \<exists>ac. acc_resolve (lower e) (r_accounts s) x = Some ac \<and> acc_email ac = q)"
proof (cases "primary_of e s x")
  case None
  then show ?thesis by (simp add: delivery_accepts_def resolve_account)
next
  case (Some q)
  note ok = alive_ok [OF assms]
  obtain ac where "account_at q s = Some ac"
    using accounts_okD(4) [OF ok] Some by (auto simp: primary_of_def account_at_def)
  moreover from this have "acc_email ac = q" using accounts_keyed [OF ok] by (simp add: keyed_def)
  ultimately show ?thesis using Some by (simp add: delivery_accepts_def resolve_account)
qed

end
