(* ===== verification/AutocryptProps.thy ===== *)
theory AutocryptProps
  imports Autocrypt MimeProps
begin

text \<open>
  What the packaging of \<open>autocrypt.rs\<close> and \<open>pgp.rs\<close> keeps: a wrapped message reads back as the
  block the client made, a sealed document as its text and attachments, an advertised key as the key.
\<close>

section \<open>Media types with quoted parameters\<close>

definition token :: "string \<Rightarrow> bool" where
  "token t \<longleftrightarrow> t \<noteq> [] \<and> list_all graphic t \<and> {CHR '';'', CHR ''='', CHR 0x22} \<inter> set t = {}"

definition quoted :: "string \<Rightarrow> string" where
  "quoted v = [CHR 0x22] @ v @ [CHR 0x22]"

definition param :: "string \<times> string \<Rightarrow> string" where
  "param p = SP # fst p @ ''='' @ quoted (snd p)"

definition media_text :: "string \<Rightarrow> (string \<times> string) list \<Rightarrow> string" where
  "media_text m ps = m @ concat (map (\<lambda>p. '';'' @ param p) ps)"

definition good_param :: "string \<times> string \<Rightarrow> bool" where
  "good_param p \<longleftrightarrow> token (fst p) \<and> CHR 0x22 \<notin> set (snd p)"

lemma graphic_quote: "graphic (CHR 0x22)"
  by (simp add: graphic_def byte_def)

lemma trim_graphic_ends: "s \<noteq> [] \<Longrightarrow> graphic (hd s) \<Longrightarrow> graphic (last s) \<Longrightarrow> trim s = s"
  by (cases s) (simp_all add: trim_def trim_end_graphic)

lemma trim_token: "token t \<Longrightarrow> trim t = t"
  by (rule trim_graphic_ends) (auto simp: token_def list_all_iff)

lemma trim_SP: "trim (SP # s) = trim s"
  by (simp add: trim_def SP_def)

lemma unquote_quoted [simp]: "unquote (quoted v) = v"
  by (simp add: unquote_def quoted_def strip_prefix_def strip_suffix_def is_suffix_def)

lemma trim_quoted [simp]: "trim (quoted v) = quoted v"
  by (rule trim_graphic_ends) (simp_all add: quoted_def graphic_quote)

lemma split_quoted_run:
  "x \<notin> set s \<or> q \<Longrightarrow> CHR 0x22 \<notin> set s \<Longrightarrow> split_quoted x q p (s @ t) = split_quoted x q (p @ s) t"
  by (induction s arbitrary: p) auto

lemma split_quoted_value:
  "CHR 0x22 \<notin> set v \<Longrightarrow> split_quoted (CHR '';'') False p (quoted v @ t) = split_quoted (CHR '';'') False (p @ quoted v) t"
  using split_quoted_run [of "CHR '';''" v True "p @ [CHR 0x22]" "CHR 0x22 # t"] by (simp add: quoted_def)

lemma split_quoted_param:
  "good_param p \<Longrightarrow> split_quoted (CHR '';'') False [] (param p @ t) = split_quoted (CHR '';'') False (param p) t"
proof -
  assume p: "good_param p"
  let ?s = "SP # fst p @ ''=''"
  have "CHR '';'' \<notin> set ?s" "CHR 0x22 \<notin> set ?s" using p by (auto simp: good_param_def token_def SP_def)
  from split_quoted_run [of "CHR '';''" ?s False "[]", OF disjI1, OF this]
  have "split_quoted (CHR '';'') False [] (?s @ quoted (snd p) @ t) = split_quoted (CHR '';'') False ?s (quoted (snd p) @ t)"
    by simp
  moreover have "CHR 0x22 \<notin> set (snd p)" using p by (simp add: good_param_def)
  note split_quoted_value [OF this, of ?s t]
  moreover have "param p = ?s @ quoted (snd p)" by (simp add: param_def)
  ultimately show ?thesis by simp
qed

lemma split_params:
  "list_all good_param (p # ps) \<Longrightarrow>
   split_quoted (CHR '';'') False [] (param p @ concat (map (\<lambda>p. '';'' @ param p) ps)) = map param (p # ps)"
proof (induction ps arbitrary: p)
  case Nil
  then show ?case using split_quoted_param [of p "[]"] by (simp add: param_def)
next
  case (Cons p2 ps)
  then show ?case using split_quoted_param [of p "'';'' @ param p2 @ concat (map (\<lambda>p. '';'' @ param p) ps)"] by simp
qed

lemma media_param_good:
  assumes "good_param p"
  shows "media_param m (param p) = bt_ins (ascii_lower (fst p)) (snd p) m"
proof -
  have k: "token (fst p)" using assms by (simp add: good_param_def)
  have "CHR ''='' \<notin> set (SP # fst p)" using k by (auto simp: token_def SP_def)
  from split_once_first [OF this, of "quoted (snd p)"]
  have "split_once (CHR ''='') (param p) = Some (SP # fst p, quoted (snd p))" by (simp add: param_def)
  then show ?thesis by (simp add: media_param_def trim_SP trim_token [OF k])
qed

lemma foldl_params:
  "list_all good_param ps \<Longrightarrow> foldl media_param m (map param ps) = foldl (\<lambda>m p. bt_ins (ascii_lower (fst p)) (snd p) m) m ps"
  by (induction ps arbitrary: m) (simp_all add: media_param_good)

lemma media_text_ends:
  assumes "token m"
  shows "media_text m ps \<noteq> [] \<and> graphic (hd (media_text m ps)) \<and> graphic (last (media_text m ps))"
proof -
  have m: "m \<noteq> []" "graphic (hd m)" "graphic (last m)" using assms by (auto simp: token_def list_all_iff)
  have "graphic (last (media_text m ps))"
  proof (cases ps rule: rev_cases)
    case (snoc qs q)
    then show ?thesis by (simp add: media_text_def param_def quoted_def graphic_quote)
  qed (simp add: media_text_def m)
  then show ?thesis using m by (simp add: media_text_def)
qed

lemma parse_media_text:
  assumes "token m" "list_all good_param ps"
  shows "parse_media_type (media_text m ps) =
    Some (ascii_lower m, foldl (\<lambda>m p. bt_ins (ascii_lower (fst p)) (snd p) m) [] ps)"
proof -
  note ends = media_text_ends [OF assms(1), of ps]
  then have t: "trim (media_text m ps) = media_text m ps" by (intro trim_graphic_ends) simp_all
  have m: "CHR '';'' \<notin> set m" "ascii_lower m \<noteq> []" using assms(1) by (auto simp: token_def ascii_lower_def)
  show ?thesis
  proof (cases ps)
    case Nil
    have "split_once (CHR '';'') m = None" using m(1) by (induction m) auto
    then show ?thesis using ends t m(2) trim_token [OF assms(1)] Nil by (simp add: parse_media_type_def media_text_def)
  next
    case (Cons p qs)
    let ?rest = "param p @ concat (map (\<lambda>p. '';'' @ param p) qs)"
    have "media_text m ps = m @ CHR '';'' # ?rest" by (simp add: media_text_def Cons)
    with split_once_first [OF m(1), of ?rest]
    have "split_once (CHR '';'') (media_text m ps) = Some (m, ?rest)" by simp
    then show ?thesis
      using ends t m(2) trim_token [OF assms(1)] split_params [of p qs] foldl_params [OF assms(2), of "[]"] assms(2) Cons
      by (simp add: parse_media_type_def)
  qed
qed

section \<open>The wrapped message\<close>

lemma find_bytes_first: "p \<noteq> [] \<Longrightarrow> absent p s (p @ t) \<Longrightarrow> find_bytes (s @ p @ t) p = Some (length s)"
  using find_sub_first by (simp add: find_bytes_def)

lemma find_bytes_absent: "absent p s [] \<Longrightarrow> find_bytes s p = None"
  using find_sub_absent by (simp add: find_bytes_def)

lemma replace_all_LF: "replace_all s [LF] CRLF = concat (map (\<lambda>c. if c = LF then CRLF else [c]) s)"
proof (induction s rule: length_induct)
  case (1 s)
  show ?case
  proof (cases "LF \<in> set s")
    case False
    then have "find_bytes s [LF] = None" by (intro find_bytes_absent absent_hd) simp_all
    moreover have "concat (map (\<lambda>c. if c = LF then CRLF else [c]) s) = s" using False by (induction s) auto
    ultimately show ?thesis by (simp add: replace_all.simps [of s])
  next
    case True
    then obtain a b where s: "s = a @ LF # b" "LF \<notin> set a" by (meson split_list_first)
    have "find_bytes (a @ [LF] @ b) [LF] = Some (length a)" by (intro find_bytes_first absent_hd) (use s in simp_all)
    moreover have "concat (map (\<lambda>c. if c = LF then CRLF else [c]) a) = a" using s(2) by (induction a) auto
    ultimately show ?thesis using 1 s(1) by (simp add: replace_all.simps [of "a @ LF # b"])
  qed
qed

lemma replace_all_Cons:
  "replace_all [] [LF] CRLF = []"
  "replace_all (c # s) [LF] CRLF = (if c = LF then CRLF else [c]) @ replace_all s [LF] CRLF"
  by (simp_all add: replace_all_LF)

lemmas crlfed = CRLF_eq replace_all_Cons [unfolded CRLF_eq]

lemma normalise_Cons: "c \<noteq> CR \<Longrightarrow> normalise_newlines (c # s) = c # normalise_newlines s"
  by (cases s) simp_all

lemma normalise_replaced: "CR \<notin> set s \<Longrightarrow> normalise_newlines (replace_all s [LF] CRLF) = s"
proof (induction s)
  case (Cons c s)
  then have "normalise_newlines (replace_all s [LF] CRLF) = s" by simp
  moreover have "normalise_newlines (CRLF @ t) = LF # normalise_newlines t" for t by (simp add: CRLF_eq)
  ultimately show ?case using Cons.prems by (auto simp: replace_all_Cons normalise_Cons)
qed (simp add: replace_all_Cons)

text \<open>The lines of a block of rendered headers.\<close>

lemma split_crlf_line:
  assumes "CR \<notin> set l"
  shows "split_crlf (l @ CRLF @ t) = l # split_crlf t"
proof -
  have "find_bytes (l @ CRLF @ t) CRLF = Some (length l)"
    by (intro find_bytes_first absent_hd) (use assms in \<open>simp_all add: CRLF_eq\<close>)
  then show ?thesis by (subst split_crlf.simps) (simp add: CRLF_eq)
qed

lemma split_crlf_last:
  assumes "CR \<notin> set l" "l \<noteq> []"
  shows "split_crlf l = [l]"
proof -
  have "find_bytes l CRLF = None" by (intro find_bytes_absent absent_hd) (use assms in \<open>simp_all add: CRLF_eq\<close>)
  then show ?thesis using assms(2) by (subst split_crlf.simps) simp
qed

definition header_text :: "string \<times> string \<Rightarrow> string" where
  "header_text h = fst h @ '': '' @ snd h"

lemma render_text: "render_header h = header_text h @ CRLF"
  by (simp add: render_header_def header_text_def split: prod.split)

lemma header_text_clean: "clean_header h \<Longrightarrow> CR \<notin> set (header_text h) \<and> header_text h \<noteq> []"
  by (auto simp: clean_header_def header_text_def CR_def split: prod.splits)

lemma split_crlf_rendered:
  "list_all clean_header hs \<Longrightarrow> concat (map render_header hs) = x @ CRLF \<Longrightarrow> split_crlf x = map header_text hs"
proof (induction hs arbitrary: x)
  case Nil
  then show ?case by (simp add: CRLF_def)
next
  case (Cons h hs)
  note h = header_text_clean [of h]
  show ?case
  proof (cases "hs = []")
    case True
    then have "x = header_text h" using Cons.prems(2) by (simp add: render_text)
    then show ?thesis using True h Cons.prems(1) split_crlf_last [of x] by simp
  next
    case False
    then obtain y where y: "concat (map render_header hs) = y @ CRLF"
      by (cases hs rule: rev_cases) (simp_all add: render_text)
    then have "(header_text h @ CRLF @ y) @ CRLF = x @ CRLF" using Cons.prems(2) by (simp add: render_text [of h])
    then have "x = header_text h @ CRLF @ y" by (simp only: append_same_eq)
    then show ?thesis using h Cons y split_crlf_line [of "header_text h" y] by simp
  qed
qed

definition body_header :: "string \<times> string \<Rightarrow> bool" where
  "body_header h \<longleftrightarrow> eq_ignore_ascii_case (fst h) ''content-type'' \<or> eq_ignore_ascii_case (fst h) ''content-transfer-encoding''"

lemma describes_clean: "clean_header h \<Longrightarrow> describes_body (header_text h) = body_header h"
proof -
  assume "clean_header h"
  then have "CHR '':'' \<notin> set (fst h)" "utf8_ok (fst h)" by (auto simp: clean_header_def split: prod.splits)
  moreover from this have "takeWhile (\<lambda>c. c \<noteq> CHR '':'') (fst h @ '': '' @ snd h) = fst h"
    by (subst takeWhile_append2) auto
  ultimately have "header_name (header_text h) = fst h" by (simp add: header_name_def header_text_def Let_def)
  then show ?thesis by (simp add: describes_body_def body_header_def)
qed

lemma kept_lines:
  assumes "list_all clean_header hs"
  shows "concat (map (\<lambda>l. l @ CRLF) (filter (\<lambda>l. \<not> describes_body l) (map header_text hs))) =
    concat (map render_header (filter (\<lambda>h. \<not> body_header h) hs))"
  using assms by (induction hs) (simp_all add: describes_clean render_text)

definition armour :: "string \<Rightarrow> string" where
  "armour mid = pgp_marker @ mid @ pgp_end"

text \<open>An armoured message that can be told apart: bare LF line ends, and the END marker only at the end.\<close>

definition armour_ok :: "string \<Rightarrow> bool" where
  "armour_ok mid \<longleftrightarrow> CR \<notin> set mid \<and> is_ascii mid \<and> absent pgp_end (pgp_marker @ mid) pgp_end"

lemma marker_text: "pgp_marker \<noteq> []" "pgp_end \<noteq> []" "CR \<notin> set pgp_marker" "CR \<notin> set pgp_end"
    "is_ascii pgp_marker" "is_ascii pgp_end"
  by (simp_all add: pgp_marker_def pgp_end_def CR_def byte_def)

lemma pgp_block_found:
  assumes "absent pgp_marker pre (pgp_marker @ mid @ pgp_end @ post)" "armour_ok mid"
  shows "pgp_block (pre @ armour mid @ post) = Some (armour mid)"
proof -
  have "find_bytes (pre @ pgp_marker @ mid @ pgp_end @ post) pgp_marker = Some (length pre)"
    by (intro find_bytes_first marker_text assms(1))
  moreover have "absent pgp_end (pgp_marker @ mid) (pgp_end @ post)"
    by (rule absent_tail) (use assms(2) in \<open>simp add: armour_ok_def\<close>)
  then have "find_bytes ((pgp_marker @ mid) @ pgp_end @ post) pgp_end = Some (length (pgp_marker @ mid))"
    by (intro find_bytes_first marker_text)
  ultimately show ?thesis by (simp add: pgp_block_def armour_def)
qed

definition marked_type :: "string \<Rightarrow> string \<times> string" where
  "marked_type b = (''Content-Type'', encrypted_type b)"

definition wrapped_parts :: "string \<Rightarrow> string list" where
  "wrapped_parts block =
    [render_header (''Content-Type'', ''application/pgp-encrypted'') @ CRLF @ ''Version: 1'' @ CRLF,
     render_header (''Content-Type'', ''application/octet-stream'') @ CRLF @ replace_all block [LF] CRLF]"

text \<open>The shape of the wrapped message.\<close>

lemma wrap_shape:
  assumes "list_all clean_header hs" "hs \<noteq> []"
    "absent pgp_marker pre (pgp_marker @ mid @ pgp_end @ post)" "armour_ok mid"
  shows "pgp_mime_wrap_inline sha1 (concat (map render_header hs) @ CRLF @ pre @ armour mid @ post) =
    (let b = pgp_boundary sha1 (armour mid) in
     Some (concat (map render_header (filter (\<lambda>h. \<not> body_header h) hs @ [marked_type b])) @ CRLF @
           multipart b (wrapped_parts (armour mid)) @ CRLF))"
proof -
  let ?body = "pre @ armour mid @ post"
  obtain x where x: "concat (map render_header hs) = x @ CRLF" "absent (CRLF @ CRLF) x ((CRLF @ CRLF) @ ?body)"
    using rendered_ends [OF assms(1,2)] by blast
  have "CRLF @ CRLF \<noteq> []" by (simp add: CRLF_def)
  from find_bytes_first [OF this x(2)] have f: "find_bytes (x @ CRLF @ CRLF @ ?body) (CRLF @ CRLF) = Some (length x)" by simp
  have l: "length CRLF = 2" by (simp add: CRLF_def)
  then have d: "drop (length x + 4) (x @ CRLF @ CRLF @ ?body) = ?body" by (simp add: drop_Cons')
  have t: "take (length x) (x @ CRLF @ CRLF @ ?body) = x" by simp
  have "(x @ CRLF) @ CRLF @ ?body = x @ CRLF @ CRLF @ ?body" by simp
  then show ?thesis
    unfolding x(1)
    by (simp only: pgp_mime_wrap_inline_def f d t option.case pgp_block_found [OF assms(3,4)]
        split_crlf_rendered [OF assms(1) x(1)] kept_lines [OF assms(1)])
      (simp add: Let_def multipart_def wrapped_parts_def marked_type_def render_header_def delimiter_def)
qed

lemma prefix_before: "x \<notin> set p \<Longrightarrow> is_prefix p (s @ x # t) \<Longrightarrow> is_prefix p s"
proof (induction s arbitrary: p)
  case Nil
  then show ?case by (cases p) auto
next
  case (Cons c s)
  then show ?case by (cases p) auto
qed

lemma absent_line: "x \<notin> set p \<Longrightarrow> \<not> contains s p \<Longrightarrow> absent p s (x # t)"
proof (induction s)
  case (Cons c s)
  then show ?case using prefix_before [of x p "c # s" t] by (auto simp: absent_Cons)
qed simp

lemma prefix_replaced:
  assumes "CR \<notin> set p" "LF \<notin> set p"
  shows "is_prefix p (replace_all s [LF] CRLF @ CRLF @ u) = is_prefix p (s @ [LF])"
  using assms
proof (induction s arbitrary: p)
  case Nil
  then show ?case by (cases p) (auto simp: crlfed)
next
  case (Cons c s)
  then show ?case by (cases p) (auto simp: crlfed)
qed

lemma absent_replaced:
  assumes "CR \<notin> set p" "LF \<notin> set p" "p \<noteq> []" "\<not> contains s p"
  shows "absent p (replace_all s [LF] CRLF) (CRLF @ u)"
  using assms(4)
proof (induction s)
  case (Cons c s)
  have n: "\<not> is_prefix p (c # replace_all s [LF] CRLF @ CRLF @ u)" if "c \<noteq> LF"
    using prefix_replaced [OF assms(1,2), of "c # s" u] prefix_before [OF assms(2), of "c # s" "[]"] Cons.prems that
    by (auto simp: replace_all_Cons)
  have "\<not> is_prefix p (LF # w)" "\<not> is_prefix p (CR # w)" for w using assms by (cases p; auto)+
  then show ?case using Cons n by (auto simp: crlfed absent_Cons absent_append)
qed (simp add: replace_all_Cons)

lemma hex_digit_kind: "n < 16 \<Longrightarrow> is_digit (hex_digit n) \<or> is_lower (hex_digit n)"
  by (auto simp: hex_digit_def is_digit_def is_lower_def)

lemma hex_digits: "c \<in> set (hex s) \<Longrightarrow> is_digit c \<or> is_lower c"
proof -
  assume "c \<in> set (hex s)"
  then obtain x where c: "c = hex_digit (byte x div 16) \<or> c = hex_digit (byte x mod 16)" by (auto simp: hex_def)
  have "byte x div 16 < 16" "byte x mod 16 < 16" using byte_less [of x] by linarith+
  with c hex_digit_kind show ?thesis by blast
qed

lemma hex_plain: "list_all (\<lambda>c. graphic c \<and> byte c < 128 \<and> byte c \<noteq> 34 \<and> byte c \<noteq> 45) (hex s)"
  using hex_digits by (fastforce simp: list_all_iff graphic_def is_digit_def is_lower_def)

lemma boundary_plain:
  "list_all (\<lambda>c. graphic c \<and> byte c < 128 \<and> byte c \<noteq> 34) (pgp_boundary sha1 block)"
  using hex_plain [of "take 6 (sha1 block)"] by (simp add: pgp_boundary_def list_all_iff graphic_def byte_def)

lemma encrypted_type_text:
  "encrypted_type b = media_text ''multipart/encrypted'' [(''protocol'', ''application/pgp-encrypted''), (''boundary'', b)]"
  by (simp add: encrypted_type_def media_text_def param_def quoted_def SP_def)

lemma encrypted_type_parses:
  assumes "CHR 0x22 \<notin> set b"
  shows "parse_media_type (encrypted_type b) =
    Some (''multipart/encrypted'', [(''boundary'', b), (''protocol'', ''application/pgp-encrypted'')])"
proof -
  have t: "token ''multipart/encrypted''" "token ''protocol''" "token ''boundary''"
    by (simp_all add: token_def graphic_def byte_def)
  have p: "list_all good_param [(''protocol'', ''application/pgp-encrypted''), (''boundary'', b)]"
    using t assms by (simp add: good_param_def)
  show ?thesis
    unfolding encrypted_type_text parse_media_text [OF t(1) p]
    by (simp add: ascii_lower_def ascii_lower_char_def is_upper_def byte_def)
qed

lemma marked_type_clean: "clean_header (marked_type (pgp_boundary sha1 block))"
proof -
  let ?b = "pgp_boundary sha1 block"
  have t: "token ''multipart/encrypted''" by (simp add: token_def graphic_def byte_def)
  have trim: "trim (encrypted_type ?b) = encrypted_type ?b"
    unfolding encrypted_type_text using media_text_ends [OF t] by (intro trim_graphic_ends) simp_all
  have n: "trim ''Content-Type'' = ''Content-Type''" by (rule trim_graphic_ends) (simp_all add: graphic_def byte_def)
  have b: "\<And>c. c \<in> set ?b \<Longrightarrow> graphic c" "is_ascii ?b"
    using boundary_plain [of sha1 block] by (auto simp: list_all_iff is_ascii_def)
  have "is_ascii (encrypted_type ?b)" using b(2) by (simp add: encrypted_type_def byte_def)
  moreover have "CR \<notin> set (encrypted_type ?b)" "LF \<notin> set (encrypted_type ?b)"
    using b(1) [of CR] b(1) [of LF] by (auto simp: encrypted_type_def graphic_def CR_def LF_def byte_def)
  ultimately show ?thesis using trim n
    by (simp add: clean_header_def marked_type_def utf8_ok_ascii CR_def LF_def SP_def byte_def)
qed

lemma part_of_rendered:
  "clean_header h \<Longrightarrow> part_of (render_header h @ CRLF @ body) = [\<lparr>pt_headers = [h], pt_body = body\<rparr>]"
  using split_rendered [of "[h]" body] by (simp add: part_of_def)

lemma part_types:
  "clean_header (''Content-Type'', ''application/pgp-encrypted'')" "clean_header (''Content-Type'', ''application/octet-stream'')"
  by (simp_all add: clean_header_def trim_graphic_ends graphic_def byte_def SP_def CR_def LF_def)

lemma part_media:
  "media_of ''application/pgp-encrypted'' = ''application/pgp-encrypted''"
  "media_of ''application/octet-stream'' = ''application/octet-stream''"
  by (simp_all add: media_of_def parse_media_type_def trim_graphic_ends graphic_def byte_def ascii_lower_def
    ascii_lower_char_def is_upper_def)

lemma no_encoding: "decode_transfer e [] body = utf8_lossy body"
  by (simp add: decode_transfer_def decode_transfer_bytes_def trim_def ascii_lower_def)

lemma wrapped_picked:
  assumes "armour_ok mid"
  shows "List.map_filter (encrypted_part e) (concat (map part_of (wrapped_parts (armour mid)))) = [armour mid]"
proof -
  have a: "is_ascii (armour mid)" "CR \<notin> set (armour mid)"
    using assms marker_text by (auto simp: armour_ok_def armour_def)
  have "is_ascii (replace_all (armour mid) [LF] CRLF)"
    unfolding replace_all_LF using a(1) by (auto simp: is_ascii_def list_all_iff CRLF_def byte_def)
  then have t: "normalise_newlines (utf8_lossy (replace_all (armour mid) [LF] CRLF)) = armour mid"
    using normalise_replaced [OF a(2)] by (simp add: utf8_ok_ascii)
  have c: "contains (armour mid) pgp_marker" by (simp add: armour_def contains_prefix)
  have n: "hdr_get [(''Content-Type'', x)] ''Content-Type'' = x"
    "hdr_get [(''Content-Type'', x)] ''Content-Transfer-Encoding'' = []" for x
    by (simp_all add: hdr_get_def eq_ignore_ascii_case_def ascii_lower_def ascii_lower_char_def is_upper_def byte_def)
  have "utf8_lossy (''Version: 1'' @ CRLF) = ''Version: 1'' @ CRLF" by (simp add: utf8_ok_ascii CRLF_def byte_def)
  moreover have "normalise_newlines (''Version: 1'' @ CRLF) = ''Version: 1'' @ [LF]" by (simp add: CRLF_def CR_def LF_def)
  moreover have "\<not> contains (''Version: 1'' @ [LF]) pgp_marker" by (simp add: pgp_marker_def LF_def)
  ultimately have version: "\<not> contains (normalise_newlines (utf8_lossy (''Version: 1'' @ CRLF))) pgp_marker" by (simp only: simp_thms)
  then have "encrypted_part e \<lparr>pt_headers = [(''Content-Type'', ''application/pgp-encrypted'')], pt_body = ''Version: 1'' @ CRLF\<rparr> = None"
    unfolding encrypted_part_def Let_def part.simps n part_media no_encoding using version by (simp only: if_False if_cancel)
  moreover have "encrypted_part e \<lparr>pt_headers = [(''Content-Type'', ''application/octet-stream'')],
      pt_body = replace_all (armour mid) [LF] CRLF\<rparr> = Some (armour mid)"
    by (simp add: encrypted_part_def n part_media no_encoding t c)
  ultimately show ?thesis
    by (simp add: wrapped_parts_def part_of_rendered [OF part_types(1)] part_of_rendered [OF part_types(2)] List.map_filter_simps)
qed

lemma absent_parts:
  assumes "CR \<notin> set b" "LF \<notin> set b" "b \<noteq> []" "hd b = CHR ''b''" "\<not> contains block (delimiter b)"
  shows "\<forall>r \<in> set (wrapped_parts block). absent (delimiter b) (r @ CRLF) (delimiter b)"
proof -
  let ?d = "delimiter b"
  obtain b' where b: "b = CHR ''b'' # b'" using assms(3,4) by (cases b) auto
  have d: "CR \<notin> set ?d" "LF \<notin> set ?d" "?d \<noteq> []" using assms(1,2) by (auto simp: delimiter_def CR_def LF_def)
  have crlf: "absent ?d CRLF u" for u by (simp add: CRLF_def absent_Cons delimiter_def)
  have heads: "absent ?d (render_header (''Content-Type'', ''application/pgp-encrypted'')) u"
    "absent ?d (render_header (''Content-Type'', ''application/octet-stream'')) u" "absent ?d ''Version: 1'' (CRLF @ u)" for u
    by (simp_all add: render_header_def CRLF_def absent_Cons delimiter_def b)
  have "absent ?d (replace_all block [LF] CRLF) (CRLF @ u)" for u
    by (rule absent_replaced [OF d assms(5)])
  note block = this
  show ?thesis
    unfolding wrapped_parts_def by (simp only: list.set ball_simps absent_append append_assoc crlf heads block simp_thms)
qed

lemma parse_body:
  "split_message d = Some (hs, body) \<Longrightarrow> \<exists>m. parse_mime_email e d now = Some m \<and>
    message_body m = extract_mime_text e (hdr_get hs ''Content-Type'') (hdr_get hs ''Content-Transfer-Encoding'') body"
  by (simp add: parse_mime_email_def message_body_def bt_get_def)

lemma wrapped_body_text:
  assumes "armour_ok mid" "\<not> contains (armour mid) (delimiter (pgp_boundary sha1 (armour mid)))"
  shows "extract_mime_text e (encrypted_type (pgp_boundary sha1 (armour mid))) cte
    (multipart (pgp_boundary sha1 (armour mid)) (wrapped_parts (armour mid)) @ CRLF) = armour mid"
proof -
  let ?b = "pgp_boundary sha1 (armour mid)"
  have b: "CHR 0x22 \<notin> set ?b" "CR \<notin> set ?b" "LF \<notin> set ?b"
    using boundary_plain [of sha1 "armour mid"] by (auto simp: list_all_iff graphic_def byte_def CR_def LF_def)
  have bh: "?b \<noteq> []" "hd ?b = CHR ''b''" by (simp_all add: pgp_boundary_def)
  have "split_parts (multipart ?b (wrapped_parts (armour mid)) @ CRLF) ?b = concat (map part_of (wrapped_parts (armour mid)))"
    using absent_parts [OF b(2,3) bh assms(2)] by (intro multipart_splits [of _ "[]", simplified]) simp_all
  then show ?thesis
    by (simp add: extract_encrypted [OF encrypted_type_parses [OF b(1)]] bt_get_def wrapped_picked [OF assms(1)])
qed

lemma marked_lookup:
  "list_all (\<lambda>h. \<not> body_header h) hs \<Longrightarrow> hdr_get (hs @ [marked_type b]) ''Content-Type'' = encrypted_type b"
proof -
  assume "list_all (\<lambda>h. \<not> body_header h) hs"
  then have "\<not> list_ex (\<lambda>(k, _). eq_ignore_ascii_case k ''Content-Type'') hs"
    by (auto simp: list_ex_iff list_all_iff body_header_def eq_case_names(1))
  then show ?thesis by (simp add: hdr_get_append marked_type_def hdr_get_Cons eq_ignore_ascii_case_def)
qed

text \<open>Wrapping an encrypted message changes only its packaging: the header lines that do not
  describe the body stay, in their order, and whoever reads the wrapped message as this relay
  reads mail finds the client's armoured block, byte for byte, as its text.\<close>

theorem wrapped_message_reads_back:
  assumes "list_all clean_header hs" "hs \<noteq> []"
    "absent pgp_marker pre pgp_marker" "armour_ok mid"
    "\<not> contains (armour mid) (delimiter (pgp_boundary sha1 (armour mid)))"
  shows "\<exists>out body m. pgp_mime_wrap_inline sha1 (concat (map render_header hs) @ CRLF @ pre @ armour mid @ post) = Some out \<and>
    split_message out = Some (filter (\<lambda>h. \<not> body_header h) hs @ [marked_type (pgp_boundary sha1 (armour mid))], body) \<and>
    parse_mime_email e out now = Some m \<and> message_body m = armour mid"
proof -
  let ?b = "pgp_boundary sha1 (armour mid)" and ?raw = "concat (map render_header hs) @ CRLF @ pre @ armour mid @ post"
  let ?hs = "filter (\<lambda>h. \<not> body_header h) hs @ [marked_type ?b]"
  let ?out = "concat (map render_header ?hs) @ CRLF @ multipart ?b (wrapped_parts (armour mid)) @ CRLF"
  have wrap: "pgp_mime_wrap_inline sha1 ?raw = Some ?out"
    using wrap_shape [OF assms(1,2) absent_tail [OF assms(3)] assms(4), of sha1 post] by (simp only: Let_def)
  have "list_all clean_header ?hs" using assms(1) marked_type_clean by (auto simp: list_all_iff)
  from split_rendered [OF this] have split: "split_message ?out = Some (?hs, multipart ?b (wrapped_parts (armour mid)) @ CRLF)" by simp
  have "hdr_get ?hs ''Content-Type'' = encrypted_type ?b" by (rule marked_lookup) (simp add: list_all_iff)
  with parse_body [OF split, of e now] wrapped_body_text [OF assms(4,5), of e]
  have "\<exists>m. parse_mime_email e ?out now = Some m \<and> message_body m = armour mid" by metis
  with wrap split show ?thesis by blast
qed

definition demo_digest :: "string \<Rightarrow> string" where
  "demo_digest s = ''abcdef''"

definition demo_secret :: string where
  "demo_secret = [LF, LF] @ ''wcBMA=''"

lemma demo_boundary: "pgp_boundary demo_digest s = ''biset-pgp-616263646566''"
  by (simp add: pgp_boundary_def demo_digest_def hex_def hex_digit_def byte_def chr_def char_of_def bit_simps)

lemma wrapped_message_reads_back_witness:
  "\<exists>out body m. pgp_mime_wrap_inline demo_digest
      (concat (map render_header [(''Subject'', ''Hi''), (''Content-Type'', ''text/plain'')]) @ CRLF @ ''x'' @ armour demo_secret @ ''y'') = Some out \<and>
    split_message out = Some ([(''Subject'', ''Hi''), marked_type ''biset-pgp-616263646566''], body) \<and>
    parse_mime_email demo_mime out [] = Some m \<and> message_body m = armour demo_secret"
proof -
  have clean: "list_all clean_header [(''Subject'', ''Hi''), (''Content-Type'', ''text/plain'')]"
    by (simp add: clean_header_def trim_graphic_ends graphic_def byte_def SP_def CR_def LF_def)
  have pre: "absent pgp_marker ''x'' pgp_marker" by (simp add: absent_Cons pgp_marker_def)
  have "absent pgp_end (pgp_marker @ demo_secret) pgp_end"
    by (simp add: demo_secret_def pgp_marker_def pgp_end_def absent_Cons LF_def)
  then have mid: "armour_ok demo_secret" by (simp add: armour_ok_def demo_secret_def LF_def CR_def byte_def)
  have sep: "\<not> contains (armour demo_secret) (delimiter (pgp_boundary demo_digest (armour demo_secret)))"
    unfolding demo_boundary by (simp add: armour_def demo_secret_def delimiter_def pgp_marker_def pgp_end_def LF_def)
  have kept: "filter (\<lambda>h. \<not> body_header h) [(''Subject'', ''Hi''), (''Content-Type'', ''text/plain'')] = [(''Subject'', ''Hi'')]"
    by (simp add: body_header_def eq_ignore_ascii_case_def ascii_lower_def ascii_lower_char_def is_upper_def byte_def)
  show ?thesis
    using wrapped_message_reads_back [OF clean _ pre mid sep, of "''y''" demo_mime "[]"]
    unfolding kept demo_boundary append_Cons append_Nil by blast
qed

section \<open>Advertised keys\<close>

lemma trim_end_outer: "s = [] \<or> graphic (last s) \<Longrightarrow> trim_end s = s"
  by (cases "s = []") (simp_all add: trim_end_graphic)

lemma autocrypt_pieces:
  assumes "CHR '';'' \<notin> set from" "CHR '';'' \<notin> set kd"
  shows "split_on (CHR '';'') (autocrypt_value from kd) =
    [''addr='' @ from, '' prefer-encrypt=mutual'', '' keydata='' @ kd]"
proof -
  have "autocrypt_value from kd = (''addr='' @ from) @ CHR '';'' # '' prefer-encrypt=mutual'' @ CHR '';'' # '' keydata='' @ kd"
    by (simp add: autocrypt_value_def)
  moreover have "CHR '';'' \<notin> set (''addr='' @ from)" "CHR '';'' \<notin> set '' prefer-encrypt=mutual''"
    "CHR '';'' \<notin> set ('' keydata='' @ kd)"
    using assms by simp_all
  ultimately show ?thesis by (simp only: split_on_line split_on_none not_False_eq_True)
qed

text \<open>A key as it may arrive: base 64 text, folded.\<close>

definition folded_char :: "char \<Rightarrow> bool" where
  "folded_char c \<longleftrightarrow> graphic c \<and> c \<noteq> CHR '';'' \<or> byte c \<in> {9, 10, 13, 32}"

definition blanks :: "string list \<Rightarrow> bool" where
  "blanks ws \<longleftrightarrow> list_all (\<lambda>w. list_all folded_char w \<longrightarrow> unfold_keydata w = []) ws"

lemma blanks_ws: "blanks ws_chars" "blanks (map rev ws_chars)"
  by (simp_all add: blanks_def ws_chars_def folded_char_def graphic_def unfold_keydata_def)

lemma unfold_append: "unfold_keydata (a @ b) = unfold_keydata a @ unfold_keydata b"
  by (simp add: unfold_keydata_def)

lemma strip_folded:
  "blanks ws \<Longrightarrow> list_all folded_char s \<Longrightarrow>
   unfold_keydata (strip_front ws s) = unfold_keydata s \<and> list_all folded_char (strip_front ws s)"
proof (induction ws s rule: strip_front.induct)
  case (1 ws s)
  show ?case
  proof (cases "front_token ws s")
    case (Some w)
    then obtain t where w: "w \<in> set ws" "s = w @ t" using front_token_Some is_prefix_iff by metis
    then have "unfold_keydata w = []" using "1.prems" by (auto simp: blanks_def list_all_iff)
    with 1 Some w show ?thesis by (simp add: strip_front.simps [of ws "w @ t"] unfold_append) (simp add: unfold_keydata_def)
  qed (use "1.prems" in \<open>simp add: strip_front_no_token\<close>)
qed

lemma trim_folded: "list_all folded_char s \<Longrightarrow> unfold_keydata (trim s) = unfold_keydata s"
proof -
  assume s: "list_all folded_char s"
  have r: "unfold_keydata (rev s) = rev (unfold_keydata s)" for s by (simp add: unfold_keydata_def rev_filter)
  let ?t = "trim_start s"
  have t: "unfold_keydata ?t = unfold_keydata s" "list_all folded_char (rev ?t)"
    using strip_folded [OF blanks_ws(1) s] by (auto simp: trim_start_def list_all_iff)
  from strip_folded [OF blanks_ws(2) t(2)] t(1) show ?thesis by (simp add: trim_def trim_end_def r)
qed

definition plain_address :: "string \<Rightarrow> bool" where
  "plain_address a \<longleftrightarrow> a \<noteq> [] \<and> list_all graphic a \<and> CHR '';'' \<notin> set a"

lemma named_part:
  assumes "token k" "v \<noteq> []" "graphic (last v)"
  shows "split_once (CHR ''='') (trim (k @ ''='' @ v)) = Some (k, v)"
    "split_once (CHR ''='') (trim (SP # k @ ''='' @ v)) = Some (k, v)"
proof -
  have "trim (k @ ''='' @ v) = k @ ''='' @ v"
    by (rule trim_graphic_ends) (use assms in \<open>auto simp: token_def list_all_iff\<close>)
  moreover have "split_once (CHR ''='') (k @ ''='' @ v) = Some (k, v)"
    using split_once_first [of "CHR ''=''" k v] assms(1) by (simp add: token_def)
  ultimately show "split_once (CHR ''='') (trim (k @ ''='' @ v)) = Some (k, v)"
    "split_once (CHR ''='') (trim (SP # k @ ''='' @ v)) = Some (k, v)" by (simp_all only: trim_SP)
qed

lemma parse_advertised:
  assumes "plain_address from" "list_all folded_char kd" "kd \<noteq> []" "graphic (last kd)"
  shows "parse_autocrypt_header (autocrypt_value from kd) = (from, trim kd)"
proof -
  have f: "from \<noteq> []" "graphic (last from)" "graphic (hd from)" "CHR '';'' \<notin> set from"
    using assms(1) by (auto simp: plain_address_def list_all_iff)
  note fr = trim_graphic_ends [OF f(1) f(3) f(2)]
  have "\<not> folded_char (CHR '';'')" by (simp add: folded_char_def byte_def)
  then have k: "CHR '';'' \<notin> set kd" using assms(2) unfolding list_all_iff by blast
  have t: "token ''addr''" "token ''keydata''" "token ''prefer-encrypt''" by (simp_all add: token_def graphic_def byte_def)
  have m: "graphic (last ''mutual'')" by (simp add: graphic_def byte_def)
  note names = trim_token [OF t(1)] trim_token [OF t(2)] trim_token [OF t(3)]
  have "autocrypt_part acc (''addr='' @ from) = (from, snd acc)" for acc
    using named_part(1) [OF t(1) f(1,2)] by (simp add: autocrypt_part_def names fr)
  moreover have "autocrypt_part acc '' prefer-encrypt=mutual'' = acc" for acc
    using named_part(2) [OF t(3) _ m] by (simp add: autocrypt_part_def names SP_def)
  moreover have "autocrypt_part acc ('' keydata='' @ kd) = (fst acc, trim kd)" for acc
    using named_part(2) [OF t(2) assms(3,4)] by (simp add: autocrypt_part_def names SP_def)
  ultimately show ?thesis unfolding parse_autocrypt_header_def autocrypt_pieces [OF f(4) k]
    by (simp only: foldl_Cons foldl_Nil fst_conv snd_conv)
qed

text \<open>The key a message advertises is the key that is kept: whatever folding the header's key
  data picked up on its way, reading the header and storing what it says makes the sender's key
  load, for the sender's address.\<close>

theorem advertised_key_is_stored:
  assumes "pg_write g key = Some packets" "parse_public_key g packets = Inr key"
    "un_std (e_crypto e) (std (e_crypto e) packets) = Some packets"
    "plain_address from" "list_all folded_char kd" "kd \<noteq> []" "graphic (last kd)"
    "unfold_keydata kd = std (e_crypto e) packets"
    "parse_autocrypt_header (autocrypt_value from kd) = (addr, keydata)"
    "store_peer_key g e domain addr keydata f = (Inr (), f')"
  shows "addr = from \<and> load_peer_key g e domain from f' = Some key"
proof -
  have a: "addr = from" "keydata = trim kd" using assms(9) parse_advertised [OF assms(4-7)] by simp_all
  have "un_std (e_crypto e) (unfold_keydata keydata) = Some packets"
    using trim_folded [OF assms(5)] assms(3,8) a(2) by simp
  with assms(2,10) a(1) obtain f1 where
    "fs_write (e_files e) (peer_key_path e domain from) (Text packets) f1 = (True, f')"
    by (auto simp: store_peer_key_def Let_def split: prod.splits bool.splits if_splits)
  from fs_write_read [OF this] show ?thesis by (simp add: a(1) load_peer_key_def bytes_of_def assms(2) ok_of_def)
qed

lemma bad_key_leaves_no_file: "store_peer_key g e domain addr keydata f = (Inl PgpParse, f') \<Longrightarrow> f' = f"
  by (auto simp: store_peer_key_def Let_def parse_public_key_def split: option.splits prod.splits bool.splits if_splits)

end
