(* ===== verification/SealedDocument.thy ===== *)
theory SealedDocument
  imports AutocryptProps
begin

text \<open>
  The document that is sealed when a message has attachments (\<open>build_encrypted_multipart\<close>), read
  back the way mail is read: its text and its attachments.
\<close>

section \<open>Base 64 in lines\<close>

lemma concat_chunks: "concat (chunks (Suc n) s) = s"
proof (induction "Suc n" s rule: chunks.induct)
  case (1 s)
  then show ?case by (cases "s = []") (simp_all add: chunks.simps [of "Suc n" s] chunks.simps [of _ "[]"])
qed

lemma chunks_subset: "c \<in> set (chunks n s) \<Longrightarrow> set c \<subseteq> set s"
proof (induction n s rule: chunks.induct)
  case (1 n s)
  show ?case
  proof (cases "s = [] \<or> n = 0")
    case True
    with 1 show ?thesis by (simp add: chunks.simps [of n s])
  next
    case False
    with "1.prems" have "c = take n s \<or> c \<in> set (chunks n (drop n s))" by (simp add: chunks.simps [of n s])
    with False "1.IH" show ?thesis by (auto dest: in_set_takeD in_set_dropD)
  qed
qed

lemma filter_join: "filter P sep = [] \<Longrightarrow> filter P (join sep xs) = concat (map (filter P) xs)"
  by (induction sep xs rule: join.induct) simp_all

lemma graphic_not_ws: "graphic c \<Longrightarrow> \<not> ascii_whitespace c \<and> byte c < 128"
  by (auto simp: graphic_def ascii_whitespace_def)

lemma unwrap_base64:
  assumes "list_all graphic s"
  shows "filter (\<lambda>c. \<not> ascii_whitespace c) (wrap_base64 s) = s"
proof -
  have g: "\<forall>c \<in> set s. graphic c" using assms by (simp add: list_all_iff)
  have plain: "utf8_lossy c = c \<and> filter (\<lambda>c. \<not> ascii_whitespace c) c = c" if "c \<in> set (chunks 76 s)" for c
  proof -
    have "\<forall>x \<in> set c. graphic x" using chunks_subset [OF that] g by blast
    then show ?thesis by (auto simp: utf8_ok_ascii is_ascii_def list_all_iff graphic_not_ws intro!: filter_True)
  qed
  have "filter (\<lambda>c. \<not> ascii_whitespace c) CRLF = []" by (simp add: CRLF_def ascii_whitespace_def byte_def)
  from filter_join [OF this] have "filter (\<lambda>c. \<not> ascii_whitespace c) (wrap_base64 s) = concat (chunks 76 s)"
    unfolding wrap_base64_def using plain by (simp add: comp_def cong: map_cong)
  then show ?thesis using concat_chunks [of 75 s] by simp
qed

section \<open>The parts\<close>

definition kept_name :: "attachment \<Rightarrow> string" where
  "kept_name a = filter (\<lambda>c. c \<noteq> CHR 0x22) (at_filename a)"

definition kept_type :: "attachment \<Rightarrow> string" where
  "kept_type a = (if at_type a = [] then ''application/octet-stream'' else at_type a)"

text \<open>An attachment as \<open>extract_attachments\<close> gives it, and a base 64 that decodes.\<close>

definition sendable :: "mime_env \<Rightarrow> (string \<Rightarrow> string) \<Rightarrow> attachment \<Rightarrow> bool" where
  "sendable e b64 a \<longleftrightarrow>
    (at_type a = [] \<or> token (at_type a) \<and> ascii_lower (at_type a) = at_type a \<and> \<not> is_prefix ''multipart/'' (at_type a)) \<and>
    CR \<notin> set (at_filename a) \<and> LF \<notin> set (at_filename a) \<and> utf8_ok (kept_name a) \<and>
    list_all graphic (b64 (at_bytes a)) \<and> me_b64 e (b64 (at_bytes a)) = Some (at_bytes a)"

definition text_headers :: mime_headers where
  "text_headers = [(''Content-Type'', ''text/plain; charset=utf-8''), (''Content-Transfer-Encoding'', ''8bit'')]"

definition file_headers :: "attachment \<Rightarrow> mime_headers" where
  "file_headers a =
    [(''Content-Type'', kept_type a), (''Content-Disposition'', media_text ''attachment'' [(''filename'', kept_name a)]),
     (''Content-Transfer-Encoding'', ''base64'')]"

definition raw_part :: "mime_headers \<Rightarrow> string \<Rightarrow> string" where
  "raw_part hs body = concat (map render_header hs) @ CRLF @ body"

definition sealed_parts :: "(string \<Rightarrow> string) \<Rightarrow> string \<Rightarrow> attachment list \<Rightarrow> string list" where
  "sealed_parts b64 txt as =
    raw_part text_headers txt # map (\<lambda>a. raw_part (file_headers a) (wrap_base64 (b64 (at_bytes a)))) as"

definition mixed_type :: "string \<Rightarrow> string" where
  "mixed_type b = media_text ''multipart/mixed'' [(''boundary'', b)]"

lemma document_shape:
  "build_encrypted_multipart b64 txt as b = raw_part [(''Content-Type'', mixed_type b)] (multipart b (sealed_parts b64 txt as))"
proof -
  have "concat (map (attachment_part b64 b) as) =
    concat (map (\<lambda>r. delimiter b @ CRLF @ r @ CRLF) (map (\<lambda>a. raw_part (file_headers a) (wrap_base64 (b64 (at_bytes a)))) as))"
    by (induction as) (simp_all add: attachment_part_def raw_part_def file_headers_def kept_type_def kept_name_def
      render_header_def delimiter_def media_text_def param_def quoted_def SP_def Let_def)
  then show ?thesis
    by (simp add: build_encrypted_multipart_def raw_part_def mixed_type_def multipart_def sealed_parts_def text_headers_def
      render_header_def delimiter_def media_text_def param_def quoted_def SP_def)
qed

section \<open>Reading it\<close>

lemma named_headers:
  "hdr_get text_headers ''Content-Type'' = ''text/plain; charset=utf-8''"
  "hdr_get text_headers ''Content-Transfer-Encoding'' = ''8bit''" "hdr_get text_headers ''Content-Disposition'' = []"
  "hdr_get (file_headers a) ''Content-Type'' = kept_type a"
  "hdr_get (file_headers a) ''Content-Transfer-Encoding'' = ''base64''"
  "hdr_get (file_headers a) ''Content-Disposition'' = media_text ''attachment'' [(''filename'', kept_name a)]"
  "hdr_get [(''Content-Type'', x)] ''Content-Type'' = x" "hdr_get [(''Content-Type'', x)] ''Content-Transfer-Encoding'' = []"
  by (simp_all add: text_headers_def file_headers_def hdr_get_def eq_ignore_ascii_case_def ascii_lower_def
    ascii_lower_char_def is_upper_def byte_def)

lemma tokens:
  "token ''multipart/mixed''" "token ''boundary''" "token ''attachment''" "token ''filename''" "token ''application/octet-stream''"
  by (simp_all add: token_def graphic_def byte_def)

lemma lower_tokens:
  "ascii_lower ''multipart/mixed'' = ''multipart/mixed''" "ascii_lower ''boundary'' = ''boundary''"
  "ascii_lower ''attachment'' = ''attachment''" "ascii_lower ''filename'' = ''filename''"
  "ascii_lower ''application/octet-stream'' = ''application/octet-stream''"
  by (simp_all add: ascii_lower_def ascii_lower_char_def is_upper_def byte_def)

lemma single_param:
  assumes "token m" "token k" "CHR 0x22 \<notin> set v" "ascii_lower m = m" "ascii_lower k = k"
  shows "parse_media_type (media_text m [(k, v)]) = Some (m, [(k, v)])"
  using parse_media_text [OF assms(1), of "[(k, v)]"] assms by (simp add: good_param_def)

lemma boundary_chars:
  "CHR 0x22 \<notin> set (multipart_boundary raw)" "CR \<notin> set (multipart_boundary raw)" "LF \<notin> set (multipart_boundary raw)"
  "is_ascii (multipart_boundary raw)"
proof -
  have b: "list_all (\<lambda>c. graphic c \<and> byte c < 128 \<and> byte c \<noteq> 34) (multipart_boundary raw)"
    using hex_plain [of raw] by (simp add: multipart_boundary_def list_all_iff graphic_def byte_def)
  then show "CHR 0x22 \<notin> set (multipart_boundary raw)" "CR \<notin> set (multipart_boundary raw)"
    "LF \<notin> set (multipart_boundary raw)" "is_ascii (multipart_boundary raw)"
    by (auto simp: list_all_iff graphic_def byte_def CR_def LF_def is_ascii_def)
qed

lemma kept_type_token:
  "sendable e b64 a \<Longrightarrow> token (kept_type a) \<and> ascii_lower (kept_type a) = kept_type a \<and> \<not> is_prefix ''multipart/'' (kept_type a)"
  using tokens(5) lower_tokens(5) by (auto simp: sendable_def kept_type_def)

lemma utf8_ok_concat: "\<forall>x \<in> set xs. utf8_ok x \<Longrightarrow> utf8_ok (concat xs)"
  by (induction xs) (simp_all add: utf8_ok_append)

lemma media_text_clean:
  assumes "token m" "list_all good_param ps"
    "list_all (\<lambda>(k, v). utf8_ok v \<and> CR \<notin> set v \<and> LF \<notin> set v) ps"
  shows "trim (media_text m ps) = media_text m ps \<and> utf8_ok (media_text m ps) \<and> {CR, LF} \<inter> set (media_text m ps) = {}"
proof (intro conjI)
  show "trim (media_text m ps) = media_text m ps" using media_text_ends [OF assms(1)] by (intro trim_graphic_ends) simp_all
  have g: "utf8_ok t \<and> CR \<notin> set t \<and> LF \<notin> set t" if "token t" for t
    using that graphic_not_ws by (auto simp: token_def list_all_iff is_ascii_def intro!: utf8_ok_ascii)
      (auto simp: graphic_def CR_def LF_def byte_def)
  have p: "utf8_ok ('';'' @ param q) \<and> CR \<notin> set (param q) \<and> LF \<notin> set (param q)" if "q \<in> set ps" for q
  proof -
    have q: "token (fst q)" "utf8_ok (snd q)" "CR \<notin> set (snd q)" "LF \<notin> set (snd q)"
      using that assms(2,3) by (auto simp: list_all_iff good_param_def)
    have "utf8_ok (fst q @ [CHR ''='', CHR 0x22] @ snd q @ [CHR 0x22])"
      using g [OF q(1)] q(2) by (intro utf8_ok_append) (simp_all add: byte_def)
    then show ?thesis using g [OF q(1)] q by (simp add: param_def quoted_def SP_def CR_def LF_def byte_def)
  qed
  have "utf8_ok (concat (map (\<lambda>p. '';'' @ param p) ps))" by (rule utf8_ok_concat) (use p in auto)
  then show "utf8_ok (media_text m ps)" using g [OF assms(1)] by (simp only: media_text_def utf8_ok_append)
  show "{CR, LF} \<inter> set (media_text m ps) = {}" using g [OF assms(1)] p by (auto simp: media_text_def CR_def LF_def)
qed

lemma header_names:
  "trim ''Content-Type'' = ''Content-Type''" "trim ''Content-Disposition'' = ''Content-Disposition''"
  "trim ''Content-Transfer-Encoding'' = ''Content-Transfer-Encoding''"
  by (rule trim_graphic_ends; simp add: graphic_def byte_def)+

lemma named_clean:
  assumes "n \<in> {''Content-Type'', ''Content-Disposition'', ''Content-Transfer-Encoding''}"
    "trim v = v \<and> utf8_ok v \<and> {CR, LF} \<inter> set v = {}"
  shows "clean_header (n, v)"
  using assms(1) by (elim insertE emptyE; hypsubst)
    (use assms(2) in \<open>simp_all add: clean_header_def header_names SP_def CR_def LF_def byte_def\<close>)

lemma text_headers_clean: "list_all clean_header text_headers"
  by (simp add: text_headers_def named_clean trim_graphic_ends graphic_def byte_def CR_def LF_def)

lemma file_headers_clean:
  assumes "sendable e b64 a"
  shows "list_all clean_header (file_headers a)"
proof -
  have k: "trim (kept_type a) = kept_type a \<and> utf8_ok (kept_type a) \<and> {CR, LF} \<inter> set (kept_type a) = {}"
    using media_text_clean [of "kept_type a" "[]"] kept_type_token [OF assms] by (simp add: media_text_def)
  have "good_param (''filename'', kept_name a)" using tokens(4) by (simp add: good_param_def kept_name_def)
  moreover have "utf8_ok (kept_name a)" "CR \<notin> set (kept_name a)" "LF \<notin> set (kept_name a)"
    using assms by (auto simp: sendable_def kept_name_def)
  ultimately have d: "trim (media_text ''attachment'' [(''filename'', kept_name a)]) = media_text ''attachment'' [(''filename'', kept_name a)] \<and>
      utf8_ok (media_text ''attachment'' [(''filename'', kept_name a)]) \<and>
      {CR, LF} \<inter> set (media_text ''attachment'' [(''filename'', kept_name a)]) = {}"
    by (intro media_text_clean tokens(3)) simp_all
  have b: "trim ''base64'' = ''base64''" by (simp add: trim_graphic_ends graphic_def byte_def)
  show ?thesis unfolding file_headers_def list.pred_inject
    by (intro conjI named_clean k d TrueI) (simp_all add: b CR_def LF_def byte_def)
qed

lemma part_of_raw: "list_all clean_header hs \<Longrightarrow> hs \<noteq> [] \<Longrightarrow> part_of (raw_part hs body) = [\<lparr>pt_headers = hs, pt_body = body\<rparr>]"
  using split_rendered by (simp add: part_of_def raw_part_def)

lemma parts_read:
  assumes "\<forall>a \<in> set as. sendable e b64 a"
  shows "concat (map part_of (sealed_parts b64 txt as)) =
    \<lparr>pt_headers = text_headers, pt_body = txt\<rparr> #
    map (\<lambda>a. \<lparr>pt_headers = file_headers a, pt_body = wrap_base64 (b64 (at_bytes a))\<rparr>) as"
proof -
  have "concat (map (\<lambda>a. part_of (raw_part (file_headers a) (wrap_base64 (b64 (at_bytes a))))) as) =
    map (\<lambda>a. \<lparr>pt_headers = file_headers a, pt_body = wrap_base64 (b64 (at_bytes a))\<rparr>) as"
    using assms
  proof (induction as)
    case (Cons a as)
    then have "sendable e b64 a" by simp
    from part_of_raw [OF file_headers_clean [OF this]] Cons show ?case by (simp add: file_headers_def)
  qed simp
  moreover have "part_of (raw_part text_headers txt) = [\<lparr>pt_headers = text_headers, pt_body = txt\<rparr>]"
    by (rule part_of_raw [OF text_headers_clean]) (simp add: text_headers_def)
  ultimately show ?thesis by (simp add: sealed_parts_def comp_def)
qed

lemma document_splits:
  assumes "\<forall>r \<in> set rs. \<not> contains r (delimiter b)" "CR \<notin> set b"
  shows "split_parts (multipart b rs) b = concat (map part_of rs)"
proof -
  have d: "CR \<notin> set (delimiter b)" using assms(2) by (simp add: delimiter_def CR_def)
  have "absent (delimiter b) r (CRLF @ u)" if "r \<in> set rs" for r u
    using absent_line [OF d, of r "LF # u"] assms(1) that by (simp add: CRLF_eq)
  moreover have "absent (delimiter b) CRLF u" for u by (simp add: CRLF_def absent_Cons delimiter_def)
  ultimately have "\<forall>r \<in> set rs. absent (delimiter b) (r @ CRLF) (delimiter b)" by (simp add: absent_append)
  then show ?thesis using multipart_splits [of b "[]" rs "[]"] by simp
qed

lemma mixed_type_parses:
  "parse_media_type (mixed_type (multipart_boundary raw)) = Some (''multipart/mixed'', [(''boundary'', multipart_boundary raw)])"
  unfolding mixed_type_def by (intro single_param tokens boundary_chars lower_tokens)

lemma text_type_parses: "parse_media_type ''text/plain; charset=utf-8'' = Some (''text/plain'', [(''charset'', ''utf-8'')])"
  by (simp add: eval trim_def graphic_def byte_def)

lemma eight_bit: "utf8_ok txt \<Longrightarrow> decode_transfer e ''8bit'' txt = txt"
  by (simp add: decode_transfer_def decode_transfer_bytes_def trim_graphic_ends graphic_def byte_def ascii_lower_def
    ascii_lower_char_def is_upper_def)

lemma base64_bytes:
  assumes "sendable e b64 a"
  shows "decode_transfer_bytes e ''base64'' (wrap_base64 (b64 (at_bytes a))) = at_bytes a"
proof -
  have "list_all graphic (b64 (at_bytes a))" "me_b64 e (b64 (at_bytes a)) = Some (at_bytes a)"
    using assms by (simp_all add: sendable_def)
  with unwrap_base64 [OF this(1)] show ?thesis
    by (simp add: decode_transfer_bytes_def trim_graphic_ends graphic_def byte_def ascii_lower_def ascii_lower_char_def
      is_upper_def decode_base64_lenient_def)
qed

definition kept :: "attachment \<Rightarrow> attachment" where
  "kept a = \<lparr>at_filename = kept_name a, at_type = kept_type a, at_bytes = at_bytes a\<rparr>"

lemma no_type: "parse_media_type [] = None"
  by (simp add: parse_media_type_def trim_def)

lemma collect_text: "collect_attachments e ''text/plain; charset=utf-8'' cte [] body = []"
  by (subst collect_attachments.simps) (simp add: text_type_parses no_type)

lemma collect_file:
  assumes "sendable e b64 a"
  shows "collect_attachments e (kept_type a) ''base64'' (media_text ''attachment'' [(''filename'', kept_name a)])
    (wrap_base64 (b64 (at_bytes a))) = [kept a]"
proof -
  note k = kept_type_token [OF assms]
  then have t: "parse_media_type (kept_type a) = Some (kept_type a, [])"
    using parse_media_text [of "kept_type a" "[]"] by (simp add: media_text_def)
  have "CHR 0x22 \<notin> set (kept_name a)" by (simp add: kept_name_def)
  from single_param [OF tokens(3) tokens(4) this lower_tokens(3) lower_tokens(4)]
  have d: "parse_media_type (media_text ''attachment'' [(''filename'', kept_name a)]) = Some (''attachment'', [(''filename'', kept_name a)])" .
  show ?thesis
    by (subst collect_attachments.simps) (simp add: t d k base64_bytes [OF assms] kept_def bt_get_def eq_ignore_ascii_case_def)
qed

text \<open>Sealing a message with attachments loses none of it: the document that is encrypted,
  read the way mail is read, has the message's text and, in order, every attachment with its type,
  its bytes and its name, less the quotation marks in the name.\<close>

theorem sealed_document_reads_back:
  assumes "\<forall>a \<in> set as. sendable e b64 a" "utf8_ok txt"
    "\<forall>r \<in> set (sealed_parts b64 txt as). \<not> contains r (delimiter (multipart_boundary raw))"
  shows "\<exists>m. parse_mime_email e (build_encrypted_multipart b64 txt as (multipart_boundary raw)) now = Some m \<and>
    message_body m = normalise_newlines txt \<and>
    extract_attachments e (build_encrypted_multipart b64 txt as (multipart_boundary raw)) = map kept as"
proof -
  let ?b = "multipart_boundary raw" and ?h = "[(''Content-Type'', mixed_type (multipart_boundary raw))]"
  let ?body = "multipart ?b (sealed_parts b64 txt as)" and ?doc = "build_encrypted_multipart b64 txt as ?b"
  have "good_param (''boundary'', ?b)" using tokens(2) boundary_chars(1) by (simp add: good_param_def)
  then have "clean_header (''Content-Type'', mixed_type ?b)"
    unfolding mixed_type_def using boundary_chars
    by (intro named_clean media_text_clean tokens(1)) (simp_all add: utf8_ok_ascii)
  then have split: "split_message ?doc = Some (?h, ?body)"
    using split_rendered [of ?h ?body] by (simp add: document_shape raw_part_def)
  note parts = document_splits [OF assms(3) boundary_chars(2)] parts_read [OF assms(1)]
  have get: "bt_get [(''boundary'', ?b)] ''boundary'' = Some ?b" by (simp add: bt_get_def)
  have "media_of ''text/plain; charset=utf-8'' = ''text/plain''" by (simp add: media_of_def text_type_parses)
  then have "pick_text e nested [] (\<lparr>pt_headers = text_headers, pt_body = txt\<rparr> # ps) = normalise_newlines txt" for nested ps
    by (simp add: named_headers eight_bit assms(2))
  then have plain_text: "extract_mime_text e (mixed_type ?b) [] ?body = normalise_newlines txt"
    using parts mixed_type_parses [of raw] no_type by (subst extract_mime_text.simps) (auto simp: get)
  have "concat (map (\<lambda>a. collect_attachments e (kept_type a) ''base64'' (media_text ''attachment'' [(''filename'', kept_name a)])
      (wrap_base64 (b64 (at_bytes a)))) as) = map kept as"
    using assms(1) by (induction as) (simp_all add: collect_file)
  then have files: "collect_attachments e (mixed_type ?b) cte dispo ?body = map kept as" for cte dispo
    by (subst collect_attachments.simps)
      (simp add: mixed_type_parses get parts named_headers collect_text comp_def)
  show ?thesis
    using parse_body [OF split, of e now] plain_text files by (auto simp: named_headers extract_attachments_def split)
qed

definition demo_file :: attachment where
  "demo_file = \<lparr>at_filename = ''a'' @ [CHR 0x22] @ ''.txt'', at_type = [], at_bytes = ''hello''\<rparr>"

definition demo_reader :: mime_env where
  "demo_reader = demo_mime\<lparr>me_b64 := (\<lambda>s. if s = ''aGVsbG8='' then Some ''hello'' else None)\<rparr>"

lemma demo_file_sendable: "sendable demo_reader (\<lambda>_. ''aGVsbG8='') demo_file"
  by (simp add: sendable_def demo_file_def demo_reader_def kept_name_def graphic_def byte_def CR_def LF_def)

lemma contains_set: "contains r p \<Longrightarrow> set p \<subseteq> set r"
proof (induction r)
  case (Cons c r)
  show ?case
  proof (cases "is_prefix p (c # r)")
    case True
    then obtain t where "c # r = p @ t" unfolding is_prefix_iff by blast
    then have "set (c # r) = set p \<union> set t" by (metis set_append)
    then show ?thesis by simp
  qed (use Cons in auto)
qed simp

lemma sealed_document_reads_back_witness:
  "\<exists>m. parse_mime_email demo_reader
      (build_encrypted_multipart (\<lambda>_. ''aGVsbG8='') ''See file.'' [demo_file] ''biset_42'') [] = Some m \<and>
    message_body m = ''See file.'' \<and>
    extract_attachments demo_reader (build_encrypted_multipart (\<lambda>_. ''aGVsbG8='') ''See file.'' [demo_file] ''biset_42'') =
      [\<lparr>at_filename = ''a.txt'', at_type = ''application/octet-stream'', at_bytes = ''hello''\<rparr>]"
proof -
  have b: "multipart_boundary ''B'' = ''biset_42''"
    by (simp add: multipart_boundary_def hex_def hex_digit_def byte_def chr_def char_of_def bit_simps)
  have c: "chunks 76 ''aGVsbG8='' = [''aGVsbG8='']" by (simp add: chunks.simps [of 76 "_ # _"] chunks.simps [of 76 "[]"])
  have clean: "\<forall>r \<in> set (sealed_parts (\<lambda>_. ''aGVsbG8='') ''See file.'' [demo_file]). \<not> contains r (delimiter (multipart_boundary ''B''))"
    unfolding b
  proof
    fix r assume "r \<in> set (sealed_parts (\<lambda>_. ''aGVsbG8='') ''See file.'' [demo_file])"
    then have "CHR ''_'' \<notin> set r"
      by (auto simp: sealed_parts_def raw_part_def text_headers_def file_headers_def render_header_def kept_type_def
        kept_name_def demo_file_def media_text_def param_def quoted_def wrap_base64_def c CRLF_def SP_def byte_def)
    then show "\<not> contains r (delimiter ''biset_42'')" using contains_set [of r "delimiter ''biset_42''"] by (auto simp: delimiter_def)
  qed
  have f: "\<forall>a \<in> set [demo_file]. sendable demo_reader (\<lambda>_. ''aGVsbG8='') a" "utf8_ok ''See file.''"
    using demo_file_sendable by (simp_all add: byte_def)
  have n: "normalise_newlines ''See file.'' = ''See file.''" by (simp add: CR_def LF_def)
  have k: "map kept [demo_file] = [\<lparr>at_filename = ''a.txt'', at_type = ''application/octet-stream'', at_bytes = ''hello''\<rparr>]"
    by (simp add: kept_def kept_name_def kept_type_def demo_file_def)
  show ?thesis using sealed_document_reads_back [OF f clean, of "[]"] unfolding b n k .
qed

end
