(* ===== verification/EndToEnd.thy ===== *)
theory EndToEnd
  imports SubmissionProps Inbound SealedDocument Transport
begin

text \<open>
  A message the client encrypted, from the submission on one relay to the mailbox on another:
  written, advertised, marked, wrapped, signed, sent in CR LF form and filed.
\<close>

section \<open>Messages made of lines\<close>

definition crlf_text :: "string \<Rightarrow> bool" where
  "crlf_text s \<longleftrightarrow> (\<exists>ls. (\<forall>l \<in> set ls. CR \<notin> set l \<and> LF \<notin> set l) \<and> s = concat (map (\<lambda>l. l @ CRLF) ls))"

lemma crlf_text_append: "crlf_text a \<Longrightarrow> crlf_text b \<Longrightarrow> crlf_text (a @ b)"
  unfolding crlf_text_def
proof (elim exE conjE)
  fix ks ls assume "\<forall>l \<in> set ks. CR \<notin> set l \<and> LF \<notin> set l" "\<forall>l \<in> set ls. CR \<notin> set l \<and> LF \<notin> set l"
    "a = concat (map (\<lambda>l. l @ CRLF) ks)" "b = concat (map (\<lambda>l. l @ CRLF) ls)"
  then show "\<exists>ls. (\<forall>l \<in> set ls. CR \<notin> set l \<and> LF \<notin> set l) \<and> a @ b = concat (map (\<lambda>l. l @ CRLF) ls)"
    by (intro exI [of _ "ks @ ls"]) auto
qed

lemma crlf_text_line: "CR \<notin> set l \<Longrightarrow> LF \<notin> set l \<Longrightarrow> crlf_text (l @ CRLF)"
  unfolding crlf_text_def by (intro exI [of _ "[l]"]) simp

lemma crlf_text_Nil [simp]: "crlf_text []"
  unfolding crlf_text_def by (intro exI [of _ "[]"]) simp

lemma crlf_text_concat: "\<forall>s \<in> set ss. crlf_text s \<Longrightarrow> crlf_text (concat ss)"
  by (induction ss) (simp_all add: crlf_text_append)

lemma crlf_text_norm: "crlf_text s \<Longrightarrow> s \<noteq> [] \<Longrightarrow> crlf_norm s = s"
proof -
  have n: "\<forall>l \<in> set ls. CR \<notin> set l \<and> LF \<notin> set l \<Longrightarrow>
      norm_lines (concat (map (\<lambda>l. l @ CRLF) ls)) = concat (map (\<lambda>l. l @ CRLF) ls)" for ls
    by (induction ls) (simp_all add: norm_lines_crlf norm_lines.simps [of "[]"])
  assume "crlf_text s" "s \<noteq> []"
  then show ?thesis using n by (auto simp: crlf_text_def crlf_norm_def)
qed

lemma crlf_text_headers: "list_all clean_header hs \<Longrightarrow> crlf_text (concat (map render_header hs))"
proof (rule crlf_text_concat)
  assume hs: "list_all clean_header hs"
  show "\<forall>s \<in> set (map render_header hs). crlf_text s"
  proof
    fix s assume "s \<in> set (map render_header hs)"
    then obtain n v where h: "clean_header (n, v)" "s = (n @ '': '' @ v) @ CRLF"
      using hs by (auto simp: list_all_iff render_header_def)
    have "CR \<notin> set (n @ '': '' @ v)" "LF \<notin> set (n @ '': '' @ v)"
      using h(1) by (auto simp: clean_header_def CR_def LF_def)
    then show "crlf_text s" unfolding h(2) by (rule crlf_text_line)
  qed
qed

lemma crlf_text_replaced: "CR \<notin> set s \<Longrightarrow> crlf_text (replace_all s [LF] CRLF @ CRLF)"
proof (induction s rule: length_induct)
  case (1 s)
  show ?case
  proof (cases "LF \<in> set s")
    case False
    then have "replace_all s [LF] CRLF = s" unfolding replace_all_LF by (induction s) auto
    then show ?thesis using 1 False crlf_text_line by simp
  next
    case True
    then obtain a b where s: "s = a @ LF # b" "LF \<notin> set a" by (meson split_list_first)
    have "replace_all s [LF] CRLF = (a @ CRLF) @ replace_all b [LF] CRLF"
      unfolding replace_all_LF s(1) using s(2) by (induction a) auto
    moreover have "crlf_text (replace_all b [LF] CRLF @ CRLF)" "crlf_text (a @ CRLF)"
      using 1 s by (auto intro: crlf_text_line)
    ultimately show ?thesis using crlf_text_append [of "a @ CRLF" "replace_all b [LF] CRLF @ CRLF"] by simp
  qed
qed

section \<open>A folded header in front\<close>

definition folded_header :: "string \<Rightarrow> string list \<Rightarrow> string" where
  "folded_header v vs = ''DKIM-Signature: '' @ v @ CRLF @ concat (map (\<lambda>v. CHR 0x09 # v @ CRLF) vs)"

definition fold_line :: "string \<Rightarrow> bool" where
  "fold_line v \<longleftrightarrow> v \<noteq> [] \<and> is_ascii v \<and> CR \<notin> set v \<and> LF \<notin> set v"

definition signature_text :: "string \<Rightarrow> bool" where
  "signature_text h \<longleftrightarrow> (\<exists>v vs. fold_line v \<and> list_all fold_line vs \<and> h = folded_header v vs)"

lemma crlf_text_signature: "signature_text h \<Longrightarrow> crlf_text h"
proof -
  assume "signature_text h"
  then obtain v vs where h: "fold_line v" "list_all fold_line vs" "h = folded_header v vs" by (auto simp: signature_text_def)
  have "crlf_text ((''DKIM-Signature: '' @ v) @ CRLF)"
    using h(1) by (intro crlf_text_line) (auto simp: fold_line_def CR_def LF_def)
  moreover have "crlf_text (concat (map (\<lambda>v. (CHR 0x09 # v) @ CRLF) vs))"
    using h(2) by (intro crlf_text_concat) (auto simp: list_all_iff fold_line_def CR_def LF_def intro!: crlf_text_line simp del: append_Cons)
  ultimately have "crlf_text (((''DKIM-Signature: '' @ v) @ CRLF) @ concat (map (\<lambda>v. (CHR 0x09 # v) @ CRLF) vs))"
    by (rule crlf_text_append)
  then show ?thesis by (simp add: h(3) folded_header_def)
qed

text \<open>Reading it: one header, ahead of the others.\<close>

lemma header_line_fold:
  assumes "hs \<noteq> []"
  shows "header_line hs (CHR 0x09 # v @ [CR]) = butlast hs @ [(fst (last hs), snd (last hs) @ '' '' @ trim_start (CHR 0x09 # v))]"
proof -
  have "strip_suffix [CR] ((CHR 0x09 # v) @ [CR]) = Some (CHR 0x09 # v)"
    by (simp add: strip_suffix_def is_suffix_def is_prefix_def)
  then show ?thesis using assms by (simp add: header_line_def SP_def)
qed

lemma parse_folds:
  "list_all fold_line vs \<Longrightarrow> \<exists>t. foldl header_line (acc @ [(n, s)]) (split_on LF (concat (map (\<lambda>v. CHR 0x09 # v @ CRLF) vs) @ r)) =
     foldl header_line (acc @ [(n, t)]) (split_on LF r)"
proof (induction vs arbitrary: s)
  case (Cons v vs)
  let ?rest = "concat (map (\<lambda>v. CHR 0x09 # v @ CRLF) vs) @ r"
  have "LF \<notin> set (CHR 0x09 # v @ [CR])" using Cons.prems by (auto simp: fold_line_def LF_def CR_def)
  from split_on_line [OF this, of ?rest]
  have "split_on LF ((CHR 0x09 # v @ CRLF) @ ?rest) = (CHR 0x09 # v @ [CR]) # split_on LF ?rest" by (simp add: CRLF_eq)
  moreover have "header_line (acc @ [(n, s)]) (CHR 0x09 # v @ [CR]) = acc @ [(n, s @ '' '' @ trim_start (CHR 0x09 # v))]"
    using header_line_fold [of "acc @ [(n, s)]" v] by simp
  ultimately show ?case using Cons.IH [of "s @ '' '' @ trim_start (CHR 0x09 # v)"] Cons.prems by simp
qed auto

lemma parse_signature:
  assumes "signature_text h"
  shows "\<exists>t. foldl header_line [] (split_on LF (h @ r)) = foldl header_line [(''DKIM-Signature'', t)] (split_on LF r)"
proof -
  obtain v vs where h: "fold_line v" "list_all fold_line vs" "h = folded_header v vs" using assms by (auto simp: signature_text_def)
  let ?rest = "concat (map (\<lambda>v. CHR 0x09 # v @ CRLF) vs) @ r"
  have "LF \<notin> set (''DKIM-Signature: '' @ v @ [CR])" using h(1) by (auto simp: fold_line_def LF_def CR_def)
  from split_on_line [OF this, of ?rest]
  have s: "split_on LF (h @ r) = (''DKIM-Signature: '' @ v @ [CR]) # split_on LF ?rest"
    by (simp add: h(3) folded_header_def CRLF_eq)
  have "strip_suffix [CR] ((''DKIM-Signature: '' @ v) @ [CR]) = Some (''DKIM-Signature: '' @ v)"
    by (simp add: strip_suffix_def is_suffix_def is_prefix_def)
  moreover have "trim ''DKIM-Signature'' = ''DKIM-Signature''" by (rule trim_graphic_ends) (simp_all add: graphic_def byte_def)
  ultimately have "header_line [] (''DKIM-Signature: '' @ v @ [CR]) = [(''DKIM-Signature'', trim (SP # v))]"
    by (simp add: header_line_def SP_def)
  with s parse_folds [OF h(2), of "[]" "''DKIM-Signature''" "trim (SP # v)" r] show ?thesis by simp
qed

lemma signature_shape:
  assumes "signature_text h"
  shows "\<exists>x. h = x @ CRLF \<and> x \<noteq> [] \<and> (\<forall>t. t \<noteq> [] \<longrightarrow> hd t \<noteq> CR \<longrightarrow> absent (CRLF @ CRLF) h t) \<and> is_ascii h"
proof -
  obtain v vs where h: "fold_line v" "list_all fold_line vs" "h = folded_header v vs" using assms by (auto simp: signature_text_def)
  have line: "absent (CRLF @ CRLF) (l @ CRLF) t" if "CR \<notin> set l" "t \<noteq> []" "hd t \<noteq> CR" for l t
    using that by (cases t) (auto simp: absent_append CRLF_eq absent_Cons intro!: absent_hd)
  have tail: "absent (CRLF @ CRLF) (concat (map (\<lambda>v. CHR 0x09 # v @ CRLF) vs)) t" if "t \<noteq> []" "hd t \<noteq> CR" for t
    using h(2)
  proof (induction vs)
    case (Cons v vs)
    let ?t = "concat (map (\<lambda>v. CHR 0x09 # v @ CRLF) vs) @ t"
    have "?t \<noteq> []" "hd ?t \<noteq> CR" using that by (cases vs; simp add: CR_def)+
    moreover have "CR \<notin> set (CHR 0x09 # v)" using Cons.prems by (auto simp: fold_line_def CR_def)
    ultimately have "absent (CRLF @ CRLF) ((CHR 0x09 # v) @ CRLF) ?t" by (intro line)
    then show ?case using Cons by (simp add: absent_append [of _ "(CHR 0x09 # v) @ CRLF", simplified])
  qed simp
  have "absent (CRLF @ CRLF) h t" if "t \<noteq> []" "hd t \<noteq> CR" for t
  proof -
    let ?t = "concat (map (\<lambda>v. CHR 0x09 # v @ CRLF) vs) @ t"
    have "?t \<noteq> []" "hd ?t \<noteq> CR" using that by (cases vs; simp add: CR_def)+
    moreover have "CR \<notin> set (''DKIM-Signature: '' @ v)" using h(1) by (auto simp: fold_line_def CR_def)
    ultimately have "absent (CRLF @ CRLF) ((''DKIM-Signature: '' @ v) @ CRLF) ?t" by (intro line)
    then have "absent (CRLF @ CRLF) (((''DKIM-Signature: '' @ v) @ CRLF) @ concat (map (\<lambda>v. CHR 0x09 # v @ CRLF) vs)) t"
      using tail [OF that] by (simp only: absent_append [of _ "(_ @ _) @ CRLF"])
    then show ?thesis by (simp add: h(3) folded_header_def)
  qed
  moreover have "is_ascii h" using h by (auto simp: folded_header_def is_ascii_def fold_line_def list_all_iff CRLF_def byte_def)
  moreover have "\<exists>x. h = x @ CRLF \<and> x \<noteq> []"
    by (cases vs rule: rev_cases) (auto simp: h(3) folded_header_def)
  ultimately show ?thesis by blast
qed

lemma split_signed:
  assumes "signature_text h" "list_all clean_header hs" "hs \<noteq> []"
  shows "\<exists>t. split_message (h @ concat (map render_header hs) @ CRLF @ body) = Some ((''DKIM-Signature'', t) # hs, body)"
proof -
  obtain x where x: "concat (map render_header hs) = x @ CRLF" "x \<noteq> []" "hd x \<noteq> CR"
      "absent (CRLF @ CRLF) x ((CRLF @ CRLF) @ body)"
    using rendered_ends [OF assms(2,3)] by blast
  have shape: "is_ascii h" "\<And>t. t \<noteq> [] \<Longrightarrow> hd t \<noteq> CR \<Longrightarrow> absent (CRLF @ CRLF) h t"
    using signature_shape [OF assms(1)] by auto
  have "absent (CRLF @ CRLF) (h @ x) ((CRLF @ CRLF) @ body)"
    unfolding absent_append using shape(2) [of "x @ (CRLF @ CRLF) @ body"] x(2-4) by simp
  from find_sub_first [OF this] have f: "find_sub ((h @ x) @ CRLF @ CRLF @ body) (CRLF @ CRLF) = Some (length (h @ x))" by simp
  have "length CRLF = 2" by (simp add: CRLF_def)
  then have "take (length (h @ x) + 2) ((h @ x) @ CRLF @ CRLF @ body) = (h @ x) @ CRLF"
    "drop (length (h @ x) + 4) ((h @ x) @ CRLF @ CRLF @ body) = body"
    by (simp_all add: take_Cons' drop_Cons')
  with f have split: "split_head_body ((h @ x) @ CRLF @ CRLF @ body) = Some ((h @ x) @ CRLF, body)"
    by (simp add: split_head_body_def)
  obtain t where t: "foldl header_line [] (split_on LF (h @ x @ CRLF)) =
      foldl header_line [(''DKIM-Signature'', t)] (split_on LF (x @ CRLF))"
    using parse_signature [OF assms(1)] by blast
  have "utf8_ok (h @ x @ CRLF)"
    using utf8_ok_append [OF utf8_ok_ascii [OF shape(1)] rendered_utf8 [OF assms(2)]] x(1) by simp
  then have "parse_headers (h @ x @ CRLF) = (''DKIM-Signature'', t) # hs"
    using t parse_rendered [OF assms(2), of "[(''DKIM-Signature'', t)]"] by (simp add: parse_headers_def x(1))
  then have "split_message (h @ (x @ CRLF) @ CRLF @ body) = Some ((''DKIM-Signature'', t) # hs, body)"
    using split by (simp add: split_message_def)
  then show ?thesis unfolding x(1) by blast
qed

section \<open>The message on its way out\<close>

lemma insert_header_rendered:
  assumes "list_all clean_header hs" "hs \<noteq> []"
  shows "insert_header (concat (map render_header hs) @ CRLF @ body) (render_header h) =
    concat (map render_header (hs @ [h])) @ CRLF @ body"
proof -
  obtain x where x: "concat (map render_header hs) = x @ CRLF" "absent (CRLF @ CRLF) x ((CRLF @ CRLF) @ body)"
    using rendered_ends [OF assms] by blast
  have "CRLF @ CRLF \<noteq> []" by (simp add: CRLF_def)
  from find_bytes_first [OF this x(2)] have f: "find_bytes (x @ CRLF @ CRLF @ body) (CRLF @ CRLF) = Some (length x)" by simp
  have "length CRLF = 2" by (simp add: CRLF_def)
  then have "take (length x + 2) (x @ CRLF @ CRLF @ body) = x @ CRLF" "drop (length x + 2) (x @ CRLF @ CRLF @ body) = CRLF @ body"
    by (simp_all add: take_Cons' drop_Cons')
  then show ?thesis using f by (simp add: insert_header_def x(1))
qed

definition marks :: "(string \<times> string) list \<Rightarrow> bool" where
  "marks xs \<longleftrightarrow> list_all clean_header xs \<and> list_all (\<lambda>h. fst h \<in> {''Autocrypt'', ''Chat-Version''}) xs"

lemma name_clean:
  assumes "n \<in> {''Autocrypt'', ''Chat-Version''}" "trim v = v" "is_ascii v" "CR \<notin> set v" "LF \<notin> set v"
  shows "clean_header (n, v)"
proof -
  have "trim ''Autocrypt'' = ''Autocrypt''" "trim ''Chat-Version'' = ''Chat-Version''"
    by (rule trim_graphic_ends; simp add: graphic_def byte_def)+
  with assms show ?thesis by (auto simp: clean_header_def utf8_ok_ascii SP_def CR_def LF_def byte_def)
qed

lemma advertised:
  assumes "list_all clean_header hs" "hs \<noteq> []" "list_all graphic from" "\<forall>p. list_all graphic (std (e_crypto e) p)"
  shows "\<exists>xs. marks xs \<and> advertise_key o' e dir f from (concat (map render_header hs) @ CRLF @ body) =
    concat (map render_header (hs @ xs)) @ CRLF @ body"
proof (cases "Option.bind (load_account_key (ob_pgp o') (e_files e) dir f) (pg_write (ob_pgp o'))")
  case None
  then show ?thesis by (intro exI [of _ "[]"]) (simp add: advertise_key_def marks_def)
next
  case (Some p)
  let ?kd = "std (e_crypto e) p" and ?v = "autocrypt_value from (std (e_crypto e) p)"
  have g: "\<forall>c \<in> set from \<union> set ?kd. graphic c" using assms(3,4) by (auto simp: list_all_iff)
  have "graphic (last ?v)" using g by (cases ?kd rule: rev_cases) (simp_all add: autocrypt_value_def graphic_def byte_def)
  then have "trim ?v = ?v" by (intro trim_graphic_ends) (simp_all add: autocrypt_value_def graphic_def byte_def)
  moreover have "is_ascii from" "is_ascii ?kd" using graphic_ascii assms(3,4) by blast+
  then have "is_ascii ?v" by (simp add: autocrypt_value_def byte_def)
  moreover have "\<not> graphic CR" "\<not> graphic LF" by (simp_all add: graphic_def)
  then have "CR \<notin> set ?v" "LF \<notin> set ?v" using g by (auto simp: autocrypt_value_def CR_def LF_def)
  ultimately have c: "clean_header (''Autocrypt'', ?v)" by (intro name_clean) simp_all
  have "render_header (''Autocrypt'', ?v) = ''Autocrypt: '' @ ?v @ CRLF" by (simp add: render_header_def)
  with insert_header_rendered [OF assms(1,2), of body "(''Autocrypt'', ?v)"] show ?thesis
    using c by (intro exI [of _ "[(''Autocrypt'', ?v)]"]) (simp add: advertise_key_def Some inject_autocrypt_def marks_def)
qed

lemma chat_marked:
  assumes "list_all clean_header hs" "hs \<noteq> []"
  shows "\<exists>xs. marks xs \<and> inject_chat_version (concat (map render_header hs) @ CRLF @ body) =
    concat (map render_header (hs @ xs)) @ CRLF @ body"
proof -
  let ?raw = "concat (map render_header hs) @ CRLF @ body"
  have "trim ''1.0'' = ''1.0''" by (rule trim_graphic_ends) (simp_all add: graphic_def byte_def)
  then have c: "clean_header (''Chat-Version'', ''1.0'')" by (intro name_clean) (simp_all add: byte_def CR_def LF_def)
  have "render_header (''Chat-Version'', ''1.0'') = ''Chat-Version: 1.0'' @ CRLF" by (simp add: render_header_def)
  with insert_header_rendered [OF assms, of body "(''Chat-Version'', ''1.0'')"]
  have "inject_chat_version ?raw = ?raw \<or>
      inject_chat_version ?raw = concat (map render_header (hs @ [(''Chat-Version'', ''1.0'')])) @ CRLF @ body"
    by (auto simp: inject_chat_version_def)
  then show ?thesis
  proof
    assume "inject_chat_version ?raw = ?raw"
    then show ?thesis by (intro exI [of _ "[]"]) (simp add: marks_def)
  next
    assume "inject_chat_version ?raw = concat (map render_header (hs @ [(''Chat-Version'', ''1.0'')])) @ CRLF @ body"
    then show ?thesis using c by (intro exI [of _ "[(''Chat-Version'', ''1.0'')]"]) (simp add: marks_def)
  qed
qed

lemma contains_middle: "contains (a @ p @ b) p"
proof (induction a)
  case Nil
  then show ?case by (simp add: contains_prefix)
qed simp

lemma signed_cases:
  assumes "\<forall>u k d x h. rk_sign (e_rsa e) u k d x = Some h \<longrightarrow> signature_text h"
  shows "\<exists>h. (h = [] \<or> signature_text h) \<and> fst (sign_outbound e from raw f) = h @ raw"
proof -
  have "dkim_sign (e_rsa e) raw k d x = raw \<or> (\<exists>h. signature_text h \<and> dkim_sign (e_rsa e) raw k d x = h @ raw)" for k d x
    using assms by (auto simp: dkim_sign_def split: option.split)
  then show ?thesis
    unfolding sign_outbound_def by (fastforce split: option.split prod.split)
qed

text \<open>What is sent for a message the client encrypted.\<close>

lemma composed_encrypted:
  assumes "compose o' e w dir from msg f = ((sent, i), f2)"
    "message_body msg = pre @ armour mid @ post" "absent pgp_marker pre pgp_marker" "armour_ok mid"
    "list_all clean_header (built_headers (ob_mime o') msg (Config.hostname (e_cfg e)) (dw_clock w) (hex (dw_raw6 w)))"
    "list_all graphic from" "\<forall>p. list_all graphic (std (e_crypto e) p)"
    "\<forall>u k d x h. rk_sign (e_rsa e) u k d x = Some h \<longrightarrow> signature_text h"
  shows "\<exists>h hs. (h = [] \<or> signature_text h) \<and> list_all clean_header hs \<and> list_all (\<lambda>h. \<not> body_header h) hs \<and>
    sent = h @ concat (map render_header (hs @ [marked_type (pgp_boundary (e_sha1 e) (armour mid))])) @ CRLF @
      multipart (pgp_boundary (e_sha1 e) (armour mid)) (wrapped_parts (armour mid)) @ CRLF"
proof -
  let ?bh = "built_headers (ob_mime o') msg (Config.hostname (e_cfg e)) (dw_clock w) (hex (dw_raw6 w))"
  let ?b = "pgp_boundary (e_sha1 e) (armour mid)" and ?body = "message_body msg"
  have "?bh \<noteq> []" by (simp add: built_headers_def Let_def)
  from advertised [OF assms(5) this assms(6,7), of o' dir f ?body] obtain xs where xs: "marks xs"
    "advertise_key o' e dir f from (concat (map render_header ?bh) @ CRLF @ ?body) = concat (map render_header (?bh @ xs)) @ CRLF @ ?body"
    by blast
  have c: "list_all clean_header (?bh @ xs)" using assms(5) xs(1) by (simp add: marks_def)
  moreover have "?bh @ xs \<noteq> []" by (simp add: built_headers_def Let_def)
  ultimately obtain ys where ys: "marks ys"
    "inject_chat_version (concat (map render_header (?bh @ xs)) @ CRLF @ ?body) = concat (map render_header (?bh @ xs @ ys)) @ CRLF @ ?body"
    using chat_marked [of "?bh @ xs" ?body] by auto
  let ?hs = "?bh @ xs @ ys"
  let ?raw = "concat (map render_header ?hs) @ CRLF @ ?body"
  have hs: "list_all clean_header ?hs" "?hs \<noteq> []" using c ys(1) by (simp_all add: marks_def built_headers_def Let_def)
  have "?raw = (concat (map render_header ?hs) @ CRLF @ pre) @ pgp_marker @ mid @ pgp_end @ post"
    by (simp add: assms(2) armour_def)
  then have "contains ?raw pgp_marker" using contains_middle by metis
  moreover have "pgp_mime_wrap_inline (e_sha1 e) ?raw =
    Some (concat (map render_header (filter (\<lambda>h. \<not> body_header h) ?hs @ [marked_type ?b])) @ CRLF @
      multipart ?b (wrapped_parts (armour mid)) @ CRLF)"
    using wrap_shape [OF hs absent_tail [OF assms(3)] assms(4), of "e_sha1 e" post] unfolding assms(2) by (simp only: Let_def)
  ultimately have "wrap_encrypted (e_sha1 e) ?raw =
    concat (map render_header (filter (\<lambda>h. \<not> body_header h) ?hs @ [marked_type ?b])) @ CRLF @
      multipart ?b (wrapped_parts (armour mid)) @ CRLF" (is "_ = ?out")
    by (simp add: wrap_encrypted_def or_default_def)
  then have "sent = fst (sign_outbound e from ?out f)"
    using assms(1) xs(2) ys(2) by (auto simp: compose_def build_rfc5322_def Let_def split: prod.splits)
  then obtain h where "h = [] \<or> signature_text h" "sent = h @ ?out" using signed_cases [OF assms(8)] by metis
  moreover have "list_all clean_header (filter (\<lambda>h. \<not> body_header h) ?hs)" using hs(1) by (auto simp: list_all_iff)
  ultimately show ?thesis
    by (intro exI [of _ h] exI [of _ "filter (\<lambda>h. \<not> body_header h) ?hs"]) (auto simp: list_all_iff)
qed

lemma crlf_text_wrapped:
  assumes "h = [] \<or> signature_text h" "list_all clean_header hs" "CR \<notin> set block" "CR \<notin> set b" "LF \<notin> set b"
  shows "crlf_text (h @ concat (map render_header hs) @ CRLF @ multipart b (wrapped_parts block) @ CRLF)"
proof -
  have d: "crlf_text (delimiter b @ CRLF)" "crlf_text ((delimiter b @ ''--'') @ CRLF)"
    using assms(4,5) by (intro crlf_text_line; simp add: delimiter_def CR_def LF_def)+
  have e: "crlf_text CRLF" using crlf_text_line [of "[]"] by simp
  have v: "crlf_text (''Version: 1'' @ CRLF)" by (intro crlf_text_line) (simp_all add: CR_def LF_def)
  have t: "crlf_text (render_header (''Content-Type'', ''application/pgp-encrypted''))"
    "crlf_text (render_header (''Content-Type'', ''application/octet-stream''))"
    using crlf_text_headers [of "[(''Content-Type'', ''application/pgp-encrypted'')]"]
      crlf_text_headers [of "[(''Content-Type'', ''application/octet-stream'')]"] part_types by simp_all
  have shape: "h @ concat (map render_header hs) @ CRLF @ multipart b (wrapped_parts block) @ CRLF =
    concat [h, concat (map render_header hs), CRLF, delimiter b @ CRLF,
      render_header (''Content-Type'', ''application/pgp-encrypted''), CRLF, ''Version: 1'' @ CRLF, CRLF,
      delimiter b @ CRLF, render_header (''Content-Type'', ''application/octet-stream''), CRLF,
      replace_all block [LF] CRLF @ CRLF, (delimiter b @ ''--'') @ CRLF]"
    by (simp add: multipart_def wrapped_parts_def)
  have "crlf_text h" using assms(1) crlf_text_signature by auto
  then show ?thesis unfolding shape
    using d e v t crlf_text_headers [OF assms(2)] crlf_text_replaced [OF assms(3)] by (intro crlf_text_concat) simp
qed

lemma armour_trims: "trim (armour mid) \<noteq> []"
proof -
  have "trim (armour mid) = armour mid"
    by (rule trim_graphic_ends) (simp_all add: armour_def pgp_marker_def pgp_end_def graphic_def byte_def)
  then show ?thesis by (simp add: armour_def pgp_marker_def)
qed

text \<open>A message whose text is an armoured block is filed as it is, and marked.\<close>

lemma armour_filed:
  assumes "within_storage_cap (e_cfg e) (dw_listing w) = Inr ()"
    "parse_mime_email (ob_mime o') raw (dw_stamp w) = Some m" "message_body m = armour mid"
    "body_values m = [(''1'', body_value_default\<lparr>bv_value := armour mid\<rparr>)]"
  shows "\<exists>kept. filed_message o' e w ac raw f = Inr kept \<and> message_body kept = armour mid \<and>
    bt_get (m_keywords kept) keyword_e2e = Some True \<and> mailbox_ids kept = [(inbox_id ac, True)]"
proof -
  have n: "\<not> carries_nothing m" using armour_trims by (simp add: carries_nothing_def assms(4) bt_vals_def)
  have b: "message_body (m\<lparr>m_id := i, received_at := t, mailbox_ids := x\<rparr>) = armour mid" for i t x
    using assms(3) by (simp add: message_body_def split: list.splits)
  have c: "contains (armour mid) pgp_marker" "armour mid \<noteq> []"
    by (simp_all add: armour_def contains_prefix) (simp add: pgp_marker_def)
  have k: "message_body (m\<lparr>m_keywords := y\<rparr>) = message_body m" for m y
    by (simp add: message_body_def split: list.split)
  show ?thesis using assms(1,2) n b c by (simp add: filed_message_def seal_inbound_def Let_def k)
qed

lemma parse_single:
  "parse_mime_email e raw now = Some m \<Longrightarrow> body_values m = [(''1'', body_value_default\<lparr>bv_value := message_body m\<rparr>)]"
  by (auto simp: parse_mime_email_def message_body_def bt_get_def split: option.splits)

text \<open>C2. A message the client encrypted arrives as it was encrypted: written, advertised, marked,
  wrapped and signed by the sending relay, and read off the wire by the receiving one, it is filed
  in the inbox with the client's armoured block, byte for byte, as its text, and marked as
  encrypted end to end.\<close>

theorem encrypted_mail_arrives:
  assumes "compose o1 e1 w1 dir from msg f1 = ((sent, i), f2)"
    "message_body msg = pre @ armour mid @ post" "absent pgp_marker pre pgp_marker" "armour_ok mid"
    "\<not> contains (armour mid) (delimiter (pgp_boundary (e_sha1 e1) (armour mid)))"
    "list_all clean_header (built_headers (ob_mime o1) msg (Config.hostname (e_cfg e1)) (dw_clock w1) (hex (dw_raw6 w1)))"
    "list_all graphic from" "\<forall>p. list_all graphic (std (e_crypto e1) p)"
    "\<forall>u k d x h. rk_sign (e_rsa e1) u k d x = Some h \<longrightarrow> signature_text h"
    "within_storage_cap (e_cfg e2) (dw_listing w2) = Inr ()"
  shows "\<exists>kept. filed_message o2 e2 w2 ac (fst (read_data (data_wire sent))) g = Inr kept \<and>
    message_body kept = armour mid \<and> bt_get (m_keywords kept) keyword_e2e = Some True \<and>
    mailbox_ids kept = [(inbox_id ac, True)]"
proof -
  let ?b = "pgp_boundary (e_sha1 e1) (armour mid)"
  obtain h hs where h: "h = [] \<or> signature_text h" "list_all clean_header hs" "list_all (\<lambda>h. \<not> body_header h) hs"
    "sent = h @ concat (map render_header (hs @ [marked_type ?b])) @ CRLF @ multipart ?b (wrapped_parts (armour mid)) @ CRLF"
    using composed_encrypted [OF assms(1-4,6-9)] by blast
  have hs: "list_all clean_header (hs @ [marked_type ?b])" "hs @ [marked_type ?b] \<noteq> []"
    using h(2) marked_type_clean by simp_all
  have b: "CR \<notin> set ?b" "LF \<notin> set ?b"
    using boundary_plain [of "e_sha1 e1" "armour mid"] by (auto simp: list_all_iff graphic_def CR_def LF_def byte_def)
  have a: "CR \<notin> set (armour mid)" using assms(4) marker_text by (auto simp: armour_ok_def armour_def)
  have "crlf_norm sent = sent"
    using crlf_text_norm [OF crlf_text_wrapped [OF h(1) hs(1) a b]] by (simp add: h(4) CRLF_def)
  then have wire: "fst (read_data (data_wire sent)) = sent" using read_data_wire_norm [of sent "[]"] by simp
  obtain sig where sig: "split_message sent = Some (sig @ hs @ [marked_type ?b], multipart ?b (wrapped_parts (armour mid)) @ CRLF)"
      "list_all (\<lambda>h. \<not> body_header h) sig"
  proof (cases "h = []")
    case True
    then show ?thesis using split_rendered [OF hs] that [of "[]"] h(4) by simp
  next
    case False
    with h(1) obtain t where "split_message sent =
        Some ((''DKIM-Signature'', t) # hs @ [marked_type ?b], multipart ?b (wrapped_parts (armour mid)) @ CRLF)"
      using split_signed [OF _ hs] h(4) by blast
    moreover have "\<not> body_header (''DKIM-Signature'', t)"
      by (simp add: body_header_def eq_ignore_ascii_case_def ascii_lower_def ascii_lower_char_def is_upper_def byte_def)
    ultimately show ?thesis using that [of "[(''DKIM-Signature'', t)]"] by simp
  qed
  have "hdr_get ((sig @ hs) @ [marked_type ?b]) ''Content-Type'' = encrypted_type ?b"
    using sig(2) h(3) by (intro marked_lookup) simp
  then obtain m where m: "parse_mime_email (ob_mime o2) sent (dw_stamp w2) = Some m" "message_body m = armour mid"
    using parse_body [OF sig(1), of "ob_mime o2" "dw_stamp w2"] wrapped_body_text [OF assms(4,5), of "ob_mime o2"]
    by (metis append_assoc)
  show ?thesis unfolding wire
    by (rule armour_filed [OF assms(10) m]) (use parse_single [OF m(1)] m(2) in simp)
qed

end
