(* ===== verification/MailWitnesses.thy ===== *)
theory MailWitnesses
  imports ProvisionProps EndToEnd InboundProps MaintenanceProps
begin

text \<open>
  A small relay on which the hypotheses of the properties of mail hold: one account, a key file,
  and libraries for OpenPGP, signatures and dates that do as little as they can.
\<close>

section \<open>The relay\<close>

definition demo_mail :: "string relay_env" where
  "demo_mail = ProvisionProps.demo_relay\<lparr>e_cfg := config_default, e_jenv := demo_env, e_sha1 := demo_digest\<rparr>"

lemma demo_mail_fields [simp]:
  "e_cfg demo_mail = config_default" "e_jenv demo_mail = demo_env" "e_sha1 demo_mail = demo_digest"
  "e_data demo_mail = ''d''" "e_rsa demo_mail = demo_rsa" "e_fresh demo_mail = None" "lower demo_mail = ascii_lower"
  "f_print (e_files demo_mail) = (\<lambda>_. [])" "f_io (e_files demo_mail) = (\<lambda>_. None)" "j_io demo_env = works"
  "e_now demo_mail = 100" "std (e_crypto demo_mail) = (\<lambda>r. r)"
  by (simp_all add: demo_mail_def ProvisionProps.demo_relay_def lower_def demo_env_def demo_crypto_def)

lemma no_limits [simp]:
  "max_account_storage_mb config_default = 0" "reply_only_outbound config_default = False" "Config.hostname config_default = []"
  "domains config_default = []" "debug_dump_eml config_default = False" "inactive_purge_days config_default = 0"
  by (simp_all add: config_default_def)

definition demo_pgp :: "string pgp" where
  "demo_pgp = \<lparr>pg_armored = Some, pg_packets = Some, pg_write = Some, pg_encrypt = (\<lambda>_ _. Some ''sealed'')\<rparr>"

definition demo_out :: "string outbound" where
  "demo_out = \<lparr>ob_pgp = demo_pgp, ob_mime = demo_mime\<rparr>"

lemma demo_out_fields [simp]: "ob_pgp demo_out = demo_pgp" "ob_mime demo_out = demo_mime"
  by (simp_all add: demo_out_def)

definition demo_draws :: draws where
  "demo_draws = \<lparr>dw_listing = None, dw_stamp = ''now'', dw_millis = 0, dw_nanos = 0, dw_clock = demo_day, dw_raw6 = [CHR 0xAB],
     dw_raw8 = [], dw_raw16 = [], dw_error = []\<rparr>"

lemma demo_draws_fields [simp]:
  "dw_listing demo_draws = None" "dw_stamp demo_draws = ''now''" "dw_millis demo_draws = 0" "dw_clock demo_draws = demo_day"
  by (simp_all add: demo_draws_def)

lemma below_cap [simp]: "within_storage_cap config_default x = Inr ()"
  by (simp add: within_storage_cap_def)

lemma demo_encrypts [simp]: "encrypt_inline demo_pgp t [k] = Inr ''sealed''"
  by (simp add: encrypt_inline_def demo_pgp_def)

text \<open>A directory, the root, with a key in it.\<close>

definition demo_keyring :: fs where
  "demo_keyring = \<lparr>fs_files = [([''pubkey.pgp''], Text ''key'')], fs_dirs = []\<rparr>"

definition demo_box :: account where
  "demo_box = (demo_account ''ana@x'')\<lparr>acc_dir := []\<rparr>"

lemma demo_box_fields [simp]:
  "acc_email demo_box = ''ana@x''" "acc_dir demo_box = []" "acc_store demo_box = store_new []" "acc_domain demo_box = ''x''"
  by (simp_all add: demo_box_def demo_account_def)

lemma demo_key [simp]: "load_account_key demo_pgp v [] demo_keyring = Some ''key''"
  by (simp add: load_account_key_def fs_read_def locate_def pjoin_def is_prefix_def demo_keyring_def is_dir_def bt_get_def
    bytes_of_def parse_public_key_def demo_pgp_def ok_of_def)

section \<open>Receiving\<close>

definition demo_note :: string where
  "demo_note = concat (map render_header [(''Subject'', ''Hi'')]) @ CRLF @ ''See you.''"

lemma demo_note_splits: "split_message demo_note = Some ([(''Subject'', ''Hi'')], ''See you.'')"
  unfolding demo_note_def
  by (rule split_rendered) (simp_all add: clean_header_def trim_def trim_end_graphic graphic_def byte_def SP_def CR_def LF_def)

lemma demo_note_read:
  obtains p where "parse_mime_email demo_mime demo_note now = Some p" "subject p = ''Hi''" "message_body p = ''See you.''" "message_id p = []"
proof -
  have "hdr_get [(''Subject'', ''Hi'')] ''Subject'' = ''Hi''" "hdr_get [(''Subject'', ''Hi'')] ''Content-Type'' = []"
    "hdr_get [(''Subject'', ''Hi'')] ''Content-Transfer-Encoding'' = []" "hdr_get [(''Subject'', ''Hi'')] ''Message-Id'' = []"
    by (simp_all add: eval)
  moreover have "decode_words demo_mime ''Hi'' = ''Hi''" by (simp add: decode_words_def)
  moreover have "trim_matches id_chars [] = []" by (simp add: trim_matches_def eval)
  moreover have "extract_mime_text demo_mime [] [] ''See you.'' = ''See you.''"
    by (subst extract_mime_text.simps) (simp add: byte_def CR_def)
  ultimately show thesis
    using that by (simp add: parse_mime_email_def demo_note_splits message_body_def email_default_def body_value_default_def bt_get_def id_list_def)
qed

lemma demo_note_carries: "subject p = ''Hi'' \<Longrightarrow> \<not> carries_nothing p"
  by (simp add: carries_nothing_def trim_graphic_ends graphic_def byte_def)

definition demo_home :: Relay.relay where
  "demo_home = (relay_new demo_keyring [])\<lparr>r_accounts := demo_table\<rparr>"

lemma demo_home_fields [simp]: "r_accounts demo_home = demo_table" "r_fs demo_home = demo_keyring"
  by (simp_all add: demo_home_def relay_new_def)

lemma demo_home_ok: "accounts_ok (r_accounts demo_home)"
  using demo_reachable reachable_ok by simp

lemma demo_home_resolves: "acc_resolve ascii_lower demo_table ''INFO@x'' = Some (demo_account ''ana@x'')"
  by (simp add: acc_resolve_def demo_table_def acc_insert_def add_alias_def accounts_new_def demo_account_def demo_env_def
      bt_get_def less_char_def byte_def eval)

theorem delivered_mail_is_filed_witness:
  "\<exists>pushed s' ac m. delivery_deliver demo_out demo_mail ''f'' [(''nobody@x'', demo_draws), (''INFO@x'', demo_draws)] demo_note demo_home = (pushed, s') \<and>
     acc_resolve ascii_lower (r_accounts s') ''INFO@x'' = Some ac \<and>
     get_email (make_message_id [] ''ana@x'' 0) (acc_store ac) = Some m \<and> subject m = ''Hi'' \<and>
     mailbox_ids m = [(inbox_id ac, True)] \<and> ''ana@x'' \<in> set pushed"
proof -
  obtain pushed s' where d: "delivery_deliver demo_out demo_mail ''f'' [(''nobody@x'', demo_draws), (''INFO@x'', demo_draws)] demo_note demo_home
      = (pushed, s')" by fastforce
  obtain p where p: "parse_mime_email demo_mime demo_note ''now'' = Some p" "subject p = ''Hi''" "message_id p = []"
    using demo_note_read by metis
  have r: "acc_resolve (lower demo_mail) (r_accounts demo_home) ''INFO@x'' = Some (demo_account ''ana@x'')"
    using demo_home_resolves by simp
  have "j_io (e_jenv demo_mail) (msg_path i) = None" for i by (simp add: works_def)
  from delivered_mail_is_filed [OF demo_home_ok _ r _ _ demo_note_carries [OF p(2)] this d] p(1)
  obtain ac m where a: "acc_resolve ascii_lower (r_accounts s') ''INFO@x'' = Some ac"
      "get_email (make_message_id (first_id p) ''ana@x'' 0) (acc_store ac) = Some m"
      "came_from demo_out demo_note ac (make_message_id (first_id p) ''ana@x'' 0) m" "''ana@x'' \<in> set pushed"
    by (auto simp: demo_account_def)
  from a(3) obtain now q where "parse_mime_email demo_mime demo_note now = Some q" "subject m = subject q"
      "mailbox_ids m = [(inbox_id ac, True)]" by (auto simp: came_from_def)
  moreover from this(1) have "subject q = ''Hi''" using demo_note_read [of now] by (metis option.inject)
  moreover have "first_id p = []" using p(3) by (simp add: first_id_def)
  ultimately show ?thesis using a d by metis
qed

theorem received_mail_is_sealed_witness:
  "\<exists>m. filed_message demo_out demo_mail demo_draws demo_box demo_note demo_keyring = Inr m \<and>
     body_values m = [(''1'', sealed_value (utf8_lossy ''sealed''))]"
proof -
  obtain p where p: "parse_mime_email demo_mime demo_note ''now'' = Some p" "subject p = ''Hi''" "message_body p = ''See you.''"
    using demo_note_read by metis
  obtain m where m: "filed_message demo_out demo_mail demo_draws demo_box demo_note demo_keyring = Inr m"
    using p(1) demo_note_carries [OF p(2)] by (simp add: filed_message_def Let_def)
  have "CHR ''-'' \<in> set pgp_marker" "CHR ''-'' \<notin> set ''See you.''" by (simp_all add: pgp_marker_def)
  then have plain: "\<not> contains (message_body p) pgp_marker" unfolding p(3) using contains_set by blast
  have h: "parse_mime_email (ob_mime demo_out) demo_note (dw_stamp demo_draws) = Some p" "message_body p \<noteq> []"
      "load_account_key (ob_pgp demo_out) (e_files demo_mail) (acc_dir demo_box) demo_keyring = Some ''key''"
    using p by simp_all
  have c: "encrypt_inline (ob_pgp demo_out) t [''key''] = Inr ''sealed''" for t by simp
  note sealed = received_mail_is_sealed [OF m h, unfolded if_not_P [OF plain] c sum.case]
  have "body_values m = [(''1'', sealed_value (utf8_lossy ''sealed''))]"
    by (rule sealed [THEN conjunct2, THEN conjunct1])
  with m show ?thesis by blast
qed

section \<open>Submitting\<close>

definition demo_draft :: email where
  "demo_draft = demo_letter\<lparr>m_id := ''e1''\<rparr>"

lemma demo_draft_body: "message_body demo_draft = ''See you.''" "m_id demo_draft = ''e1''"
  using demo_fields(11) by (simp_all add: demo_draft_def message_body_def split: list.splits)

definition mail_to :: "string \<Rightarrow> string \<Rightarrow> envelope" where
  "mail_to from rcpt = \<lparr>env_mail_from = Some \<lparr>ea_email = from, ea_parameters = None\<rparr>,
     env_rcpt_to = [\<lparr>ea_email = rcpt, ea_parameters = None\<rparr>]\<rparr>"

lemma mail_to_fields [simp]:
  "env_mail_from (mail_to f r) = Some \<lparr>ea_email = f, ea_parameters = None\<rparr>"
  "env_rcpt_to (mail_to f r) = [\<lparr>ea_email = r, ea_parameters = None\<rparr>]"
  by (simp_all add: mail_to_def)

lemma submits:
  assumes "within_storage_cap (e_cfg e) (dw_listing w) = Inr ()" "j_io (e_jenv e) = works" "env_mail_from v \<noteq> None"
    "reply_only_outbound (e_cfg e) \<Longrightarrow> reply_only_allows (lower e) (e_cfg e) (acc_email ac) v
       (known_correspondents (lower e) (all_emails (j_ts (e_jenv e)) ms)) = Inr ()"
  shows "\<exists>job ms'. on_submit_email g e w f ac msg v ms = (Inr job, ms')"
proof -
  obtain a where "env_mail_from v = Some a" using assms(3) by blast
  from accepted_as_supplied [OF assms(1) this assms(4)] assms(2) show ?thesis by (metis works_def)
qed

theorem submitted_copy_is_sealed_witness:
  "\<exists>job ms' kept. on_submit_email demo_pgp demo_mail demo_draws demo_keyring demo_box demo_draft (mail_to ''ana@x'' ''bob@y'') (store_new [])
       = (Inr job, ms') \<and> get_email ''e1'' ms' = Some kept \<and> message_body kept = utf8_lossy ''sealed'' \<and> jb_outbound job = demo_draft"
proof -
  have "\<exists>job ms'. on_submit_email demo_pgp demo_mail demo_draws demo_keyring demo_box demo_draft (mail_to ''ana@x'' ''bob@y'') (store_new [])
      = (Inr job, ms')"
    by (rule submits) simp_all
  then obtain job ms' where s: "on_submit_email demo_pgp demo_mail demo_draws demo_keyring demo_box demo_draft (mail_to ''ana@x'' ''bob@y'')
      (store_new []) = (Inr job, ms')" by blast
  have "CHR ''-'' \<in> set pgp_marker" "CHR ''-'' \<notin> set ''See you.''" by (simp_all add: pgp_marker_def)
  then have plain: "\<not> contains (message_body demo_draft) pgp_marker" unfolding demo_draft_body using contains_set by blast
  have "message_body demo_draft \<noteq> []" by (simp add: demo_draft_body)
  moreover have "load_account_key demo_pgp (e_files demo_mail) (acc_dir demo_box) demo_keyring = Some ''key''" by simp
  ultimately obtain kept where "get_email (m_id demo_draft) ms' = Some kept" "message_body kept = utf8_lossy ''sealed''" "jb_outbound job = demo_draft"
    using submitted_copy_is_sealed [OF s, unfolded if_not_P [OF plain] demo_encrypts sum.case] by blast
  with s show ?thesis unfolding demo_draft_body by blast
qed

definition demo_strict :: "string relay_env" where
  "demo_strict = demo_mail\<lparr>e_cfg := config_default\<lparr>reply_only_outbound := True\<rparr>\<rparr>"

definition demo_answered_box :: mail_store where
  "demo_answered_box = (store_new [])\<lparr>msgs := [(''m1'', email_default\<lparr>m_id := ''m1'', m_from := [\<lparr>a_name = [], a_email = ''Bob@y''\<rparr>]\<rparr>)]\<rparr>"

theorem reply_only_reaches_correspondents_witness:
  "\<exists>job ms'. on_submit_email demo_pgp demo_strict demo_draws demo_keyring demo_box demo_draft (mail_to ''ana@x'' ''bob@y'') demo_answered_box
       = (Inr job, ms') \<and>
     (\<exists>m \<in> set (bt_vals (msgs demo_answered_box)). \<exists>a \<in> set (m_from m). ascii_lower (a_email a) = ascii_lower ''bob@y'')"
proof -
  have e: "e_cfg demo_strict = config_default\<lparr>reply_only_outbound := True\<rparr>" "e_jenv demo_strict = demo_env" "lower demo_strict = ascii_lower"
    by (simp_all add: demo_strict_def lower_def) (simp add: demo_env_def)
  have x: "\<not> reply_only_exempt ascii_lower (config_default\<lparr>reply_only_outbound := True\<rparr>) ''ana@x''"
    by (simp add: reply_only_exempt_def config_default_def Let_def)
  have cap: "within_storage_cap (config_default\<lparr>reply_only_outbound := True\<rparr>) l = Inr ()" for l
    by (simp add: within_storage_cap_def config_default_def)
  have "known_correspondents ascii_lower (all_emails (j_ts demo_env) demo_answered_box) = bs_of [''bob@y'']"
    by (simp add: known_correspondents_def all_emails_def demo_answered_box_def email_default_def demo_env_def eval)
  then have "reply_only_allows ascii_lower (config_default\<lparr>reply_only_outbound := True\<rparr>) ''ana@x'' (mail_to ''ana@x'' ''bob@y'')
      (known_correspondents ascii_lower (all_emails (j_ts demo_env) demo_answered_box)) = Inr ()"
    by (simp add: reply_only_allows_def eval)
  then have "\<exists>job ms'. on_submit_email demo_pgp demo_strict demo_draws demo_keyring demo_box demo_draft (mail_to ''ana@x'' ''bob@y'')
      demo_answered_box = (Inr job, ms')"
    by (intro submits) (simp_all add: e cap)
  then obtain job ms' where s: "on_submit_email demo_pgp demo_strict demo_draws demo_keyring demo_box demo_draft (mail_to ''ana@x'' ''bob@y'')
      demo_answered_box = (Inr job, ms')" by blast
  have "jb_envelope job = mail_to ''ana@x'' ''bob@y''"
    using submitted(1) [OF s] by (simp add: resolve_envelope_def)
  then have "\<lparr>ea_email = ''bob@y'', ea_parameters = None\<rparr> \<in> set (env_rcpt_to (jb_envelope job))" by simp
  from reply_only_reaches_correspondents [OF s _ _ this] e x s show ?thesis by simp
qed

text \<open>A relay with the key of the domain \<open>x\<close>, and the key a custom domain \<open>y\<close> was registered with.\<close>

definition demo_signing :: fs where
  "demo_signing =
    \<lparr>fs_files = [([''d'', ''_domains'', ''y'', ''key.pem''], Text ''published''), ([''d'', ''x'', ''key.pem''], Text ''secret'')],
     fs_dirs = bs_of [[''d''], [''d'', ''_domains''], [''d'', ''_domains'', ''y''], [''d'', ''x''], [''d'', ''y'']]\<rparr>"

lemma demo_signing_dirs: "is_dir demo_signing k \<longleftrightarrow>
    k \<in> {[], [''d''], [''d'', ''_domains''], [''d'', ''_domains'', ''y''], [''d'', ''x''], [''d'', ''y'']}"
  by (auto simp: is_dir_def bs_mem_set demo_signing_def)

lemma demo_signing_keys:
  "read_text v demo_signing (key_file (pjoin ''d'' ''x'')) = Some ''secret''"
  "read_text v demo_signing (key_file (domain_dir demo_mail ''y'')) = Some ''published''"
  "fs_read demo_signing (key_file (pjoin ''d'' ''y'')) = None"
  by (simp_all add: read_text_def fs_read_def locate_def key_file_def domain_dir_def pjoin_def is_prefix_def is_suffix_def
      demo_signing_dirs) (simp_all add: demo_signing_def bt_get_def)

theorem any_sender_is_signed_witness:
  "acc_email demo_box = ''ana@x'' \<and>
   (\<exists>job ms' unsigned. on_submit_email demo_pgp demo_mail demo_draws demo_signing demo_box demo_draft (mail_to ''bob@x'' ''eve@z'') (store_new [])
       = (Inr job, ms') \<and>
     fst (fst (compose demo_out demo_mail demo_draws (acc_dir demo_box) ''bob@x'' (jb_outbound job) demo_signing)) =
       dkim_sign demo_rsa unsigned ''secret'' ''x'' (signing_selector config_default ''x''))"
proof -
  have a: "env_mail_from (mail_to ''bob@x'' ''eve@z'') = Some \<lparr>ea_email = ''bob@x'', ea_parameters = None\<rparr>"
    "rsplit_once (CHR ''@'') (ea_email \<lparr>ea_email = ''bob@x'', ea_parameters = None\<rparr>) = Some (''bob'', ''x'')"
    by (simp_all add: rsplit_once_def)
  have k: "read_text (e_files demo_mail) demo_signing (key_file (pjoin (e_data demo_mail) ''x'')) = Some ''secret''"
    "rk_parse (e_rsa demo_mail) ''secret'' = Some ''secret''"
    using demo_signing_keys(1) by (simp_all add: demo_rsa_def)
  have h: "within_storage_cap (e_cfg demo_mail) (dw_listing demo_draws) = Inr ()"
    "j_io (e_jenv demo_mail) (msg_path (m_id demo_draft)) = None" "\<not> reply_only_outbound (e_cfg demo_mail)"
    by (simp_all add: works_def)
  from any_sender_is_signed [OF h(1,2) _ a k, of demo_box "store_new []" demo_pgp demo_signing demo_out demo_draws] h(3)
  show ?thesis by auto
qed

definition demo_renewed :: "string relay_env" where
  "demo_renewed = demo_mail\<lparr>e_fresh := Some ''second''\<rparr>"

lemma demo_renewed_fields [simp]:
  "e_cfg demo_renewed = config_default" "e_data demo_renewed = ''d''" "e_rsa demo_renewed = demo_rsa" "e_fresh demo_renewed = Some ''second''"
  "e_files demo_renewed = e_files demo_mail" "domain_dir demo_renewed d = domain_dir demo_mail d"
  by (simp_all add: demo_renewed_def domain_dir_def)

lemma demo_registered:
  "create_dir_all (domain_dir demo_mail ''y'') demo_signing = (True, demo_signing)"
  by (simp add: create_dir_all_def domain_dir_def pjoin_def is_prefix_def is_suffix_def)
    (simp add: demo_signing_def bt_get_def bs_of_def bs_add_def less_char_def byte_def)

lemma demo_record_written:
  obtains f1 where "domain_dkim demo_renewed ''y'' demo_signing = ((record_name default_selector ''y'', public_key_record demo_rsa ''published''), f1)"
    "fs_read f1 (key_file (pjoin ''d'' ''y'')) = None"
    "fst (load_or_generate_key demo_rsa (e_files demo_mail) (Some ''second'') (pjoin ''d'' ''y'') f1) = Some ''second''"
proof -
  have l: "load_or_generate_key demo_rsa (e_files demo_mail) (Some ''second'') (domain_dir demo_mail ''y'') demo_signing = (Some ''published'', demo_signing)"
    using demo_signing_keys(2) by (simp add: load_or_generate_key_def demo_rsa_def)
  obtain c where w: "write_record_file demo_rsa (e_files demo_mail) (domain_dir demo_mail ''y'') default_selector ''y'' ''published'' demo_signing =
      (True, put_file [''d'', ''_domains'', ''y'', ''dkim-dns.txt''] (Some c) demo_signing)"
    by (simp add: write_record_file_def public_key_record_def demo_rsa_def fs_write_def locate_def domain_dir_def pjoin_def
        is_prefix_def is_suffix_def demo_signing_dirs Let_def)
  let ?f = "put_file [''d'', ''_domains'', ''y'', ''dkim-dns.txt''] (Some c) demo_signing"
  have d: "is_dir ?f k = is_dir demo_signing k" for k by (simp add: is_dir_def put_file_def)
  have r: "fs_read ?f (key_file (pjoin ''d'' ''y'')) = None"
    by (simp add: fs_read_def locate_def key_file_def pjoin_def is_prefix_def is_suffix_def d demo_signing_dirs)
      (simp add: put_file_def demo_signing_def bt_get_def)
  moreover have "fst (load_or_generate_key demo_rsa (e_files demo_mail) (Some ''second'') (pjoin ''d'' ''y'') ?f) = Some ''second''"
    using r by (simp add: load_or_generate_key_def read_text_def demo_rsa_def fs_create_new_def path_exists_def fs_write_def fs_read_def locate_def
        key_file_def pjoin_def is_prefix_def is_suffix_def d demo_signing_dirs)
  moreover have "domain_dkim demo_renewed ''y'' demo_signing = ((record_name default_selector ''y'', public_key_record demo_rsa ''published''), ?f)"
    by (simp add: domain_dkim_def demo_registered l w)
  ultimately show thesis using that by blast
qed

theorem custom_domain_signs_with_other_key_witness:
  "\<exists>f1 unsigned. domain_dkim demo_renewed ''y'' demo_signing = ((record_name default_selector ''y'', public_key_record demo_rsa ''published''), f1) \<and>
     fst (fst (compose demo_out demo_renewed demo_draws [] ''bob@y'' demo_draft f1)) = dkim_sign demo_rsa unsigned ''second'' ''y'' default_selector"
proof -
  obtain f1 where f: "domain_dkim demo_renewed ''y'' demo_signing = ((record_name default_selector ''y'', public_key_record demo_rsa ''published''), f1)"
    "fs_read f1 (key_file (pjoin ''d'' ''y'')) = None"
    "fst (load_or_generate_key demo_rsa (e_files demo_mail) (Some ''second'') (pjoin ''d'' ''y'') f1) = Some ''second''"
    using demo_record_written .
  have h: "bt_get (domains (e_cfg demo_renewed)) ''y'' = None" "create_dir_all (domain_dir demo_renewed ''y'') demo_signing = (True, demo_signing)"
    "read_text (e_files demo_renewed) demo_signing (key_file (domain_dir demo_renewed ''y'')) = Some ''published''"
    "rk_parse (e_rsa demo_renewed) ''published'' = Some ''published''"
    using demo_registered demo_signing_keys(2) by (simp_all add: bt_get_def demo_rsa_def)
  have s: "rsplit_once (CHR ''@'') ''bob@y'' = Some (''bob'', ''y'')" by (simp add: rsplit_once_def)
  from custom_domain_signs_with_other_key [OF h f(1) s, of "''second''" demo_out demo_draws "[]" demo_draft] f show ?thesis by auto
qed

theorem sent_message_is_restored_witness:
  "\<exists>ac m. bt_get (a_stores (r_accounts (after_send demo_mail (demo_account ''ana@x'')
       \<lparr>jb_outbound = demo_draft, jb_stored = demo_draft, jb_envelope = mail_to ''ana@x'' ''bob@y'', jb_body = []\<rparr>
       (Inr (Sent (Some ''<i@x>''))) demo_home))) ''ana@x'' = Some ac \<and>
     get_email ''e1'' (acc_store ac) = Some m \<and> message_id m = [''i@x'']"
proof -
  let ?job = "\<lparr>jb_outbound = demo_draft, jb_stored = demo_draft, jb_envelope = mail_to ''ana@x'' ''bob@y'', jb_body = []\<rparr>"
  have i: "sent_message_id ''<i@x>'' = Some ''i@x''" by (simp add: sent_message_id_def trim_matches_def eval)
  have a: "bt_get (a_stores (r_accounts demo_home)) (acc_email (demo_account ''ana@x'')) = Some (demo_account ''ana@x'')"
    by (simp add: demo_table_def acc_insert_def add_alias_def accounts_new_def demo_account_def bt_get_def)
  obtain ms where p: "Store.put (j_io (e_jenv demo_mail)) ((jb_stored ?job)\<lparr>message_id := [''i@x'']\<rparr>) (acc_store (demo_account ''ana@x'')) = (Inr (), ms)"
    using put_works [of works] by (auto simp: works_def)
  from sent_message_is_restored [OF i a p] demo_draft_body(2) show ?thesis by (simp add: demo_account_def) blast
qed

section \<open>From relay to relay\<close>

definition demo_header :: string where
  "demo_header = folded_header ''v=1'' [''b=x'']"

definition demo_sender :: "string relay_env" where
  "demo_sender = demo_mail\<lparr>e_crypto := demo_crypto\<lparr>std := \<lambda>_. ''AA''\<rparr>, e_rsa := demo_rsa\<lparr>rk_sign := \<lambda>_ _ _ _. Some demo_header\<rparr>\<rparr>"

definition demo_confidential :: email where
  "demo_confidential = demo_letter\<lparr>body_values := [(''1'', body_value_default\<lparr>bv_value := ''x'' @ armour demo_secret @ ''y''\<rparr>)]\<rparr>"

lemma demo_confidential_fields:
  "message_body demo_confidential = ''x'' @ armour demo_secret @ ''y''"
  "built_headers demo_mime demo_confidential [] demo_day ''ab'' = built_headers demo_mime demo_letter [] demo_day ''ab''"
  by (simp_all add: demo_confidential_def demo_letter_def email_default_def message_body_def body_value_default_def bt_get_def
      built_headers_def built_subject_def built_date_def built_id_def built_domain_def)

lemma demo_raw_hex: "hex (dw_raw6 demo_draws) = ''ab''"
  by (simp add: demo_draws_def hex_def hex_digit_def byte_def chr_def char_of_def bit_simps)

lemma demo_header_signs: "signature_text demo_header"
  unfolding signature_text_def demo_header_def
  by (intro exI [of _ "''v=1''"] exI [of _ "[''b=x'']"]) (simp add: fold_line_def is_ascii_def byte_def CR_def LF_def)

theorem encrypted_mail_arrives_witness:
  "\<exists>sent i f2 kept. compose demo_out demo_sender demo_draws [] ''ana@x'' demo_confidential demo_signing = ((sent, i), f2) \<and>
     filed_message demo_out demo_mail demo_draws demo_box (fst (read_data (data_wire sent))) demo_keyring = Inr kept \<and>
     message_body kept = armour demo_secret"
proof -
  have e: "e_sha1 demo_sender = demo_digest" "e_cfg demo_sender = config_default" "e_crypto demo_sender = demo_crypto\<lparr>std := \<lambda>_. ''AA''\<rparr>"
    "e_rsa demo_sender = demo_rsa\<lparr>rk_sign := \<lambda>_ _ _ _. Some demo_header\<rparr>"
    by (simp_all add: demo_sender_def)
  obtain sent i f2 where c: "compose demo_out demo_sender demo_draws [] ''ana@x'' demo_confidential demo_signing = ((sent, i), f2)"
    by (metis prod.collapse)
  have pre: "absent pgp_marker ''x'' pgp_marker" by (simp add: absent_Cons pgp_marker_def)
  have "absent pgp_end (pgp_marker @ demo_secret) pgp_end"
    by (simp add: demo_secret_def pgp_marker_def pgp_end_def absent_Cons LF_def)
  then have mid: "armour_ok demo_secret" by (simp add: armour_ok_def demo_secret_def LF_def CR_def byte_def)
  have sep: "\<not> contains (armour demo_secret) (delimiter (pgp_boundary (e_sha1 demo_sender) (armour demo_secret)))"
    unfolding e(1) demo_boundary by (simp add: armour_def demo_secret_def delimiter_def pgp_marker_def pgp_end_def LF_def)
  have clean: "list_all clean_header (built_headers demo_mime demo_letter [] demo_day ''ab'')"
    unfolding demo_built
    by (simp add: clean_header_def trim_def trim_end_graphic graphic_def byte_def SP_def CR_def LF_def)
  have built: "list_all clean_header (built_headers (ob_mime demo_out) demo_confidential (Config.hostname (e_cfg demo_sender))
      (dw_clock demo_draws) (hex (dw_raw6 demo_draws)))"
    using clean unfolding demo_raw_hex e(2) by (simp only: demo_out_fields demo_draws_fields no_limits demo_confidential_fields(2))
  have sender: "list_all graphic ''ana@x''" by (simp add: graphic_def byte_def)
  have base64: "\<forall>p. list_all graphic (std (e_crypto demo_sender) p)" by (simp add: e(3) graphic_def byte_def)
  have signs: "\<forall>u k d x h. rk_sign (e_rsa demo_sender) u k d x = Some h \<longrightarrow> signature_text h"
    using demo_header_signs by (simp add: e(4))
  have cap: "within_storage_cap (e_cfg demo_mail) (dw_listing demo_draws) = Inr ()" by simp
  from encrypted_mail_arrives [OF c demo_confidential_fields(1) pre mid sep built sender base64 signs cap, of demo_out demo_box demo_keyring] c
  show ?thesis by blast
qed

section \<open>Sweeping\<close>

definition demo_open :: config where
  "demo_open = config_default\<lparr>inactive_purge_days := 1,
     domains := [(''x'', \<lparr>dkim_selector = [], d_accounts = [], allow_provision = True, provision_secret = [], authorized_did_domain = False\<rparr>)]\<rparr>"

definition demo_later :: "string relay_env" where
  "demo_later = demo_mail\<lparr>e_cfg := demo_open, e_now := 200000\<rparr>"

definition demo_idle :: Relay.relay where
  "demo_idle = demo_home\<lparr>r_fs := \<lparr>fs_files = [], fs_dirs = bs_of [[''d''], [''d'', ''x''], [''d'', ''x'', ''ana'']]\<rparr>\<rparr>"

text \<open>One file, an hour and some after the epoch.\<close>

definition demo_walks :: "string \<Rightarrow> mtree list option" where
  "demo_walks p = Some [MFile (Some 5000), MDir None]"

theorem sweep_takes_unused_only_witness:
  "account_at ''ana@x'' demo_idle \<noteq> None \<and> account_at ''ana@x'' (purge_inactive demo_walks demo_later demo_idle) = None \<and>
   primary_of demo_later (purge_inactive demo_walks demo_later demo_idle) ''info@x'' = None"
proof -
  have a: "r_accounts demo_idle = demo_table" "r_disks demo_idle = []" by (simp_all add: demo_idle_def demo_home_def relay_new_def)
  have ok: "bt_ok (domains (e_cfg demo_later))" "accounts_ok (r_accounts demo_idle)"
    using demo_home_ok by (simp_all add: demo_later_def demo_open_def bt_ok_def a)
  have stores: "a_stores demo_table = [(''ana@x'', demo_account ''ana@x'')]"
    by (simp add: demo_table_def acc_insert_def add_alias_def accounts_new_def demo_account_def bt_get_def)
  have f: "all_files demo_idle = r_fs demo_idle"
    by (simp add: all_files_def open_disks_def a stores demo_account_def add_disk_def bt_vals_def store_new_def split: option.split)
  have d: "is_dir (r_fs demo_idle) k \<longleftrightarrow> k \<in> {[], [''d''], [''d'', ''x''], [''d'', ''x'', ''ana'']}" for k
    by (auto simp: is_dir_def bs_mem_set demo_idle_def)
  obtain es where es: "read_dir (r_fs demo_idle) (pjoin ''d'' ''x'') = Some ([''d'', ''x''], es)" "(''ana'', None) \<in> set es"
    by (simp add: read_dir_def locate_def pjoin_def is_prefix_def is_suffix_def d)
      (simp add: children_def demo_idle_def bs_of_def bs_add_def less_char_def byte_def)
  have c: "purge_cutoff 200000 1 = 113600" by (simp add: purge_cutoff_def)
  have l: "e_cfg demo_later = demo_open" "e_data demo_later = ''d''" "e_now demo_later = 200000" "lower demo_later = ascii_lower"
    by (simp_all add: demo_later_def) (simp add: lower_def demo_env_def)
  have "unused (demo_walks p) 113600" for p by (simp add: unused_def demo_walks_def)
  then have "purgeable demo_walks demo_open ''d'' (r_fs demo_idle) 113600 ''x''
      \<lparr>dkim_selector = [], d_accounts = [], allow_provision = True, provision_secret = [], authorized_did_domain = False\<rparr> ''ana''"
    using es by (simp add: purgeable_def demo_open_def bt_get_def)
  moreover have "inactive_purge_days demo_open = 1" by (simp add: demo_open_def)
  moreover have "''ana@x'' = email_of ''ana'' ''x''" by (simp add: email_of_def)
  ultimately have g: "goes demo_walks demo_later demo_idle ''ana@x''"
    unfolding goes_def l f by (metis c one_neq_zero)
  have "account_at ''ana@x'' demo_idle \<noteq> None" by (simp add: account_at_def a stores bt_get_def)
  moreover have "primary_of demo_later demo_idle ''info@x'' = Some ''ana@x''"
    by (simp add: primary_of_def a l demo_aliases bt_get_def ascii_lower_def ascii_lower_char_def is_upper_def byte_def)
  ultimately show ?thesis
    using sweep_takes_unused_only [OF ok, of "''ana@x''" demo_walks "''info@x''"] g by simp
qed

end
