(* ===== verification/LifetimeWitness.thy ===== *)
theory LifetimeWitness
  imports Lifetime MailWitnesses
begin

text \<open>
  A relay with one configured account, from an empty disk through its start.
\<close>

definition demo_home_cfg :: config where
  "demo_home_cfg = config_default\<lparr>domains := [(''x'', \<lparr>dkim_selector = [], d_accounts = [(''ana'', \<lparr>ca_alias = [''info'']\<rparr>)],
     allow_provision = False, provision_secret = [], authorized_did_domain = False\<rparr>)]\<rparr>"

definition demo_boot :: "string relay_env" where
  "demo_boot = demo_mail\<lparr>e_cfg := demo_home_cfg\<rparr>"

lemma demo_boot_fields:
  "e_cfg demo_boot = demo_home_cfg" "e_data demo_boot = ''d''" "e_rsa demo_boot = demo_rsa" "lower demo_boot = ascii_lower"
  "e_files demo_boot = e_files demo_mail" "e_jenv demo_boot = demo_env"
  by (simp_all add: demo_boot_def) (simp add: lower_def demo_env_def)

definition demo_blank :: fs where
  "demo_blank = \<lparr>fs_files = [], fs_dirs = []\<rparr>"

definition demo_push :: web_push where
  "demo_push = \<lparr>wp_sign = (\<lambda>_ _ _. Inl []), wp_build = (\<lambda>_ _ _ _. Inl []), wp_send = (\<lambda>_. Inl [])\<rparr>"

lemma boot_domains: "dyn_load (e_files demo_boot) demo_blank ''d'' [] = []"
  by (simp add: dyn_load_def demo_blank_def read_dir_def locate_def pjoin_def is_prefix_def is_suffix_def is_dir_def bs_mem_def bt_get_def)

lemma boot_sweeps: "boot_cleanup demo_boot (relay_new demo_blank []) = ([], relay_new demo_blank [])"
  by (simp add: boot_cleanup_def cleanup_orphaned_data_def relay_new_def demo_blank_def demo_boot_fields read_dir_def locate_def is_dir_def bs_mem_def bt_get_def)

 
definition demo_made :: "Files.content \<Rightarrow> Files.content \<Rightarrow> fs" where
  "demo_made a b = \<lparr>fs_files = [([''d'', ''x'', ''dkim-dns.txt''], a), ([''d'', ''x'', ''key.pem''], b)], fs_dirs = [([''d''], ()), ([''d'', ''x''], ())]\<rparr>"

lemmas fs_calls = create_dir_all_def pjoin_def is_prefix_def is_suffix_def bt_get_def read_text_def fs_read_def locate_def is_dir_def bs_mem_def
  path_exists_def fs_write_def put_file_def Let_def bs_add_def less_char_def byte_def

lemma boot_signs: "\<exists>a b. boot_dkim demo_boot (\<lambda>_. Some ''k'') (domains (e_cfg demo_boot)) demo_blank = Some (demo_made a b)"
  by (simp add: demo_boot_fields demo_home_cfg_def fs_calls demo_blank_def demo_made_def
     load_or_generate_key_def key_file_def demo_rsa_def fs_create_new_def
     write_record_file_def public_key_record_def split: prod.split)

lemma boot_invites: "\<exists>iv c. issue_setup_tokens k (e_files demo_mail) demo_home_cfg ''d'' (\<lambda>_ _. Some ''r'') (demo_made a b) =
   Ret (iv, \<lparr>fs_files = [([''d'', ''x'', ''ana'', ''setup.token''], c), ([''d'', ''x'', ''dkim-dns.txt''], a), ([''d'', ''x'', ''key.pem''], b)], fs_dirs = [([''d''], ()), ([''d'', ''x''], ()), ([''d'', ''x'', ''ana''], ())]\<rparr>)"
  by (simp add: issue_setup_tokens_def static_accounts_def demo_home_cfg_def issue_token_def read_envelope_def generate_token_def bt_keys_def
   token_file_def account_dir_def envelope_file_def or_default_def fs_calls demo_made_def)

definition demo_booted :: "Files.content \<Rightarrow> Files.content \<Rightarrow> Files.content \<Rightarrow> fs" where
  "demo_booted a b c = \<lparr>fs_files = [([''d'', ''x'', ''ana'', ''setup.token''], c), ([''d'', ''x'', ''dkim-dns.txt''], a), ([''d'', ''x'', ''key.pem''], b)], fs_dirs = [([''d''], ()), ([''d'', ''x''], ()), ([''d'', ''x'', ''ana''], ())]\<rparr>"

lemma boot_opens: "\<exists>s. open_stores demo_boot (load_push_subscriptions demo_boot ((relay_new demo_blank [])\<lparr>r_fs := demo_booted a b c\<rparr>)) = Some s \<and>
   bt_get (a_aliases (r_accounts s)) ''info@x'' = Some ''ana@x'' \<and> r_domains s = [] \<and>
   fs_dirs (r_fs s) = [([''d''], ()), ([''d'', ''x''], ()), ([''d'', ''x'', ''ana''], ()), ([''d'', ''x'', ''ana'', ''messages''], ())]"
  by (simp add: open_stores_def static_accounts_def demo_home_cfg_def demo_boot_fields bt_keys_def open_configured_def store_open_def
    dir_of_def account_dir_def email_of_def load_push_subscriptions_def relay_new_def demo_booted_def fs_calls build_alias_map_def full_alias_def
    acc_insert_def accounts_new_def account_for_def ascii_lower_def ascii_lower_char_def is_upper_def split: option.split prod.split)

lemma boot_scans:
  fixes s :: Relay.relay
  assumes "fs_dirs (r_fs s) = [([''d''], ()), ([''d'', ''x''], ()), ([''d'', ''x'', ''ana''], ()), ([''d'', ''x'', ''ana'', ''messages''], ())]"
  shows "scan_dyn_accounts (e_files demo_boot) (e_cfg demo_boot) [] (e_data demo_boot) r_fs g s = s"
proof -
  have fold: "(\<And>x. x \<in> set xs \<Longrightarrow> h s x = s) \<Longrightarrow> foldl h s xs = s" for h :: "Relay.relay \<Rightarrow> string \<times> Files.content option \<Rightarrow> Relay.relay" and xs
    by (induction xs) auto
  have "scan_entry (e_files demo_boot) (e_cfg demo_boot) (e_data demo_boot) r_fs g ''x'' s (n, c) = s"
    if "(n, c) \<in> set (children k Some (fs_files (r_fs s)) @ children [''d'', ''x''] (\<lambda>_. None) (fs_dirs (r_fs s)))" for n c k
    using that by (auto simp: scan_entry_def children_def assms demo_boot_fields demo_home_cfg_def bt_get_def)
  moreover have "read_dir (r_fs s) (pjoin (e_data demo_boot) ''x'') =
      Some ([''d'', ''x''], children [''d'', ''x''] Some (fs_files (r_fs s)) @ children [''d'', ''x''] (\<lambda>_. None) (fs_dirs (r_fs s)))"
    by (simp add: read_dir_def demo_boot_fields fs_calls assms)
  ultimately have "scan_domain (e_files demo_boot) (e_cfg demo_boot) (e_data demo_boot) r_fs g s ''x'' = s"
    unfolding scan_domain_def by (simp only: option.case prod.case) (rule fold, metis prod.collapse)
  then show ?thesis by (simp add: scan_dyn_accounts_def demo_boot_fields demo_home_cfg_def bt_keys_def)
qed

lemma demo_boots:
  "\<exists>s. boot demo_boot (\<lambda>_. Some ''k'') (\<lambda>_ _. Some ''r'') (relay_new demo_blank []) = Ret (Some s) \<and>
     bt_get (a_aliases (r_accounts s)) ''info@x'' = Some ''ana@x''"
proof -
  obtain a b where k: "boot_dkim demo_boot (\<lambda>_. Some ''k'') (domains (e_cfg demo_boot)) demo_blank = Some (demo_made a b)" using boot_signs by blast
  obtain iv c where t: "issue_setup_tokens (e_crypto demo_boot) (e_files demo_boot) (e_cfg demo_boot) (e_data demo_boot) (\<lambda>_ _. Some ''r'') (demo_made a b)
      = Ret (iv, demo_booted a b c)"
    using boot_invites unfolding demo_booted_def demo_boot_fields by blast
  obtain s where s: "open_stores demo_boot (load_push_subscriptions demo_boot ((relay_new demo_blank [])\<lparr>r_fs := demo_booted a b c\<rparr>)) = Some s"
      "bt_get (a_aliases (r_accounts s)) ''info@x'' = Some ''ana@x''" "r_domains s = []"
      "fs_dirs (r_fs s) = [([''d''], ()), ([''d'', ''x''], ()), ([''d'', ''x'', ''ana''], ()), ([''d'', ''x'', ''ana'', ''messages''], ())]"
    using boot_opens by blast
  have n: "(relay_new demo_blank [])\<lparr>r_domains := []\<rparr> = relay_new demo_blank []" "r_fs (relay_new demo_blank []) = demo_blank"
    "r_domains (relay_new demo_blank []) = []" by (simp_all add: relay_new_def)
  have "boot demo_boot (\<lambda>_. Some ''k'') (\<lambda>_ _. Some ''r'') (relay_new demo_blank []) = Ret (Some s)"
    by (simp only: boot_def Let_def n demo_boot_fields(2) boot_domains boot_sweeps snd_conv k option.case t [unfolded demo_boot_fields(2)] bind_out.simps prod.case
        s(1,3) boot_scans [OF s(4), unfolded demo_boot_fields(2)] option.map)
  with s(2) show ?thesis by blast
qed

theorem served_address_has_account_witness:
  "\<exists>s ac. alive demo_out demo_push {demo_boot} s \<and> delivery_accepts demo_boot s ''INFO@x'' \<and>
     acc_resolve ascii_lower (r_accounts s) ''INFO@x'' = Some ac \<and> acc_email ac = ''ana@x''"
proof -
  obtain s where s: "boot demo_boot (\<lambda>_. Some ''k'') (\<lambda>_ _. Some ''r'') (relay_new demo_blank []) = Ret (Some s)"
     "bt_get (a_aliases (r_accounts s)) ''info@x'' = Some ''ana@x''"
    using demo_boots by blast
  have a: "alive demo_out demo_push {demo_boot} s" by (rule alive.booted [OF _ s(1)]) simp
  have "lower demo_boot ''INFO@x'' = ''info@x''"
    by (simp add: demo_boot_fields ascii_lower_def ascii_lower_char_def is_upper_def byte_def chr_def char_of_def bit_simps)
  then have "primary_of demo_boot s ''INFO@x'' = Some ''ana@x''" by (simp add: primary_of_def s(2))
  with served_address_has_account [OF a, of demo_boot "''INFO@x''"] a show ?thesis by (auto simp: demo_boot_fields)
qed

end
