(* ===== verification/GoJson.thy ===== *)
theory GoJson
  imports Mime
begin

text \<open>
  \<open>go_json.rs\<close>: the escapes of Go's encoder added to those of \<open>serde_json\<close>, and what a reader makes
  of them. \<open>serde_json\<close> is not modelled: it hands the formatter the fragments between its own
  escapes. The date type of \<open>time.rs\<close> is in \<open>Mime\<close>, where it is written; its fraction is here.
\<close>

section \<open>The formatter\<close>

text \<open>The characters of a text, as \<open>char_indices\<close> visits them: \<open>utf8_step\<close> says how long each is.\<close>

definition next_char :: "string \<Rightarrow> string" where
  "next_char s = take (snd (utf8_step s)) s"

definition u_escape :: "string \<Rightarrow> string" where
  "u_escape digits = CHR 0x5C # CHR ''u'' # digits"

definition go_escape :: "string \<Rightarrow> string option" where
  "go_escape c =
    (if c = ''<'' then Some (u_escape ''003c'')
     else if c = ''>'' then Some (u_escape ''003e'')
     else if c = ''&'' then Some (u_escape ''0026'')
     else if c = map chr [0xE2, 0x80, 0xA8] then Some (u_escape ''2028'')
     else if c = map chr [0xE2, 0x80, 0xA9] then Some (u_escape ''2029'')
     else None)"

text \<open>The loop: \<open>i\<close> the index of the next character, \<open>start\<close> the first byte not written yet.\<close>

function go_loop :: "string \<Rightarrow> nat \<Rightarrow> nat \<Rightarrow> string \<Rightarrow> string" where
  "go_loop fragment start i out =
    (if length fragment \<le> i then out @ drop start fragment
     else
       (let c = next_char (drop i fragment);
            i' = i + snd (utf8_step (drop i fragment)) in
        case go_escape c of
          None \<Rightarrow> go_loop fragment start i' out
        | Some escaped \<Rightarrow>
            go_loop fragment (i + length c) i' (out @ take (i - start) (drop start fragment) @ escaped)))"
  by pat_completeness auto
termination
proof (relation "measure (\<lambda>(fragment, start, i, out). length fragment - i)", goal_cases)
  case (2 fragment start i out c i')
  then show ?case using utf8_step_pos [of "drop i fragment"] by simp
next
  case (3 fragment start i out c i' escaped)
  then show ?case using utf8_step_pos [of "drop i fragment"] by simp
qed simp

declare go_loop.simps [simp del]

definition write_string_fragment :: "string \<Rightarrow> string" where
  "write_string_fragment fragment = go_loop fragment 0 0 []"

section \<open>One character at a time\<close>

text \<open>The reference: each character by itself.\<close>

function escape_chars :: "string \<Rightarrow> string" where
  "escape_chars s =
    (if s = [] then []
     else (case go_escape (next_char s) of None \<Rightarrow> next_char s | Some e \<Rightarrow> e)
            @ escape_chars (drop (snd (utf8_step s)) s))"
  by pat_completeness auto
termination
proof (relation "measure length", goal_cases)
  case (2 s)
  then show ?case using utf8_step_pos [of s] by simp
qed simp

declare escape_chars.simps [simp del]

lemma escape_chars_Nil [simp]: "escape_chars [] = []"
  by (simp add: escape_chars.simps)

lemma escape_chars_step:
  "s \<noteq> [] \<Longrightarrow> escape_chars s =
     (case go_escape (next_char s) of None \<Rightarrow> next_char s | Some e \<Rightarrow> e)
       @ escape_chars (drop (snd (utf8_step s)) s)"
  by (subst escape_chars.simps) simp

lemma go_loop_escapes:
  assumes "start \<le> i" "utf8_ok (drop i fragment)"
  shows "go_loop fragment start i out
    = out @ take (i - start) (drop start fragment) @ escape_chars (drop i fragment)"
  using assms
proof (induction fragment start i out rule: go_loop.induct)
  case (1 fragment start i out)
  show ?case
  proof (cases "length fragment \<le> i")
    case True
    then show ?thesis by (subst go_loop.simps) simp
  next
    case False
    let ?d = "drop i fragment"
    let ?c = "next_char ?d" and ?i = "i + snd (utf8_step ?d)"
    obtain a r where d: "?d = a # r" using False by (cases ?d) auto
    obtain n where n: "utf8_step (a # r) = (True, Suc n)" "n \<le> length r" "utf8_ok (drop n r)"
      using utf8_step_ok [of a r] 1(4) d by auto
    have e: "drop ?i fragment = drop (snd (utf8_step ?d)) ?d" by (simp add: add.commute)
    also have "\<dots> = drop n r" unfolding d n(1) by simp
    finally have ok: "utf8_ok (drop ?i fragment)" using n(3) by (simp only:)
    have len: "length ?c = snd (utf8_step ?d)" unfolding d next_char_def n(1) using n(2) by simp
    have ref: "escape_chars ?d = (case go_escape ?c of None \<Rightarrow> ?c | Some e \<Rightarrow> e) @ escape_chars (drop ?i fragment)"
      unfolding e by (rule escape_chars_step) (use False in simp)
    show ?thesis
    proof (cases "go_escape ?c")
      case None
      have "take (?i - start) (drop start fragment) = take (i - start) (drop start fragment) @ ?c"
      proof -
        have "?i - start = (i - start) + snd (utf8_step ?d)" using 1(3) by linarith
        then show ?thesis
          using 1(3) by (simp only: next_char_def take_add drop_drop le_add_diff_inverse2)
      qed
      moreover have "go_loop fragment start ?i out
          = out @ take (?i - start) (drop start fragment) @ escape_chars (drop ?i fragment)"
        using 1(1) [OF False refl refl None] 1(3) ok by simp
      ultimately show ?thesis
        using False None ref by (subst go_loop.simps) (simp add: Let_def)
    next
      case (Some e)
      have "go_loop fragment (i + length ?c) ?i (out @ take (i - start) (drop start fragment) @ e)
          = (out @ take (i - start) (drop start fragment) @ e) @ escape_chars (drop ?i fragment)"
        using 1(2) [OF False refl refl Some] ok len by simp
      then show ?thesis
        using False Some ref by (subst go_loop.simps) (simp add: Let_def)
    qed
  qed
qed

lemma fragment_escapes: "utf8_ok s \<Longrightarrow> write_string_fragment s = escape_chars s"
  by (simp add: write_string_fragment_def go_loop_escapes)

section \<open>Reading it back\<close>

text \<open>
  The specification: what stands between the quotes of a string, by RFC 8259, section 7. Not a
  character below a space, not a quote, and the escapes as the section lists them.
\<close>

definition hex4 :: "string \<Rightarrow> nat option" where
  "hex4 s =
    (case s of
       a # b # c # d # _ \<Rightarrow>
         map_option (\<lambda>ds. foldl (\<lambda>n x. 16 * n + x) 0 ds) (sequence_opt (map hex_val [a, b, c, d]))
     | _ \<Rightarrow> None)"

definition utf8_encode :: "nat \<Rightarrow> string" where
  "utf8_encode n =
    map chr
      (if n < 0x80 then [n]
       else if n < 0x800 then [0xC0 + n div 64, 0x80 + n mod 64]
       else if n < 0x10000 then [0xE0 + n div 4096, 0x80 + n div 64 mod 64, 0x80 + n mod 64]
       else [0xF0 + n div 262144, 0x80 + n div 4096 mod 64, 0x80 + n div 64 mod 64, 0x80 + n mod 64])"

definition simple_escape :: "char \<Rightarrow> char option" where
  "simple_escape c =
    map_of (zip [CHR 0x22, CHR 0x5C, CHR ''/'', CHR ''b'', CHR ''f'', CHR ''n'', CHR ''r'', CHR ''t'']
                [CHR 0x22, CHR 0x5C, CHR ''/'', CHR 0x08, CHR 0x0C, CHR 0x0A, CHR 0x0D, CHR 0x09]) c"

text \<open>\<open>unicode_escape r\<close>: the character of the escape whose digits \<open>r\<close> starts with, and what follows.\<close>

definition unicode_escape :: "string \<Rightarrow> (string \<times> string) option" where
  "unicode_escape r =
    (case hex4 r of
       None \<Rightarrow> None
     | Some n \<Rightarrow>
         if 0xD800 \<le> n \<and> n < 0xDC00 then
           (case Option.bind (strip_prefix (u_escape []) (drop 4 r)) hex4 of
              None \<Rightarrow> None
            | Some m \<Rightarrow>
                if 0xDC00 \<le> m \<and> m < 0xE000
                then Some (utf8_encode (0x10000 + (n - 0xD800) * 1024 + (m - 0xDC00)), drop 10 r)
                else None)
         else if 0xDC00 \<le> n \<and> n < 0xE000 then None
         else Some (utf8_encode n, drop 4 r))"

lemma unicode_escape_rest: "unicode_escape r = Some (v, r') \<Longrightarrow> length r' \<le> length r"
  by (auto simp: unicode_escape_def split: option.splits if_splits)

function json_text :: "string \<Rightarrow> string option" where
  "json_text [] = Some []"
| "json_text (c # r) =
    (if c \<noteq> CHR 0x5C then
       (if byte c < 32 \<or> c = CHR 0x22 then None else map_option ((#) c) (json_text r))
     else
       (case r of
          [] \<Rightarrow> None
        | e # r' \<Rightarrow>
            if e = CHR ''u'' then
              (case unicode_escape r' of
                 None \<Rightarrow> None
               | Some (v, rest) \<Rightarrow> map_option ((@) v) (json_text rest))
            else
              (case simple_escape e of
                 None \<Rightarrow> None
               | Some x \<Rightarrow> map_option ((#) x) (json_text r'))))"
  by pat_completeness auto
termination
  by (relation "measure length") (auto dest: unicode_escape_rest)

declare json_text.simps [simp del]

lemma json_text_Nil [simp]: "json_text [] = Some []"
  by (simp add: json_text.simps)

text \<open>A piece of a string that reads as \<open>v\<close> whatever follows it.\<close>

definition reads_as :: "string \<Rightarrow> string \<Rightarrow> bool" where
  "reads_as e v \<longleftrightarrow> (\<forall>t. json_text (e @ t) = map_option ((@) v) (json_text t))"

lemma reads_as_Nil [simp]: "reads_as [] []"
  by (simp add: reads_as_def map_option_case split: option.split)

lemma reads_as_append: "reads_as a v \<Longrightarrow> reads_as b w \<Longrightarrow> reads_as (a @ b) (v @ w)"
  by (auto simp: reads_as_def map_option_case split: option.splits)

lemma reads_as_whole: "reads_as e v \<Longrightarrow> json_text e = Some v"
  using reads_as_def [of e v] by (metis append_Nil2 json_text_Nil option.simps(9))

definition bare :: "char \<Rightarrow> bool" where
  "bare c \<longleftrightarrow> 32 \<le> byte c \<and> c \<noteq> CHR 0x22 \<and> c \<noteq> CHR 0x5C"

lemma reads_as_bare: "list_all bare s \<Longrightarrow> reads_as s s"
proof (induction s)
  case (Cons c s)
  have "reads_as [c] [c]" using Cons.prems by (auto simp: reads_as_def json_text.simps bare_def map_option_case split: option.splits)
  then show ?case using Cons reads_as_append [of "[c]" "[c]" s s] by simp
qed simp

lemma reads_as_simple: "e \<noteq> CHR ''u'' \<Longrightarrow> simple_escape e = Some x \<Longrightarrow> reads_as [CHR 0x5C, e] [x]"
  by (auto simp: reads_as_def json_text.simps map_option_case split: option.splits)

lemma reads_as_unicode:
  "hex4 digits = Some n \<Longrightarrow> length digits = 4 \<Longrightarrow> n < 0xD800 \<Longrightarrow> reads_as (u_escape digits) (utf8_encode n)"
  by (auto simp: reads_as_def json_text.simps u_escape_def unicode_escape_def hex4_def split: list.splits)

lemma go_escape_reads: "go_escape c = Some e \<Longrightarrow> reads_as e c"
proof -
  assume e: "go_escape c = Some e"
  have ascii: "chr 60 = CHR ''<''" "chr 62 = CHR ''>''" "chr 38 = CHR ''&''"
    by code_simp+
  have r: "reads_as (u_escape ''003c'') ''<''" "reads_as (u_escape ''003e'') ''>''"
    "reads_as (u_escape ''0026'') ''&''" "reads_as (u_escape ''2028'') (map chr [0xE2, 0x80, 0xA8])"
    "reads_as (u_escape ''2029'') (map chr [0xE2, 0x80, 0xA9])"
    using reads_as_unicode [of "''003c''" 60] reads_as_unicode [of "''003e''" 62]
      reads_as_unicode [of "''0026''" 38] reads_as_unicode [of "''2028''" 8232]
      reads_as_unicode [of "''2029''" 8233]
      ascii by (simp_all add: hex4_def hex_val_def utf8_encode_def is_digit_def byte_def)
  show ?thesis using e r by (auto simp: go_escape_def split: if_splits)
qed

lemma next_char_split: "utf8_ok s \<Longrightarrow> s \<noteq> [] \<Longrightarrow> utf8_ok (drop (snd (utf8_step s)) s)"
  using utf8_step_ok by (cases s) fastforce+

lemma escape_chars_reads: "utf8_ok s \<Longrightarrow> list_all bare s \<Longrightarrow> reads_as (escape_chars s) s"
proof (induction s rule: escape_chars.induct)
  case (1 s)
  show ?case
  proof (cases "s = []")
    case False
    let ?n = "snd (utf8_step s)"
    have parts: "list_all bare (take ?n s)" "list_all bare (drop ?n s)"
      using 1(3) append_take_drop_id [of ?n s] list_all_append [of bare "take ?n s" "drop ?n s"] by simp_all
    have first: "reads_as (case go_escape (next_char s) of None \<Rightarrow> next_char s | Some e \<Rightarrow> e) (take ?n s)"
      using go_escape_reads reads_as_bare [OF parts(1)] by (simp add: next_char_def split: option.splits)
    have "reads_as (escape_chars (drop ?n s)) (drop ?n s)"
      using 1(1) [OF False] next_char_split [OF 1(2) False] parts(2) by simp
    then have "reads_as (escape_chars s) (take ?n s @ drop ?n s)"
      unfolding escape_chars_step [OF False] by (rule reads_as_append [OF first])
    then show ?thesis by simp
  qed simp
qed

lemma next_char_shape:
  assumes "utf8_ok (a # r)"
  shows "\<exists>t. next_char (a # r) = a # t \<and> list_all is_cont t \<and> (byte a < 128 \<longrightarrow> t = [])"
proof -
  consider "byte a < 128" | "194 \<le> byte a" "byte a \<le> 223" | "224 \<le> byte a" "byte a \<le> 239"
    | "240 \<le> byte a" "byte a \<le> 244"
    using assms by (simp add: Let_def split: if_splits)
  then show ?thesis
  proof cases
    case 1
    then show ?thesis by (simp add: next_char_def utf8_step_def)
  next
    case 2
    then obtain b r' where "r = b # r'" using assms by (cases r) (auto simp: Let_def)
    then show ?thesis using assms 2 by (simp add: Let_def next_char_def utf8_step_def cont_at_def)
  next
    case 3
    then obtain b c r' where "r = b # c # r'"
      using assms by (cases r; cases "tl r") (auto simp: Let_def)
    then show ?thesis using assms 3
      by (simp add: Let_def next_char_def utf8_step_def cont_at_def second_ok_def eval_nat_numeral)
  next
    case 4
    then obtain b c d r' where "r = b # c # d # r'"
      using assms by (cases r; cases "tl r"; cases "tl (tl r)") (auto simp: Let_def)
    then show ?thesis using assms 4
      by (simp add: Let_def next_char_def utf8_step_def cont_at_def second_ok_def eval_nat_numeral)
  qed
qed

definition html_chars :: "char list" where
  "html_chars = [CHR ''<'', CHR ''>'', CHR ''&'']"

lemma html_not_cont: "c \<in> set html_chars \<Longrightarrow> \<not> is_cont c \<and> byte c < 128 \<and> go_escape [c] \<noteq> None"
  by (auto simp: html_chars_def is_cont_def byte_def go_escape_def)

lemma html_escaped:
  assumes "utf8_ok s" "s \<noteq> []" "c \<in> set html_chars"
  shows "c \<notin> set (case go_escape (next_char s) of None \<Rightarrow> next_char s | Some e \<Rightarrow> e)"
proof (cases "go_escape (next_char s)")
  case (Some e)
  then show ?thesis using assms(3) by (auto simp: go_escape_def u_escape_def html_chars_def split: if_splits)
next
  case None
  obtain a r where s: "s = a # r" using assms(2) by (cases s) auto
  obtain t where t: "next_char s = a # t" "list_all is_cont t" "byte a < 128 \<longrightarrow> t = []"
    using next_char_shape assms(1) s by blast
  have "c \<notin> set (a # t)"
  proof
    assume "c \<in> set (a # t)"
    then have "c = a" using t(2) html_not_cont [OF assms(3)] by (auto simp: list_all_iff)
    then show False using t html_not_cont [OF assms(3)] None by auto
  qed
  then show ?thesis using None t(1) by simp
qed

lemma escape_chars_html: "utf8_ok s \<Longrightarrow> c \<in> set html_chars \<Longrightarrow> c \<notin> set (escape_chars s)"
proof (induction s rule: escape_chars.induct)
  case (1 s)
  show ?case
  proof (cases "s = []")
    case False
    then show ?thesis
      using 1 next_char_split [OF 1(2) False] html_escaped [OF 1(2) False 1(3)]
      by (simp add: escape_chars_step)
  qed simp
qed

section \<open>A whole string\<close>

text \<open>What the serializer hands out for one string: its own escapes, and the fragments between them.\<close>

datatype piece = Own string | Fragment string

fun piece_ok :: "piece \<Rightarrow> bool" where
  "piece_ok (Own e) \<longleftrightarrow> (\<exists>v. reads_as e v) \<and> set e \<inter> set html_chars = {}"
| "piece_ok (Fragment f) \<longleftrightarrow> utf8_ok f \<and> list_all bare f"

fun serde_piece :: "piece \<Rightarrow> string" where
  "serde_piece (Own e) = e"
| "serde_piece (Fragment f) = f"

fun go_piece :: "piece \<Rightarrow> string" where
  "go_piece (Own e) = e"
| "go_piece (Fragment f) = write_string_fragment f"

lemma pieces_read:
  "\<forall>p\<in>set ps. piece_ok p \<Longrightarrow>
     \<exists>v. reads_as (concat (map go_piece ps)) v \<and> reads_as (concat (map serde_piece ps)) v"
proof (induction ps)
  case Nil
  show ?case by (intro exI [of _ "[]"]) simp
next
  case (Cons p ps)
  have "\<exists>v. reads_as (go_piece p) v \<and> reads_as (serde_piece p) v"
    using Cons.prems
    by (cases p) (auto simp: fragment_escapes intro: escape_chars_reads reads_as_bare)
  then show ?case using Cons reads_as_append by fastforce
qed

text \<open>
  C24. The escapes added to what \<open>serde_json\<close> writes for a string change how it is written and not what
  it says: a reader gets the same text, and gets one; and no angle bracket or ampersand is left in it.
\<close>

theorem escaping_keeps_the_text:
  assumes "\<forall>p\<in>set ps. piece_ok p"
  shows "json_text (concat (map go_piece ps)) = json_text (concat (map serde_piece ps))
    \<and> json_text (concat (map go_piece ps)) \<noteq> None
    \<and> set (concat (map go_piece ps)) \<inter> set html_chars = {}"
proof (intro conjI)
  obtain v where "reads_as (concat (map go_piece ps)) v" "reads_as (concat (map serde_piece ps)) v"
    using pieces_read assms by blast
  then have "json_text (concat (map go_piece ps)) = Some v" "json_text (concat (map serde_piece ps)) = Some v"
    using reads_as_whole by blast+
  then show "json_text (concat (map go_piece ps)) = json_text (concat (map serde_piece ps))"
    "json_text (concat (map go_piece ps)) \<noteq> None" by simp_all
  have "set (go_piece p) \<inter> set html_chars = {}" if "p \<in> set ps" for p
  proof -
    have "piece_ok p" using assms that by blast
    then show ?thesis by (cases p) (auto simp: fragment_escapes dest: escape_chars_html)
  qed
  then show "set (concat (map go_piece ps)) \<inter> set html_chars = {}" by auto
qed

section \<open>Fractions of a second\<close>

text \<open>\<open>format_go_style\<close> drops the zeros at the end of the nanoseconds, and nothing else.\<close>

lemma trim_end_chars_split: "\<exists>z. s = trim_end_chars cs s @ z \<and> set z \<subseteq> set cs"
proof -
  let ?p = "\<lambda>c. c \<in> set cs"
  have "s = trim_end_chars cs s @ rev (takeWhile ?p (rev s))"
    unfolding trim_end_chars_def
    by (metis rev_append rev_rev_ident takeWhile_dropWhile_id)
  moreover have "set (rev (takeWhile ?p (rev s))) \<subseteq> set cs" by (auto dest: set_takeWhileD)
  ultimately show ?thesis by blast
qed

lemma trim_end_chars_last: "trim_end_chars cs s \<noteq> [] \<Longrightarrow> last (trim_end_chars cs s) \<notin> set cs"
  using hd_dropWhile [of "\<lambda>c. c \<in> set cs" "rev s"] by (simp add: trim_end_chars_def last_rev)

lemma digits_val_zeros: "digits_val 0 (replicate k (CHR ''0'') @ s) = digits_val 0 s"
  by (induction k) (simp_all add: is_digit_def byte_def)

lemma length_show_nat: "n < 10 ^ Suc k \<Longrightarrow> length (show_nat n) \<le> Suc k"
proof (induction k arbitrary: n)
  case (Suc k)
  have "n div 10 < 10 ^ Suc k" using Suc.prems by (simp add: less_mult_imp_div_less)
  then have "length (show_nat (n div 10)) \<le> Suc k" by (rule Suc.IH)
  then show ?case by (subst show_nat.simps) simp
qed (simp add: show_nat.simps)

text \<open>Padded again to nine digits, the fraction is the nanoseconds it was made from.\<close>

theorem fraction_is_exact:
  assumes "0 < n" "n < 10 ^ 9"
  defines "f \<equiv> trim_end_chars [CHR ''0''] (pad0 9 (show_nat n))"
  shows "f \<noteq> [] \<and> last f \<noteq> CHR ''0'' \<and> length f \<le> 9
    \<and> digits_val 0 (f @ replicate (9 - length f) (CHR ''0'')) = Some n"
proof -
  have len: "length (show_nat n) \<le> 9" using length_show_nat [of n 8] assms(2) by simp
  then have nine: "length (pad0 9 (show_nat n)) = 9" by (simp add: pad0_def)
  obtain z where z: "pad0 9 (show_nat n) = f @ z" "set z \<subseteq> {CHR ''0''}"
    using trim_end_chars_split [of "pad0 9 (show_nat n)" "[CHR ''0'']"] unfolding f_def by auto
  have "z = replicate (length z) (CHR ''0'')" using z(2) by (simp add: replicate_eqI subset_iff)
  moreover have "length z = 9 - length f" "length f \<le> 9" using nine z(1) by simp_all
  ultimately have pad: "f @ replicate (9 - length f) (CHR ''0'') = pad0 9 (show_nat n)"
    using z(1) by simp
  have "digits_val 0 (pad0 9 (show_nat n)) = Some n"
    by (simp add: pad0_def digits_val_zeros digits_val_show_nat)
  moreover have "f \<noteq> []"
  proof
    assume "f = []"
    then have "digits_val 0 (pad0 9 (show_nat n)) = Some 0"
      using pad digits_val_zeros [of 9 "[]"] by simp
    then show False using \<open>digits_val 0 (pad0 9 (show_nat n)) = Some n\<close> assms(1) by simp
  qed
  ultimately show ?thesis
    using pad \<open>length f \<le> 9\<close> trim_end_chars_last [of "[CHR ''0'']" "pad0 9 (show_nat n)"]
    unfolding f_def by simp
qed

section \<open>An instance\<close>

definition demo_pieces :: "piece list" where
  "demo_pieces = [Fragment ''<a@b>'', Own [CHR 0x5C, CHR ''n''], Fragment ''c'']"

lemma demo_pieces_ok: "\<forall>p\<in>set demo_pieces. piece_ok p"
proof -
  have "reads_as [CHR 0x5C, CHR ''n''] [CHR 0x0A]"
    by (rule reads_as_simple) (simp_all add: simple_escape_def)
  then show ?thesis
    by (auto simp: demo_pieces_def bare_def byte_def html_chars_def is_cont_def)
qed

theorem escaping_keeps_the_text_witness:
  "json_text (concat (map go_piece demo_pieces)) = json_text (concat (map serde_piece demo_pieces))
    \<and> json_text (concat (map go_piece demo_pieces)) \<noteq> None
    \<and> set (concat (map go_piece demo_pieces)) \<inter> set html_chars = {}"
  by (rule escaping_keeps_the_text [OF demo_pieces_ok])

end
