(* ===== verification/Network.thy ===== *)
theory Network
  imports Config Bytes
begin

text \<open>
  \<open>dns.rs\<close> and \<open>inbound_tls.rs\<close>: what the relay makes of the answers of its resolver, and the
  certificate it shows to the servers that send it mail. The resolver, the reader of PEM files, the
  generator of certificates, what rustls accepts, and the times the files were modified are
  arguments.
\<close>

section \<open>Names\<close>

text \<open>\<open>lookup_mx\<close>: \<open>None\<close> is a lookup that failed. \<open>sort_by_key\<close> is stable, and so is \<open>sort_key\<close>.\<close>

definition lookup_mx :: "(nat \<times> string) list option \<Rightarrow> string list" where
  "lookup_mx response =
    (case response of
       None \<Rightarrow> []
     | Some records \<Rightarrow> map (\<lambda>(_, host). trim_end_chars ''.'' host) (sort_key fst records))"

text \<open>\<open>lookup_txt\<close>: a record is a list of strings, each of at most 255 bytes.\<close>

definition lookup_txt :: "string list list option \<Rightarrow> string list" where
  "lookup_txt response =
    (case response of
       None \<Rightarrow> []
     | Some records \<Rightarrow> map (\<lambda>chunks. concat (map utf8_lossy chunks)) records)"

text \<open>Mail goes to the most preferred exchanger, and among equals to the one the server named first.\<close>

theorem first_exchanger_is_preferred:
  assumes "records \<noteq> []"
  shows "hd (lookup_mx (Some records))
    = trim_end_chars ''.'' (snd (hd (filter (\<lambda>r. fst r = Min (fst ` set records)) records)))"
proof -
  let ?s = "sort_key fst records" and ?m = "Min (fst ` set records)"
  obtain r rs where s: "?s = r # rs"
    using assms by (cases ?s) (auto dest: arg_cong [where f = length])
  have set: "insert r (set rs) = set records" using s set_sort [of fst records] by simp
  have "sorted (map fst (r # rs))" using sorted_sort_key [of fst records] s by simp
  then have "fst r \<le> fst x" if "x \<in> set records" for x using that set by auto
  then have least: "fst r = ?m"
    using set by (intro Min_eqI [symmetric]) auto
  have "filter (\<lambda>x. fst x = ?m) records = filter (\<lambda>x. fst x = ?m) ?s"
    using sort_key_stable [of fst ?m records] by simp
  also have "\<dots> = r # filter (\<lambda>x. fst x = ?m) rs" using s least by simp
  finally show ?thesis using s by (simp add: lookup_mx_def case_prod_unfold)
qed

lemma lookup_mx_length: "length (lookup_mx (Some records)) = length records"
  by (simp add: lookup_mx_def)

text \<open>The record by which a domain says that it takes no mail (RFC 7505) is a host without a name.\<close>

theorem null_exchanger_is_a_host: "lookup_mx (Some [(0, ''.'')]) = [[]]"
  by (simp add: lookup_mx_def trim_end_chars_def)

text \<open>A value is the same however it was cut, as long as no character was.\<close>

theorem txt_value_is_joined:
  assumes "\<forall>r\<in>set records. \<forall>c\<in>set r. utf8_ok c"
  shows "lookup_txt (Some records) = map concat records"
proof -
  have "map utf8_lossy r = r" if "r \<in> set records" for r
    using assms that by (simp add: map_idI)
  then show ?thesis by (simp add: lookup_txt_def)
qed

section \<open>Certificates\<close>

text \<open>
  \<open>pem_certs\<close>, \<open>pem_key\<close>: \<open>rustls_pemfile\<close>, with \<open>None\<close> for a file it cannot read as PEM, and
  \<open>Some None\<close> for one without a private key. \<open>tls_generate\<close>: the PEM texts of a new pair.
  \<open>tls_accepts\<close>: \<open>with_single_cert\<close> takes the pair.
\<close>

record certified_key =
  ck_chain :: "string list"
  ck_key :: string

record tls_env =
  pem_certs :: "string \<Rightarrow> string list option"
  pem_key :: "string \<Rightarrow> string option option"
  tls_generate :: "(string \<times> string) option"
  tls_accepts :: "certified_key \<Rightarrow> bool"

datatype pair_error = Cert_unreadable | No_certificates | Key_unreadable | No_private_key

definition self_signed_paths :: "string \<Rightarrow> string \<times> string" where
  "self_signed_paths data_dir =
    (pjoin data_dir ''smtp-tls-cert.pem'', pjoin data_dir ''smtp-tls-key.pem'')"

definition read_pair :: "tls_env \<Rightarrow> fenv \<Rightarrow> fs \<Rightarrow> string \<Rightarrow> string \<Rightarrow> pair_error + certified_key" where
  "read_pair e v f cert_path key_path =
    (case Option.bind (read_text v f cert_path) (pem_certs e) of
       None \<Rightarrow> Inl Cert_unreadable
     | Some chain \<Rightarrow>
         if chain = [] then Inl No_certificates
         else
           (case Option.bind (read_text v f key_path) (pem_key e) of
              None \<Rightarrow> Inl Key_unreadable
            | Some None \<Rightarrow> Inl No_private_key
            | Some (Some key) \<Rightarrow> Inr \<lparr>ck_chain = chain, ck_key = key\<rparr>))"

text \<open>\<open>Reloader\<close>; \<open>mt p\<close> is the time the file \<open>p\<close> was modified, if it can be asked.\<close>

record reloader =
  r_cert :: string
  r_key :: string
  r_cached :: "(nat \<times> certified_key) option"

definition new_reloader :: "string \<Rightarrow> string \<Rightarrow> reloader" where
  "new_reloader cert_path key_path = \<lparr>r_cert = cert_path, r_key = key_path, r_cached = None\<rparr>"

definition load ::
  "tls_env \<Rightarrow> fenv \<Rightarrow> (string \<Rightarrow> nat option) \<Rightarrow> fs \<Rightarrow> reloader \<Rightarrow> (pair_error + certified_key) \<times> reloader" where
  "load e v mt f r =
    (let modified = mt (r_cert r);
         reread =
           (case read_pair e v f (r_cert r) (r_key r) of
              Inr loaded \<Rightarrow>
                (Inr loaded,
                 case modified of None \<Rightarrow> r | Some m \<Rightarrow> r\<lparr>r_cached := Some (m, loaded)\<rparr>)
            | Inl err \<Rightarrow> (case r_cached r of Some (_, cached) \<Rightarrow> Inr cached | None \<Rightarrow> Inl err, r)) in
     case r_cached r of
       Some (cached_at, key) \<Rightarrow> if modified = Some cached_at then (Inr key, r) else reread
     | None \<Rightarrow> reread)"

text \<open>
  \<open>generate_self_signed\<close>. The parent of the path, whose last component is a name, is the path
  without it.
\<close>

definition parent_dir :: "string \<Rightarrow> string" where
  "parent_dir p = join ''/'' (butlast (split_on (CHR ''/'') p))"

definition generate_self_signed :: "tls_env \<Rightarrow> fenv \<Rightarrow> string \<Rightarrow> string \<Rightarrow> fs \<Rightarrow> bool \<times> fs" where
  "generate_self_signed e v cert_path key_path f =
    (case tls_generate e of
       None \<Rightarrow> (False, f)
     | Some (cert, key) \<Rightarrow>
         (case create_dir_all (parent_dir cert_path) f of
            (False, f1) \<Rightarrow> (False, f1)
          | (True, f1) \<Rightarrow>
              (case fs_write v cert_path (Text cert) f1 of
                 (False, f2) \<Rightarrow> (False, f2)
               | (True, f2) \<Rightarrow> fs_write v key_path (Text key) f2)))"

definition configured_reloader ::
  "tls_env \<Rightarrow> fenv \<Rightarrow> (string \<Rightarrow> nat option) \<Rightarrow> config \<Rightarrow> fs \<Rightarrow> reloader option" where
  "configured_reloader e v mt cfg f =
    (if tls_cert_file cfg \<noteq> [] \<and> tls_key_file cfg \<noteq> [] then
       (case load e v mt f (new_reloader (tls_cert_file cfg) (tls_key_file cfg)) of
          (Inr _, r) \<Rightarrow> Some r
        | (Inl _, _) \<Rightarrow> None)
     else None)"

text \<open>\<open>server_config\<close>: the pair of the TLS configuration, if there is one, and the disk after.\<close>

definition server_config ::
  "tls_env \<Rightarrow> fenv \<Rightarrow> (string \<Rightarrow> nat option) \<Rightarrow> config \<Rightarrow> string \<Rightarrow> fs \<Rightarrow> certified_key option \<times> fs" where
  "server_config e v mt cfg data_dir f =
    (let finish = (\<lambda>r f'.
           (case fst (load e v mt f' r) of
              Inl _ \<Rightarrow> None
            | Inr loaded \<Rightarrow> if tls_accepts e loaded then Some loaded else None, f')) in
     case configured_reloader e v mt cfg f of
       Some r \<Rightarrow> finish r f
     | None \<Rightarrow>
         (case self_signed_paths data_dir of
            (cert_path, key_path) \<Rightarrow>
              (case read_pair e v f cert_path key_path of
                 Inr _ \<Rightarrow> finish (new_reloader cert_path key_path) f
               | Inl _ \<Rightarrow>
                   (case generate_self_signed e v cert_path key_path f of
                      (True, f') \<Rightarrow> finish (new_reloader cert_path key_path) f'
                    | (False, f') \<Rightarrow> (None, f')))))"

text \<open>
  \<open>serve_smtp\<close>: the configuration is built once, and every connection that is accepted is served
  with it. A connection is what it brings and the disk as it is then.
\<close>

definition serve_smtp ::
  "tls_env \<Rightarrow> fenv \<Rightarrow> (string \<Rightarrow> nat option) \<Rightarrow> config \<Rightarrow> string \<Rightarrow> fs
     \<Rightarrow> ('c \<times> fs \<Rightarrow> certified_key option \<Rightarrow> 'r) \<Rightarrow> ('c \<times> fs) list \<Rightarrow> 'r list" where
  "serve_smtp e v mt cfg data_dir f session conns =
    (let tls = fst (server_config e v mt cfg data_dir f) in map (\<lambda>c. session c tls) conns)"

section \<open>Reloading\<close>

text \<open>Loading again and again, with the disk and its times as they are each time.\<close>

fun load_all ::
  "tls_env \<Rightarrow> fenv \<Rightarrow> ((string \<Rightarrow> nat option) \<times> fs) list \<Rightarrow> reloader
     \<Rightarrow> (pair_error + certified_key) list" where
  "load_all e v [] r = []"
| "load_all e v ((mt, f) # ws) r = (case load e v mt f r of (res, r') \<Rightarrow> res # load_all e v ws r')"

lemma load_paths [simp]: "r_cert (snd (load e v mt f r)) = r_cert r" "r_key (snd (load e v mt f r)) = r_key r"
  by (auto simp: load_def Let_def split: option.splits sum.splits)

lemma load_keeps_cache: "r_cached r \<noteq> None \<Longrightarrow> is_ok (fst (load e v mt f r)) \<and> r_cached (snd (load e v mt f r)) \<noteq> None"
  by (auto simp: load_def Let_def is_ok_def split: option.splits sum.splits)

lemma load_fills_cache:
  "is_ok (fst (load e v mt f r)) \<Longrightarrow> mt (r_cert r) \<noteq> None \<Longrightarrow> r_cached (snd (load e v mt f r)) \<noteq> None"
  by (auto simp: load_def Let_def is_ok_def split: option.splits sum.splits)

text \<open>Once it has loaded, whatever becomes of the files, every later load gives a certificate.\<close>

theorem loaded_once_is_loaded:
  assumes "is_ok (fst (load e v mt f r))" "mt (r_cert r) \<noteq> None"
  shows "list_all is_ok (load_all e v ws (snd (load e v mt f r)))"
proof -
  have "r_cached r' \<noteq> None \<Longrightarrow> list_all is_ok (load_all e v ws r')" for r'
  proof (induction ws arbitrary: r')
    case (Cons w ws)
    obtain mt' f' where w: "w = (mt', f')" by (cases w)
    show ?case
      using load_keeps_cache [OF Cons.prems, of e v mt' f'] Cons.IH [of "snd (load e v mt' f' r')"]
      by (simp add: w case_prod_unfold)
  qed simp
  then show ?thesis using load_fills_cache [OF assms] by blast
qed

text \<open>A pair that can be read, under a new time, is the one that is given out.\<close>

theorem renewal_is_loaded:
  assumes "read_pair e v f (r_cert r) (r_key r) = Inr new"
    and "\<forall>m k. r_cached r = Some (m, k) \<longrightarrow> mt (r_cert r) \<noteq> Some m"
  shows "fst (load e v mt f r) = Inr new"
  using assms by (auto simp: load_def Let_def split: option.splits)

text \<open>Only the time of the certificate is looked at: a new key alone is not seen.\<close>

theorem key_alone_is_not_seen:
  assumes "r_cached r = Some (m, old)" "mt (r_cert r) = Some m"
  shows "load e v mt f r = (Inr old, r)"
  using assms by (simp add: load_def Let_def)

section \<open>What the senders see\<close>

text \<open>A configured pair that can be read is the one in use, and nothing is written.\<close>

theorem configured_pair_is_used:
  assumes "tls_cert_file cfg \<noteq> []" "tls_key_file cfg \<noteq> []"
    and "read_pair e v f (tls_cert_file cfg) (tls_key_file cfg) = Inr k" "tls_accepts e k"
  shows "server_config e v mt cfg data_dir f = (Some k, f)"
  using assms
  by (auto simp: server_config_def configured_reloader_def load_def new_reloader_def Let_def
      split: option.splits)

text \<open>Without one, the pair in the data directory is; it is made only where none can be read.\<close>

theorem self_signed_pair_is_used:
  assumes "tls_cert_file cfg = [] \<or> tls_key_file cfg = []"
    and "self_signed_paths data_dir = (c, k)" "read_pair e v f c k = Inr old" "tls_accepts e old"
  shows "server_config e v mt cfg data_dir f = (Some old, f)"
  using assms
  by (auto simp: server_config_def configured_reloader_def load_def new_reloader_def Let_def
      split: option.splits)

lemma written_reads: "fs_write v p (Text t) f = (True, f') \<Longrightarrow> read_text v f' p = Some t"
  using fs_write_cases [of v p "Text t" f True f'] by (auto simp: read_text_def fs_read_def)

lemma written_elsewhere:
  assumes "fs_write v p (Text t) f = (True, f')" "locate f p \<noteq> locate f q"
  shows "read_text v f' q = read_text v f q"
  using fs_write_cases [of v p "Text t" f True f'] assms
  by (cases "locate f q") (auto simp: read_text_def fs_read_def)

lemma generated_pair_reads:
  assumes gen: "generate_self_signed e v c k f = (True, f')" "tls_generate e = Some (cert, key)"
    and paths: "self_signed_paths data_dir = (c, k)"
    and pem: "pem_certs e cert = Some chain" "chain \<noteq> []" "pem_key e key = Some (Some pk)"
  shows "read_pair e v f' c k = Inr \<lparr>ck_chain = chain, ck_key = pk\<rparr>"
proof -
  obtain f1 f2 where w: "fs_write v c (Text cert) f1 = (True, f2)" "fs_write v k (Text key) f2 = (True, f')"
    using gen by (auto simp: generate_self_signed_def split: prod.splits bool.splits)
  have ck: "c = pjoin data_dir ''smtp-tls-cert.pem''" "k = pjoin data_dir ''smtp-tls-key.pem''"
    using paths by (simp_all add: self_signed_paths_def)
  have names: "plain ''smtp-tls-cert.pem''" "plain ''smtp-tls-key.pem''"
    by (simp_all add: plain_def)
  obtain kc where kc: "locate f2 c = Some kc"
    using written_reads [OF w(1)] by (auto simp: read_text_def fs_read_def split: bind_splits)
  obtain kk where kk: "locate f2 k = Some kk" using fs_write_cases [OF w(2)] by auto
  have "last kc \<noteq> last kk"
    using locate_childD [OF names(1) kc [unfolded ck]] locate_childD [OF names(2) kk [unfolded ck]] by auto
  then have "read_text v f' c = Some cert"
    using written_elsewhere [OF w(2), of c] written_reads [OF w(1)] kc kk by auto
  then show ?thesis using written_reads [OF w(2)] pem by (simp add: read_pair_def)
qed

text \<open>A pair that had to be made is in use at once, and the same one is after every restart.\<close>

theorem generated_pair_is_kept:
  assumes "tls_cert_file cfg = [] \<or> tls_key_file cfg = []"
    and "self_signed_paths data_dir = (c, k)" "\<not> is_ok (read_pair e v f c k)"
    and "generate_self_signed e v c k f = (True, f')" "tls_generate e = Some (cert, key)"
    and "pem_certs e cert = Some chain" "chain \<noteq> []" "pem_key e key = Some (Some pk)"
    and "tls_accepts e \<lparr>ck_chain = chain, ck_key = pk\<rparr>"
  shows "server_config e v mt cfg data_dir f = (Some \<lparr>ck_chain = chain, ck_key = pk\<rparr>, f')
    \<and> server_config e v mt' cfg data_dir f' = (Some \<lparr>ck_chain = chain, ck_key = pk\<rparr>, f')"
proof
  note reads = generated_pair_reads [OF assms(4,5,2,6,7,8)]
  show "server_config e v mt cfg data_dir f = (Some \<lparr>ck_chain = chain, ck_key = pk\<rparr>, f')"
    using assms reads
    by (cases "read_pair e v f c k")
      (auto simp: server_config_def configured_reloader_def load_def new_reloader_def is_ok_def Let_def)
  show "server_config e v mt' cfg data_dir f' = (Some \<lparr>ck_chain = chain, ck_key = pk\<rparr>, f')"
    using assms reads
    by (auto simp: server_config_def configured_reloader_def load_def new_reloader_def Let_def)
qed

text \<open>
  The reloader is dropped when the configuration is built: whatever is on disk when a server
  connects, it is shown the pair that was there at the start.
\<close>

theorem renewal_waits_for_restart:
  "serve_smtp e v mt cfg data_dir f (\<lambda>(c, f') tls. (tls, read_pair e v f' cert_path key_path)) conns
    = map (\<lambda>(c, f'). (fst (server_config e v mt cfg data_dir f), read_pair e v f' cert_path key_path)) conns"
  by (simp add: serve_smtp_def Let_def case_prod_unfold)

end
