(* ===== verification/Difftest.thy ===== *)
theory Difftest
  imports Mux Credentials Bytes "HOL-Library.Multiset"
begin

text \<open>
  \<open>xtask\<close>: the harness that replays one scenario against two relays and compares what they
  answered and left on disk. Running the relays, the HTTP client, the regular expressions of the
  filters and the two printers of \<open>serde_json\<close> are arguments; a report is a list of differences,
  whose printing is output, and so are the transcripts. \<open>bench.rs\<close> measures time and is left out.
\<close>

section \<open>What is captured\<close>

datatype aspect = Status

record capture =
  c_name :: string
  c_request :: string
  c_status :: nat
  c_headers :: "(string \<times> string) list"
  c_body :: string
  c_divergence :: "(aspect \<times> string) option"

record side =
  s_label :: string
  s_steps :: "capture list"
  s_data :: "(string, string) btree"
  s_log :: string

datatype diff =
    StatusDiff string string nat nat
  | HeadersDiff string "(string \<times> string) list" "(string \<times> string) list"
  | BodyDiff string string string string
  | DataMissing string string
  | DataContent string string string
  | LogDiff string string
  | StaleDivergence string aspect string

text \<open>\<open>normalize\<close>: the filters in order, each a replacement of every match.\<close>

definition normalize :: "(string \<Rightarrow> string) list \<Rightarrow> string \<Rightarrow> string" where
  "normalize filters input = foldl (\<lambda>out replace_all. replace_all out) input filters"

definition compared_headers :: "string list" where
  "compared_headers =
    [''access-control-allow-origin'', ''access-control-allow-methods'', ''access-control-allow-headers'',
     ''content-type'', ''www-authenticate'', ''location'']"

text \<open>The headers of an answer: \<open>get h\<close> is the value of \<open>h\<close>, if it is there and is text. The
  names differ, so sorting the pairs is sorting the names.\<close>

definition captured_headers :: "(string \<Rightarrow> string option) \<Rightarrow> (string \<times> string) list" where
  "captured_headers get =
    sort_key fst (List.map_filter (\<lambda>h. map_option (Pair h) (get h)) compared_headers)"

text \<open>\<open>metric_names\<close>: one line names a metric or does not.\<close>

definition metric_name :: "string \<Rightarrow> string option" where
  "metric_name line =
    (let l = trim line in
     case strip_prefix ''# TYPE '' l of
       Some rest \<Rightarrow> first_word rest
     | None \<Rightarrow>
         if is_prefix ''#'' l \<or> l = [] then None
         else
           (let n = takeWhile (\<lambda>c. c \<noteq> CHR 0x7B \<and> c \<noteq> CHR '' '') l in if n \<noteq> [] then Some n else None))"

definition metric_names :: "string \<Rightarrow> string" where
  "metric_names body = join [LF] (remdups_adj (sort (List.map_filter metric_name (text_lines body))))"

datatype body_mode = Full | MetricNames

text \<open>The body of an answer as \<open>execute\<close> keeps it; \<open>pretty\<close> is \<open>pretty_if_json\<close>'s printer.\<close>

definition pretty_if_json :: "fenv \<Rightarrow> (json \<Rightarrow> string) \<Rightarrow> string \<Rightarrow> string" where
  "pretty_if_json v pretty body = (case f_parse v body of Some j \<Rightarrow> pretty j | None \<Rightarrow> body)"

definition captured_body ::
  "fenv \<Rightarrow> (json \<Rightarrow> string) \<Rightarrow> (string \<Rightarrow> string) list \<Rightarrow> body_mode \<Rightarrow> string \<Rightarrow> string" where
  "captured_body v pretty filters mode raw =
    (case mode of
       Full \<Rightarrow> pretty_if_json v pretty (normalize filters raw)
     | MetricNames \<Rightarrow> metric_names raw)"

section \<open>The data directory\<close>

fun sort_arrays :: "(json \<Rightarrow> string) \<Rightarrow> json \<Rightarrow> json" where
  "sort_arrays print (JArr xs) = JArr (sort_key print (map (sort_arrays print) xs))"
| "sort_arrays print (JObj kvs) = JObj (map (\<lambda>(k, x). (k, sort_arrays print x)) kvs)"
| "sort_arrays print j = j"

definition sort_json_arrays :: "fenv \<Rightarrow> string \<Rightarrow> string" where
  "sort_json_arrays v text =
    (case f_parse v text of Some j \<Rightarrow> f_print v (sort_arrays (f_print v) j) | None \<Rightarrow> text)"

definition snapshot_value :: "fenv \<Rightarrow> (string \<Rightarrow> string) list \<Rightarrow> string \<Rightarrow> string \<Rightarrow> string" where
  "snapshot_value v filters rel bytes =
    (if utf8_ok bytes
     then normalize filters (if is_suffix ''delta.json'' rel then sort_json_arrays v bytes else bytes)
     else ''<binary, '' @ show_nat (length bytes) @ '' bytes>'')"

text \<open>
  \<open>snapshot_data\<close>: the walk visits every file below the root; the order does not matter, since what
  it fills is a map. A root that is a file cannot be walked.
\<close>

definition snapshot_data ::
  "fenv \<Rightarrow> (string \<Rightarrow> string) list \<Rightarrow> string \<Rightarrow> fs \<Rightarrow> (string, string) btree option" where
  "snapshot_data v filters root f =
    (if \<not> path_exists f root then Some []
     else
       (case locate f root of
          None \<Rightarrow> None
        | Some k \<Rightarrow>
            if is_dir f k then
              Some (foldl
                (\<lambda>out (p, c).
                   (let rel = join ''/'' (drop (length k) p) in
                    bt_ins rel (snapshot_value v filters rel (case_content (f_print v) (\<lambda>s. s) c)) out))
                [] (filter (\<lambda>(p, _). below k p) (fs_files f)))
            else None))"

section \<open>Comparing\<close>

definition sorted_log :: "string \<Rightarrow> string" where
  "sorted_log log = join [LF] (sort (filter (\<lambda>l. trim l \<noteq> []) (text_lines log)))"

definition compare_step :: "bool \<Rightarrow> capture \<Rightarrow> capture \<Rightarrow> diff list" where
  "compare_step expect_divergences a b =
    (case (if expect_divergences then c_divergence a else None) of
       Some (Status, reason) \<Rightarrow>
         if c_status a \<noteq> c_status b then [] else [StaleDivergence (c_name a) Status reason]
     | None \<Rightarrow>
         (if c_status a \<noteq> c_status b
          then [StatusDiff (c_name a) (c_request a) (c_status a) (c_status b)] else []) @
         (if c_headers a \<noteq> c_headers b
          then [HeadersDiff (c_name a) (c_headers a) (c_headers b)] else []) @
         (if c_body a \<noteq> c_body b
          then [BodyDiff (c_name a) (c_request a) (c_body a) (c_body b)] else []))"

definition compare_data :: "side \<Rightarrow> side \<Rightarrow> diff list" where
  "compare_data left right =
    concat (map
      (\<lambda>(path, content).
         (case bt_get (s_data right) path of
            None \<Rightarrow> [DataMissing path (s_label left)]
          | Some other \<Rightarrow> if other \<noteq> content then [DataContent path content other] else []))
      (s_data left)) @
    List.map_filter
      (\<lambda>path. if bt_get (s_data left) path = None then Some (DataMissing path (s_label right)) else None)
      (bt_keys (s_data right))"

definition compare_logs :: "side \<Rightarrow> side \<Rightarrow> diff list" where
  "compare_logs left right =
    (if sorted_log (s_log left) \<noteq> sorted_log (s_log right)
     then [LogDiff (sorted_log (s_log left)) (sorted_log (s_log right))] else [])"

definition compare_with :: "side \<Rightarrow> side \<Rightarrow> bool \<Rightarrow> diff list" where
  "compare_with left right expect_divergences =
    concat (map (\<lambda>(a, b). compare_step expect_divergences a b) (zip (s_steps left) (s_steps right))) @
    compare_data left right @ compare_logs left right"

definition compare :: "side \<Rightarrow> side \<Rightarrow> diff list" where
  "compare left right = compare_with left right True"

definition compare_same_implementation :: "side \<Rightarrow> side \<Rightarrow> diff list" where
  "compare_same_implementation left right = compare_with left right False"

definition is_clean :: "diff list \<Rightarrow> bool" where
  "is_clean report \<longleftrightarrow> report = []"

text \<open>\<open>run\<close>, from the two captured sides to the verdict, and \<open>self_test\<close>, the mutations missed.\<close>

definition verdict :: "bool \<Rightarrow> side \<Rightarrow> side \<Rightarrow> bool" where
  "verdict both_oracle left right =
    is_clean (if both_oracle then compare_same_implementation left right else compare left right)"

definition undetected :: "side \<Rightarrow> ('m \<times> side) list \<Rightarrow> 'm list" where
  "undetected baseline mutated =
    map fst (filter (\<lambda>(_, s). is_clean (compare_same_implementation baseline s)) mutated)"

section \<open>Logs\<close>

lemma split_on_join_sep:
  "list_all (\<lambda>l. x \<notin> set l) ls \<Longrightarrow> ls \<noteq> [] \<Longrightarrow> split_on x (join [x] ls) = ls"
  by (induction ls rule: induct_list012) (simp_all add: split_on_none split_on_append)

lemma join_sep_eq:
  assumes "list_all (\<lambda>l. l \<noteq> [] \<and> x \<notin> set l) ls" "list_all (\<lambda>l. l \<noteq> [] \<and> x \<notin> set l) ms"
  shows "join [x] ls = join [x] ms \<longleftrightarrow> ls = ms"
proof -
  have sep: "list_all (\<lambda>l. x \<notin> set l) ls" "list_all (\<lambda>l. x \<notin> set l) ms"
    using assms by (auto simp: list_all_iff)
  have empty: "join [x] ks = [] \<longleftrightarrow> ks = []" if "list_all (\<lambda>l. l \<noteq> [] \<and> x \<notin> set l) ks" for ks
    using that by (induction ks rule: induct_list012) simp_all
  show ?thesis
  proof
    assume eq: "join [x] ls = join [x] ms"
    show "ls = ms"
    proof (cases "ls = []")
      case True
      then show ?thesis using eq empty [OF assms(2)] by simp
    next
      case False
      then have "ms \<noteq> []" using eq empty [OF assms(1)] by force
      then show ?thesis
        using split_on_join_sep [OF sep(1) False] split_on_join_sep [OF sep(2)] eq by metis
    qed
  qed simp
qed

lemma text_lines_no_LF: "l \<in> set (text_lines s) \<Longrightarrow> LF \<notin> set l"
proof -
  assume l: "l \<in> set (text_lines s)"
  have sub: "LF \<notin> set (or_default k (strip_suffix [CR] k))" if "LF \<notin> set k" for k
    using that by (auto simp: strip_suffix_def or_default_def dest: in_set_takeD)
  have "\<exists>k \<in> set (split_on LF s). l = k \<or> l = or_default k (strip_suffix [CR] k)"
    using l by (auto simp: text_lines_def Let_def dest: in_set_butlastD split: if_splits)
  then show ?thesis using sub split_on_no_sep [of _ LF s] by blast
qed

text \<open>The events of a log: its lines that are not blank, as often as each occurs, in any order.\<close>

definition log_events :: "string \<Rightarrow> string multiset" where
  "log_events log = filter_mset (\<lambda>l. trim l \<noteq> []) (mset (text_lines log))"

lemma sort_eq_mset: "sort xs = sort ys \<longleftrightarrow> mset xs = mset ys"
proof
  assume "mset xs = mset ys"
  then show "sort xs = sort ys" unfolding sorted_list_of_multiset_mset [symmetric] by simp
next
  assume "sort xs = sort ys"
  from arg_cong [OF this, of mset] show "mset xs = mset ys" by simp
qed

lemma sorted_log_eq: "sorted_log l = sorted_log m \<longleftrightarrow> log_events l = log_events m"
proof -
  let ?e = "\<lambda>log. sort (filter (\<lambda>l. trim l \<noteq> []) (text_lines log))"
  have lines: "list_all (\<lambda>l. l \<noteq> [] \<and> LF \<notin> set l) (?e log)" for log
    using text_lines_no_LF by (auto simp: list_all_iff trim_def trim_start_def trim_end_def strip_front.simps)
  have "sorted_log l = sorted_log m \<longleftrightarrow> ?e l = ?e m"
    unfolding sorted_log_def by (rule join_sep_eq [OF lines lines])
  also have "\<dots> \<longleftrightarrow> log_events l = log_events m" by (simp add: sort_eq_mset log_events_def)
  finally show ?thesis .
qed

section \<open>What a clean report says\<close>

lemma compare_data_clean:
  assumes "bt_ok (s_data l)" "bt_ok (s_data r)"
  shows "compare_data l r = [] \<longleftrightarrow> s_data l = s_data r"
proof
  assume clean: "compare_data l r = []"
  have left: "bt_get (s_data r) p = Some c" if "(p, c) \<in> set (s_data l)" for p c
    using clean that by (fastforce simp: compare_data_def split: option.splits if_splits)
  have right: "bt_get (s_data l) p \<noteq> None" if "bt_get (s_data r) p \<noteq> None" for p
  proof -
    have "p \<in> set (bt_keys (s_data r))" using that by (simp add: bt_keys_set)
    then show ?thesis
      using clean by (auto simp: compare_data_def map_filter_def filter_empty_conv split: if_splits)
  qed
  show "s_data l = s_data r"
  proof (rule bt_eqI [OF assms])
    fix p
    show "bt_get (s_data l) p = bt_get (s_data r) p"
      using left [OF bt_get_in_set, of p] right [of p]
      by (cases "bt_get (s_data l) p"; cases "bt_get (s_data r) p") simp_all
  qed
next
  assume eq: "s_data l = s_data r"
  have "bt_get (s_data r) p = Some c" if "(p, c) \<in> set (s_data r)" for p c
    using assms(2) that by (simp add: bt_get_def bt_ok_def strict_sorted_iff)
  then show "compare_data l r = []"
    by (auto simp: compare_data_def eq map_filter_def bt_keys_set filter_empty_conv)
qed

text \<open>Two answers agree: the declared difference is there, or nothing differs.\<close>

definition step_agrees :: "bool \<Rightarrow> capture \<Rightarrow> capture \<Rightarrow> bool" where
  "step_agrees expect_divergences a b \<longleftrightarrow>
    (if expect_divergences \<and> c_divergence a \<noteq> None then c_status a \<noteq> c_status b
     else c_status a = c_status b \<and> c_headers a = c_headers b \<and> c_body a = c_body b)"

lemma compare_step_clean: "compare_step x a b = [] \<longleftrightarrow> step_agrees x a b"
proof (cases "c_divergence a")
  case None
  then show ?thesis by (simp add: compare_step_def step_agrees_def)
next
  case (Some d)
  obtain reason where "d = (Status, reason)" by (cases d; cases "fst d") auto
  then show ?thesis using Some by (simp add: compare_step_def step_agrees_def)
qed

text \<open>
  A clean report: the answers agree pairwise, as far as both sides have them, the data directories
  are the same, and the logs report the same events.
\<close>

theorem clean_report_means_agreement:
  assumes "bt_ok (s_data l)" "bt_ok (s_data r)"
  shows "is_clean (compare_with l r x) \<longleftrightarrow>
    list_all (\<lambda>(a, b). step_agrees x a b) (zip (s_steps l) (s_steps r))
    \<and> s_data l = s_data r \<and> log_events (s_log l) = log_events (s_log r)"
  using compare_data_clean [OF assms] sorted_log_eq [of "s_log l" "s_log r"]
  by (simp add: is_clean_def compare_with_def compare_logs_def compare_step_clean case_prod_unfold list_all_iff)

text \<open>A mutation that the self-test reports as missed left nothing behind in the capture.\<close>

theorem missed_mutation_is_invisible:
  assumes "(m, s) \<in> set mutated" "m \<notin> set (undetected baseline mutated)"
  shows "\<not> is_clean (compare_same_implementation baseline s)"
  using assms by (force simp: undetected_def)

text \<open>
  Where a difference in status is declared and found, no difference in the headers or the body of
  that step is reported.
\<close>

theorem declared_difference_hides_the_rest:
  assumes "c_divergence a = Some d" "c_status a \<noteq> c_status b"
  shows "compare_step True a (b\<lparr>c_headers := hs, c_body := body\<rparr>) = []"
  using assms by (simp add: compare_step_clean step_agrees_def)

section \<open>Change logs on disk\<close>

text \<open>The order of the elements of an array is not compared, as long as equal texts are equal values.\<close>

theorem array_order_is_ignored:
  assumes "mset xs = mset ys" "inj print"
  shows "sort_arrays print (JArr xs) = sort_arrays print (JArr ys)"
proof -
  let ?f = "sort_arrays print"
  have "mset (map ?f xs) = mset (sort_key print (map ?f ys))" using assms(1) by simp
  then have "sort_key print (map ?f xs) = sort_key print (map ?f ys)"
    using assms(2) by (intro sort_key_inj_key_eq) (auto intro: inj_on_subset)
  then show ?thesis by simp
qed

section \<open>The command line\<close>

definition has_flag :: "string list \<Rightarrow> string \<Rightarrow> bool" where
  "has_flag flags name = list_ex (\<lambda>f. f = name) flags"

fun flag_value :: "string list \<Rightarrow> string \<Rightarrow> nat option" where
  "flag_value [] name = None"
| "flag_value (f # fs) name =
    (case strip_prefix (name @ ''='') f of
       Some v \<Rightarrow> parse_unsigned (2 ^ 64) v
     | None \<Rightarrow>
         if f = name then (case fs of [] \<Rightarrow> None | v # _ \<Rightarrow> parse_unsigned (2 ^ 64) v)
         else flag_value fs name)"

theorem flag_spellings_agree:
  "flag_value ((name @ ''='' @ v) # flags) name = flag_value (name # v # flags) name"
  by (simp add: strip_prefix_def is_prefix_def)

fun textwrap_go :: "nat \<Rightarrow> string \<Rightarrow> string list \<Rightarrow> string list" where
  "textwrap_go width cur [] = (if cur \<noteq> [] then [cur] else [])"
| "textwrap_go width cur (word # ws) =
    (let full = cur \<noteq> [] \<and> width < length cur + 1 + length word;
         kept = (if full then [] else cur) in
     (if full then [cur] else []) @
     textwrap_go width ((if kept \<noteq> [] then kept @ '' '' else kept) @ word) ws)"

definition textwrap :: "string \<Rightarrow> nat \<Rightarrow> string list" where
  "textwrap s width = textwrap_go width [] (split_ws s)"

lemma textwrap_go_width:
  "cur = [] \<or> length cur \<le> width \<or> cur \<in> W \<Longrightarrow> set ws \<subseteq> W \<Longrightarrow>
     \<forall>l\<in>set (textwrap_go width cur ws). length l \<le> width \<or> l \<in> W"
proof (induction ws arbitrary: cur)
  case (Cons word ws)
  let ?full = "cur \<noteq> [] \<and> width < length cur + 1 + length word"
  let ?kept = "if ?full then [] else cur"
  let ?next = "(if ?kept \<noteq> [] then ?kept @ '' '' else ?kept) @ word"
  have "length ?next \<le> width \<or> ?next \<in> W" using Cons.prems(2) by auto
  then have "\<forall>l\<in>set (textwrap_go width ?next ws). length l \<le> width \<or> l \<in> W"
    using Cons.prems(2) by (intro Cons.IH) auto
  then show ?case using Cons.prems(1) by (auto simp: Let_def)
qed auto

text \<open>No line is wider than asked, unless it is one word that is.\<close>

theorem wrapped_lines_fit:
  "\<forall>l\<in>set (textwrap s width). length l \<le> width \<or> l \<in> set (split_ws s)"
  using textwrap_go_width [of "[]" width "set (split_ws s)" "split_ws s"] by (simp add: textwrap_def)

end
