(* ===== verification/Spec2Isabelle.thy ===== *)
theory Spec2Isabelle
  imports Transport Serve Queue EmailProps BatchProps AccountsProps CredentialsProps
    Mux IdentityProps StartupProps AnchorProps MimeProps AdminProps RelayLimits
    QueueLive LifetimeWitness GoJson Network Difftest
begin

text \<open>
  jmapsmtp, a mail relay in Rust that serves JMAP over HTTP and speaks SMTP to the world.

  \<^bold>\<open>The program.\<close> Two crates. \<open>crates/jmapsmtp\<close> is the relay: the SMTP server (\<open>smtp_in.rs\<close>),
  the SMTP client (\<open>smtp_out.rs\<close>), the retry queue (\<open>queue.rs\<close>, \<open>queue/policy.rs\<close>, the end of
  \<open>outbound.rs\<close>) and the HTTP edge. \<open>crates/jmapserver\<close> is the JMAP library: the per-account
  store (\<open>store.rs\<close>) and the methods over it (\<open>methods/\<close>). \<open>crates/jmap-types\<close> holds the types
  both exchange. Inbound mail goes from an SMTP session to the stores of the recipients; a
  JMAP client reads and changes its store through the methods; a submission goes from the store
  through the client to the recipients' servers, by way of the queue when they cannot take it.

  \<^bold>\<open>The theories.\<close>
  \<^item> \<open>Prelude\<close>: bytes and text (a Rust string is its UTF-8 bytes, as a char list), slices with
    their panics (\<open>outcome\<close>), the standard library's string and number functions.
  \<^item> \<open>BTree\<close>: \<open>BTreeMap\<close> as a sorted list, behind the interface \<open>key_map\<close>.
  \<^item> \<open>Wire\<close>: line-oriented byte streams, and the contract \<open>data_channel\<close> of a transparent
    channel.
  \<^item> \<open>SmtpIn\<close>: \<open>smtp_in.rs\<close>. A connection is a record of the bytes not yet read, those written,
    the session and what was delivered; a command is a function on it.
  \<^item> \<open>SmtpOut\<close>: \<open>smtp_out.rs\<close>. A conversation is a function on the wire that may fail or panic.
  \<^item> \<open>Transport\<close>: client and server together; interprets \<open>data_channel\<close>.
  \<^item> \<open>Serve\<close>: \<open>serve_session\<close> of \<open>delivery.rs\<close>, a session with its upgrade to TLS.
  \<^item> \<open>Queue\<close>: the queue's policy, its files as a sequence of file operations that may stop
    anywhere, the retry pass, and sending. Whether a failure notice can be stored in the sender's
    account is an argument (\<open>r_filed\<close>); \<open>InboundProps\<close> has what storing it does.
  \<^item> \<open>Json\<close>, \<open>JmapTypes\<close>: JSON values, serde's rules, and the types with their encodings.
  \<^item> \<open>ChangeLog\<close>: folding a change log, and the contracts \<open>versioned\<close> and \<open>versioned_items\<close> of
    a state that keeps one.
  \<^item> \<open>Store\<close>: \<open>store.rs\<close>. \<open>StoreLog\<close>: its operations as one type; interprets the contracts.
    \<open>StoreDisk\<close>: what is on disk is what is in memory, as long as
    no two ids share a file.
  \<^item> \<open>Methods\<close>, \<open>EmailMethods\<close>, \<open>MailboxMethods\<close>: the JMAP methods. \<open>EmailProps\<close>: their
    properties.
  \<^item> \<open>Batch\<close>: \<open>refs.rs\<close>, \<open>dispatch.rs\<close>, \<open>server.rs\<close> of \<open>jmapserver\<close>: a request of several calls
    with references between them. \<open>BatchProps\<close>: its properties.
  \<^item> \<open>Accounts\<close>: \<open>handler.rs\<close>, the table of accounts and aliases and the JMAP handler over it.
    \<open>AccountsProps\<close>: no alias dangles.
  \<^item> \<open>Files\<close>: \<open>std::fs\<close> and \<open>Path\<close> over a tree of files, with failing writes. \<open>Config\<close>:
    \<open>config.rs\<close>, settings and domains.
  \<^item> \<open>Credentials\<close>: static tokens, device keys, sessions, nonces (\<open>authtoken.rs\<close>, \<open>did/\<close>,
    \<open>auth_env.rs\<close>, \<open>bearer.rs\<close>), and the requests on them in sequence. \<open>CredentialsProps\<close>:
    replay, revocation, which login on which device a session comes from.
  \<^item> \<open>Mux\<close>: \<open>gomux.rs\<close>, \<open>routes.rs\<close>, the routing table and its guards.
  \<^item> \<open>Codecs\<close>: \<open>base58.rs\<close>, \<open>zbase32.rs\<close>, and the contract \<open>codec\<close>. \<open>Identity\<close>: reading
    \<open>did:webvh\<close>, the localpart of a SCID, the key directory (\<open>wkd.rs\<close>); interprets \<open>codec\<close>
    twice. \<open>IdentityProps\<close>: names are faithful and safe.
  \<^item> \<open>Envelope\<close>: \<open>cryptenv\<close>, secrets wrapped under a password. \<open>Startup\<close>: \<open>startup.rs\<close> and
    \<open>setup.rs\<close>, the sweep of orphaned data, setup tokens, claiming an account. \<open>StartupProps\<close>:
    what the sweep removes, and that nothing else changes.
  \<^item> \<open>Anchor\<close>: \<open>did/anchor.rs\<close>, \<open>did/bind.rs\<close>, \<open>did/alias_reconcile.rs\<close>, the identity anchor and
    the aliases that follow it. \<open>AnchorProps\<close>: an anchor that fails changes nothing.
  \<^item> \<open>Bytes\<close>: more of the standard library on text. \<open>Mime\<close>: \<open>mime.rs\<close>, reading and writing
    messages. \<open>MimeProps\<close>: encoded words, encrypted mail, multipart bodies, a written message
    read back.
  \<^item> \<open>KeptFile\<close>: the contract \<open>kept_value\<close> of a value kept in one file. \<open>Contacts\<close>: \<open>contacts.rs\<close>
    and \<open>push.rs\<close>, which interpret it. \<open>Admin\<close>: \<open>storage.rs\<close>, \<open>activity.rs\<close>, \<open>admin.rs\<close>, what
    is on disk as the owner and the operator see it. \<open>AdminProps\<close>: the metrics agree with the
    listing, the activity log reads back, and what its rotation keeps.
  \<^item> \<open>Provision\<close>: \<open>did/provision.rs\<close>, \<open>customdomain.rs\<close>, who may have an account or a domain.
    \<open>Dkim\<close>: \<open>dkim.rs\<close>, \<open>dkim_dns.rs\<close>, the signing key and what DNS says of it.
  \<^item> \<open>Http\<close>: requests, responses and credentials as \<open>server.rs\<close> reads and writes them. \<open>Relay\<close>:
    the state behind the routes, \<open>RelayState\<close>. \<open>Handlers\<close>: a function on that state for each route,
    and the dispatch that guards them; \<open>setup_page.rs\<close>. \<open>RelayProps\<close>: what requests can do, as
    steps; every sequence of requests keeps what the steps keep. \<open>ProvisionProps\<close>: who gets an
    account, and how it ends. \<open>RelayLimits\<close>: how far an authenticated request reaches.
  \<^item> \<open>QueueLive\<close>: a message in the queue is settled in the end, sent or given up.
  \<^item> \<open>Autocrypt\<close>: \<open>autocrypt.rs\<close>, \<open>pgp.rs\<close>, the header, the keys on disk, PGP/MIME around a
    ciphertext. \<open>AutocryptProps\<close>, \<open>SealedDocument\<close>: the header is carried whole, and the text in
    the sealed document decodes to the message.
  \<^item> \<open>Submission\<close>: \<open>hooks.rs\<close>, \<open>submit.rs\<close>, the first half of \<open>outbound.rs\<close>, from the envelope of a
    submission to the signed message and the sealed copy. \<open>SubmissionProps\<close>: who may send as
    whom, what of the copy in the store stays readable.
  \<^item> \<open>Inbound\<close>: \<open>delivery.rs\<close>, \<open>webpush.rs\<close>, a received message sealed, filed and announced.
    \<open>InboundProps\<close>: it is filed for each account it is addressed to, and what
    of it stays readable.
  \<^item> \<open>Maintenance\<close>: \<open>maintenance.rs\<close>, the periodic sweep. \<open>MaintenanceProps\<close>: it takes only
    accounts that are not used.
  \<^item> \<open>EndToEnd\<close>: a message from the relay of the sender to the store of the recipient, over the
    wire of \<open>Transport\<close>.
  \<^item> \<open>Lifetime\<close>: the whole process as a step relation \<open>alive\<close>: start, requests, deliveries,
    sweeps, restarts, one after another, and what holds in every state it reaches.
  \<^item> \<open>GoJson\<close>: \<open>go_json.rs\<close>, the escapes of JSON text. \<open>Network\<close>: \<open>dns.rs\<close>, \<open>inbound_tls.rs\<close> and the
    listener of \<open>delivery.rs\<close>, exchangers, certificates and when they are read again.
  \<^item> \<open>Difftest\<close>: the comparison of two relays under \<open>xtask/src/difftest\<close>; what a clean report says.
  \<^item> \<open>MailWitnesses\<close>, \<open>LifetimeWitness\<close>: concrete relays at which the properties of the last
    groups apply.

  \<^bold>\<open>Bounds.\<close> Loops end by a measure on the bytes left to read, so there is no fuel. Counters
  of the store are integers, with \<open>room\<close> the condition that they do not leave \<open>i64\<close>; the
  retry counter is a 32-bit word; paging wraps at 64 bits as the code does in release builds.

  \<^bold>\<open>Not modelled.\<close> The libraries for OpenPGP, RSA and Ed25519, HTTP, TLS and DNS, the clock and
  the random source are not under the repository's sources: what the code takes from them is an
  argument of the definitions. A panic of the random source is left out. Tasks interleave as whole
  steps: a request, a delivery, a retry pass or a sweep runs as one step, as each operation of
  a store does, which holds the store's lock throughout; a task that still holds the store of an
  account removed meanwhile, or of one created again during a send, is not told apart from
  one that looks it up again. \<open>Autocrypt.store_peer_key\<close> is the code's, and nothing in the program
  calls it. Of the developer's tools under \<open>xtask\<close>, starting relays, the scenario and the timings of
  the benchmark are not modelled.
\<close>

end
